(* ===== verification/Prelude.thy ===== *)
theory Prelude
  imports Main "HOL-Library.Word" "HOL-Library.Sublist"
begin

text \<open>
  Shared vocabulary of the development: the error numbers of the C library, C strings as
  byte lists without the terminating NUL, the slash-separated path components that the
  path code of \<^verbatim>\<open>app/src/main/cpp/pdocker_direct_exec.c\<close> works on, and the generic facts on
  lists and sums that several component theories use.
\<close>

unbundle bit_operations_syntax

named_theorems path_simps \<open>evaluation of component lists of paths\<close>

section \<open>Machine integers and error numbers\<close>

type_synonym u8 = "8 word"
type_synonym u32 = "32 word"
type_synonym u64 = "64 word"

datatype errno =
    EPERM | ENOENT | EINTR | EIO | EBADF | EAGAIN | ENOMEM | EACCES | EFAULT | EEXIST
  | EXDEV | ENOTDIR | EISDIR | EINVAL | ENOSPC | ERANGE | ENAMETOOLONG | ENOSYS
  | ELOOP | EOVERFLOW | EMSGSIZE | ENOTSUP | ESRCH | ECHILD | ENOTTY

text \<open>The Linux values (asm-generic), as they appear negated in result registers.\<close>

fun errno_code :: "errno \<Rightarrow> nat" where
  "errno_code EPERM = 1"
| "errno_code ENOENT = 2"
| "errno_code EINTR = 4"
| "errno_code EIO = 5"
| "errno_code EBADF = 9"
| "errno_code EAGAIN = 11"
| "errno_code ENOMEM = 12"
| "errno_code EACCES = 13"
| "errno_code EFAULT = 14"
| "errno_code EEXIST = 17"
| "errno_code EXDEV = 18"
| "errno_code ENOTDIR = 20"
| "errno_code EISDIR = 21"
| "errno_code EINVAL = 22"
| "errno_code ENOSPC = 28"
| "errno_code ERANGE = 34"
| "errno_code ENAMETOOLONG = 36"
| "errno_code ENOSYS = 38"
| "errno_code ELOOP = 40"
| "errno_code EOVERFLOW = 75"
| "errno_code EMSGSIZE = 90"
| "errno_code ENOTSUP = 95"
| "errno_code ESRCH = 3"
| "errno_code ECHILD = 10"
| "errno_code ENOTTY = 25"

lemma errno_code_pos: "0 < errno_code e"
  by (cases e) simp_all

lemma errno_code_le: "errno_code e \<le> 95"
  by (cases e) simp_all

lemma errno_code_inj: "errno_code a = errno_code b \<longleftrightarrow> a = b"
  by (cases a; cases b) simp_all

text \<open>\<open>(unsigned long long)-err\<close>, the value a failing system call leaves in a register.\<close>

definition neg_errno :: "errno \<Rightarrow> u64" where
  "neg_errno e = - of_nat (errno_code e)"

lemma unat_errno: "unat (of_nat (errno_code e) :: u64) = errno_code e"
  using errno_code_le [of e] by (simp add: unat_of_nat)

lemma neg_errno_nonzero [simp]: "neg_errno e \<noteq> 0"
proof
  assume "neg_errno e = 0"
  then have "unat (of_nat (errno_code e) :: u64) = 0" by (simp add: neg_errno_def)
  with errno_code_pos [of e] show False by (simp add: unat_errno)
qed

text \<open>Errors are ordered by their number, so that the order facts of the library apply.\<close>

instantiation errno :: linorder
begin

definition less_eq_errno :: "errno \<Rightarrow> errno \<Rightarrow> bool" where
  "less_eq_errno a b \<longleftrightarrow> errno_code a \<le> errno_code b"

definition less_errno :: "errno \<Rightarrow> errno \<Rightarrow> bool" where
  "less_errno a b \<longleftrightarrow> errno_code a < errno_code b"

instance
  by standard (auto simp: less_eq_errno_def less_errno_def errno_code_inj)

end

section \<open>C strings\<close>

definition PATH_MAX :: nat where
  "PATH_MAX = 4096"

abbreviation slash :: char where
  "slash \<equiv> CHR ''/''"

text \<open>
  \<open>strrchr (s, c)\<close> as the part of \<open>s\<close> after the last \<open>c\<close> and the part before it, or
  \<open>None\<close> when \<open>c\<close> does not occur; \<open>strchr\<close> splits at the first occurrence.
\<close>

fun split_first :: "char \<Rightarrow> string \<Rightarrow> (string \<times> string) option" where
  "split_first c [] = None"
| "split_first c (x # xs) =
     (if x = c then Some ([], xs)
      else map_option (\<lambda>(a, b). (x # a, b)) (split_first c xs))"

fun split_last :: "char \<Rightarrow> string \<Rightarrow> (string \<times> string) option" where
  "split_last c [] = None"
| "split_last c (x # xs) =
     (case split_last c xs of
        Some (a, b) \<Rightarrow> Some (x # a, b)
      | None \<Rightarrow> if x = c then Some ([], xs) else None)"

lemma split_first_Some: "split_first c s = Some (a, b) \<Longrightarrow> s = a @ c # b \<and> c \<notin> set a"
  by (induction s arbitrary: a) (auto split: if_splits)

lemma split_first_None: "split_first c s = None \<longleftrightarrow> c \<notin> set s"
  by (induction s) auto

lemma split_last_None: "split_last c s = None \<longleftrightarrow> c \<notin> set s"
  by (induction s) (auto split: option.splits)

lemma split_last_Some: "split_last c s = Some (a, b) \<Longrightarrow> s = a @ c # b \<and> c \<notin> set b"
  by (induction s arbitrary: a) (auto simp: split_last_None split: option.splits if_splits)

text \<open>\<open>strstr (haystack, needle) != NULL\<close>.\<close>

fun contains :: "string \<Rightarrow> string \<Rightarrow> bool" where
  "contains [] needle = (needle = [])"
| "contains (c # cs) needle = (prefix needle (c # cs) \<or> contains cs needle)"

lemma contains_sublist: "contains h n \<longleftrightarrow> sublist n h"
  by (induction h) (auto simp: sublist_Cons_right)

lemma prefix_append_drop: "prefix p s \<Longrightarrow> s = p @ drop (length p) s"
  by (auto simp: prefix_def)

lemma takeWhile_dropWhile_length: "length (dropWhile P xs) = length xs - length (takeWhile P xs)"
  by (induction xs) auto

section \<open>Path components\<close>

text \<open>
  The non-empty segments between slashes. Two path strings with the same components name
  the same place in a file tree (lexically), whatever their runs of slashes.
\<close>

fun split_slash :: "string \<Rightarrow> string list" where
  "split_slash [] = [[]]"
| "split_slash (c # cs) =
     (if c = slash then [] # split_slash cs
      else (case split_slash cs of [] \<Rightarrow> [[c]] | x # xs \<Rightarrow> (c # x) # xs))"

definition components :: "string \<Rightarrow> string list" where
  "components s = filter (\<lambda>x. x \<noteq> []) (split_slash s)"

text \<open>The absolute path with the given components.\<close>

definition render :: "string list \<Rightarrow> string" where
  "render cs = (if cs = [] then [slash] else concat (map (\<lambda>c. slash # c) cs))"

definition plain_seg :: "string \<Rightarrow> bool" where
  "plain_seg c \<longleftrightarrow> c \<noteq> [] \<and> slash \<notin> set c"

definition proper_seg :: "string \<Rightarrow> bool" where
  "proper_seg c \<longleftrightarrow> plain_seg c \<and> c \<noteq> ''.'' \<and> c \<noteq> ''..''"

lemma split_slash_not_Nil [simp]: "split_slash s \<noteq> []"
  by (induction s) (auto split: list.splits)

lemma split_slash_noslash: "slash \<notin> set s \<Longrightarrow> split_slash s = [s]"
  by (induction s) auto

lemma split_slash_append_slash:
  "split_slash (a @ slash # b) = split_slash a @ split_slash b"
  by (induction a) (auto split: list.splits)

lemma components_Nil [simp, path_simps]: "components [] = []"
  by (simp add: components_def)

lemma components_slash_Cons [simp, path_simps]: "components (slash # s) = components s"
  by (simp add: components_def)

lemma components_append_slash [path_simps]:
  "components (a @ slash # b) = components a @ components b"
  by (simp add: components_def split_slash_append_slash)

lemma components_plain [path_simps]: "plain_seg c \<Longrightarrow> components c = [c]"
  by (simp add: components_def plain_seg_def split_slash_noslash)

lemma components_seg_slash [path_simps]:
  "plain_seg c \<Longrightarrow> components (c @ slash # b) = c # components b"
  by (simp add: components_append_slash components_plain)

lemma components_plain_set: "c \<in> set (components s) \<Longrightarrow> plain_seg c"
proof -
  have "\<forall>c \<in> set (split_slash s). slash \<notin> set c"
    by (induction s) (auto split: list.splits)
  then show "c \<in> set (components s) \<Longrightarrow> plain_seg c"
    by (auto simp: components_def plain_seg_def)
qed

lemma concat_slash_head: "cs \<noteq> [] \<Longrightarrow> \<exists>r. concat (map (\<lambda>c. slash # c) cs) = slash # r"
  by (cases cs) auto

lemma components_concat:
  "\<forall>c \<in> set cs. plain_seg c \<Longrightarrow> components (concat (map (\<lambda>c. slash # c) cs)) = cs"
proof (induction cs)
  case Nil
  then show ?case by simp
next
  case (Cons c cs)
  show ?case
  proof (cases "cs = []")
    case True
    with Cons.prems show ?thesis by (simp add: components_plain)
  next
    case False
    then obtain r where r: "concat (map (\<lambda>c. slash # c) cs) = slash # r"
      using concat_slash_head by blast
    have "components r = cs"
      using Cons.IH Cons.prems r by (metis components_slash_Cons list.set_intros(2))
    with Cons.prems r show ?thesis by (simp add: components_seg_slash)
  qed
qed

lemma components_render [simp, path_simps]:
  "\<forall>c \<in> set cs. plain_seg c \<Longrightarrow> components (render cs) = cs"
  by (auto simp: render_def components_concat)

lemma render_head: "\<exists>r. render cs = slash # r"
  using concat_slash_head by (auto simp: render_def)

lemma render_inj:
  "\<forall>c \<in> set cs. plain_seg c \<Longrightarrow> \<forall>c \<in> set ds. plain_seg c \<Longrightarrow> render cs = render ds \<longleftrightarrow> cs = ds"
  by (metis components_render)

lemma render_snoc: "render (cs @ [c]) = (if cs = [] then slash # c else render cs @ slash # c)"
  by (simp add: render_def)

section \<open>Sums\<close>

lemma sum_bind_cases: "(case x of Inl e \<Rightarrow> Inl e | Inr a \<Rightarrow> f a) = Inr b \<longleftrightarrow> (\<exists>a. x = Inr a \<and> f a = Inr b)"
  by (auto split: sum.splits)

end
