(* ===== verification/Path_Policy.thy ===== *)
theory Path_Policy
  imports Prelude
begin

text \<open>
  The lexical path policy of the direct executor (\<^verbatim>\<open>app/src/main/cpp/pdocker_direct_exec.c\<close>):
  bind specifications and longest-prefix bind lookup, guest-to-host translation, the
  \<open>host_path_is_under_*\<close> confinement tests, lexical normalisation, parents, relative paths.
  \<open>errno + 'a\<close> stands for the negative/zero-positive result codes; a C string that is cut
  off by \<open>snprintf\<close> is the \<open>take\<close> of its buffer. The specification side is the component
  list: \<open>resolve_dots\<close> interprets \<open>.\<close> and \<open>..\<close> on it.
\<close>

section \<open>Bind maps\<close>

record bind_map =
  bm_host :: string
  bm_guest :: string
  bm_readonly :: bool

definition MAX_BIND_MAPS :: nat where
  "MAX_BIND_MAPS = 96"

fun trim_rev :: "string \<Rightarrow> string" where
  "trim_rev (c # d # r) = (if c = slash then trim_rev (d # r) else c # d # r)"
| "trim_rev r = r"

definition trim_trailing_slashes :: "string \<Rightarrow> string" where
  "trim_trailing_slashes path = rev (trim_rev (rev path))"

text \<open>
  \<open>realpath\<close> of the host is a parameter; the table is the list of the first
  \<open>g_bind_map_count\<close> entries.
\<close>

definition parse_bind_spec ::
  "(string \<Rightarrow> string option) \<Rightarrow> bind_map list \<Rightarrow> string \<Rightarrow> bind_map list \<times> bool" where
  "parse_bind_spec realpath maps spec =
     (if spec = [] \<or> MAX_BIND_MAPS \<le> length maps then (maps, False)
      else
        case split_first (CHR '':'') (take (2 * PATH_MAX - 1) spec) of
          None \<Rightarrow> (maps, False)
        | Some (host, rest) \<Rightarrow>
            let (guest, opts) =
                  (case split_first (CHR '':'') rest of
                     None \<Rightarrow> (rest, None)
                   | Some (g, o') \<Rightarrow> (g, Some o'))
            in if host = [] \<or> guest = [] \<or> hd guest \<noteq> slash then (maps, False)
               else
                 let h = (case realpath host of Some r \<Rightarrow> r | None \<Rightarrow> host)
                 in (maps @ [\<lparr>bm_host = trim_trailing_slashes (take (PATH_MAX - 1) h),
                              bm_guest = trim_trailing_slashes (take (PATH_MAX - 1) guest),
                              bm_readonly =
                                (case opts of None \<Rightarrow> False | Some o' \<Rightarrow> contains o' ''ro'')\<rparr>],
                     True))"

definition bind_guest_match :: "bind_map \<Rightarrow> string \<Rightarrow> string option" where
  "bind_guest_match m guest =
     (if bm_guest m = ''/'' then Some guest
      else if \<not> prefix (bm_guest m) guest then None
      else
        let suf = drop (length (bm_guest m)) guest
        in if suf \<noteq> [] \<and> hd suf \<noteq> slash then None else Some suf)"

text \<open>The scan over the table; \<open>len >= best_len\<close> lets a later map of equal length win.\<close>

fun best_bind ::
  "bind_map list \<Rightarrow> string \<Rightarrow> (bind_map \<times> string) option \<Rightarrow> (bind_map \<times> string) option" where
  "best_bind [] guest best = best"
| "best_bind (m # ms) guest best =
     (case bind_guest_match m guest of
        None \<Rightarrow> best_bind ms guest best
      | Some suf \<Rightarrow>
          let best_len = (case best of None \<Rightarrow> 0 | Some (b, _) \<Rightarrow> length (bm_guest b))
          in if best_len \<le> length (bm_guest m) then best_bind ms guest (Some (m, suf))
             else best_bind ms guest best)"

definition resolve_bind_path ::
  "bind_map list \<Rightarrow> string \<Rightarrow> nat \<Rightarrow> errno + string option" where
  "resolve_bind_path maps guest out_len =
     (case best_bind maps guest None of
        None \<Rightarrow> Inr None
      | Some (m, suf) \<Rightarrow>
          let out =
            (if suf = [] then bm_host m
             else if bm_host m = ''/'' then suf
             else bm_host m @ suf)
          in if out_len \<le> length out then Inl ENAMETOOLONG else Inr (Some out))"

section \<open>Confinement tests\<close>

definition host_path_is_under_prefix :: "string \<Rightarrow> string \<Rightarrow> bool" where
  "host_path_is_under_prefix pre path \<longleftrightarrow>
     pre \<noteq> [] \<and> path \<noteq> [] \<and> prefix pre path \<and>
     (let suf = drop (length pre) path in suf = [] \<or> hd suf = slash)"

definition host_path_is_under_bind_host :: "bind_map list \<Rightarrow> string \<Rightarrow> bool" where
  "host_path_is_under_bind_host maps path \<longleftrightarrow>
     (\<exists>m \<in> set maps. host_path_is_under_prefix (bm_host m) path)"

definition host_path_is_under_allowed_host_path ::
  "bind_map list \<Rightarrow> string \<Rightarrow> string \<Rightarrow> bool" where
  "host_path_is_under_allowed_host_path maps rootfs path \<longleftrightarrow>
     host_path_is_under_prefix rootfs path \<or> host_path_is_under_bind_host maps path"

definition host_path_is_under_rootfs :: "string \<Rightarrow> string \<Rightarrow> bool" where
  "host_path_is_under_rootfs rootfs path = host_path_is_under_prefix rootfs path"

section \<open>Guest paths to host paths\<close>

definition should_rewrite_path :: "string \<Rightarrow> string \<Rightarrow> bool" where
  "should_rewrite_path rootfs path =
     (if rootfs = [] \<or> path = [] \<or> hd path \<noteq> slash then False
      else if prefix rootfs path \<and>
              (let suf = drop (length rootfs) path in suf = [] \<or> hd suf = slash)
      then False
      else if prefix ''/proc/'' path \<or> path = ''/proc'' then False
      else if prefix ''/dev/'' path \<or> path = ''/dev'' then False
      else if prefix ''/sys/'' path \<or> path = ''/sys'' then False
      else True)"

text \<open>
  \<open>exists_ok p\<close> is \<open>access (p, F_OK) == 0\<close> and \<open>tty\<close> is \<open>isatty (STDIN_FILENO)\<close>. The
  result is \<open>None\<close> for "leave the path alone" (return 0), the host path with the
  \<open>is_bind\<close> flag otherwise.
\<close>

definition resolve_guest_host_path ::
  "(string \<Rightarrow> bool) \<Rightarrow> bool \<Rightarrow> bind_map list \<Rightarrow> string \<Rightarrow> string \<Rightarrow> nat
     \<Rightarrow> errno + (string \<times> bool) option" where
  "resolve_guest_host_path exists_ok tty maps rootfs guest out_len =
     (if guest = ''/proc'' \<or> prefix ''/proc/'' guest then
        if prefix ''/proc/self/fd'' guest \<or> guest = ''/proc/self/exe'' \<or>
           guest = ''/proc/thread-self/exe'' then Inr None
        else
          let out = rootfs @ ''/.pdocker-proc'' @ drop (length ''/proc'') guest
          in if out_len \<le> length out then Inl ENAMETOOLONG
             else if exists_ok out then Inr (Some (out, False)) else Inr None
      else if guest = ''/dev/tty'' \<and> tty then
        if out_len \<le> length ''/proc/self/fd/0'' then Inl ENAMETOOLONG
        else Inr (Some (''/proc/self/fd/0'', False))
      else if \<not> should_rewrite_path rootfs guest then Inr None
      else
        case resolve_bind_path maps guest out_len of
          Inl e \<Rightarrow> Inl e
        | Inr (Some out) \<Rightarrow> Inr (Some (out, True))
        | Inr None \<Rightarrow>
            let out = rootfs @ guest
            in if out_len \<le> length out then Inl ENAMETOOLONG
               else Inr (Some (out, False)))"

definition should_skip_unix_socket_rewrite :: "string \<Rightarrow> bool" where
  "should_skip_unix_socket_rewrite guest \<longleftrightarrow>
     guest = ''/var/run/nscd/socket'' \<or> guest = ''/run/nscd/socket''"

section \<open>Lexical normalisation\<close>

definition skip_slashes :: "string \<Rightarrow> string" where
  "skip_slashes p = dropWhile (\<lambda>c. c = slash) p"

definition seg_of :: "string \<Rightarrow> string" where
  "seg_of p = takeWhile (\<lambda>c. c \<noteq> slash) p"

definition after_seg :: "string \<Rightarrow> string" where
  "after_seg p = dropWhile (\<lambda>c. c \<noteq> slash) p"

lemma skip_slashes_simps [simp]:
  "skip_slashes [] = []"
  "skip_slashes (c # r) = (if c = slash then skip_slashes r else c # r)"
  by (simp_all add: skip_slashes_def)

lemma seg_of_simps [simp]:
  "seg_of [] = []"
  "seg_of (c # r) = (if c = slash then [] else c # seg_of r)"
  by (simp_all add: seg_of_def)

lemma after_seg_simps [simp]:
  "after_seg [] = []"
  "after_seg (c # r) = (if c = slash then c # r else after_seg r)"
  by (simp_all add: after_seg_def)

lemma length_skip_slashes: "length (skip_slashes p) \<le> length p"
  by (induction p) auto

lemma length_after_seg: "length (after_seg p) \<le> length p"
  by (induction p) auto

lemma skip_slashes_cases: "skip_slashes p = [] \<or> (\<exists>c r. skip_slashes p = c # r \<and> c \<noteq> slash)"
  by (induction p) auto

lemma after_seg_shorter:
  assumes "p \<noteq> []"
  shows "length (after_seg (skip_slashes p)) < length p"
  using skip_slashes_cases [of p]
proof (elim disjE exE conjE)
  fix c r
  assume q: "skip_slashes p = c # r" "c \<noteq> slash"
  have "length (after_seg (c # r)) \<le> length r" using q(2) length_after_seg by simp
  with q length_skip_slashes [of p] show ?thesis by simp
qed (use assms in simp)

function path_has_parent_segment :: "string \<Rightarrow> bool" where
  "path_has_parent_segment p =
     (if p = [] then False
      else
        let p1 = skip_slashes p
        in seg_of p1 = ''..'' \<or> path_has_parent_segment (after_seg p1))"
  by pat_completeness auto
termination
  by (relation "measure length") (auto simp: after_seg_shorter)

declare path_has_parent_segment.simps [simp del]

definition path_parent :: "nat \<Rightarrow> string \<Rightarrow> errno + string" where
  "path_parent out_len path =
     (if out_len = 0 \<or> path = [] then Inl EINVAL
      else if PATH_MAX \<le> length path then Inl ENAMETOOLONG
      else
        case split_last slash (trim_trailing_slashes path) of
          None \<Rightarrow> if out_len \<le> 1 then Inl ENAMETOOLONG else Inr ''.''
        | Some (a, _) \<Rightarrow>
            let tmp = (if a = [] then ''/'' else a)
            in if out_len \<le> length tmp then Inl ENAMETOOLONG else Inr tmp)"

text \<open>
  The loop of \<open>normalize_absolute_path_lexical\<close>: the rest of the input, the output buffer
  and the stack \<open>marks\<close> of buffer lengths, the top first.
\<close>

function nal_loop :: "nat \<Rightarrow> string \<Rightarrow> string \<Rightarrow> nat list \<Rightarrow> errno + string" where
  "nal_loop out_len p out marks =
     (if p = [] then Inr out
      else
        let p1 = skip_slashes p; seg = seg_of p1; rest = after_seg p1
        in if seg = [] \<or> seg = ''.'' then nal_loop out_len rest out marks
           else if seg = ''..'' then
             (case marks of
                [] \<Rightarrow> nal_loop out_len rest out []
              | m # ms \<Rightarrow> nal_loop out_len rest (take m out) ms)
           else if PATH_MAX div 2 \<le> length marks then Inl ENAMETOOLONG
           else if 1 < length out \<and> out_len \<le> length out + 1 then Inl ENAMETOOLONG
           else
             let out1 = (if 1 < length out then out @ [slash] else out)
             in if out_len \<le> length out1 + length seg then Inl ENAMETOOLONG
                else nal_loop out_len rest (out1 @ seg) (length out # marks))"
  by pat_completeness auto
termination
  by (relation "measure (\<lambda>(n, p, out, marks). length p)") (auto simp: after_seg_shorter)

declare nal_loop.simps [simp del]

definition normalize_absolute_path_lexical :: "string \<Rightarrow> nat \<Rightarrow> errno + string" where
  "normalize_absolute_path_lexical path out_len =
     (if path = [] \<or> hd path \<noteq> slash \<or> out_len < 2 then Inl EINVAL
      else nal_loop out_len path ''/'' [])"

text \<open>
  \<open>normalize_guest_path\<close>: \<open>strtok_r\<close> yields the components; at most 256 parts are kept,
  and the loop stops as soon as 256 are held. The output is cut off at \<open>out_len\<close>.
\<close>

fun ngp_parts :: "string list \<Rightarrow> string list \<Rightarrow> string list" where
  "ngp_parts [] parts = rev parts"
| "ngp_parts (t # ts) parts =
     (if 256 \<le> length parts then rev parts
      else if t = ''.'' then ngp_parts ts parts
      else if t = ''..'' then ngp_parts ts (tl parts)
      else ngp_parts ts (t # parts))"

fun ngp_emit :: "nat \<Rightarrow> bool \<Rightarrow> string list \<Rightarrow> string \<Rightarrow> string" where
  "ngp_emit out_len first [] out = out"
| "ngp_emit out_len first (t # ts) out =
     (if length out + 1 < out_len then
        let out1 = (if first then out else out @ [slash])
        in ngp_emit out_len False ts (out1 @ take (out_len - length out1 - 1) t)
      else out)"

definition normalize_guest_path :: "string \<Rightarrow> string \<Rightarrow> nat \<Rightarrow> string" where
  "normalize_guest_path base path out_len =
     (let base' = (if base = [] then ''/'' else base)
      in if path = [] then take (out_len - 1) base'
         else
           let combined = take (PATH_MAX - 1)
                 (if hd path = slash then path else base' @ ''/'' @ path)
           in if out_len = 0 then []
              else ngp_emit out_len True (ngp_parts (components combined) []) ''/'')"

section \<open>Programs, basenames and relative paths\<close>

definition basename_is :: "string \<Rightarrow> string \<Rightarrow> bool" where
  "basename_is path name \<longleftrightarrow>
     (case split_last slash path of None \<Rightarrow> path | Some (_, b) \<Rightarrow> b) = name"

text \<open>\<open>ldconfig_real\<close>: the variable \<open>PDOCKER_DIRECT_LDCONFIG_REAL\<close> is set.\<close>

definition should_skip_ldconfig :: "bool \<Rightarrow> string \<Rightarrow> bool" where
  "should_skip_ldconfig ldconfig_real path \<longleftrightarrow>
     \<not> ldconfig_real \<and> (basename_is path ''ldconfig'' \<or> basename_is path ''ldconfig.real'')"

definition guest_exec_path :: "string \<Rightarrow> string \<Rightarrow> nat \<Rightarrow> string" where
  "guest_exec_path rootfs path out_len =
     take (out_len - 1)
       (let suf = drop (length rootfs) path
        in if prefix rootfs path \<and> (suf = [] \<or> hd suf = slash)
           then (if suf = [] then ''/'' else suf) else path)"

text \<open>
  The character scan of \<open>relative_path_between\<close>: the number of common characters and the
  index of the last slash among them.
\<close>

fun rpb_scan :: "string \<Rightarrow> string \<Rightarrow> nat \<Rightarrow> nat \<Rightarrow> nat \<times> nat" where
  "rpb_scan (a # as) (b # bs) common last_slash =
     (if a = b then rpb_scan as bs (Suc common) (if a = slash then common else last_slash)
      else (common, last_slash))"
| "rpb_scan _ _ common last_slash = (common, last_slash)"

definition strncat_tmp :: "string \<Rightarrow> string \<Rightarrow> string" where
  "strncat_tmp tmp s = take (2 * PATH_MAX - 1) (tmp @ s)"

definition relative_path_between :: "string \<Rightarrow> string \<Rightarrow> nat \<Rightarrow> string option" where
  "relative_path_between from_dir to_path out_len =
     (let (common, ls) = rpb_scan from_dir to_path 0 0;
          last_slash =
            (if drop common from_dir = [] \<and>
                (drop common to_path = [] \<or> hd (drop common to_path) = slash)
             then common else ls)
      in if last_slash = 0 then None
         else
           let ups = foldl (\<lambda>tmp _. strncat_tmp tmp ''../'') []
                       (components (drop last_slash from_dir));
               rest_to = skip_slashes (drop last_slash to_path);
               tmp = (if ups = [] \<and> rest_to = [] then ''.'' else strncat_tmp ups rest_to)
           in if out_len < length tmp + 1 then None else Some tmp)"

end
