(* ===== verification/Path_Cache.thy ===== *)
theory Path_Cache
  imports Path_Policy
begin

text \<open>
  The two lookaside caches of the direct executor's path validation: the validation cache
  (path and \<open>follow_final\<close> to a result code) and the \<open>realpath\<close> cache. Both are direct
  mapped by a 64-bit FNV hash and tagged with a generation counter; invalidation bumps the
  counter, and stores are suppressed while a path-changing system call is in flight. The
  profile counters (\<open>g_path_stats\<close>) are diagnostics and left out.

  The interface of such a cache is the locale \<open>lookaside\<close>; both caches interpret it.
\<close>

section \<open>The contract\<close>

definition coherent :: "('c \<Rightarrow> 'k \<Rightarrow> 'v option) \<Rightarrow> ('k \<Rightarrow> 'v option) \<Rightarrow> 'c \<Rightarrow> bool" where
  "coherent get f c \<longleftrightarrow> (\<forall>k v. get c k = Some v \<longrightarrow> f k = Some v)"

locale lookaside =
  fixes get :: "'c \<Rightarrow> 'k \<Rightarrow> 'v option"
    and put :: "'c \<Rightarrow> 'k \<Rightarrow> 'v \<Rightarrow> 'c"
    and flush :: "'c \<Rightarrow> 'c"
    and inv :: "'c \<Rightarrow> bool"
    and key_ok :: "'k \<Rightarrow> bool"
    and val_ok :: "'v \<Rightarrow> bool"
  assumes get_put: "inv c \<Longrightarrow> key_ok k \<Longrightarrow> val_ok v \<Longrightarrow> get (put c k v) k' = Some w
      \<Longrightarrow> (k' = k \<and> w = v) \<or> get c k' = Some w"
    and get_flush: "inv c \<Longrightarrow> get (flush c) k = None"
    and inv_put: "inv c \<Longrightarrow> inv (put c k v)"
    and inv_flush: "inv c \<Longrightarrow> inv (flush c)"
begin

lemma coherent_flush: "inv c \<Longrightarrow> coherent get g (flush c)"
  by (simp add: coherent_def get_flush)

lemma coherent_put:
  "inv c \<Longrightarrow> coherent get f c \<Longrightarrow> key_ok k \<Longrightarrow> val_ok v \<Longrightarrow> f k = Some v \<Longrightarrow> coherent get f (put c k v)"
  unfolding coherent_def using get_put by blast

lemma coherent_hit: "coherent get f c \<Longrightarrow> get c k = Some v \<Longrightarrow> f k = Some v"
  by (simp add: coherent_def)

end

section \<open>The cache state\<close>

record validation_entry =
  ve_generation :: u64
  ve_follow_final :: bool
  ve_rc :: "errno option"  \<comment> \<open>\<open>None\<close> is the result code 0\<close>
  ve_host :: string

record realpath_entry =
  re_generation :: u64
  re_path :: string
  re_resolved :: string

record path_cache =
  pc_enabled :: bool
  pc_store_disabled :: nat
  pc_mutation_inflight :: nat
  pc_generation :: u64
  pc_validation :: "nat \<Rightarrow> validation_entry"
  pc_realpath :: "nat \<Rightarrow> realpath_entry"

definition PATH_VALIDATION_CACHE_SIZE :: nat where
  "PATH_VALIDATION_CACHE_SIZE = 512"

definition PATH_REALPATH_CACHE_SIZE :: nat where
  "PATH_REALPATH_CACHE_SIZE = 256"

definition validation_zero :: validation_entry where
  "validation_zero = \<lparr>ve_generation = 0, ve_follow_final = False, ve_rc = None, ve_host = []\<rparr>"

definition realpath_zero :: realpath_entry where
  "realpath_zero = \<lparr>re_generation = 0, re_path = [], re_resolved = []\<rparr>"

text \<open>The reset of \<open>run_command\<close>.\<close>

definition path_cache_init :: "bool \<Rightarrow> path_cache" where
  "path_cache_init enabled =
     \<lparr>pc_enabled = enabled, pc_store_disabled = 0, pc_mutation_inflight = 0, pc_generation = 1,
      pc_validation = (\<lambda>_. validation_zero), pc_realpath = (\<lambda>_. realpath_zero)\<rparr>"

definition path_cache_hash :: "string \<Rightarrow> nat \<Rightarrow> u64" where
  "path_cache_hash s salt =
     foldl (\<lambda>h c. (h XOR of_nat (of_char c)) * 1099511628211)
       (1469598103934665603 XOR of_nat salt) s"

definition invalidate_path_caches :: "path_cache \<Rightarrow> path_cache" where
  "invalidate_path_caches pc =
     (let g = pc_generation pc + 1
      in if g = 0
         then pc\<lparr>pc_generation := 1, pc_validation := (\<lambda>_. validation_zero),
                 pc_realpath := (\<lambda>_. realpath_zero)\<rparr>
         else pc\<lparr>pc_generation := g\<rparr>)"

definition begin_path_cache_mutation :: "path_cache \<Rightarrow> path_cache" where
  "begin_path_cache_mutation pc =
     (let pc1 = invalidate_path_caches pc
      in pc1\<lparr>pc_mutation_inflight := pc_mutation_inflight pc1 + 1,
             pc_store_disabled := pc_store_disabled pc1 + 1\<rparr>)"

text \<open>The guards \<open>> 0\<close> of the C code are the cut-off of \<open>nat\<close> subtraction.\<close>

definition finish_path_cache_mutation :: "path_cache \<Rightarrow> path_cache" where
  "finish_path_cache_mutation pc =
     pc\<lparr>pc_mutation_inflight := pc_mutation_inflight pc - 1,
        pc_store_disabled := pc_store_disabled pc - 1\<rparr>"

definition validation_slot :: "string \<Rightarrow> bool \<Rightarrow> nat" where
  "validation_slot host follow =
     unat (path_cache_hash host (if follow then 1 else 0)) mod PATH_VALIDATION_CACHE_SIZE"

definition path_validation_cache_get ::
  "path_cache \<Rightarrow> string \<Rightarrow> bool \<Rightarrow> errno option option" where
  "path_validation_cache_get pc host follow =
     (if \<not> pc_enabled pc \<or> host = [] then None
      else
        let e = pc_validation pc (validation_slot host follow)
        in if ve_generation e = pc_generation pc \<and> ve_follow_final e = follow \<and> ve_host e = host
           then Some (ve_rc e) else None)"

definition path_validation_cache_put ::
  "path_cache \<Rightarrow> string \<Rightarrow> bool \<Rightarrow> errno option \<Rightarrow> path_cache" where
  "path_validation_cache_put pc host follow rc =
     (if \<not> pc_enabled pc \<or> pc_store_disabled pc \<noteq> 0 \<or> pc_mutation_inflight pc > 0 \<or> host = []
      then pc
      else if rc \<noteq> None then pc
      else
        pc\<lparr>pc_validation := (pc_validation pc)(validation_slot host follow :=
             \<lparr>ve_generation = pc_generation pc, ve_follow_final = follow, ve_rc = rc,
              ve_host = take (PATH_MAX - 1) host\<rparr>)\<rparr>)"

definition realpath_slot :: "string \<Rightarrow> nat" where
  "realpath_slot path = unat (path_cache_hash path 17) mod PATH_REALPATH_CACHE_SIZE"

text \<open>The hit and the store of \<open>cached_realpath\<close>.\<close>

definition realpath_cache_get :: "path_cache \<Rightarrow> string \<Rightarrow> string option" where
  "realpath_cache_get pc path =
     (if \<not> pc_enabled pc \<or> path = [] then None
      else
        let e = pc_realpath pc (realpath_slot path)
        in if re_generation e = pc_generation pc \<and> re_path e = path
           then Some (take (PATH_MAX - 1) (re_resolved e)) else None)"

definition realpath_cache_put :: "path_cache \<Rightarrow> string \<Rightarrow> string \<Rightarrow> path_cache" where
  "realpath_cache_put pc path resolved =
     (if \<not> pc_enabled pc \<or> path = [] \<or> pc_store_disabled pc \<noteq> 0 \<or> pc_mutation_inflight pc > 0
      then pc
      else
        pc\<lparr>pc_realpath := (pc_realpath pc)(realpath_slot path :=
             \<lparr>re_generation = pc_generation pc, re_path = take (PATH_MAX - 1) path,
              re_resolved = take (PATH_MAX - 1) resolved\<rparr>)\<rparr>)"

text \<open>\<open>rp\<close> is the \<open>realpath\<close> of the host at the moment of the call.\<close>

definition cached_realpath ::
  "(string \<Rightarrow> errno + string) \<Rightarrow> path_cache \<Rightarrow> string \<Rightarrow> (errno + string) \<times> path_cache" where
  "cached_realpath rp pc path =
     (case realpath_cache_get pc path of
        Some r \<Rightarrow> (Inr r, pc)
      | None \<Rightarrow>
          (case rp path of
             Inl e \<Rightarrow> (Inl e, pc)
           | Inr r \<Rightarrow> (Inr r, realpath_cache_put pc path r)))"

section \<open>The cache invariant\<close>

definition path_cache_inv :: "path_cache \<Rightarrow> bool" where
  "path_cache_inv pc \<longleftrightarrow> pc_generation pc \<noteq> 0 \<and>
     (\<forall>i. ve_generation (pc_validation pc i) \<le> pc_generation pc) \<and>
     (\<forall>i. re_generation (pc_realpath pc i) \<le> pc_generation pc)"

lemma path_cache_inv_init: "path_cache_inv (path_cache_init b)"
  by (simp add: path_cache_inv_def path_cache_init_def validation_zero_def realpath_zero_def)

lemma word_succ_gt: "g + 1 \<noteq> 0 \<Longrightarrow> x \<le> g \<Longrightarrow> x < g + (1 :: u64)"
  using unatSuc [of g] by (simp add: word_le_nat_alt word_less_nat_alt add.commute)

lemma invalidate_inv: "path_cache_inv pc \<Longrightarrow> path_cache_inv (invalidate_path_caches pc)"
  using word_succ_gt [of "pc_generation pc"]
  by (auto simp: path_cache_inv_def invalidate_path_caches_def Let_def validation_zero_def
      realpath_zero_def less_imp_le)

lemma begin_inv: "path_cache_inv pc \<Longrightarrow> path_cache_inv (begin_path_cache_mutation pc)"
  using invalidate_inv [of pc]
  by (simp add: begin_path_cache_mutation_def path_cache_inv_def Let_def)

lemma finish_inv: "path_cache_inv pc \<Longrightarrow> path_cache_inv (finish_path_cache_mutation pc)"
  by (simp add: finish_path_cache_mutation_def path_cache_inv_def)

lemma validation_put_inv: "path_cache_inv pc \<Longrightarrow> path_cache_inv (path_validation_cache_put pc h f rc)"
  by (simp add: path_validation_cache_put_def path_cache_inv_def)

lemma realpath_put_inv: "path_cache_inv pc \<Longrightarrow> path_cache_inv (realpath_cache_put pc p r)"
  by (simp add: realpath_cache_put_def path_cache_inv_def)

lemma invalidate_stale:
  assumes "path_cache_inv pc"
  shows "ve_generation (pc_validation (invalidate_path_caches pc) i) \<noteq> pc_generation (invalidate_path_caches pc)"
    and "re_generation (pc_realpath (invalidate_path_caches pc) i) \<noteq> pc_generation (invalidate_path_caches pc)"
proof -
  have lt: "x \<le> pc_generation pc \<Longrightarrow> pc_generation pc + 1 \<noteq> 0 \<Longrightarrow> x \<noteq> pc_generation pc + 1" for x
    using word_succ_gt [of "pc_generation pc" x] by auto
  show "ve_generation (pc_validation (invalidate_path_caches pc) i) \<noteq> pc_generation (invalidate_path_caches pc)"
    using assms lt by (simp add: path_cache_inv_def invalidate_path_caches_def Let_def validation_zero_def)
  show "re_generation (pc_realpath (invalidate_path_caches pc) i) \<noteq> pc_generation (invalidate_path_caches pc)"
    using assms lt by (simp add: path_cache_inv_def invalidate_path_caches_def Let_def realpath_zero_def)
qed

section \<open>Both caches meet the contract\<close>

abbreviation vget :: "path_cache \<Rightarrow> string \<times> bool \<Rightarrow> errno option option" where
  "vget pc k \<equiv> path_validation_cache_get pc (fst k) (snd k)"

abbreviation vput :: "path_cache \<Rightarrow> string \<times> bool \<Rightarrow> errno option \<Rightarrow> path_cache" where
  "vput pc k rc \<equiv> path_validation_cache_put pc (fst k) (snd k) rc"

lemma validation_get_put:
  assumes "length h < PATH_MAX" "path_validation_cache_get (path_validation_cache_put pc h f rc) h' f' = Some w"
  shows "(h' = h \<and> f' = f \<and> w = rc) \<or> path_validation_cache_get pc h' f' = Some w"
proof (cases "path_validation_cache_put pc h f rc = pc")
  case True
  with assms(2) show ?thesis by simp
next
  case False
  have t: "take (PATH_MAX - 1) h = h" using assms(1) by simp
  from False have put: "path_validation_cache_put pc h f rc =
      pc\<lparr>pc_validation := (pc_validation pc)(validation_slot h f :=
        \<lparr>ve_generation = pc_generation pc, ve_follow_final = f, ve_rc = rc, ve_host = h\<rparr>)\<rparr>"
    unfolding path_validation_cache_put_def t by presburger
  show ?thesis
  proof (cases "validation_slot h' f' = validation_slot h f")
    case True
    have "path_validation_cache_get (path_validation_cache_put pc h f rc) h' f' =
        (if \<not> pc_enabled pc \<or> h' = [] then None else if f = f' \<and> h = h' then Some rc else None)"
      unfolding put by (simp add: path_validation_cache_get_def Let_def True)
    with assms(2) show ?thesis by (simp only: split: if_splits) simp_all
  next
    case False
    have "path_validation_cache_get (path_validation_cache_put pc h f rc) h' f' = path_validation_cache_get pc h' f'"
      unfolding put by (simp add: path_validation_cache_get_def Let_def False)
    with assms(2) show ?thesis by simp
  qed
qed

lemma realpath_get_put:
  assumes "length p < PATH_MAX" "length r < PATH_MAX"
    and "realpath_cache_get (realpath_cache_put pc p r) p' = Some w"
  shows "(p' = p \<and> w = r) \<or> realpath_cache_get pc p' = Some w"
proof (cases "realpath_cache_put pc p r = pc")
  case True
  with assms(3) show ?thesis by simp
next
  case False
  have t: "take (PATH_MAX - 1) p = p" "take (PATH_MAX - 1) r = r" using assms(1,2) by simp_all
  from False have put: "realpath_cache_put pc p r =
      pc\<lparr>pc_realpath := (pc_realpath pc)(realpath_slot p :=
        \<lparr>re_generation = pc_generation pc, re_path = p, re_resolved = r\<rparr>)\<rparr>"
    unfolding realpath_cache_put_def t by presburger
  show ?thesis
  proof (cases "realpath_slot p' = realpath_slot p")
    case True
    have "realpath_cache_get (realpath_cache_put pc p r) p' =
        (if \<not> pc_enabled pc \<or> p' = [] then None else if p = p' then Some (take (PATH_MAX - 1) r) else None)"
      unfolding put by (simp add: realpath_cache_get_def Let_def True)
    with assms(3) t(2) show ?thesis by (simp only: split: if_splits) simp_all
  next
    case False
    have "realpath_cache_get (realpath_cache_put pc p r) p' = realpath_cache_get pc p'"
      unfolding put by (simp add: realpath_cache_get_def Let_def False)
    with assms(3) show ?thesis by simp
  qed
qed

interpretation vc: lookaside vget vput invalidate_path_caches path_cache_inv
    "\<lambda>k. length (fst k) < PATH_MAX" "\<lambda>_. True"
proof unfold_locales
  fix c and k :: "string \<times> bool" and v k' w
  assume "length (fst k) < PATH_MAX" "vget (vput c k v) k' = Some w"
  from validation_get_put [OF this] show "(k' = k \<and> w = v) \<or> vget c k' = Some w"
    by (simp add: prod_eq_iff)
next
  fix c and k :: "string \<times> bool"
  assume "path_cache_inv c"
  then show "vget (invalidate_path_caches c) k = None"
    by (simp add: path_validation_cache_get_def Let_def invalidate_stale)
qed (simp_all add: validation_put_inv invalidate_inv)

interpretation rc: lookaside realpath_cache_get realpath_cache_put invalidate_path_caches path_cache_inv
    "\<lambda>k. length k < PATH_MAX" "\<lambda>v. length v < PATH_MAX"
proof unfold_locales
  fix c k v k' w
  assume "length k < PATH_MAX" "length v < PATH_MAX" "realpath_cache_get (realpath_cache_put c k v) k' = Some w"
  then show "(k' = k \<and> w = v) \<or> realpath_cache_get c k' = Some w" by (rule realpath_get_put)
next
  fix c k
  assume "path_cache_inv c"
  then show "realpath_cache_get (invalidate_path_caches c) k = None"
    by (simp add: realpath_cache_get_def Let_def invalidate_stale)
qed (simp_all add: realpath_put_inv invalidate_inv)

end
