(* ===== verification/Path_Lexical.thy ===== *)
theory Path_Lexical
  imports Path_Policy
begin

text \<open>
  What the lexical path code computes, stated on component lists: the two normalisers
  refine \<open>resolve_dots\<close>, the parent-segment scan and the confinement test are list
  predicates, bind lookup is longest-prefix, and relative paths lead back to their target.
\<close>

section \<open>The component view of a scan\<close>

lemma components_skip: "components (skip_slashes p) = components p"
  by (induction p) auto

lemma after_seg_cases: "after_seg p = [] \<or> (\<exists>r. after_seg p = slash # r)"
  by (induction p) auto

lemma seg_of_append: "seg_of p @ after_seg p = p"
  by (simp add: seg_of_def after_seg_def)

lemma plain_seg_of: "seg_of q \<noteq> [] \<Longrightarrow> plain_seg (seg_of q)"
  unfolding plain_seg_def seg_of_def by (metis (mono_tags, lifting) set_takeWhileD)

lemma components_seg_split:
  assumes "seg_of p \<noteq> []"
  shows "components p = seg_of p # components (after_seg p)"
proof -
  have "components (seg_of p @ after_seg p) = seg_of p # components (after_seg p)"
    using after_seg_cases [of p] plain_seg_of [OF assms]
    by (elim disjE exE) (simp_all add: components_plain components_seg_slash)
  then show ?thesis by (simp only: seg_of_append)
qed

lemma seg_of_skip_Nil: "seg_of (skip_slashes p) = [] \<Longrightarrow> skip_slashes p = []"
  using skip_slashes_cases [of p] by (elim disjE exE conjE) simp_all

lemma components_step:
  "components p =
     (if seg_of (skip_slashes p) = [] then []
      else seg_of (skip_slashes p) # components (after_seg (skip_slashes p)))"
proof (cases "seg_of (skip_slashes p) = []")
  case True
  have "components (skip_slashes p) = []" by (simp only: seg_of_skip_Nil [OF True] components_Nil)
  with True show ?thesis by (simp add: components_skip)
next
  case False
  from components_seg_split [OF this] False show ?thesis by (simp add: components_skip)
qed

lemma path_has_parent_segment_iff: "path_has_parent_segment p \<longleftrightarrow> ''..'' \<in> set (components p)"
proof (induction p rule: path_has_parent_segment.induct)
  case (1 p)
  show ?case
  proof (cases "p = []")
    case True
    then show ?thesis by (simp add: path_has_parent_segment.simps)
  next
    case False
    then have "path_has_parent_segment p \<longleftrightarrow>
        seg_of (skip_slashes p) = ''..'' \<or> ''..'' \<in> set (components (after_seg (skip_slashes p)))"
      using 1 by (subst path_has_parent_segment.simps) (simp add: Let_def)
    then show ?thesis
      using components_step [of p] seg_of_skip_Nil [of p]
      by (cases "seg_of (skip_slashes p) = []") auto
  qed
qed

section \<open>The specification: interpreting dots\<close>

definition dot_step :: "string list \<Rightarrow> string \<Rightarrow> string list" where
  "dot_step st c = (if c = ''.'' then st else if c = ''..'' then tl st else c # st)"

definition resolve_dots :: "string list \<Rightarrow> string list" where
  "resolve_dots cs = rev (foldl dot_step [] cs)"

lemma foldl_dot_step_proper:
  "\<forall>c \<in> set st. proper_seg c \<Longrightarrow> \<forall>c \<in> set cs. plain_seg c
     \<Longrightarrow> \<forall>c \<in> set (foldl dot_step st cs). proper_seg c"
proof (induction cs arbitrary: st)
  case Nil
  then show ?case by simp
next
  case (Cons c cs)
  have "\<forall>d \<in> set (dot_step st c). proper_seg d"
    using Cons.prems by (cases st) (auto simp: dot_step_def proper_seg_def)
  with Cons show ?case by simp
qed

lemma resolve_dots_proper: "\<forall>c \<in> set cs. plain_seg c \<Longrightarrow> \<forall>c \<in> set (resolve_dots cs). proper_seg c"
  using foldl_dot_step_proper [of "[]" cs] by (simp add: resolve_dots_def)

lemma foldl_dot_step_id:
  "\<forall>c \<in> set cs. proper_seg c \<Longrightarrow> foldl dot_step st cs = rev cs @ st"
  by (induction cs arbitrary: st) (auto simp: dot_step_def proper_seg_def)

lemma resolve_dots_id: "\<forall>c \<in> set cs. proper_seg c \<Longrightarrow> resolve_dots cs = cs"
  by (simp add: resolve_dots_def foldl_dot_step_id)

lemma resolve_dots_components_proper: "\<forall>c \<in> set (resolve_dots (components p)). proper_seg c"
  by (rule resolve_dots_proper) (simp add: components_plain_set)

lemma proper_seg_plain: "proper_seg c \<Longrightarrow> plain_seg c"
  by (simp add: proper_seg_def)

section \<open>\<open>normalize_absolute_path_lexical\<close> refines the specification\<close>

fun marks_of :: "string list \<Rightarrow> nat list" where
  "marks_of [] = []"
| "marks_of (c # st) = length (render (rev st)) # marks_of st"

lemma length_marks_of [simp]: "length (marks_of st) = length st"
  by (induction st) auto

lemma take_render_snoc: "take (length (render (rev st))) (render (rev st @ [c])) = render (rev st)"
  by (cases "st = []") (auto simp: render_snoc, simp add: render_def)

lemma render_length_1: "\<forall>c \<in> set st. plain_seg c \<Longrightarrow> 1 < length (render (rev st)) \<longleftrightarrow> st \<noteq> []"
proof (cases st)
  case (Cons c r)
  assume "\<forall>c \<in> set st. plain_seg c"
  then have "0 < length c" using Cons by (simp add: plain_seg_def)
  with Cons show ?thesis by (cases "r = []") (auto simp: render_snoc, simp add: render_def)
qed (simp add: render_def)

lemma nal_push:
  "\<forall>c \<in> set st. plain_seg c \<Longrightarrow>
   (if 1 < length (render (rev st)) then render (rev st) @ [slash] else render (rev st)) @ seg
     = render (rev (seg # st))"
  using render_length_1 [of st] by (auto simp: render_snoc) (simp add: render_def)

lemma nal_loop_spec:
  assumes "nal_loop n p (render (rev st)) (marks_of st) = Inr out"
    and "\<forall>c \<in> set st. plain_seg c"
  shows "out = render (rev (foldl dot_step st (components p)))"
  using assms
proof (induction "length p" arbitrary: p st rule: less_induct)
  case less
  show ?case
  proof (cases "p = []")
    case True
    with less.prems show ?thesis by (simp add: nal_loop.simps)
  next
    case False
    define q where "q = skip_slashes p"
    have IH: "\<And>st'. nal_loop n (after_seg q) (render (rev st')) (marks_of st') = Inr out \<Longrightarrow>
        \<forall>c \<in> set st'. plain_seg c \<Longrightarrow> out = render (rev (foldl dot_step st' (components (after_seg q))))"
      using less.hyps after_seg_shorter [OF False] by (simp add: q_def)
    have comp: "components p = (if seg_of q = [] then [] else seg_of q # components (after_seg q))"
      using components_step [of p] by (simp add: q_def)
    have nil: "seg_of q = [] \<Longrightarrow> components (after_seg q) = []"
      using seg_of_skip_Nil [of p] unfolding q_def by (metis after_seg_simps(1) components_Nil)
    have step: "nal_loop n p (render (rev st)) (marks_of st) =
        (if seg_of q = [] \<or> seg_of q = ''.'' then nal_loop n (after_seg q) (render (rev st)) (marks_of st)
         else if seg_of q = ''..'' then
           (case marks_of st of
              [] \<Rightarrow> nal_loop n (after_seg q) (render (rev st)) []
            | m # ms \<Rightarrow> nal_loop n (after_seg q) (take m (render (rev st))) ms)
         else if PATH_MAX div 2 \<le> length st then Inl ENAMETOOLONG
         else if 1 < length (render (rev st)) \<and> n \<le> length (render (rev st)) + 1 then Inl ENAMETOOLONG
         else if n \<le> length (if 1 < length (render (rev st)) then render (rev st) @ [slash] else render (rev st))
                     + length (seg_of q) then Inl ENAMETOOLONG
         else nal_loop n (after_seg q) (render (rev (seg_of q # st))) (marks_of (seg_of q # st)))"
      by (subst nal_loop.simps)
         (simp only: False if_False Let_def q_def [symmetric] length_marks_of
            nal_push [OF less.prems(2)] marks_of.simps)
    consider (dot) "seg_of q = [] \<or> seg_of q = ''.''" | (up) "seg_of q = ''..''"
      | (push) "seg_of q \<noteq> []" "seg_of q \<noteq> ''.''" "seg_of q \<noteq> ''..''"
      by blast
    then show ?thesis
    proof cases
      case dot
      then have "nal_loop n (after_seg q) (render (rev st)) (marks_of st) = Inr out"
        using step less.prems(1) by (simp only: if_True)
      from IH [OF this less.prems(2)] dot comp nil show ?thesis
        by (auto simp: dot_step_def)
    next
      case up
      then have "nal_loop n (after_seg q) (render (rev (tl st))) (marks_of (tl st)) = Inr out"
        using step less.prems(1) by (cases st) (simp_all add: take_render_snoc)
      moreover have "\<forall>c \<in> set (tl st). plain_seg c"
        using less.prems(2) by (cases st) simp_all
      ultimately have "out = render (rev (foldl dot_step (tl st) (components (after_seg q))))"
        by (rule IH)
      with up comp show ?thesis by (simp add: dot_step_def)
    next
      case push
      then have "nal_loop n (after_seg q) (render (rev (seg_of q # st))) (marks_of (seg_of q # st)) = Inr out"
        using step less.prems(1) push by (simp split: if_splits)
      moreover have "\<forall>c \<in> set (seg_of q # st). plain_seg c"
        using less.prems(2) push plain_seg_of by simp
      ultimately have "out = render (rev (foldl dot_step (seg_of q # st) (components (after_seg q))))"
        by (rule IH)
      with push comp show ?thesis by (simp add: dot_step_def)
    qed
  qed
qed


text \<open>
  Totality: a path shorter than the output buffer never overflows it, nor the stack of
  \<open>PATH_MAX / 2\<close> marks. \<open>nal_room\<close> is the invariant of the loop.
\<close>

definition nal_room :: "nat \<Rightarrow> string \<Rightarrow> string list \<Rightarrow> bool" where
  "nal_room n p st \<longleftrightarrow>
     (if st = [] then 0 else length (render (rev st))) + length p < n \<and>
     2 * length st \<le> (if st = [] then 0 else length (render (rev st)))"

lemma length_render_snoc:
  "length (render (cs @ [c])) = (if cs = [] then 0 else length (render cs)) + 1 + length c"
  by (simp add: render_snoc)

lemma nal_room_pop: "nal_room n p st \<Longrightarrow> length q \<le> length p \<Longrightarrow> \<forall>c \<in> set st. plain_seg c \<Longrightarrow> nal_room n q (tl st)"
proof (cases st)
  case (Cons c r)
  assume "nal_room n p st" "length q \<le> length p" "\<forall>c \<in> set st. plain_seg c"
  moreover have "\<forall>c \<in> set r. plain_seg c \<Longrightarrow> r \<noteq> [] \<Longrightarrow> 2 * length r \<le> length (render (rev r))"
  proof (induction r)
    case (Cons d r)
    then have "1 \<le> length d" by (simp add: plain_seg_def Suc_le_eq)
    with Cons show ?case
      by (cases "r = []") (simp_all add: length_render_snoc, simp add: render_def)
  qed simp
  ultimately show ?thesis using Cons by (auto simp: nal_room_def length_render_snoc)
qed (auto simp: nal_room_def)

lemma nal_loop_total:
  assumes "nal_room n p st" "n \<le> PATH_MAX" "p = [] \<or> (\<exists>r. p = slash # r)" "\<forall>c \<in> set st. plain_seg c"
  shows "\<exists>out. nal_loop n p (render (rev st)) (marks_of st) = Inr out"
  using assms
proof (induction "length p" arbitrary: p st rule: less_induct)
  case less
  show ?case
  proof (cases "p = []")
    case True
    then show ?thesis by (simp add: nal_loop.simps)
  next
    case False
    define q where "q = skip_slashes p"
    from False less.prems(3) obtain r where p: "p = slash # r" by blast
    have sa: "length (seg_of q) + length (after_seg q) = length q"
      by (metis length_append seg_of_append)
    have ql: "length q \<le> length r" using p length_skip_slashes [of r] by (simp add: q_def)
    have short: "length (after_seg q) < length p" using after_seg_shorter [OF False] by (simp add: q_def)
    have rest: "after_seg q = [] \<or> (\<exists>r. after_seg q = slash # r)" by (rule after_seg_cases)
    note IH = less.hyps [OF short _ less.prems(2) rest]
    consider (dot) "seg_of q = [] \<or> seg_of q = ''.''" | (up) "seg_of q \<noteq> []" "seg_of q \<noteq> ''.''" "seg_of q = ''..''"
      | (push) "seg_of q \<noteq> []" "seg_of q \<noteq> ''.''" "seg_of q \<noteq> ''..''"
      by blast
    then show ?thesis
    proof cases
      case dot
      have "nal_room n (after_seg q) st" using less.prems(1) short by (auto simp: nal_room_def)
      from IH [OF this less.prems(4)] dot show ?thesis
        by (subst nal_loop.simps) (simp only: False if_False Let_def q_def [symmetric] if_True)
    next
      case up
      have room: "nal_room n (after_seg q) (tl st)"
        using nal_room_pop [OF less.prems(1) _ less.prems(4)] short by simp
      have plain: "\<forall>c \<in> set (tl st). plain_seg c" using less.prems(4) by (cases st) simp_all
      from IH [OF room plain] up show ?thesis
        by (subst nal_loop.simps) (cases st, simp_all add: False Let_def q_def [symmetric] take_render_snoc)
    next
      case push
      let ?sz = "if st = [] then 0 else length (render (rev st))"
      have plain: "\<forall>c \<in> set (seg_of q # st). plain_seg c"
        using less.prems(4) plain_seg_of [OF push(1)] by simp
      have seg1: "1 \<le> length (seg_of q)" using push(1) by (simp add: Suc_le_eq)
      have bound: "?sz + 1 + length (seg_of q) + length (after_seg q) < n"
        using less.prems(1) ql sa p by (simp add: nal_room_def)
      have marks: "2 * length st \<le> ?sz" using less.prems(1) by (simp add: nal_room_def)
      have room: "nal_room n (after_seg q) (seg_of q # st)"
        using bound marks seg1 by (auto simp: nal_room_def length_render_snoc)
      have deep: "\<not> PATH_MAX div 2 \<le> length st"
        using bound marks less.prems(2) seg1 by (simp add: PATH_MAX_def)
      have no1: "\<not> (1 < length (render (rev st)) \<and> n \<le> length (render (rev st)) + 1)"
        using bound render_length_1 [OF less.prems(4)] seg1 by auto
      have no2: "\<not> n \<le> length (if 1 < length (render (rev st)) then render (rev st) @ [slash] else render (rev st))
                     + length (seg_of q)"
        using bound render_length_1 [OF less.prems(4)] by (auto simp: render_def)
      from IH [OF room plain] show ?thesis
        by (subst nal_loop.simps)
           (simp only: False push if_False Let_def q_def [symmetric] length_marks_of deep no1 no2
              nal_push [OF less.prems(4)] marks_of.simps simp_thms)
    qed
  qed
qed

lemma normalize_spec:
  "normalize_absolute_path_lexical path n = Inr out \<Longrightarrow> out = render (resolve_dots (components path))"
  using nal_loop_spec [of n path "[]" out]
  by (simp add: normalize_absolute_path_lexical_def resolve_dots_def render_def [of "[]"] split: if_splits)

lemma normalize_total:
  assumes "path \<noteq> []" "hd path = slash" "length path < n" "n \<le> PATH_MAX"
  shows "normalize_absolute_path_lexical path n = Inr (render (resolve_dots (components path)))"
proof -
  from assms(1,2) obtain r where p: "path = slash # r" by (cases path) auto
  then have "nal_room n path []" using assms(3) by (simp add: nal_room_def)
  from nal_loop_total [OF this assms(4)] p obtain out where
    "normalize_absolute_path_lexical path n = Inr out"
    using assms(1-3) by (auto simp: normalize_absolute_path_lexical_def render_def)
  with normalize_spec [OF this] show ?thesis by simp
qed


section \<open>\<open>normalize_guest_path\<close> refines the same specification\<close>

lemma ngp_parts_spec:
  "length st + length ts \<le> 256 \<Longrightarrow> ngp_parts ts st = rev (foldl dot_step st ts)"
  by (induction ts st rule: ngp_parts.induct) (auto simp: dot_step_def)

lemma ngp_emit_spec:
  "length (out @ concat (map (\<lambda>c. slash # c) ts)) < n \<Longrightarrow>
   ngp_emit n False ts out = out @ concat (map (\<lambda>c. slash # c) ts)"
  by (induction ts arbitrary: out) auto

lemma ngp_emit_render:
  "length (render cs) < n \<Longrightarrow> 2 < n \<Longrightarrow> ngp_emit n True cs ''/'' = render cs"
proof (cases cs)
  case (Cons c r)
  assume "length (render cs) < n" "2 < n"
  with Cons show ?thesis using ngp_emit_spec [of "slash # c" r n] by (simp add: render_def)
qed (simp add: render_def)

definition guest_join :: "string \<Rightarrow> string \<Rightarrow> string" where
  "guest_join base path =
     (if hd path = slash then path else (if base = [] then ''/'' else base) @ ''/'' @ path)"

lemma normalize_guest_path_spec:
  assumes "path \<noteq> []" "length (guest_join base path) < PATH_MAX"
    and "length (components (guest_join base path)) \<le> 256"
    and "length (render (resolve_dots (components (guest_join base path)))) < n" "2 < n"
  shows "normalize_guest_path base path n = render (resolve_dots (components (guest_join base path)))"
proof -
  have t: "take (PATH_MAX - 1) (guest_join base path) = guest_join base path"
    using assms(2) by (simp add: PATH_MAX_def)
  have parts: "ngp_parts (components (guest_join base path)) [] = resolve_dots (components (guest_join base path))"
    using ngp_parts_spec [of "[]"] assms(3) by (simp add: resolve_dots_def)
  have "normalize_guest_path base path n =
      ngp_emit n True (ngp_parts (components (take (PATH_MAX - 1) (guest_join base path))) []) ''/''"
    using assms(1,5) by (simp add: normalize_guest_path_def guest_join_def Let_def)
  with t parts ngp_emit_render [OF assms(4,5)] show ?thesis by simp
qed

section \<open>Confinement on canonical paths\<close>

lemma prefix_concat_iff:
  assumes "\<forall>c \<in> set cs. plain_seg c" "\<forall>c \<in> set ds. plain_seg c"
  shows "(let p = concat (map (\<lambda>c. slash # c) cs); q = concat (map (\<lambda>c. slash # c) ds)
          in prefix p q \<and> (drop (length p) q = [] \<or> hd (drop (length p) q) = slash)) \<longleftrightarrow> prefix cs ds"
proof -
  let ?r = "\<lambda>cs. concat (map (\<lambda>c. slash # c) cs)"
  have 1: "prefix (?r cs) (?r ds) \<and> (drop (length (?r cs)) (?r ds) = [] \<or> hd (drop (length (?r cs)) (?r ds)) = slash)
      \<Longrightarrow> prefix cs ds"
  proof -
    assume a: "prefix (?r cs) (?r ds) \<and>
      (drop (length (?r cs)) (?r ds) = [] \<or> hd (drop (length (?r cs)) (?r ds)) = slash)"
    then obtain z where z: "?r ds = ?r cs @ z" "z = [] \<or> hd z = slash"
      by (auto simp: prefix_def)
    show "prefix cs ds"
    proof (cases z)
      case Nil
      with z have "components (?r ds) = components (?r cs)" by simp
      with assms show ?thesis by (simp add: components_concat)
    next
      case (Cons c w)
      with z have "?r ds = ?r cs @ slash # w" by simp
      then have "components (?r ds) = components (?r cs) @ components w"
        by (simp add: components_append_slash)
      with assms show ?thesis by (simp add: components_concat)
    qed
  qed
  have 2: "prefix cs ds \<Longrightarrow> prefix (?r cs) (?r ds) \<and>
      (drop (length (?r cs)) (?r ds) = [] \<or> hd (drop (length (?r cs)) (?r ds)) = slash)"
  proof (elim prefixE)
    fix es assume "ds = cs @ es"
    then show ?thesis by (cases es) auto
  qed
  show ?thesis unfolding Let_def by (rule iffI) (erule 1, erule 2)
qed

lemma under_prefix_render:
  assumes "\<forall>c \<in> set cs. plain_seg c" "\<forall>c \<in> set ds. plain_seg c" "cs \<noteq> []"
  shows "host_path_is_under_prefix (render cs) (render ds) \<longleftrightarrow> prefix cs ds"
proof (cases "ds = []")
  case True
  obtain c r where cs: "cs = c # r" using assms(3) by (cases cs) auto
  then have "c \<noteq> []" using assms(1) by (simp add: plain_seg_def)
  then have "\<not> prefix (render cs) [slash]" using cs by (auto simp: render_def prefix_def append_eq_Cons_conv)
  with True assms(3) show ?thesis by (simp add: host_path_is_under_prefix_def render_def)
next
  case False
  have ne: "render cs \<noteq> []" "render ds \<noteq> []" using render_head by (metis list.distinct(1))+
  show ?thesis
    using prefix_concat_iff [OF assms(1,2)] ne assms(3) False
    by (simp add: host_path_is_under_prefix_def render_def Let_def)
qed

lemma under_root_prefix: "host_path_is_under_prefix ''/'' path \<longleftrightarrow> path = ''/'' \<or> prefix ''//'' path"
  by (cases path; cases "tl path") (auto simp: host_path_is_under_prefix_def)

lemma render_not_under_root:
  "\<forall>c \<in> set cs. plain_seg c \<Longrightarrow> cs \<noteq> [] \<Longrightarrow> \<not> host_path_is_under_prefix ''/'' (render cs)"
  unfolding under_root_prefix
  by (cases cs; cases "hd cs") (auto simp: render_def plain_seg_def)

end
