(* ===== verification/Path_Binds.thy ===== *)
theory Path_Binds
  imports Path_Lexical
begin

text \<open>
  Bind lookup, guest-to-host translation and relative links of the direct executor:
  the bind table invariant, longest-prefix lookup, the lexical confinement of every
  translated path, and the correctness of \<open>relative_path_between\<close>.
\<close>

section \<open>The bind table\<close>

definition bind_wf :: "bind_map \<Rightarrow> bool" where
  "bind_wf m \<longleftrightarrow> bm_host m \<noteq> [] \<and> bm_guest m \<noteq> [] \<and> hd (bm_guest m) = slash \<and>
     (bm_guest m = ''/'' \<or> last (bm_guest m) \<noteq> slash) \<and>
     length (bm_host m) < PATH_MAX \<and> length (bm_guest m) < PATH_MAX"

definition bind_table_wf :: "bind_map list \<Rightarrow> bool" where
  "bind_table_wf maps \<longleftrightarrow> length maps \<le> MAX_BIND_MAPS \<and> (\<forall>m \<in> set maps. bind_wf m)"

lemma trim_rev_last: "trim_rev s \<noteq> [] \<Longrightarrow> last (trim_rev s) = last s"
  by (induction s rule: trim_rev.induct) auto

lemma trim_rev_Nil [simp]: "trim_rev s = [] \<longleftrightarrow> s = []"
  by (induction s rule: trim_rev.induct) auto

lemma trim_rev_hd: "length (trim_rev s) \<le> 1 \<or> hd (trim_rev s) \<noteq> slash"
  by (induction s rule: trim_rev.induct) auto

lemma trim_rev_length: "length (trim_rev s) \<le> length s"
  by (induction s rule: trim_rev.induct) auto

lemma trim_Nil [simp]: "trim_trailing_slashes s = [] \<longleftrightarrow> s = []"
  by (simp add: trim_trailing_slashes_def)

lemma trim_hd: "s \<noteq> [] \<Longrightarrow> hd (trim_trailing_slashes s) = hd s"
  using trim_rev_last [of "rev s"] by (simp add: trim_trailing_slashes_def hd_rev last_rev)

lemma trim_length: "length (trim_trailing_slashes s) \<le> length s"
  using trim_rev_length [of "rev s"] by (simp add: trim_trailing_slashes_def)

lemma trim_last:
  assumes "s \<noteq> []"
  shows "trim_trailing_slashes s = [hd s] \<or> last (trim_trailing_slashes s) \<noteq> slash"
proof -
  have "length (trim_trailing_slashes s) \<le> 1 \<or> last (trim_trailing_slashes s) \<noteq> slash"
    using trim_rev_hd [of "rev s"] assms by (simp add: trim_trailing_slashes_def last_rev)
  moreover have "length (trim_trailing_slashes s) \<le> 1 \<Longrightarrow> trim_trailing_slashes s = [hd s]"
    using trim_hd [OF assms] trim_Nil [of s] assms
    by (cases "trim_trailing_slashes s") auto
  ultimately show ?thesis by blast
qed

lemma take_PATH_MAX: "s \<noteq> [] \<Longrightarrow> take (PATH_MAX - 1) s \<noteq> [] \<and> hd (take (PATH_MAX - 1) s) = hd s
    \<and> length (take (PATH_MAX - 1) s) < PATH_MAX"
  by (cases s) (auto simp: PATH_MAX_def)

lemma trim_take_facts:
  assumes "s \<noteq> []"
  shows "trim_trailing_slashes (take (PATH_MAX - 1) s) \<noteq> []"
    and "hd (trim_trailing_slashes (take (PATH_MAX - 1) s)) = hd s"
    and "length (trim_trailing_slashes (take (PATH_MAX - 1) s)) < PATH_MAX"
  using take_PATH_MAX [OF assms] trim_hd [of "take (PATH_MAX - 1) s"]
    trim_length [of "take (PATH_MAX - 1) s"] by auto

lemma parse_bind_spec_cases:
  obtains "parse_bind_spec rp maps spec = (maps, False)"
  | h g b where "parse_bind_spec rp maps spec =
        (maps @ [\<lparr>bm_host = trim_trailing_slashes (take (PATH_MAX - 1) (case rp h of Some r \<Rightarrow> r | None \<Rightarrow> h)),
                  bm_guest = trim_trailing_slashes (take (PATH_MAX - 1) g), bm_readonly = b\<rparr>], True)"
      "h \<noteq> []" "g \<noteq> []" "hd g = slash" "length maps < MAX_BIND_MAPS"
proof (cases "spec = [] \<or> MAX_BIND_MAPS \<le> length maps")
  case True
  with that(1) show ?thesis by (simp add: parse_bind_spec_def)
next
  case False
  show ?thesis
  proof (cases "split_first (CHR '':'') (take (2 * PATH_MAX - 1) spec)")
    case None
    with that(1) show ?thesis by (simp add: parse_bind_spec_def)
  next
    case (Some p)
    obtain host rest where p: "p = (host, rest)" by fastforce
    obtain g opts where go: "(case split_first (CHR '':'') rest of
        None \<Rightarrow> (rest, None) | Some (g, o') \<Rightarrow> (g, Some o')) = (g, opts)" by fastforce
    show ?thesis
    proof (cases "host = [] \<or> g = [] \<or> hd g \<noteq> slash")
      case True
      with False Some p go that(1) show ?thesis by (simp add: parse_bind_spec_def)
    next
      case ok: False
      show ?thesis
        by (rule that(2) [of host g "case opts of None \<Rightarrow> False | Some o' \<Rightarrow> contains o' ''ro''"])
           (use False Some p go ok in \<open>simp_all add: parse_bind_spec_def\<close>)
    qed
  qed
qed

lemma parse_bind_spec_wf:
  assumes "bind_table_wf maps" "\<And>p r. rp p = Some r \<Longrightarrow> r \<noteq> []"
  shows "bind_table_wf (fst (parse_bind_spec rp maps spec))"
proof (cases rule: parse_bind_spec_cases [of rp maps spec])
  case 1
  with assms show ?thesis by simp
next
  case (2 h g b)
  let ?h = "case rp h of Some r \<Rightarrow> r | None \<Rightarrow> h"
  have h: "?h \<noteq> []" using 2 assms(2) by (auto split: option.splits)
  have g1: "trim_trailing_slashes (take (PATH_MAX - 1) g) = ''/'' \<or>
      last (trim_trailing_slashes (take (PATH_MAX - 1) g)) \<noteq> slash"
    using trim_last [of "take (PATH_MAX - 1) g"] take_PATH_MAX [OF 2(3)] 2(4) by auto
  have "bind_wf \<lparr>bm_host = trim_trailing_slashes (take (PATH_MAX - 1) ?h),
      bm_guest = trim_trailing_slashes (take (PATH_MAX - 1) g), bm_readonly = b\<rparr>"
    using trim_take_facts [OF h] trim_take_facts [OF 2(3)] 2(4) g1 by (simp add: bind_wf_def)
  with 2 assms(1) show ?thesis by (auto simp: bind_table_wf_def)
qed

section \<open>Longest-prefix lookup\<close>

lemma best_bind_None:
  "best_bind ms g b = None \<longleftrightarrow> b = None \<and> (\<forall>m \<in> set ms. bind_guest_match m g = None)"
  by (induction ms g b rule: best_bind.induct) (auto split: option.splits)

text \<open>
  \<open>selected ms g m s\<close>: \<open>m\<close> matches with rest \<open>s\<close>, no matching map is longer, and none
  after it is as long.
\<close>

definition selected :: "bind_map list \<Rightarrow> string \<Rightarrow> bind_map \<Rightarrow> string \<Rightarrow> bool" where
  "selected ms g m s \<longleftrightarrow> (\<exists>pre post. ms = pre @ m # post \<and> bind_guest_match m g = Some s \<and>
     (\<forall>m' \<in> set pre. bind_guest_match m' g \<noteq> None \<longrightarrow> length (bm_guest m') \<le> length (bm_guest m)) \<and>
     (\<forall>m' \<in> set post. bind_guest_match m' g \<noteq> None \<longrightarrow> length (bm_guest m') < length (bm_guest m)))"

lemma selected_mem: "selected ms g m s \<Longrightarrow> m \<in> set ms \<and> bind_guest_match m g = Some s"
  by (auto simp: selected_def)

lemma selected_Cons:
  assumes "selected ms g m s" "bind_guest_match a g \<noteq> None \<longrightarrow> length (bm_guest a) \<le> length (bm_guest m)"
  shows "selected (a # ms) g m s"
proof -
  from assms(1) obtain pre post where
    "ms = pre @ m # post" "bind_guest_match m g = Some s"
    "\<forall>m' \<in> set pre. bind_guest_match m' g \<noteq> None \<longrightarrow> length (bm_guest m') \<le> length (bm_guest m)"
    "\<forall>m' \<in> set post. bind_guest_match m' g \<noteq> None \<longrightarrow> length (bm_guest m') < length (bm_guest m)"
    unfolding selected_def by blast
  with assms(2) show ?thesis
    unfolding selected_def by (intro exI [of _ "a # pre"] exI [of _ post]) auto
qed

lemma best_bind_sel:
  "best_bind ms g b = Some (m, s) \<Longrightarrow>
     (b = Some (m, s) \<and> (\<forall>m' \<in> set ms. bind_guest_match m' g \<noteq> None \<longrightarrow> length (bm_guest m') < length (bm_guest m)))
   \<or> (selected ms g m s \<and> (\<forall>b' s'. b = Some (b', s') \<longrightarrow> length (bm_guest b') \<le> length (bm_guest m)))"
proof (induction ms arbitrary: b)
  case Nil
  then show ?case by simp
next
  case (Cons a ms)
  show ?case
  proof (cases "bind_guest_match a g")
    case None
    with Cons.prems have "best_bind ms g b = Some (m, s)" by simp
    from Cons.IH [OF this] None selected_Cons [of ms g m s a] show ?thesis by auto
  next
    case (Some sa)
    let ?bl = "case b of None \<Rightarrow> 0 | Some (b, _) \<Rightarrow> length (bm_guest b)"
    show ?thesis
    proof (cases "?bl \<le> length (bm_guest a)")
      case True
      with Cons.prems Some have "best_bind ms g (Some (a, sa)) = Some (m, s)" by (simp add: Let_def)
      from Cons.IH [OF this] show ?thesis
      proof (elim disjE conjE)
        assume 1: "Some (a, sa) = Some (m, s)"
          "\<forall>m' \<in> set ms. bind_guest_match m' g \<noteq> None \<longrightarrow> length (bm_guest m') < length (bm_guest m)"
        then have "selected (a # ms) g m s"
          unfolding selected_def using Some by (intro exI [of _ "[]"] exI [of _ ms]) simp
        with 1 True show ?thesis by (auto split: option.splits)
      next
        assume 2: "selected ms g m s"
          "\<forall>b' s'. Some (a, sa) = Some (b', s') \<longrightarrow> length (bm_guest b') \<le> length (bm_guest m)"
        with True show ?thesis using selected_Cons [OF 2(1), of a] by (auto split: option.splits)
      qed
    next
      case False
      then obtain b0 sb where b: "b = Some (b0, sb)" by (cases b) auto
      from False b Cons.prems Some have "best_bind ms g b = Some (m, s)" by (simp add: Let_def)
      from Cons.IH [OF this] show ?thesis
        using False b selected_Cons [of ms g m s a] by auto
    qed
  qed
qed

lemma best_bind_Some: "best_bind ms g None = Some (m, s) \<Longrightarrow> selected ms g m s"
  using best_bind_sel [of ms g None m s] by auto

definition bind_out :: "bind_map \<Rightarrow> string \<Rightarrow> string" where
  "bind_out m s = (if s = [] then bm_host m else if bm_host m = ''/'' then s else bm_host m @ s)"

lemma resolve_bind_path_Some:
  assumes "resolve_bind_path maps guest n = Inr (Some out)"
  obtains m s where "selected maps guest m s" "out = bind_out m s" "length out < n"
proof -
  from assms obtain m s where "best_bind maps guest None = Some (m, s)"
    and "out = bind_out m s" "length out < n"
    by (auto simp: resolve_bind_path_def bind_out_def Let_def split: option.splits if_splits)
  with that best_bind_Some show ?thesis by blast
qed

lemma resolve_bind_path_None:
  "resolve_bind_path maps guest n = Inr None \<longleftrightarrow> (\<forall>m \<in> set maps. bind_guest_match m guest = None)"
  using best_bind_None [of maps guest None]
  by (auto simp: resolve_bind_path_def Let_def split: option.splits if_splits)

lemma bind_guest_match_Some:
  "bind_guest_match m guest = Some s \<Longrightarrow>
     (bm_guest m = ''/'' \<and> s = guest) \<or> (guest = bm_guest m @ s \<and> (s = [] \<or> hd s = slash))"
  by (auto simp: bind_guest_match_def Let_def prefix_def split: if_splits)

section \<open>Lexical confinement of translated paths\<close>

lemma under_prefix_append:
  "p \<noteq> [] \<Longrightarrow> s = [] \<or> hd s = slash \<Longrightarrow> host_path_is_under_prefix p (p @ s)"
  by (auto simp: host_path_is_under_prefix_def)

lemma should_rewrite_abs: "should_rewrite_path rootfs g \<Longrightarrow> rootfs \<noteq> [] \<and> g \<noteq> [] \<and> hd g = slash"
  by (simp add: should_rewrite_path_def split: if_splits)

lemma bind_out_under:
  assumes "bind_guest_match m guest = Some s" "bind_wf m" "bm_host m \<noteq> ''/''" "guest \<noteq> []" "hd guest = slash"
  shows "host_path_is_under_prefix (bm_host m) (bind_out m s)"
proof -
  have "s = [] \<or> hd s = slash" using bind_guest_match_Some [OF assms(1)] assms(5) by auto
  with assms(2,3) under_prefix_append [of "bm_host m" s] under_prefix_append [of "bm_host m" "[]"]
  show ?thesis by (auto simp: bind_out_def bind_wf_def)
qed

lemma resolve_guest_under:
  assumes "resolve_guest_host_path ex tty maps rootfs guest n = Inr (Some (out, b))"
    and "rootfs \<noteq> []" "\<forall>m \<in> set maps. bind_wf m \<and> bm_host m \<noteq> ''/''"
  shows "host_path_is_under_allowed_host_path maps rootfs out \<or> out = ''/proc/self/fd/0''"
proof (cases "guest = ''/proc'' \<or> prefix ''/proc/'' guest")
  case True
  with assms(1) have "out = rootfs @ ''/.pdocker-proc'' @ drop (length ''/proc'') guest"
    by (auto simp: resolve_guest_host_path_def Let_def split: if_splits)
  then have "host_path_is_under_prefix rootfs out" using assms(2) under_prefix_append by simp
  then show ?thesis by (simp add: host_path_is_under_allowed_host_path_def)
next
  case False
  show ?thesis
  proof (cases "guest = ''/dev/tty'' \<and> tty")
    case True
    with False assms(1) show ?thesis
      by (simp add: resolve_guest_host_path_def split: if_splits)
  next
    case tty: False
    have rw: "should_rewrite_path rootfs guest"
      using False tty assms(1) by (auto simp: resolve_guest_host_path_def split: if_splits)
    note abs = should_rewrite_abs [OF rw]
    have eq: "resolve_guest_host_path ex tty maps rootfs guest n =
       (case resolve_bind_path maps guest n of Inl e \<Rightarrow> Inl e
        | Inr (Some out) \<Rightarrow> Inr (Some (out, True))
        | Inr None \<Rightarrow> if n \<le> length (rootfs @ guest) then Inl ENAMETOOLONG else Inr (Some (rootfs @ guest, False)))"
      by (simp only: resolve_guest_host_path_def if_not_P [OF False] if_not_P [OF tty] rw Let_def
          not_True_eq_False if_False)
    show ?thesis
    proof (cases "resolve_bind_path maps guest n")
      case (Inl e)
      with eq assms(1) show ?thesis by simp
    next
      case (Inr r)
      show ?thesis
      proof (cases r)
        case None
        with Inr eq assms(1) have "out = rootfs @ guest" by (simp split: if_splits)
        then have "host_path_is_under_prefix rootfs out" using abs under_prefix_append by simp
        then show ?thesis by (simp add: host_path_is_under_allowed_host_path_def)
      next
        case (Some o')
        with Inr eq assms(1) have o': "resolve_bind_path maps guest n = Inr (Some out)" by simp
        obtain m s where sel: "selected maps guest m s" and ms: "out = bind_out m s"
          using resolve_bind_path_Some [OF o'] by metis
        note m = selected_mem [OF sel, THEN conjunct1] selected_mem [OF sel, THEN conjunct2] ms
        then have "host_path_is_under_prefix (bm_host m) out"
          using bind_out_under [OF m(2)] assms(3) abs by simp
        with m(1) show ?thesis
          by (auto simp: host_path_is_under_allowed_host_path_def host_path_is_under_bind_host_def)
      qed
    qed
  qed
qed


section \<open>\<open>relative_path_between\<close>\<close>

lemma rpb_scan_spec:
  "rpb_scan as bs c l = (c', l') \<Longrightarrow>
     \<exists>n. c' = c + n \<and> n \<le> length as \<and> take n as = take n bs \<and>
       (l' = l \<or> (c \<le> l' \<and> l' < c' \<and> as ! (l' - c) = slash))"
proof (induction as bs c l rule: rpb_scan.induct)
  case (1 a as b bs c l)
  show ?case
  proof (cases "a = b")
    case True
    with 1 obtain n where "c' = Suc c + n" "n \<le> length as" "take n as = take n bs"
      "l' = (if a = slash then c else l) \<or> (Suc c \<le> l' \<and> l' < c' \<and> as ! (l' - Suc c) = slash)"
      by (auto split: if_splits)
    with True show ?thesis
      by (intro exI [of _ "Suc n"]) (auto simp: nth_Cons' Suc_le_eq split: if_splits)
  next
    case False
    with 1 show ?thesis by (intro exI [of _ 0]) auto
  qed
qed auto

lemma components_cut:
  assumes "drop n s = [] \<or> hd (drop n s) = slash"
  shows "components s = components (take n s) @ components (drop n s)"
proof (cases "drop n s")
  case Nil
  then show ?thesis by (simp add: take_all)
next
  case (Cons x r)
  with assms have "s = take n s @ slash # r" by (metis append_take_drop_id list.distinct(1) list.sel(1))
  then have "components s = components (take n s) @ components r"
    by (metis components_append_slash)
  with Cons assms show ?thesis by simp
qed

definition rpb_cut :: "string \<Rightarrow> string \<Rightarrow> nat" where
  "rpb_cut from_dir to_path =
     (let (common, ls) = rpb_scan from_dir to_path 0 0
      in if drop common from_dir = [] \<and> (drop common to_path = [] \<or> hd (drop common to_path) = slash)
         then common else ls)"

lemma rpb_cut_spec:
  assumes "rpb_cut a b = n" "n \<noteq> 0"
  shows "take n a = take n b" "drop n a = [] \<or> hd (drop n a) = slash" "drop n b = [] \<or> hd (drop n b) = slash"
proof -
  obtain c l where cl: "rpb_scan a b 0 0 = (c, l)" by fastforce
  from rpb_scan_spec [OF this] have c: "c \<le> length a" "take c a = take c b"
    "l = 0 \<or> (l < c \<and> a ! l = slash)" by auto
  have "(take n a = take n b) \<and> (drop n a = [] \<or> hd (drop n a) = slash) \<and>
      (drop n b = [] \<or> hd (drop n b) = slash)"
  proof (cases "drop c a = [] \<and> (drop c b = [] \<or> hd (drop c b) = slash)")
    case True
    with assms(1) cl have "n = c" by (simp add: rpb_cut_def)
    with True c show ?thesis by simp
  next
    case False
    with assms(1) cl have n: "n = l" by (auto simp: rpb_cut_def)
    with assms(2) c have lc: "l < c" "a ! l = slash" by auto
    have lb: "l < length b" using c(1,2) lc(1)
      by (metis length_take min.absorb2 min_less_iff_conj order.strict_trans2)
    have "b ! l = slash" using c(2) lc by (metis nth_take)
    moreover have "take l a = take l b" using c(2) lc(1) by (metis min.strict_order_iff take_take)
    ultimately show ?thesis using n lc c(1) lb by (simp add: hd_drop_conv_nth)
  qed
  then show "take n a = take n b" "drop n a = [] \<or> hd (drop n a) = slash" "drop n b = [] \<or> hd (drop n b) = slash"
    by blast+
qed

lemma relative_path_cut:
  "relative_path_between a b n =
     (let k = rpb_cut a b
      in if k = 0 then None
         else let ups = foldl (\<lambda>tmp _. strncat_tmp tmp ''../'') [] (components (drop k a));
                  rest_to = skip_slashes (drop k b);
                  tmp = (if ups = [] \<and> rest_to = [] then ''.'' else strncat_tmp ups rest_to)
              in if n < length tmp + 1 then None else Some tmp)"
  by (simp add: relative_path_between_def rpb_cut_def Let_def case_prod_unfold)

lemma foldl_strncat:
  "length acc + 3 * length cs < 2 * PATH_MAX \<Longrightarrow>
   foldl (\<lambda>tmp _. strncat_tmp tmp ''../'') acc cs = acc @ concat (replicate (length cs) ''../'')"
  by (induction cs arbitrary: acc) (auto simp: strncat_tmp_def)

lemma components_ups: "components (concat (replicate k ''../'') @ s) = replicate k ''..'' @ components s"
proof (induction k)
  case (Suc k)
  have "components (''..'' @ slash # (concat (replicate k ''../'') @ s)) =
      ''..'' # components (concat (replicate k ''../'') @ s)"
    by (rule components_seg_slash) (simp add: plain_seg_def)
  with Suc show ?case by simp
qed simp

lemma foldl_dot_ups: "foldl dot_step (rev xs @ st) (replicate (length xs) ''..'') = st"
proof (induction xs rule: rev_induct)
  case (snoc x xs)
  then show ?case by (simp add: dot_step_def)
qed simp

lemma relative_path_correct:
  assumes rel: "relative_path_between a b n = Some r"
    and proper: "\<forall>c \<in> set (components a) \<union> set (components b). proper_seg c"
    and room: "3 * length (components a) + length b < 2 * PATH_MAX"
  shows "resolve_dots (components a @ components r) = components b"
proof -
  define k where "k = rpb_cut a b"
  have unf: "relative_path_between a b n =
     (if k = 0 then None
      else let ups = foldl (\<lambda>tmp _. strncat_tmp tmp ''../'') [] (components (drop k a));
               rest_to = skip_slashes (drop k b);
               tmp = (if ups = [] \<and> rest_to = [] then ''.'' else strncat_tmp ups rest_to)
           in if n < length tmp + 1 then None else Some tmp)"
    unfolding relative_path_cut Let_def k_def ..
  have k0: "k \<noteq> 0" using rel unf by (auto split: if_splits)
  note cut = rpb_cut_spec [OF k_def [symmetric] k0]
  define xs where "xs = components (drop k a)"
  define ys where "ys = components (drop k b)"
  define p where "p = components (take k a)"
  have a: "components a = p @ xs" using components_cut [OF cut(2)] by (simp add: p_def xs_def)
  have b: "components b = p @ ys" using components_cut [OF cut(3)] cut(1) by (simp add: p_def ys_def)
  have ups: "foldl (\<lambda>tmp _. strncat_tmp tmp ''../'') [] xs = concat (replicate (length xs) ''../'')"
    using foldl_strncat [of "[]" xs] room a by simp
  have restlen: "length (skip_slashes (drop k b)) \<le> length b"
    using length_skip_slashes [of "drop k b"] by simp
  have upslen: "length (concat (replicate j ''../'')) = 3 * j" for j by (induction j) auto
  have cat: "strncat_tmp (concat (replicate (length xs) ''../'')) (skip_slashes (drop k b)) =
      concat (replicate (length xs) ''../'') @ skip_slashes (drop k b)"
    using room a restlen upslen [of "length xs"] by (simp add: strncat_tmp_def)
  have r: "components r = replicate (length xs) ''..'' @ ys \<or> components r = ''.'' # ys \<and> xs = [] "
  proof (cases "concat (replicate (length xs) ''../'') = [] \<and> skip_slashes (drop k b) = []")
    case True
    with rel unf k0 ups have "r = ''.''" by (simp add: xs_def [symmetric] Let_def split: if_splits)
    moreover have "xs = []" using True by (cases xs) auto
    moreover have "ys = []" using True components_skip [of "drop k b"] by (simp add: ys_def)
    ultimately show ?thesis by (simp add: components_plain plain_seg_def)
  next
    case False
    have "r = concat (replicate (length xs) ''../'') @ skip_slashes (drop k b)"
      using rel unf k0 ups cat by (simp only: xs_def [symmetric] Let_def if_not_P [OF False] if_False
          option.inject split: if_splits) simp
    then show ?thesis by (simp add: components_ups components_skip ys_def)
  qed
  have pr: "\<forall>c \<in> set (p @ xs). proper_seg c" "\<forall>c \<in> set ys. proper_seg c" using proper a b by auto
  have "foldl dot_step [] (components a @ components r) = foldl dot_step (rev p) ys"
    using r
  proof
    assume r1: "components r = replicate (length xs) ''..'' @ ys"
    have "foldl dot_step [] (components a @ components r) =
        foldl dot_step (foldl dot_step (rev xs @ rev p) (replicate (length xs) ''..'')) ys"
      using foldl_dot_step_id [OF pr(1), of "[]"] a r1 by simp
    then show ?thesis by (simp add: foldl_dot_ups)
  next
    assume "components r = ''.'' # ys \<and> xs = []"
    then show ?thesis using foldl_dot_step_id [OF pr(1), of "[]"] a by (simp add: dot_step_def)
  qed
  also have "\<dots> = rev ys @ rev p" using foldl_dot_step_id [OF pr(2)] by simp
  finally show ?thesis using b by (simp add: resolve_dots_def)
qed

end
