(* ===== verification/Path_Validate.thy ===== *)
theory Path_Validate
  imports Path_Cache Path_Binds
begin

text \<open>
  \<open>validate_host_path_under_allowed\<close>: a translated host path is accepted only when what
  it resolves to, or the nearest ancestor that exists, lies under the root file system or
  a bind source. \<open>rp\<close> is the host's \<open>realpath\<close> at the time of the call; the result is
  \<open>None\<close> for 0 and \<open>Some e\<close> for \<open>-e\<close>. The uncached function \<open>validate_pure\<close> is the
  specification the caches must agree with.
\<close>

section \<open>The parent walk ends\<close>

definition walk_measure :: "string \<Rightarrow> nat" where
  "walk_measure p = length p + (if p = ''.'' then 0 else 1)"

lemma trim_no_slash_end: "trim_trailing_slashes p = s @ [slash] \<Longrightarrow> s = []"
proof (rule ccontr)
  assume a: "trim_trailing_slashes p = s @ [slash]" "s \<noteq> []"
  then have "trim_rev (rev p) = slash # rev s" by (simp add: trim_trailing_slashes_def rev_eq_append_conv)
  with trim_rev_hd [of "rev p"] a(2) show False by simp
qed

lemma path_parent_decreases:
  assumes "path_parent n p = Inr q" "p \<noteq> ''/''" "p \<noteq> ''.''"
  shows "walk_measure q < walk_measure p"
proof -
  have p: "p \<noteq> []" using assms(1) by (auto simp: path_parent_def)
  have tl: "length (trim_trailing_slashes p) \<le> length p" by (rule trim_length)
  show ?thesis
  proof (cases "split_last slash (trim_trailing_slashes p)")
    case None
    with assms(1) have "q = ''.''" by (simp add: path_parent_def split: if_splits)
    with assms(3) p show ?thesis by (cases p) (simp_all add: walk_measure_def)
  next
    case (Some ab)
    obtain a b where ab: "ab = (a, b)" by fastforce
    with Some have t: "trim_trailing_slashes p = a @ slash # b" using split_last_Some by blast
    have q: "q = (if a = [] then ''/'' else a)"
      using assms(1) Some ab by (simp add: path_parent_def Let_def split: if_splits)
    show ?thesis
    proof (cases "a = []")
      case False
      with q t tl assms(3) p show ?thesis by (simp add: walk_measure_def)
    next
      case True
      have "2 \<le> length p"
      proof (rule ccontr)
        assume "\<not> 2 \<le> length p"
        with p obtain c where "p = [c]" by (cases p) (auto simp: not_le less_Suc_eq_0_disj)
        with t True assms(2) show False by (simp add: trim_trailing_slashes_def)
      qed
      with q True assms(3) show ?thesis by (simp add: walk_measure_def)
    qed
  qed
qed

section \<open>The code\<close>

definition missing :: "errno \<Rightarrow> bool" where
  "missing e \<longleftrightarrow> e = ENOENT \<or> e = ENOTDIR"

abbreviation rc_of :: "bool \<Rightarrow> errno option" where
  "rc_of ok \<equiv> (if ok then None else Some EXDEV)"

function validate_parent_loop ::
  "(string \<Rightarrow> errno + string) \<Rightarrow> bind_map list \<Rightarrow> string \<Rightarrow> string \<Rightarrow> bool \<Rightarrow> path_cache \<Rightarrow> string
     \<Rightarrow> errno option \<times> path_cache" where
  "validate_parent_loop rp maps rootfs host follow pc probe =
     (case cached_realpath rp pc probe of
        (Inr r, pc1) \<Rightarrow>
          let rc = rc_of (host_path_is_under_allowed_host_path maps rootfs r)
          in (rc, path_validation_cache_put pc1 host follow rc)
      | (Inl e, pc1) \<Rightarrow>
          if \<not> missing e then (Some e, path_validation_cache_put pc1 host follow (Some e))
          else if probe = ''/'' \<or> probe = ''.'' then
            (Some e, path_validation_cache_put pc1 host follow (Some e))
          else
            (case path_parent PATH_MAX probe of
               Inl e' \<Rightarrow> (Some e', path_validation_cache_put pc1 host follow (Some e'))
             | Inr q \<Rightarrow> validate_parent_loop rp maps rootfs host follow pc1 q))"
  by pat_completeness auto
termination
  by (relation "measure (\<lambda>(rp, maps, rootfs, host, follow, pc, probe). walk_measure probe)")
     (auto intro: path_parent_decreases)

declare validate_parent_loop.simps [simp del]

definition validate_host_path_under_allowed ::
  "(string \<Rightarrow> errno + string) \<Rightarrow> bool \<Rightarrow> bind_map list \<Rightarrow> string \<Rightarrow> path_cache \<Rightarrow> string \<Rightarrow> bool
     \<Rightarrow> errno option \<times> path_cache" where
  "validate_host_path_under_allowed rp tty maps rootfs pc host follow =
     (if host = [] then (Some ENOENT, pc)
      else
        case normalize_absolute_path_lexical host PATH_MAX of
          Inl e \<Rightarrow> (Some e, path_validation_cache_put pc host follow (Some e))
        | Inr normalized \<Rightarrow>
            if normalized = ''/proc/self/fd/0'' \<and> tty then
              (None, path_validation_cache_put pc host follow None)
            else if \<not> host_path_is_under_allowed_host_path maps rootfs normalized then
              (Some EXDEV, path_validation_cache_put pc host follow (Some EXDEV))
            else
              case path_validation_cache_get pc host follow of
                Some rc \<Rightarrow> (rc, pc)
              | None \<Rightarrow>
                  let (full, pc1) =
                        (if follow then cached_realpath rp pc host else (Inl ENOENT, pc))
                  in case full of
                       Inr r \<Rightarrow>
                         let rc = rc_of (host_path_is_under_allowed_host_path maps rootfs r)
                         in (rc, path_validation_cache_put pc1 host follow rc)
                     | Inl e \<Rightarrow>
                         if follow \<and> \<not> missing e then
                           (Some e, path_validation_cache_put pc1 host follow (Some e))
                         else
                           (case path_parent PATH_MAX host of
                              Inl e' \<Rightarrow> (Some e', pc1)
                            | Inr probe \<Rightarrow>
                                validate_parent_loop rp maps rootfs host follow pc1 probe))"

section \<open>The specification\<close>

function parent_pure ::
  "(string \<Rightarrow> errno + string) \<Rightarrow> (string \<Rightarrow> bool) \<Rightarrow> string \<Rightarrow> errno option" where
  "parent_pure rp allowed probe =
     (case rp probe of
        Inr r \<Rightarrow> rc_of (allowed r)
      | Inl e \<Rightarrow>
          if \<not> missing e \<or> probe = ''/'' \<or> probe = ''.'' then Some e
          else (case path_parent PATH_MAX probe of
                  Inl e' \<Rightarrow> Some e'
                | Inr q \<Rightarrow> parent_pure rp allowed q))"
  by pat_completeness auto
termination
  by (relation "measure (\<lambda>(rp, allowed, probe). walk_measure probe)") (auto intro: path_parent_decreases)

declare parent_pure.simps [simp del]

definition validate_pure ::
  "(string \<Rightarrow> errno + string) \<Rightarrow> bool \<Rightarrow> (string \<Rightarrow> bool) \<Rightarrow> string \<Rightarrow> bool \<Rightarrow> errno option" where
  "validate_pure rp tty allowed host follow =
     (if host = [] then Some ENOENT
      else
        case normalize_absolute_path_lexical host PATH_MAX of
          Inl e \<Rightarrow> Some e
        | Inr normalized \<Rightarrow>
            if normalized = ''/proc/self/fd/0'' \<and> tty then None
            else if \<not> allowed normalized then Some EXDEV
            else
              case (if follow then rp host else Inl ENOENT) of
                Inr r \<Rightarrow> rc_of (allowed r)
              | Inl e \<Rightarrow>
                  if follow \<and> \<not> missing e then Some e
                  else (case path_parent PATH_MAX host of
                          Inl e' \<Rightarrow> Some e'
                        | Inr probe \<Rightarrow> parent_pure rp allowed probe))"

text \<open>What the parent walk finds: the nearest ancestor that exists.\<close>

inductive nearest_existing :: "(string \<Rightarrow> errno + string) \<Rightarrow> string \<Rightarrow> string \<Rightarrow> bool"
  for rp :: "string \<Rightarrow> errno + string" where
  here: "rp p = Inr r \<Longrightarrow> nearest_existing rp p r"
| up: "rp p = Inl e \<Longrightarrow> missing e \<Longrightarrow> p \<noteq> ''/'' \<Longrightarrow> p \<noteq> ''.'' \<Longrightarrow> path_parent PATH_MAX p = Inr q
     \<Longrightarrow> nearest_existing rp q r \<Longrightarrow> nearest_existing rp p r"

inductive_simps nearest_existing_step: "nearest_existing rp p r"

lemma parent_pure_ok: "parent_pure rp allowed p = None \<longleftrightarrow> (\<exists>r. nearest_existing rp p r \<and> allowed r)"
proof (induction rp allowed p rule: parent_pure.induct)
  case (1 rp allowed p)
  show ?case
  proof (cases "rp p")
    case (Inr r)
    then show ?thesis
      by (subst parent_pure.simps, subst nearest_existing_step) auto
  next
    case (Inl e)
    show ?thesis
    proof (cases "\<not> missing e \<or> p = ''/'' \<or> p = ''.''")
      case True
      with Inl show ?thesis by (subst parent_pure.simps, subst nearest_existing_step) auto
    next
      case False
      then have f: "missing e" "p \<noteq> ''/''" "p \<noteq> ''.''" by simp_all
      note e = Inl
      show ?thesis
      proof (cases "path_parent PATH_MAX p")
        case (Inl e')
        have "parent_pure rp allowed p = Some e'"
          by (subst parent_pure.simps) (simp add: e f Inl)
        moreover have "\<not> nearest_existing rp p r" for r
          by (subst nearest_existing_step) (simp add: e f Inl)
        ultimately show ?thesis by simp
      next
        case (Inr q)
        have "parent_pure rp allowed p = parent_pure rp allowed q"
          by (subst parent_pure.simps) (simp add: e f Inr)
        moreover have "nearest_existing rp p r \<longleftrightarrow> nearest_existing rp q r" for r
          by (subst nearest_existing_step) (simp add: e f Inr)
        ultimately show ?thesis using "1.IH" [OF e False Inr] by simp
      qed
    qed
  qed
qed

section \<open>The caches do not change an answer\<close>

definition rp_ok :: "(string \<Rightarrow> errno + string) \<Rightarrow> bool" where
  "rp_ok rp \<longleftrightarrow> (\<forall>p r. rp p = Inr r \<longrightarrow> length r < PATH_MAX)"

definition rp_view :: "(string \<Rightarrow> errno + string) \<Rightarrow> string \<Rightarrow> string option" where
  "rp_view rp p = (case rp p of Inl _ \<Rightarrow> None | Inr r \<Rightarrow> Some r)"

definition caches_coherent ::
  "(string \<Rightarrow> errno + string) \<Rightarrow> bool \<Rightarrow> bind_map list \<Rightarrow> string \<Rightarrow> path_cache \<Rightarrow> bool" where
  "caches_coherent rp tty maps rootfs pc \<longleftrightarrow>
     path_cache_inv pc \<and>
     coherent vget (\<lambda>k. Some (validate_pure rp tty
        (host_path_is_under_allowed_host_path maps rootfs) (fst k) (snd k))) pc \<and>
     coherent realpath_cache_get (rp_view rp) pc"

lemma vget_realpath_put [simp]: "path_validation_cache_get (realpath_cache_put pc p r) h f = path_validation_cache_get pc h f"
  by (simp add: realpath_cache_put_def path_validation_cache_get_def)

lemma rget_validation_put [simp]: "realpath_cache_get (path_validation_cache_put pc h f rc) p = realpath_cache_get pc p"
  by (simp add: path_validation_cache_put_def realpath_cache_get_def)

lemma coherent_vget_realpath_put [simp]: "coherent vget g (realpath_cache_put pc p r) = coherent vget g pc"
  by (simp add: coherent_def)

lemma coherent_rget_validation_put [simp]:
  "coherent realpath_cache_get g (path_validation_cache_put pc h f rc) = coherent realpath_cache_get g pc"
  by (simp add: coherent_def)

lemma coherent_put_validation:
  assumes "caches_coherent rp tty maps rootfs pc" "length host < PATH_MAX"
    and "rc = validate_pure rp tty (host_path_is_under_allowed_host_path maps rootfs) host follow"
  shows "caches_coherent rp tty maps rootfs (path_validation_cache_put pc host follow rc)"
  using assms vc.coherent_put [of pc _ "(host, follow)" rc] vc.inv_put [of pc "(host, follow)" rc]
  by (simp add: caches_coherent_def)

lemma cached_realpath_correct:
  assumes "caches_coherent rp tty maps rootfs pc" "rp_ok rp" "length p < PATH_MAX"
  shows "fst (cached_realpath rp pc p) = rp p"
    and "caches_coherent rp tty maps rootfs (snd (cached_realpath rp pc p))"
proof -
  have co: "path_cache_inv pc" "coherent realpath_cache_get (rp_view rp) pc"
    using assms(1) by (simp_all add: caches_coherent_def)
  have "fst (cached_realpath rp pc p) = rp p \<and> caches_coherent rp tty maps rootfs (snd (cached_realpath rp pc p))"
  proof (cases "realpath_cache_get pc p")
    case (Some r)
    from rc.coherent_hit [OF co(2) Some] have "rp p = Inr r"
      by (simp add: rp_view_def split: sum.splits)
    with Some assms(1) show ?thesis by (simp add: cached_realpath_def)
  next
    case None
    show ?thesis
    proof (cases "rp p")
      case (Inl e)
      with None assms(1) show ?thesis by (simp add: cached_realpath_def)
    next
      case (Inr r)
      then have "length r < PATH_MAX" using assms(2) by (simp add: rp_ok_def)
      moreover have "rp_view rp p = Some r" using Inr by (simp add: rp_view_def)
      ultimately have "coherent realpath_cache_get (rp_view rp) (realpath_cache_put pc p r)"
        using rc.coherent_put [OF co assms(3)] by simp
      with Inr None assms(1) rc.inv_put [OF co(1), of p r] show ?thesis
        by (simp add: cached_realpath_def caches_coherent_def)
    qed
  qed
  then show "fst (cached_realpath rp pc p) = rp p"
    and "caches_coherent rp tty maps rootfs (snd (cached_realpath rp pc p))" by blast+
qed

lemma path_parent_length: "path_parent n p = Inr q \<Longrightarrow> length q < n"
  by (auto simp: path_parent_def Let_def split: if_splits option.splits)

lemma validate_parent_loop_correct:
  assumes "caches_coherent rp tty maps rootfs pc" "rp_ok rp" "length probe < PATH_MAX" "length host < PATH_MAX"
    and "validate_pure rp tty (host_path_is_under_allowed_host_path maps rootfs) host follow
           = parent_pure rp (host_path_is_under_allowed_host_path maps rootfs) probe"
  shows "fst (validate_parent_loop rp maps rootfs host follow pc probe)
           = parent_pure rp (host_path_is_under_allowed_host_path maps rootfs) probe \<and>
         caches_coherent rp tty maps rootfs (snd (validate_parent_loop rp maps rootfs host follow pc probe))"
  using assms
proof (induction rp maps rootfs host follow pc probe rule: validate_parent_loop.induct)
  case (1 rp maps rootfs host follow pc probe)
  let ?allowed = "host_path_is_under_allowed_host_path maps rootfs"
  obtain res pc1 where cr: "cached_realpath rp pc probe = (res, pc1)" by fastforce
  have res: "res = rp probe" and co: "caches_coherent rp tty maps rootfs pc1"
    using cached_realpath_correct [OF "1.prems"(1,2,3)] cr by simp_all
  have put: "caches_coherent rp tty maps rootfs (path_validation_cache_put pc1 host follow
      (parent_pure rp ?allowed probe))"
    by (rule coherent_put_validation [OF co "1.prems"(4) "1.prems"(5) [symmetric]])
  show ?case
  proof (cases "rp probe")
    case (Inr r)
    have "parent_pure rp ?allowed probe = rc_of (?allowed r)"
      by (subst parent_pure.simps) (simp add: Inr)
    with put show ?thesis
      by (subst (1 2) validate_parent_loop.simps) (simp add: cr res Inr Let_def)
  next
    case (Inl e)
    show ?thesis
    proof (cases "\<not> missing e \<or> probe = ''/'' \<or> probe = ''.''")
      case True
      then have "parent_pure rp ?allowed probe = Some e"
        by (subst parent_pure.simps) (simp add: Inl)
      with put True show ?thesis
        by (subst (1 2) validate_parent_loop.simps) (auto simp: cr res Inl)
    next
      case False
      show ?thesis
      proof (cases "path_parent PATH_MAX probe")
        case (Inl e')
        then have "parent_pure rp ?allowed probe = Some e'"
          using False \<open>rp probe = Inl e\<close> by (subst parent_pure.simps) simp
        with put False Inl show ?thesis
          by (subst (1 2) validate_parent_loop.simps) (simp add: cr res \<open>rp probe = Inl e\<close>)
      next
        case (Inr q)
        have pp: "parent_pure rp ?allowed probe = parent_pure rp ?allowed q"
          using False Inr Inl by (subst parent_pure.simps) simp
        have step: "validate_parent_loop rp maps rootfs host follow pc probe =
            validate_parent_loop rp maps rootfs host follow pc1 q"
          using False by (subst validate_parent_loop.simps) (simp add: cr res Inl Inr)
        have nm: "\<not> \<not> missing e" "\<not> (probe = ''/'' \<or> probe = ''.'')" using False by simp_all
        have "validate_pure rp tty ?allowed host follow = parent_pure rp ?allowed q"
          using "1.prems"(5) pp by simp
        with step pp show ?thesis
          using "1.IH" [OF cr [symmetric] _ nm Inr co "1.prems"(2) path_parent_length [OF Inr] "1.prems"(4)]
            res Inl by simp
      qed
    qed
  qed
qed

lemma validate_host_path_correct:
  assumes co: "caches_coherent rp tty maps rootfs pc" and rp: "rp_ok rp" and len: "length host < PATH_MAX"
  shows "fst (validate_host_path_under_allowed rp tty maps rootfs pc host follow)
           = validate_pure rp tty (host_path_is_under_allowed_host_path maps rootfs) host follow \<and>
         caches_coherent rp tty maps rootfs
           (snd (validate_host_path_under_allowed rp tty maps rootfs pc host follow))"
proof -
  let ?allowed = "host_path_is_under_allowed_host_path maps rootfs"
  let ?v = "validate_host_path_under_allowed rp tty maps rootfs pc host follow"
  let ?w = "validate_pure rp tty ?allowed host follow"
  have put: "?w = rc \<Longrightarrow> caches_coherent rp tty maps rootfs pc' \<Longrightarrow>
      caches_coherent rp tty maps rootfs (path_validation_cache_put pc' host follow rc)" for rc pc'
    by (rule coherent_put_validation [OF _ len]) simp_all
  have fin: "?v = (rc, path_validation_cache_put pc' host follow rc) \<Longrightarrow> ?w = rc \<Longrightarrow>
      caches_coherent rp tty maps rootfs pc' \<Longrightarrow> ?thesis" for rc pc'
    using put by simp
  show ?thesis
  proof (cases "host = []")
    case True
    with co show ?thesis by (simp add: validate_host_path_under_allowed_def validate_pure_def)
  next
    case h: False
    show ?thesis
    proof (cases "normalize_absolute_path_lexical host PATH_MAX")
      case (Inl e)
      show ?thesis
        by (rule fin [of "Some e", OF _ _ co])
           (simp_all add: validate_host_path_under_allowed_def validate_pure_def h Inl)
    next
      case n: (Inr n)
      show ?thesis
      proof (cases "n = ''/proc/self/fd/0'' \<and> tty")
        case True
        then show ?thesis
          by (intro fin [of None, OF _ _ co])
             (simp_all add: validate_host_path_under_allowed_def validate_pure_def h n)
      next
        case t: False
        show ?thesis
        proof (cases "?allowed n")
          case False
          show ?thesis
            by (rule fin [of "Some EXDEV", OF _ _ co])
               (simp_all only: validate_host_path_under_allowed_def validate_pure_def h n sum.case
                 if_False if_not_P [OF t] False not_False_eq_True if_True)
        next
          case al: True
          note unf = validate_host_path_under_allowed_def validate_pure_def if_not_P [OF h] n sum.case
            if_not_P [OF t] al not_True_eq_False if_False
          show ?thesis
          proof (cases "path_validation_cache_get pc host follow")
            case (Some rc)
            from co have "coherent vget (\<lambda>k. Some (validate_pure rp tty ?allowed (fst k) (snd k))) pc"
              by (simp add: caches_coherent_def)
            from vc.coherent_hit [OF this, of "(host, follow)" rc] Some have "?w = rc" by simp
            moreover have "?v = (rc, pc)" by (simp only: unf Some option.case)
            ultimately show ?thesis using co by simp
          next
            case None
            obtain full pc1 where f: "(if follow then cached_realpath rp pc host else (Inl ENOENT, pc)) = (full, pc1)"
              by fastforce
            have full: "full = (if follow then rp host else Inl ENOENT)"
              and co1: "caches_coherent rp tty maps rootfs pc1"
              using cached_realpath_correct [OF co rp len] f co by (auto split: if_splits)
            have v: "?v = (case full of
                 Inr r \<Rightarrow> (rc_of (?allowed r), path_validation_cache_put pc1 host follow (rc_of (?allowed r)))
               | Inl e \<Rightarrow>
                   if follow \<and> \<not> missing e then
                     (Some e, path_validation_cache_put pc1 host follow (Some e))
                   else (case path_parent PATH_MAX host of
                            Inl e' \<Rightarrow> (Some e', pc1)
                          | Inr probe \<Rightarrow> validate_parent_loop rp maps rootfs host follow pc1 probe))"
              by (simp only: unf None option.case f Let_def prod.case)
            have w: "?w = (case full of Inr r \<Rightarrow> rc_of (?allowed r)
               | Inl e \<Rightarrow> if follow \<and> \<not> missing e then Some e
                   else (case path_parent PATH_MAX host of Inl e' \<Rightarrow> Some e'
                          | Inr probe \<Rightarrow> parent_pure rp ?allowed probe))"
              by (simp only: unf full)
            show ?thesis
            proof (cases full)
              case (Inr r)
              show ?thesis by (rule fin [OF _ _ co1]) (simp_all add: v w Inr)
            next
              case e: (Inl e)
              show ?thesis
              proof (cases "follow \<and> \<not> missing e")
                case True
                show ?thesis
                  by (rule fin [of "Some e", OF _ _ co1]) (simp_all only: v w e sum.case if_P [OF True])
              next
                case m: False
                show ?thesis
                proof (cases "path_parent PATH_MAX host")
                  case (Inl e')
                  with co1 show ?thesis by (simp only: v w e m sum.case if_False fst_conv snd_conv simp_thms)
                next
                  case (Inr q)
                  have vq: "?v = validate_parent_loop rp maps rootfs host follow pc1 q"
                    by (simp only: v e Inr if_not_P [OF m] sum.case)
                  have wq: "?w = parent_pure rp ?allowed q"
                    by (simp only: w e Inr if_not_P [OF m] sum.case)
                  show ?thesis
                    unfolding vq wq
                    by (rule validate_parent_loop_correct [OF co1 rp path_parent_length [OF Inr] len wq])
                qed
              qed
            qed
          qed
        qed
      qed
    qed
  qed
qed

end
