(* ===== verification/Path_Session.thy ===== *)
theory Path_Session
  imports Path_Validate
begin

text \<open>
  The path caches over time. A session interleaves validations with changes of the host file
  system by the traced program. A change happens only between \<open>begin_path_cache_mutation\<close>
  (system call entry) and \<open>finish_path_cache_mutation\<close> (system call exit), the bracket
  \<open>handle_syscall_entry\<close> and the trace loop put around every system call of
  \<open>path_syscall_invalidates_cache\<close>. The theorem: under this discipline every validation answers
  what the uncached walk answers on the file system of that moment.
\<close>

section \<open>Acceptance, spelled out\<close>

lemma validate_pure_None_iff:
  "validate_pure rp tty allowed host follow = None \<longleftrightarrow>
     host \<noteq> [] \<and> (\<exists>n. normalize_absolute_path_lexical host PATH_MAX = Inr n \<and>
       (n = ''/proc/self/fd/0'' \<and> tty \<or>
        allowed n \<and>
          (if follow \<and> (\<exists>r. rp host = Inr r) then allowed (projr (rp host))
           else (follow \<longrightarrow> missing (projl (rp host))) \<and>
             (\<exists>q r. path_parent PATH_MAX host = Inr q \<and> nearest_existing rp q r \<and> allowed r))))"
proof (cases "normalize_absolute_path_lexical host PATH_MAX")
  case (Inl e)
  then show ?thesis by (simp add: validate_pure_def)
next
  case n: (Inr n)
  have parent: "(case path_parent PATH_MAX host of Inl e' \<Rightarrow> Some e' | Inr probe \<Rightarrow> parent_pure rp allowed probe) = None
      \<longleftrightarrow> (\<exists>q r. path_parent PATH_MAX host = Inr q \<and> nearest_existing rp q r \<and> allowed r)"
    by (cases "path_parent PATH_MAX host") (simp_all add: parent_pure_ok)
  show ?thesis
  proof (cases follow)
    case False
    with n parent show ?thesis by (auto simp: validate_pure_def)
  next
    case True
    with n parent show ?thesis by (cases "rp host") (auto simp: validate_pure_def)
  qed
qed

section \<open>Sessions\<close>

record path_session =
  ps_rp :: "string \<Rightarrow> errno + string"
  ps_cache :: path_cache

datatype path_event =
    EvValidate string bool "errno option"
  | EvBegin
  | EvChange
  | EvFinish

inductive session_step ::
  "bool \<Rightarrow> bind_map list \<Rightarrow> string \<Rightarrow> path_session \<Rightarrow> path_event \<Rightarrow> path_session \<Rightarrow> bool"
  for tty :: bool and maps :: "bind_map list" and rootfs :: string where
  validate: "length host < PATH_MAX \<Longrightarrow>
     validate_host_path_under_allowed (ps_rp s) tty maps rootfs (ps_cache s) host follow = (rc, pc) \<Longrightarrow>
     session_step tty maps rootfs s (EvValidate host follow rc) (s\<lparr>ps_cache := pc\<rparr>)"
| begin_mutation: "session_step tty maps rootfs s EvBegin (s\<lparr>ps_cache := begin_path_cache_mutation (ps_cache s)\<rparr>)"
| fs_change: "pc_mutation_inflight (ps_cache s) > 0 \<Longrightarrow> rp_ok rp' \<Longrightarrow>
     session_step tty maps rootfs s EvChange (s\<lparr>ps_rp := rp'\<rparr>)"
| finish_mutation: "pc_mutation_inflight (ps_cache s) > 0 \<Longrightarrow>
     session_step tty maps rootfs s EvFinish (s\<lparr>ps_cache := finish_path_cache_mutation (ps_cache s)\<rparr>)"

inductive session_trace ::
  "bool \<Rightarrow> bind_map list \<Rightarrow> string \<Rightarrow> path_session \<Rightarrow> path_event list \<Rightarrow> path_session \<Rightarrow> bool"
  for tty :: bool and maps :: "bind_map list" and rootfs :: string where
  start: "session_trace tty maps rootfs s [] s"
| step: "session_trace tty maps rootfs s evs s' \<Longrightarrow> session_step tty maps rootfs s' ev s'' \<Longrightarrow>
     session_trace tty maps rootfs s (evs @ [ev]) s''"

inductive_cases validate_stepE: "session_step tty maps rootfs s (EvValidate host follow rc) s'"

definition quiet :: "path_cache \<Rightarrow> bool" where
  "quiet pc \<longleftrightarrow> (\<forall>k. vget pc k = None) \<and> (\<forall>p. realpath_cache_get pc p = None)"

definition session_inv :: "bool \<Rightarrow> bind_map list \<Rightarrow> string \<Rightarrow> path_session \<Rightarrow> bool" where
  "session_inv tty maps rootfs s \<longleftrightarrow>
     rp_ok (ps_rp s) \<and> caches_coherent (ps_rp s) tty maps rootfs (ps_cache s) \<and>
     pc_store_disabled (ps_cache s) = pc_mutation_inflight (ps_cache s) \<and>
     (pc_mutation_inflight (ps_cache s) > 0 \<longrightarrow> quiet (ps_cache s))"

lemma quiet_coherent: "path_cache_inv pc \<Longrightarrow> quiet pc \<Longrightarrow> caches_coherent rp tty maps rootfs pc"
  by (simp add: quiet_def caches_coherent_def coherent_def)

lemma put_disabled [simp]:
  "pc_mutation_inflight pc > 0 \<Longrightarrow> path_validation_cache_put pc h f rc = pc"
  "pc_mutation_inflight pc > 0 \<Longrightarrow> realpath_cache_put pc p r = pc"
  by (simp_all add: path_validation_cache_put_def realpath_cache_put_def)

lemma put_counters [simp]:
  "pc_mutation_inflight (path_validation_cache_put pc h f rc) = pc_mutation_inflight pc"
  "pc_store_disabled (path_validation_cache_put pc h f rc) = pc_store_disabled pc"
  "pc_mutation_inflight (realpath_cache_put pc p r) = pc_mutation_inflight pc"
  "pc_store_disabled (realpath_cache_put pc p r) = pc_store_disabled pc"
  by (simp_all add: path_validation_cache_put_def realpath_cache_put_def)

lemma cached_realpath_counters [simp]:
  "pc_mutation_inflight (snd (cached_realpath rp pc p)) = pc_mutation_inflight pc"
  "pc_store_disabled (snd (cached_realpath rp pc p)) = pc_store_disabled pc"
  by (simp_all add: cached_realpath_def split: option.splits sum.splits)

lemma cached_realpath_disabled:
  "pc_mutation_inflight pc > 0 \<Longrightarrow> snd (cached_realpath rp pc p) = pc"
  by (simp add: cached_realpath_def split: option.splits sum.splits)

text \<open>A predicate on caches that both stores keep is kept by a validation.\<close>

definition stores_keep :: "(path_cache \<Rightarrow> bool) \<Rightarrow> bool" where
  "stores_keep P \<longleftrightarrow> (\<forall>pc h f rc. P pc \<longrightarrow> P (path_validation_cache_put pc h f rc)) \<and>
     (\<forall>pc p r. P pc \<longrightarrow> P (realpath_cache_put pc p r))"

lemma stores_keep_realpath: "stores_keep P \<Longrightarrow> P pc \<Longrightarrow> P (snd (cached_realpath rp pc p))"
  by (simp add: stores_keep_def cached_realpath_def split: option.splits sum.splits)

lemma stores_keep_loop:
  "stores_keep P \<Longrightarrow> P pc \<Longrightarrow> P (snd (validate_parent_loop rp maps rootfs host follow pc probe))"
proof (induction rp maps rootfs host follow pc probe rule: validate_parent_loop.induct)
  case (1 rp maps rootfs host follow pc probe)
  obtain res pc1 where cr: "cached_realpath rp pc probe = (res, pc1)" by fastforce
  have p1: "P pc1" using stores_keep_realpath [OF "1.prems", of rp probe] cr by simp
  have put: "P (path_validation_cache_put pc1 host follow rc)" for rc
    using "1.prems"(1) p1 by (simp add: stores_keep_def)
  show ?case
  proof (cases res)
    case (Inr r)
    with put cr show ?thesis by (subst validate_parent_loop.simps) (simp add: Let_def)
  next
    case e: (Inl e)
    show ?thesis
    proof (cases "\<not> missing e \<or> probe = ''/'' \<or> probe = ''.''")
      case True
      with put cr e show ?thesis by (subst validate_parent_loop.simps) auto
    next
      case False
      then have f: "\<not> \<not> missing e" "\<not> (probe = ''/'' \<or> probe = ''.'')" by simp_all
      show ?thesis
      proof (cases "path_parent PATH_MAX probe")
        case (Inl e')
        with put cr e f show ?thesis by (subst validate_parent_loop.simps) simp
      next
        case (Inr q)
        have "validate_parent_loop rp maps rootfs host follow pc probe =
            validate_parent_loop rp maps rootfs host follow pc1 q"
          using f by (subst validate_parent_loop.simps) (simp add: cr e Inr)
        with "1.IH" [OF cr [symmetric] e f Inr "1.prems"(1) p1] show ?thesis by simp
      qed
    qed
  qed
qed

lemma stores_keep_validate:
  assumes "stores_keep P" "P pc"
  shows "P (snd (validate_host_path_under_allowed rp tty maps rootfs pc host follow))"
proof -
  have put: "P pc' \<Longrightarrow> P (path_validation_cache_put pc' h f rc)" for pc' h f rc
    using assms(1) by (simp add: stores_keep_def)
  obtain full pc1 where f: "(if follow then cached_realpath rp pc host else (Inl ENOENT, pc)) = (full, pc1)"
    by fastforce
  have "P pc1" using f assms(2) stores_keep_realpath [OF assms, of rp host] by (simp split: if_splits)
  with stores_keep_loop [OF assms(1)] put assms(2) show ?thesis
    unfolding validate_host_path_under_allowed_def f
    by (auto simp: Let_def split: sum.splits option.splits)
qed

lemma stores_keep_counters: "stores_keep (\<lambda>pc. pc_mutation_inflight pc = n \<and> pc_store_disabled pc = m)"
  by (simp add: stores_keep_def)

lemma stores_keep_frozen: "n > 0 \<Longrightarrow> pc_mutation_inflight pc0 = n \<Longrightarrow> stores_keep (\<lambda>pc. pc = pc0)"
  by (simp add: stores_keep_def)

lemma begin_quiet:
  assumes "path_cache_inv pc"
  shows "quiet (begin_path_cache_mutation pc)"
  using invalidate_stale [OF assms]
  by (simp add: quiet_def begin_path_cache_mutation_def Let_def path_validation_cache_get_def realpath_cache_get_def)

lemma get_finish [simp]:
  "path_validation_cache_get (finish_path_cache_mutation pc) h f = path_validation_cache_get pc h f"
  "realpath_cache_get (finish_path_cache_mutation pc) p = realpath_cache_get pc p"
  by (simp_all add: finish_path_cache_mutation_def path_validation_cache_get_def realpath_cache_get_def)

lemma finish_quiet: "quiet pc \<Longrightarrow> quiet (finish_path_cache_mutation pc)"
  by (simp add: quiet_def)

lemma session_inv_init:
  "rp_ok rp \<Longrightarrow> session_inv tty maps rootfs \<lparr>ps_rp = rp, ps_cache = path_cache_init b\<rparr>"
proof -
  assume rp: "rp_ok rp"
  have "quiet (path_cache_init b)"
    by (simp add: quiet_def path_cache_init_def path_validation_cache_get_def realpath_cache_get_def
        validation_zero_def realpath_zero_def Let_def)
  from quiet_coherent [OF path_cache_inv_init this] this rp show ?thesis
    by (simp add: session_inv_def) (simp add: path_cache_init_def)
qed

lemma session_step_inv:
  assumes "session_step tty maps rootfs s ev s'" "session_inv tty maps rootfs s"
  shows "session_inv tty maps rootfs s'"
  using assms
proof (cases rule: session_step.cases)
  case (validate host follow rc pc)
  let ?v = "validate_host_path_under_allowed (ps_rp s) tty maps rootfs (ps_cache s) host follow"
  from assms(2) have inv: "rp_ok (ps_rp s)" "caches_coherent (ps_rp s) tty maps rootfs (ps_cache s)"
    "pc_store_disabled (ps_cache s) = pc_mutation_inflight (ps_cache s)"
    "pc_mutation_inflight (ps_cache s) > 0 \<Longrightarrow> quiet (ps_cache s)"
    by (simp_all add: session_inv_def)
  have pc: "pc = snd ?v" using validate by simp
  have co: "caches_coherent (ps_rp s) tty maps rootfs pc"
    using validate_host_path_correct [OF inv(2,1) validate(3)] pc by simp
  have cnt: "pc_mutation_inflight pc = pc_mutation_inflight (ps_cache s) \<and>
      pc_store_disabled pc = pc_store_disabled (ps_cache s)"
    unfolding pc by (rule stores_keep_validate [OF stores_keep_counters]) simp
  have "quiet pc" if "pc_mutation_inflight pc > 0"
  proof -
    have fl: "pc_mutation_inflight (ps_cache s) > 0" using that cnt by simp
    have "pc = ps_cache s"
      unfolding pc by (rule stores_keep_validate [OF stores_keep_frozen [OF fl refl]]) simp
    with inv(4) fl show ?thesis by simp
  qed
  with validate(2) inv(1,3) co cnt show ?thesis by (simp add: session_inv_def)
next
  case begin_mutation
  from assms(2) have inv: "path_cache_inv (ps_cache s)"
    by (simp add: session_inv_def caches_coherent_def)
  have "pc_store_disabled (begin_path_cache_mutation (ps_cache s)) =
      pc_mutation_inflight (begin_path_cache_mutation (ps_cache s))"
    using assms(2) by (simp add: session_inv_def begin_path_cache_mutation_def invalidate_path_caches_def Let_def)
  with begin_mutation assms(2) begin_quiet [OF inv] quiet_coherent [OF begin_inv [OF inv]] show ?thesis
    by (simp add: session_inv_def)
next
  case (fs_change rp')
  with assms(2) have "quiet (ps_cache s)" "path_cache_inv (ps_cache s)"
    by (simp_all add: session_inv_def caches_coherent_def)
  with fs_change assms(2) quiet_coherent show ?thesis by (simp add: session_inv_def)
next
  case finish_mutation
  from assms(2) have inv: "path_cache_inv (ps_cache s)"
    by (simp add: session_inv_def caches_coherent_def)
  have q: "quiet (finish_path_cache_mutation (ps_cache s))"
    using finish_mutation assms(2) by (intro finish_quiet) (simp add: session_inv_def)
  have "pc_store_disabled (finish_path_cache_mutation (ps_cache s)) =
      pc_mutation_inflight (finish_path_cache_mutation (ps_cache s))"
    using assms(2) by (simp add: session_inv_def finish_path_cache_mutation_def)
  with finish_mutation assms(2) q quiet_coherent [OF finish_inv [OF inv] q] show ?thesis
    by (simp add: session_inv_def)
qed

lemma session_trace_inv:
  "session_trace tty maps rootfs s evs s' \<Longrightarrow> session_inv tty maps rootfs s \<Longrightarrow> session_inv tty maps rootfs s'"
  by (induction rule: session_trace.induct) (blast intro: session_step_inv)+

end
