(* ===== verification/Path_Meaning.thy ===== *)
theory Path_Meaning
  imports Path_Session
begin

text \<open>
  The path layer on component lists: which entry of the bind table a path selects, where a translated
  path leads, and what the byte tests of the validation mean.
\<close>

section \<open>Binds\<close>

text \<open>A bind covers a path when its guest components begin the components of the path.\<close>

definition covered_by :: "bind_map \<Rightarrow> string list \<Rightarrow> bool" where
  "covered_by m cs \<longleftrightarrow> prefix (components (bm_guest m)) cs"

definition plain_table :: "bind_map list \<Rightarrow> bool" where
  "plain_table maps \<longleftrightarrow> (\<forall>m \<in> set maps. bm_guest m = render (components (bm_guest m)))"

lemma prefix_render_cut:
  assumes "\<forall>c \<in> set (ds @ es). plain_seg c" "ds \<noteq> []"
  shows "render (ds @ es) = render ds @ (if es = [] then [] else render es)"
  using assms by (simp add: render_def)

lemma render_byte_prefix:
  assumes "\<forall>c \<in> set ds. plain_seg c" "\<forall>c \<in> set cs. plain_seg c" "ds \<noteq> []"
  shows "prefix (render ds) (render cs) \<and>
      (drop (length (render ds)) (render cs) = [] \<or> hd (drop (length (render ds)) (render cs)) = slash) \<longleftrightarrow> prefix ds cs"
  using under_prefix_render [OF assms] render_head [of ds] render_head [of cs]
  by (auto simp: host_path_is_under_prefix_def Let_def)

text \<open>On canonical paths the byte test of the code is this relation.\<close>

lemma match_covered:
  assumes "bm_guest m = render (components (bm_guest m))" "\<forall>c \<in> set cs. plain_seg c"
  shows "bind_guest_match m (render cs) \<noteq> None \<longleftrightarrow> covered_by m cs"
    and "bind_guest_match m (render cs) = Some s \<Longrightarrow>
      components s = drop (length (components (bm_guest m))) cs \<and> length s \<le> length (render cs)"
proof -
  let ?ds = "components (bm_guest m)"
  have ds: "\<forall>c \<in> set ?ds. plain_seg c" by (simp add: components_plain_set)
  have "(bind_guest_match m (render cs) \<noteq> None \<longleftrightarrow> covered_by m cs) \<and>
      (\<forall>s. bind_guest_match m (render cs) = Some s \<longrightarrow>
        components s = drop (length ?ds) cs \<and> length s \<le> length (render cs))"
  proof (cases "?ds = []")
    case True
    then have "bm_guest m = ''/''" using assms(1) by (simp add: render_def)
    then show ?thesis using True assms(2) by (simp add: bind_guest_match_def covered_by_def)
  next
    case False
    have root: "bm_guest m \<noteq> ''/''" using False by auto
    have m: "bind_guest_match m (render cs) =
        (if prefix ?ds cs then Some (drop (length (bm_guest m)) (render cs)) else None)"
      using render_byte_prefix [OF ds assms(2) False] root assms(1) [symmetric]
      by (auto simp: bind_guest_match_def Let_def)
    have "components (drop (length (bm_guest m)) (render cs)) = drop (length ?ds) cs" if pre: "prefix ?ds cs"
    proof -
      obtain es where es: "cs = ?ds @ es" using pre by (auto elim: prefixE)
      have "render cs = bm_guest m @ (if es = [] then [] else render es)"
        using prefix_render_cut [of ?ds es] es assms False by metis
      then show ?thesis using es assms(2) by (cases "es = []") (auto simp: es)
    qed
    with m show ?thesis by (auto simp: covered_by_def)
  qed
  then show "bind_guest_match m (render cs) \<noteq> None \<longleftrightarrow> covered_by m cs"
    "bind_guest_match m (render cs) = Some s \<Longrightarrow>
      components s = drop (length (components (bm_guest m))) cs \<and> length s \<le> length (render cs)" by blast+
qed

lemma render_mono:
  assumes "prefix ds es" "\<forall>c \<in> set es. plain_seg c" "ds \<noteq> es"
  shows "length (render ds) < length (render es) \<and> length ds < length es"
proof -
  obtain r where r: "es = ds @ r" "r \<noteq> []" using assms(1,3) by (auto elim: prefixE)
  then obtain c rs where c: "r = c # rs" "c \<noteq> []" using assms(2) by (cases r) (auto simp: plain_seg_def)
  then show ?thesis using r by (auto simp: render_def)
qed

text \<open>Byte lengths order the covering binds as their numbers of components do.\<close>

lemma covering_order:
  assumes "bm_guest m = render (components (bm_guest m))" "bm_guest k = render (components (bm_guest k))"
    and "covered_by m cs" "covered_by k cs"
  shows "length (bm_guest m) \<le> length (bm_guest k) \<longleftrightarrow> length (components (bm_guest m)) \<le> length (components (bm_guest k))"
proof -
  let ?a = "components (bm_guest k)" and ?b = "components (bm_guest m)"
  have plain: "\<forall>c \<in> set ?a. plain_seg c" "\<forall>c \<in> set ?b. plain_seg c" by (simp_all add: components_plain_set)
  consider "?a = ?b" | "prefix ?a ?b" "?a \<noteq> ?b" | "prefix ?b ?a" "?a \<noteq> ?b"
    using assms(3,4) unfolding covered_by_def by (meson prefix_same_cases)
  then show ?thesis
  proof cases
    case 1
    then show ?thesis using assms(1,2) by simp
  next
    case 2
    then show ?thesis using render_mono [OF 2(1) plain(2) 2(2)] assms(1,2) by simp
  next
    case 3
    then show ?thesis using render_mono [OF 3(1) plain(1)] assms(1,2) by simp
  qed
qed

text \<open>The covering bind with the most components, the last one in the table among equals.\<close>

definition chosen :: "bind_map list \<Rightarrow> string list \<Rightarrow> bind_map \<Rightarrow> bool" where
  "chosen maps cs m \<longleftrightarrow>
     (\<exists>pre post. maps = pre @ m # post \<and> covered_by m cs
        \<and> (\<forall>k \<in> set pre. covered_by k cs \<longrightarrow> length (components (bm_guest k)) \<le> length (components (bm_guest m)))
        \<and> (\<forall>k \<in> set post. covered_by k cs \<longrightarrow> length (components (bm_guest k)) < length (components (bm_guest m))))"

lemma selected_chosen:
  assumes "plain_table maps" "\<forall>c \<in> set cs. plain_seg c" "selected maps (render cs) m s"
  shows "chosen maps cs m"
proof -
  obtain pre post where sel: "maps = pre @ m # post" "bind_guest_match m (render cs) = Some s"
    "\<forall>k \<in> set pre. bind_guest_match k (render cs) \<noteq> None \<longrightarrow> length (bm_guest k) \<le> length (bm_guest m)"
    "\<forall>k \<in> set post. bind_guest_match k (render cs) \<noteq> None \<longrightarrow> length (bm_guest k) < length (bm_guest m)"
    using assms(3) unfolding selected_def by blast
  have plain: "bm_guest k = render (components (bm_guest k))" if "k \<in> set maps" for k
    using assms(1) that by (simp add: plain_table_def)
  note match = match_covered(1) [OF plain assms(2)]
  have m: "m \<in> set maps" "covered_by m cs" using sel(1,2) match [of m] by auto
  have "length (components (bm_guest k)) \<le> length (components (bm_guest m))" if "k \<in> set pre" "covered_by k cs" for k
    using sel(1,3) that match [of k] covering_order [OF plain plain that(2) m(2)] m(1) by auto
  moreover have "length (components (bm_guest k)) < length (components (bm_guest m))" if "k \<in> set post" "covered_by k cs" for k
    using sel(1,4) that match [of k] covering_order [OF plain plain m(2) that(2)] m(1) by auto
  ultimately show ?thesis unfolding chosen_def using sel(1) m(2) by blast
qed

lemma components_join: "s = [] \<or> hd s = slash \<Longrightarrow> components (p @ s) = components p @ components s"
  by (cases s) (auto simp: components_append_slash)

lemma bind_out_components:
  assumes "plain_table maps" "\<forall>c \<in> set cs. plain_seg c" "selected maps (render cs) m s"
  shows "components (bind_out m s) = components (bm_host m) @ drop (length (components (bm_guest m))) cs"
    and "length (bind_out m s) \<le> length (bm_host m) + length (render cs)"
proof -
  have m: "m \<in> set maps" "bind_guest_match m (render cs) = Some s" using selected_mem [OF assms(3)] by auto
  have s: "s = [] \<or> hd s = slash" using bind_guest_match_Some [OF m(2)] render_head [of cs] by auto
  have c: "components s = drop (length (components (bm_guest m))) cs \<and> length s \<le> length (render cs)"
    using match_covered(2) [OF _ assms(2) m(2)] assms(1) m(1) by (simp add: plain_table_def)
  show "components (bind_out m s) = components (bm_host m) @ drop (length (components (bm_guest m))) cs"
    using c components_join [OF s, of "bm_host m"] by (auto simp: bind_out_def)
  show "length (bind_out m s) \<le> length (bm_host m) + length (render cs)"
    using c by (auto simp: bind_out_def)
qed

lemma resolve_bind_path_meaning:
  assumes "plain_table maps" "\<forall>c \<in> set cs. plain_seg c"
  shows "case resolve_bind_path maps (render cs) n of
      Inr None \<Rightarrow> \<forall>m \<in> set maps. \<not> covered_by m cs
    | Inr (Some out) \<Rightarrow> length out < n \<and> (\<exists>m. chosen maps cs m
        \<and> components out = components (bm_host m) @ drop (length (components (bm_guest m))) cs)
    | Inl e \<Rightarrow> e = ENAMETOOLONG \<and> (\<exists>m. chosen maps cs m \<and> n \<le> length (bm_host m) + length (render cs))"
proof (cases "best_bind maps (render cs) None")
  case None
  then have "resolve_bind_path maps (render cs) n = Inr None" by (simp add: resolve_bind_path_def)
  moreover from this have "\<forall>m \<in> set maps. bind_guest_match m (render cs) = None"
    by (simp only: resolve_bind_path_None)
  ultimately show ?thesis
    using match_covered(1) [OF _ assms(2)] assms(1) unfolding plain_table_def by fastforce
next
  case (Some p)
  obtain m s where p: "p = (m, s)" by fastforce
  have sel: "selected maps (render cs) m s" using best_bind_Some Some p by blast
  note out = bind_out_components [OF assms sel] and ch = selected_chosen [OF assms sel]
  have "resolve_bind_path maps (render cs) n =
      (if n \<le> length (bind_out m s) then Inl ENAMETOOLONG else Inr (Some (bind_out m s)))"
    using Some p by (simp add: resolve_bind_path_def bind_out_def Let_def)
  then show ?thesis using out ch by (auto intro: order_trans)
qed

section \<open>Where a translated path leads\<close>

lemma dots_append_plain:
  assumes "''..'' \<notin> set ys"
  shows "prefix (resolve_dots xs) (resolve_dots (xs @ ys))"
proof -
  have "\<exists>zs. foldl dot_step st ys = zs @ st" for st
    using assms
  proof (induction ys arbitrary: st)
    case (Cons y ys)
    then obtain zs where "foldl dot_step (dot_step st y) ys = zs @ dot_step st y" by fastforce
    moreover have "dot_step st y = (if y = ''.'' then [] else [y]) @ st"
      using Cons.prems by (auto simp: dot_step_def)
    ultimately show ?case by simp
  qed simp
  then obtain zs where "foldl dot_step (foldl dot_step [] xs) ys = zs @ foldl dot_step [] xs" by blast
  then show ?thesis by (auto simp: resolve_dots_def)
qed

text \<open>The path leads below the directory, dots resolved.\<close>

definition leads_below :: "string \<Rightarrow> string \<Rightarrow> bool" where
  "leads_below base p \<longleftrightarrow> prefix (resolve_dots (components base)) (resolve_dots (components p))"

lemma leads_below_join:
  assumes "s = [] \<or> hd s = slash" "\<not> path_has_parent_segment s"
  shows "leads_below p (p @ s)"
  unfolding leads_below_def components_join [OF assms(1)]
  by (rule dots_append_plain) (use assms(2) in \<open>simp add: path_has_parent_segment_iff\<close>)

lemma parent_segment_suffix:
  assumes "\<not> path_has_parent_segment (a @ s)" "s = [] \<or> hd s = slash"
  shows "\<not> path_has_parent_segment s"
  using assms(1) unfolding path_has_parent_segment_iff components_join [OF assms(2)] by simp

lemma proc_component: "components ''/.pdocker-proc'' = [''.pdocker-proc'']"
  by (simp add: components_def)

lemma resolve_guest_leads:
  assumes res: "resolve_guest_host_path ex tty maps rootfs guest n = Inr (Some (out, b))"
    and dots: "\<not> path_has_parent_segment guest"
  shows "(\<exists>base \<in> insert rootfs (bm_host ` set maps). leads_below base out) \<or> out = ''/proc/self/fd/0'' \<and> tty"
proof (cases "guest = ''/proc'' \<or> prefix ''/proc/'' guest")
  case True
  then obtain s where s: "guest = ''/proc'' @ s" "s = [] \<or> hd s = slash" by (auto elim: prefixE)
  then have "out = rootfs @ ''/.pdocker-proc'' @ s"
    using True res by (auto simp: resolve_guest_host_path_def Let_def split: if_splits)
  moreover have "\<not> path_has_parent_segment s"
    using parent_segment_suffix [of "''/proc''" s] dots s by blast
  then have "\<not> path_has_parent_segment (''/.pdocker-proc'' @ s)"
    unfolding path_has_parent_segment_iff components_join [OF s(2)] proc_component by simp
  ultimately have "leads_below rootfs out" using leads_below_join [of "''/.pdocker-proc'' @ s" rootfs] by simp
  then show ?thesis by blast
next
  case False
  show ?thesis
  proof (cases "guest = ''/dev/tty'' \<and> tty")
    case True
    with False res show ?thesis by (simp add: resolve_guest_host_path_def split: if_splits)
  next
    case tty: False
    have rw: "should_rewrite_path rootfs guest"
      using False tty res by (auto simp: resolve_guest_host_path_def split: if_splits)
    note abs = should_rewrite_abs [OF rw]
    have eq: "resolve_guest_host_path ex tty maps rootfs guest n =
       (case resolve_bind_path maps guest n of Inl e \<Rightarrow> Inl e
        | Inr (Some out) \<Rightarrow> Inr (Some (out, True))
        | Inr None \<Rightarrow> if n \<le> length (rootfs @ guest) then Inl ENAMETOOLONG else Inr (Some (rootfs @ guest, False)))"
      by (simp only: resolve_guest_host_path_def if_not_P [OF False] if_not_P [OF tty] rw Let_def
          not_True_eq_False if_False)
    show ?thesis
    proof (cases "resolve_bind_path maps guest n")
      case (Inl e)
      with eq res show ?thesis by simp
    next
      case (Inr r)
      show ?thesis
      proof (cases r)
        case None
        with Inr eq res have "out = rootfs @ guest" by (simp split: if_splits)
        then have "leads_below rootfs out" using leads_below_join [of guest rootfs] abs dots by simp
        then show ?thesis by blast
      next
        case (Some o')
        with Inr eq res have o': "resolve_bind_path maps guest n = Inr (Some out)" by simp
        obtain m s where sel: "selected maps guest m s" and ms: "out = bind_out m s"
          using resolve_bind_path_Some [OF o'] by metis
        note m = selected_mem [OF sel, THEN conjunct1] selected_mem [OF sel, THEN conjunct2]
        note s = bind_guest_match_Some [OF m(2)]
        have hd: "s = [] \<or> hd s = slash" using s abs by auto
        have nd: "\<not> path_has_parent_segment s"
          using s dots parent_segment_suffix [of "bm_guest m" s] hd by auto
        have "leads_below (bm_host m) (bm_host m @ s)" by (rule leads_below_join [OF hd nd])
        then have "leads_below (bm_host m) out"
          unfolding ms bind_out_def leads_below_def by (auto simp: components_join [OF hd])
        with m(1) show ?thesis by blast
      qed
    qed
  qed
qed

section \<open>What the tests of the validation mean\<close>

text \<open>Inside an allowed directory, on components. A bind of the host root allows the root alone.\<close>

definition inside :: "bind_map list \<Rightarrow> string \<Rightarrow> string \<Rightarrow> bool" where
  "inside maps rootfs p \<longleftrightarrow>
     (\<exists>base \<in> insert rootfs (bm_host ` set maps).
        prefix (components base) (components p) \<and> (components base = [] \<longrightarrow> components p = []))"

definition canonical :: "string \<Rightarrow> bool" where
  "canonical p \<longleftrightarrow> p = render (components p)"

lemma under_prefix_canonical:
  assumes "canonical base" "canonical p"
  shows "host_path_is_under_prefix base p \<longleftrightarrow>
    prefix (components base) (components p) \<and> (components base = [] \<longrightarrow> components p = [])"
proof -
  have plain: "\<forall>c \<in> set (components x). plain_seg c" for x by (simp add: components_plain_set)
  show ?thesis
  proof (cases "components base = []")
    case True
    then have "base = ''/''" using assms(1) by (simp add: canonical_def render_def)
    moreover have "components p \<noteq> [] \<Longrightarrow> \<not> host_path_is_under_prefix ''/'' p"
      using render_not_under_root [OF plain, of p] assms(2) by (simp add: canonical_def)
    moreover have "components p = [] \<Longrightarrow> p = ''/''" using assms(2) by (simp add: canonical_def render_def)
    ultimately show ?thesis using True by (auto simp: host_path_is_under_prefix_def)
  next
    case False
    then show ?thesis using under_prefix_render [OF plain plain False, of p] assms by (simp add: canonical_def)
  qed
qed

lemma allowed_inside:
  assumes "canonical rootfs" "\<forall>m \<in> set maps. canonical (bm_host m)" "canonical p"
  shows "host_path_is_under_allowed_host_path maps rootfs p \<longleftrightarrow> inside maps rootfs p"
  using assms under_prefix_canonical
  by (auto simp: host_path_is_under_allowed_host_path_def host_path_is_under_bind_host_def inside_def)

lemma canonical_normal: "canonical (render (resolve_dots (components p)))"
  using resolve_dots_components_proper [of p] by (simp add: canonical_def proper_seg_def)

text \<open>Documented behaviour of \<open>realpath\<close>: the result is absolute, without dots and doubled slashes.\<close>

definition realpath_canonical :: "(string \<Rightarrow> errno + string) \<Rightarrow> bool" where
  "realpath_canonical rp \<longleftrightarrow> (\<forall>p r. rp p = Inr r \<longrightarrow> canonical r)"

lemma nearest_resolved: "nearest_existing rp p r \<Longrightarrow> \<exists>q. rp q = Inr r"
  by (induction rule: nearest_existing.induct) auto

lemma accepted_meaning:
  assumes rp: "realpath_canonical rp" and dirs: "canonical rootfs" "\<forall>m \<in> set maps. canonical (bm_host m)"
    and len: "length host < PATH_MAX"
  shows "validate_pure rp tty (host_path_is_under_allowed_host_path maps rootfs) host follow = None \<longleftrightarrow>
    (\<exists>r. host = slash # r) \<and>
    (render (resolve_dots (components host)) = ''/proc/self/fd/0'' \<and> tty \<or>
     inside maps rootfs (render (resolve_dots (components host))) \<and>
       (if follow \<and> (\<exists>r. rp host = Inr r) then inside maps rootfs (projr (rp host))
        else (follow \<longrightarrow> missing (projl (rp host))) \<and>
          (\<exists>q r. path_parent PATH_MAX host = Inr q \<and> nearest_existing rp q r \<and> inside maps rootfs r)))"
proof (cases "\<exists>r. host = slash # r")
  case False
  then have "\<exists>e. normalize_absolute_path_lexical host PATH_MAX = Inl e"
    by (cases host) (auto simp: normalize_absolute_path_lexical_def)
  with False show ?thesis by (auto simp: validate_pure_None_iff)
next
  case True
  then have n: "normalize_absolute_path_lexical host PATH_MAX = Inr (render (resolve_dots (components host)))"
    by (intro normalize_total) (use len in auto)
  have al: "host_path_is_under_allowed_host_path maps rootfs p \<longleftrightarrow> inside maps rootfs p" if "canonical p" for p
    by (rule allowed_inside [OF dirs that])
  have r: "rp q = Inr r \<Longrightarrow> host_path_is_under_allowed_host_path maps rootfs r \<longleftrightarrow> inside maps rootfs r" for q r
    using rp al by (auto simp: realpath_canonical_def)
  have near: "nearest_existing rp q r \<and> host_path_is_under_allowed_host_path maps rootfs r \<longleftrightarrow>
      nearest_existing rp q r \<and> inside maps rootfs r" for q r
    using nearest_resolved r by blast
  have full: "\<exists>r. rp host = Inr r \<Longrightarrow>
      host_path_is_under_allowed_host_path maps rootfs (projr (rp host)) \<longleftrightarrow> inside maps rootfs (projr (rp host))"
    using r by auto
  show ?thesis
    unfolding validate_pure_None_iff n near al [OF canonical_normal, symmetric]
    using True full by auto
qed

end
