(* ===== verification/Path_Theorems.thy ===== *)
theory Path_Theorems
  imports Path_Meaning
begin

text \<open>
  The properties of the path layer: normalisation, confinement tests, bind lookup, relative
  links and cached validation.
\<close>

section \<open>Lexical normalisation\<close>

lemma nal_loop_length: "nal_loop n p out marks = Inr res \<Longrightarrow> length out < n \<Longrightarrow> length res < n"
proof (induction n p out marks rule: nal_loop.induct)
  case (1 n p out marks)
  let ?p1 = "skip_slashes p"
  let ?seg = "seg_of ?p1"
  let ?out1 = "if 1 < length out then out @ [slash] else out"
  show ?case
  proof (cases "p = []")
    case True
    with "1.prems" nal_loop.simps [of n p out marks] show ?thesis by simp
  next
    case p: False
    show ?thesis
    proof (cases "?seg = [] \<or> ?seg = ''.''")
      case True
      with "1.prems" p have "nal_loop n (after_seg ?p1) out marks = Inr res"
        by (simp only: nal_loop.simps [of n p] Let_def if_False if_True simp_thms)
      with "1.IH"(1) [OF p refl refl refl True] "1.prems"(2) show ?thesis by simp
    next
      case s: False
      show ?thesis
      proof (cases "?seg = ''..''")
        case True
        show ?thesis
        proof (cases marks)
          case Nil
          with "1.prems" p True s have "nal_loop n (after_seg ?p1) out [] = Inr res"
            by (simp only: nal_loop.simps [of n p] Let_def if_False if_True simp_thms list.case)
          with "1.IH"(2) [OF p refl refl refl s True Nil] "1.prems"(2) show ?thesis by simp
        next
          case (Cons m ms)
          with "1.prems" p True s have "nal_loop n (after_seg ?p1) (take m out) ms = Inr res"
            by (simp only: nal_loop.simps [of n p] Let_def if_False if_True simp_thms list.case)
          with "1.IH"(3) [OF p refl refl refl s True Cons] "1.prems"(2) show ?thesis by simp
        qed
      next
        case d: False
        have room: "\<not> PATH_MAX div 2 \<le> length marks" "\<not> (1 < length out \<and> n \<le> length out + 1)"
            "\<not> n \<le> length ?out1 + length ?seg"
          and r: "nal_loop n (after_seg ?p1) (?out1 @ ?seg) (length out # marks) = Inr res"
          using "1.prems"(1) p s d
          by (simp_all only: nal_loop.simps [of n p] Let_def if_False if_True simp_thms split: if_splits) simp_all
        have "length (?out1 @ ?seg) < n" using room(3) by simp
        with "1.IH"(4) [OF p refl refl refl s d room(1,2) refl room(3) r] show ?thesis .
      qed
    qed
  qed
qed

lemma normalize_length: "normalize_absolute_path_lexical path n = Inr out \<Longrightarrow> length out < n"
  by (auto simp: normalize_absolute_path_lexical_def split: if_splits dest: nal_loop_length)



text \<open>C14. The guest-side normaliser (\<open>strtok_r\<close>, a part stack, truncating emission) and the
  host-side one (a buffer with marks) compute the same path on an absolute path of at most 256 components
  that is shorter than the output buffer, of 3 to \<open>PATH_MAX\<close> bytes. Outside they differ: the guest-side one
  resolves a relative path against its base and cuts a path that is too long or has too many components,
  where the host-side one fails or goes on.\<close>

theorem normalizers_agree:
  assumes "path \<noteq> []" "hd path = slash" "length path < n" "n \<le> PATH_MAX" "2 < n"
    and "length (components path) \<le> 256"
  shows "normalize_absolute_path_lexical path n = Inr (normalize_guest_path base path n)"
proof -
  have j: "guest_join base path = path" using assms(2) by (simp add: guest_join_def)
  have out: "normalize_absolute_path_lexical path n = Inr (render (resolve_dots (components path)))"
    by (rule normalize_total [OF assms(1-4)])
  have "normalize_guest_path base path n = render (resolve_dots (components (guest_join base path)))"
    by (rule normalize_guest_path_spec) (use assms j normalize_length [OF out] in simp_all)
  with out j show ?thesis by simp
qed

theorem normalizers_agree_witness:
  "normalize_absolute_path_lexical ''/x/../y'' 32 = Inr (normalize_guest_path ''/home'' ''/x/../y'' 32)"
  by (rule normalizers_agree) (simp_all add: PATH_MAX_def components_def)

text \<open>
  \<open>path_has_parent_segment\<close> holds exactly of the paths with a \<open>..\<close> component, wherever
  it stands and however many slashes surround it.\<close>

theorem parent_segment_exact: "path_has_parent_segment p = (''..'' \<in> set (components p))"
  by (rule path_has_parent_segment_iff)

section \<open>Confinement\<close>

text \<open>
  On normalised paths the byte test \<open>host_path_is_under_prefix\<close> is the prefix order of
  component lists: \<open>/data\<close> covers \<open>/data/x\<close> and never \<open>/database\<close>.\<close>

theorem under_prefix_is_component_prefix:
  assumes "\<forall>c \<in> set cs. plain_seg c" "\<forall>c \<in> set ds. plain_seg c" "cs \<noteq> []"
  shows "host_path_is_under_prefix (render cs) (render ds) = prefix cs ds"
  by (rule under_prefix_render [OF assms])

theorem under_prefix_is_component_prefix_witness:
  "host_path_is_under_prefix (render [''data'']) (render [''database'']) = prefix [''data''] [''database'']"
  by (rule under_prefix_is_component_prefix) (simp_all add: plain_seg_def)

text \<open>
  A bind of the host root directory covers nothing: with the prefix \<open>/\<close> the test
  rejects every normalised path below the root, although \<open>resolve_bind_path\<close> has a case for
  such a bind.\<close>

theorem root_bind_covers_nothing:
  assumes "bm_host m = ''/''" "\<forall>c \<in> set cs. plain_seg c" "cs \<noteq> []"
  shows "host_path_is_under_bind_host [m] (render cs) = False"
  using render_not_under_root [OF assms(2,3)] assms(1) by (simp add: host_path_is_under_bind_host_def)

theorem root_bind_covers_nothing_witness:
  "host_path_is_under_bind_host [\<lparr>bm_host = ''/'', bm_guest = ''/x'', bm_readonly = False\<rparr>] (render [''etc'']) = False"
  by (rule root_bind_covers_nothing) (simp_all add: plain_seg_def)

text \<open>C16. Bind lookup is longest-prefix matching on path components, in both directions. When the guest
  paths of the table are canonical (absolute, no doubled and no trailing slash), a canonical path is left
  to the root file system exactly when no bind covers it; otherwise the covering bind with the most
  components wins, the last of the table among equals, and the result leads to its host directory followed
  by the components of the path behind the bind, or \<open>ENAMETOOLONG\<close> when that does not fit.\<close>

theorem bind_lookup_longest_prefix:
  assumes "plain_table maps" "\<forall>c \<in> set cs. plain_seg c"
  shows "case resolve_bind_path maps (render cs) n of
      Inr None \<Rightarrow> \<forall>m \<in> set maps. \<not> covered_by m cs
    | Inr (Some out) \<Rightarrow> length out < n \<and> (\<exists>m. chosen maps cs m
        \<and> components out = components (bm_host m) @ drop (length (components (bm_guest m))) cs)
    | Inl e \<Rightarrow> e = ENAMETOOLONG \<and> (\<exists>m. chosen maps cs m \<and> n \<le> length (bm_host m) + length (render cs))"
  by (rule resolve_bind_path_meaning [OF assms])

abbreviation demo_binds :: "bind_map list" where
  "demo_binds \<equiv> [\<lparr>bm_host = ''/h'', bm_guest = ''/w'', bm_readonly = False\<rparr>,
                  \<lparr>bm_host = ''/k'', bm_guest = ''/w/v'', bm_readonly = False\<rparr>]"

theorem bind_lookup_longest_prefix_witness:
  "resolve_bind_path demo_binds ''/w/v/x'' 64 = Inr (Some ''/k/x'')
   \<and> (\<exists>m. chosen demo_binds [''w'', ''v'', ''x''] m
        \<and> [''k'', ''x''] = components (bm_host m) @ drop (length (components (bm_guest m))) [''w'', ''v'', ''x''])"
proof -
  have r: "render [''w'', ''v'', ''x''] = ''/w/v/x''" by (simp add: render_def)
  have out: "resolve_bind_path demo_binds ''/w/v/x'' 64 = Inr (Some ''/k/x'')"
    by (simp add: resolve_bind_path_def bind_guest_match_def Let_def)
  have "plain_table demo_binds" "\<forall>c \<in> set [''w'', ''v'', ''x'']. plain_seg c"
    by (simp_all add: plain_table_def components_def render_def plain_seg_def)
  from bind_lookup_longest_prefix [OF this, of 64] out show ?thesis
    unfolding r by (simp add: components_def)
qed

text \<open>C17. Parsing a bind specification keeps the table invariant whatever the text: at most
  \<open>MAX_BIND_MAPS\<close> entries, every host and guest path non-empty, inside its buffer, every guest
  path absolute and without a trailing slash.\<close>

theorem parse_bind_spec_keeps_table:
  assumes "bind_table_wf maps" "\<And>p r. rp p = Some r \<Longrightarrow> r \<noteq> []"
  shows "bind_table_wf (fst (parse_bind_spec rp maps spec))"
  by (rule parse_bind_spec_wf [OF assms])

theorem parse_bind_spec_keeps_table_witness:
  "bind_table_wf (fst (parse_bind_spec (\<lambda>_. None) [] ''/sdcard:/mnt/:ro''))"
  by (rule parse_bind_spec_keeps_table) (simp_all add: bind_table_wf_def)

text \<open>C15. The translation of a guest path without \<open>..\<close> stays inside: once the dots of the host path are
  resolved, it lies below the root file system or below the host directory of a bind, component by
  component; the terminal is the one exception. Paths with \<open>..\<close> are not decided here but by the
  validation.\<close>

theorem guest_translation_confined:
  assumes "resolve_guest_host_path ex tty maps rootfs guest n = Inr (Some (out, b))"
    and "\<not> path_has_parent_segment guest"
  shows "(\<exists>base \<in> insert rootfs (bm_host ` set maps). leads_below base out) \<or> out = ''/proc/self/fd/0'' \<and> tty"
  by (rule resolve_guest_leads [OF assms])

theorem guest_translation_confined_witness:
  "(leads_below ''/r'' ''/k/x'' \<or> leads_below ''/h'' ''/k/x'' \<or> leads_below ''/k'' ''/k/x'')
   \<and> \<not> leads_below ''/r'' ''/k/x''"
proof -
  have "(\<exists>base \<in> insert ''/r'' (bm_host ` set demo_binds). leads_below base ''/k/x'') \<or> ''/k/x'' = ''/proc/self/fd/0'' \<and> False"
    by (rule guest_translation_confined [of "\<lambda>_. False" False _ _ "''/w/v/x''" 64 _ True])
      (simp_all add: resolve_guest_host_path_def resolve_bind_path_def bind_guest_match_def
        should_rewrite_path_def path_has_parent_segment_iff components_def)
  then show ?thesis by (simp add: leads_below_def resolve_dots_def dot_step_def components_def)
qed

text \<open>
  A link target computed by \<open>relative_path_between\<close>, read from the directory it was
  computed for, leads to the target.\<close>

theorem relative_link_leads_to_target:
  assumes "relative_path_between a b n = Some r"
    and "\<forall>c \<in> set (components a) \<union> set (components b). proper_seg c"
    and "3 * length (components a) + length b < 2 * PATH_MAX"
  shows "resolve_dots (components a @ components r) = components b"
  by (rule relative_path_correct [OF assms])

theorem relative_link_leads_to_target_witness:
  "resolve_dots (components ''/r/tmp/u'' @ components ''../../lib/x'') = components ''/r/lib/x''"
proof (rule relative_link_leads_to_target)
  show "relative_path_between ''/r/tmp/u'' ''/r/lib/x'' 4096 = Some ''../../lib/x''"
    by (simp add: relative_path_between_def components_def strncat_tmp_def PATH_MAX_def)
qed (simp_all add: components_def proper_seg_def plain_seg_def PATH_MAX_def)

section \<open>Cached validation\<close>

text \<open>C1. Over any session that changes the file system only between the begin and the finish
  of a path mutation, each validation answers what the uncached walk answers on the file
  system of that moment: neither cache ever serves a stale result.\<close>

theorem cached_validation_never_stale:
  assumes "rp_ok rp"
    and "session_trace tty maps rootfs \<lparr>ps_rp = rp, ps_cache = path_cache_init enabled\<rparr> evs s"
    and "session_step tty maps rootfs s (EvValidate host follow rc) s'"
  shows "rc = validate_pure (ps_rp s) tty (host_path_is_under_allowed_host_path maps rootfs) host follow"
proof -
  have "session_inv tty maps rootfs s"
    using session_trace_inv [OF assms(2) session_inv_init [OF assms(1)]] .
  then have inv: "caches_coherent (ps_rp s) tty maps rootfs (ps_cache s)" "rp_ok (ps_rp s)"
    by (simp_all add: session_inv_def)
  from assms(3) obtain pc where "length host < PATH_MAX"
    "validate_host_path_under_allowed (ps_rp s) tty maps rootfs (ps_cache s) host follow = (rc, pc)"
    by (rule validate_stepE)
  with validate_host_path_correct [OF inv, of host follow] show ?thesis by simp
qed

abbreviation demo_rp :: "string \<Rightarrow> errno + string" where
  "demo_rp \<equiv> (\<lambda>p. if p = ''/r'' then Inr ''/r'' else Inl ENOENT)"

lemma demo_session:
  "session_trace False [] ''/r'' \<lparr>ps_rp = (\<lambda>_. Inl EACCES), ps_cache = path_cache_init True\<rparr>
     [EvBegin, EvChange, EvFinish]
     \<lparr>ps_rp = demo_rp,
       ps_cache = finish_path_cache_mutation (begin_path_cache_mutation (path_cache_init True))\<rparr>"
proof -
  let ?s0 = "\<lparr>ps_rp = (\<lambda>_. Inl EACCES), ps_cache = path_cache_init True\<rparr> :: path_session"
  let ?pc = "begin_path_cache_mutation (path_cache_init True)"
  have fl: "pc_mutation_inflight ?pc > 0" by (simp add: begin_path_cache_mutation_def Let_def)
  have rp: "rp_ok demo_rp" by (simp add: rp_ok_def PATH_MAX_def)
  have "session_trace False [] ''/r'' ?s0 ([] @ [EvBegin]) (?s0\<lparr>ps_cache := ?pc\<rparr>)"
    using session_trace.step [OF session_trace.start session_step.begin_mutation, of False "[]" "''/r''" ?s0] by simp
  from session_trace.step [OF this session_step.fs_change [OF _ rp]] fl
  have "session_trace False [] ''/r'' ?s0 [EvBegin, EvChange] \<lparr>ps_rp = demo_rp, ps_cache = ?pc\<rparr>"
    by simp
  from session_trace.step [OF this session_step.finish_mutation] fl show ?thesis by simp
qed

theorem cached_validation_never_stale_witness:
  "fst (validate_host_path_under_allowed demo_rp False [] ''/r''
         (finish_path_cache_mutation (begin_path_cache_mutation (path_cache_init True))) ''/r/x'' True)
   = validate_pure demo_rp False (host_path_is_under_allowed_host_path [] ''/r'') ''/r/x'' True"
proof -
  let ?s = "\<lparr>ps_rp = demo_rp, ps_cache = finish_path_cache_mutation
    (begin_path_cache_mutation (path_cache_init True))\<rparr> :: path_session"
  let ?v = "validate_host_path_under_allowed demo_rp False [] ''/r'' (ps_cache ?s) ''/r/x'' True"
  have "session_step False [] ''/r'' ?s (EvValidate ''/r/x'' True (fst ?v)) (?s\<lparr>ps_cache := snd ?v\<rparr>)"
    by (rule session_step.validate) (simp_all add: PATH_MAX_def)
  from cached_validation_never_stale [OF _ demo_session this] show ?thesis
    by (simp add: rp_ok_def)
qed



end
