(* ===== verification/Tracee_Memory.thy ===== *)
theory Tracee_Memory
  imports Prelude
begin

text \<open>
  The traced program's memory and the direct executor's accesses to it:
  \<open>process_vm_readv\<close> and \<open>process_vm_writev\<close> (which stop at the first inaccessible byte),
  \<open>PTRACE_PEEKDATA\<close>/\<open>PTRACE_POKEDATA\<close> on aligned words (which ignore protections), and the
  string helpers built on them. A byte is a \<open>char\<close>. The interface is the locale
  \<open>byte_store\<close>: what a write stores is what a read returns, and nothing else changes.
\<close>

section \<open>Registers\<close>

text \<open>\<open>struct user_pt_regs\<close>: the numbered registers, the stack pointer and the program counter.\<close>

record regs =
  rg :: "nat \<Rightarrow> u64"
  rg_sp :: u64
  rg_pc :: u64

abbreviation set_rg :: "nat \<Rightarrow> u64 \<Rightarrow> regs \<Rightarrow> regs" where
  "set_rg i v r \<equiv> r\<lparr>rg := (rg r)(i := v)\<rparr>"

section \<open>Memory\<close>

record vmem =
  vm_byte :: "u64 \<Rightarrow> char"
  vm_mapped :: "u64 \<Rightarrow> bool"
  vm_r :: "u64 \<Rightarrow> bool"
  vm_w :: "u64 \<Rightarrow> bool"

abbreviation NUL :: char where
  "NUL \<equiv> CHR 0x00"

definition in_range :: "u64 \<Rightarrow> nat \<Rightarrow> u64 \<Rightarrow> bool" where
  "in_range a n x \<longleftrightarrow> unat (x - a) < n"

fun vm_read :: "vmem \<Rightarrow> u64 \<Rightarrow> nat \<Rightarrow> string" where
  "vm_read m a 0 = []"
| "vm_read m a (Suc n) = (if vm_r m a then vm_byte m a # vm_read m (a + 1) n else [])"

fun vm_write :: "vmem \<Rightarrow> u64 \<Rightarrow> string \<Rightarrow> vmem \<times> nat" where
  "vm_write m a [] = (m, 0)"
| "vm_write m a (c # cs) =
     (if vm_w m a
      then let (m', n) = vm_write (m\<lparr>vm_byte := (vm_byte m)(a := c)\<rparr>) (a + 1) cs in (m', Suc n)
      else (m, 0))"

definition vm_protect :: "vmem \<Rightarrow> u64 \<Rightarrow> nat \<Rightarrow> bool \<Rightarrow> bool \<Rightarrow> vmem" where
  "vm_protect m a n r w =
     m\<lparr>vm_r := (\<lambda>x. if in_range a n x then r else vm_r m x),
       vm_w := (\<lambda>x. if in_range a n x then w else vm_w m x)\<rparr>"

section \<open>Ranges\<close>

lemma in_range_0 [simp]: "\<not> in_range a 0 x"
  by (simp add: in_range_def)

lemma in_range_Suc: "in_range a (Suc n) x \<longleftrightarrow> x = a \<or> in_range (a + 1) n x \<and> x \<noteq> a"
proof (cases "x = a")
  case True
  then show ?thesis by (simp add: in_range_def)
next
  case False
  then have "x - a \<noteq> 0" by simp
  then have "unat (x - a) = Suc (unat (x - a - 1))"
    using unat_minus_one [of "x - a"] unat_gt_0 [of "x - a"] by simp
  also have "x - a - 1 = x - (a + 1)" by simp
  finally show ?thesis using False by (simp add: in_range_def)
qed

lemma in_range_offset: "in_range a n x \<longleftrightarrow> (\<exists>k. x = a + of_nat k \<and> k < n \<and> k < 2 ^ 64)"
proof
  assume "in_range a n x"
  then show "\<exists>k. x = a + of_nat k \<and> k < n \<and> k < 2 ^ 64"
    using unsigned_less [of "x - a"] by (intro exI [of _ "unat (x - a)"]) (simp add: in_range_def)
next
  assume "\<exists>k. x = a + of_nat k \<and> k < n \<and> k < 2 ^ 64"
  then show "in_range a n x" by (auto simp: in_range_def unat_of_nat)
qed

lemma not_in_range_tail: "n < 2 ^ 64 \<Longrightarrow> \<not> in_range (a + 1) n a"
proof -
  assume n: "n < 2 ^ 64"
  have "a - (a + 1) = - (1 :: u64)" by simp
  then have "unat (a - (a + 1)) = 2 ^ 64 - 1" by (simp add: unsigned_minus_1_eq_mask mask_eq_exp_minus_1)
  with n show ?thesis by (simp add: in_range_def)
qed

section \<open>Reads and writes\<close>

lemma vm_write_perms [simp]:
  "vm_r (fst (vm_write m a s)) = vm_r m" "vm_w (fst (vm_write m a s)) = vm_w m"
  "vm_mapped (fst (vm_write m a s)) = vm_mapped m"
  by (induction m a s rule: vm_write.induct) (simp_all add: case_prod_unfold Let_def)

lemma vm_write_frame:
  "\<not> in_range a (length s) x \<Longrightarrow> vm_byte (fst (vm_write m a s)) x = vm_byte m x"
proof (induction m a s rule: vm_write.induct)
  case (2 m a c cs)
  then show ?case by (auto simp: case_prod_unfold Let_def in_range_Suc)
qed simp

lemma vm_write_count: "snd (vm_write m a s) \<le> length s"
  by (induction m a s rule: vm_write.induct) (simp_all add: case_prod_unfold Let_def)

lemma vm_write_all:
  "\<forall>k < length s. vm_w m (a + of_nat k) \<Longrightarrow> snd (vm_write m a s) = length s"
proof (induction m a s rule: vm_write.induct)
  case (2 m a c cs)
  have "vm_w m a" using 2(2) by (auto dest: spec [of _ 0])
  moreover have "\<forall>k < length cs. vm_w m (a + 1 + of_nat k)"
    using 2(2) by (auto simp: algebra_simps dest: spec [of _ "Suc _"])
  ultimately show ?case using 2(1) by (simp add: case_prod_unfold Let_def)
qed simp

lemma vm_write_none: "s \<noteq> [] \<Longrightarrow> \<not> vm_w m a \<Longrightarrow> vm_write m a s = (m, 0)"
  by (cases s) simp_all

lemma vm_read_length: "length (vm_read m a n) \<le> n"
  by (induction n arbitrary: a) simp_all

lemma vm_read_all:
  "\<forall>k < n. vm_r m (a + of_nat k) \<Longrightarrow> vm_read m a n = map (\<lambda>k. vm_byte m (a + of_nat k)) [0..<n]"
proof (induction n arbitrary: a)
  case (Suc n)
  have "vm_r m a" using Suc.prems by (auto dest: spec [of _ 0])
  moreover have "\<forall>k < n. vm_r m (a + 1 + of_nat k)"
    using Suc.prems by (auto simp: algebra_simps dest: spec [of _ "Suc _"])
  ultimately show ?case
    using Suc.IH [of "a + 1"] by (simp add: map_Suc_upt [symmetric] upt_conv_Cons comp_def algebra_simps
        del: upt_Suc)
qed simp

lemma vm_read_cong:
  "(\<And>x. in_range a n x \<Longrightarrow> vm_byte m' x = vm_byte m x \<and> vm_r m' x = vm_r m x) \<Longrightarrow>
   vm_read m' a n = vm_read m a n"
proof (induction n arbitrary: a)
  case (Suc n)
  have "vm_byte m' a = vm_byte m a \<and> vm_r m' a = vm_r m a"
    by (rule Suc.prems) (simp add: in_range_Suc)
  moreover have "vm_read m' (a + 1) n = vm_read m (a + 1) n" if "vm_r m a"
    by (rule Suc.IH, cases "\<exists>x. in_range (a + 1) n x \<and> x = a") (use Suc.prems in \<open>auto simp: in_range_Suc\<close>)
  ultimately show ?case by simp
qed simp

lemma vm_write_read:
  assumes "\<forall>k < length s. vm_w m (a + of_nat k) \<and> vm_r m (a + of_nat k)" "length s < 2 ^ 64"
  shows "vm_read (fst (vm_write m a s)) a (length s) = s"
  using assms
proof (induction m a s rule: vm_write.induct)
  case (2 m a c cs)
  let ?m = "m\<lparr>vm_byte := (vm_byte m)(a := c)\<rparr>"
  have a: "vm_w m a" "vm_r m a" using 2(2) by (auto dest: spec [of _ 0])
  have "\<forall>k < length cs. vm_w ?m (a + 1 + of_nat k) \<and> vm_r ?m (a + 1 + of_nat k)"
    using 2(2) by (auto simp: algebra_simps dest: spec [of _ "Suc _"])
  with 2(1,3) a have "vm_read (fst (vm_write ?m (a + 1) cs)) (a + 1) (length cs) = cs" by simp
  moreover have "vm_byte (fst (vm_write ?m (a + 1) cs)) a = c"
    using vm_write_frame [of "a + 1" cs a ?m] not_in_range_tail [of "length cs" a] 2(3) by simp
  ultimately show ?case using a by (simp add: case_prod_unfold Let_def)
qed simp

section \<open>The interface\<close>

text \<open>
  What the system call emulations need of the traced memory: a write reports success or
  failure (a failed one may have stored a part); a successful one can be read back and the
  rest is as before.
\<close>

locale byte_store =
  fixes get :: "'m \<Rightarrow> u64 \<Rightarrow> nat \<Rightarrow> string"
    and put :: "'m \<Rightarrow> u64 \<Rightarrow> string \<Rightarrow> bool \<times> 'm"
    and both :: "'m \<Rightarrow> u64 \<Rightarrow> nat \<Rightarrow> bool"
  assumes put_ok: "both m a (length s) \<Longrightarrow> fst (put m a s)"
    and get_put: "both m a (length s) \<Longrightarrow> length s < 2 ^ 64 \<Longrightarrow> get (snd (put m a s)) a (length s) = s"
    and get_put_other: "(\<And>x. in_range b n x \<Longrightarrow> \<not> in_range a (length s) x)
      \<Longrightarrow> get (snd (put m a s)) b n = get m b n"
    and both_put: "both (snd (put m a s)) b n = both m b n"
begin

lemma put_get:
  "both m a (length s) \<Longrightarrow> length s < 2 ^ 64 \<Longrightarrow> fst (put m a s) \<and> get (snd (put m a s)) a (length s) = s"
  using put_ok get_put by blast

lemma put_put_other:
  "both m a (length s) \<Longrightarrow> length s < 2 ^ 64 \<Longrightarrow>
   (\<And>x. in_range a (length s) x \<Longrightarrow> \<not> in_range b (length t) x) \<Longrightarrow>
   get (snd (put (snd (put m a s)) b t)) a (length s) = s"
  by (simp add: get_put_other get_put)

end

definition write_tracee_data :: "vmem \<Rightarrow> u64 \<Rightarrow> string \<Rightarrow> bool \<times> vmem" where
  "write_tracee_data m addr value =
     (let (m', n) = vm_write m addr value in (n = length value, m'))"

definition accessible :: "vmem \<Rightarrow> u64 \<Rightarrow> nat \<Rightarrow> bool" where
  "accessible m a n \<longleftrightarrow> (\<forall>k < n. vm_w m (a + of_nat k) \<and> vm_r m (a + of_nat k))"

lemma write_tracee_data_snd: "snd (write_tracee_data m a s) = fst (vm_write m a s)"
  by (simp add: write_tracee_data_def case_prod_unfold Let_def)

lemma write_tracee_data_fst: "fst (write_tracee_data m a s) \<longleftrightarrow> snd (vm_write m a s) = length s"
  by (simp add: write_tracee_data_def case_prod_unfold Let_def)

interpretation tm: byte_store vm_read write_tracee_data accessible
proof unfold_locales
  fix m a and s :: string
  assume a: "accessible m a (length s)"
  then show "fst (write_tracee_data m a s)"
    unfolding write_tracee_data_fst by (intro vm_write_all) (simp add: accessible_def)
  assume "length s < 2 ^ 64"
  with a show "vm_read (snd (write_tracee_data m a s)) a (length s) = s"
    using vm_write_read [of s m a] by (simp add: write_tracee_data_snd accessible_def)
next
  fix m a and s :: string and b n
  assume "\<And>x. in_range b n x \<Longrightarrow> \<not> in_range a (length s) x"
  then show "vm_read (snd (write_tracee_data m a s)) b n = vm_read m b n"
    unfolding write_tracee_data_snd using vm_write_frame [of a s _ m] by (intro vm_read_cong) auto
qed (simp add: accessible_def write_tracee_data_snd)

end
