(* ===== verification/Tracee_Strings.thy ===== *)
theory Tracee_Strings
  imports Tracee_Memory
begin

text \<open>
  C strings and 32-bit words in the traced memory: \<open>read_tracee_string\<close>,
  \<open>write_tracee_string\<close>, \<open>read_tracee_u32\<close>, \<open>write_tracee_u32\<close> and the argument arena of the
  \<open>execve\<close> rewrite.
\<close>

section \<open>Strings\<close>

fun c_string :: "vmem \<Rightarrow> u64 \<Rightarrow> string \<Rightarrow> bool" where
  "c_string m a [] = (vm_r m a \<and> vm_byte m a = NUL)"
| "c_string m a (c # cs) = (vm_r m a \<and> vm_byte m a = c \<and> c \<noteq> NUL \<and> c_string m (a + 1) cs)"

lemma c_string_nonul: "c_string m a s \<Longrightarrow> NUL \<notin> set s"
  by (induction m a s rule: c_string.induct) auto

lemma c_string_unique: "c_string m a s \<Longrightarrow> c_string m a t \<Longrightarrow> s = t"
proof (induction m a s arbitrary: t rule: c_string.induct)
  case (1 m a)
  then show ?case by (cases t) auto
next
  case (2 m a c cs)
  then show ?case by (cases t) auto
qed

lemma vm_read_c_string:
  "c_string m a s \<Longrightarrow> vm_read m a n =
     (if n \<le> length s then take n s
      else s @ NUL # vm_read m (a + of_nat (length s) + 1) (n - length s - 1))"
proof (induction m a s arbitrary: n rule: c_string.induct)
  case (1 m a)
  then show ?case by (cases n) simp_all
next
  case (2 m a c cs)
  show ?case
  proof (cases n)
    case (Suc k)
    have "a + 1 + of_nat (length cs) + 1 = a + of_nat (length (c # cs)) + 1" by simp
    with 2 Suc show ?thesis by (simp add: algebra_simps)
  qed simp
qed

lemma c_string_drop: "c_string m a s \<Longrightarrow> k \<le> length s \<Longrightarrow> c_string m (a + of_nat k) (drop k s)"
proof (induction m a s arbitrary: k rule: c_string.induct)
  case (2 m a c cs)
  show ?case
  proof (cases k)
    case (Suc j)
    with 2 have "c_string m (a + 1 + of_nat j) (drop j cs)" by simp
    with Suc show ?thesis by (simp add: algebra_simps)
  qed (use 2 in simp)
qed simp

function rts_loop :: "vmem \<Rightarrow> u64 \<Rightarrow> nat \<Rightarrow> nat \<Rightarrow> string \<Rightarrow> string option" where
  "rts_loop m addr cap off buf =
     (if off + 1 < cap then
        let want = min 128 (cap - 1 - off); chunk = vm_read m (addr + of_nat off) want
        in if chunk = [] then None
           else
             case split_first NUL chunk of
               Some (t, _) \<Rightarrow> Some (buf @ t)
             | None \<Rightarrow> rts_loop m addr cap (off + length chunk) (buf @ chunk)
      else Some buf)"
  by pat_completeness auto
termination
  by (relation "measure (\<lambda>(m, addr, cap, off, buf). cap - off)") (auto intro: diff_less_mono2)

declare rts_loop.simps [simp del]

definition read_tracee_string :: "vmem \<Rightarrow> u64 \<Rightarrow> nat \<Rightarrow> string option" where
  "read_tracee_string m addr cap =
     (if addr = 0 \<or> cap = 0 then None else rts_loop m addr cap 0 [])"

lemma split_first_append: "c \<notin> set s \<Longrightarrow> split_first c (s @ c # t) = Some (s, t)"
  by (induction s) auto

lemma split_first_nul: "split_first c s = Some (t, u) \<Longrightarrow> length t < length s \<and> c \<notin> set t"
proof -
  assume "split_first c s = Some (t, u)"
  from split_first_Some [OF this] have "s = t @ c # u" "c \<notin> set t" by simp_all
  then show ?thesis by simp
qed

lemma rts_loop_string:
  "c_string m (addr + of_nat off) s \<Longrightarrow> rts_loop m addr cap off buf = Some (buf @ take (cap - 1 - off) s)"
proof (induction m addr cap off buf arbitrary: s rule: rts_loop.induct)
  case (1 m addr cap off buf)
  show ?case
  proof (cases "off + 1 < cap")
    case False
    then show ?thesis by (subst rts_loop.simps) simp
  next
    case True
    let ?want = "min 128 (cap - 1 - off)"
    let ?chunk = "vm_read m (addr + of_nat off) ?want"
    note rd = vm_read_c_string [OF "1.prems", of ?want]
    note nn = c_string_nonul [OF "1.prems"]
    show ?thesis
    proof (cases "?want \<le> length s")
      case w: True
      have chunk: "?chunk = take ?want s" using rd w by simp
      then have ne: "?chunk \<noteq> []" using True w by auto
      have sf: "split_first NUL ?chunk = None"
        unfolding split_first_None chunk using nn by (auto dest: in_set_takeD)
      have len: "length ?chunk = ?want" using chunk w by simp
      have cs: "c_string m (addr + of_nat (off + length ?chunk)) (drop (length ?chunk) s)"
        using c_string_drop [OF "1.prems", of "length ?chunk"] w len by (simp add: algebra_simps)
      have "rts_loop m addr cap off buf = rts_loop m addr cap (off + length ?chunk) (buf @ ?chunk)"
        using True ne sf by (subst rts_loop.simps) (simp add: Let_def)
      also have "\<dots> = Some ((buf @ ?chunk) @ take (cap - 1 - (off + length ?chunk)) (drop (length ?chunk) s))"
        by (rule "1.IH" [OF True refl refl ne sf cs])
      finally have r: "rts_loop m addr cap off buf =
          Some (buf @ ?chunk @ take (cap - 1 - (off + length ?chunk)) (drop (length ?chunk) s))"
        by simp
      have "cap - 1 - off = ?want + (cap - 1 - (off + ?want))" by simp
      then have "?chunk @ take (cap - 1 - (off + length ?chunk)) (drop (length ?chunk) s) = take (cap - 1 - off) s"
        unfolding len unfolding chunk using take_add [of ?want _ s] by metis
      with r show ?thesis by simp
    next
      case w: False
      then have chunk: "?chunk = s @ NUL # vm_read m (addr + of_nat off + of_nat (length s) + 1) (?want - length s - 1)"
        using rd by simp
      have "rts_loop m addr cap off buf = Some (buf @ s)"
        using True chunk split_first_append [OF nn] by (subst rts_loop.simps) (simp add: Let_def)
      with w show ?thesis by simp
    qed
  qed
qed

lemma read_tracee_string_spec:
  "c_string m addr s \<Longrightarrow> addr \<noteq> 0 \<Longrightarrow> 0 < cap \<Longrightarrow> read_tracee_string m addr cap = Some (take (cap - 1) s)"
  using rts_loop_string [of m addr 0 s cap "[]"] by (simp add: read_tracee_string_def)

lemma rts_loop_length: "rts_loop m addr cap off buf = Some s \<Longrightarrow> length buf = off \<Longrightarrow> off < cap \<Longrightarrow> length s < cap \<and> (NUL \<notin> set buf \<longrightarrow> NUL \<notin> set s)"
proof (induction m addr cap off buf rule: rts_loop.induct)
  case (1 m addr cap off buf)
  show ?case
  proof (cases "off + 1 < cap")
    case False
    then have "s = buf" using "1.prems"(1) by (subst (asm) rts_loop.simps) simp
    with "1.prems" show ?thesis by simp
  next
    case True
    let ?chunk = "vm_read m (addr + of_nat off) (min 128 (cap - 1 - off))"
    have len: "length ?chunk \<le> cap - 1 - off" using vm_read_length [of m _ "min 128 (cap - 1 - off)"]
      by (meson min.bounded_iff order_trans)
    have ne: "?chunk \<noteq> []" using "1.prems"(1) True by (subst (asm) rts_loop.simps) (auto simp: Let_def)
    show ?thesis
    proof (cases "split_first NUL ?chunk")
      case None
      then have "rts_loop m addr cap (off + length ?chunk) (buf @ ?chunk) = Some s"
        using "1.prems"(1) True ne by (subst (asm) rts_loop.simps) (simp add: Let_def)
      with "1.IH" [OF True refl refl ne None] None "1.prems"(2,3) len True show ?thesis
        by (simp add: split_first_None)
    next
      case (Some p)
      obtain t u where p: "p = (t, u)" by fastforce
      have "s = buf @ t" using "1.prems"(1) True ne Some p by (subst (asm) rts_loop.simps) (simp add: Let_def)
      moreover have "length t < length ?chunk" "NUL \<notin> set t"
        using split_first_nul [OF Some [unfolded p]] by simp_all
      ultimately show ?thesis using len "1.prems"(2,3) True by auto
    qed
  qed
qed

lemma read_tracee_string_bounds:
  "read_tracee_string m addr cap = Some s \<Longrightarrow> length s < cap \<and> NUL \<notin> set s"
  using rts_loop_length [of m addr cap 0 "[]" s] by (simp add: read_tracee_string_def split: if_splits)

definition write_tracee_string :: "vmem \<Rightarrow> u64 \<Rightarrow> string \<Rightarrow> bool \<times> vmem" where
  "write_tracee_string m addr value = write_tracee_data m addr (value @ [NUL])"

lemma c_string_read:
  "NUL \<notin> set s \<Longrightarrow> vm_read m a (Suc (length s)) = s @ [NUL] \<Longrightarrow> c_string m a s"
proof (induction s arbitrary: a)
  case (Cons c s)
  then show ?case by (auto split: if_splits)
qed (simp split: if_splits)

lemma read_c_string: "c_string m a s \<Longrightarrow> vm_read m a (Suc (length s)) = s @ [NUL]"
  using vm_read_c_string [of m a s "Suc (length s)"] by simp

lemma write_string_c_string:
  assumes "NUL \<notin> set s" "accessible m a (Suc (length s))" "Suc (length s) < 2 ^ 64"
  shows "fst (write_tracee_string m a s) \<and> c_string (snd (write_tracee_string m a s)) a s"
proof -
  have len: "accessible m a (length (s @ [NUL]))" "length (s @ [NUL]) < 2 ^ 64" using assms(2,3) by simp_all
  from tm.put_get [OF this] show ?thesis
    unfolding write_tracee_string_def using c_string_read [OF assms(1)] by simp
qed

text \<open>A string elsewhere survives a write.\<close>

lemma write_string_other:
  assumes "c_string m b t"
    and "\<And>x. in_range b (Suc (length t)) x \<Longrightarrow> \<not> in_range a (Suc (length s)) x"
  shows "c_string (snd (write_tracee_string m a s)) b t"
proof (rule c_string_read [OF c_string_nonul [OF assms(1)]])
  have "vm_read (snd (write_tracee_data m a (s @ [NUL]))) b (Suc (length t)) = vm_read m b (Suc (length t))"
    by (rule tm.get_put_other) (use assms(2) in simp)
  with read_c_string [OF assms(1)]
  show "vm_read (snd (write_tracee_string m a s)) b (Suc (length t)) = t @ [NUL]"
    by (simp add: write_tracee_string_def)
qed

section \<open>Words\<close>

fun le_nat :: "string \<Rightarrow> nat" where
  "le_nat [] = 0"
| "le_nat (c # cs) = of_char c + 256 * le_nat cs"

fun le_bytes :: "nat \<Rightarrow> nat \<Rightarrow> string" where
  "le_bytes 0 v = []"
| "le_bytes (Suc n) v = char_of v # le_bytes n (v div 256)"

lemma length_le_bytes [simp]: "length (le_bytes n v) = n"
  by (induction n arbitrary: v) simp_all

lemma le_nat_bytes: "le_nat (le_bytes n v) = v mod 256 ^ n"
proof (induction n arbitrary: v)
  case (Suc n)
  have "v mod 256 + 256 * (v div 256 mod 256 ^ n) = v mod (256 * 256 ^ n)"
    by (simp add: mod_mult2_eq)
  with Suc show ?case by simp
qed simp

definition peek_word :: "vmem \<Rightarrow> u64 \<Rightarrow> u64 option" where
  "peek_word m a =
     (if \<forall>k \<in> {..<8}. vm_mapped m (a + of_nat k)
      then Some (of_nat (le_nat (map (\<lambda>k. vm_byte m (a + of_nat k)) [0..<8]))) else None)"

fun poke_bytes :: "vmem \<Rightarrow> u64 \<Rightarrow> string \<Rightarrow> vmem" where
  "poke_bytes m a [] = m"
| "poke_bytes m a (c # cs) = poke_bytes (m\<lparr>vm_byte := (vm_byte m)(a := c)\<rparr>) (a + 1) cs"

definition read_tracee_u32 :: "vmem \<Rightarrow> u64 \<Rightarrow> u32 option" where
  "read_tracee_u32 m addr =
     (let aligned = addr AND NOT 7; shift = unat (addr - aligned) * 8
      in map_option (\<lambda>word. ucast (drop_bit shift word AND 0xffffffff)) (peek_word m aligned))"

definition write_tracee_u32 :: "vmem \<Rightarrow> u64 \<Rightarrow> u64 \<Rightarrow> bool \<times> vmem" where
  "write_tracee_u32 m addr value =
     (if addr = 0 then (False, m)
      else
        let v = (ucast value :: u32);
            (ok, m1) = write_tracee_data m addr (le_bytes 4 (unat v))
        in if ok then (True, m1)
           else
             let aligned = addr AND NOT 7; shift = unat (addr - aligned) * 8
             in case peek_word m1 aligned of
                  None \<Rightarrow> (False, m1)
                | Some word \<Rightarrow>
                    let mask = push_bit shift 0xffffffff;
                        patched = (word AND NOT mask) OR (push_bit shift (ucast v) AND mask)
                    in (True, poke_bytes m1 aligned (le_bytes 8 (unat patched))))"

lemma write_u32_read:
  assumes "accessible m addr 4" "addr \<noteq> 0"
  shows "fst (write_tracee_u32 m addr v)"
    and "le_nat (vm_read (snd (write_tracee_u32 m addr v)) addr 4) = unat (ucast v :: u32)"
proof -
  let ?bs = "le_bytes 4 (unat (ucast v :: u32))"
  have "accessible m addr (length ?bs)" "length ?bs < 2 ^ 64" using assms(1) by simp_all
  note w = tm.put_get [OF this]
  then have eq: "write_tracee_u32 m addr v = (True, snd (write_tracee_data m addr ?bs))"
    using assms(2) by (simp add: write_tracee_u32_def Let_def case_prod_unfold)
  have "unat (ucast v :: u32) < 256 ^ 4" using unsigned_less [of "ucast v :: u32"] by simp
  with w show "fst (write_tracee_u32 m addr v)"
    "le_nat (vm_read (snd (write_tracee_u32 m addr v)) addr 4) = unat (ucast v :: u32)"
    unfolding eq by (simp_all add: le_nat_bytes)
qed

section \<open>The argument arena of the execve rewrite\<close>

definition EXEC_REWRITE_MAX_ARGC :: nat where
  "EXEC_REWRITE_MAX_ARGC = 511"

definition EXEC_REWRITE_STACK_SAFETY :: nat where
  "EXEC_REWRITE_STACK_SAFETY = 16384"

definition EXEC_REWRITE_MAX_SCRATCH :: nat where
  "EXEC_REWRITE_MAX_SCRATCH = 2 * 1024 * 1024"

definition EXEC_REWRITE_MAX_ARG_BYTES :: nat where
  "EXEC_REWRITE_MAX_ARG_BYTES = EXEC_REWRITE_MAX_SCRATCH - EXEC_REWRITE_STACK_SAFETY"

lemmas exec_rewrite_bounds = EXEC_REWRITE_MAX_ARG_BYTES_def EXEC_REWRITE_MAX_SCRATCH_def
  EXEC_REWRITE_STACK_SAFETY_def EXEC_REWRITE_MAX_ARGC_def

record exec_arena =
  ea_data :: string
  ea_cap :: nat

abbreviation ea_len :: "exec_arena \<Rightarrow> nat" where
  "ea_len a \<equiv> length (ea_data a)"

definition arena_empty :: exec_arena where
  "arena_empty = \<lparr>ea_data = [], ea_cap = 0\<rparr>"

text \<open>The doubling loop; \<open>None\<close> is the case that the bound stops it below the need.\<close>

function grow_cap :: "nat \<Rightarrow> nat \<Rightarrow> nat" where
  "grow_cap next need =
     (if next < need \<and> 0 < next then
        if EXEC_REWRITE_MAX_ARG_BYTES div 2 < next then EXEC_REWRITE_MAX_ARG_BYTES
        else grow_cap (2 * next) need
      else next)"
  by pat_completeness auto
termination
  by (relation "measure (\<lambda>(next, need). need - next)") auto

declare grow_cap.simps [simp del]

definition reserve_exec_arg_arena ::
  "(nat \<Rightarrow> bool) \<Rightarrow> exec_arena \<Rightarrow> nat \<Rightarrow> errno + exec_arena" where
  "reserve_exec_arg_arena alloc_ok arena need =
     (if EXEC_REWRITE_MAX_ARG_BYTES < need then Inl ENAMETOOLONG
      else if need \<le> ea_cap arena then Inr arena
      else
        let next = grow_cap (if ea_cap arena \<noteq> 0 then ea_cap arena else 8192) need
        in if next < need then Inl ENAMETOOLONG
           else if \<not> alloc_ok next then Inl ENOMEM
           else Inr (arena\<lparr>ea_cap := next\<rparr>))"

lemma grow_cap_ge: "need \<le> EXEC_REWRITE_MAX_ARG_BYTES \<Longrightarrow> 0 < next \<Longrightarrow> need \<le> grow_cap next need"
proof (induction "next" need rule: grow_cap.induct)
  case (1 "next" need)
  then show ?case by (subst grow_cap.simps) auto
qed

lemma grow_cap_le:
  "need \<le> EXEC_REWRITE_MAX_ARG_BYTES \<Longrightarrow> next \<le> EXEC_REWRITE_MAX_ARG_BYTES \<Longrightarrow>
   grow_cap next need \<le> EXEC_REWRITE_MAX_ARG_BYTES"
proof (induction "next" need rule: grow_cap.induct)
  case (1 "next" need)
  then show ?case by (subst grow_cap.simps) auto
qed

definition arena_ok :: "exec_arena \<Rightarrow> bool" where
  "arena_ok a \<longleftrightarrow> ea_len a \<le> ea_cap a \<and> ea_cap a \<le> EXEC_REWRITE_MAX_ARG_BYTES"

lemma reserve_ok:
  assumes "reserve_exec_arg_arena ok a need = Inr b" "arena_ok a"
  shows "arena_ok b \<and> need \<le> ea_cap b \<and> ea_data b = ea_data a"
proof -
  let ?n = "if ea_cap a \<noteq> 0 then ea_cap a else 8192"
  have n: "0 < ?n" "?n \<le> EXEC_REWRITE_MAX_ARG_BYTES"
    using assms(2) by (simp_all add: arena_ok_def exec_rewrite_bounds)
  have need: "need \<le> EXEC_REWRITE_MAX_ARG_BYTES"
    using assms(1) by (simp add: reserve_exec_arg_arena_def split: if_splits)
  from assms grow_cap_ge [OF need n(1)] grow_cap_le [OF need n(2)] show ?thesis
    by (auto simp: reserve_exec_arg_arena_def arena_ok_def Let_def split: if_splits)
qed

function rsa_loop ::
  "(nat \<Rightarrow> bool) \<Rightarrow> vmem \<Rightarrow> u64 \<Rightarrow> exec_arena \<Rightarrow> nat \<Rightarrow> errno + exec_arena" where
  "rsa_loop alloc_ok m addr arena local_len =
     (if \<not> local_len < EXEC_REWRITE_MAX_ARG_BYTES then Inl ENAMETOOLONG
      else if EXEC_REWRITE_MAX_ARG_BYTES \<le> ea_len arena + 1 then Inl ENAMETOOLONG
      else
        let want = min 512 (EXEC_REWRITE_MAX_ARG_BYTES - ea_len arena - 1)
        in case reserve_exec_arg_arena alloc_ok arena (ea_len arena + want + 1) of
             Inl e \<Rightarrow> Inl e
           | Inr arena1 \<Rightarrow>
               let chunk = vm_read m (addr + of_nat local_len) want
               in if chunk = [] then Inl EFAULT
                  else
                    case split_first NUL chunk of
                      Some (t, _) \<Rightarrow> Inr (arena1\<lparr>ea_data := ea_data arena1 @ t @ [NUL]\<rparr>)
                    | None \<Rightarrow>
                        rsa_loop alloc_ok m addr (arena1\<lparr>ea_data := ea_data arena1 @ chunk\<rparr>)
                          (local_len + length chunk))"
  by pat_completeness auto
termination
  by (relation "measure (\<lambda>(ok, m, addr, arena, l). EXEC_REWRITE_MAX_ARG_BYTES - l)") (auto intro: diff_less_mono2)

declare rsa_loop.simps [simp del]

definition read_tracee_string_to_arena ::
  "(nat \<Rightarrow> bool) \<Rightarrow> vmem \<Rightarrow> u64 \<Rightarrow> exec_arena \<Rightarrow> errno + nat \<times> exec_arena" where
  "read_tracee_string_to_arena alloc_ok m addr arena =
     (if addr = 0 then Inl EFAULT
      else
        case rsa_loop alloc_ok m addr arena 0 of
          Inl e \<Rightarrow> Inl e
        | Inr arena1 \<Rightarrow> Inr (ea_len arena, arena1))"

lemma rsa_loop_ok:
  "rsa_loop ok m addr a l = Inr b \<Longrightarrow> arena_ok a \<Longrightarrow>
   arena_ok b \<and> (\<exists>s. ea_data b = ea_data a @ s @ [NUL] \<and> NUL \<notin> set s)"
proof (induction ok m addr a l rule: rsa_loop.induct)
  case (1 ok m addr a l)
  let ?M = EXEC_REWRITE_MAX_ARG_BYTES
  let ?want = "min 512 (?M - ea_len a - 1)"
  let ?chunk = "vm_read m (addr + of_nat l) ?want"
  have g: "\<not> \<not> l < ?M" "\<not> ?M \<le> ea_len a + 1"
    using "1.prems"(1) by (subst (asm) rsa_loop.simps; simp split: if_splits)+
  obtain a1 where r: "reserve_exec_arg_arena ok a (ea_len a + ?want + 1) = Inr a1"
    using "1.prems"(1) g by (subst (asm) rsa_loop.simps) (auto simp: Let_def split: sum.splits)
  note a1 = reserve_ok [OF r "1.prems"(2)]
  have ne: "?chunk \<noteq> []"
    using "1.prems"(1) g r by (subst (asm) rsa_loop.simps) (auto simp: Let_def)
  have len: "length ?chunk \<le> ?want" by (rule vm_read_length)
  show ?case
  proof (cases "split_first NUL ?chunk")
    case None
    have b: "rsa_loop ok m addr (a1\<lparr>ea_data := ea_data a1 @ ?chunk\<rparr>) (l + length ?chunk) = Inr b"
      using "1.prems"(1) g r ne None by (subst (asm) rsa_loop.simps) (simp add: Let_def)
    have ok1: "arena_ok (a1\<lparr>ea_data := ea_data a1 @ ?chunk\<rparr>)"
    proof -
      have "ea_len a + length ?chunk \<le> ea_cap a1" using a1 len by linarith
      with a1 show ?thesis by (simp add: arena_ok_def)
    qed
    from "1.IH" [OF g refl r refl ne None b ok1] obtain s where
      "arena_ok b" "ea_data b = ea_data a @ ?chunk @ s @ [NUL]" "NUL \<notin> set s"
      using a1 by auto
    with None show ?thesis by (intro conjI exI [of _ "?chunk @ s"]) (auto simp: split_first_None)
  next
    case (Some p)
    obtain t u where p: "p = (t, u)" by fastforce
    have b: "b = a1\<lparr>ea_data := ea_data a1 @ t @ [NUL]\<rparr>"
      using "1.prems"(1) g r ne Some p by (subst (asm) rsa_loop.simps) (simp add: Let_def)
    note t = split_first_nul [OF Some [unfolded p]]
    have "ea_len a + (length t + 1) \<le> ea_cap a1" using a1 len t by linarith
    then have "arena_ok b" using a1 b by (simp add: arena_ok_def)
    moreover have "ea_data b = ea_data a @ t @ [NUL]" using a1 b by simp
    ultimately show ?thesis using t by blast
  qed
qed

end
