(* ===== verification/Tracee_Inject.thy ===== *)
theory Tracee_Inject
  imports Tracee_Strings
begin

text \<open>
  Word accesses at instruction addresses and the injection of a system call into a stopped
  tracee (\<open>inject_tracee_syscall\<close>): the text at the program counter is patched to
  \<open>svc #0; brk #0\<close>, the registers get the number and the arguments, the tracee runs what the memory
  holds at its program counter, and the text is restored. The theorem: an injected \<open>mprotect\<close> changes
  the protections it names, four registers and the program counter, and no byte of memory, text pages
  included, which are not writable through \<open>process_vm_writev\<close> and go through \<open>PTRACE_POKEDATA\<close>.
\<close>

section \<open>Bytes and words\<close>

lemma char_of_le: "char_of (of_char c + 256 * n) = (c :: char)" for n :: nat
proof -
  have "(of_char c + 256 * n) mod 256 = (of_char c :: nat)"
    using nat_of_char_less_256 [of c] by simp
  then show ?thesis by (metis char_of_mod_256 char_of_char)
qed

lemma le_bytes_nat: "le_bytes (length bs) (le_nat bs) = bs"
  by (induction bs) (simp_all add: char_of_le nat_of_char_less_256)

lemma le_nat_less: "le_nat bs < 256 ^ length bs"
proof (induction bs)
  case (Cons b bs)
  have "le_nat (b # bs) < 256 * (le_nat bs + 1)" by (simp add: nat_of_char_less_256)
  also have "256 * (le_nat bs + 1) \<le> 256 ^ length (b # bs)" using Cons by simp
  finally show ?case .
qed simp

lemma le_bytes_add: "le_bytes (j + k) n = le_bytes j n @ le_bytes k (n div 256 ^ j)"
  by (induction j arbitrary: n) (simp_all add: div_mult2_eq)

lemma le_bytes_mod: "le_bytes j (n mod 256 ^ j) = le_bytes j n"
  using le_bytes_nat [of "le_bytes j n"] by (simp add: le_nat_bytes)

lemma le_nat_append: "le_nat (as @ bs) = le_nat as + 256 ^ length as * le_nat bs"
  by (induction as) (simp_all add: algebra_simps)

lemma low_bytes:
  assumes "length bs = 8"
  shows "le_nat bs mod 2 ^ 32 = le_nat (take 4 bs)" "le_nat bs div 2 ^ 32 = le_nat (drop 4 bs)"
proof -
  have "le_nat bs = le_nat (take 4 bs) + 2 ^ 32 * le_nat (drop 4 bs)"
    using le_nat_append [of "take 4 bs" "drop 4 bs"] assms by simp
  moreover have "le_nat (take 4 bs) < 2 ^ 32" using le_nat_less [of "take 4 bs"] assms by simp
  ultimately show "le_nat bs mod 2 ^ 32 = le_nat (take 4 bs)" "le_nat bs div 2 ^ 32 = le_nat (drop 4 bs)"
    by simp_all
qed

lemma unat_halves: "unat (p :: u64) = unat (take_bit 32 p) + 2 ^ 32 * unat (drop_bit 32 p)"
  unfolding unsigned_take_bit_eq unat_drop_bit_eq by (simp add: take_bit_eq_mod drop_bit_eq_div)

lemma unat_up: "unat (ucast (v :: u32) :: u64) = unat v"
proof -
  have "unat v < 2 ^ 32" using unsigned_less [of v] by simp
  then have "unat v < 2 ^ 64" by simp
  then show ?thesis by (simp add: unsigned_ucast_eq take_bit_nat_eq_self)
qed

lemma mask32: "(0xffffffff :: u64) = mask 32"
  by (simp add: mask_eq_exp_minus_1)

lemma patch_low:
  fixes w :: u64 and v :: u32
  shows "unat ((w AND NOT (push_bit 0 0xffffffff)) OR (push_bit 0 (ucast v) AND push_bit 0 0xffffffff))
    = unat v + 2 ^ 32 * (unat w div 2 ^ 32)"
proof -
  let ?p = "(w AND NOT (mask 32)) OR (ucast v AND mask 32)"
  have 1: "take_bit 32 ?p = ucast v"
    by (rule bit_word_eqI) (auto simp: bit_simps dest: bit_imp_le_length)
  have 2: "drop_bit 32 ?p = drop_bit 32 w"
    by (rule bit_word_eqI) (auto simp: bit_simps simp del: drop_bit_and drop_bit_or dest: bit_imp_le_length)
  have 3: "unat (drop_bit 32 w) = unat w div 2 ^ 32" unfolding unat_drop_bit_eq by (simp add: drop_bit_eq_div)
  show ?thesis
    unfolding mask32 push_bit_0_id id_apply unat_halves [of ?p] 1 2 unat_up 3 ..
qed

lemma patch_high:
  fixes w :: u64 and v :: u32
  shows "unat ((w AND NOT (push_bit 32 0xffffffff)) OR (push_bit 32 (ucast v) AND push_bit 32 0xffffffff))
    = unat w mod 2 ^ 32 + 2 ^ 32 * unat v"
proof -
  let ?p = "(w AND NOT (push_bit 32 (mask 32))) OR (push_bit 32 (ucast v) AND push_bit 32 (mask 32))"
  have 1: "take_bit 32 ?p = take_bit 32 w"
    by (rule bit_word_eqI) (auto simp: bit_simps)
  have 2: "drop_bit 32 ?p = ucast v"
    by (rule bit_word_eqI) (auto simp: bit_simps simp del: drop_bit_and drop_bit_or dest: bit_imp_le_length)
  have 3: "unat (take_bit 32 w) = unat w mod 2 ^ 32"
    unfolding unsigned_take_bit_eq by (simp add: take_bit_eq_mod)
  show ?thesis
    unfolding mask32 unat_halves [of ?p] 1 2 3 unat_up ..
qed

section \<open>Writing a word, byte by byte\<close>

definition patch :: "(u64 \<Rightarrow> char) \<Rightarrow> u64 \<Rightarrow> string \<Rightarrow> u64 \<Rightarrow> char" where
  "patch f a s x = (if in_range a (length s) x then s ! unat (x - a) else f x)"

lemma patch_Nil [simp]: "patch f a [] = f"
  by (simp add: patch_def fun_eq_iff)

lemma patch_Cons: "length s < 2 ^ 64 \<Longrightarrow> patch f a (c # s) = patch (f(a := c)) (a + 1) s"
proof
  fix x
  assume len: "length s < 2 ^ 64"
  show "patch f a (c # s) x = patch (f(a := c)) (a + 1) s x"
  proof (cases "x = a")
    case True
    with len not_in_range_tail [of "length s" a] show ?thesis by (simp add: patch_def in_range_Suc)
  next
    case False
    then have "unat (x - a) = Suc (unat (x - a - 1))"
      using unat_minus_one [of "x - a"] unat_gt_0 [of "x - a"] by simp
    also have "x - a - 1 = x - (a + 1)" by simp
    finally have "unat (x - a) = Suc (unat (x - (a + 1)))" .
    with False show ?thesis by (simp add: patch_def in_range_Suc)
  qed
qed

lemma poke_bytes_patch: "length s \<le> 2 ^ 64 \<Longrightarrow> poke_bytes m a s = m\<lparr>vm_byte := patch (vm_byte m) a s\<rparr>"
  by (induction m a s rule: poke_bytes.induct) (simp_all add: patch_Cons)

lemma vm_write_patch:
  "length s \<le> 2 ^ 64 \<Longrightarrow> fst (vm_write m a s) = m\<lparr>vm_byte := patch (vm_byte m) a (take (snd (vm_write m a s)) s)\<rparr>"
proof (induction m a s rule: vm_write.induct)
  case (2 m a c cs)
  show ?case
  proof (cases "vm_w m a")
    case True
    let ?w = "vm_write (m\<lparr>vm_byte := (vm_byte m)(a := c)\<rparr>) (a + 1) cs"
    have "length (take (snd ?w) cs) < 2 ^ 64" using 2(2) by simp
    with 2 True show ?thesis by (simp add: case_prod_unfold Let_def patch_Cons fun_upd_def)
  qed simp
qed simp

text \<open>Patching over a patch of a prefix, and a patch split in two.\<close>

lemma patch_over: "length t \<le> length s \<Longrightarrow> patch (patch f a t) a s = patch f a s"
  by (auto simp: patch_def in_range_def fun_eq_iff)

lemma patch_self: "(\<And>k. k < length s \<Longrightarrow> f (a + of_nat k) = s ! k) \<Longrightarrow> patch f a s = f"
proof
  fix x
  assume f: "\<And>k. k < length s \<Longrightarrow> f (a + of_nat k) = s ! k"
  show "patch f a s x = f x"
    using f [of "unat (x - a)"] by (simp add: patch_def in_range_def)
qed

lemma in_range_add: "in_range a (j + k) x \<longleftrightarrow> in_range a j x \<or> (\<not> in_range a j x \<and> in_range a (j + k) x)"
  by (auto simp: in_range_def)

lemma unat_shift:
  fixes a x :: u64
  assumes "j < 2 ^ 64" "j \<le> unat (x - a)"
  shows "unat (x - (a + of_nat j)) = unat (x - a) - j"
proof -
  have eq: "x - (a + of_nat j) = (x - a) - of_nat j" by simp
  have "of_nat j \<le> x - a" using assms by (simp add: word_le_nat_alt unat_of_nat)
  then show ?thesis unfolding eq using assms(1) by (simp only: unat_sub) (simp add: unat_of_nat)
qed

lemma in_range_split:
  assumes "j + k < 2 ^ 64" "\<not> in_range a j x"
  shows "in_range a (j + k) x \<longleftrightarrow> in_range (a + of_nat j) k x"
proof -
  have ge: "j \<le> unat (x - a)" using assms(2) by (simp add: in_range_def)
  have "unat (x - (a + of_nat j)) = unat (x - a) - j" by (rule unat_shift) (use assms(1) ge in simp_all)
  with ge show ?thesis by (auto simp: in_range_def)
qed

lemma patch_append:
  assumes "length s + length t < 2 ^ 64"
  shows "patch f a (s @ t) = patch (patch f (a + of_nat (length s)) t) a s"
proof
  fix x
  show "patch f a (s @ t) x = patch (patch f (a + of_nat (length s)) t) a s x"
  proof (cases "in_range a (length s) x")
    case True
    then show ?thesis by (auto simp: patch_def in_range_def nth_append)
  next
    case False
    then have ge: "length s \<le> unat (x - a)" by (simp add: in_range_def)
    have "unat (x - (a + of_nat (length s))) = unat (x - a) - length s"
      by (rule unat_shift) (use assms ge in simp_all)
    with False ge in_range_split [OF assms False] show ?thesis
      by (simp add: patch_def nth_append)
  qed
qed

section \<open>Instruction addresses\<close>

definition insn_addr :: "u64 \<Rightarrow> bool" where
  "insn_addr a \<longleftrightarrow> 4 dvd unat a"

lemma aligned_part: "a - (a AND NOT 7) = take_bit 3 (a :: u64)"
proof -
  have "(a AND NOT 7) = push_bit 3 (drop_bit 3 a)"
  proof (rule bit_word_eqI)
    fix n
    assume "n < LENGTH(64)"
    have "(7 :: u64) = mask 3" by (simp add: mask_eq_exp_minus_1)
    then have "bit (7 :: u64) n \<longleftrightarrow> n < 3" using \<open>n < LENGTH(64)\<close> bit_mask_iff [of 3 n, where 'a = "64 word"]
      by (simp only:) simp
    then show "bit (a AND NOT 7) n \<longleftrightarrow> bit (push_bit 3 (drop_bit 3 a)) n"
      using \<open>n < LENGTH(64)\<close> by (auto simp: bit_simps not_less)
  qed
  moreover have "push_bit 3 (drop_bit 3 a) + take_bit 3 a = a" by (rule bits_ident)
  ultimately show ?thesis by (simp add: algebra_simps)
qed

lemma insn_addr_cases:
  assumes "insn_addr a"
  obtains "unat (a - (a AND NOT 7)) = 0" "a AND NOT 7 = a"
    | "unat (a - (a AND NOT 7)) = 4" "a AND NOT 7 = a - 4"
proof -
  have m: "unat (a - (a AND NOT 7)) = unat a mod 8"
    unfolding aligned_part unsigned_take_bit_eq by (simp add: take_bit_eq_mod)
  have "unat a mod 8 = 0 \<or> unat a mod 8 = 4" using assms unfolding insn_addr_def by presburger
  then show thesis
  proof
    assume "unat a mod 8 = 0"
    with m have "unat (a - (a AND NOT 7)) = 0" by simp
    then show thesis using that(1) by (simp add: unat_eq_0)
  next
    assume "unat a mod 8 = 4"
    with m have u: "unat (a - (a AND NOT 7)) = 4" by simp
    then have "a - (a AND NOT 7) = 4"
      using unsigned_word_eqI [of "a - (a AND NOT 7)" 4] by simp
    with u show thesis using that(2) by (simp add: algebra_simps)
  qed
qed

abbreviation le4 :: "u32 \<Rightarrow> string" where
  "le4 v \<equiv> le_bytes 4 (unat v)"

definition word_mapped :: "vmem \<Rightarrow> u64 \<Rightarrow> bool" where
  "word_mapped m a \<longleftrightarrow> (\<forall>k \<in> {..<8}. vm_mapped m ((a AND NOT 7) + of_nat k))"

definition word_bytes :: "vmem \<Rightarrow> u64 \<Rightarrow> string" where
  "word_bytes m a = map (\<lambda>k. vm_byte m (a + of_nat k)) [0..<8]"

lemma peek_word_Some:
  "word_mapped m a \<Longrightarrow> peek_word m (a AND NOT 7) = Some (of_nat (le_nat (word_bytes m (a AND NOT 7))))"
  by (simp add: peek_word_def word_mapped_def word_bytes_def)

lemma unat_word_bytes: "unat (of_nat (le_nat (word_bytes m a)) :: u64) = le_nat (word_bytes m a)"
proof -
  have "le_nat (word_bytes m a) < 2 ^ 64" using le_nat_less [of "word_bytes m a"] by (simp add: word_bytes_def)
  then show ?thesis by (simp add: unat_of_nat)
qed

lemma le_bytes_8: "n div 2 ^ 32 = h \<Longrightarrow> le_bytes 8 n = le_bytes 4 n @ le_bytes 4 h"
  using le_bytes_add [of 4 4 n] by simp

lemma le4_low: "l < 2 ^ 32 \<Longrightarrow> le_bytes 8 (l + 2 ^ 32 * h) = le_bytes 4 l @ le_bytes 4 h"
proof -
  assume l: "l < 2 ^ 32"
  have "le_bytes 4 (l + 2 ^ 32 * h) = le_bytes 4 l"
    using le_bytes_mod [of 4 "l + 2 ^ 32 * h"] l by simp
  with le_bytes_8 [of "l + 2 ^ 32 * h" h] l show ?thesis by simp
qed

lemma before_range: "k < 4 \<Longrightarrow> \<not> in_range a 4 (a - 4 + of_nat k)"
proof -
  assume "k < 4"
  then consider "k = 0" | "k = 1" | "k = 2" | "k = 3" by linarith
  then show ?thesis by cases (simp_all add: in_range_def unsigned_minus_1_eq_mask mask_eq_exp_minus_1)
qed

lemma word_bytes_halves:
  "take 4 (word_bytes m a) = map (\<lambda>k. vm_byte m (a + of_nat k)) [0..<4]"
  "drop 4 (word_bytes m a) = map (\<lambda>k. vm_byte m (a + 4 + of_nat k)) [0..<4]"
  by (simp_all add: word_bytes_def upt_rec algebra_simps)

lemma write_u32_patch:
  assumes "insn_addr a" "a \<noteq> 0" "word_mapped m a"
  shows "write_tracee_u32 m a v = (True, m\<lparr>vm_byte := patch (vm_byte m) a (le4 (ucast v))\<rparr>)"
proof -
  let ?v = "ucast v :: u32"
  let ?n = "snd (vm_write m a (le4 ?v))"
  let ?f1 = "patch (vm_byte m) a (take ?n (le4 ?v))"
  let ?m1 = "m\<lparr>vm_byte := ?f1\<rparr>"
  let ?al = "a AND NOT 7"
  let ?ws = "word_bytes ?m1 ?al"
  have m1: "snd (write_tracee_data m a (le4 ?v)) = ?m1"
    unfolding write_tracee_data_snd by (rule vm_write_patch) simp
  have v: "unat ?v < 2 ^ 32" using unsigned_less [of ?v] by simp
  have len: "length ?ws = 8" by (simp add: word_bytes_def)
  show ?thesis
  proof (cases "fst (write_tracee_data m a (le4 ?v))")
    case True
    then have "take ?n (le4 ?v) = le4 ?v" by (simp add: write_tracee_data_fst)
    with True m1 assms(2) show ?thesis
      by (simp add: write_tracee_u32_def Let_def case_prod_unfold)
  next
    case False
    have pk: "peek_word ?m1 ?al = Some (of_nat (le_nat ?ws))"
      using assms(3) by (intro peek_word_Some) (simp add: word_mapped_def)
    let ?w = "of_nat (le_nat ?ws) :: u64"
    let ?s = "unat (a - ?al) * 8"
    have eq: "write_tracee_u32 m a v = (True, poke_bytes ?m1 ?al (le_bytes 8 (unat
        ((?w AND NOT (push_bit ?s 0xffffffff)) OR (push_bit ?s (ucast ?v) AND push_bit ?s 0xffffffff)))))"
      using False m1 assms(2) pk by (simp add: write_tracee_u32_def Let_def case_prod_unfold)
    from assms(1) show ?thesis
    proof (cases rule: insn_addr_cases)
      case 1
      have h: "unat ?w div 2 ^ 32 = le_nat (drop 4 ?ws)"
        unfolding unat_word_bytes by (rule low_bytes(2) [OF len])
      have l: "le_bytes 4 (le_nat (drop 4 ?ws)) = drop 4 ?ws"
        using le_bytes_nat [of "drop 4 ?ws"] len by simp
      have bs: "le_bytes 8 (unat ?v + 2 ^ 32 * (unat ?w div 2 ^ 32)) = le4 ?v @ drop 4 ?ws"
        by (simp only: le4_low [OF v] h l)
      have self: "patch ?f1 (a + of_nat (length (le4 ?v))) (drop 4 ?ws) = ?f1"
        by (rule patch_self) (unfold word_bytes_halves 1(2), simp)
      have "patch ?f1 a (le4 ?v @ drop 4 ?ws) = patch (vm_byte m) a (le4 ?v)"
        using patch_append [of "le4 ?v" "drop 4 ?ws" ?f1 a] self len patch_over [of "take ?n (le4 ?v)" "le4 ?v" "vm_byte m" a]
        by simp
      moreover have "length (le4 ?v @ drop 4 ?ws) \<le> 2 ^ 64" using len by simp
      moreover have s0: "?s = 0" using 1(1) by simp
      ultimately show ?thesis
        unfolding eq unfolding s0 unfolding patch_low unfolding bs unfolding 1(2)
        by (simp add: poke_bytes_patch)
    next
      case 2
      have h: "unat ?w mod 2 ^ 32 = le_nat (take 4 ?ws)"
        unfolding unat_word_bytes by (rule low_bytes(1) [OF len])
      have l: "le_bytes 4 (le_nat (take 4 ?ws)) = take 4 ?ws"
        using le_bytes_nat [of "take 4 ?ws"] len by simp
      have "le_nat (take 4 ?ws) < 2 ^ 32" using le_nat_less [of "take 4 ?ws"] len by simp
      then have bs: "le_bytes 8 (unat ?w mod 2 ^ 32 + 2 ^ 32 * unat ?v) = take 4 ?ws @ le4 ?v"
        by (simp only: h le4_low l)
      have a4: "a - 4 + of_nat (length (take 4 ?ws)) = a" using len by simp
      have over: "patch ?f1 a (le4 ?v) = patch (vm_byte m) a (le4 ?v)" by (rule patch_over) simp
      have self: "patch (patch ?f1 a (le4 ?v)) (a - 4) (take 4 ?ws) = patch ?f1 a (le4 ?v)"
      proof (rule patch_self)
        fix k
        assume "k < length (take 4 ?ws)"
        then have k: "k < 4" by simp
        have "patch ?f1 a (le4 ?v) (a - 4 + of_nat k) = ?f1 (a - 4 + of_nat k)"
          using before_range [OF k, of a] by (simp add: patch_def [of ?f1])
        with k show "patch ?f1 a (le4 ?v) (a - 4 + of_nat k) = take 4 ?ws ! k"
          unfolding word_bytes_halves 2(2) by simp
      qed
      have "patch ?f1 (a - 4) (take 4 ?ws @ le4 ?v) = patch (vm_byte m) a (le4 ?v)"
        using patch_append [of "take 4 ?ws" "le4 ?v" ?f1 "a - 4"] a4 self over len by simp
      moreover have "length (take 4 ?ws @ le4 ?v) \<le> 2 ^ 64" using len by simp
      moreover have s32: "?s = 32" using 2(1) by simp
      ultimately show ?thesis
        unfolding eq unfolding s32 unfolding patch_high unfolding bs unfolding 2(2)
        by (simp add: poke_bytes_patch)
    qed
  qed
qed

lemma read_u32_bytes:
  assumes "insn_addr a" "word_mapped m a"
  shows "\<exists>v. read_tracee_u32 m a = Some v \<and> le4 v = map (\<lambda>k. vm_byte m (a + of_nat k)) [0..<4]"
proof -
  let ?al = "a AND NOT 7"
  let ?ws = "word_bytes m ?al"
  let ?w = "of_nat (le_nat ?ws) :: u64"
  let ?s = "unat (a - ?al) * 8"
  have len: "length ?ws = 8" by (simp add: word_bytes_def)
  have rd: "read_tracee_u32 m a = Some (ucast (drop_bit ?s ?w AND 0xffffffff))"
    using peek_word_Some [OF assms(2)] by (simp add: read_tracee_u32_def Let_def)
  have u: "unat (ucast (drop_bit s ?w AND 0xffffffff) :: u32) = le_nat ?ws div 2 ^ s mod 2 ^ 32" for s
  proof -
    have "(ucast (drop_bit s ?w AND 0xffffffff) :: u32) = ucast (drop_bit s ?w)"
      unfolding mask32 by (rule bit_word_eqI) (auto simp: bit_simps)
    moreover have "unat (ucast (drop_bit s ?w) :: u32) = unat (drop_bit s ?w) mod 2 ^ 32"
      by (simp add: unsigned_ucast_eq take_bit_eq_mod)
    moreover have "unat (drop_bit s ?w) = le_nat ?ws div 2 ^ s"
      unfolding unat_drop_bit_eq unat_word_bytes by (simp add: drop_bit_eq_div)
    ultimately show ?thesis by simp
  qed
  have small: "le_nat (drop 4 ?ws) < 2 ^ 32" using le_nat_less [of "drop 4 ?ws"] len by simp
  from assms(1) show ?thesis
  proof (cases rule: insn_addr_cases)
    case 1
    have s0: "?s = 0" using 1(1) by simp
    have "le_bytes 4 (le_nat (take 4 ?ws)) = take 4 ?ws" using le_bytes_nat [of "take 4 ?ws"] len by simp
    also have "take 4 ?ws = map (\<lambda>k. vm_byte m (a + of_nat k)) [0..<4]"
      unfolding word_bytes_halves unfolding 1(2) ..
    finally show ?thesis
      unfolding rd unfolding s0 using u [of 0] low_bytes(1) [OF len] by simp
  next
    case 2
    have s32: "?s = 32" using 2(1) by simp
    have "le_bytes 4 (le_nat (drop 4 ?ws)) = drop 4 ?ws" using le_bytes_nat [of "drop 4 ?ws"] len by simp
    also have "drop 4 ?ws = map (\<lambda>k. vm_byte m (a + of_nat k)) [0..<4]"
      unfolding word_bytes_halves unfolding 2(2) by simp
    finally show ?thesis
      unfolding rd unfolding s32 using u [of 32] low_bytes(2) [OF len] small by simp
  qed
qed

section \<open>Injection\<close>

definition INSN_SVC0 :: u64 where "INSN_SVC0 = 0xd4000001"
definition INSN_BRK0 :: u64 where "INSN_BRK0 = 0xd4200000"

text \<open>The instruction at an address: the four bytes there, least significant first.\<close>

definition fetch :: "vmem \<Rightarrow> u64 \<Rightarrow> u64" where
  "fetch m a = of_nat (le_nat (map (\<lambda>k. vm_byte m (a + of_nat k)) [0..<4]))"

text \<open>
  What the code relies on outside it. \<open>ie_call nr a b c\<close> is the kernel's system call: the new value of
  \<open>x0\<close> and the memory. \<open>ie_rest\<close> is what the tracee does from an instruction other than \<open>svc #0\<close> and
  \<open>brk #0\<close> on, up to its next stop, and whether that stop is a trap. The flags are the answers of
  \<open>PTRACE_SETREGSET\<close>, of \<open>PTRACE_CONT\<close> and of \<open>PTRACE_GETREGSET\<close>.
\<close>

record inject_env =
  ie_call :: "u64 \<Rightarrow> u64 \<Rightarrow> u64 \<Rightarrow> u64 \<Rightarrow> vmem \<Rightarrow> u64 \<times> vmem"
  ie_rest :: "vmem \<times> regs \<Rightarrow> bool \<times> vmem \<times> regs"
  ie_setregs_ok :: bool
  ie_cont_ok :: bool
  ie_getregs_ok :: bool

text \<open>The tracee from its program counter to its next stop: \<open>svc #0\<close> calls the kernel and goes on with
  the next instruction, \<open>brk #0\<close> traps where it stands. The first argument counts the instructions
  followed here, two for the pair the injection writes.\<close>

primrec run_to_stop :: "inject_env \<Rightarrow> nat \<Rightarrow> vmem \<Rightarrow> regs \<Rightarrow> bool \<times> vmem \<times> regs" where
  "run_to_stop ie 0 m r = ie_rest ie (m, r)"
| "run_to_stop ie (Suc k) m r =
     (if fetch m (rg_pc r) = INSN_BRK0 then (True, m, r)
      else if fetch m (rg_pc r) = INSN_SVC0 then
        (let (x, m1) = ie_call ie (rg r 8) (rg r 0) (rg r 1) (rg r 2) m
         in run_to_stop ie k m1 ((set_rg 0 x r)\<lparr>rg_pc := rg_pc r + 4\<rparr>))
      else ie_rest ie (m, r))"

text \<open>\<open>fr\<close> are the registers of the stop the injection starts from, \<open>tr\<close> the registers the tracee has.\<close>

definition inject_tracee_syscall ::
  "inject_env \<Rightarrow> regs \<Rightarrow> int \<Rightarrow> u64 \<Rightarrow> u64 \<Rightarrow> u64 \<Rightarrow> vmem \<Rightarrow> regs \<Rightarrow> u64 option \<times> vmem \<times> regs" where
  "inject_tracee_syscall ie fr nr arg0 arg1 arg2 m tr =
     (let pc = rg_pc fr
      in case read_tracee_u32 m pc of
        None \<Rightarrow> (None, m, tr)
      | Some saved0 \<Rightarrow>
          (case read_tracee_u32 m (pc + 4) of
             None \<Rightarrow> (None, m, tr)
           | Some saved1 \<Rightarrow>
               let (ok0, m1) = write_tracee_u32 m pc INSN_SVC0
               in if \<not> ok0 then (None, m1, tr)
                  else
                    let (ok1, m2) = write_tracee_u32 m1 (pc + 4) INSN_BRK0
                    in if \<not> ok1 then (None, snd (write_tracee_u32 m2 pc (ucast saved0)), tr)
                       else
                         let regs = set_rg 8 (of_int nr) (set_rg 2 arg2 (set_rg 1 arg1 (set_rg 0 arg0 fr)));
                             restore = (\<lambda>m. let (r0, m4) = write_tracee_u32 m pc (ucast saved0);
                                                (r1, m5) = write_tracee_u32 m4 (pc + 4) (ucast saved1)
                                            in (r0 \<and> r1, m5))
                         in if \<not> ie_setregs_ok ie then (None, snd (restore m2), tr)
                            else if \<not> ie_cont_ok ie then (None, snd (restore m2), regs)
                            else
                              let (trap, m3, stopped) = run_to_stop ie 2 m2 regs;
                                  (restored, m5) = restore m3
                              in (if trap \<and> ie_getregs_ok ie \<and> restored then Some (rg stopped 0) else None, m5, stopped)))"

definition text_ok :: "vmem \<Rightarrow> u64 \<Rightarrow> bool" where
  "text_ok m pc \<longleftrightarrow> insn_addr pc \<and> insn_addr (pc + 4) \<and> pc \<noteq> 0 \<and> pc + 4 \<noteq> 0 \<and>
     word_mapped m pc \<and> word_mapped m (pc + 4)"

lemma patch_restore:
  assumes "map (\<lambda>k. f (a + of_nat k)) [0..<n] = s" "\<And>x. \<not> in_range a n x \<Longrightarrow> g x = f x"
  shows "patch g a s = f"
proof
  fix x
  have len: "length s = n" using assms(1) by auto
  show "patch g a s x = f x"
  proof (cases "in_range a n x")
    case True
    then have k: "unat (x - a) < n" by (simp add: in_range_def)
    have "s ! unat (x - a) = f (a + of_nat (unat (x - a)))" using assms(1) k by auto
    with True len show ?thesis by (simp add: patch_def)
  next
    case False
    with assms(2) len show ?thesis by (simp add: patch_def)
  qed
qed

lemma patch_outside: "\<not> in_range a (length s) x \<Longrightarrow> patch f a s x = f x"
  by (simp add: patch_def)

text \<open>The pair the injection writes, as the tracee fetches it.\<close>

lemma fetch_patch:
  assumes "map (\<lambda>k. vm_byte m (a + of_nat k)) [0..<4] = le4 v"
  shows "fetch m a = ucast v"
proof -
  have "unat v < 256 ^ 4" using unsigned_less [of v] by simp
  then have "le_nat (le4 v) = unat v" by (simp add: le_nat_bytes)
  then have "fetch m a = of_nat (unat v)" unfolding fetch_def assms by (rule arg_cong)
  also have "\<dots> = ucast v" by (rule bit_word_eqI) (simp add: bit_simps)
  finally show ?thesis .
qed

lemma patched_bytes: "length s = 4 \<Longrightarrow> map (\<lambda>k. patch f a s (a + of_nat k)) [0..<4] = s"
proof (rule nth_equalityI)
  fix k assume "length s = 4" "k < length (map (\<lambda>k. patch f a s (a + of_nat k)) [0..<4])"
  moreover from this have "unat (of_nat k :: u64) = k" by (simp add: unat_of_nat)
  ultimately show "map (\<lambda>k. patch f a s (a + of_nat k)) [0..<4] ! k = s ! k" by (simp add: patch_def in_range_def)
qed simp

text \<open>A call of the kernel that changes protections only leaves every byte as it was.\<close>

lemma inject_protections:
  assumes tok: "text_ok m (rg_pc fr)"
    and call: "\<And>b. ie_call ie (of_int nr) va vb vc (m\<lparr>vm_byte := b\<rparr>) = (x, m\<lparr>vm_byte := b, vm_r := r, vm_w := w\<rparr>)"
  defines "args \<equiv> set_rg 8 (of_int nr) (set_rg 2 vc (set_rg 1 vb (set_rg 0 va fr)))"
  shows "inject_tracee_syscall ie fr nr va vb vc m tr =
    (if \<not> ie_setregs_ok ie then (None, m, tr)
     else if \<not> ie_cont_ok ie then (None, m, args)
     else (if ie_getregs_ok ie then Some x else None, m\<lparr>vm_r := r, vm_w := w\<rparr>,
           (set_rg 0 x args)\<lparr>rg_pc := rg_pc fr + 4\<rparr>))"
proof -
  define pc where "pc = rg_pc fr"
  have t: "insn_addr pc" "insn_addr (pc + 4)" "pc \<noteq> 0" "pc + 4 \<noteq> 0" "word_mapped m pc" "word_mapped m (pc + 4)"
    using tok by (simp_all add: text_ok_def pc_def)
  obtain v0 where v0: "read_tracee_u32 m pc = Some v0" "le4 v0 = map (\<lambda>k. vm_byte m (pc + of_nat k)) [0..<4]"
    using read_u32_bytes [OF t(1,5)] by blast
  obtain v1 where v1: "read_tracee_u32 m (pc + 4) = Some v1"
      "le4 v1 = map (\<lambda>k. vm_byte m (pc + 4 + of_nat k)) [0..<4]"
    using read_u32_bytes [OF t(2,6)] by blast
  have cc: "(ucast (ucast v :: u64) :: u32) = v" for v :: u32
    by (rule bit_word_eqI) (auto simp: bit_simps dest: bit_imp_le_length)
  let ?b1 = "patch (vm_byte m) pc (le4 (ucast INSN_SVC0))"
  let ?b2 = "patch ?b1 (pc + 4) (le4 (ucast INSN_BRK0))"
  let ?b3 = "patch ?b2 pc (le4 v0)"
  have wr: "write_tracee_u32 (m\<lparr>vm_byte := b, vm_r := r', vm_w := w'\<rparr>) a v =
      (True, m\<lparr>vm_byte := patch b a (le4 (ucast v)), vm_r := r', vm_w := w'\<rparr>)"
    if "a = pc \<or> a = pc + 4" for b r' w' a v
    using write_u32_patch [of a "m\<lparr>vm_byte := b, vm_r := r', vm_w := w'\<rparr>" v] that t
    by (auto simp: word_mapped_def)
  have wr0: "write_tracee_u32 (m\<lparr>vm_byte := b\<rparr>) a v = (True, m\<lparr>vm_byte := patch b a (le4 (ucast v))\<rparr>)"
    if "a = pc \<or> a = pc + 4" for b a v
    using write_u32_patch [of a "m\<lparr>vm_byte := b\<rparr>" v] that t by (auto simp: word_mapped_def)
  have "?b3 = patch (vm_byte m) (pc + 4) (le4 (ucast INSN_BRK0))"
  proof (rule patch_restore)
    show "map (\<lambda>k. patch (vm_byte m) (pc + 4) (le4 (ucast INSN_BRK0)) (pc + of_nat k)) [0..<4] = le4 v0"
      unfolding v0(2) using before_range [of _ "pc + 4"] by (auto intro!: patch_outside)
    show "?b2 x = patch (vm_byte m) (pc + 4) (le4 (ucast INSN_BRK0)) x" if "\<not> in_range pc 4 x" for x
      using that by (simp add: patch_def)
  qed
  then have b4: "patch ?b3 (pc + 4) (le4 v1) = vm_byte m"
    using patch_restore [of "vm_byte m" "pc + 4" 4 "le4 v1" ?b3] v1(2) patch_outside by simp
  have first: "map (\<lambda>k. ?b2 (pc + of_nat k)) [0..<4] = le4 (ucast INSN_SVC0)"
  proof -
    have "?b2 (pc + of_nat k) = ?b1 (pc + of_nat k)" if "k < 4" for k
      using before_range [OF that, of "pc + 4"] by (auto intro!: patch_outside)
    then have "map (\<lambda>k. ?b2 (pc + of_nat k)) [0..<4] = map (\<lambda>k. ?b1 (pc + of_nat k)) [0..<4]" by simp
    also have "\<dots> = le4 (ucast INSN_SVC0)" by (rule patched_bytes) simp
    finally show ?thesis .
  qed
  have second: "map (\<lambda>k. ?b2 (pc + 4 + of_nat k)) [0..<4] = le4 (ucast INSN_BRK0)" by (rule patched_bytes) simp
  have insns: "(ucast (ucast INSN_SVC0 :: u32) :: u64) = INSN_SVC0" "(ucast (ucast INSN_BRK0 :: u32) :: u64) = INSN_BRK0"
      "INSN_SVC0 \<noteq> INSN_BRK0"
    by (simp_all add: INSN_SVC0_def INSN_BRK0_def)
  have f1: "fetch (m\<lparr>vm_byte := ?b2\<rparr>) pc = INSN_SVC0"
    using fetch_patch [of "m\<lparr>vm_byte := ?b2\<rparr>" pc "ucast INSN_SVC0"] first insns by simp
  have f2: "fetch (m\<lparr>vm_byte := ?b2, vm_r := r, vm_w := w\<rparr>) (pc + 4) = INSN_BRK0"
    using fetch_patch [of "m\<lparr>vm_byte := ?b2, vm_r := r, vm_w := w\<rparr>" "pc + 4" "ucast INSN_BRK0"] second insns by simp
  have args: "rg args 0 = va" "rg args 1 = vb" "rg args 2 = vc" "rg args 8 = of_int nr" "rg_pc args = pc"
    by (simp_all add: args_def pc_def)
  have run: "run_to_stop ie 2 (m\<lparr>vm_byte := ?b2\<rparr>) args =
      (True, m\<lparr>vm_byte := ?b2, vm_r := r, vm_w := w\<rparr>, (set_rg 0 x args)\<lparr>rg_pc := pc + 4\<rparr>)"
    using f1 f2 insns(3) call [of ?b2] args by (simp add: numeral_2_eq_2)
  have undo: "write_tracee_u32 (m\<lparr>vm_byte := ?b2, vm_r := r', vm_w := w'\<rparr>) pc (ucast v0) = (True, m\<lparr>vm_byte := ?b3, vm_r := r', vm_w := w'\<rparr>)"
      "write_tracee_u32 (m\<lparr>vm_byte := ?b3, vm_r := r', vm_w := w'\<rparr>) (pc + 4) (ucast v1) = (True, m\<lparr>vm_r := r', vm_w := w'\<rparr>)" for r' w'
    using wr [where a = pc and b = ?b2 and r' = r' and w' = w' and v = "ucast v0"]
      wr [where a = "pc + 4" and b = ?b3 and r' = r' and w' = w' and v = "ucast v1"] b4 cc by simp_all
  have undo0: "write_tracee_u32 (m\<lparr>vm_byte := ?b2\<rparr>) pc (ucast v0) = (True, m\<lparr>vm_byte := ?b3\<rparr>)"
      "write_tracee_u32 (m\<lparr>vm_byte := ?b3\<rparr>) (pc + 4) (ucast v1) = (True, m)"
    using wr0 [where a = pc and b = ?b2 and v = "ucast v0"] wr0 [where a = "pc + 4" and b = ?b3 and v = "ucast v1"] b4 cc
    by simp_all
  show ?thesis
    using wr0 [where a = pc and b = "vm_byte m" and v = INSN_SVC0] wr0 [where a = "pc + 4" and b = ?b1 and v = INSN_BRK0]
      run undo undo0 v0(1) v1(1) args(5)
    unfolding inject_tracee_syscall_def args_def [symmetric] pc_def [symmetric] by (simp add: Let_def)
qed

text \<open>The kernel's \<open>mprotect\<close>, and its \<open>munmap\<close> of pages the model keeps mapped, as system calls.\<close>

definition NR_mprotect :: int where "NR_mprotect = 226"
definition NR_munmap :: int where "NR_munmap = 215"

definition mprotect_call :: "errno option \<Rightarrow> u64 \<Rightarrow> u64 \<Rightarrow> u64 \<Rightarrow> u64 \<Rightarrow> vmem \<Rightarrow> u64 \<times> vmem" where
  "mprotect_call err nr a n prot m =
     (if nr \<noteq> of_int NR_mprotect then (neg_errno ENOSYS, m)
      else case err of
        None \<Rightarrow> (0, vm_protect m a (unat n) (prot AND 1 \<noteq> 0) (prot AND 2 \<noteq> 0))
      | Some e \<Rightarrow> (neg_errno e, m))"

definition injected_args :: "regs \<Rightarrow> u64 \<Rightarrow> u64 \<Rightarrow> u64 \<Rightarrow> regs" where
  "injected_args fr a n prot = set_rg 8 (of_int NR_mprotect) (set_rg 2 prot (set_rg 1 n (set_rg 0 a fr)))"

lemma inject_mprotect:
  assumes "text_ok m (rg_pc fr)" "ie_call ie = mprotect_call err"
  shows "inject_tracee_syscall ie fr NR_mprotect a n prot m tr =
    (if \<not> ie_setregs_ok ie then (None, m, tr)
     else if \<not> ie_cont_ok ie then (None, m, injected_args fr a n prot)
     else let (x, m1) = mprotect_call err (of_int NR_mprotect) a n prot m
          in (if ie_getregs_ok ie then Some x else None, m1,
              (set_rg 0 x (injected_args fr a n prot))\<lparr>rg_pc := rg_pc fr + 4\<rparr>))"
proof (cases err)
  case None
  from inject_protections [OF assms(1), where ie = ie and nr = NR_mprotect and va = a and vb = n and vc = prot and x = 0
      and r = "\<lambda>x. if in_range a (unat n) x then prot AND 1 \<noteq> 0 else vm_r m x"
      and w = "\<lambda>x. if in_range a (unat n) x then prot AND 2 \<noteq> 0 else vm_w m x" and tr = tr] None assms(2)
  show ?thesis by (simp add: mprotect_call_def vm_protect_def injected_args_def)
next
  case (Some e)
  from inject_protections [OF assms(1), where ie = ie and nr = NR_mprotect and va = a and vb = n and vc = prot
      and x = "neg_errno e" and r = "vm_r m" and w = "vm_w m" and tr = tr] Some assms(2)
  show ?thesis by (simp add: mprotect_call_def injected_args_def)
qed

text \<open>A host whose \<open>mprotect\<close> answers \<open>err\<close> and whose \<open>ptrace\<close> calls succeed.\<close>

definition mprotect_host :: "errno option \<Rightarrow> inject_env" where
  "mprotect_host err = \<lparr>ie_call = mprotect_call err, ie_rest = (\<lambda>(m, r). (False, m, r)), ie_setregs_ok = True,
     ie_cont_ok = True, ie_getregs_ok = True\<rparr>"

end
