(* ===== verification/Syscall_Table.thy ===== *)
theory Syscall_Table
  imports Prelude
begin

text \<open>
  The system call tables of the direct executor (AArch64 numbers, kept as the \<open>long\<close> the
  tracer holds): names, emulated and suppressed calls, the calls whose path arguments are
  rewritten, those that invalidate the path caches, and the memory calls.
\<close>

definition syscall_names :: "(int \<times> string) list" where
  "syscall_names =
    [(15, ''lremovexattr''), (23, ''dup''), (24, ''dup3''),
     (25, ''fcntl''), (29, ''ioctl''), (33, ''mknodat''),
     (34, ''mkdirat''), (35, ''unlinkat''), (36, ''symlinkat''),
     (37, ''linkat''), (38, ''renameat''), (43, ''statfs''),
     (44, ''fstatfs''), (48, ''faccessat''), (49, ''chdir''),
     (50, ''fchdir''), (53, ''fchmodat''), (54, ''fchownat''),
     (55, ''fchown''), (56, ''openat''), (57, ''close''),
     (59, ''pipe2''), (61, ''getdents64''), (62, ''lseek''),
     (63, ''read''), (64, ''write''), (78, ''readlinkat''),
     (79, ''newfstatat''), (93, ''exit''), (94, ''exit_group''),
     (96, ''set_tid_address''), (98, ''futex''), (99, ''set_robust_list''),
     (117, ''ptrace''), (132, ''sigaltstack''), (134, ''rt_sigaction''),
     (135, ''rt_sigprocmask''), (139, ''rt_sigreturn''), (143, ''setregid''),
     (144, ''setgid''), (145, ''setreuid''), (146, ''setuid''),
     (147, ''setresuid''), (148, ''getresuid''), (149, ''setresgid''),
     (150, ''getresgid''), (151, ''setfsuid''), (152, ''setfsgid''),
     (159, ''setgroups''), (160, ''uname''), (166, ''umask''),
     (167, ''prctl''), (172, ''getpid''), (173, ''getppid''),
     (174, ''getuid''), (175, ''geteuid''), (176, ''getgid''),
     (177, ''getegid''), (178, ''gettid''), (179, ''sysinfo''),
     (197, ''socket''), (198, ''socketpair''), (203, ''connect''),
     (214, ''brk''), (215, ''munmap''), (216, ''mremap''),
     (220, ''clone''), (221, ''execve''), (222, ''mmap''),
     (223, ''fadvise64''), (226, ''mprotect''), (227, ''msync''),
     (233, ''madvise''), (235, ''mbind''), (236, ''get_mempolicy''),
     (237, ''set_mempolicy''), (238, ''migrate_pages''), (239, ''move_pages''),
     (242, ''sched_getaffinity''), (260, ''wait4''), (261, ''prlimit64''),
     (276, ''renameat2''), (278, ''getrandom''), (88, ''utimensat''),
     (280, ''bpf''), (281, ''execveat''), (291, ''statx''),
     (293, ''rseq''), (437, ''openat2''), (439, ''faccessat2''),
     (425, ''io_uring_setup''), (426, ''io_uring_enter''), (427, ''io_uring_register''),
     (435, ''clone3''), (436, ''close_range''), (440, ''process_madvise''),
     (441, ''epoll_pwait2''), (443, ''quotactl_fd''), (446, ''landlock_restrict_self''),
     (448, ''process_mrelease''), (449, ''futex_waitv''), (450, ''set_mempolicy_home_node'')]"

definition syscall_name :: "int \<Rightarrow> string" where
  "syscall_name nr = (case map_of syscall_names nr of Some s \<Rightarrow> s | None \<Rightarrow> ''?'')"

definition syscall_emulate_success :: "int \<Rightarrow> bool" where
  "syscall_emulate_success nr \<longleftrightarrow>
     nr \<in> set [99, 174, 175, 176, 177, 54, 55, 143, 144, 145, 146, 147, 148, 149, 150, 151, 152, 159, 293]"

definition syscall_emulate_errno :: "int \<Rightarrow> errno option" where
  "syscall_emulate_errno nr = (if (235 \<le> nr \<and> nr \<le> 239) \<or> nr = 450 then Some ENOSYS else None)"

definition syscall_completed_in_userland :: "int \<Rightarrow> bool" where
  "syscall_completed_in_userland nr \<longleftrightarrow>
     nr \<in> set [17, 36, 37, 48, 78, 425, 426, 427, 439] \<or>
     syscall_emulate_errno nr \<noteq> None \<or> syscall_emulate_success nr"

definition syscall_remap_number :: "int \<Rightarrow> int" where
  "syscall_remap_number nr = nr"

definition path_syscall_invalidates_cache :: "int \<Rightarrow> bool" where
  "path_syscall_invalidates_cache nr \<longleftrightarrow> nr \<in> set [33, 35, 36, 37, 38, 276]"

definition is_memory_trace_syscall :: "int \<Rightarrow> bool" where
  "is_memory_trace_syscall nr \<longleftrightarrow> nr \<in> set [214, 215, 216, 222, 226, 233]"

definition syscall_failed_result :: "u64 \<Rightarrow> bool" where
  "syscall_failed_result result \<longleftrightarrow> - 4095 \<le> result"

text \<open>
  Which arguments of a call name paths: the dispatch of \<open>rewrite_syscall_paths\<close>. The numbers
  are argument indices.
\<close>

datatype path_action =
    RewritePath nat
  | RewriteAt nat nat
  | RewriteAtPair nat nat nat nat
  | RewriteChdir
  | RewriteSockaddr
  | RewriteExecve
  | NoPath

definition path_action_of :: "int \<Rightarrow> path_action" where
  "path_action_of nr =
     (if nr \<in> set [5, 6, 8, 9, 11, 12, 14, 15] then RewritePath 0
      else if nr \<in> set [33, 34, 35, 48, 53, 54, 56, 79, 88, 291, 437, 439] then RewriteAt 0 1
      else if nr = 78 then RewritePath 1
      else if nr = 36 then RewriteAt 1 2
      else if nr = 37 then RewriteAtPair 0 1 2 3
      else if nr = 38 \<or> nr = 276 then RewriteAtPair 0 1 2 3
      else if nr = 43 then RewritePath 0
      else if nr = 49 then RewriteChdir
      else if nr = 200 \<or> nr = 203 then RewriteSockaddr
      else if nr = 221 then RewriteExecve
      else if nr = 281 then RewriteAt 0 1
      else NoPath)"

definition path_context_follows_final_component :: "string \<Rightarrow> bool" where
  "path_context_follows_final_component context \<longleftrightarrow>
     context \<noteq> ''unlinkat'' \<and> context \<noteq> ''symlinkat'' \<and> context \<noteq> ''mkdirat'' \<and> context \<noteq> ''mknodat''"

text \<open>What the entry handler does more than forward: a path, an emulation, the \<open>getcwd\<close>,
  \<open>io_uring\<close> and \<open>close\<close> special cases.\<close>

definition entry_interposes :: "int \<Rightarrow> bool" where
  "entry_interposes nr \<longleftrightarrow>
     path_action_of nr \<noteq> NoPath \<or> syscall_emulate_success nr \<or> syscall_emulate_errno nr \<noteq> None \<or>
     nr \<in> set [17, 57, 425, 426, 427]"

lemma interposed_list:
  "entry_interposes nr \<longleftrightarrow> nr \<in> set
     ([5, 6, 8, 9, 11, 12, 14, 15, 33, 34, 35, 48, 53, 54, 56, 79, 88, 291, 437, 439, 78, 36, 37, 38, 276,
       43, 49, 200, 203, 221, 281] @
      [99, 174, 175, 176, 177, 55, 143, 144, 145, 146, 147, 148, 149, 150, 151, 152, 159, 293] @
      [235, 236, 237, 238, 239, 450] @ [17, 57, 425, 426, 427])"
proof -
  have "235 \<le> nr \<and> nr \<le> 239 \<longleftrightarrow> nr \<in> {235, 236, 237, 238, 239 :: int}" by auto
  moreover have "path_action_of nr \<noteq> NoPath \<longleftrightarrow> nr \<in> set
      [5, 6, 8, 9, 11, 12, 14, 15, 33, 34, 35, 48, 53, 54, 56, 79, 88, 291, 437, 439, 78, 36, 37, 38, 276,
       43, 49, 200, 203, 221, 281]"
    by (simp add: path_action_of_def)
  ultimately show ?thesis
    unfolding entry_interposes_def syscall_emulate_success_def syscall_emulate_errno_def by auto
qed

end
