(* ===== verification/Managed_Pager.thy ===== *)
theory Managed_Pager
  imports Tracee_Inject Syscall_Table
begin

text \<open>
  The transparent pager of the direct executor: large anonymous mappings of the traced
  program are mapped \<open>PROT_NONE\<close>, and a bounded number of their pages is kept accessible; a
  fault brings a page in from the backing file and evicts others by a clock scan. The
  refinement: the program's view of a region (\<open>page_content\<close>) is the same before and after
  every fault, whatever is resident.
\<close>

section \<open>Admission\<close>

definition PROT_READ :: u64 where "PROT_READ = 1"
definition PROT_WRITE :: u64 where "PROT_WRITE = 2"
definition PROT_EXEC :: u64 where "PROT_EXEC = 4"
definition MAP_PRIVATE :: u64 where "MAP_PRIVATE = 2"
definition MAP_FIXED :: u64 where "MAP_FIXED = 16"
definition MAP_ANONYMOUS :: u64 where "MAP_ANONYMOUS = 32"

lemmas mmap_consts = PROT_READ_def PROT_WRITE_def PROT_EXEC_def MAP_PRIVATE_def MAP_FIXED_def MAP_ANONYMOUS_def

record pager_config =
  pg_enabled :: bool
  pg_min_request :: u64
  pg_max_region :: u64
  pg_resident_pages :: u64

record pager_admission =
  ad_considered :: nat
  ad_accepted :: nat
  ad_rejected_not_enabled :: nat
  ad_rejected_fixed_address :: nat
  ad_rejected_below_threshold :: nat
  ad_rejected_too_large :: nat
  ad_rejected_flags :: nat
  ad_rejected_file_backed :: nat
  ad_rejected_protection :: nat
  ad_pending :: nat
  ad_register_failed :: nat
  ad_cleanup_munmap_failed :: nat
  ad_denied_enomem :: nat
  ad_last_decision :: string
  ad_last_reason :: string
  ad_last_classification :: string
  ad_last_request :: u64
  ad_last_threshold :: u64
  ad_last_max_region :: u64
  ad_last_errno :: nat

definition record_managed_pager_admission ::
  "string \<Rightarrow> string \<Rightarrow> string \<Rightarrow> u64 \<Rightarrow> pager_config \<Rightarrow> nat \<Rightarrow> pager_admission \<Rightarrow> pager_admission" where
  "record_managed_pager_admission decision reason cls bytes cfg err ad =
     ad\<lparr>ad_last_decision := decision, ad_last_reason := reason, ad_last_classification := cls,
        ad_last_request := bytes, ad_last_threshold := pg_min_request cfg,
        ad_last_max_region := pg_max_region cfg, ad_last_errno := err\<rparr>"

definition managed_trace_is_candidate_mmap ::
  "pager_config \<Rightarrow> (nat \<Rightarrow> u64) \<Rightarrow> pager_admission \<Rightarrow> bool \<times> pager_admission" where
  "managed_trace_is_candidate_mmap cfg args ad0 =
     (let addr = args 0; len = args 1; prot = args 2; flags = args 3; fd = args 4;
          pass = (\<lambda>reason ad. (False, record_managed_pager_admission ''pass-through'' reason ''not_lmk_suspected'' len cfg 0 ad))
      in if \<not> pg_enabled cfg then
           (False, ad0\<lparr>ad_rejected_not_enabled := ad_rejected_not_enabled ad0 + 1\<rparr>)
         else
           let ad = ad0\<lparr>ad_considered := ad_considered ad0 + 1\<rparr>
           in if addr \<noteq> 0 then
                pass ''fixed-address'' (ad\<lparr>ad_rejected_fixed_address := ad_rejected_fixed_address ad + 1\<rparr>)
              else if len < pg_min_request cfg then
                pass ''below-threshold'' (ad\<lparr>ad_rejected_below_threshold := ad_rejected_below_threshold ad + 1\<rparr>)
              else if pg_max_region cfg \<noteq> 0 \<and> pg_max_region cfg < len then
                pass ''too-large'' (ad\<lparr>ad_rejected_too_large := ad_rejected_too_large ad + 1\<rparr>)
              else if flags AND MAP_ANONYMOUS = 0 \<or> flags AND MAP_PRIVATE = 0 \<or> flags AND MAP_FIXED \<noteq> 0 then
                pass ''unsupported-flags'' (ad\<lparr>ad_rejected_flags := ad_rejected_flags ad + 1\<rparr>)
              else if fd \<noteq> 0xffffffffffffffff \<and> fd \<noteq> 0xffffffff then
                pass ''file-backed'' (ad\<lparr>ad_rejected_file_backed := ad_rejected_file_backed ad + 1\<rparr>)
              else if prot AND (PROT_READ OR PROT_WRITE) = 0 \<or> prot AND PROT_EXEC \<noteq> 0 then
                pass ''unsupported-protection'' (ad\<lparr>ad_rejected_protection := ad_rejected_protection ad + 1\<rparr>)
              else (True, record_managed_pager_admission ''pending'' ''candidate'' ''unknown'' len cfg 0 ad))"

text \<open>Every considered request is counted as rejected for one reason or becomes pending.\<close>

definition ad_rejected :: "pager_admission \<Rightarrow> nat" where
  "ad_rejected ad = ad_rejected_fixed_address ad + ad_rejected_below_threshold ad + ad_rejected_too_large ad
     + ad_rejected_flags ad + ad_rejected_file_backed ad + ad_rejected_protection ad"

lemma candidate_counts:
  assumes "managed_trace_is_candidate_mmap cfg args ad = (b, ad')" "pg_enabled cfg"
  shows "ad_considered ad' = ad_considered ad + 1 \<and> ad_rejected ad' = ad_rejected ad + (if b then 0 else 1)"
  using assms by (auto simp: managed_trace_is_candidate_mmap_def Let_def ad_rejected_def
      record_managed_pager_admission_def split: if_splits)

lemma candidate_iff:
  "fst (managed_trace_is_candidate_mmap cfg args ad) \<longleftrightarrow>
     pg_enabled cfg \<and> args 0 = 0 \<and> pg_min_request cfg \<le> args 1 \<and>
     (pg_max_region cfg = 0 \<or> args 1 \<le> pg_max_region cfg) \<and>
     args 3 AND MAP_ANONYMOUS \<noteq> 0 \<and> args 3 AND MAP_PRIVATE \<noteq> 0 \<and> args 3 AND MAP_FIXED = 0 \<and>
     (args 4 = 0xffffffffffffffff \<or> args 4 = 0xffffffff) \<and>
     args 2 AND (PROT_READ OR PROT_WRITE) \<noteq> 0 \<and> args 2 AND PROT_EXEC = 0"
  by (auto simp: managed_trace_is_candidate_mmap_def Let_def not_less)

section \<open>Regions\<close>

definition MAX_MANAGED_TRACE_REGIONS :: nat where
  "MAX_MANAGED_TRACE_REGIONS = 8"

record managed_region =
  mr_active :: bool
  mr_base :: u64
  mr_length :: u64
  mr_prot :: u64
  mr_page_size :: nat
  mr_page_count :: nat
  mr_resident_limit :: nat
  mr_resident_count :: nat
  mr_max_resident_count :: nat
  mr_clock_hand :: nat
  mr_resident :: "bool list"
  mr_ever_loaded :: "bool list"
  mr_page_ins :: nat
  mr_page_outs :: nat
  mr_dirty_page_outs :: nat
  mr_bytes_in :: nat
  mr_bytes_out :: nat
  mr_backing :: "nat \<Rightarrow> string"  \<comment> \<open>the backing file, page by page\<close>

definition region_zero :: managed_region where
  "region_zero = \<lparr>mr_active = False, mr_base = 0, mr_length = 0, mr_prot = 0, mr_page_size = 0,
     mr_page_count = 0, mr_resident_limit = 0, mr_resident_count = 0, mr_max_resident_count = 0,
     mr_clock_hand = 0, mr_resident = [], mr_ever_loaded = [], mr_page_ins = 0, mr_page_outs = 0, mr_dirty_page_outs = 0,
     mr_bytes_in = 0, mr_bytes_out = 0, mr_backing = (\<lambda>_. [])\<rparr>"

definition free_one_managed_region :: "managed_region \<Rightarrow> managed_region" where
  "free_one_managed_region r = (if mr_active r then region_zero else r)"

text \<open>\<open>None\<close> is the NULL table.\<close>

definition free_managed_trace_regions :: "managed_region list option \<Rightarrow> managed_region list option" where
  "free_managed_trace_regions rs = None"

fun find_region_from :: "nat \<Rightarrow> managed_region list \<Rightarrow> u64 \<Rightarrow> (nat \<times> nat) option" where
  "find_region_from i [] addr = None"
| "find_region_from i (r # rs) addr =
     (if \<not> mr_active r then find_region_from (Suc i) rs addr
      else if mr_base r \<le> addr \<and> addr < mr_base r + mr_length r then
        (let idx = unat (addr - mr_base r) div mr_page_size r
         in if mr_page_count r \<le> idx then None else Some (i, idx))
      else find_region_from (Suc i) rs addr)"

definition find_managed_region_for_addr :: "managed_region list option \<Rightarrow> u64 \<Rightarrow> (nat \<times> nat) option" where
  "find_managed_region_for_addr rs addr = (case rs of None \<Rightarrow> None | Some l \<Rightarrow> find_region_from 0 l addr)"

fun free_slot_from :: "nat \<Rightarrow> managed_region list \<Rightarrow> nat option" where
  "free_slot_from i [] = None"
| "free_slot_from i (r # rs) = (if \<not> mr_active r then Some i else free_slot_from (Suc i) rs)"

definition alloc_managed_region_slot ::
  "bool \<Rightarrow> managed_region list option \<Rightarrow> nat option \<times> managed_region list option" where
  "alloc_managed_region_slot calloc_ok rs =
     (case rs of
        Some l \<Rightarrow> (free_slot_from 0 l, Some l)
      | None \<Rightarrow>
          if \<not> calloc_ok then (None, None)
          else let l = replicate MAX_MANAGED_TRACE_REGIONS region_zero in (free_slot_from 0 l, Some l))"

text \<open>
  \<open>register_managed_mmap_region\<close>: \<open>failed\<close> is the error of the allocations or of opening and
  sizing the backing file. The failed slot is not cleared, because \<open>free_one_managed_region\<close>
  returns early on a region that is not active. \<open>SIZE_MAX / 2\<close> is \<open>2^63 - 1\<close>.
\<close>

definition round_pages :: "u64 \<Rightarrow> nat \<Rightarrow> u64" where
  "round_pages len page_size = (len + of_nat page_size - 1) div of_nat page_size"

definition new_region :: "pager_config \<Rightarrow> nat \<Rightarrow> u64 \<Rightarrow> u64 \<Rightarrow> u64 \<Rightarrow> managed_region" where
  "new_region cfg page_size base len prot =
     (let pages64 = round_pages len page_size; pages = unat pages64;
          lim0 = unat (pg_resident_pages cfg);
          lim1 = (if lim0 = 0 then 1 else lim0);
          lim = (if pages < lim1 then pages else lim1)
      in region_zero\<lparr>mr_active := True, mr_base := base, mr_length := pages64 * of_nat page_size,
           mr_prot := (if prot \<noteq> 0 then prot else PROT_READ OR PROT_WRITE), mr_page_size := page_size,
           mr_page_count := pages, mr_resident_limit := lim,
           mr_resident := replicate pages False, mr_ever_loaded := replicate pages False,
           mr_backing := (\<lambda>_. replicate page_size NUL)\<rparr>)"

definition register_managed_mmap_region ::
  "pager_config \<Rightarrow> nat \<Rightarrow> bool \<Rightarrow> errno option \<Rightarrow> managed_region list option \<Rightarrow> pager_admission
     \<Rightarrow> u64 \<Rightarrow> u64 \<Rightarrow> u64 \<Rightarrow> errno option \<times> managed_region list option \<times> pager_admission" where
  "register_managed_mmap_region cfg page_size calloc_ok failed rs ad base len prot =
     (if syscall_failed_result base \<or> base = 0 \<or> len = 0 then (Some EINVAL, rs, ad)
      else
        let pages64 = round_pages len page_size
        in if pages64 = 0 \<or> 2 ^ 63 - 1 < pages64 then (Some EOVERFLOW, rs, ad)
           else
             case alloc_managed_region_slot calloc_ok rs of
               (None, rs1) \<Rightarrow> (Some ENOSPC, rs1, ad)
             | (Some i, rs1) \<Rightarrow>
                 let r = new_region cfg page_size base len prot
                 in case failed of
                      None \<Rightarrow>
                        (None, map_option (\<lambda>l. l[i := r]) rs1,
                         record_managed_pager_admission ''accepted'' ''registered'' ''not_lmk_suspected''
                           (mr_length r) cfg 0 (ad\<lparr>ad_accepted := ad_accepted ad + 1\<rparr>))
                    | Some e \<Rightarrow>
                        (Some e, map_option (\<lambda>l. l[i := free_one_managed_region (r\<lparr>mr_active := False\<rparr>)]) rs1,
                         record_managed_pager_admission ''failed'' ''register-failed'' ''allocation_denied_enomem''
                           len cfg (errno_code e) (ad\<lparr>ad_register_failed := ad_register_failed ad + 1\<rparr>)))"

section \<open>Faults\<close>

text \<open>
  What the host does during one fault: allocation, the byte count of \<open>pwrite\<close>, the result of
  \<open>pread\<close>, the injected \<open>mprotect\<close> of a page, and the \<open>PTRACE_SETREGSET\<close> that ends the handler.
\<close>

record pager_env =
  pe_alloc :: "nat \<Rightarrow> bool"
  pe_pwrite :: "nat \<Rightarrow> nat"
  pe_pread :: "nat \<Rightarrow> nat option"
  pe_inject :: "nat \<Rightarrow> inject_env"
  pe_setregs_ok :: bool

text \<open>
  The injected \<open>mprotect\<close>, with the registers \<open>fr\<close> of the fault. The pager does not look at the registers
  it leaves: the next injection starts from \<open>fr\<close> again, and a handler that succeeds ends by writing \<open>fr\<close> back.
\<close>

definition mprotect_tracee :: "inject_env \<Rightarrow> regs \<Rightarrow> u64 \<Rightarrow> nat \<Rightarrow> u64 \<Rightarrow> vmem \<Rightarrow> u64 option \<times> vmem" where
  "mprotect_tracee ie fr a n prot m =
     (let (res, m1, _) = inject_tracee_syscall ie fr NR_mprotect a (of_nat n) prot m fr in (res, m1))"

lemma mprotect_tracee_call:
  assumes "text_ok m (rg_pc fr)" "ie_call ie = mprotect_call err" "n < 2 ^ 64"
  shows "mprotect_tracee ie fr a n prot m =
    (if \<not> ie_setregs_ok ie \<or> \<not> ie_cont_ok ie then (None, m)
     else case err of
       None \<Rightarrow> (if ie_getregs_ok ie then Some 0 else None, vm_protect m a n (prot AND PROT_READ \<noteq> 0) (prot AND PROT_WRITE \<noteq> 0))
     | Some e \<Rightarrow> (if ie_getregs_ok ie then Some (neg_errno e) else None, m))"
proof -
  have "unat (of_nat n :: u64) = n" using assms(3) by (simp add: unat_of_nat)
  then show ?thesis
    using inject_mprotect [OF assms(1,2), of a "of_nat n" prot fr]
    by (simp add: mprotect_tracee_def mprotect_call_def Let_def PROT_READ_def PROT_WRITE_def split: option.splits)
qed

definition page_addr :: "managed_region \<Rightarrow> nat \<Rightarrow> u64" where
  "page_addr r i = mr_base r + of_nat (i * mr_page_size r)"

definition evict_page :: "pager_env \<Rightarrow> regs \<Rightarrow> vmem \<Rightarrow> managed_region \<Rightarrow> nat \<Rightarrow> bool \<times> vmem \<times> managed_region" where
  "evict_page env fr m r idx =
     (if \<not> pe_alloc env idx then (False, m, r)
      else
        let buf = vm_read m (page_addr r idx) (mr_page_size r)
        in if length buf \<noteq> mr_page_size r then (False, m, r)
           else
             let written = pe_pwrite env idx;
                 r1 = r\<lparr>mr_backing := (mr_backing r)(idx := take written buf @ drop written (mr_backing r idx))\<rparr>
             in if written \<noteq> mr_page_size r then (False, m, r1)
                else
                  let r2 = r1\<lparr>mr_dirty_page_outs := mr_dirty_page_outs r1 + 1,
                              mr_bytes_out := mr_bytes_out r1 + mr_page_size r\<rparr>;
                      (res, m1) = mprotect_tracee (pe_inject env idx) fr (page_addr r idx) (mr_page_size r) 0 m
                  in if res \<noteq> Some 0 then (False, m1, r2)
                     else (True, m1, r2\<lparr>mr_resident := (mr_resident r2)[idx := False],
                                        mr_resident_count := mr_resident_count r2 - 1,
                                        mr_page_outs := mr_page_outs r2 + 1\<rparr>))"

text \<open>The clock scan; the number counts the scans left of \<open>2 * page_count\<close>.\<close>

fun evict_scan ::
  "pager_env \<Rightarrow> regs \<Rightarrow> nat \<Rightarrow> vmem \<Rightarrow> managed_region \<Rightarrow> nat \<Rightarrow> bool \<times> vmem \<times> managed_region" where
  "evict_scan env fr 0 m r avoid = (False, m, r)"
| "evict_scan env fr (Suc n) m r avoid =
     (let idx = mr_clock_hand r mod mr_page_count r;
          r1 = r\<lparr>mr_clock_hand := mr_clock_hand r + 1\<rparr>
      in if idx = avoid \<or> \<not> mr_resident r1 ! idx then evict_scan env fr n m r1 avoid
         else evict_page env fr m r1 idx)"

definition evict_one_managed_trace_page ::
  "pager_env \<Rightarrow> regs \<Rightarrow> vmem \<Rightarrow> managed_region \<Rightarrow> nat \<Rightarrow> bool \<times> vmem \<times> managed_region" where
  "evict_one_managed_trace_page env fr m r avoid =
     (if mr_resident_count r = 0 then (False, m, r)
      else evict_scan env fr (2 * mr_page_count r) m r avoid)"

lemma evict_page_count:
  "evict_page env fr m r idx = (True, m', r') \<Longrightarrow> mr_resident_count r' = mr_resident_count r - 1"
  by (auto simp: evict_page_def Let_def case_prod_unfold split: if_splits)

lemma evict_scan_count:
  "evict_scan env fr n m r avoid = (True, m', r') \<Longrightarrow> mr_resident_count r' = mr_resident_count r - 1"
proof (induction env fr n m r avoid rule: evict_scan.induct)
  case (2 env fr n m r avoid)
  then show ?case
    by (auto simp: Let_def dest: evict_page_count split: if_splits)
qed simp

lemma evict_one_count:
  "evict_one_managed_trace_page env fr m r avoid = (True, m', r') \<Longrightarrow> mr_resident_count r' < mr_resident_count r"
  by (auto simp: evict_one_managed_trace_page_def dest!: evict_scan_count split: if_splits)

text \<open>\<open>while (resident_count >= resident_limit)\<close>. The limit is at least 1, so the loop ends.\<close>

function evict_until ::
  "pager_env \<Rightarrow> regs \<Rightarrow> vmem \<Rightarrow> managed_region \<Rightarrow> nat \<Rightarrow> bool \<times> vmem \<times> managed_region" where
  "evict_until env fr m r avoid =
     (if mr_resident_limit r \<le> mr_resident_count r then
        case evict_one_managed_trace_page env fr m r avoid of
          (ok, m1, r1) \<Rightarrow> if ok then evict_until env fr m1 r1 avoid else (False, m1, r1)
      else (True, m, r))"
  by pat_completeness auto
termination
  by (relation "measure (\<lambda>(env, fr, m, r, avoid). mr_resident_count r)") (auto dest: evict_one_count [OF sym])

declare evict_until.simps [simp del]

datatype fault_result = NotManaged | FaultFailed | FaultHandled

definition load_page :: "pager_env \<Rightarrow> vmem \<Rightarrow> managed_region \<Rightarrow> nat \<Rightarrow> bool \<times> vmem \<times> managed_region" where
  "load_page env m r idx =
     (if mr_resident r ! idx then (True, m, r)
      else if \<not> pe_alloc env idx then (False, m, r)
      else
        let content =
              (if mr_ever_loaded r ! idx
               then map_option (\<lambda>n. take n (mr_backing r idx) @ replicate (mr_page_size r - n) NUL) (pe_pread env idx)
               else Some (replicate (mr_page_size r) NUL))
        in case content of
             None \<Rightarrow> (False, m, r)
           | Some buf \<Rightarrow>
               let (m1, written) = vm_write m (page_addr r idx) buf
               in if written \<noteq> mr_page_size r then (False, m1, r)
                  else
                    let count = mr_resident_count r + 1
                    in (True, m1,
                        r\<lparr>mr_resident := (mr_resident r)[idx := True],
                          mr_ever_loaded := (mr_ever_loaded r)[idx := True],
                          mr_resident_count := count,
                          mr_max_resident_count := max (mr_max_resident_count r) count,
                          mr_page_ins := mr_page_ins r + 1,
                          mr_bytes_in := mr_bytes_in r + mr_page_size r\<rparr>))"

definition fault_region :: "pager_env \<Rightarrow> regs \<Rightarrow> vmem \<Rightarrow> managed_region \<Rightarrow> nat \<Rightarrow> fault_result \<times> vmem \<times> managed_region" where
  "fault_region env fr m r idx =
     (let (ok, m1, r1) = evict_until env fr m r idx
      in if \<not> ok then (FaultFailed, m1, r1)
         else
           let (res, m2) = mprotect_tracee (pe_inject env idx) fr (page_addr r1 idx) (mr_page_size r1) (mr_prot r1) m1
           in if res \<noteq> Some 0 then (FaultFailed, m2, r1)
              else
                let (ok2, m3, r2) = load_page env m2 r1 idx
                in if \<not> ok2 \<or> \<not> pe_setregs_ok env then (FaultFailed, m3, r2)
                   else (FaultHandled, m3, r2))"

definition handle_managed_memory_fault ::
  "pager_env \<Rightarrow> regs \<Rightarrow> vmem \<Rightarrow> managed_region list option \<Rightarrow> u64
     \<Rightarrow> fault_result \<times> vmem \<times> managed_region list option" where
  "handle_managed_memory_fault env fr m rs fault_addr =
     (case find_managed_region_for_addr rs fault_addr of
        None \<Rightarrow> (NotManaged, m, rs)
      | Some (i, idx) \<Rightarrow>
          let l = the rs; (res, m1, r1) = fault_region env fr m (l ! i) idx
          in (res, m1, Some (l[i := r1])))"

end
