(* ===== verification/Pager_Refinement.thy ===== *)
theory Pager_Refinement
  imports Managed_Pager
begin

text \<open>
  The pager keeps the traced program's view of a region: \<open>page_content\<close> is what a page holds
  for the program, wherever the bytes are (in memory when resident, in the backing file when it
  was loaded before, zero otherwise).
\<close>

section \<open>Page addresses\<close>

definition region_wf :: "managed_region \<Rightarrow> bool" where
  "region_wf r \<longleftrightarrow> mr_active r \<and> 0 < mr_page_size r \<and> mr_page_size r < 2 ^ 64 \<and>
     unat (mr_base r) + mr_page_count r * mr_page_size r \<le> 2 ^ 64 \<and>
     length (mr_resident r) = mr_page_count r \<and> length (mr_ever_loaded r) = mr_page_count r \<and>
     mr_resident_count r = length (filter id (mr_resident r)) \<and>
     mr_resident_count r \<le> mr_resident_limit r \<and> 1 \<le> mr_resident_limit r \<and>
     mr_max_resident_count r \<le> mr_resident_limit r \<and>
     (\<forall>i < mr_page_count r. mr_resident r ! i \<longrightarrow> mr_ever_loaded r ! i) \<and>
     (\<forall>i < mr_page_count r. length (mr_backing r i) = mr_page_size r)"

lemma in_range_nat: "unat a + n \<le> 2 ^ 64 \<Longrightarrow> in_range a n x \<longleftrightarrow> unat a \<le> unat x \<and> unat x < unat a + n"
proof (cases "unat a \<le> unat x")
  case True
  then have "unat (x - a) = unat x - unat a" by (simp add: unat_sub word_le_nat_alt)
  with True show ?thesis by (auto simp: in_range_def)
next
  case False
  assume n: "unat a + n \<le> 2 ^ 64"
  from False have "x < a" by (simp add: word_less_nat_alt)
  then have "unat (x - a) = 2 ^ 64 - unat a + unat x"
  proof -
    have "unat a < 2 ^ 64" using unsigned_less [of a] by simp
    with False show ?thesis by (simp add: unat_sub_if_size word_size not_le)
  qed
  with False n show ?thesis by (simp add: in_range_def)
qed

lemma page_addr_unat:
  assumes "region_wf r" "i < mr_page_count r"
  shows "unat (page_addr r i) = unat (mr_base r) + i * mr_page_size r"
    and "unat (page_addr r i) + mr_page_size r \<le> 2 ^ 64"
proof -
  have "(i + 1) * mr_page_size r \<le> mr_page_count r * mr_page_size r"
    using assms(2) by (intro mult_le_mono1) simp
  with assms(1) have b: "unat (mr_base r) + (i * mr_page_size r + mr_page_size r) \<le> 2 ^ 64"
    by (simp add: region_wf_def)
  have ps: "0 < mr_page_size r" using assms(1) by (simp add: region_wf_def)
  define o' where "o' = i * mr_page_size r"
  have "o' < 2 ^ 64" using b ps by (simp add: o'_def)
  then have "unat (of_nat o' :: u64) = o'" by (simp add: unat_of_nat)
  then show u: "unat (page_addr r i) = unat (mr_base r) + i * mr_page_size r"
    unfolding page_addr_def o'_def [symmetric] using b ps
    by (simp only: unat_word_ariths) (simp add: o'_def)
  show "unat (page_addr r i) + mr_page_size r \<le> 2 ^ 64" using b u by simp
qed

definition in_page :: "managed_region \<Rightarrow> nat \<Rightarrow> u64 \<Rightarrow> bool" where
  "in_page r i x \<longleftrightarrow> in_range (page_addr r i) (mr_page_size r) x"

lemma in_page_unique:
  assumes "region_wf r" "i < mr_page_count r" "j < mr_page_count r" "in_page r i x" "in_page r j x"
  shows "i = j"
proof -
  let ?ps = "mr_page_size r"
  have i: "unat (mr_base r) + i * ?ps \<le> unat x" "unat x < unat (mr_base r) + i * ?ps + ?ps"
    using assms(4) in_range_nat [OF page_addr_unat(2) [OF assms(1,2)], of x] page_addr_unat(1) [OF assms(1,2)]
    by (simp_all add: in_page_def)
  have j: "unat (mr_base r) + j * ?ps \<le> unat x" "unat x < unat (mr_base r) + j * ?ps + ?ps"
    using assms(5) in_range_nat [OF page_addr_unat(2) [OF assms(1,3)], of x] page_addr_unat(1) [OF assms(1,3)]
    by (simp_all add: in_page_def)
  have "(unat x - unat (mr_base r)) div ?ps = i"
    using i by (intro div_nat_eqI) (simp_all add: algebra_simps)
  moreover have "(unat x - unat (mr_base r)) div ?ps = j"
    using j by (intro div_nat_eqI) (simp_all add: algebra_simps)
  ultimately show ?thesis by simp
qed

definition page_bytes :: "vmem \<Rightarrow> managed_region \<Rightarrow> nat \<Rightarrow> string" where
  "page_bytes m r i = map (\<lambda>k. vm_byte m (page_addr r i + of_nat k)) [0..<mr_page_size r]"

definition page_content :: "vmem \<Rightarrow> managed_region \<Rightarrow> nat \<Rightarrow> string" where
  "page_content m r i =
     (if mr_resident r ! i then page_bytes m r i
      else if mr_ever_loaded r ! i then mr_backing r i
      else replicate (mr_page_size r) NUL)"

lemma in_page_offset: "region_wf r \<Longrightarrow> i < mr_page_count r \<Longrightarrow> k < mr_page_size r \<Longrightarrow> in_page r i (page_addr r i + of_nat k)"
  using page_addr_unat(2) [of r i] by (auto simp: in_page_def in_range_offset intro!: exI [of _ k])

lemma page_bytes_cong:
  "(\<And>k. k < mr_page_size r \<Longrightarrow> vm_byte m' (page_addr r i + of_nat k) = vm_byte m (page_addr r i + of_nat k)) \<Longrightarrow>
   page_bytes m' r i = page_bytes m r i"
  by (simp add: page_bytes_def)

section \<open>The invariant\<close>

definition prot_ok :: "vmem \<Rightarrow> managed_region \<Rightarrow> bool" where
  "prot_ok m r \<longleftrightarrow> (\<forall>i < mr_page_count r. \<forall>x. in_page r i x \<longrightarrow>
     vm_r m x = (mr_resident r ! i \<and> mr_prot r AND PROT_READ \<noteq> 0) \<and>
     vm_w m x = (mr_resident r ! i \<and> mr_prot r AND PROT_WRITE \<noteq> 0))"

definition static_eq :: "managed_region \<Rightarrow> managed_region \<Rightarrow> bool" where
  "static_eq r r' \<longleftrightarrow> mr_active r' = mr_active r \<and> mr_base r' = mr_base r \<and> mr_length r' = mr_length r \<and>
     mr_prot r' = mr_prot r \<and> mr_page_size r' = mr_page_size r \<and> mr_page_count r' = mr_page_count r \<and>
     mr_resident_limit r' = mr_resident_limit r"

text \<open>The program's view and everything outside the region are unchanged.\<close>

definition same_view :: "vmem \<Rightarrow> managed_region \<Rightarrow> vmem \<Rightarrow> managed_region \<Rightarrow> bool" where
  "same_view m r m' r' \<longleftrightarrow> static_eq r r' \<and> vm_mapped m' = vm_mapped m \<and>
     (\<forall>i < mr_page_count r. page_content m' r' i = page_content m r i) \<and>
     (\<forall>x. (\<forall>i < mr_page_count r. \<not> in_page r i x) \<longrightarrow>
        vm_byte m' x = vm_byte m x \<and> vm_r m' x = vm_r m x \<and> vm_w m' x = vm_w m x)"

lemma same_view_refl: "same_view m r m r"
  by (simp add: same_view_def static_eq_def)

lemma static_in_page: "static_eq r r' \<Longrightarrow> in_page r' i = in_page r i" "static_eq r r' \<Longrightarrow> page_addr r' i = page_addr r i"
  by (simp_all add: static_eq_def in_page_def page_addr_def fun_eq_iff)

lemma same_view_trans: "same_view m r m1 r1 \<Longrightarrow> same_view m1 r1 m2 r2 \<Longrightarrow> same_view m r m2 r2"
  using static_in_page [of r r1] by (auto simp: same_view_def static_eq_def)

lemma page_bytes_static: "static_eq r r' \<Longrightarrow> page_bytes m r' i = page_bytes m r i"
  by (simp add: page_bytes_def static_in_page(2)) (simp add: static_eq_def)

definition pager_inv :: "vmem \<Rightarrow> managed_region \<Rightarrow> bool" where
  "pager_inv m r \<longleftrightarrow> region_wf r \<and> prot_ok m r"

lemma text_ok_mapped: "vm_mapped m' = vm_mapped m \<Longrightarrow> text_ok m' a = text_ok m a"
  by (simp add: text_ok_def word_mapped_def)

text \<open>A host that has no failures.\<close>

definition env_ok :: "pager_env \<Rightarrow> nat \<Rightarrow> bool" where
  "env_ok env ps \<longleftrightarrow> (\<forall>i. pe_alloc env i \<and> pe_pwrite env i = ps \<and> pe_pread env i = Some ps \<and>
     ie_call (pe_inject env i) = mprotect_call None \<and> ie_setregs_ok (pe_inject env i)
       \<and> ie_cont_ok (pe_inject env i) \<and> ie_getregs_ok (pe_inject env i)) \<and> pe_setregs_ok env"

lemma count_update:
  "i < length bs \<Longrightarrow> length (filter id (bs[i := b])) =
     length (filter id bs) - (if bs ! i then 1 else 0) + (if b then 1 else 0)"
proof (induction bs arbitrary: i)
  case (Cons c bs)
  show ?case
  proof (cases i)
    case (Suc j)
    have "0 < length (filter (\<lambda>a. a) bs)" if "bs ! j" "j < length bs"
      using that nth_mem [of j bs] by (auto simp: filter_empty_conv)
    with Cons Suc show ?thesis by (cases "bs ! j") auto
  qed auto
qed simp

section \<open>Eviction\<close>

lemma evict_page_ok:
  assumes inv: "pager_inv m r" and idx: "idx < mr_page_count r" "mr_resident r ! idx"
    and env: "env_ok env (mr_page_size r)" and tx: "text_ok m (rg_pc fr)" and rd: "mr_prot r AND PROT_READ \<noteq> 0"
  shows "\<exists>m' r'. evict_page env fr m r idx = (True, m', r') \<and> pager_inv m' r' \<and> same_view m r m' r' \<and>
      mr_resident r' = (mr_resident r)[idx := False]"
proof -
  let ?a = "page_addr r idx" and ?ps = "mr_page_size r"
  from inv have wf: "region_wf r" and pr: "prot_ok m r" by (simp_all add: pager_inv_def)
  have rdall: "\<forall>k < ?ps. vm_r m (?a + of_nat k)"
    using pr idx rd in_page_offset [OF wf idx(1)] by (auto simp: prot_ok_def)
  have buf: "vm_read m ?a ?ps = page_bytes m r idx"
    using vm_read_all [OF rdall] by (simp add: page_bytes_def)
  have bl: "length (mr_backing r idx) = ?ps" using wf idx(1) by (simp add: region_wf_def)
  have ps: "?ps < 2 ^ 64" using wf by (simp add: region_wf_def)
  have pl: "length (page_bytes m r idx) = ?ps" by (simp add: page_bytes_def)
  define m' where "m' = vm_protect m ?a ?ps False False"
  define r' where "r' = r\<lparr>mr_backing := (mr_backing r)(idx := page_bytes m r idx),
      mr_dirty_page_outs := mr_dirty_page_outs r + 1, mr_bytes_out := mr_bytes_out r + ?ps,
      mr_resident := (mr_resident r)[idx := False], mr_resident_count := mr_resident_count r - 1,
      mr_page_outs := mr_page_outs r + 1\<rparr>"
  have ev: "evict_page env fr m r idx = (True, m', r')"
    using env buf bl pl mprotect_tracee_call [OF tx _ ps]
    by (simp add: evict_page_def Let_def env_ok_def m'_def r'_def)
  have st: "static_eq r r'" by (simp add: static_eq_def r'_def)
  have cnt: "mr_resident_count r = length (filter id (mr_resident r))" using wf by (simp add: region_wf_def)
  have wf': "region_wf r'"
    using wf idx count_update [of idx "mr_resident r" False]
    by (auto simp: region_wf_def r'_def pl nth_list_update)
  have pr': "prot_ok m' r'"
    unfolding prot_ok_def
  proof (intro allI impI)
    fix i x
    assume i: "i < mr_page_count r'" and x: "in_page r' i x"
    have x: "in_page r i x" using x static_in_page(1) [OF st] by simp
    have i: "i < mr_page_count r" using i by (simp add: r'_def)
    have len: "length (mr_resident r) = mr_page_count r" using wf by (simp add: region_wf_def)
    have other: "in_range ?a ?ps x \<longleftrightarrow> i = idx"
      using in_page_unique [OF wf i idx(1) x] x by (auto simp: in_page_def)
    show "vm_r m' x = (mr_resident r' ! i \<and> mr_prot r' AND PROT_READ \<noteq> 0) \<and>
        vm_w m' x = (mr_resident r' ! i \<and> mr_prot r' AND PROT_WRITE \<noteq> 0)"
      using pr i x other len by (auto simp: m'_def vm_protect_def r'_def prot_ok_def nth_list_update)
  qed
  have byte: "vm_byte m' = vm_byte m" by (simp add: m'_def vm_protect_def)
  have pc: "page_content m' r' i = page_content m r i" if "i < mr_page_count r" for i
  proof (cases "i = idx")
    case True
    have "mr_ever_loaded r ! idx" using wf idx by (simp add: region_wf_def)
    with True idx wf show ?thesis by (simp add: page_content_def r'_def region_wf_def)
  next
    case False
    have "page_bytes m' r' i = page_bytes m r i"
      using page_bytes_static [OF st, of m' i] page_bytes_cong [of r m' i m] byte by simp
    with False show ?thesis by (simp add: page_content_def r'_def)
  qed
  have "same_view m r m' r'"
    using st pc byte idx(1) by (auto simp: same_view_def m'_def vm_protect_def in_page_def)
  with ev wf' pr' show ?thesis by (simp add: pager_inv_def r'_def)
qed

lemma evict_scan_finds:
  assumes "\<exists>k < n. P ((mr_clock_hand r + k) mod mr_page_count r)"
    and P: "\<And>i. P i \<longleftrightarrow> i \<noteq> avoid \<and> mr_resident r ! i"
  shows "\<exists>k. P ((mr_clock_hand r + k) mod mr_page_count r) \<and>
     evict_scan env fr n m r avoid =
       evict_page env fr m (r\<lparr>mr_clock_hand := mr_clock_hand r + k + 1\<rparr>) ((mr_clock_hand r + k) mod mr_page_count r)"
  using assms
proof (induction n arbitrary: r)
  case (Suc n)
  let ?idx = "mr_clock_hand r mod mr_page_count r"
  show ?case
  proof (cases "P ?idx")
    case True
    with Suc.prems(2) show ?thesis by (intro exI [of _ 0]) (simp add: Let_def)
  next
    case False
    let ?r = "r\<lparr>mr_clock_hand := mr_clock_hand r + 1\<rparr>"
    from Suc.prems(1) obtain k where k: "k < Suc n" "P ((mr_clock_hand r + k) mod mr_page_count r)" by blast
    with False obtain j where j: "k = Suc j" by (cases k) auto
    have "\<exists>k < n. P ((mr_clock_hand ?r + k) mod mr_page_count ?r)"
      using k j by (intro exI [of _ j]) simp
    from Suc.IH [OF this] Suc.prems(2) obtain l where
      "P ((mr_clock_hand r + 1 + l) mod mr_page_count r)"
      "evict_scan env fr n m ?r avoid =
        evict_page env fr m (?r\<lparr>mr_clock_hand := mr_clock_hand r + 1 + l + 1\<rparr>)
          ((mr_clock_hand r + 1 + l) mod mr_page_count r)"
      by auto
    with False Suc.prems(2) show ?thesis by (intro exI [of _ "Suc l"]) (simp add: Let_def)
  qed
qed simp

lemma mod_reach: "j < (n :: nat) \<Longrightarrow> \<exists>k < n. (h + k) mod n = j"
proof -
  assume j: "j < n"
  let ?k = "(j + (n - h mod n)) mod n"
  have "(h + ?k) mod n = (h mod n + (j + (n - h mod n))) mod n" by (simp add: mod_simps)
  also have "h mod n + (j + (n - h mod n)) = j + n"
    using j mod_less_divisor [of n h] by linarith
  finally have "(h + ?k) mod n = j" using j by simp
  moreover have "?k < n" using j by simp
  ultimately show ?thesis by blast
qed

lemma hand_irrelevant:
  "pager_inv m (r\<lparr>mr_clock_hand := h\<rparr>) = pager_inv m r"
  "same_view m (r\<lparr>mr_clock_hand := h\<rparr>) m' r' = same_view m r m' r'"
  by (simp_all add: pager_inv_def region_wf_def prot_ok_def in_page_def page_addr_def same_view_def
      static_eq_def page_content_def page_bytes_def)

lemma evict_one_ok:
  assumes inv: "pager_inv m r" and cnt: "0 < mr_resident_count r" and av: "\<not> mr_resident r ! avoid"
    and env: "env_ok env (mr_page_size r)" and tx: "text_ok m (rg_pc fr)" and rd: "mr_prot r AND PROT_READ \<noteq> 0"
  shows "\<exists>m' r' j. evict_one_managed_trace_page env fr m r avoid = (True, m', r') \<and> pager_inv m' r' \<and>
      same_view m r m' r' \<and> mr_resident r' = (mr_resident r)[j := False] \<and> j \<noteq> avoid"
proof -
  define P where "P = (\<lambda>i. i \<noteq> avoid \<and> mr_resident r ! i)"
  have wf: "length (mr_resident r) = mr_page_count r" "mr_resident_count r = length (filter id (mr_resident r))"
    using inv by (simp_all add: pager_inv_def region_wf_def)
  from cnt wf(2) obtain b where "b \<in> set (mr_resident r)" "b" by (auto simp: filter_empty_conv)
  then obtain i where i: "i < mr_page_count r" "mr_resident r ! i" using wf(1) by (metis in_set_conv_nth)
  with av have "P i" by (auto simp: P_def)
  with mod_reach [OF i(1), of "mr_clock_hand r"]
  have ex: "\<exists>k < 2 * mr_page_count r. P ((mr_clock_hand r + k) mod mr_page_count r)"
    by (metis add_less_mono less_imp_add_positive mult_2 trans_less_add1)
  from evict_scan_finds [OF ex, of avoid env fr m] obtain k where
    k: "P ((mr_clock_hand r + k) mod mr_page_count r)"
    "evict_scan env fr (2 * mr_page_count r) m r avoid =
       evict_page env fr m (r\<lparr>mr_clock_hand := mr_clock_hand r + k + 1\<rparr>) ((mr_clock_hand r + k) mod mr_page_count r)"
    by (auto simp: P_def)
  let ?r = "r\<lparr>mr_clock_hand := mr_clock_hand r + k + 1\<rparr>"
  let ?j = "(mr_clock_hand r + k) mod mr_page_count r"
  have "?j < mr_page_count r" using i(1) by simp
  with evict_page_ok [of m ?r ?j env fr] k inv env tx rd obtain m' r' where
    "evict_page env fr m ?r ?j = (True, m', r')" "pager_inv m' r'" "same_view m r m' r'"
    "mr_resident r' = (mr_resident r)[?j := False]"
    by (auto simp: hand_irrelevant P_def)
  with k cnt show ?thesis by (auto simp: evict_one_managed_trace_page_def P_def)
qed

lemma evict_until_ok:
  assumes "pager_inv m r" "\<not> mr_resident r ! avoid" "avoid < mr_page_count r"
    and "env_ok env (mr_page_size r)" "text_ok m (rg_pc fr)" "mr_prot r AND PROT_READ \<noteq> 0"
  shows "\<exists>m' r'. evict_until env fr m r avoid = (True, m', r') \<and> pager_inv m' r' \<and> same_view m r m' r' \<and>
      \<not> mr_resident r' ! avoid \<and> mr_resident_count r' < mr_resident_limit r'"
  using assms
proof (induction env fr m r avoid rule: evict_until.induct)
  case (1 env fr m r avoid)
  show ?case
  proof (cases "mr_resident_limit r \<le> mr_resident_count r")
    case False
    with 1(2-) same_view_refl show ?thesis by (subst evict_until.simps) auto
  next
    case True
    have "1 \<le> mr_resident_limit r" using 1(2) by (simp add: pager_inv_def region_wf_def)
    with True have "0 < mr_resident_count r" by linarith
    from evict_one_ok [OF 1(2) this 1(3,5,6,7)] obtain m1 r1 j where
      e: "evict_one_managed_trace_page env fr m r avoid = (True, m1, r1)" "pager_inv m1 r1" "same_view m r m1 r1"
      "mr_resident r1 = (mr_resident r)[j := False]" "j \<noteq> avoid" by blast
    have st: "mr_page_count r1 = mr_page_count r" "mr_page_size r1 = mr_page_size r" "mr_prot r1 = mr_prot r"
      "vm_mapped m1 = vm_mapped m"
      using e(3) by (simp_all add: same_view_def static_eq_def)
    have "\<exists>m' r'. evict_until env fr m1 r1 avoid = (True, m', r') \<and> pager_inv m' r' \<and> same_view m1 r1 m' r' \<and>
        \<not> mr_resident r' ! avoid \<and> mr_resident_count r' < mr_resident_limit r'"
      by (rule 1(1) [OF True e(1) [symmetric] refl TrueI e(2)])
         (use e(4,5) 1(3,4,5,6,7) st text_ok_mapped [OF st(4)] in simp_all)
    with e(1,3) True show ?thesis
      by (subst evict_until.simps) (auto intro: same_view_trans)
  qed
qed

section \<open>A fault\<close>

lemma load_page_ok:
  assumes wf: "region_wf r" and idx: "idx < mr_page_count r" "\<not> mr_resident r ! idx"
    and room: "mr_resident_count r < mr_resident_limit r" and env: "env_ok env (mr_page_size r)"
    and pr: "prot_ok m0 r" and m: "m = vm_protect m0 (page_addr r idx) (mr_page_size r) True True"
    and rw: "mr_prot r AND PROT_READ \<noteq> 0" "mr_prot r AND PROT_WRITE \<noteq> 0"
  shows "\<exists>m' r'. load_page env m r idx = (True, m', r') \<and> pager_inv m' r' \<and> same_view m0 r m' r' \<and>
      mr_resident r' ! idx"
proof -
  let ?a = "page_addr r idx" and ?ps = "mr_page_size r"
  define buf where "buf = page_content m0 r idx"
  have bl: "length buf = ?ps" using wf idx by (simp add: buf_def page_content_def region_wf_def)
  have cont: "(if mr_ever_loaded r ! idx
      then map_option (\<lambda>n. take n (mr_backing r idx) @ replicate (?ps - n) NUL) (pe_pread env idx)
      else Some (replicate ?ps NUL)) = Some buf"
    using idx wf env by (simp add: buf_def page_content_def env_ok_def region_wf_def)
  have wall: "\<forall>k < length buf. vm_w m (?a + of_nat k)"
    using in_page_offset [OF wf idx(1)] bl by (auto simp: m vm_protect_def in_page_def)
  define m' where "m' = fst (vm_write m ?a buf)"
  have wr: "vm_write m ?a buf = (m', ?ps)"
    using vm_write_all [OF wall] bl by (simp add: m'_def prod_eq_iff)
  define r' where "r' = r\<lparr>mr_resident := (mr_resident r)[idx := True],
      mr_ever_loaded := (mr_ever_loaded r)[idx := True], mr_resident_count := mr_resident_count r + 1,
      mr_max_resident_count := max (mr_max_resident_count r) (mr_resident_count r + 1),
      mr_page_ins := mr_page_ins r + 1, mr_bytes_in := mr_bytes_in r + ?ps\<rparr>"
  have ld: "load_page env m r idx = (True, m', r')"
    unfolding load_page_def using idx(2) env cont wr
    by (simp add: Let_def env_ok_def r'_def)
  have st: "static_eq r r'" by (simp add: static_eq_def r'_def)
  have len: "length (mr_resident r) = mr_page_count r" "length (mr_ever_loaded r) = mr_page_count r"
    using wf by (simp_all add: region_wf_def)
  have wf': "region_wf r'"
    using wf idx room count_update [of idx "mr_resident r" True]
    by (auto simp: region_wf_def r'_def nth_list_update)
  have perms: "vm_r m' = vm_r m" "vm_w m' = vm_w m" "vm_mapped m' = vm_mapped m" by (simp_all add: m'_def)
  have pr': "prot_ok m' r'"
    unfolding prot_ok_def
  proof (intro allI impI)
    fix i x
    assume i: "i < mr_page_count r'" and x: "in_page r' i x"
    have x: "in_page r i x" using x static_in_page(1) [OF st] by simp
    have i: "i < mr_page_count r" using i by (simp add: r'_def)
    have other: "in_range ?a ?ps x \<longleftrightarrow> i = idx"
      using in_page_unique [OF wf i idx(1) x] x by (auto simp: in_page_def)
    show "vm_r m' x = (mr_resident r' ! i \<and> mr_prot r' AND PROT_READ \<noteq> 0) \<and>
        vm_w m' x = (mr_resident r' ! i \<and> mr_prot r' AND PROT_WRITE \<noteq> 0)"
      using pr i x other len rw by (auto simp: perms m vm_protect_def r'_def prot_ok_def nth_list_update)
  qed
  have byte_out: "vm_byte m' x = vm_byte m0 x" if "\<not> in_page r idx x" for x
    using that vm_write_frame [of ?a buf x m] bl by (simp add: m'_def m vm_protect_def in_page_def)
  have "page_content m' r' i = page_content m0 r i" if i: "i < mr_page_count r" for i
  proof (cases "i = idx")
    case True
    have acc: "\<forall>k < length buf. vm_w m (?a + of_nat k) \<and> vm_r m (?a + of_nat k)"
      using in_page_offset [OF wf idx(1)] bl by (auto simp: m vm_protect_def in_page_def)
    have "length buf < 2 ^ 64" using wf bl by (simp add: region_wf_def)
    from vm_write_read [OF acc this] have "vm_read m' ?a ?ps = buf" by (simp add: m'_def bl)
    moreover have "vm_read m' ?a ?ps = page_bytes m' r idx"
      using vm_read_all [of ?ps m' ?a] acc bl by (simp add: page_bytes_def perms)
    ultimately have "page_bytes m' r' idx = buf" using page_bytes_static [OF st] by simp
    with True len idx show ?thesis by (simp add: page_content_def r'_def buf_def)
  next
    case False
    have "page_bytes m' r' i = page_bytes m0 r i"
      unfolding page_bytes_static [OF st]
      using in_page_offset [OF wf i] in_page_unique [OF wf i idx(1)] False
      by (intro page_bytes_cong byte_out) blast
    with False show ?thesis by (simp add: page_content_def r'_def)
  qed
  then have "same_view m0 r m' r'"
    using st byte_out idx(1) by (auto simp: same_view_def perms m vm_protect_def in_page_def)
  with ld wf' pr' len idx show ?thesis by (auto simp: pager_inv_def r'_def)
qed

theorem fault_region_ok:
  assumes inv: "pager_inv m r" and idx: "idx < mr_page_count r" "\<not> mr_resident r ! idx"
    and env: "env_ok env (mr_page_size r)" and tx: "text_ok m (rg_pc fr)"
    and rw: "mr_prot r AND PROT_READ \<noteq> 0" "mr_prot r AND PROT_WRITE \<noteq> 0"
  shows "\<exists>m' r'. fault_region env fr m r idx = (FaultHandled, m', r') \<and> pager_inv m' r' \<and>
      same_view m r m' r' \<and> mr_resident r' ! idx"
proof -
  obtain m1 r1 where e: "evict_until env fr m r idx = (True, m1, r1)" "pager_inv m1 r1" "same_view m r m1 r1"
      "\<not> mr_resident r1 ! idx" "mr_resident_count r1 < mr_resident_limit r1"
    using evict_until_ok [OF inv idx(2,1) env tx rw(1)] by blast
  have st: "mr_page_count r1 = mr_page_count r" "mr_page_size r1 = mr_page_size r" "mr_prot r1 = mr_prot r"
    "vm_mapped m1 = vm_mapped m"
    using e(3) by (simp_all add: same_view_def static_eq_def)
  let ?m2 = "vm_protect m1 (page_addr r1 idx) (mr_page_size r1) True True"
  have i1: "region_wf r1" "prot_ok m1 r1" using e(2) by (simp_all add: pager_inv_def)
  have "\<exists>m' r'. load_page env ?m2 r1 idx = (True, m', r') \<and> pager_inv m' r' \<and> same_view m1 r1 m' r' \<and>
      mr_resident r' ! idx"
    by (rule load_page_ok [OF i1(1) _ e(4,5) _ i1(2) refl]) (use idx(1) env rw st in simp_all)
  then obtain m3 r2 where l: "load_page env ?m2 r1 idx = (True, m3, r2)" "pager_inv m3 r2"
      "same_view m1 r1 m3 r2" "mr_resident r2 ! idx"
    by blast
  have "mr_page_size r1 < 2 ^ 64" using i1(1) by (simp add: region_wf_def)
  then have "mprotect_tracee (pe_inject env idx) fr (page_addr r1 idx) (mr_page_size r1) (mr_prot r1) m1 = (Some 0, ?m2)"
    using mprotect_tracee_call [of m1 fr "pe_inject env idx" None] tx text_ok_mapped [OF st(4)] env rw st(3)
    by (simp add: env_ok_def)
  with e(1) l(1) env rw st have "fault_region env fr m r idx = (FaultHandled, m3, r2)"
    by (simp add: fault_region_def Let_def env_ok_def)
  with l(2,4) same_view_trans [OF e(3) l(3)] show ?thesis by blast
qed

section \<open>Bounds under any host failure\<close>

definition env_bounded :: "pager_env \<Rightarrow> nat \<Rightarrow> bool" where
  "env_bounded env ps \<longleftrightarrow> (\<forall>i. pe_pwrite env i \<le> ps \<and> (case pe_pread env i of None \<Rightarrow> True | Some n \<Rightarrow> n \<le> ps))"

lemma evict_page_wf:
  assumes wf: "region_wf r" and i: "i < mr_page_count r" "mr_resident r ! i" and ev: "evict_page env fr m r i = (ok, m', r')"
  shows "region_wf r' \<and> static_eq r r' \<and> (ok \<longrightarrow> mr_resident_count r' < mr_resident_count r)"
proof -
  have len: "length (mr_backing r i) = mr_page_size r" "length (mr_resident r) = mr_page_count r"
    using wf i by (simp_all add: region_wf_def)
  have pos: "0 < mr_resident_count r"
    using wf i len nth_mem [of i "mr_resident r"] by (auto simp: region_wf_def filter_empty_conv)
  note cu = count_update [of i "mr_resident r" False]
  define bk where "bk = (mr_backing r)(i := take (pe_pwrite env i) (vm_read m (page_addr r i) (mr_page_size r)) @
      drop (pe_pwrite env i) (mr_backing r i))"
  let ?r1 = "r\<lparr>mr_backing := bk\<rparr>"
  let ?r2 = "?r1\<lparr>mr_dirty_page_outs := mr_dirty_page_outs r + 1, mr_bytes_out := mr_bytes_out r + mr_page_size r\<rparr>"
  let ?r3 = "?r2\<lparr>mr_resident := (mr_resident r)[i := False], mr_resident_count := mr_resident_count r - 1,
      mr_page_outs := mr_page_outs r + 1\<rparr>"
  have cases: "r' = r \<and> \<not> ok \<or> r' = ?r1 \<and> \<not> ok \<or> r' = ?r2 \<and> \<not> ok \<or> r' = ?r3"
    using ev by (auto simp: evict_page_def Let_def bk_def split: if_splits prod.splits)
  have wf1: "region_wf ?r1" if "length (vm_read m (page_addr r i) (mr_page_size r)) = mr_page_size r"
    using wf len that by (simp add: region_wf_def bk_def min_def)
  then have wf2: "region_wf ?r2" if "length (vm_read m (page_addr r i) (mr_page_size r)) = mr_page_size r"
    using that by (simp add: region_wf_def)
  have wf3: "region_wf ?r3" if "length (vm_read m (page_addr r i) (mr_page_size r)) = mr_page_size r"
    using wf2 [OF that] i len pos cu by (auto simp: region_wf_def nth_list_update)
  have st: "static_eq r r" "static_eq r ?r1" "static_eq r ?r2" "static_eq r ?r3" by (simp_all add: static_eq_def)
  have lt: "mr_resident_count ?r3 < mr_resident_count r" using pos by simp
  show ?thesis
  proof (cases "length (vm_read m (page_addr r i) (mr_page_size r)) = mr_page_size r")
    case True
    from cases wf wf1 [OF True] wf2 [OF True] wf3 [OF True] st lt show ?thesis by (elim disjE conjE) (simp_all only: simp_thms)
  next
    case False
    then have "r' = r \<and> \<not> ok" using ev by (auto simp: evict_page_def Let_def split: if_splits)
    with wf st show ?thesis by simp
  qed
qed

lemma hand_wf: "region_wf (r\<lparr>mr_clock_hand := h\<rparr>) = region_wf r" "static_eq (r\<lparr>mr_clock_hand := h\<rparr>) r' = static_eq r r'"
  by (simp_all add: region_wf_def static_eq_def)

lemma static_eq_trans: "static_eq a b \<Longrightarrow> static_eq b c \<Longrightarrow> static_eq a c"
  by (simp add: static_eq_def)

lemma evict_scan_wf:
  "region_wf r \<Longrightarrow> 0 < mr_page_count r \<Longrightarrow> evict_scan env fr n m r avoid = (ok, m', r') \<Longrightarrow>
   region_wf r' \<and> static_eq r r' \<and> (ok \<longrightarrow> mr_resident_count r' < mr_resident_count r)"
proof (induction env fr n m r avoid rule: evict_scan.induct)
  case (1 env fr m r avoid)
  then show ?case by (simp add: static_eq_def)
next
  case (2 env fr n m r avoid)
  let ?idx = "mr_clock_hand r mod mr_page_count r"
  let ?r = "r\<lparr>mr_clock_hand := mr_clock_hand r + 1\<rparr>"
  show ?case
  proof (cases "?idx = avoid \<or> \<not> mr_resident ?r ! ?idx")
    case True
    with "2.prems"(3) have "evict_scan env fr n m ?r avoid = (ok, m', r')" by (simp add: Let_def)
    from "2.IH" [OF refl refl True _ _ this] "2.prems"(1,2) show ?thesis by (simp add: hand_wf)
  next
    case False
    with "2.prems"(3) have "evict_page env fr m ?r ?idx = (ok, m', r')" by (auto simp: Let_def)
    from evict_page_wf [OF _ _ _ this] "2.prems"(1,2) False show ?thesis by (simp add: hand_wf)
  qed
qed

lemma evict_until_wf:
  "region_wf r \<Longrightarrow> 0 < mr_page_count r \<Longrightarrow> evict_until env fr m r avoid = (ok, m', r') \<Longrightarrow>
   region_wf r' \<and> static_eq r r' \<and> (ok \<longrightarrow> mr_resident_count r' < mr_resident_limit r')"
proof (induction env fr m r avoid rule: evict_until.induct)
  case (1 env fr m r avoid)
  show ?case
  proof (cases "mr_resident_limit r \<le> mr_resident_count r")
    case False
    with 1(4) have "ok" "r' = r" by (subst (asm) evict_until.simps; simp)+
    with 1(2) False show ?thesis by (simp add: static_eq_def)
  next
    case True
    obtain ok1 m1 r1 where e: "evict_one_managed_trace_page env fr m r avoid = (ok1, m1, r1)"
      by (metis prod_cases3)
    have w1: "region_wf r1 \<and> static_eq r r1"
      using e 1(2,3) evict_scan_wf [of r env fr "2 * mr_page_count r" m avoid ok1 m1 r1]
      by (auto simp: evict_one_managed_trace_page_def static_eq_def split: if_splits)
    show ?thesis
    proof (cases ok1)
      case False
      with 1(4) True e have "\<not> ok" "r' = r1" by (subst (asm) evict_until.simps; simp)+
      with w1 show ?thesis by simp
    next
      case ok1: True
      with 1(4) True e have u: "evict_until env fr m1 r1 avoid = (ok, m', r')"
        by (subst (asm) evict_until.simps) simp
      have "0 < mr_page_count r1" using w1 1(3) by (simp add: static_eq_def)
      from 1(1) [OF True e [symmetric] refl ok1 _ this u] w1 show ?thesis
        by (blast intro: static_eq_trans)
    qed
  qed
qed

lemma load_page_wf:
  assumes wf: "region_wf r" and i: "i < mr_page_count r" and room: "mr_resident_count r < mr_resident_limit r"
    and ld: "load_page env m r i = (ok, m', r')"
  shows "region_wf r' \<and> static_eq r r'"
proof (cases "r' = r")
  case True
  with wf show ?thesis by (simp add: static_eq_def)
next
  case False
  with ld have nr: "\<not> mr_resident r ! i" by (auto simp: load_page_def split: if_splits)
  from False ld have r': "r' = r\<lparr>mr_resident := (mr_resident r)[i := True],
      mr_ever_loaded := (mr_ever_loaded r)[i := True], mr_resident_count := mr_resident_count r + 1,
      mr_max_resident_count := max (mr_max_resident_count r) (mr_resident_count r + 1),
      mr_page_ins := mr_page_ins r + 1, mr_bytes_in := mr_bytes_in r + mr_page_size r\<rparr>"
    by (auto simp: load_page_def Let_def case_prod_unfold split: if_splits option.splits)
  show ?thesis
    using wf i nr room count_update [of i "mr_resident r" True]
    by (auto simp: r' region_wf_def static_eq_def nth_list_update)
qed

lemma fault_region_wf:
  assumes wf: "region_wf r" and i: "i < mr_page_count r" and f: "fault_region env fr m r i = (res, m', r')"
  shows "region_wf r' \<and> static_eq r r'"
proof -
  obtain ok m1 r1 where e: "evict_until env fr m r i = (ok, m1, r1)" by (metis prod_cases3)
  have pc: "0 < mr_page_count r" using i by simp
  note w = evict_until_wf [OF wf pc e]
  show ?thesis
  proof (cases "ok")
    case False
    with f e w show ?thesis by (simp add: fault_region_def)
  next
    case True
    obtain m2 ir where inj: "mprotect_tracee (pe_inject env i) fr (page_addr r1 i) (mr_page_size r1) (mr_prot r1) m1 = (ir, m2)"
      by fastforce
    obtain ok2 m3 r2 where l: "load_page env m2 r1 i = (ok2, m3, r2)" by (metis prod_cases3)
    have i1: "i < mr_page_count r1" using w i by (simp add: static_eq_def)
    note lw = load_page_wf [OF w [THEN conjunct1] i1 _ l]
    have "r' = r1 \<or> r' = r2"
      using f e True inj l by (auto simp: fault_region_def Let_def split: if_splits)
    with w lw True show ?thesis by (blast intro: static_eq_trans)
  qed
qed

end
