(* ===== verification/Pager_Theorems.thy ===== *)
theory Pager_Theorems
  imports Pager_Refinement
begin

text \<open>The properties of the transparent pager.\<close>

lemma find_region_from_Some:
  "find_region_from k l addr = Some (i, idx) \<Longrightarrow>
   k \<le> i \<and> i - k < length l \<and> idx < mr_page_count (l ! (i - k)) \<and> mr_active (l ! (i - k)) \<and>
   mr_base (l ! (i - k)) \<le> addr \<and> idx = unat (addr - mr_base (l ! (i - k))) div mr_page_size (l ! (i - k))"
proof (induction k l addr rule: find_region_from.induct)
  case (2 k r rs addr)
  show ?case
  proof (cases "mr_active r \<and> mr_base r \<le> addr \<and> addr < mr_base r + mr_length r")
    case True
    with 2(3) show ?thesis by (auto simp: Let_def split: if_splits)
  next
    case False
    with 2(3) have "find_region_from (Suc k) rs addr = Some (i, idx)" by (auto split: if_splits)
    with 2(1,2) False have "Suc k \<le> i \<and> i - Suc k < length rs \<and> idx < mr_page_count (rs ! (i - Suc k)) \<and>
        mr_active (rs ! (i - Suc k)) \<and> mr_base (rs ! (i - Suc k)) \<le> addr \<and>
        idx = unat (addr - mr_base (rs ! (i - Suc k))) div mr_page_size (rs ! (i - Suc k))"
      by blast
    moreover from this have "(r # rs) ! (i - k) = rs ! (i - Suc k)" by (simp add: nth_Cons')
    ultimately show ?thesis by auto
  qed
qed simp

lemma find_managed_Some:
  "find_managed_region_for_addr (Some l) addr = Some (i, idx) \<Longrightarrow>
   i < length l \<and> idx < mr_page_count (l ! i) \<and> mr_active (l ! i)"
  using find_region_from_Some [of 0 l addr i idx] by (simp add: find_managed_region_for_addr_def)


text \<open>C20. Whatever the host does (failed allocations, short reads and writes, a refused
  \<open>mprotect\<close>), a fault keeps the residency counter equal to the number of resident pages, and
  neither it nor its maximum exceeds the resident limit.\<close>

theorem resident_bound_under_failures:
  assumes "find_managed_region_for_addr (Some l) addr = Some (i, idx)" "region_wf (l ! i)"
    and "handle_managed_memory_fault env fr m (Some l) addr = (res, m', Some l')"
  shows "region_wf (l' ! i) \<and> mr_resident_limit (l' ! i) = mr_resident_limit (l ! i)"
proof -
  obtain r m1 r1 where f: "fault_region env fr m (l ! i) idx = (r, m1, r1)" by (metis prod_cases3)
  note s = find_managed_Some [OF assms(1)]
  from assms(1,3) f s have "l' ! i = r1" by (auto simp: handle_managed_memory_fault_def)
  with fault_region_wf [OF assms(2) _ f] s show ?thesis by (auto simp: static_eq_def)
qed

section \<open>A small region\<close>

abbreviation demo_cfg :: pager_config where
  "demo_cfg \<equiv> \<lparr>pg_enabled = True, pg_min_request = 4, pg_max_region = 0, pg_resident_pages = 1\<rparr>"

abbreviation demo_region :: "u64 \<Rightarrow> managed_region" where
  "demo_region \<equiv> new_region demo_cfg 4 4096 8"

abbreviation demo_mem :: vmem where
  "demo_mem \<equiv> \<lparr>vm_byte = (\<lambda>_. NUL), vm_mapped = (\<lambda>_. True),
    vm_r = (\<lambda>x. \<not> in_range 4096 8 x), vm_w = (\<lambda>_. False)\<rparr>"

abbreviation demo_fault :: regs where
  "demo_fault \<equiv> \<lparr>rg = (\<lambda>_. 0), rg_sp = 0, rg_pc = 512\<rparr>"

abbreviation demo_env :: pager_env where
  "demo_env \<equiv> \<lparr>pe_alloc = (\<lambda>_. True), pe_pwrite = (\<lambda>_. 4), pe_pread = (\<lambda>_. Some 4),
    pe_inject = (\<lambda>_. mprotect_host None), pe_setregs_ok = True\<rparr>"

lemma demo_pages: "round_pages 8 4 = 2" "replicate 2 False = [False, False]"
  by (simp add: round_pages_def) (simp add: eval_nat_numeral)

lemma demo_region_simps:
  "mr_active (demo_region p)" "mr_base (demo_region p) = 4096" "mr_length (demo_region p) = 8"
  "mr_page_size (demo_region p) = 4" "mr_page_count (demo_region p) = 2" "mr_resident_limit (demo_region p) = 1"
  "mr_resident (demo_region p) = [False, False]" "mr_ever_loaded (demo_region p) = [False, False]"
  "mr_resident_count (demo_region p) = 0" "mr_max_resident_count (demo_region p) = 0"
  "length (mr_backing (demo_region p) i) = 4"
  "mr_prot (demo_region p) = (if p \<noteq> 0 then p else PROT_READ OR PROT_WRITE)"
  by (simp_all add: new_region_def demo_pages region_zero_def Let_def)

lemma demo_wf: "region_wf (demo_region p)"
  by (auto simp: region_wf_def demo_region_simps less_2_cases_iff)


lemma demo_find: "find_managed_region_for_addr (Some [demo_region p]) 4101 = Some (0, 1)"
  by (simp add: find_managed_region_for_addr_def demo_region_simps)

lemma demo_text: "text_ok demo_mem 512"
  by (simp add: text_ok_def insn_addr_def word_mapped_def)


theorem resident_bound_under_failures_witness:
  "\<exists>l'. snd (snd (handle_managed_memory_fault (demo_env\<lparr>pe_alloc := (\<lambda>_. False)\<rparr>) demo_fault demo_mem
            (Some [demo_region 3]) 4101)) = Some l' \<and>
     region_wf (l' ! 0) \<and> mr_resident_limit (l' ! 0) = 1"
proof -
  let ?env = "demo_env\<lparr>pe_alloc := (\<lambda>_. False)\<rparr>"
  obtain r m1 r1 where f: "fault_region ?env demo_fault demo_mem (demo_region 3) 1 = (r, m1, r1)" by (metis prod_cases3)
  have "handle_managed_memory_fault ?env demo_fault demo_mem (Some [demo_region 3]) 4101 = (r, m1, Some [r1])"
    using f by (simp add: handle_managed_memory_fault_def demo_find)
  with resident_bound_under_failures [OF demo_find _ this] show ?thesis
    by (simp add: demo_wf demo_region_simps)
qed

text \<open>
  A read-only anonymous mapping passes the admission test of the pager, but its first
  fault is never served: the page is made accessible with the program's own protection, and
  the copy-in through \<open>process_vm_writev\<close> then needs a writable page.\<close>

theorem read_only_mapping_never_served:
  assumes "region_wf r" "mr_resident_count r = 0" "mr_prot r AND PROT_WRITE = 0" "idx < mr_page_count r"
    and "text_ok m (rg_pc fr)" "ie_call (pe_inject env idx) = mprotect_call err"
  shows "fst (fault_region env fr m r idx) = FaultFailed"
proof -
  have ev: "evict_until env fr m r idx = (True, m, r)"
    using assms(1,2) by (subst evict_until.simps) (simp add: region_wf_def)
  have nres: "\<not> mr_resident r ! idx"
  proof
    assume t: "mr_resident r ! idx"
    have "length (filter id (mr_resident r)) = 0" "idx < length (mr_resident r)"
      using assms(1,2,4) by (simp_all only: region_wf_def)
    then show False using t nth_mem [of idx "mr_resident r"] by (auto simp: filter_empty_conv)
  qed
  have bl: "length (mr_backing r idx) = mr_page_size r" "0 < mr_page_size r" "mr_page_size r < 2 ^ 64"
    using assms(1,4) by (simp_all add: region_wf_def)
  let ?m = "\<lambda>b. vm_protect m (page_addr r idx) (mr_page_size r) b False"
  have "\<not> fst (load_page env (?m b) r idx)" for b
  proof -
    have "in_range (page_addr r idx) (mr_page_size r) (page_addr r idx)" using bl(2) by (simp add: in_range_def)
    then have now: "\<not> vm_w (?m b) (page_addr r idx)" by (simp add: vm_protect_def)
    have "vm_write (?m b) (page_addr r idx) buf = (?m b, 0)" if "length buf = mr_page_size r" for buf
      using that bl(2) by (intro vm_write_none [OF _ now]) auto
    with nres bl show ?thesis
      by (auto simp: load_page_def Let_def split: option.splits)
  qed
  note ld = this
  let ?b = "mr_prot r AND PROT_READ \<noteq> 0"
  obtain res m2 where inj: "mprotect_tracee (pe_inject env idx) fr (page_addr r idx) (mr_page_size r) (mr_prot r) m = (res, m2)"
    by fastforce
  have served: "res = Some 0 \<Longrightarrow> m2 = ?m ?b"
    using inj mprotect_tracee_call [OF assms(5,6) bl(3), of "page_addr r idx" "mr_prot r"] assms(3) neg_errno_nonzero
    by (auto split: if_splits option.splits)
  have eq: "fault_region env fr m r idx =
      (if res \<noteq> Some 0 then (FaultFailed, m2, r)
       else let (ok2, m3, r2) = load_page env m2 r idx
            in if \<not> ok2 \<or> \<not> pe_setregs_ok env then (FaultFailed, m3, r2) else (FaultHandled, m3, r2))"
    by (simp only: fault_region_def ev prod.case Let_def not_True_eq_False if_False inj)
  show ?thesis
  proof (cases "res = Some 0")
    case True
    with eq ld [of ?b] served [OF True] show ?thesis by (simp only: prod.case Let_def) (simp add: case_prod_unfold)
  next
    case False
    with eq show ?thesis by simp
  qed
qed

theorem read_only_mapping_never_served_witness:
  "(\<forall>ad. fst (managed_trace_is_candidate_mmap demo_cfg
          ((\<lambda>_. 0)(1 := 8, 2 := PROT_READ, 3 := MAP_PRIVATE OR MAP_ANONYMOUS, 4 := 0xffffffff)) ad)) \<and>
   fst (fault_region demo_env demo_fault demo_mem (demo_region PROT_READ) 1) = FaultFailed"
proof
  show "fst (fault_region demo_env demo_fault demo_mem (demo_region PROT_READ) 1) = FaultFailed"
    by (rule read_only_mapping_never_served)
       (simp_all add: demo_wf demo_region_simps demo_text mprotect_host_def mmap_consts)
qed (simp add: candidate_iff mmap_consts)

end
