(* ===== verification/Seccomp_Filter.thy ===== *)
theory Seccomp_Filter
  imports Syscall_Table
begin

text \<open>
  The selective seccomp filter: the classic BPF program
  \<open>install_selective_seccomp_trace_filter\<close> builds, the machine the kernel runs it on (the three
  instruction forms the program uses), and the table it implements. The accumulator and the
  fields of \<open>seccomp_data\<close> are 32-bit words.
\<close>

section \<open>The machine\<close>

datatype sock_filter =
    LdAbs u32
  | JeqK u32 nat nat
  | RetK u32

definition SECCOMP_RET_ALLOW :: u32 where "SECCOMP_RET_ALLOW = 0x7fff0000"
definition SECCOMP_RET_TRACE :: u32 where "SECCOMP_RET_TRACE = 0x7ff00000"
definition SECCOMP_RET_ERRNO :: u32 where "SECCOMP_RET_ERRNO = 0x00050000"
definition SECCOMP_RET_DATA :: u32 where "SECCOMP_RET_DATA = 0x0000ffff"
definition AUDIT_ARCH_AARCH64 :: u32 where "AUDIT_ARCH_AARCH64 = 0xC00000B7"

lemmas seccomp_consts = SECCOMP_RET_ALLOW_def SECCOMP_RET_TRACE_def SECCOMP_RET_ERRNO_def
  SECCOMP_RET_DATA_def AUDIT_ARCH_AARCH64_def

record seccomp_data =
  sd_nr :: u32
  sd_arch :: u32

text \<open>Loads at the offsets of \<open>nr\<close> (0) and \<open>arch\<close> (4); other offsets are not used.\<close>

definition sd_load :: "seccomp_data \<Rightarrow> u32 \<Rightarrow> u32 option" where
  "sd_load d k = (if k = 0 then Some (sd_nr d) else if k = 4 then Some (sd_arch d) else None)"

text \<open>\<open>None\<close>: the program runs off its end or loads an unknown field.\<close>

function bpf_run :: "sock_filter list \<Rightarrow> seccomp_data \<Rightarrow> u32 \<Rightarrow> u32 option" where
  "bpf_run [] d acc = None"
| "bpf_run (LdAbs k # r) d acc =
     (case sd_load d k of None \<Rightarrow> None | Some v \<Rightarrow> bpf_run r d v)"
| "bpf_run (JeqK k jt jf # r) d acc = bpf_run (drop (if acc = k then jt else jf) r) d acc"
| "bpf_run (RetK k # r) d acc = Some k"
  by pat_completeness auto
termination
  by (relation "measure (\<lambda>(p, d, acc). length p)") auto

section \<open>The program\<close>

definition add_trace_syscall :: "u32 \<Rightarrow> sock_filter list" where
  "add_trace_syscall nr = [JeqK nr 0 1, RetK SECCOMP_RET_TRACE]"

definition add_errno_syscall :: "u32 \<Rightarrow> errno \<Rightarrow> sock_filter list" where
  "add_errno_syscall nr err =
     [JeqK nr 0 1, RetK (SECCOMP_RET_ERRNO OR (of_nat (errno_code err) AND SECCOMP_RET_DATA))]"

text \<open>The blocks of the builder, in its order.\<close>

definition selective_filter :: "bool \<Rightarrow> bool \<Rightarrow> bool \<Rightarrow> sock_filter list" where
  "selective_filter trace_stat_paths trace_memory memory_guard =
     [LdAbs 4, JeqK AUDIT_ARCH_AARCH64 1 0, RetK SECCOMP_RET_ALLOW, LdAbs 0]
     @ concat (map add_trace_syscall
         [5, 6, 8, 9, 11, 12, 14, 15, 17, 33, 34, 35, 36, 37, 38, 43, 48, 49, 53, 54, 55, 56, 78])
     @ (if trace_stat_paths then add_trace_syscall 79 @ add_trace_syscall 291 else [])
     @ concat (map add_trace_syscall [88, 264, 276, 281, 437, 439])
     @ add_errno_syscall 99 ENOSYS
     @ concat (map add_trace_syscall
         [143, 144, 145, 146, 147, 148, 149, 150, 151, 152, 159, 174, 175, 176, 177, 200, 203, 221])
     @ concat (map (\<lambda>nr. add_errno_syscall nr ENOSYS)
         [293, 235, 236, 237, 238, 239, 425, 426, 427, 435, 436, 450])
     @ (if trace_memory \<or> memory_guard
        then concat (map add_trace_syscall [214, 215, 216, 222, 226, 233]) else [])
     @ [RetK SECCOMP_RET_ALLOW]"

section \<open>The table it implements\<close>

datatype verdict = Allow | Trace | Fail errno

definition verdict_word :: "verdict \<Rightarrow> u32" where
  "verdict_word v = (case v of
      Allow \<Rightarrow> SECCOMP_RET_ALLOW
    | Trace \<Rightarrow> SECCOMP_RET_TRACE
    | Fail e \<Rightarrow> SECCOMP_RET_ERRNO OR (of_nat (errno_code e) AND SECCOMP_RET_DATA))"

definition rule_stmts :: "u32 \<times> verdict \<Rightarrow> sock_filter list" where
  "rule_stmts r = [JeqK (fst r) 0 1, RetK (verdict_word (snd r))]"

lemma rules_run:
  "bpf_run (concat (map rule_stmts rules) @ rest) d nr =
     (case map_of rules nr of Some v \<Rightarrow> Some (verdict_word v) | None \<Rightarrow> bpf_run rest d nr)"
proof (induction rules)
  case (Cons r rules)
  obtain k v where "r = (k, v)" by fastforce
  with Cons show ?case by (simp add: rule_stmts_def)
qed simp

definition file_numbers :: "int list" where
  "file_numbers = [5, 6, 8, 9, 11, 12, 14, 15, 17, 33, 34, 35, 36, 37, 38, 43, 48, 49, 53, 54, 55, 56, 78]"

definition stat_numbers :: "int list" where
  "stat_numbers = [79, 291]"

definition late_file_numbers :: "int list" where
  "late_file_numbers = [88, 264, 276, 281, 437, 439]"

definition startup_numbers :: "int list" where
  "startup_numbers =
     [143, 144, 145, 146, 147, 148, 149, 150, 151, 152, 159, 174, 175, 176, 177, 200, 203, 221]"

definition failed_numbers :: "int list" where
  "failed_numbers = [293, 235, 236, 237, 238, 239, 425, 426, 427, 435, 436, 450]"

definition memory_numbers :: "int list" where
  "memory_numbers = [214, 215, 216, 222, 226, 233]"

lemmas filter_numbers = file_numbers_def stat_numbers_def late_file_numbers_def startup_numbers_def
  failed_numbers_def memory_numbers_def

definition filter_verdict :: "bool \<Rightarrow> bool \<Rightarrow> bool \<Rightarrow> int \<Rightarrow> verdict" where
  "filter_verdict stat_paths mem guard nr =
     (if nr \<in> set file_numbers \<or> (stat_paths \<and> nr \<in> set stat_numbers) \<or> nr \<in> set late_file_numbers
         \<or> nr \<in> set startup_numbers \<or> ((mem \<or> guard) \<and> nr \<in> set memory_numbers) then Trace
      else if nr = 99 \<or> nr \<in> set failed_numbers then Fail ENOSYS else Allow)"

definition filter_rules :: "bool \<Rightarrow> bool \<Rightarrow> bool \<Rightarrow> (u32 \<times> verdict) list" where
  "filter_rules stat_paths mem guard =
     map (\<lambda>nr. (nr, Trace)) (map of_int file_numbers)
     @ map (\<lambda>nr. (nr, Trace)) (map of_int (if stat_paths then stat_numbers else []))
     @ map (\<lambda>nr. (nr, Trace)) (map of_int late_file_numbers)
     @ map (\<lambda>nr. (nr, Fail ENOSYS)) (map of_int [99])
     @ map (\<lambda>nr. (nr, Trace)) (map of_int startup_numbers)
     @ map (\<lambda>nr. (nr, Fail ENOSYS)) (map of_int failed_numbers)
     @ map (\<lambda>nr. (nr, Trace)) (map of_int (if mem \<or> guard then memory_numbers else []))"

lemma rule_stmts_Trace: "map rule_stmts (map (\<lambda>nr. (nr, Trace)) xs) = map add_trace_syscall xs"
  by (simp add: rule_stmts_def add_trace_syscall_def verdict_word_def)

lemma rule_stmts_Fail: "map rule_stmts (map (\<lambda>nr. (nr, Fail e)) xs) = map (\<lambda>nr. add_errno_syscall nr e) xs"
  by (simp add: rule_stmts_def add_errno_syscall_def verdict_word_def)

lemma filter_is_rules:
  "selective_filter s m g =
     [LdAbs 4, JeqK AUDIT_ARCH_AARCH64 1 0, RetK SECCOMP_RET_ALLOW, LdAbs 0]
     @ concat (map rule_stmts (filter_rules s m g)) @ [RetK SECCOMP_RET_ALLOW]"
proof -
  have 1: "map of_int file_numbers =
      [5 :: u32, 6, 8, 9, 11, 12, 14, 15, 17, 33, 34, 35, 36, 37, 38, 43, 48, 49, 53, 54, 55, 56, 78]"
    by (simp add: filter_numbers)
  have 2: "map of_int late_file_numbers = [88 :: u32, 264, 276, 281, 437, 439]"
    by (simp add: filter_numbers)
  have 3: "map of_int startup_numbers =
      [143 :: u32, 144, 145, 146, 147, 148, 149, 150, 151, 152, 159, 174, 175, 176, 177, 200, 203, 221]"
    by (simp add: filter_numbers)
  have 4: "map of_int failed_numbers =
      [293 :: u32, 235, 236, 237, 238, 239, 425, 426, 427, 435, 436, 450]"
    by (simp add: filter_numbers)
  have 5: "concat (map add_trace_syscall (map of_int (if m \<or> g then memory_numbers else []))) =
      (if m \<or> g then concat (map add_trace_syscall [214, 215, 216, 222, 226, 233]) else [])"
    by (simp add: filter_numbers)
  have 6: "concat (map add_trace_syscall (map of_int (if s then stat_numbers else []))) =
      (if s then add_trace_syscall 79 @ add_trace_syscall 291 else [])"
    by (simp add: filter_numbers)
  have 7: "concat (map (\<lambda>nr. add_errno_syscall nr ENOSYS) (map of_int [99])) = add_errno_syscall 99 ENOSYS"
    by simp
  show ?thesis
    unfolding filter_rules_def selective_filter_def map_append concat_append rule_stmts_Trace
      rule_stmts_Fail 5 6 7 unfolding 1 2 3 4 append_assoc ..
qed

lemma filter_run:
  "bpf_run (selective_filter s m g) d acc =
     Some (if sd_arch d = AUDIT_ARCH_AARCH64
           then verdict_word (case map_of (filter_rules s m g) (sd_nr d) of Some v \<Rightarrow> v | None \<Rightarrow> Allow)
           else SECCOMP_RET_ALLOW)"
proof (cases "sd_arch d = AUDIT_ARCH_AARCH64")
  case True
  have "bpf_run (selective_filter s m g) d acc =
      bpf_run (concat (map rule_stmts (filter_rules s m g)) @ [RetK SECCOMP_RET_ALLOW]) d (sd_nr d)"
    unfolding filter_is_rules by (simp add: sd_load_def True)
  then show ?thesis unfolding rules_run using True
    by (simp add: verdict_word_def split: option.splits)
next
  case False
  then show ?thesis unfolding filter_is_rules by (simp add: sd_load_def)
qed

lemma map_of_const: "map_of (map (\<lambda>x. (x, v)) xs) k = (if k \<in> set xs then Some v else None)"
  by (induction xs) auto

lemma mem_of_int:
  "\<forall>k \<in> set ks. 0 \<le> k \<and> k < 2 ^ 32 \<Longrightarrow> (nr :: u32) \<in> set (map of_int ks) \<longleftrightarrow> uint nr \<in> set ks"
proof -
  assume r: "\<forall>k \<in> set ks. 0 \<le> k \<and> k < 2 ^ 32"
  have "nr = of_int k \<longleftrightarrow> uint nr = k" if "k \<in> set ks" for k
  proof -
    have "uint (of_int k :: u32) = k" using r that by (simp add: uint_word_of_int)
    then show ?thesis by (metis word_of_int_uint)
  qed
  then show ?thesis unfolding set_map by (metis (no_types, lifting) image_iff)
qed

lemma map_of_ints:
  "\<forall>k \<in> set ks. 0 \<le> k \<and> k < 2 ^ 32 \<Longrightarrow>
   map_of (map (\<lambda>x. (x, v)) (map of_int ks)) (nr :: u32) = (if uint nr \<in> set ks then Some v else None)"
  unfolding map_of_const by (subst mem_of_int) simp_all

lemma rules_verdict:
  "(case map_of (filter_rules s m g) nr of Some v \<Rightarrow> v | None \<Rightarrow> Allow) = filter_verdict s m g (uint nr)"
proof -
  have r: "\<forall>k \<in> set file_numbers. 0 \<le> k \<and> k < 2 ^ 32"
    "\<forall>k \<in> set (if s then stat_numbers else []). 0 \<le> k \<and> k < 2 ^ 32"
    "\<forall>k \<in> set late_file_numbers. 0 \<le> k \<and> k < 2 ^ 32" "\<forall>k \<in> set [99 :: int]. 0 \<le> k \<and> k < 2 ^ 32"
    "\<forall>k \<in> set startup_numbers. 0 \<le> k \<and> k < 2 ^ 32" "\<forall>k \<in> set failed_numbers. 0 \<le> k \<and> k < 2 ^ 32"
    "\<forall>k \<in> set (if m \<or> g then memory_numbers else []). 0 \<le> k \<and> k < 2 ^ 32"
    by (auto simp: filter_numbers)
  have disj: "\<not> (k \<in> set failed_numbers \<and> k \<in> set memory_numbers)" "k = 99 \<Longrightarrow> k \<notin> set startup_numbers"
    "k = 99 \<Longrightarrow> k \<notin> set memory_numbers" for k
    by (auto simp: filter_numbers)
  have mem: "uint nr \<in> set (if m \<or> g then memory_numbers else []) \<longleftrightarrow> (m \<or> g) \<and> uint nr \<in> set memory_numbers"
    "uint nr \<in> set (if s then stat_numbers else []) \<longleftrightarrow> s \<and> uint nr \<in> set stat_numbers"
    by simp_all
  show ?thesis
    unfolding filter_rules_def filter_verdict_def map_of_append map_add_def
      map_of_ints [OF r(1)] map_of_ints [OF r(2)] map_of_ints [OF r(3)] map_of_ints [OF r(4)]
      map_of_ints [OF r(5)] map_of_ints [OF r(6)] map_of_ints [OF r(7)] mem
    using disj [of "uint nr"] by (auto split: option.splits if_splits)
qed

text \<open>The program fits its array and never runs off its end.\<close>

lemma filter_length: "length (selective_filter s m g) \<le> 192"
  by (simp add: selective_filter_def add_trace_syscall_def add_errno_syscall_def)

text \<open>The calls the tracer interposes on that the filter does not stop.\<close>

lemma interposed_untraced:
  "{nr. entry_interposes nr \<and> filter_verdict True m g nr \<noteq> Trace} =
     {57} \<union> {99, 293, 235, 236, 237, 238, 239, 425, 426, 427, 450}"
  (is "?l = ?r")
proof (intro set_eqI iffI)
  fix nr
  assume "nr \<in> ?l"
  then show "nr \<in> ?r"
    unfolding interposed_list by (auto simp: filter_verdict_def filter_numbers)
next
  fix nr
  assume "nr \<in> ?r"
  then show "nr \<in> ?l"
    unfolding interposed_list by (auto simp: filter_verdict_def filter_numbers)
qed

end
