(* ===== verification/Slot_Registry.thy ===== *)
theory Slot_Registry
  imports Prelude
begin

text \<open>
  Fixed tables of slots scanned from the front, as the C code keeps its tracees and its
  pseudo-terminals: the first slot that satisfies a predicate, and the contract of such a
  table as a finite map (locale \<open>registry\<close>): a sequence of insertions and deletions leaves the
  map the same sequence of map updates gives.
\<close>

fun first_slot :: "('a \<Rightarrow> bool) \<Rightarrow> 'a list \<Rightarrow> nat option" where
  "first_slot P [] = None"
| "first_slot P (x # xs) = (if P x then Some 0 else map_option Suc (first_slot P xs))"

lemma first_slot_None: "first_slot P xs = None \<longleftrightarrow> (\<forall>x \<in> set xs. \<not> P x)"
  by (induction xs) auto

lemma first_slot_Some:
  "first_slot P xs = Some i \<Longrightarrow> i < length xs \<and> P (xs ! i) \<and> (\<forall>j < i. \<not> P (xs ! j))"
proof (induction xs arbitrary: i)
  case (Cons x xs)
  show ?case
  proof (cases "P x")
    case False
    with Cons.prems obtain k where k: "first_slot P xs = Some k" "i = Suc k" by auto
    with Cons.IH [OF k(1)] False show ?thesis by (auto simp: less_Suc_eq_0_disj)
  qed (use Cons.prems in simp)
qed simp

lemma first_slot_eqI: "i < length xs \<Longrightarrow> P (xs ! i) \<Longrightarrow> (\<And>j. j < i \<Longrightarrow> \<not> P (xs ! j)) \<Longrightarrow> first_slot P xs = Some i"
proof (induction xs arbitrary: i)
  case (Cons x xs)
  show ?case
  proof (cases i)
    case (Suc k)
    have "first_slot P xs = Some k"
      by (rule Cons.IH) (use Cons.prems(1,2) Suc Cons.prems(3) [of "Suc _"] in auto)
    moreover have "\<not> P x" using Cons.prems(3) [of 0] Suc by simp
    ultimately show ?thesis using Suc by simp
  qed (use Cons.prems in auto)
qed simp

datatype ('k, 'v) reg_op = RegInsert 'k 'v | RegDelete 'k

fun map_op :: "('k, 'v) reg_op \<Rightarrow> ('k \<rightharpoonup> 'v) \<Rightarrow> ('k \<rightharpoonup> 'v)" where
  "map_op (RegInsert k v) m = m(k \<mapsto> v)"
| "map_op (RegDelete k) m = m(k := None)"

locale registry =
  fixes lookup :: "'t \<Rightarrow> 'k \<Rightarrow> 'v option"
    and insert :: "'t \<Rightarrow> 'k \<Rightarrow> 'v \<Rightarrow> 't option"
    and delete :: "'t \<Rightarrow> 'k \<Rightarrow> 't"
    and inv :: "'t \<Rightarrow> bool"
    and entry_ok :: "'k \<Rightarrow> 'v \<Rightarrow> bool"
  assumes lookup_insert: "inv t \<Longrightarrow> entry_ok k v \<Longrightarrow> lookup t k = None \<Longrightarrow> insert t k v = Some t'
      \<Longrightarrow> lookup t' = (lookup t)(k \<mapsto> v)"
    and lookup_delete: "inv t \<Longrightarrow> entry_ok k v \<Longrightarrow> lookup (delete t k) = (lookup t)(k := None)"
    and inv_insert: "inv t \<Longrightarrow> entry_ok k v \<Longrightarrow> lookup t k = None \<Longrightarrow> insert t k v = Some t' \<Longrightarrow> inv t'"
    and inv_delete: "inv t \<Longrightarrow> entry_ok k v \<Longrightarrow> inv (delete t k)"
begin

fun run_ops :: "('k, 'v) reg_op list \<Rightarrow> 't \<Rightarrow> 't option" where
  "run_ops [] t = Some t"
| "run_ops (RegInsert k v # ops) t =
     (if lookup t k \<noteq> None then None
      else case insert t k v of None \<Rightarrow> None | Some t' \<Rightarrow> run_ops ops t')"
| "run_ops (RegDelete k # ops) t = run_ops ops (delete t k)"

fun op_ok :: "('k, 'v) reg_op \<Rightarrow> bool" where
  "op_ok (RegInsert k v) = entry_ok k v"
| "op_ok (RegDelete k) = (\<exists>v. entry_ok k v)"

text \<open>The table refines the map: every history of accepted operations looks up like the map.\<close>

lemma refines_map:
  "run_ops ops t = Some t' \<Longrightarrow> inv t \<Longrightarrow> list_all op_ok ops \<Longrightarrow>
   inv t' \<and> lookup t' = fold map_op ops (lookup t)"
proof (induction ops t rule: run_ops.induct)
  case (2 k v ops t)
  then obtain t1 where t1: "lookup t k = None" "insert t k v = Some t1" "run_ops ops t1 = Some t'"
    by (auto split: if_splits option.splits)
  have ok: "entry_ok k v" "list_all op_ok ops" using "2.prems"(3) by simp_all
  have inv: "inv t1" by (rule inv_insert [OF "2.prems"(2) ok(1) t1(1,2)])
  have lk: "lookup t1 = (lookup t)(k \<mapsto> v)" by (rule lookup_insert [OF "2.prems"(2) ok(1) t1(1,2)])
  have "\<not> lookup t k \<noteq> None" using t1(1) by simp
  from "2.IH" [OF this t1(2,3) inv ok(2)] show ?case unfolding lk by (simp add: fun_upd_def)
next
  case (3 k ops t)
  then obtain v where v: "entry_ok k v" by auto
  have "run_ops ops (delete t k) = Some t'" using "3.prems"(1) by simp
  from "3.IH" [OF this inv_delete [OF "3.prems"(2) v]] "3.prems"(3) lookup_delete [OF "3.prems"(2) v]
  show ?case by (simp add: fun_upd_def)
qed simp

end

end
