(* ===== verification/Tracee_Table.thy ===== *)
theory Tracee_Table
  imports Slot_Registry Syscall_Table Tracee_Strings Managed_Pager Path_Cache
begin

text \<open>
  The tracees of the direct executor: \<open>TraceeState\<close>, the table of 128 slots, and the emulated
  credentials. A zeroed slot is inactive.
\<close>

section \<open>State\<close>

record tracee =
  ts_pid :: int
  ts_active :: bool
  ts_in_syscall :: bool
  ts_last_nr :: int
  ts_emulated_nr :: int
  ts_last_emulated_nr :: int
  ts_emulated_result :: u64
  ts_uid :: u64
  ts_euid :: u64
  ts_suid :: u64
  ts_gid :: u64
  ts_egid :: u64
  ts_sgid :: u64
  ts_last_args :: "nat \<Rightarrow> u64"
  ts_last_brk :: u64
  ts_managed_pending_len :: u64
  ts_managed_pending_prot :: u64
  ts_managed_pending_flags :: u64
  ts_pending_invalidation :: bool
  ts_exec_guest_path :: string
  ts_guest_cwd :: string
  ts_pending_guest_cwd :: string
  ts_regions :: "managed_region list option"

definition tracee_zero :: tracee where
  "tracee_zero =
     \<lparr>ts_pid = 0, ts_active = False, ts_in_syscall = False, ts_last_nr = 0, ts_emulated_nr = 0,
      ts_last_emulated_nr = 0, ts_emulated_result = 0, ts_uid = 0, ts_euid = 0, ts_suid = 0,
      ts_gid = 0, ts_egid = 0, ts_sgid = 0, ts_last_args = (\<lambda>_. 0), ts_last_brk = 0,
      ts_managed_pending_len = 0, ts_managed_pending_prot = 0, ts_managed_pending_flags = 0,
      ts_pending_invalidation = False, ts_exec_guest_path = [], ts_guest_cwd = [],
      ts_pending_guest_cwd = [], ts_regions = None\<rparr>"

definition MAX_TRACEES :: nat where
  "MAX_TRACEES = 128"

type_synonym tracees = "tracee list"

definition tracees_init :: tracees where
  "tracees_init = replicate MAX_TRACEES tracee_zero"

section \<open>The table\<close>

definition find_tracee :: "tracees \<Rightarrow> int \<Rightarrow> nat option" where
  "find_tracee ts pid = first_slot (\<lambda>t. ts_active t \<and> ts_pid t = pid) ts"

definition fresh_tracee :: "int \<Rightarrow> tracee" where
  "fresh_tracee pid =
     tracee_zero\<lparr>ts_pid := pid, ts_active := True, ts_last_nr := - 1, ts_emulated_nr := - 1,
                 ts_last_emulated_nr := - 1, ts_guest_cwd := ''/''\<rparr>"

text \<open>\<open>None\<close> is the NULL of an exhausted table.\<close>

definition add_tracee :: "tracees \<Rightarrow> int \<Rightarrow> nat option \<times> tracees" where
  "add_tracee ts pid =
     (case find_tracee ts pid of
        Some i \<Rightarrow> (Some i, ts)
      | None \<Rightarrow>
          (case first_slot (\<lambda>t. \<not> ts_active t) ts of
             None \<Rightarrow> (None, ts)
           | Some i \<Rightarrow> (Some i, ts[i := fresh_tracee pid])))"

definition remove_tracee :: "tracees \<Rightarrow> path_cache \<Rightarrow> int \<Rightarrow> tracees \<times> path_cache" where
  "remove_tracee ts pc pid =
     (case find_tracee ts pid of
        None \<Rightarrow> (ts, pc)
      | Some i \<Rightarrow>
          (ts[i := tracee_zero],
           if ts_pending_invalidation (ts ! i) then finish_path_cache_mutation pc else pc))"

definition tracee_count :: "tracees \<Rightarrow> nat" where
  "tracee_count ts = length (filter ts_active ts)"

text \<open>
  \<open>prune_dead_tracees\<close>: \<open>alive\<close> is \<open>kill (pid, 0)\<close> succeeding or failing with \<open>EPERM\<close>, \<open>owned\<close>
  is \<open>tracee_is_still_owned\<close>, \<open>gone\<close> is \<open>ESRCH\<close>.
\<close>

fun prune_dead_tracees :: "(int \<Rightarrow> bool) \<Rightarrow> (int \<Rightarrow> bool) \<Rightarrow> (int \<Rightarrow> bool) \<Rightarrow> tracees \<Rightarrow> nat \<times> tracees" where
  "prune_dead_tracees alive owned gone [] = (0, [])"
| "prune_dead_tracees alive owned gone (t # ts) =
     (let (n, ts') = prune_dead_tracees alive owned gone ts
      in if \<not> ts_active t then (n, t # ts')
         else if alive (ts_pid t) then
           (if owned (ts_pid t) then (Suc n, t # ts') else (n, tracee_zero # ts'))
         else if gone (ts_pid t) then (n, tracee_zero # ts')
         else (n, t # ts'))"

text \<open>\<open>tracee_is_still_owned\<close> over the lines of the status file: the parent or the tracer.\<close>

definition tracee_is_still_owned :: "(int \<times> int) option \<Rightarrow> int \<Rightarrow> bool" where
  "tracee_is_still_owned status tracer =
     (case status of None \<Rightarrow> False | Some (ppid, tracer_pid) \<Rightarrow> ppid = tracer \<or> tracer_pid = tracer)"

definition table_inv :: "tracees \<Rightarrow> bool" where
  "table_inv ts \<longleftrightarrow> (\<forall>i < length ts. \<forall>j < length ts.
     ts_active (ts ! i) \<and> ts_active (ts ! j) \<and> ts_pid (ts ! i) = ts_pid (ts ! j) \<longrightarrow> i = j)"

definition table_map :: "tracees \<Rightarrow> int \<Rightarrow> tracee option" where
  "table_map ts pid = map_option (\<lambda>i. ts ! i) (find_tracee ts pid)"

lemma table_invD:
  "table_inv ts \<Longrightarrow> i < length ts \<Longrightarrow> j < length ts \<Longrightarrow> ts_active (ts ! i) \<Longrightarrow> ts_active (ts ! j) \<Longrightarrow>
   ts_pid (ts ! i) = ts_pid (ts ! j) \<Longrightarrow> i = j"
  unfolding table_inv_def by blast

lemma find_tracee_iff:
  assumes "table_inv ts"
  shows "find_tracee ts pid = Some i \<longleftrightarrow> i < length ts \<and> ts_active (ts ! i) \<and> ts_pid (ts ! i) = pid"
proof
  assume "find_tracee ts pid = Some i"
  then show "i < length ts \<and> ts_active (ts ! i) \<and> ts_pid (ts ! i) = pid"
    using first_slot_Some unfolding find_tracee_def by fastforce
next
  assume i: "i < length ts \<and> ts_active (ts ! i) \<and> ts_pid (ts ! i) = pid"
  show "find_tracee ts pid = Some i"
    unfolding find_tracee_def
  proof (rule first_slot_eqI)
    fix j
    assume "j < i"
    with i table_invD [OF assms, of i j] show "\<not> (ts_active (ts ! j) \<and> ts_pid (ts ! j) = pid)" by auto
  qed (use i in auto)
qed

lemma table_map_Some:
  "table_inv ts \<Longrightarrow> table_map ts pid = Some t \<longleftrightarrow> (\<exists>i < length ts. ts ! i = t \<and> ts_active t \<and> ts_pid t = pid)"
  by (auto simp: table_map_def find_tracee_iff)

lemma table_map_None:
  "table_map ts pid = None \<longleftrightarrow> (\<forall>i < length ts. \<not> (ts_active (ts ! i) \<and> ts_pid (ts ! i) = pid))"
  by (auto simp: table_map_def find_tracee_def first_slot_None all_set_conv_all_nth)

lemma opt_map_eqI: "(\<And>k v. f k = Some v \<longleftrightarrow> g k = Some v) \<Longrightarrow> f = g"
  by (rule ext) (metis not_Some_eq)

abbreviation insert_tracee :: "tracees \<Rightarrow> int \<Rightarrow> tracee \<Rightarrow> tracees option" where
  "insert_tracee ts pid t \<equiv> (case add_tracee ts pid of (None, _) \<Rightarrow> None | (Some _, ts') \<Rightarrow> Some ts')"

abbreviation delete_tracee :: "tracees \<Rightarrow> int \<Rightarrow> tracees" where
  "delete_tracee ts pid \<equiv> fst (remove_tracee ts (path_cache_init True) pid)"

lemma fresh_simps [simp]: "ts_active (fresh_tracee p)" "ts_pid (fresh_tracee p) = p"
  by (simp_all add: fresh_tracee_def)

lemma zero_inactive [simp]: "\<not> ts_active tracee_zero"
  by (simp add: tracee_zero_def)

interpretation tt: registry table_map insert_tracee delete_tracee table_inv "\<lambda>pid t. t = fresh_tracee pid"
proof unfold_locales
  fix ts ts' :: tracees and pid :: int and t :: tracee
  assume inv: "table_inv ts" and t: "t = fresh_tracee pid" and new: "table_map ts pid = None"
    and ins: "insert_tracee ts pid t = Some ts'"
  have nf: "find_tracee ts pid = None" using new by (simp add: table_map_def)
  obtain i where i: "first_slot (\<lambda>t. \<not> ts_active t) ts = Some i" and ts': "ts' = ts[i := fresh_tracee pid]"
    using ins nf by (auto simp: add_tracee_def split: option.splits)
  note fs = first_slot_Some [OF i]
  have fresh: "\<forall>j < length ts. \<not> (ts_active (ts ! j) \<and> ts_pid (ts ! j) = pid)"
    using new by (simp add: table_map_None)
  show inv': "table_inv ts'"
    using inv fresh fs unfolding table_inv_def ts' by (auto simp: nth_list_update)
  show "table_map ts' = (table_map ts)(pid \<mapsto> t)"
  proof (rule opt_map_eqI)
    fix k v
    have "(\<exists>j < length ts'. ts' ! j = v \<and> ts_active v \<and> ts_pid v = k) \<longleftrightarrow>
        (if k = pid then v = t else \<exists>j < length ts. ts ! j = v \<and> ts_active v \<and> ts_pid v = k)"
      using fs fresh unfolding ts' t by (auto simp: nth_list_update)
    then show "table_map ts' k = Some v \<longleftrightarrow> ((table_map ts)(pid \<mapsto> t)) k = Some v"
      using table_map_Some [OF inv'] table_map_Some [OF inv] by auto
  qed
next
  fix ts :: tracees and pid :: int and t :: tracee
  assume inv: "table_inv ts"
  show inv': "table_inv (delete_tracee ts pid)"
  proof (cases "find_tracee ts pid")
    case (Some i)
    from first_slot_Some [OF this [unfolded find_tracee_def]] inv Some show ?thesis
      by (auto simp: remove_tracee_def table_inv_def nth_list_update)
  qed (use inv in \<open>simp add: remove_tracee_def\<close>)
  show "table_map (delete_tracee ts pid) = (table_map ts)(pid := None)"
  proof (cases "find_tracee ts pid")
    case None
    then show ?thesis by (auto simp: remove_tracee_def table_map_def)
  next
    case (Some i)
    have i: "i < length ts" "ts_active (ts ! i)" "ts_pid (ts ! i) = pid"
      using Some by (simp_all add: find_tracee_iff [OF inv])
    have d: "delete_tracee ts pid = ts[i := tracee_zero]" by (simp add: remove_tracee_def Some)
    show ?thesis
    proof (rule opt_map_eqI)
      fix k v
      have "(\<exists>j < length ts. ts[i := tracee_zero] ! j = v \<and> ts_active v \<and> ts_pid v = k) \<longleftrightarrow>
          k \<noteq> pid \<and> (\<exists>j < length ts. ts ! j = v \<and> ts_active v \<and> ts_pid v = k)" (is "?l \<longleftrightarrow> ?r")
      proof
        assume ?l
        then obtain j where j: "j < length ts" "ts[i := tracee_zero] ! j = v" "ts_active v" "ts_pid v = k" by blast
        then have ne: "j \<noteq> i" using i(1) zero_inactive by auto
        with j have v: "ts ! j = v" by simp
        have "k \<noteq> pid" using table_invD [OF inv i(1) j(1) i(2)] j(3,4) v i(3) ne by metis
        with j v show ?r by blast
      next
        assume ?r
        then obtain j where j: "k \<noteq> pid" "j < length ts" "ts ! j = v" "ts_active v" "ts_pid v = k" by blast
        with i(3) have "j \<noteq> i" by auto
        with j show ?l by auto
      qed
      then show "table_map (delete_tracee ts pid) k = Some v \<longleftrightarrow> ((table_map ts)(pid := None)) k = Some v"
        using table_map_Some [OF inv'] table_map_Some [OF inv] d by auto
    qed
  qed
qed

lemma table_inv_init: "table_inv tracees_init"
  by (simp add: table_inv_def tracees_init_def)

lemma table_map_init: "table_map tracees_init = Map.empty"
  by (rule ext) (simp add: table_map_None tracees_init_def)

section \<open>Credentials\<close>

definition is_minus_one_arg :: "u64 \<Rightarrow> bool" where
  "is_minus_one_arg value \<longleftrightarrow> value = 0xffffffffffffffff"

definition keep_arg :: "u64 \<Rightarrow> u64 \<Rightarrow> u64" where
  "keep_arg old arg = (if is_minus_one_arg arg then old else arg)"

text \<open>\<open>prepare_emulated_result\<close>: the result, the new state, the traced memory after the writes
  of \<open>getresuid\<close> and \<open>getresgid\<close>.\<close>

definition prepare_emulated_result :: "vmem \<Rightarrow> tracee \<Rightarrow> int \<Rightarrow> u64 \<times> tracee \<times> vmem" where
  "prepare_emulated_result m st nr =
     (let a = ts_last_args st;
          put = (\<lambda>m addr v. snd (write_tracee_u32 m addr v))
      in if nr = 174 then (ts_uid st, st, m)
         else if nr = 175 then (ts_euid st, st, m)
         else if nr = 176 then (ts_gid st, st, m)
         else if nr = 177 then (ts_egid st, st, m)
         else if nr = 143 then
           (let e = keep_arg (ts_egid st) (a 1)
            in (0, st\<lparr>ts_gid := keep_arg (ts_gid st) (a 0), ts_egid := e, ts_sgid := e\<rparr>, m))
         else if nr = 144 then (0, st\<lparr>ts_gid := a 0, ts_egid := a 0, ts_sgid := a 0\<rparr>, m)
         else if nr = 145 then
           (let e = keep_arg (ts_euid st) (a 1)
            in (0, st\<lparr>ts_uid := keep_arg (ts_uid st) (a 0), ts_euid := e, ts_suid := e\<rparr>, m))
         else if nr = 146 then (0, st\<lparr>ts_uid := a 0, ts_euid := a 0, ts_suid := a 0\<rparr>, m)
         else if nr = 147 then
           (let e = keep_arg (ts_euid st) (a 1)
            in (0, st\<lparr>ts_uid := keep_arg (ts_uid st) (a 0), ts_euid := e,
                      ts_suid := (if is_minus_one_arg (a 2) then e else a 2)\<rparr>, m))
         else if nr = 148 then
           (0, st, put (put (put m (a 0) (ts_uid st)) (a 1) (ts_euid st)) (a 2) (ts_suid st))
         else if nr = 149 then
           (let e = keep_arg (ts_egid st) (a 1)
            in (0, st\<lparr>ts_gid := keep_arg (ts_gid st) (a 0), ts_egid := e,
                      ts_sgid := (if is_minus_one_arg (a 2) then e else a 2)\<rparr>, m))
         else if nr = 150 then
           (0, st, put (put (put m (a 0) (ts_gid st)) (a 1) (ts_egid st)) (a 2) (ts_sgid st))
         else (0, st, m))"

text \<open>Only the credentials of the state change.\<close>

definition same_but_credentials :: "tracee \<Rightarrow> tracee \<Rightarrow> bool" where
  "same_but_credentials st st' \<longleftrightarrow>
     st' = st\<lparr>ts_uid := ts_uid st', ts_euid := ts_euid st', ts_suid := ts_suid st',
              ts_gid := ts_gid st', ts_egid := ts_egid st', ts_sgid := ts_sgid st'\<rparr>"

lemma prepare_frame: "same_but_credentials st (fst (snd (prepare_emulated_result m st nr)))"
  by (simp add: prepare_emulated_result_def same_but_credentials_def Let_def)

lemma prepare_uid_gid:
  assumes "(res, st', m') = prepare_emulated_result m st nr"
  shows "nr \<in> {143, 144, 149} \<Longrightarrow> ts_uid st' = ts_uid st \<and> ts_euid st' = ts_euid st \<and> ts_suid st' = ts_suid st"
    and "nr \<in> {145, 146, 147} \<Longrightarrow> ts_gid st' = ts_gid st \<and> ts_egid st' = ts_egid st \<and> ts_sgid st' = ts_sgid st"
  using assms by (auto simp: prepare_emulated_result_def Let_def)

end
