(* ===== verification/Pty.thy ===== *)
theory Pty
  imports Slot_Registry
begin

text \<open>
  The pseudo-terminal table of the JNI bridge (\<^verbatim>\<open>app/src/main/cpp/pty.c\<close>): file descriptor to
  child process, 32 slots, a free slot has descriptor 0. \<open>forkpty\<close>, \<open>fcntl\<close>, \<open>kill\<close>, \<open>close\<close>
  and \<open>waitpid\<close> are inputs of the operations; the signals and closes they cause are outputs.
\<close>

record pty_slot =
  pty_fd :: int
  pty_pid :: int

definition MAX_PTYS :: nat where
  "MAX_PTYS = 32"

definition pty_free :: pty_slot where
  "pty_free = \<lparr>pty_fd = 0, pty_pid = 0\<rparr>"

definition ptys_init :: "pty_slot list" where
  "ptys_init = replicate MAX_PTYS pty_free"

definition remember :: "pty_slot list \<Rightarrow> int \<Rightarrow> int \<Rightarrow> pty_slot list option" where
  "remember t fd pid =
     (case first_slot (\<lambda>s. pty_fd s = 0) t of
        None \<Rightarrow> None
      | Some i \<Rightarrow> Some (t[i := \<lparr>pty_fd = fd, pty_pid = pid\<rparr>]))"

definition lookup :: "pty_slot list \<Rightarrow> int \<Rightarrow> int" where
  "lookup t fd = (case first_slot (\<lambda>s. pty_fd s = fd) t of None \<Rightarrow> - 1 | Some i \<Rightarrow> pty_pid (t ! i))"

definition forget :: "pty_slot list \<Rightarrow> int \<Rightarrow> pty_slot list" where
  "forget t fd = (case first_slot (\<lambda>s. pty_fd s = fd) t of None \<Rightarrow> t | Some i \<Rightarrow> t[i := pty_free])"

datatype pty_effect = Kill int int | Close int

text \<open>\<open>Some (master, pid)\<close> is the parent's return from \<open>forkpty\<close>; 15 is \<open>SIGTERM\<close>, 1 is
  \<open>SIGHUP\<close>.\<close>

definition pty_open :: "pty_slot list \<Rightarrow> (int \<times> int) option \<Rightarrow> int \<times> pty_slot list \<times> pty_effect list" where
  "pty_open t fork =
     (case fork of
        None \<Rightarrow> (- 1, t, [])
      | Some (master, pid) \<Rightarrow>
          (case remember t master pid of
             None \<Rightarrow> (- 1, t, [Close master, Kill pid 15])
           | Some t' \<Rightarrow> (master, t', [])))"

definition pty_close :: "pty_slot list \<Rightarrow> int \<Rightarrow> int \<Rightarrow> int \<times> pty_slot list \<times> pty_effect list" where
  "pty_close t fd close_rc =
     (let pid = lookup t fd
      in (close_rc, forget t fd, (if pid > 0 then [Kill pid 1] else []) @ [Close fd]))"

text \<open>\<open>None\<close>: \<open>waitpid\<close> failed; \<open>Some (Inl rc)\<close> exited, \<open>Some (Inr sig)\<close> killed by a signal.\<close>

definition pty_waitpid :: "pty_slot list \<Rightarrow> int \<Rightarrow> (int \<Rightarrow> (int + int) option) \<Rightarrow> int" where
  "pty_waitpid t fd wait =
     (let pid = lookup t fd
      in if pid \<le> 0 then - 1
         else case wait pid of
                None \<Rightarrow> - 1
              | Some (Inl rc) \<Rightarrow> rc
              | Some (Inr sig) \<Rightarrow> - sig)"

text \<open>
  The read loop: retry on \<open>EINTR\<close>, one wait in \<open>select\<close> on \<open>EAGAIN\<close>. The list holds the
  outcomes of the successive \<open>read\<close> calls, \<open>sel\<close> the success of \<open>select\<close>; \<open>None\<close> when the
  outcomes run out.
\<close>

fun read_retry :: "(errno + nat) list \<Rightarrow> ((errno + nat) \<times> (errno + nat) list) option" where
  "read_retry [] = None"
| "read_retry (Inl EINTR # r) = read_retry r"
| "read_retry (x # r) = Some (x, r)"

definition pty_read :: "(errno + nat) list \<Rightarrow> bool \<Rightarrow> (errno + nat) option" where
  "pty_read outcomes sel =
     (case read_retry outcomes of
        None \<Rightarrow> None
      | Some (Inl EAGAIN, r) \<Rightarrow> if sel then (case r of [] \<Rightarrow> None | x # _ \<Rightarrow> Some x) else Some (Inl EAGAIN)
      | Some (x, r) \<Rightarrow> Some x)"

section \<open>The table as a map\<close>

definition ptys_inv :: "pty_slot list \<Rightarrow> bool" where
  "ptys_inv t \<longleftrightarrow> (\<forall>i < length t. \<forall>j < length t. pty_fd (t ! i) = pty_fd (t ! j) \<and> pty_fd (t ! i) \<noteq> 0 \<longrightarrow> i = j)"

definition pty_map :: "pty_slot list \<Rightarrow> int \<Rightarrow> int option" where
  "pty_map t fd =
     (if fd = 0 then None
      else map_option (\<lambda>i. pty_pid (t ! i)) (first_slot (\<lambda>s. pty_fd s = fd) t))"

lemma ptys_invD:
  "ptys_inv t \<Longrightarrow> i < length t \<Longrightarrow> j < length t \<Longrightarrow> pty_fd (t ! i) = pty_fd (t ! j) \<Longrightarrow> pty_fd (t ! i) \<noteq> 0 \<Longrightarrow> i = j"
  unfolding ptys_inv_def by blast

lemma pty_map_Some:
  "ptys_inv t \<Longrightarrow> fd \<noteq> 0 \<Longrightarrow> pty_map t fd = Some p \<longleftrightarrow> (\<exists>i < length t. pty_fd (t ! i) = fd \<and> pty_pid (t ! i) = p)"
proof
  assume "pty_map t fd = Some p" "fd \<noteq> 0"
  then show "\<exists>i < length t. pty_fd (t ! i) = fd \<and> pty_pid (t ! i) = p"
    using first_slot_Some by (fastforce simp: pty_map_def)
next
  assume inv: "ptys_inv t" and fd: "fd \<noteq> 0" and "\<exists>i < length t. pty_fd (t ! i) = fd \<and> pty_pid (t ! i) = p"
  then obtain i where i: "i < length t" "pty_fd (t ! i) = fd" "pty_pid (t ! i) = p" by blast
  have "first_slot (\<lambda>s. pty_fd s = fd) t = Some i"
  proof (rule first_slot_eqI)
    fix j
    assume "j < i"
    with i fd ptys_invD [OF inv i(1), of j] show "pty_fd (t ! j) \<noteq> fd" by auto
  qed (use i in auto)
  with fd i show "pty_map t fd = Some p" by (simp add: pty_map_def)
qed

lemma map_eqI: "(\<And>k v. f k = Some v \<longleftrightarrow> g k = Some v) \<Longrightarrow> f = g"
  by (rule ext) (metis not_Some_eq)

lemma pty_map_0 [simp]: "pty_map t 0 = None"
  by (simp add: pty_map_def)

lemma pty_map_None: "fd \<noteq> 0 \<Longrightarrow> pty_map t fd = None \<longleftrightarrow> (\<forall>i < length t. pty_fd (t ! i) \<noteq> fd)"
  by (auto simp: pty_map_def first_slot_None all_set_conv_all_nth)

interpretation pt: registry pty_map remember forget ptys_inv "\<lambda>fd pid. fd \<noteq> 0"
proof unfold_locales
  fix t t' :: "pty_slot list" and fd pid :: int
  assume inv: "ptys_inv t" and fd: "fd \<noteq> 0" and new: "pty_map t fd = None" and rem: "remember t fd pid = Some t'"
  obtain i where i: "first_slot (\<lambda>s. pty_fd s = 0) t = Some i" and t': "t' = t[i := \<lparr>pty_fd = fd, pty_pid = pid\<rparr>]"
    using rem by (auto simp: remember_def split: option.splits)
  note fs = first_slot_Some [OF i]
  have fresh: "\<forall>j < length t. pty_fd (t ! j) \<noteq> fd" using new fd by (simp add: pty_map_None)
  show inv': "ptys_inv t'"
    using inv fresh fs fd unfolding ptys_inv_def t' by (auto simp: nth_list_update)
  show "pty_map t' = (pty_map t)(fd \<mapsto> pid)"
  proof (rule map_eqI)
    fix k v
    show "pty_map t' k = Some v \<longleftrightarrow> ((pty_map t)(fd \<mapsto> pid)) k = Some v"
    proof (cases "k = 0")
      case False
      have "(\<exists>j < length t'. pty_fd (t' ! j) = k \<and> pty_pid (t' ! j) = v) \<longleftrightarrow>
          (if k = fd then v = pid else \<exists>j < length t. pty_fd (t ! j) = k \<and> pty_pid (t ! j) = v)"
        using fs fresh False unfolding t' by (auto simp: nth_list_update)
      with False pty_map_Some [OF inv' False] pty_map_Some [OF inv False] show ?thesis by auto
    qed (use fd in simp)
  qed
next
  fix t :: "pty_slot list" and fd pid :: int
  assume inv: "ptys_inv t" and fd: "fd \<noteq> 0"
  show inv': "ptys_inv (forget t fd)"
  proof (cases "first_slot (\<lambda>s. pty_fd s = fd) t")
    case (Some i)
    from first_slot_Some [OF this] inv Some show ?thesis
      by (auto simp: ptys_inv_def forget_def pty_free_def nth_list_update)
  qed (use inv in \<open>simp add: forget_def\<close>)
  show "pty_map (forget t fd) = (pty_map t)(fd := None)"
  proof (cases "first_slot (\<lambda>s. pty_fd s = fd) t")
    case None
    then show ?thesis using fd by (auto simp: forget_def pty_map_def)
  next
    case (Some i)
    note fs = first_slot_Some [OF Some]
    show ?thesis
    proof (rule map_eqI)
      fix k v
      show "pty_map (forget t fd) k = Some v \<longleftrightarrow> ((pty_map t)(fd := None)) k = Some v"
      proof (cases "k = 0")
        case False
        have "(\<exists>j < length (forget t fd). pty_fd (forget t fd ! j) = k \<and> pty_pid (forget t fd ! j) = v) \<longleftrightarrow>
            k \<noteq> fd \<and> (\<exists>j < length t. pty_fd (t ! j) = k \<and> pty_pid (t ! j) = v)"
          using fs inv fd False Some
          by (auto simp: forget_def pty_free_def nth_list_update ptys_inv_def)
        with False pty_map_Some [OF inv' False] pty_map_Some [OF inv False] show ?thesis by auto
      qed simp
    qed
  qed
qed

lemma ptys_init_inv: "ptys_inv ptys_init"
  by (simp add: ptys_inv_def ptys_init_def pty_free_def)

lemma ptys_init_map: "pty_map ptys_init = Map.empty"
proof
  fix k
  show "pty_map ptys_init k = None"
  proof (cases "k = 0")
    case False
    then show ?thesis by (simp add: pty_map_None ptys_init_def pty_free_def)
  qed simp
qed

lemma lookup_pty_map: "fd \<noteq> 0 \<Longrightarrow> lookup t fd = (case pty_map t fd of None \<Rightarrow> - 1 | Some p \<Rightarrow> p)"
  by (simp add: lookup_def pty_map_def split: option.splits)

end
