(* ===== verification/Tracee_Theorems.thy ===== *)
theory Tracee_Theorems
  imports Seccomp_Filter Tracee_Inject Tracee_Table Pty
begin

text \<open>
  The properties of the seccomp program, the tables of tracees and terminals, the emulated
  credentials, the traced memory and the injected calls.
\<close>

section \<open>The seccomp program\<close>

text \<open>C21. The selective seccomp program fits its array of 192 instructions, always returns, and
  returns what the table of traced and refused numbers says for an AArch64 call.\<close>

theorem selective_filter_decides:
  "length (selective_filter s m g) \<le> 192 \<and>
   bpf_run (selective_filter s m g) d acc =
     Some (if sd_arch d = AUDIT_ARCH_AARCH64 then verdict_word (filter_verdict s m g (uint (sd_nr d)))
           else SECCOMP_RET_ALLOW)"
  using filter_length filter_run rules_verdict by simp

text \<open>
  The calls the entry handler interposes on that the selective filter does not stop are
  exactly these: \<open>close\<close>, which runs past the handler, and the ones refused with \<open>ENOSYS\<close>.\<close>

theorem interposed_but_not_stopped:
  "{nr. entry_interposes nr \<and> filter_verdict True m g nr = Allow} = {57} \<and>
   {nr. entry_interposes nr \<and> filter_verdict True m g nr = Fail ENOSYS} =
     {99, 293, 235, 236, 237, 238, 239, 425, 426, 427, 450}"
proof -
  have v: "filter_verdict True m g nr \<in> {Allow, Trace, Fail ENOSYS}" for nr
    by (simp add: filter_verdict_def)
  have a: "filter_verdict True m g nr = Allow \<longleftrightarrow> filter_verdict True m g nr \<noteq> Trace \<and> nr \<noteq> 99 \<and> nr \<notin> set failed_numbers" for nr
    by (simp add: filter_verdict_def)
  have f: "filter_verdict True m g nr = Fail ENOSYS \<longleftrightarrow>
      filter_verdict True m g nr \<noteq> Trace \<and> (nr = 99 \<or> nr \<in> set failed_numbers)" for nr
    by (simp add: filter_verdict_def)
  have u: "entry_interposes nr \<and> filter_verdict True m g nr \<noteq> Trace \<longleftrightarrow>
      nr \<in> {57} \<union> {99, 293, 235, 236, 237, 238, 239, 425, 426, 427, 450}" for nr
    using interposed_untraced [of m g] by blast
  have e: "nr \<in> set failed_numbers \<longleftrightarrow> nr \<in> {293, 235, 236, 237, 238, 239, 425, 426, 427, 435, 436, 450}" for nr
    by (simp add: failed_numbers_def)
  show ?thesis
    unfolding a f e set_eq_iff mem_Collect_eq conj_assoc [symmetric] u by auto
qed

section \<open>Tables\<close>

text \<open>C22. The table of tracees is a map from process identifiers to states with 128 places:
  adding finds the present entry or makes a fresh one, removing forgets exactly one, and no
  identifier ever has two active slots.\<close>

theorem tracee_table_is_map:
  assumes "table_inv ts"
  shows "(case add_tracee ts pid of
            (None, ts') \<Rightarrow> ts' = ts \<and> table_map ts pid = None \<and> tracee_count ts = length ts
          | (Some i, ts') \<Rightarrow> table_inv ts' \<and> find_tracee ts' pid = Some i \<and>
              table_map ts' = (table_map ts)(pid \<mapsto> case table_map ts pid of None \<Rightarrow> fresh_tracee pid | Some t \<Rightarrow> t))
       \<and> table_inv (fst (remove_tracee ts pc pid))
       \<and> table_map (fst (remove_tracee ts pc pid)) = (table_map ts)(pid := None)"
proof -
  have rem: "fst (remove_tracee ts pc pid) = delete_tracee ts pid"
    by (simp add: remove_tracee_def split: option.splits)
  have del: "table_inv (delete_tracee ts pid)" "table_map (delete_tracee ts pid) = (table_map ts)(pid := None)"
    using tt.inv_delete [OF assms refl] tt.lookup_delete [OF assms refl] by blast+
  show ?thesis
  proof (cases "find_tracee ts pid")
    case (Some i)
    then have "add_tracee ts pid = (Some i, ts)" "table_map ts pid = Some (ts ! i)"
      by (simp_all add: add_tracee_def table_map_def)
    then show ?thesis using assms Some del rem by (simp add: fun_upd_idem)
  next
    case none: None
    then have new: "table_map ts pid = None" by (simp add: table_map_def)
    show ?thesis
    proof (cases "first_slot (\<lambda>t. \<not> ts_active t) ts")
      case None
      then have add: "add_tracee ts pid = (None, ts)" by (simp add: add_tracee_def none)
      have "tracee_count ts = length ts" using None by (simp add: tracee_count_def first_slot_None)
      with add show ?thesis using new del rem by simp
    next
      case (Some i)
      then have add: "add_tracee ts pid = (Some i, ts[i := fresh_tracee pid])"
        by (simp add: add_tracee_def none)
      have ins: "insert_tracee ts pid (fresh_tracee pid) = Some (ts[i := fresh_tracee pid])" by (simp add: add)
      note lk = tt.inv_insert [OF assms refl new ins] tt.lookup_insert [OF assms refl new ins]
      have "find_tracee (ts[i := fresh_tracee pid]) pid = Some i"
        unfolding find_tracee_iff [OF lk(1)] using first_slot_Some [OF Some] by simp
      then show ?thesis using add lk new del rem by simp
    qed
  qed
qed

theorem tracee_table_is_map_witness:
  "\<exists>i ts'. add_tracee tracees_init 7 = (Some i, ts') \<and> table_map ts' = [7 \<mapsto> fresh_tracee 7]"
proof -
  have f: "find_tracee tracees_init 7 = None"
    using table_map_init by (simp add: table_map_def fun_eq_iff)
  have "first_slot (\<lambda>t. \<not> ts_active t) tracees_init = Some 0"
    by (rule first_slot_eqI) (simp_all add: tracees_init_def MAX_TRACEES_def)
  then have "add_tracee tracees_init 7 = (Some 0, tracees_init[0 := fresh_tracee 7])" by (simp add: add_tracee_def f)
  with tracee_table_is_map [OF table_inv_init, of 7] table_map_init show ?thesis by auto
qed

text \<open>A session of the terminal bridge: \<open>pty_state\<close> is its table, \<open>pty_ghost\<close> the map from open
  descriptors to children, as long as \<open>forkpty\<close> hands out positive descriptors not yet open.\<close>

datatype pty_call = PtyOpen "(int \<times> int) option" | PtyClose int

fun pty_state :: "pty_call list \<Rightarrow> pty_slot list \<Rightarrow> pty_slot list" where
  "pty_state [] t = t"
| "pty_state (PtyOpen fork # cs) t = pty_state cs (fst (snd (pty_open t fork)))"
| "pty_state (PtyClose fd # cs) t = pty_state cs (fst (snd (pty_close t fd 0)))"

fun pty_ghost :: "pty_call list \<Rightarrow> pty_slot list \<Rightarrow> (int \<rightharpoonup> int) \<Rightarrow> (int \<rightharpoonup> int) option" where
  "pty_ghost [] t g = Some g"
| "pty_ghost (PtyOpen None # cs) t g = pty_ghost cs t g"
| "pty_ghost (PtyOpen (Some (fd, pid)) # cs) t g =
     (if fd \<le> 0 \<or> g fd \<noteq> None then None
      else let (rc, t', out) = pty_open t (Some (fd, pid))
           in pty_ghost cs t' (if rc = - 1 then g else g(fd \<mapsto> pid)))"
| "pty_ghost (PtyClose fd # cs) t g =
     (if fd \<le> 0 then None else pty_ghost cs (fst (snd (pty_close t fd 0))) (g(fd := None)))"

lemma pty_session:
  "pty_ghost cs t g = Some g' \<Longrightarrow> ptys_inv t \<Longrightarrow> pty_map t = g \<Longrightarrow>
   ptys_inv (pty_state cs t) \<and> pty_map (pty_state cs t) = g'"
proof (induction cs t g rule: pty_ghost.induct)
  case (2 cs t g)
  then show ?case by (simp add: pty_open_def)
next
  case (3 fd pid cs t g)
  have fd: "\<not> (fd \<le> 0 \<or> g fd \<noteq> None)" "fd \<noteq> 0" using "3.prems"(1) by (auto split: if_splits)
  show ?case
  proof (cases "remember t fd pid")
    case None
    then have o: "pty_open t (Some (fd, pid)) = (- 1, t, [Close fd, Kill pid 15])" by (simp add: pty_open_def)
    show ?thesis using "3.IH" [OF fd(1) o [symmetric] refl refl] "3.prems" fd o by simp
  next
    case (Some t1)
    then have o: "pty_open t (Some (fd, pid)) = (fd, t1, [])" by (simp add: pty_open_def)
    have new: "pty_map t fd = None" using fd(1) "3.prems"(3) by simp
    note ins = pt.inv_insert [OF "3.prems"(2) fd(2) new Some] pt.lookup_insert [OF "3.prems"(2) fd(2) new Some]
    have upd: "(if fd = - 1 then g else g(fd \<mapsto> pid)) = g(fd \<mapsto> pid)" using fd by simp
    have g: "pty_ghost cs t1 (g(fd \<mapsto> pid)) = Some g'" using "3.prems"(1) fd o upd by simp
    have m: "pty_map t1 = g(fd \<mapsto> pid)" using ins(2) "3.prems"(3) by simp
    from "3.IH" [OF fd(1) o [symmetric] refl refl, unfolded upd, OF g ins(1) m] o show ?thesis by simp
  qed
next
  case (4 fd cs t g)
  have fd: "\<not> fd \<le> 0" "fd \<noteq> 0" using "4.prems"(1) by (auto split: if_splits)
  have c: "fst (snd (pty_close t fd 0)) = forget t fd" by (simp add: pty_close_def Let_def)
  show ?case
    using "4.IH" [OF fd(1)] "4.prems" fd pt.inv_delete [OF "4.prems"(2) fd(2)] pt.lookup_delete [OF "4.prems"(2) fd(2)] c
    by (simp add: fun_upd_def)
qed simp

text \<open>C23. After every session of opens and closes the bridge finds for each open terminal the
  child it forked, and none for the others.\<close>

theorem pty_sessions_track_children:
  assumes "pty_ghost cs ptys_init Map.empty = Some g" "fd \<noteq> 0"
  shows "lookup (pty_state cs ptys_init) fd = (case g fd of None \<Rightarrow> - 1 | Some pid \<Rightarrow> pid)"
  using pty_session [OF assms(1) ptys_init_inv ptys_init_map] assms(2) by (simp add: lookup_pty_map)

lemma pty_open_init: "pty_open ptys_init (Some (fd, pid)) = (fd, ptys_init[0 := \<lparr>pty_fd = fd, pty_pid = pid\<rparr>], [])"
proof -
  have "first_slot (\<lambda>s. pty_fd s = 0) ptys_init = Some 0"
    by (rule first_slot_eqI) (simp_all add: ptys_init_def MAX_PTYS_def pty_free_def)
  then show ?thesis by (simp add: pty_open_def remember_def)
qed

theorem pty_sessions_track_children_witness:
  "lookup (pty_state [PtyOpen (Some (9, 41))] ptys_init) 9 = 41"
proof -
  have "pty_ghost [PtyOpen (Some (9, 41))] ptys_init Map.empty = Some [9 \<mapsto> 41]" by (simp add: pty_open_init)
  from pty_sessions_track_children [OF this, of 9] show ?thesis by simp
qed

section \<open>Credentials\<close>

text \<open>C24. \<open>setresuid\<close> followed by \<open>getresuid\<close>: the guest reads back the identifiers it set, an
  argument -1 keeps the real and the effective one; for the saved one it stores the effective.\<close>

theorem setresuid_then_getresuid:
  assumes "(res, st1, m1) = prepare_emulated_result m (st\<lparr>ts_last_args := a\<rparr>) 147"
    and "(res2, st2, m2) = prepare_emulated_result m1 (st1\<lparr>ts_last_args := b\<rparr>) 148"
    and "\<And>i. i < 3 \<Longrightarrow> b i \<noteq> 0 \<and> accessible m (b i) 4"
    and "\<And>i j x. i < 3 \<Longrightarrow> j < 3 \<Longrightarrow> i \<noteq> j \<Longrightarrow> in_range (b i) 4 x \<Longrightarrow> \<not> in_range (b j) 4 x"
  shows "res = 0 \<and> res2 = 0 \<and> same_but_credentials (st\<lparr>ts_last_args := b\<rparr>) st2 \<and>
    map (\<lambda>i. le_nat (vm_read m2 (b i) 4)) [0, 1, 2] = map (\<lambda>v. unat (ucast v :: u32))
      [if a 0 = - 1 then ts_uid st else a 0, if a 1 = - 1 then ts_euid st else a 1,
       if a 2 = - 1 then (if a 1 = - 1 then ts_euid st else a 1) else a 2]"
proof -
  have put_eq: "write_tracee_u32 mm addr v = (True, snd (write_tracee_data mm addr (le_bytes 4 (unat (ucast v :: u32)))))"
    if "accessible mm addr 4" "addr \<noteq> 0" for mm addr and v :: u64
    using tm.put_ok [of mm addr "le_bytes 4 (unat (ucast v :: u32))"] that
    by (simp add: write_tracee_u32_def Let_def case_prod_unfold)
  let ?w = "\<lambda>mm i (v :: u64). snd (write_tracee_data mm (b i) (le_bytes 4 (unat (ucast v :: u32))))"
  have acc: "accessible (?w mm i v) (b j) 4 = accessible mm (b j) 4" for mm i v j by (rule tm.both_put)
  have ok: "accessible m (b 0) 4" "accessible m (b 1) 4" "accessible m (b 2) 4" "b 0 \<noteq> 0" "b 1 \<noteq> 0" "b 2 \<noteq> 0"
    using assms(3) [of 0] assms(3) [of 1] assms(3) [of 2] by simp_all
  have keep: "vm_read (?w mm i v) (b j) 4 = vm_read mm (b j) 4" if "i < 3" "j < 3" "i \<noteq> j" for mm i j v
    using assms(4) [of j i] that by (intro tm.get_put_other) auto
  have self: "le_nat (vm_read (?w mm i v) (b i) 4) = unat (ucast v :: u32)"
    if "accessible mm (b i) 4" "b i \<noteq> 0" for mm i and v :: u64
    using write_u32_read(2) [OF that, of v] put_eq [OF that, of v] by simp
  have mo: "is_minus_one_arg v \<longleftrightarrow> v = - 1" for v :: u64 by (simp add: is_minus_one_arg_def word_uint_eq_iff unsigned_minus_1_eq_mask mask_eq_exp_minus_1)
  define u where "u = (if a 0 = - 1 then ts_uid st else a 0)"
  define e where "e = (if a 1 = - 1 then ts_euid st else a 1)"
  define s where "s = (if a 2 = - 1 then e else a 2)"
  have 1: "res = 0" "m1 = m" "st1 = st\<lparr>ts_last_args := a, ts_uid := u, ts_euid := e, ts_suid := s\<rparr>"
    using assms(1) by (simp_all add: prepare_emulated_result_def Let_def keep_arg_def mo u_def e_def s_def)
  have 2: "res2 = 0" "st2 = st1\<lparr>ts_last_args := b\<rparr>" "m2 = ?w (?w (?w m 0 u) 1 e) 2 s"
    using assms(2) ok by (simp_all add: prepare_emulated_result_def Let_def put_eq acc 1)
  have "le_nat (vm_read m2 (b 0) 4) = unat (ucast u :: u32)" "le_nat (vm_read m2 (b 1) 4) = unat (ucast e :: u32)"
    "le_nat (vm_read m2 (b 2) 4) = unat (ucast s :: u32)"
    unfolding 2 using ok by (simp_all add: keep self acc)
  moreover have "same_but_credentials (st\<lparr>ts_last_args := b\<rparr>) st2" by (simp add: same_but_credentials_def 1 2)
  ultimately show ?thesis using 1 2 by (simp add: u_def e_def s_def)
qed

definition open_vmem :: vmem where
  "open_vmem = \<lparr>vm_byte = (\<lambda>_. NUL), vm_mapped = (\<lambda>_. True), vm_r = (\<lambda>_. True), vm_w = (\<lambda>_. True)\<rparr>"

definition id_args :: "nat \<Rightarrow> u64" where
  "id_args i = (if i = 0 then 10 else if i = 1 then 20 else - 1)"

definition out_args :: "nat \<Rightarrow> u64" where
  "out_args i = (if i = 0 then 8 else if i = 1 then 16 else 24)"

lemma in_range_4: "in_range a 4 x \<Longrightarrow> x \<in> {a, a + 1, a + 2, a + 3}"
proof -
  assume "in_range a 4 x"
  then have "unat (x - a) < 4" by (simp add: in_range_def)
  moreover have "x - a = of_nat (unat (x - a))" by simp
  ultimately obtain k where k: "k < 4" "x - a = of_nat k" by blast
  then have "k = 0 \<or> k = 1 \<or> k = 2 \<or> k = 3" by linarith
  with k(2) have "x - a \<in> {0, 1, 2, 3}" by auto
  then show ?thesis by (auto simp: algebra_simps)
qed

lemma out_args_apart: "i < 3 \<Longrightarrow> j < 3 \<Longrightarrow> i \<noteq> j \<Longrightarrow> in_range (out_args i) 4 x \<Longrightarrow> \<not> in_range (out_args j) 4 x"
proof
  assume "i < 3" "j < 3" "i \<noteq> j" and r: "in_range (out_args i) 4 x" "in_range (out_args j) 4 x"
  then have "i \<in> {0, 1, 2}" "j \<in> {0, 1, 2}" by auto
  with \<open>i \<noteq> j\<close> in_range_4 [OF r(1)] in_range_4 [OF r(2)] show False by (auto simp: out_args_def)
qed

theorem setresuid_then_getresuid_witness:
  "map (\<lambda>i. le_nat (vm_read (snd (snd (prepare_emulated_result open_vmem
      ((fst (snd (prepare_emulated_result open_vmem (tracee_zero\<lparr>ts_last_args := id_args\<rparr>) 147)))\<lparr>ts_last_args := out_args\<rparr>)
      148))) (out_args i) 4)) [0, 1, 2] = [10, 20, 20]"
proof -
  let ?p = "prepare_emulated_result open_vmem (tracee_zero\<lparr>ts_last_args := id_args\<rparr>) 147"
  let ?q = "prepare_emulated_result open_vmem ((fst (snd ?p))\<lparr>ts_last_args := out_args\<rparr>) 148"
  have p: "(fst ?p, fst (snd ?p), open_vmem) = ?p" by (simp add: prepare_emulated_result_def Let_def)
  have q: "(fst ?q, fst (snd ?q), snd (snd ?q)) = ?q" by simp
  have acc: "out_args i \<noteq> 0 \<and> accessible open_vmem (out_args i) 4" for i
    by (simp add: out_args_def accessible_def open_vmem_def)
  from setresuid_then_getresuid [OF p q acc out_args_apart]
  show ?thesis by (simp add: id_args_def)
qed

section \<open>Traced memory\<close>

text \<open>C26. A string written into the traced process reads back as the string, cut to 4095
  characters: longer paths are silently truncated.\<close>

theorem path_strings_cut_at_path_max:
  assumes "NUL \<notin> set s" "accessible m a (Suc (length s))" "Suc (length s) < 2 ^ 64" "a \<noteq> 0"
  shows "read_tracee_string (snd (write_tracee_string m a s)) a PATH_MAX = Some (take 4095 s)"
  using read_tracee_string_spec [OF write_string_c_string [OF assms(1-3), THEN conjunct2] assms(4), of PATH_MAX]
  by (simp add: PATH_MAX_def)

theorem path_strings_cut_at_path_max_witness:
  "read_tracee_string (snd (write_tracee_string open_vmem 64 (replicate 5000 CHR ''a''))) 64 PATH_MAX
     = Some (replicate 4095 CHR ''a'')"
proof -
  have "accessible open_vmem 64 n" for n by (simp add: accessible_def open_vmem_def)
  from path_strings_cut_at_path_max [of "replicate 5000 CHR ''a''", OF _ this] show ?thesis by simp
qed



end
