(* ===== verification/Host_Files.thy ===== *)
theory Host_Files
  imports Path_Policy Tracee_Strings
begin

text \<open>
  What the direct executor reads from and writes to host files: interpreter lines, ELF headers,
  the program search, the copy that replaces a hard link, the group files and the rewriting of
  absolute symbolic links. The files are a map from path names to nodes; what the kernel decides
  (permissions, failing reads and writes) is an argument.
\<close>

section \<open>Nodes\<close>

datatype hnode = HReg nat string | HLnk string | HDir | HOther

type_synonym hfs = "string \<Rightarrow> hnode option"

section \<open>Environment settings\<close>

definition lower_case :: "char \<Rightarrow> char" where
  "lower_case c = (let n = of_char c :: nat in if 65 \<le> n \<and> n \<le> 90 then char_of (n + 32) else c)"

definition env_flag_enabled :: "string option \<Rightarrow> bool" where
  "env_flag_enabled v =
     (case v of None \<Rightarrow> False | Some s \<Rightarrow> s \<noteq> [] \<and> s \<noteq> ''0'' \<and> map lower_case s \<noteq> ''false'')"

text \<open>\<open>env_u64_or_default\<close>: \<open>parse\<close> is \<open>strtoull\<close>, \<open>None\<close> for an error or no digits, otherwise the
  number and the text after it. The unit suffix multiplies modulo \<open>2 ^ 64\<close>.\<close>

definition env_u64_or_default :: "(string \<Rightarrow> (u64 \<times> string) option) \<Rightarrow> string option \<Rightarrow> u64 \<Rightarrow> u64" where
  "env_u64_or_default parse v fallback =
     (case v of None \<Rightarrow> fallback
      | Some s \<Rightarrow>
          if s = [] then fallback
          else case parse s of
                 None \<Rightarrow> fallback
               | Some (n, rest) \<Rightarrow>
                   if rest \<noteq> [] \<and> hd rest \<in> {CHR ''k'', CHR ''K''} then n * 1024
                   else if rest \<noteq> [] \<and> hd rest \<in> {CHR ''m'', CHR ''M''} then n * (1024 * 1024)
                   else if rest \<noteq> [] \<and> hd rest \<in> {CHR ''g'', CHR ''G''} then n * (1024 * 1024 * 1024)
                   else n)"

section \<open>Programs\<close>

definition file_starts_with :: "string option \<Rightarrow> string \<Rightarrow> bool" where
  "file_starts_with content magic =
     (case content of None \<Rightarrow> False
      | Some c \<Rightarrow> let buf = take 4 c in length magic \<le> length buf \<and> take (length magic) buf = magic)"

definition bytes_at :: "string \<Rightarrow> nat \<Rightarrow> nat \<Rightarrow> nat" where
  "bytes_at c off n = le_nat (take n (drop off c))"

text \<open>\<open>elf_has_interp\<close> as -1 (not a 64-bit ELF file, or unreadable), 0 (no interpreter) or 1. The
  header has 64 bytes, a program header 56; type 3 is \<open>PT_INTERP\<close>.\<close>

fun phdr_scan :: "string \<Rightarrow> nat \<Rightarrow> nat \<Rightarrow> int" where
  "phdr_scan c off 0 = 0"
| "phdr_scan c off (Suc n) =
     (if length (take 56 (drop off c)) \<noteq> 56 then - 1
      else if bytes_at c off 4 = 3 then 1 else phdr_scan c (off + 56) n)"

definition elf_has_interp :: "string option \<Rightarrow> int" where
  "elf_has_interp content =
     (case content of None \<Rightarrow> - 1
      | Some c \<Rightarrow>
          if length (take 64 c) \<noteq> 64 \<or> take 4 c \<noteq> [CHR 0x7F, CHR ''E'', CHR ''L'', CHR ''F''] \<or>
             bytes_at c 4 1 \<noteq> 2 \<or> bytes_at c 32 8 = 0 \<or> bytes_at c 54 2 \<noteq> 56 then - 1
          else if 2 ^ 63 \<le> bytes_at c 32 8 then - 1
          else phdr_scan c (bytes_at c 32 8) (bytes_at c 56 2))"

definition program_dirs :: "string list" where
  "program_dirs = [''usr/local/sbin'', ''usr/local/bin'', ''usr/sbin'', ''usr/bin'', ''sbin'', ''bin'']"

definition resolve_guest_program :: "(string \<Rightarrow> bool) \<Rightarrow> string \<Rightarrow> string \<Rightarrow> nat \<Rightarrow> string option" where
  "resolve_guest_program x_ok rootfs program out_len =
     (if program = [] then None
      else if hd program = slash then
        let out = rootfs @ program
        in if out_len \<le> length out then None else if x_ok out then Some out else None
      else find (\<lambda>out. length out < out_len \<and> x_ok out)
             (map (\<lambda>dir. rootfs @ ''/'' @ dir @ ''/'' @ program) program_dirs))"

definition is_blank :: "char \<Rightarrow> bool" where
  "is_blank c \<longleftrightarrow> c = CHR '' '' \<or> c = CHR 0x09"

definition is_word_end :: "char \<Rightarrow> bool" where
  "is_word_end c \<longleftrightarrow> is_blank c \<or> c = CHR 0x0D \<or> c = CHR 0x0A"

text \<open>One \<open>fgets\<close> into a buffer of \<open>n\<close> bytes: the line and what is left of the file.\<close>

fun fgets :: "nat \<Rightarrow> string \<Rightarrow> string \<times> string" where
  "fgets 0 s = ([], s)"
| "fgets (Suc 0) s = ([], s)"
| "fgets (Suc (Suc n)) [] = ([], [])"
| "fgets (Suc (Suc n)) (c # s) =
     (if c = CHR 0x0A then ([c], s) else let (l, r) = fgets (Suc n) s in (c # l, r))"

definition c_text :: "string \<Rightarrow> string" where
  "c_text s = takeWhile (\<lambda>c. c \<noteq> NUL) s"

definition parse_shebang :: "string option \<Rightarrow> nat \<Rightarrow> nat \<Rightarrow> (string \<times> string) option" where
  "parse_shebang content program_len arg_len =
     (case content of None \<Rightarrow> None
      | Some c \<Rightarrow>
          if c = [] then None
          else
            let line = c_text (fst (fgets PATH_MAX c))
            in if take 2 line \<noteq> ''#!'' then None
               else
                 let p = dropWhile is_blank (drop 2 line);
                     prog = takeWhile (\<lambda>c. \<not> is_word_end c) p;
                     p1 = dropWhile is_blank (tl (dropWhile (\<lambda>c. \<not> is_word_end c) p));
                     first_arg = takeWhile (\<lambda>c. \<not> is_word_end c) p1;
                     (prog', arg') = (if prog = ''/usr/bin/env'' \<and> first_arg \<noteq> [] then (first_arg, [])
                                      else (prog, first_arg));
                     out = take (program_len - 1) prog'
                 in if out = [] then None else Some (out, take (arg_len - 1) arg'))"

section \<open>The copy that stands for a hard link\<close>

text \<open>
  \<open>ce_real p\<close> is the name \<open>p\<close> resolves to; the other fields are the errors of \<open>open\<close>, \<open>read\<close>,
  \<open>write\<close> (after some bytes of a block), \<open>fchmod\<close> and \<open>close\<close>.
\<close>

record copy_env =
  ce_real :: "string \<Rightarrow> string"
  ce_open_src :: "errno option"
  ce_open_dst :: "errno option"
  ce_read :: "nat \<Rightarrow> errno option"
  ce_write :: "nat \<Rightarrow> (nat \<times> errno) option"
  ce_fchmod :: "errno option"
  ce_close :: "errno option"

definition COPY_BLOCK :: nat where
  "COPY_BLOCK = 65536"

function copy_loop :: "copy_env \<Rightarrow> nat \<Rightarrow> string \<Rightarrow> string \<Rightarrow> errno option \<times> string" where
  "copy_loop env i data out =
     (case ce_read env i of
        Some e \<Rightarrow> (Some e, out)
      | None \<Rightarrow>
          if data = [] then (None, out)
          else
            let block = take COPY_BLOCK data
            in case ce_write env i of
                 Some (k, e) \<Rightarrow> (Some e, out @ take k block)
               | None \<Rightarrow> copy_loop env (i + 1) (drop COPY_BLOCK data) (out @ block))"
  by pat_completeness auto
termination
  by (relation "measure (\<lambda>(env, i, data, out). length data)") (auto simp: COPY_BLOCK_def neq_Nil_conv)

declare copy_loop.simps [simp del]

definition AT_SYMLINK_FOLLOW :: u32 where
  "AT_SYMLINK_FOLLOW = 0x400"

text \<open>\<open>open\<close> with \<open>O_CREAT | O_EXCL\<close>, and \<open>unlink\<close>.\<close>

definition create_excl :: "copy_env \<Rightarrow> hfs \<Rightarrow> string \<Rightarrow> nat \<Rightarrow> errno + hfs" where
  "create_excl env fs p mode =
     (case ce_open_dst env of Some e \<Rightarrow> Inl e
      | None \<Rightarrow> if fs p \<noteq> None then Inl EEXIST else Inr (fs(p \<mapsto> HReg mode [])))"

definition unlink_node :: "hfs \<Rightarrow> string \<Rightarrow> hfs" where
  "unlink_node fs p = (if fs p = Some HDir then fs else fs(p := None))"

text \<open>The result is the error, and the new files. \<open>mod 512\<close> is \<open>& 0777\<close>, \<open>mod 4096\<close> is \<open>& 07777\<close>.\<close>

definition open_copy_target :: "copy_env \<Rightarrow> hfs \<Rightarrow> string \<Rightarrow> nat \<Rightarrow> errno option \<times> hfs" where
  "open_copy_target env fs new_host mode =
     (case create_excl env fs new_host (mode mod 512) of
        Inr fs1 \<Rightarrow> (None, fs1)
      | Inl e \<Rightarrow>
          if e = EEXIST \<and> contains new_host ''/var/lib/dpkg/status-old'' then
            let fs0 = unlink_node fs new_host
            in (case create_excl env fs0 new_host (mode mod 512) of
                  Inl e \<Rightarrow> (Some e, fs0) | Inr fs1 \<Rightarrow> (None, fs1))
          else (Some e, fs))"

definition fill_copy :: "copy_env \<Rightarrow> hfs \<Rightarrow> string \<Rightarrow> nat \<Rightarrow> string \<Rightarrow> errno option \<times> hfs" where
  "fill_copy env fs1 new_host mode data =
     (let (rc0, out) = copy_loop env 0 data [];
          rc1 = (if rc0 = None then ce_fchmod env else rc0);
          rc = (if rc1 = None then ce_close env else rc1);
          fs2 = fs1(new_host \<mapsto> HReg (if rc1 = None then mode mod 4096 else mode mod 512) out)
      in (rc, if rc \<noteq> None then unlink_node fs2 new_host else fs2))"

definition copy_file_for_linkat :: "copy_env \<Rightarrow> hfs \<Rightarrow> string \<Rightarrow> string \<Rightarrow> u32 \<Rightarrow> errno option \<times> hfs" where
  "copy_file_for_linkat env fs old_host new_host flags =
     (if flags AND NOT AT_SYMLINK_FOLLOW \<noteq> 0 then (Some EINVAL, fs)
      else
        case fs (ce_real env old_host) of
          None \<Rightarrow> (Some ENOENT, fs)
        | Some (HReg mode data) \<Rightarrow>
            (case ce_open_src env of Some e \<Rightarrow> (Some e, fs)
             | None \<Rightarrow>
                 let (dst, fs1) = open_copy_target env fs new_host mode
                 in case dst of Some e \<Rightarrow> (Some e, fs1)
                    | None \<Rightarrow> fill_copy env fs1 new_host mode data)
        | Some _ \<Rightarrow> (Some EXDEV, fs))"

lemma copy_loop_result:
  "copy_loop env i data out = (rc, res) \<Longrightarrow> (rc = None \<longrightarrow> res = out @ data) \<and> prefix out res"
proof (induction env i data out rule: copy_loop.induct)
  case (1 env i data out)
  show ?case
  proof (cases "ce_read env i = None \<and> data \<noteq> []")
    case False
    then show ?thesis using "1.prems" by (subst (asm) copy_loop.simps) (auto split: option.splits)
  next
    case True
    show ?thesis
    proof (cases "ce_write env i")
      case None
      then have "copy_loop env (i + 1) (drop COPY_BLOCK data) (out @ take COPY_BLOCK data) = (rc, res)"
        using True "1.prems" by (subst (asm) copy_loop.simps) simp
      with "1.IH" [OF conjunct1 [OF True] conjunct2 [OF True] refl None] show ?thesis
        by (auto simp: prefix_def)
    next
      case (Some p)
      with True "1.prems" show ?thesis by (subst (asm) copy_loop.simps) (auto split: prod.splits)
    qed
  qed
qed

lemma unlink_same [simp]: "p \<noteq> q \<Longrightarrow> unlink_node fs p q = fs q"
  by (simp add: unlink_node_def)

lemma unlink_reg [simp]: "unlink_node (fs(p \<mapsto> HReg m d)) p = fs(p := None)"
  by (simp add: unlink_node_def)

text \<open>A name that is neither a directory nor taken (or the replaceable \<open>status-old\<close>).\<close>

lemma create_excl_Inr: "create_excl env fs p mode = Inr fs' \<Longrightarrow> fs p = None \<and> fs' = fs(p \<mapsto> HReg mode [])"
  by (auto simp: create_excl_def split: option.splits if_splits)

lemma open_copy_target_cases:
  assumes "open_copy_target env fs new mode = (rc, fs1)"
  shows "(\<forall>p. p \<noteq> new \<longrightarrow> fs1 p = fs p) \<and>
    (case rc of None \<Rightarrow> fs1 = fs(new \<mapsto> HReg (mode mod 512) []) \<and> (fs new = None \<or> contains new ''/var/lib/dpkg/status-old'')
     | Some e \<Rightarrow> fs1 new = fs new \<or> fs1 new = None)"
proof (cases "create_excl env fs new (mode mod 512)")
  case (Inr fs2)
  with assms create_excl_Inr [OF Inr] show ?thesis by (auto simp: open_copy_target_def)
next
  case (Inl e)
  let ?fs0 = "unlink_node fs new"
  have keep: "?fs0 new = fs new \<or> ?fs0 new = None" by (simp add: unlink_node_def)
  show ?thesis
  proof (cases "e = EEXIST \<and> contains new ''/var/lib/dpkg/status-old''")
    case False
    with assms Inl show ?thesis by (auto simp: open_copy_target_def)
  next
    case True
    then show ?thesis
    proof (cases "create_excl env ?fs0 new (mode mod 512)")
      case Inl2: (Inl e2)
      with assms Inl True keep show ?thesis by (auto simp: open_copy_target_def Let_def)
    next
      case Inr2: (Inr fs2)
      have "fs2 = fs(new \<mapsto> HReg (mode mod 512) [])"
        using create_excl_Inr [OF Inr2] by (auto simp: unlink_node_def fun_eq_iff)
      with assms Inl True Inr2 show ?thesis by (auto simp: open_copy_target_def Let_def)
    qed
  qed
qed

lemma fill_copy_cases:
  assumes "fill_copy env fs1 new mode data = (rc, fs2)"
  shows "(\<forall>p. p \<noteq> new \<longrightarrow> fs2 p = fs1 p) \<and>
    (case rc of None \<Rightarrow> fs2 new = Some (HReg (mode mod 4096) data) | Some e \<Rightarrow> fs2 new = None)"
proof -
  obtain rc0 out where loop: "copy_loop env 0 data [] = (rc0, out)" by fastforce
  show ?thesis
    using assms loop copy_loop_result [OF loop] by (auto simp: fill_copy_def Let_def split: if_splits option.splits)
qed

lemma copy_outcome:
  assumes "copy_file_for_linkat env fs old new flags = (rc, fs')"
  shows "(\<forall>p. p \<noteq> new \<longrightarrow> fs' p = fs p) \<and>
    (case rc of
       None \<Rightarrow> (\<exists>mode data. fs (ce_real env old) = Some (HReg mode data) \<and>
                fs' new = Some (HReg (mode mod 4096) data) \<and>
                (fs new = None \<or> contains new ''/var/lib/dpkg/status-old''))
     | Some e \<Rightarrow> fs' new = fs new \<or> fs' new = None)"
proof (cases "flags AND NOT AT_SYMLINK_FOLLOW = 0 \<and>
    (\<exists>mode data. fs (ce_real env old) = Some (HReg mode data) \<and> ce_open_src env = None)")
  case False
  then have "fs' = fs \<and> (\<exists>e. rc = Some e)"
    using assms
    by (auto simp: copy_file_for_linkat_def split: if_splits option.splits hnode.splits) (metis option.exhaust)+
  then show ?thesis by auto
next
  case True
  then obtain mode data where src: "fs (ce_real env old) = Some (HReg mode data)" "ce_open_src env = None"
    and fl: "flags AND NOT AT_SYMLINK_FOLLOW = 0" by blast
  obtain dst fs1 where o: "open_copy_target env fs new mode = (dst, fs1)" by fastforce
  note oc = open_copy_target_cases [OF o]
  show ?thesis
  proof (cases dst)
    case (Some e)
    then show ?thesis using assms src fl o oc by (auto simp: copy_file_for_linkat_def)
  next
    case None
    then have f: "fill_copy env fs1 new mode data = (rc, fs')"
      using assms src fl o by (simp add: copy_file_for_linkat_def)
    show ?thesis using fill_copy_cases [OF f] oc None src by (auto split: option.splits)
  qed
qed

end
