(* ===== verification/Path_Rewrite.thy ===== *)
theory Path_Rewrite
  imports Path_Validate Tracee_Table Host_Files
begin

text \<open>
  Rewriting the path arguments of a stopped system call: \<open>complete_emulated_syscall\<close>,
  \<open>deny_path_syscall\<close> and the \<open>rewrite_*\<close> functions of the direct executor. The registers
  are a local copy (as \<open>struct user_pt_regs\<close> is in the code) next to the machine, which holds
  the kernel's registers, the pending call number, the traced memory, the path caches and the
  host files the executor itself writes.
\<close>

section \<open>Registers, machine, host\<close>

record machine =
  mc_mem :: vmem
  mc_cache :: path_cache
  mc_regs :: regs
  mc_nr :: int
  mc_fs :: hfs

record tracer_cfg =
  tc_rootfs :: string
  tc_binds :: "bind_map list"
  tc_rootfs_fd :: int
  tc_rootfd_rewrite :: bool
  tc_tty :: bool

text \<open>
  What the host answers during the handling of one stop: \<open>realpath\<close>, \<open>access\<close> for existence,
  for execution and for a given mode, the readable files, the links under \<open>/proc/PID/fd\<close> and
  \<open>/proc/PID/cwd\<close>, the two \<open>PTRACE_SETREGSET\<close> calls, the uninitialised stack bytes a buffer
  starts with, the value \<open>errno\<close> has after a failed transfer to the traced process, the
  outcome of opening a file for appending (\<open>Some mode\<close> with the mode of a created file), and
  the failures of a file copy.
\<close>

record host =
  ho_realpath :: "string \<Rightarrow> errno + string"
  ho_access :: "string \<Rightarrow> bool"
  ho_fd_link :: "int \<Rightarrow> errno + string"
  ho_setnr_ok :: bool
  ho_setregs_ok :: bool
  ho_stack :: string
  ho_access_x :: "string \<Rightarrow> bool"
  ho_access_mode :: "string \<Rightarrow> int \<Rightarrow> errno option"
  ho_file :: "string \<Rightarrow> string option"
  ho_errno :: nat
  ho_append :: "string \<Rightarrow> nat option"
  ho_copy :: copy_env

definition set_regs :: "host \<Rightarrow> regs \<Rightarrow> machine \<Rightarrow> bool \<times> machine" where
  "set_regs ho r mc = (if ho_setregs_ok ho then (True, mc\<lparr>mc_regs := r\<rparr>) else (False, mc))"

definition set_syscall_number :: "host \<Rightarrow> int \<Rightarrow> machine \<Rightarrow> bool \<times> machine" where
  "set_syscall_number ho nr mc = (if ho_setnr_ok ho then (True, mc\<lparr>mc_nr := nr\<rparr>) else (False, mc))"

definition maybe_advance_past_svc :: "vmem \<Rightarrow> regs \<Rightarrow> regs" where
  "maybe_advance_past_svc m r =
     (if read_tracee_u32 m (rg_pc r) = Some 0xd4000001 then r\<lparr>rg_pc := rg_pc r + 4\<rparr> else r)"

definition complete_emulated_syscall :: "host \<Rightarrow> regs \<Rightarrow> u64 \<Rightarrow> machine \<Rightarrow> bool \<times> regs \<times> machine" where
  "complete_emulated_syscall ho r result mc =
     (let r1 = set_rg 8 (- 1) (set_rg 0 result r); (ok, mc1) = set_syscall_number ho (- 1) mc
      in if \<not> ok then (False, r1, mc1)
         else let r2 = maybe_advance_past_svc (mc_mem mc1) r1; (ok2, mc2) = set_regs ho r2 mc1
              in (ok2, r2, mc2))"

section \<open>Relative paths\<close>

definition AT_FDCWD :: int where
  "AT_FDCWD = - 100"

definition int_arg :: "u64 \<Rightarrow> int" where
  "int_arg v = sint (ucast v :: u32)"

definition tracee_dirfd_base :: "host \<Rightarrow> int \<Rightarrow> nat \<Rightarrow> errno + string" where
  "tracee_dirfd_base ho dirfd out_len =
     (case ho_fd_link ho dirfd of Inl e \<Rightarrow> Inl e | Inr s \<Rightarrow> Inr (take (out_len - 1) s))"

abbreviation allowed_path :: "tracer_cfg \<Rightarrow> string \<Rightarrow> bool" where
  "allowed_path cfg \<equiv> host_path_is_under_allowed_host_path (tc_binds cfg) (tc_rootfs cfg)"

abbreviation validate_path ::
  "tracer_cfg \<Rightarrow> host \<Rightarrow> path_cache \<Rightarrow> string \<Rightarrow> bool \<Rightarrow> errno option \<times> path_cache" where
  "validate_path cfg ho \<equiv>
     validate_host_path_under_allowed (ho_realpath ho) (tc_tty cfg) (tc_binds cfg) (tc_rootfs cfg)"

definition validate_relative_tracee_path ::
  "tracer_cfg \<Rightarrow> host \<Rightarrow> path_cache \<Rightarrow> int \<Rightarrow> string \<Rightarrow> bool \<Rightarrow> errno option \<times> path_cache" where
  "validate_relative_tracee_path cfg ho pc dirfd path follow =
     (case tracee_dirfd_base ho dirfd PATH_MAX of
        Inl e \<Rightarrow> (Some e, pc)
      | Inr base \<Rightarrow>
          if \<not> allowed_path cfg base then (Some EXDEV, pc)
          else if path = [] then (None, pc)
          else
            let candidate = base @ ''/'' @ path
            in if PATH_MAX \<le> length candidate then (Some ENAMETOOLONG, pc)
               else validate_path cfg ho pc candidate follow)"

section \<open>Denials and rewrites\<close>

datatype rewrite_result = RwNo | RwYes | RwCompleted

text \<open>A denial puts the negative error number into the result register and skips the call.\<close>

definition deny_path_syscall :: "host \<Rightarrow> errno \<Rightarrow> regs \<Rightarrow> machine \<Rightarrow> rewrite_result \<times> regs \<times> machine" where
  "deny_path_syscall ho e r mc =
     (let (ok, r1, mc1) = complete_emulated_syscall ho r (neg_errno e) mc
      in (if ok then RwCompleted else RwNo, r1, mc1))"

definition scratch_addr :: "regs \<Rightarrow> u64 \<Rightarrow> u64" where
  "scratch_addr r off = (rg_sp r - off) AND NOT 15"

definition resolve_guest :: "tracer_cfg \<Rightarrow> host \<Rightarrow> string \<Rightarrow> errno + (string \<times> bool) option" where
  "resolve_guest cfg ho guest =
     resolve_guest_host_path (ho_access ho) (tc_tty cfg) (tc_binds cfg) (tc_rootfs cfg) guest PATH_MAX"

definition rewrite_path_arg_scratch ::
  "tracer_cfg \<Rightarrow> host \<Rightarrow> nat \<Rightarrow> u64 \<Rightarrow> regs \<Rightarrow> machine \<Rightarrow> rewrite_result \<times> regs \<times> machine" where
  "rewrite_path_arg_scratch cfg ho arg off r mc =
     (case read_tracee_string (mc_mem mc) (rg r arg) PATH_MAX of
        None \<Rightarrow> (RwNo, r, mc)
      | Some original \<Rightarrow>
          (case resolve_guest cfg ho original of
             Inr None \<Rightarrow> (RwNo, r, mc)
           | Inl e \<Rightarrow> (RwNo, r, mc)
           | Inr (Some (rewritten, bind)) \<Rightarrow>
               let (rc, pc1) = validate_path cfg ho (mc_cache mc) rewritten True;
                   mc1 = mc\<lparr>mc_cache := pc1\<rparr>
               in case rc of
                    Some e \<Rightarrow> deny_path_syscall ho e r mc1
                  | None \<Rightarrow>
                      let scratch = scratch_addr r off;
                          (ok, m1) = write_tracee_string (mc_mem mc1) scratch rewritten;
                          mc2 = mc1\<lparr>mc_mem := m1\<rparr>
                      in if \<not> ok then (RwNo, r, mc2) else (RwYes, set_rg arg scratch r, mc2)))"

definition rewrite_path_arg ::
  "tracer_cfg \<Rightarrow> host \<Rightarrow> nat \<Rightarrow> regs \<Rightarrow> machine \<Rightarrow> rewrite_result \<times> regs \<times> machine" where
  "rewrite_path_arg cfg ho arg = rewrite_path_arg_scratch cfg ho arg 8192"

definition rewrite_at_path_arg ::
  "tracer_cfg \<Rightarrow> host \<Rightarrow> string \<Rightarrow> nat \<Rightarrow> nat \<Rightarrow> u64 \<Rightarrow> regs \<Rightarrow> machine
     \<Rightarrow> rewrite_result \<times> regs \<times> machine" where
  "rewrite_at_path_arg cfg ho context dirfd_index path_index off r mc =
     (case read_tracee_string (mc_mem mc) (rg r path_index) PATH_MAX of
        None \<Rightarrow> (RwNo, r, mc)
      | Some original \<Rightarrow>
          let follow = path_context_follows_final_component context
          in if original = [] then (RwNo, r, mc)
             else if hd original \<noteq> slash then
               let (rc, pc1) = validate_relative_tracee_path cfg ho (mc_cache mc)
                                 (int_arg (rg r dirfd_index)) original follow;
                   mc1 = mc\<lparr>mc_cache := pc1\<rparr>
               in case rc of
                    Some e \<Rightarrow> deny_path_syscall ho e r mc1
                  | None \<Rightarrow> (RwNo, r, mc1)
             else
               case resolve_guest cfg ho original of
                 Inr None \<Rightarrow> (RwNo, r, mc)
               | Inl e \<Rightarrow> deny_path_syscall ho e r mc
               | Inr (Some (rewritten, bind)) \<Rightarrow>
                   let (rc, pc1) = validate_path cfg ho (mc_cache mc) rewritten follow;
                       mc1 = mc\<lparr>mc_cache := pc1\<rparr>
                   in case rc of
                        Some e \<Rightarrow> deny_path_syscall ho e r mc1
                      | None \<Rightarrow>
                          if \<not> bind \<and> tc_rootfd_rewrite cfg \<and> 0 \<le> tc_rootfs_fd cfg \<and>
                             tl original \<noteq> [] \<and> hd (tl original) \<noteq> slash \<and>
                             \<not> path_has_parent_segment original
                          then
                            let r1 = set_rg dirfd_index (of_int (tc_rootfs_fd cfg)) r
                            in (RwYes, set_rg path_index (rg r1 path_index + 1) r1, mc1)
                          else
                            let scratch = scratch_addr r off;
                                (ok, m1) = write_tracee_string (mc_mem mc1) scratch rewritten;
                                mc2 = mc1\<lparr>mc_mem := m1\<rparr>
                            in if \<not> ok then (RwNo, r, mc2)
                               else (RwYes, set_rg path_index scratch r, mc2))"

definition rewrite_at_path_args ::
  "tracer_cfg \<Rightarrow> host \<Rightarrow> string \<Rightarrow> nat \<Rightarrow> nat \<Rightarrow> nat \<Rightarrow> nat \<Rightarrow> regs \<Rightarrow> machine
     \<Rightarrow> rewrite_result \<times> regs \<times> machine" where
  "rewrite_at_path_args cfg ho context dirfd_a path_a dirfd_b path_b r mc =
     (case rewrite_at_path_arg cfg ho context dirfd_a path_a 16384 r mc of
        (RwCompleted, r1, mc1) \<Rightarrow> (RwCompleted, r1, mc1)
      | (a, r1, mc1) \<Rightarrow>
          (case rewrite_at_path_arg cfg ho context dirfd_b path_b 8192 r1 mc1 of
             (RwCompleted, r2, mc2) \<Rightarrow> (RwCompleted, r2, mc2)
           | (b, r2, mc2) \<Rightarrow> (if a = RwYes \<or> b = RwYes then RwYes else RwNo, r2, mc2)))"

definition rewrite_chdir_arg ::
  "tracer_cfg \<Rightarrow> host \<Rightarrow> tracee \<Rightarrow> regs \<Rightarrow> machine \<Rightarrow> rewrite_result \<times> regs \<times> machine \<times> tracee" where
  "rewrite_chdir_arg cfg ho st r mc =
     (let st1 = (case read_tracee_string (mc_mem mc) (rg r 0) PATH_MAX of
                   None \<Rightarrow> st
                 | Some original \<Rightarrow>
                     st\<lparr>ts_pending_guest_cwd := normalize_guest_path (ts_guest_cwd st) original PATH_MAX\<rparr>);
          (rw, r1, mc1) = rewrite_path_arg cfg ho 0 r mc
      in (rw, r1, mc1, st1))"

section \<open>Socket addresses\<close>

definition SUN_PATH_LEN :: nat where "SUN_PATH_LEN = 108"
definition SUN_PATH_OFFSET :: nat where "SUN_PATH_OFFSET = 2"
definition SOCKADDR_UN_LEN :: nat where "SOCKADDR_UN_LEN = 110"

lemmas sockaddr_consts = SUN_PATH_LEN_def SUN_PATH_OFFSET_def SOCKADDR_UN_LEN_def

text \<open>
  The copy loop into \<open>guest\<close>, a stack buffer that starts with \<open>garbage\<close>: it stops after a
  NUL, at the end of the address or before the last byte. Only the last byte is then set to
  NUL, so without a NUL in the address the bytes after it stay what they were.
\<close>

fun copy_guest :: "nat \<Rightarrow> string \<Rightarrow> string" where
  "copy_guest 0 s = []"
| "copy_guest (Suc n) [] = []"
| "copy_guest (Suc n) (c # cs) = (if c = NUL then [NUL] else c # copy_guest n cs)"

definition sockaddr_guest :: "string \<Rightarrow> string \<Rightarrow> nat \<Rightarrow> string" where
  "sockaddr_guest garbage sun_path max_path =
     (let copied = copy_guest (min (SUN_PATH_LEN - 1) max_path) sun_path;
          buf = take (SUN_PATH_LEN - 1) (copied @ drop (length copied) garbage) @ [NUL]
      in takeWhile (\<lambda>c. c \<noteq> NUL) buf)"

definition rewrite_unix_sockaddr_arg ::
  "tracer_cfg \<Rightarrow> host \<Rightarrow> regs \<Rightarrow> machine \<Rightarrow> rewrite_result \<times> regs \<times> machine" where
  "rewrite_unix_sockaddr_arg cfg ho r mc =
     (let addr_ptr = rg r 1; len = rg r 2
      in if addr_ptr = 0 \<or> unat len < SUN_PATH_OFFSET + 1 then (RwNo, r, mc)
         else
           let to_read = min (unat len) SOCKADDR_UN_LEN; bytes = vm_read (mc_mem mc) addr_ptr to_read
           in if length bytes \<noteq> to_read then (RwNo, r, mc)
              else
                let addr = bytes @ replicate (SOCKADDR_UN_LEN - to_read) NUL;
                    sun_path = drop SUN_PATH_OFFSET addr
                in if le_nat (take 2 addr) \<noteq> 1 \<or> hd sun_path \<noteq> slash then (RwNo, r, mc)
                   else
                     let guest = sockaddr_guest (ho_stack ho) sun_path (to_read - SUN_PATH_OFFSET)
                     in if guest = [] \<or> hd guest \<noteq> slash then (RwNo, r, mc)
                        else if should_skip_unix_socket_rewrite guest then (RwNo, r, mc)
                        else
                          case resolve_guest cfg ho guest of
                            Inl e \<Rightarrow> (RwNo, r, mc)
                          | Inr None \<Rightarrow> (RwNo, r, mc)
                          | Inr (Some (rewritten, bind)) \<Rightarrow>
                              if SUN_PATH_LEN \<le> length rewritten then (RwNo, r, mc)
                              else
                                let out = le_bytes 2 1 @ rewritten @
                                          replicate (SUN_PATH_LEN - length rewritten) NUL;
                                    scratch = scratch_addr r 24576;
                                    (ok, m1) = write_tracee_data (mc_mem mc) scratch out;
                                    mc1 = mc\<lparr>mc_mem := m1\<rparr>
                                in if \<not> ok then (RwNo, r, mc1)
                                   else (RwYes,
                                         set_rg 2 (of_nat (SUN_PATH_OFFSET + length rewritten + 1)) (set_rg 1 scratch r),
                                         mc1))"

end
