(* ===== verification/Rewrite_Safety.thy ===== *)
theory Rewrite_Safety
  imports Path_Rewrite
begin

text \<open>
  What the path rewriting guarantees: a rewritten argument names a validated host path, a
  denied call is never executed, and (on a host whose \<open>ptrace\<close> calls succeed) a translated path
  is never passed on unvalidated. And where it does not: the prefixes that are not translated.
\<close>

section \<open>Completing a call\<close>

definition ptrace_ok :: "host \<Rightarrow> bool" where
  "ptrace_ok ho \<longleftrightarrow> ho_setnr_ok ho \<and> ho_setregs_ok ho"

lemma complete_ok:
  assumes "ptrace_ok ho"
  shows "\<exists>r1 mc1. complete_emulated_syscall ho r res mc = (True, r1, mc1) \<and> rg r1 0 = res \<and>
     rg r1 8 = - 1 \<and> (\<forall>i. i \<noteq> 0 \<and> i \<noteq> 8 \<longrightarrow> rg r1 i = rg r i) \<and> rg_sp r1 = rg_sp r \<and>
     mc1 = mc\<lparr>mc_nr := - 1, mc_regs := r1\<rparr>"
  using assms
  by (auto simp: complete_emulated_syscall_def Let_def ptrace_ok_def set_syscall_number_def set_regs_def
      maybe_advance_past_svc_def)

lemma complete_fst:
  assumes "complete_emulated_syscall ho r res mc = (True, r1, mc1)"
  shows "rg r1 0 = res \<and> mc_nr mc1 = - 1 \<and> mc_regs mc1 = r1 \<and> mc_mem mc1 = mc_mem mc \<and> mc_cache mc1 = mc_cache mc"
  using assms
  by (auto simp: complete_emulated_syscall_def Let_def set_syscall_number_def set_regs_def
      maybe_advance_past_svc_def split: if_splits)

lemma deny_completed:
  assumes "deny_path_syscall ho e r mc = (rw, r1, mc1)"
  shows "rw \<noteq> RwYes" and "rw = RwCompleted \<Longrightarrow> rg r1 0 = neg_errno e \<and> mc_nr mc1 = - 1 \<and> mc_regs mc1 = r1"
proof -
  obtain ok r2 mc2 where c: "complete_emulated_syscall ho r (neg_errno e) mc = (ok, r2, mc2)" by (metis prod_cases3)
  with assms have d: "rw = (if ok then RwCompleted else RwNo)" "r1 = r2" "mc1 = mc2"
    by (simp_all add: deny_path_syscall_def)
  then show "rw \<noteq> RwYes" by simp
  assume "rw = RwCompleted"
  with d c complete_fst [of ho r "neg_errno e" mc r2 mc2]
  show "rg r1 0 = neg_errno e \<and> mc_nr mc1 = - 1 \<and> mc_regs mc1 = r1"
    by (simp split: if_splits)
qed

lemma deny_ok: "ptrace_ok ho \<Longrightarrow> fst (deny_path_syscall ho e r mc) = RwCompleted"
  using complete_ok [of ho r "neg_errno e" mc] by (auto simp: deny_path_syscall_def)

section \<open>Strings that are handed over\<close>

definition cfg_ok :: "tracer_cfg \<Rightarrow> bool" where
  "cfg_ok cfg \<longleftrightarrow> NUL \<notin> set (tc_rootfs cfg) \<and> tc_rootfs cfg \<noteq> [] \<and>
     (\<forall>m \<in> set (tc_binds cfg). bind_wf m \<and> NUL \<notin> set (bm_host m))"

lemma resolve_guest_nonul:
  assumes "resolve_guest cfg ho g = Inr (Some (out, b))" "NUL \<notin> set g" "cfg_ok cfg"
  shows "NUL \<notin> set out"
proof -
  note un = resolve_guest_def resolve_guest_host_path_def Let_def
  consider (proc) "out = tc_rootfs cfg @ ''/.pdocker-proc'' @ drop (length ''/proc'') g"
    | (tty) "out = ''/proc/self/fd/0''"
    | (bind) "resolve_bind_path (tc_binds cfg) g PATH_MAX = Inr (Some out)"
    | (root) "out = tc_rootfs cfg @ g"
    using assms(1) unfolding un by (auto split: if_splits sum.splits option.splits)
  then show ?thesis
  proof cases
    case proc
    with assms(2,3) show ?thesis by (auto simp: cfg_ok_def dest: in_set_dropD)
  next
    case tty
    then show ?thesis by simp
  next
    case root
    with assms(2,3) show ?thesis by (simp add: cfg_ok_def)
  next
    case bind
    obtain m s where sel: "selected (tc_binds cfg) g m s" and out: "out = bind_out m s"
      using resolve_bind_path_Some [OF bind] by metis
    note mem = selected_mem [OF sel]
    have s: "NUL \<notin> set s" using bind_guest_match_Some [OF mem [THEN conjunct2]] assms(2) by auto
    have "NUL \<notin> set (bm_host m)" using mem assms(3) by (simp add: cfg_ok_def)
    with s out show ?thesis by (simp add: bind_out_def)
  qed
qed

lemma resolve_guest_length:
  assumes "resolve_guest cfg ho g = Inr (Some (out, b))"
  shows "length out < PATH_MAX"
proof -
  note un = resolve_guest_def resolve_guest_host_path_def Let_def
  show ?thesis
    using assms resolve_bind_path_Some [of "tc_binds cfg" g PATH_MAX out]
    unfolding un by (auto simp: PATH_MAX_def split: if_splits sum.splits option.splits)
qed

text \<open>On AArch64 a writable page is readable.\<close>

definition w_implies_r :: "vmem \<Rightarrow> bool" where
  "w_implies_r m \<longleftrightarrow> (\<forall>x. vm_w m x \<longrightarrow> vm_r m x)"

lemma vm_write_complete:
  "snd (vm_write m a s) = length s \<Longrightarrow> k < length s \<Longrightarrow> vm_w m (a + of_nat k)"
proof (induction m a s arbitrary: k rule: vm_write.induct)
  case (2 m a c cs)
  have w: "vm_w m a" using 2(2) by (auto simp: case_prod_unfold Let_def split: if_splits)
  show ?case
  proof (cases k)
    case (Suc j)
    with 2 w have "vm_w (m\<lparr>vm_byte := (vm_byte m)(a := c)\<rparr>) (a + 1 + of_nat j)"
      by (simp add: case_prod_unfold Let_def)
    with Suc show ?thesis by (simp add: algebra_simps)
  qed (use w in simp)
qed simp

lemma written_string:
  assumes "write_tracee_string m a s = (True, m')" "NUL \<notin> set s" "length s < PATH_MAX" "w_implies_r m"
  shows "c_string m' a s"
proof -
  have "fst (write_tracee_string m a s)" using assms(1) by simp
  then have "snd (vm_write m a (s @ [NUL])) = length (s @ [NUL])"
    by (simp add: write_tracee_string_def write_tracee_data_fst)
  then have "accessible m a (Suc (length s))"
    using vm_write_complete [of m a "s @ [NUL]"] assms(4) by (simp add: accessible_def w_implies_r_def)
  from write_string_c_string [OF assms(2) this] assms(1,3) show ?thesis by (simp add: PATH_MAX_def)
qed

section \<open>The safety of one path argument\<close>

definition accepted :: "tracer_cfg \<Rightarrow> host \<Rightarrow> string \<Rightarrow> bool \<Rightarrow> bool" where
  "accepted cfg ho path follow \<longleftrightarrow>
     validate_pure (ho_realpath ho) (tc_tty cfg) (allowed_path cfg) path follow = None"

abbreviation cache_ok :: "tracer_cfg \<Rightarrow> host \<Rightarrow> path_cache \<Rightarrow> bool" where
  "cache_ok cfg ho \<equiv> caches_coherent (ho_realpath ho) (tc_tty cfg) (tc_binds cfg) (tc_rootfs cfg)"

lemma validate_path_fst:
  assumes "cache_ok cfg ho pc" "rp_ok (ho_realpath ho)" "length p < PATH_MAX" "validate_path cfg ho pc p f = (rc, pc1)"
  shows "rc = None \<longleftrightarrow> accepted cfg ho p f" and "cache_ok cfg ho pc1"
  using validate_host_path_correct [OF assms(1-3), of f] assms(4) by (simp_all add: accepted_def)

text \<open>The two forms a rewritten argument can take.\<close>

definition scratch_form :: "tracer_cfg \<Rightarrow> string \<Rightarrow> regs \<Rightarrow> nat \<Rightarrow> u64 \<Rightarrow> regs \<Rightarrow> machine \<Rightarrow> bool" where
  "scratch_form cfg path r p off r' mc' \<longleftrightarrow>
     r' = set_rg p (scratch_addr r off) r \<and> c_string (mc_mem mc') (scratch_addr r off) path"

definition rootfd_form :: "tracer_cfg \<Rightarrow> string \<Rightarrow> string \<Rightarrow> regs \<Rightarrow> nat \<Rightarrow> nat \<Rightarrow> regs \<Rightarrow> machine \<Rightarrow> machine \<Rightarrow> bool" where
  "rootfd_form cfg original path r d p r' mc mc' \<longleftrightarrow>
     (path = tc_rootfs cfg @ original \<or> original = ''/proc'' \<or> prefix ''/proc/'' original \<or> original = ''/dev/tty'') \<and>
     \<not> path_has_parent_segment original \<and>
     r' = set_rg p (rg (set_rg d (of_int (tc_rootfs_fd cfg)) r) p + 1) (set_rg d (of_int (tc_rootfs_fd cfg)) r) \<and>
     mc_mem mc' = mc_mem mc"

lemma rewrite_at_cases:
  assumes rw: "rewrite_at_path_arg cfg ho context d p off r mc = (res, r', mc')"
    and co: "cache_ok cfg ho (mc_cache mc)" "rp_ok (ho_realpath ho)" and cfg: "cfg_ok cfg" and w: "w_implies_r (mc_mem mc)"
    and orig: "read_tracee_string (mc_mem mc) (rg r p) PATH_MAX = Some original" "original \<noteq> []" "hd original = slash"
  obtains (skip) "resolve_guest cfg ho original = Inr None" "res = RwNo" "r' = r" "mc' = mc"
  | (long) e where "resolve_guest cfg ho original = Inl e" "deny_path_syscall ho e r mc = (res, r', mc')"
  | (deny) path b e pc where "resolve_guest cfg ho original = Inr (Some (path, b))"
      "\<not> accepted cfg ho path (path_context_follows_final_component context)"
      "deny_path_syscall ho e r (mc\<lparr>mc_cache := pc\<rparr>) = (res, r', mc')"
  | (yes) path b where "resolve_guest cfg ho original = Inr (Some (path, b))"
      "accepted cfg ho path (path_context_follows_final_component context)" "res = RwYes"
      "scratch_form cfg path r p off r' mc' \<or> rootfd_form cfg original path r d p r' mc mc'"
  | (nowrite) path b where "resolve_guest cfg ho original = Inr (Some (path, b))"
      "accepted cfg ho path (path_context_follows_final_component context)" "res = RwNo" "r' = r"
      "\<not> fst (write_tracee_string (mc_mem mc) (scratch_addr r off) path)"
proof (cases "resolve_guest cfg ho original")
  case (Inl e)
  have "deny_path_syscall ho e r mc = (res, r', mc')"
    using rw orig by (simp add: rewrite_at_path_arg_def Let_def Inl)
  with Inl show thesis by (rule long)
next
  case (Inr o')
  show thesis
  proof (cases o')
    case None
    with Inr rw orig show thesis by (intro skip) (simp_all add: rewrite_at_path_arg_def Let_def)
  next
    case (Some pb)
    obtain path b where pb: "pb = (path, b)" by fastforce
    with Inr Some have rg: "resolve_guest cfg ho original = Inr (Some (path, b))" by simp
    let ?f = "path_context_follows_final_component context"
    obtain rc pc1 where v: "validate_path cfg ho (mc_cache mc) path ?f = (rc, pc1)" by fastforce
    note len = resolve_guest_length [OF rg]
    have nn: "NUL \<notin> set original" using read_tracee_string_bounds [OF orig(1)] by simp
    note pn = resolve_guest_nonul [OF rg nn cfg]
    note va = validate_path_fst [OF co len v]
    show thesis
    proof (cases rc)
      case e: (Some e)
      have "deny_path_syscall ho e r (mc\<lparr>mc_cache := pc1\<rparr>) = (res, r', mc')"
        using rw orig v by (simp add: rewrite_at_path_arg_def Let_def rg e)
      with rg va(1) e show thesis by (intro deny) simp_all
    next
      case rcn: None
      with va(1) have acc: "accepted cfg ho path ?f" by simp
      let ?root = "\<not> b \<and> tc_rootfd_rewrite cfg \<and> 0 \<le> tc_rootfs_fd cfg \<and>
          tl original \<noteq> [] \<and> hd (tl original) \<noteq> slash \<and> \<not> path_has_parent_segment original"
      obtain ok m1 where wr: "write_tracee_string (mc_mem mc) (scratch_addr r off) path = (ok, m1)" by fastforce
      have wr2: "write_tracee_string (mc_mem (mc\<lparr>mc_cache := pc1\<rparr>)) (scratch_addr r off) path = (ok, m1)"
        using wr by simp
      have nabs: "(original = []) = False" "(hd original \<noteq> slash) = False" using orig by simp_all
      have "rewrite_at_path_arg cfg ho context d p off r mc =
         (if ?root then
            let r1 = set_rg d (of_int (tc_rootfs_fd cfg)) r
            in (RwYes, set_rg p (rg r1 p + 1) r1, mc\<lparr>mc_cache := pc1\<rparr>)
          else if \<not> ok then (RwNo, r, mc\<lparr>mc_cache := pc1, mc_mem := m1\<rparr>)
          else (RwYes, set_rg p (scratch_addr r off) r, mc\<lparr>mc_cache := pc1, mc_mem := m1\<rparr>))"
        unfolding rewrite_at_path_arg_def
        by (simp only: orig(1) nabs Let_def rg v wr2 rcn sum.case option.case prod.case if_False)
      with rw have main: "(res, r', mc') =
         (if ?root then
            let r1 = set_rg d (of_int (tc_rootfs_fd cfg)) r
            in (RwYes, set_rg p (rg r1 p + 1) r1, mc\<lparr>mc_cache := pc1\<rparr>)
          else if \<not> ok then (RwNo, r, mc\<lparr>mc_cache := pc1, mc_mem := m1\<rparr>)
          else (RwYes, set_rg p (scratch_addr r off) r, mc\<lparr>mc_cache := pc1, mc_mem := m1\<rparr>))"
        by (simp only:)
      show thesis
      proof (cases ?root)
        case True
        have nb: "\<not> b" using True by simp
        have root: "path = tc_rootfs cfg @ original \<or> original = ''/proc'' \<or> prefix ''/proc/'' original \<or>
            original = ''/dev/tty''"
        proof (rule ccontr)
          assume n: "\<not> ?thesis"
          then have "\<not> (original = ''/proc'' \<or> prefix ''/proc/'' original)" "\<not> (original = ''/dev/tty'' \<and> tc_tty cfg)"
            by blast+
          with rg nb n show False
            unfolding resolve_guest_def resolve_guest_host_path_def Let_def
            by (simp only: if_False split: if_splits sum.splits option.splits) simp_all
        qed
        from main True root have "res = RwYes" "rootfd_form cfg original path r d p r' mc mc'"
          by (simp_all add: rootfd_form_def Let_def)
        with yes [OF rg acc] show thesis by blast
      next
        case False
        show thesis
        proof (cases ok)
          case True
          have "c_string m1 (scratch_addr r off) path"
            using written_string [OF _ pn len w] wr True by simp
          with main False True have "res = RwYes" "scratch_form cfg path r p off r' mc'"
            by (simp_all add: scratch_form_def)
          with yes [OF rg acc] show thesis by blast
        next
          case nok: False
          with main False have "res = RwNo" "r' = r" by simp_all
          moreover have "\<not> fst (write_tracee_string (mc_mem mc) (scratch_addr r off) path)" using wr nok by simp
          ultimately show thesis using nowrite [OF rg acc] by blast
        qed
      qed
    qed
  qed
qed

end
