(* ===== verification/Rewrite_Theorems.thy ===== *)
theory Rewrite_Theorems
  imports Rewrite_Safety Path_Session
begin

text \<open>The properties of the path rewriting.\<close>

text \<open>C18. What becomes of an absolute path the executor translates. Either the argument now points to
  the translated path, which validation accepts (or to the guest path relative to the root directory's
  descriptor), or the call is completed with a negative error number and its number is set to -1, or the
  scratch area below the stack pointer, which the guest controls, cannot be written: then the call goes
  on with the argument it had and the kernel sees the untranslated path, although the translated one was
  accepted. The \<open>ptrace\<close> calls that complete a call succeed, the caches are coherent, \<open>realpath\<close> answers fit
  their buffer, and writable memory is readable.\<close>

theorem translated_path_outcomes:
  assumes "rewrite_at_path_arg cfg ho context d p off r mc = (res, r', mc')"
    and "cache_ok cfg ho (mc_cache mc)" "rp_ok (ho_realpath ho)" "cfg_ok cfg" "w_implies_r (mc_mem mc)" "ptrace_ok ho"
    and "read_tracee_string (mc_mem mc) (rg r p) PATH_MAX = Some original" "original \<noteq> []" "hd original = slash"
    and "resolve_guest cfg ho original \<noteq> Inr None"
  shows "(res = RwYes \<and> (\<exists>path b. resolve_guest cfg ho original = Inr (Some (path, b)) \<and>
            accepted cfg ho path (path_context_follows_final_component context) \<and>
            (scratch_form cfg path r p off r' mc' \<or> rootfd_form cfg original path r d p r' mc mc')))
         \<or> (res = RwCompleted \<and> mc_nr mc' = - 1 \<and> mc_regs mc' = r' \<and> (\<exists>e. rg r' 0 = neg_errno e))
         \<or> (res = RwNo \<and> r' = r \<and> (\<exists>path b. resolve_guest cfg ho original = Inr (Some (path, b)) \<and>
            accepted cfg ho path (path_context_follows_final_component context) \<and>
            \<not> accessible (mc_mem mc) (scratch_addr r off) (Suc (length path))))"
  using assms(1-5,7-9)
proof (cases rule: rewrite_at_cases)
  case skip
  with assms(10) show ?thesis by simp
next
  case (long e)
  have "res = RwCompleted" using long(2) deny_ok [OF assms(6), of e r mc] by simp
  with deny_completed(2) [OF long(2)] show ?thesis by blast
next
  case (deny path b e pc)
  have "res = RwCompleted" using deny(3) deny_ok [OF assms(6), of e r "mc\<lparr>mc_cache := pc\<rparr>"] by simp
  with deny_completed(2) [OF deny(3)] show ?thesis by blast
next
  case (yes path b)
  then show ?thesis by blast
next
  case (nowrite path b)
  have "\<not> accessible (mc_mem mc) (scratch_addr r off) (Suc (length path))"
    using nowrite(5) tm.put_ok [of "mc_mem mc" "scratch_addr r off" "path @ [NUL]"] by (auto simp: write_tracee_string_def)
  with nowrite show ?thesis by blast
qed

text \<open>The last case happens: a guest that points its stack pointer to memory it cannot write has its path
  looked up by the kernel in the host's file system.\<close>

theorem unwritable_stack_passes_guest_path:
  assumes "read_tracee_string (mc_mem mc) (rg r p) PATH_MAX = Some original" "original \<noteq> []" "hd original = slash"
    and "resolve_guest cfg ho original = Inr (Some (path, b))"
    and "validate_path cfg ho (mc_cache mc) path (path_context_follows_final_component context) = (None, pc)"
    and "\<not> tc_rootfd_rewrite cfg" "\<not> vm_w (mc_mem mc) (scratch_addr r off)"
  shows "rewrite_at_path_arg cfg ho context d p off r mc = (RwNo, r, mc\<lparr>mc_cache := pc\<rparr>)"
proof -
  have "vm_write (mc_mem mc) (scratch_addr r off) (path @ [NUL]) = (mc_mem mc, 0)"
    using assms(7) by (intro vm_write_none) auto
  then have "write_tracee_string (mc_mem mc) (scratch_addr r off) path = (False, mc_mem mc)"
    by (simp add: write_tracee_string_def write_tracee_data_def)
  then show ?thesis using assms(1-6) by (simp add: rewrite_at_path_arg_def Let_def)
qed

text \<open>A machine with the string \<open>/x\<close> at address 4096 and the argument register 1 on it.\<close>

definition demo_vmem :: vmem where
  "demo_vmem = \<lparr>vm_byte = (\<lambda>a. if a = 4096 then slash else if a = 4097 then CHR ''x'' else NUL),
     vm_mapped = (\<lambda>_. True), vm_r = (\<lambda>_. True), vm_w = (\<lambda>_. True)\<rparr>"

definition demo_regs :: regs where
  "demo_regs = \<lparr>rg = (\<lambda>_. 4096), rg_sp = 65536, rg_pc = 512\<rparr>"

definition demo_machine :: machine where
  "demo_machine = \<lparr>mc_mem = demo_vmem, mc_cache = path_cache_init True, mc_regs = demo_regs, mc_nr = 56, mc_fs = Map.empty\<rparr>"

definition demo_tracer :: tracer_cfg where
  "demo_tracer = \<lparr>tc_rootfs = ''/r'', tc_binds = [], tc_rootfs_fd = - 1, tc_rootfd_rewrite = False, tc_tty = False\<rparr>"

definition demo_copy :: copy_env where
  "demo_copy = \<lparr>ce_real = (\<lambda>p. p), ce_open_src = None, ce_open_dst = None, ce_read = (\<lambda>_. None),
     ce_write = (\<lambda>_. None), ce_fchmod = None, ce_close = None\<rparr>"

definition demo_host :: host where
  "demo_host = \<lparr>ho_realpath = (\<lambda>p. if p = ''/r'' then Inr ''/r'' else Inl ENOENT), ho_access = (\<lambda>_. False),
     ho_fd_link = (\<lambda>_. Inl ENOENT), ho_setnr_ok = True, ho_setregs_ok = True, ho_stack = [],
     ho_access_x = (\<lambda>_. False), ho_access_mode = (\<lambda>_ _. Some ENOENT), ho_file = (\<lambda>_. None), ho_errno = 14,
     ho_append = (\<lambda>_. None), ho_copy = demo_copy\<rparr>"

lemma demo_read: "read_tracee_string (mc_mem demo_machine) (rg demo_regs 1) PATH_MAX = Some ''/x''"
proof -
  have "c_string demo_vmem 4096 ''/x''" by (simp add: demo_vmem_def)
  from read_tracee_string_spec [OF this, of PATH_MAX] show ?thesis
    by (simp add: PATH_MAX_def demo_machine_def demo_regs_def)
qed

lemma demo_resolve: "resolve_guest demo_tracer ho ''/x'' = Inr (Some (''/r/x'', False))"
  by (simp add: resolve_guest_def resolve_guest_host_path_def should_rewrite_path_def resolve_bind_path_def
      PATH_MAX_def demo_tracer_def)

lemma demo_rp_ok: "rp_ok (ho_realpath demo_host)"
  by (simp add: rp_ok_def PATH_MAX_def demo_host_def)

lemma demo_cache: "cache_ok demo_tracer demo_host (mc_cache demo_machine)"
  using session_inv_init [OF demo_rp_ok, of "tc_tty demo_tracer" "tc_binds demo_tracer" "tc_rootfs demo_tracer" True]
  by (simp add: session_inv_def demo_machine_def)

lemma demo_cfg_ok: "cfg_ok demo_tracer"
  by (simp add: cfg_ok_def demo_tracer_def)

lemma demo_env_ok: "w_implies_r (mc_mem demo_machine)" "ptrace_ok demo_host" "accessible (mc_mem demo_machine) a n"
  by (simp_all add: w_implies_r_def ptrace_ok_def accessible_def demo_machine_def demo_vmem_def demo_host_def)

theorem translated_path_outcomes_witness:
  "\<exists>res r' mc'. rewrite_at_path_arg demo_tracer demo_host ''openat'' 0 1 8192 demo_regs demo_machine = (res, r', mc') \<and>
     ((res = RwYes \<and> (\<exists>path b. resolve_guest demo_tracer demo_host ''/x'' = Inr (Some (path, b)) \<and>
          accepted demo_tracer demo_host path (path_context_follows_final_component ''openat'') \<and>
          (scratch_form demo_tracer path demo_regs 1 8192 r' mc' \<or>
           rootfd_form demo_tracer ''/x'' path demo_regs 0 1 r' demo_machine mc')))
      \<or> (res = RwCompleted \<and> mc_nr mc' = - 1 \<and> mc_regs mc' = r' \<and> (\<exists>e. rg r' 0 = neg_errno e)))"
proof -
  obtain res r' mc' where rw: "rewrite_at_path_arg demo_tracer demo_host ''openat'' 0 1 8192 demo_regs demo_machine
      = (res, r', mc')" by (metis prod_cases3)
  have "''/x'' \<noteq> []" "hd ''/x'' = slash" "resolve_guest demo_tracer demo_host ''/x'' \<noteq> Inr None"
    by (simp_all add: demo_resolve)
  from translated_path_outcomes [OF rw demo_cache demo_rp_ok demo_cfg_ok demo_env_ok(1,2) demo_read this] rw demo_env_ok(3)
  show ?thesis by blast
qed

text \<open>C27. Paths under \<open>/dev\<close> and \<open>/sys\<close> are handed to the kernel as they are, parent segments
  included: \<open>/dev/../x\<close> is the host's \<open>/x\<close>, and it is neither translated nor validated.\<close>

theorem device_parent_paths_escape:
  assumes "read_tracee_string (mc_mem mc) (rg r p) PATH_MAX = Some (pre @ ''/../'' @ rest)"
    and "pre \<in> {''/dev'', ''/sys''}"
  shows "rewrite_at_path_arg cfg ho context d p off r mc = (RwNo, r, mc) \<and>
    resolve_dots (components (pre @ ''/../'' @ rest)) = resolve_dots (components rest)"
proof -
  let ?g = "pre @ ''/../'' @ rest"
  from assms(2) have pre: "pre = ''/dev'' \<or> pre = ''/sys''" by blast
  then have np: "\<not> (?g = ''/proc'' \<or> prefix ''/proc/'' ?g)" and nt: "\<not> (?g = ''/dev/tty'' \<and> tc_tty cfg)" by auto
  have "prefix ''/dev/'' ?g \<or> prefix ''/sys/'' ?g" using pre by auto
  then have "\<not> should_rewrite_path (tc_rootfs cfg) ?g" by (auto simp: should_rewrite_path_def)
  with np nt have "resolve_guest cfg ho ?g = Inr None"
    by (simp only: resolve_guest_def resolve_guest_host_path_def if_False simp_thms if_True)
  then have rw: "rewrite_at_path_arg cfg ho context d p off r mc = (RwNo, r, mc)"
    using assms by (auto simp: rewrite_at_path_arg_def Let_def)
  have c: "components (c @ ''/../'' @ rest) = components c @ ''..'' # components rest" for c
    using components_append_slash [of c "''../'' @ rest"] components_seg_slash [of "''..''" rest]
    by (simp add: plain_seg_def)
  from pre have "components pre = [''dev''] \<or> components pre = [''sys'']" by (auto simp: components_def)
  with rw show ?thesis
    unfolding c by (auto simp: resolve_dots_def dot_step_def)
qed

text \<open>A machine whose argument register 1 points to a given string.\<close>

definition string_vmem :: "string \<Rightarrow> vmem" where
  "string_vmem s = demo_vmem\<lparr>vm_byte := (\<lambda>a. if unat (a - 4096) < length s then s ! unat (a - 4096) else NUL)\<rparr>"

definition string_machine :: "string \<Rightarrow> machine" where
  "string_machine s = demo_machine\<lparr>mc_mem := string_vmem s\<rparr>"

lemma string_vmem_sel [simp]:
  "vm_r (string_vmem s) a" "vm_w (string_vmem s) a"
  "vm_byte (string_vmem s) a = (if unat (a - 4096) < length s then s ! unat (a - 4096) else NUL)"
  by (simp_all add: string_vmem_def demo_vmem_def)

lemma string_machine_read:
  assumes "c_string (string_vmem s) 4096 s" "length s < PATH_MAX"
  shows "read_tracee_string (mc_mem (string_machine s)) (rg demo_regs 1) PATH_MAX = Some s"
  using read_tracee_string_spec [OF assms(1), of PATH_MAX] assms(2)
  by (simp add: string_machine_def demo_regs_def PATH_MAX_def)

theorem device_parent_paths_escape_witness:
  "rewrite_at_path_arg demo_tracer demo_host ''openat'' 0 1 8192 demo_regs (string_machine ''/dev/../data'')
     = (RwNo, demo_regs, string_machine ''/dev/../data'') \<and>
   resolve_dots (components ''/dev/../data'') = resolve_dots (components ''data'')"
proof -
  have "c_string (string_vmem ''/dev/../data'') 4096 ''/dev/../data''" by simp
  from string_machine_read [OF this]
  have "read_tracee_string (mc_mem (string_machine ''/dev/../data'')) (rg demo_regs 1) PATH_MAX
      = Some (''/dev'' @ ''/../'' @ ''data'')" by (simp add: PATH_MAX_def)
  from device_parent_paths_escape [OF this, of demo_tracer demo_host "''openat''" 0 8192] show ?thesis by simp
qed

text \<open>
  The root-descriptor rewriting hands the kernel the guest path relative to the root
  directory. For a path under \<open>/proc\<close> the validated file is the replacement under
  \<open>.pdocker-proc\<close>, but the file the kernel opens is \<open>proc/...\<close> of the root file system.\<close>

theorem rootfd_opens_unvalidated_proc:
  assumes "c_string (mc_mem mc) (rg r p) (''/proc/'' @ rest)" "rg r p \<noteq> 0" "length rest < 4000" "d \<noteq> p"
    and "resolve_guest cfg ho (''/proc/'' @ rest) = Inr (Some (path, b))"
    and "validate_path cfg ho (mc_cache mc) path (path_context_follows_final_component context) = (None, pc)"
    and "tc_rootfd_rewrite cfg" "0 \<le> tc_rootfs_fd cfg" "\<not> path_has_parent_segment (''/proc/'' @ rest)"
  shows "path = tc_rootfs cfg @ ''/.pdocker-proc/'' @ rest \<and>
    (\<exists>r'. rewrite_at_path_arg cfg ho context d p off r mc = (RwYes, r', mc\<lparr>mc_cache := pc\<rparr>) \<and>
          rg r' d = of_int (tc_rootfs_fd cfg) \<and> c_string (mc_mem mc) (rg r' p) (''proc/'' @ rest))"
proof -
  let ?g = "''/proc/'' @ rest"
  have read: "read_tracee_string (mc_mem mc) (rg r p) PATH_MAX = Some ?g"
    using read_tracee_string_spec [OF assms(1), of PATH_MAX] assms(2,3) by (simp add: PATH_MAX_def)
  have path: "path = tc_rootfs cfg @ ''/.pdocker-proc/'' @ rest" and b: "\<not> b"
    using assms(5) by (auto simp: resolve_guest_def resolve_guest_host_path_def Let_def split: if_splits)
  have cs: "c_string (mc_mem mc) (rg r p + 1) (''proc/'' @ rest)" using assms(1) by simp
  have "rewrite_at_path_arg cfg ho context d p off r mc =
      (RwYes, set_rg p (rg r p + 1) (set_rg d (of_int (tc_rootfs_fd cfg)) r), mc\<lparr>mc_cache := pc\<rparr>)"
    using read assms(4-9) b by (simp add: rewrite_at_path_arg_def)
  with path cs assms(4) show ?thesis by simp
qed

definition proc_host :: host where
  "proc_host = demo_host\<lparr>ho_access := (\<lambda>_. True),
     ho_realpath := (\<lambda>p. if length p < PATH_MAX then Inr p else Inl ENAMETOOLONG)\<rparr>"

definition rootfd_tracer :: tracer_cfg where
  "rootfd_tracer = demo_tracer\<lparr>tc_rootfs_fd := 7, tc_rootfd_rewrite := True\<rparr>"

lemma rootfd_accepts:
  "fst (validate_path rootfd_tracer proc_host (path_cache_init True) ''/r/.pdocker-proc/stat'' True) = None"
proof -
  have rp: "rp_ok (ho_realpath proc_host)" by (simp add: rp_ok_def proc_host_def)
  have "normalize_absolute_path_lexical ''/r/.pdocker-proc/stat'' PATH_MAX = Inr ''/r/.pdocker-proc/stat''"
    using normalize_total [of "''/r/.pdocker-proc/stat''" PATH_MAX]
    by (simp add: PATH_MAX_def resolve_dots_def dot_step_def components_def render_def)
  then have "accepted rootfd_tracer proc_host ''/r/.pdocker-proc/stat'' True"
    by (simp add: accepted_def validate_pure_def host_path_is_under_allowed_host_path_def proc_host_def
        host_path_is_under_prefix_def rootfd_tracer_def demo_tracer_def PATH_MAX_def)
  moreover have "cache_ok rootfd_tracer proc_host (path_cache_init True)"
    using session_inv_init [OF rp, of "tc_tty rootfd_tracer" "tc_binds rootfd_tracer" "tc_rootfs rootfd_tracer" True]
    by (simp add: session_inv_def)
  moreover have "length ''/r/.pdocker-proc/stat'' < PATH_MAX" by (simp add: PATH_MAX_def)
  ultimately show ?thesis using validate_path_fst(1) [OF _ rp] by (metis prod.collapse)
qed

theorem rootfd_opens_unvalidated_proc_witness:
  "\<exists>r' mc'. rewrite_at_path_arg rootfd_tracer proc_host ''openat'' 0 1 8192 demo_regs (string_machine ''/proc/stat'')
      = (RwYes, r', mc') \<and> rg r' 0 = 7 \<and> c_string (string_vmem ''/proc/stat'') (rg r' 1) (''proc/'' @ ''stat'')"
proof -
  let ?m = "string_machine ''/proc/stat''"
  have mem: "mc_mem ?m = string_vmem ''/proc/stat''" "mc_cache ?m = path_cache_init True" "rg demo_regs 1 = 4096"
    by (simp_all add: string_machine_def demo_regs_def demo_machine_def)
  have cs: "c_string (string_vmem ''/proc/stat'') 4096 (''/proc/'' @ ''stat'')" by simp
  have res: "resolve_guest rootfd_tracer proc_host (''/proc/'' @ ''stat'') = Inr (Some (''/r/.pdocker-proc/stat'', False))"
    by (simp add: resolve_guest_def resolve_guest_host_path_def rootfd_tracer_def demo_tracer_def proc_host_def
        demo_host_def PATH_MAX_def)
  have follow: "path_context_follows_final_component ''openat'' = True"
    by (simp add: path_context_follows_final_component_def)
  obtain pc where val: "validate_path rootfd_tracer proc_host (path_cache_init True) ''/r/.pdocker-proc/stat''
      (path_context_follows_final_component ''openat'') = (None, pc)"
    using rootfd_accepts follow by (cases "validate_path rootfd_tracer proc_host (path_cache_init True) ''/r/.pdocker-proc/stat'' True") simp
  have seg: "\<not> path_has_parent_segment (''/proc/'' @ ''stat'')"
    unfolding path_has_parent_segment_iff by (simp add: components_def)
  have cfg: "tc_rootfd_rewrite rootfd_tracer" "0 \<le> tc_rootfs_fd rootfd_tracer" "tc_rootfs_fd rootfd_tracer = 7"
    by (simp_all add: rootfd_tracer_def)
  have side: "(4096 :: u64) \<noteq> 0" "length ''stat'' < 4000" "(0 :: nat) \<noteq> 1" by simp_all
  from rootfd_opens_unvalidated_proc [where mc = ?m and r = demo_regs and p = 1 and d = 0 and rest = "''stat''" and off = 8192,
      unfolded mem, OF cs side res val cfg(1,2) seg]
  obtain r' where "rewrite_at_path_arg rootfd_tracer proc_host ''openat'' 0 1 8192 demo_regs ?m = (RwYes, r', ?m\<lparr>mc_cache := pc\<rparr>)"
    "rg r' 0 = of_int (tc_rootfs_fd rootfd_tracer)" "c_string (string_vmem ''/proc/stat'') (rg r' 1) (''proc/'' @ ''stat'')"
    by blast
  then show ?thesis using cfg(3) by (intro exI conjI) (assumption | simp only: of_int_numeral)+
qed

text \<open>
  The guest name taken from a socket address is the text up to the first NUL; when the
  address holds none, it is continued by what the stack buffer held before.\<close>

theorem sockaddr_guest_reads_stack:
  assumes "n \<le> length sun"
  shows "sockaddr_guest stack sun n =
    (let c = take (min 107 n) sun
     in if NUL \<in> set c then takeWhile (\<lambda>x. x \<noteq> NUL) c
        else c @ takeWhile (\<lambda>x. x \<noteq> NUL) (take (107 - length c) (drop (length c) stack)))"
proof -
  let ?k = "min 107 n"
  have stop: "takeWhile (\<lambda>x. x \<noteq> NUL) (xs @ [NUL]) = takeWhile (\<lambda>x. x \<noteq> NUL) xs" for xs
    by (induction xs) simp_all
  have cut: "takeWhile (\<lambda>x. x \<noteq> NUL) (take k ((t @ [NUL]) @ xs) @ ys) = t" if "length t < k" "NUL \<notin> set t" for k t xs ys
    using that by (auto simp: takeWhile_append take_Cons')
  have copy: "copy_guest k s = (if NUL \<in> set (take k s) then takeWhile (\<lambda>x. x \<noteq> NUL) s @ [NUL] else take k s)" for k s
    by (induction k s rule: copy_guest.induct) auto
  show ?thesis
  proof (cases "NUL \<in> set (take ?k sun)")
    case True
    let ?t = "takeWhile (\<lambda>x. x \<noteq> NUL) (take ?k sun)"
    have eq: "takeWhile (\<lambda>x. x \<noteq> NUL) sun = ?t"
      using True takeWhile_append1 [of NUL "take ?k sun" "\<lambda>x. x \<noteq> NUL" "drop ?k sun"] by simp
    have "length (takeWhile (\<lambda>x. x \<noteq> NUL) xs) < length xs" if "NUL \<in> set xs" for xs
      using that by (induction xs) auto
    from this [OF True] have "length ?t < length (take ?k sun)" .
    then have len: "length ?t < 107" by simp
    then have "takeWhile (\<lambda>x. x \<noteq> NUL) (take 107 ((?t @ [NUL]) @ drop (length (?t @ [NUL])) stack) @ [NUL]) = ?t"
      by (intro cut) (auto dest: set_takeWhileD)
    then show ?thesis
      unfolding sockaddr_guest_def SUN_PATH_LEN_def Let_def copy using True eq by simp
  next
    case False
    let ?c = "take ?k sun"
    have "takeWhile (\<lambda>x. x \<noteq> NUL) (?c @ ys) = ?c @ takeWhile (\<lambda>x. x \<noteq> NUL) ys" for ys
      by (rule takeWhile_append2) (use False in metis)
    moreover have "length ?c = ?k" "take 107 (?c @ drop ?k stack) = ?c @ take (107 - ?k) (drop ?k stack)"
      using assms by simp_all
    moreover have "sockaddr_guest stack sun n =
        takeWhile (\<lambda>x. x \<noteq> NUL) (take 107 (?c @ drop (length ?c) stack))"
      unfolding sockaddr_guest_def SUN_PATH_LEN_def Let_def copy stop using False by simp
    ultimately show ?thesis
      unfolding Let_def using False by simp
  qed
qed

theorem sockaddr_guest_reads_stack_witness:
  "sockaddr_guest (replicate 107 CHR ''x'') ''/s'' 2 = ''/s'' @ replicate 105 CHR ''x''"
  unfolding sockaddr_guest_reads_stack [of 2 "''/s''", simplified]
  by (simp add: takeWhile_replicate)

end
