(* ===== verification/Rootfs_Setup.thy ===== *)
theory Rootfs_Setup
  imports Host_Files Path_Binds
begin

text \<open>
  What the direct executor changes in the root file system itself: the group files of an emulated
  \<open>groupadd\<close> and the absolute symbolic links, which are made relative before the first run.
\<close>

section \<open>Groups\<close>

lemma fgets_rest: "length (snd (fgets n s)) \<le> length s"
proof (induction n s rule: fgets.induct)
  case (4 n c s)
  then show ?case by (cases "c = CHR 0x0A") (auto simp: case_prod_unfold Let_def)
qed simp_all

lemma fgets_shorter: "length (snd (fgets (Suc (Suc n)) (c # s))) < length (c # s)"
  using fgets_rest [of "Suc n" s] by (cases "c = CHR 0x0A") (auto simp: case_prod_unfold Let_def)

text \<open>The lines that a loop of \<open>fgets\<close> with a buffer of 1024 bytes sees.\<close>

function file_lines :: "string \<Rightarrow> string list" where
  "file_lines [] = []"
| "file_lines (c # s) = fst (fgets 1024 (c # s)) # file_lines (snd (fgets 1024 (c # s)))"
  by pat_completeness auto
termination
proof (relation "measure length")
  fix c and s :: string
  have "1024 = Suc (Suc 1022)" by simp
  then show "(snd (fgets 1024 (c # s)), c # s) \<in> measure length"
    using fgets_shorter [of 1022 c s] by (simp only: in_measure)
qed simp

definition file_text :: "hfs \<Rightarrow> (string \<Rightarrow> string) \<Rightarrow> string \<Rightarrow> string option" where
  "file_text fs real p = (case fs (real p) of Some (HReg mode data) \<Rightarrow> Some data | _ \<Rightarrow> None)"

definition group_exists_in_rootfs :: "(string \<Rightarrow> string) \<Rightarrow> hfs \<Rightarrow> string \<Rightarrow> string \<Rightarrow> bool" where
  "group_exists_in_rootfs real fs rootfs group_name =
     (let path = rootfs @ ''/etc/group''
      in if PATH_MAX \<le> length path then False
         else case file_text fs real path of
                None \<Rightarrow> False
              | Some text \<Rightarrow> \<exists>line \<in> set (file_lines text). prefix (group_name @ '':'') (c_text line))"

text \<open>\<open>fopen (path, "a")\<close> and one \<open>fprintf\<close>: \<open>opens p\<close> is the success, with the mode of a new file.\<close>

definition append_text :: "(string \<Rightarrow> nat option) \<Rightarrow> (string \<Rightarrow> string) \<Rightarrow> hfs \<Rightarrow> string \<Rightarrow> string \<Rightarrow> hfs" where
  "append_text opens real fs p text =
     (case opens p of None \<Rightarrow> fs
      | Some mode \<Rightarrow>
          (case fs (real p) of
             Some (HReg m data) \<Rightarrow> fs(real p \<mapsto> HReg m (data @ text))
           | None \<Rightarrow> fs(real p \<mapsto> HReg mode text)
           | Some _ \<Rightarrow> fs))"

definition append_group_to_rootfs ::
  "(string \<Rightarrow> nat option) \<Rightarrow> (string \<Rightarrow> string) \<Rightarrow> hfs \<Rightarrow> string \<Rightarrow> string \<Rightarrow> string \<Rightarrow> hfs" where
  "append_group_to_rootfs opens real fs rootfs group_name gid =
     (if group_name = [] \<or> group_exists_in_rootfs real fs rootfs group_name then fs
      else
        let group = rootfs @ ''/etc/group'';
            gshadow = rootfs @ ''/etc/gshadow'';
            fs1 = (if length group < PATH_MAX
                   then append_text opens real fs group
                          (group_name @ '':x:'' @ (if gid = [] then ''999'' else gid) @ '':'' @ [CHR 0x0A])
                   else fs)
        in if length gshadow < PATH_MAX
           then append_text opens real fs1 gshadow (group_name @ '':!::'' @ [CHR 0x0A])
           else fs1)"

text \<open>The loop over the arguments of \<open>groupadd\<close>: the identifier after \<open>-g\<close> and the last word.\<close>

fun groupadd_scan :: "vmem \<Rightarrow> u64 list \<Rightarrow> string \<Rightarrow> string \<Rightarrow> string \<times> string" where
  "groupadd_scan m [] gid name = (gid, name)"
| "groupadd_scan m (p # ps) gid name =
     (case read_tracee_string m p PATH_MAX of
        None \<Rightarrow> groupadd_scan m ps gid name
      | Some arg \<Rightarrow>
          if arg = ''-g'' \<and> ps \<noteq> [] then
            groupadd_scan m (tl ps)
              (case read_tracee_string m (hd ps) 64 of None \<Rightarrow> gid | Some next \<Rightarrow> take 63 next) name
          else if arg = [] \<or> hd arg \<noteq> CHR ''-'' then groupadd_scan m ps gid (take 255 arg)
          else groupadd_scan m ps gid name)"

definition emulate_groupadd_from_argv ::
  "(string \<Rightarrow> nat option) \<Rightarrow> (string \<Rightarrow> string) \<Rightarrow> vmem \<Rightarrow> hfs \<Rightarrow> string \<Rightarrow> u64 list \<Rightarrow> bool \<times> hfs" where
  "emulate_groupadd_from_argv opens real m fs rootfs argv =
     (let (gid, name) = groupadd_scan m (tl argv) ''999'' []
      in if name = [] then (False, fs)
         else (True, append_group_to_rootfs opens real fs rootfs name gid))"

text \<open>A group is not added twice.\<close>

lemma append_group_idem:
  "group_exists_in_rootfs real fs rootfs g \<Longrightarrow> append_group_to_rootfs opens real fs rootfs g gid = fs"
  by (simp add: append_group_to_rootfs_def)

section \<open>Absolute symbolic links\<close>

text \<open>
  \<open>sl_list\<close> is what \<open>readdir\<close> returns for a directory (nothing when it cannot be opened);
  \<open>sl_unlink\<close> and \<open>sl_symlink\<close> tell which \<open>unlink\<close> and \<open>symlink\<close> calls succeed.
\<close>

record link_env =
  sl_list :: "string \<Rightarrow> string list"
  sl_unlink :: "string \<Rightarrow> bool"
  sl_symlink :: "string \<Rightarrow> string \<Rightarrow> bool"

definition relink :: "link_env \<Rightarrow> string \<Rightarrow> string \<Rightarrow> string \<Rightarrow> hfs \<Rightarrow> hfs" where
  "relink env rootfs path link fs =
     (let target = take (PATH_MAX - 1) link
      in if target = [] \<or> hd target \<noteq> slash \<or> \<not> should_rewrite_path rootfs target then fs
         else
           let host_target = rootfs @ target
           in if PATH_MAX \<le> length host_target then fs
              else
                case split_last slash path of
                  None \<Rightarrow> fs
                | Some (link_dir, name) \<Rightarrow>
                    (case relative_path_between link_dir host_target PATH_MAX of
                       None \<Rightarrow> fs
                     | Some rel \<Rightarrow>
                         if \<not> sl_unlink env path then fs
                         else if sl_symlink env rel path then fs(path \<mapsto> HLnk rel)
                         else if sl_symlink env target path then fs(path \<mapsto> HLnk target)
                         else fs(path := None)))"

function normalize_links :: "link_env \<Rightarrow> string \<Rightarrow> string \<Rightarrow> string list \<Rightarrow> hfs \<Rightarrow> hfs" where
  "normalize_links env rootfs dir [] fs = fs"
| "normalize_links env rootfs dir (n # ns) fs =
     (let path = dir @ ''/'' @ n
      in if n = ''.'' \<or> n = ''..'' \<or> PATH_MAX \<le> length path then normalize_links env rootfs dir ns fs
         else
           case fs path of
             Some (HLnk link) \<Rightarrow> normalize_links env rootfs dir ns (relink env rootfs path link fs)
           | Some HDir \<Rightarrow>
               normalize_links env rootfs dir ns (normalize_links env rootfs path (sl_list env path) fs)
           | _ \<Rightarrow> normalize_links env rootfs dir ns fs)"
  by pat_completeness auto
termination
  by (relation "measures [\<lambda>(env, rootfs, dir, ns, fs). PATH_MAX - length dir, \<lambda>(env, rootfs, dir, ns, fs). length ns]") auto

definition normalize_absolute_symlinks_recursive :: "link_env \<Rightarrow> string \<Rightarrow> string \<Rightarrow> hfs \<Rightarrow> hfs" where
  "normalize_absolute_symlinks_recursive env rootfs dir fs = normalize_links env rootfs dir (sl_list env dir) fs"

text \<open>\<open>mode\<close> is the environment setting, \<open>marker_exists\<close> the \<open>access\<close> on the marker file and
  \<open>marker_open\<close> the success (and mode) of creating it.\<close>

definition normalize_absolute_symlinks_once ::
  "link_env \<Rightarrow> string option \<Rightarrow> bool \<Rightarrow> nat option \<Rightarrow> string \<Rightarrow> hfs \<Rightarrow> hfs" where
  "normalize_absolute_symlinks_once env mode marker_exists marker_open rootfs fs =
     (if mode = Some ''never'' then fs
      else
        let marker = rootfs @ ''/.pdocker-absolute-symlinks-normalized''
        in if PATH_MAX \<le> length marker then normalize_absolute_symlinks_recursive env rootfs rootfs fs
           else if mode \<noteq> Some ''always'' \<and> marker_exists then fs
           else
             let fs1 = normalize_absolute_symlinks_recursive env rootfs rootfs fs
             in case marker_open of None \<Rightarrow> fs1
                | Some m \<Rightarrow> fs1(marker \<mapsto> HReg m (''normalized=1'' @ [CHR 0x0A])))"

text \<open>What the rewriting may do to one name: nothing, or a link that leads to the same place below
  the root file system (or, when calls fail, the link is gone or cut to 4095 characters).\<close>

definition link_ok :: "string \<Rightarrow> string \<Rightarrow> hnode option \<Rightarrow> hnode option \<Rightarrow> bool" where
  "link_ok rootfs path old new \<longleftrightarrow>
     new = old \<or>
     (\<exists>link dir name rel. old = Some (HLnk link) \<and> path = dir @ slash # name \<and>
        new = Some (HLnk rel) \<and> hd link = slash \<and>
        relative_path_between dir (rootfs @ take (PATH_MAX - 1) link) PATH_MAX = Some rel)"

definition links_work :: "link_env \<Rightarrow> bool" where
  "links_work env \<longleftrightarrow> (\<forall>p. sl_unlink env p) \<and> (\<forall>t p. sl_symlink env t p)"

lemma relink_other: "p \<noteq> path \<Longrightarrow> relink env rootfs path link fs p = fs p"
  by (auto simp: relink_def Let_def split: option.splits)

lemma relink_ok:
  assumes "fs path = Some (HLnk link)" "links_work env"
  shows "link_ok rootfs path (fs path) (relink env rootfs path link fs path)"
proof (cases "relink env rootfs path link fs path = fs path")
  case False
  let ?t = "take (PATH_MAX - 1) link"
  from False obtain dir name rel where r: "split_last slash path = Some (dir, name)"
      "relative_path_between dir (rootfs @ ?t) PATH_MAX = Some rel" "?t \<noteq> []" "hd ?t = slash"
      "relink env rootfs path link fs path = Some (HLnk rel)"
    using assms(2) unfolding relink_def Let_def links_work_def by (auto split: option.splits if_splits)
  have "hd link = slash" using r(3,4) by (cases link) (auto simp: PATH_MAX_def)
  with r split_last_Some [OF r(1)] assms(1) show ?thesis unfolding link_ok_def by blast
qed (simp add: link_ok_def)


lemma hd_skip_slashes: "skip_slashes s \<noteq> [] \<Longrightarrow> hd (skip_slashes s) \<noteq> slash"
  using hd_dropWhile [of "\<lambda>c. c = slash" s] by (simp add: skip_slashes_def)

lemma foldl_ups_form: "acc = [] \<or> hd acc = CHR ''.'' \<Longrightarrow>
  foldl (\<lambda>tmp _. strncat_tmp tmp ''../'') acc cs = [] \<or> hd (foldl (\<lambda>tmp _. strncat_tmp tmp ''../'') acc cs) = CHR ''.''"
proof (induction cs arbitrary: acc)
  case (Cons c cs)
  have "strncat_tmp acc ''../'' = [] \<or> hd (strncat_tmp acc ''../'') = CHR ''.''"
    using Cons.prems by (cases acc) (auto simp: strncat_tmp_def PATH_MAX_def)
  from Cons.IH [OF this] show ?case by simp
qed simp

lemma rel_not_absolute: "relative_path_between a b n = Some r \<Longrightarrow> r \<noteq> [] \<and> hd r \<noteq> slash"
proof -
  assume "relative_path_between a b n = Some r"
  then have r: "r = (let ups = foldl (\<lambda>tmp _. strncat_tmp tmp ''../'') [] (components (drop (rpb_cut a b) a));
       rest_to = skip_slashes (drop (rpb_cut a b) b) in if ups = [] \<and> rest_to = [] then ''.'' else strncat_tmp ups rest_to)"
    unfolding relative_path_cut Let_def by (simp only: option.inject option.distinct split: if_splits) simp_all
  define ups where "ups = foldl (\<lambda>tmp _. strncat_tmp tmp ''../'') [] (components (drop (rpb_cut a b) a))"
  define rest where "rest = skip_slashes (drop (rpb_cut a b) b)"
  have u: "ups = [] \<or> hd ups = CHR ''.''" unfolding ups_def by (rule foldl_ups_form) simp
  have t: "rest \<noteq> [] \<Longrightarrow> hd rest \<noteq> slash" unfolding rest_def by (rule hd_skip_slashes)
  have "r = (if ups = [] \<and> rest = [] then ''.'' else strncat_tmp ups rest)" using r by (simp add: ups_def rest_def Let_def)
  then show ?thesis using u t by (cases ups; cases rest) (auto simp: strncat_tmp_def PATH_MAX_def)
qed

lemma link_ok_refl: "link_ok rootfs p n n"
  by (simp add: link_ok_def)

lemma link_ok_trans: "link_ok rootfs p a b \<Longrightarrow> link_ok rootfs p b c \<Longrightarrow> link_ok rootfs p a c"
proof -
  assume ab: "link_ok rootfs p a b" and bc: "link_ok rootfs p b c"
  show ?thesis
  proof (cases "b = a \<or> c = b")
    case False
    from False ab obtain rel where b: "b = Some (HLnk rel)" "hd rel \<noteq> slash"
      unfolding link_ok_def using rel_not_absolute by blast
    from False bc obtain link where "b = Some (HLnk link)" "hd link = slash" unfolding link_ok_def by blast
    with b show ?thesis by simp
  qed (use ab bc in blast)
qed

lemma normalize_links_ok: "links_work env \<Longrightarrow> link_ok rootfs p (fs p) (normalize_links env rootfs dir ns fs p)"
proof (induction env rootfs dir ns fs rule: normalize_links.induct)
  case (2 env rootfs dir n ns fs)
  let ?path = "dir @ ''/'' @ n"
  show ?case
  proof (cases "n = ''.'' \<or> n = ''..'' \<or> PATH_MAX \<le> length ?path")
    case True
    then show ?thesis using "2.IH"(1) [OF refl True "2.prems"] by simp
  next
    case no: False
    show ?thesis
    proof (cases "fs ?path")
      case None
      then show ?thesis using "2.IH"(2) [OF refl no None "2.prems"] no by simp
    next
      case (Some node)
      show ?thesis
      proof (cases node)
        case (HReg m d)
        then show ?thesis using "2.IH"(3) [OF refl no Some HReg "2.prems"] no Some by simp
      next
        case (HLnk link)
        have "link_ok rootfs p (fs p) (relink env rootfs ?path link fs p)"
          using relink_ok [of fs ?path link env rootfs] relink_other [of p ?path env rootfs link fs] Some HLnk "2.prems"
          by (cases "p = ?path") (auto simp: link_ok_refl)
        from link_ok_trans [OF this "2.IH"(4) [OF refl no Some HLnk "2.prems"]] show ?thesis
          using no Some HLnk by simp
      next
        case HDir
        from link_ok_trans [OF "2.IH"(5) [OF refl no Some HDir "2.prems"] "2.IH"(6) [OF refl no Some HDir "2.prems"]]
        show ?thesis using no Some HDir by (simp add: Let_def)
      next
        case HOther
        then show ?thesis using "2.IH"(7) [OF refl no Some HOther "2.prems"] no Some by simp
      qed
    qed
  qed
qed (simp add: link_ok_refl)

text \<open>
  Making the absolute links of a root file system relative changes nothing but such links,
  and a changed link leads from its directory to the place below the root file system that the
  absolute one named for the guest.\<close>

theorem normalized_links_lead_home:
  assumes "links_work env" "normalize_absolute_symlinks_recursive env rootfs rootfs fs p \<noteq> fs p"
  shows "\<exists>link dir name rel. fs p = Some (HLnk link) \<and> hd link = slash \<and> p = dir @ slash # name \<and>
     normalize_absolute_symlinks_recursive env rootfs rootfs fs p = Some (HLnk rel) \<and>
     (length link < PATH_MAX \<and> 3 * length (components dir) + length (rootfs @ link) < 2 * PATH_MAX \<and>
      (\<forall>c \<in> set (components dir) \<union> set (components (rootfs @ link)). proper_seg c)
      \<longrightarrow> resolve_dots (components dir @ components rel) = components (rootfs @ link))"
proof -
  have "link_ok rootfs p (fs p) (normalize_absolute_symlinks_recursive env rootfs rootfs fs p)"
    unfolding normalize_absolute_symlinks_recursive_def by (rule normalize_links_ok [OF assms(1)])
  with assms(2) obtain link dir name rel where l: "fs p = Some (HLnk link)" "p = dir @ slash # name"
    "normalize_absolute_symlinks_recursive env rootfs rootfs fs p = Some (HLnk rel)" "hd link = slash"
    "relative_path_between dir (rootfs @ take (PATH_MAX - 1) link) PATH_MAX = Some rel"
    unfolding link_ok_def by blast
  have "resolve_dots (components dir @ components rel) = components (rootfs @ link)"
    if "length link < PATH_MAX" "3 * length (components dir) + length (rootfs @ link) < 2 * PATH_MAX"
      "\<forall>c \<in> set (components dir) \<union> set (components (rootfs @ link)). proper_seg c"
  proof -
    have "take (PATH_MAX - 1) link = link" using that(1) by simp
    then show ?thesis using relative_path_correct [OF l(5)] that(2,3) by simp
  qed
  with l show ?thesis by blast
qed

definition demo_links :: link_env where
  "demo_links = \<lparr>sl_list = (\<lambda>d. if d = ''/r'' then [''u''] else if d = ''/r/u'' then [''l''] else []),
     sl_unlink = (\<lambda>_. True), sl_symlink = (\<lambda>_ _. True)\<rparr>"

definition demo_fs :: hfs where
  "demo_fs = [''/r/u'' \<mapsto> HDir, ''/r/u/l'' \<mapsto> HLnk ''/lib/x'']"

lemma demo_link: "normalize_absolute_symlinks_recursive demo_links ''/r'' ''/r'' demo_fs ''/r/u/l'' = Some (HLnk ''../lib/x'')"
  by (simp add: normalize_absolute_symlinks_recursive_def demo_links_def demo_fs_def PATH_MAX_def relink_def
      should_rewrite_path_def relative_path_between_def components_def strncat_tmp_def skip_slashes_def)

theorem normalized_links_lead_home_witness:
  "\<exists>link dir name rel. demo_fs ''/r/u/l'' = Some (HLnk link) \<and> ''/r/u/l'' = dir @ slash # name \<and>
     normalize_absolute_symlinks_recursive demo_links ''/r'' ''/r'' demo_fs ''/r/u/l'' = Some (HLnk rel)"
proof -
  have w: "links_work demo_links" by (simp add: links_work_def demo_links_def)
  have "normalize_absolute_symlinks_recursive demo_links ''/r'' ''/r'' demo_fs ''/r/u/l'' \<noteq> demo_fs ''/r/u/l''"
    unfolding demo_link by (simp add: demo_fs_def)
  from normalized_links_lead_home [OF w this] show ?thesis by blast
qed

end
