(* ===== verification/Emulation.thy ===== *)
theory Emulation
  imports Rewrite_Safety Rootfs_Setup
begin

text \<open>
  The system calls the direct executor answers itself: \<open>getcwd\<close>, \<open>readlinkat\<close> of the program
  link, \<open>linkat\<close> as a copy, the \<open>symlinkat\<close> of package downloads as a copy, and \<open>faccessat\<close>. A
  result \<open>None\<close> is the \<open>return 0\<close> that leaves the call to the rewriting.
\<close>

section \<open>Names known to the executor\<close>

definition strip_root :: "string \<Rightarrow> string \<Rightarrow> string option" where
  "strip_root rootfs host =
     (let rest = drop (length rootfs) host
      in if prefix rootfs host \<and> (rest = [] \<or> hd rest = slash) then Some (if rest = [] then ''/'' else rest) else None)"

definition put_result :: "host \<Rightarrow> u64 \<Rightarrow> string \<Rightarrow> machine \<Rightarrow> u64 \<times> machine" where
  "put_result ho buf bytes mc =
     (let (ok, m1) = write_tracee_data (mc_mem mc) buf bytes
      in (if ok then of_nat (length bytes) else - of_nat (ho_errno ho), mc\<lparr>mc_mem := m1\<rparr>))"

definition emulate_getcwd :: "tracer_cfg \<Rightarrow> host \<Rightarrow> tracee \<Rightarrow> regs \<Rightarrow> machine \<Rightarrow> u64 option \<times> machine" where
  "emulate_getcwd cfg ho st r mc =
     (let buf = rg r 0; size = rg r 1
      in if buf = 0 \<or> size = 0 then (Some (neg_errno EINVAL), mc)
         else
           let cwd = (if ts_guest_cwd st \<noteq> [] then Inr (ts_guest_cwd st)
                      else case ho_fd_link ho AT_FDCWD of
                             Inl e \<Rightarrow> Inl e
                           | Inr link \<Rightarrow>
                               (case strip_root (tc_rootfs cfg) (take (PATH_MAX - 1) link) of
                                  None \<Rightarrow> Inr ''/'' | Some g \<Rightarrow> Inr g))
           in case cwd of
                Inl e \<Rightarrow> (Some (neg_errno e), mc)
              | Inr guest \<Rightarrow>
                  if unat size < length guest + 1 then (Some (neg_errno ERANGE), mc)
                  else let (result, mc1) = put_result ho buf (guest @ [NUL]) mc in (Some result, mc1))"

definition is_digit :: "char \<Rightarrow> bool" where
  "is_digit c \<longleftrightarrow> c \<in> set ''0123456789''"

definition is_proc_exe :: "string \<Rightarrow> bool" where
  "is_proc_exe path \<longleftrightarrow>
     path = ''/proc/self/exe'' \<or> path = ''/proc/thread-self/exe'' \<or>
     (prefix ''/proc/'' path \<and> dropWhile is_digit (drop 6 path) = ''/exe'')"

definition emulate_proc_self_exe_readlinkat :: "host \<Rightarrow> tracee \<Rightarrow> regs \<Rightarrow> machine \<Rightarrow> u64 option \<times> machine" where
  "emulate_proc_self_exe_readlinkat ho st r mc =
     (if ts_exec_guest_path st = [] then (None, mc)
      else
        case read_tracee_string (mc_mem mc) (rg r 1) PATH_MAX of
          None \<Rightarrow> (None, mc)
        | Some path \<Rightarrow>
            if \<not> is_proc_exe path then (None, mc)
            else
              let buf = rg r 2; size = rg r 3
              in if buf = 0 \<or> size = 0 then (Some (neg_errno EINVAL), mc)
                 else let (result, mc1) = put_result ho buf (take (unat size) (ts_exec_guest_path st)) mc
                      in (Some result, mc1))"

section \<open>Host paths without validation\<close>

text \<open>\<open>Inr None\<close> is the result 0 (not known), \<open>Inl\<close> a negative one.\<close>

definition resolve_tracee_host_path :: "tracer_cfg \<Rightarrow> host \<Rightarrow> vmem \<Rightarrow> int \<Rightarrow> u64 \<Rightarrow> errno + string option" where
  "resolve_tracee_host_path cfg ho m dirfd path_addr =
     (case read_tracee_string m path_addr PATH_MAX of
        None \<Rightarrow> Inr None
      | Some guest \<Rightarrow>
          if guest = [] then Inl ENOENT
          else if hd guest = slash then
            (case resolve_guest cfg ho guest of
               Inl e \<Rightarrow> Inl e | Inr None \<Rightarrow> Inr None | Inr (Some (out, bind)) \<Rightarrow> Inr (Some out))
          else
            (case ho_fd_link ho dirfd of
               Inl e \<Rightarrow> Inr None
             | Inr link \<Rightarrow>
                 let base = take (PATH_MAX - 1) link
                 in if \<not> host_path_is_under_rootfs (tc_rootfs cfg) base then Inr None
                    else if PATH_MAX \<le> length (base @ ''/'' @ guest) then Inl ENAMETOOLONG
                    else Inr (Some (base @ ''/'' @ guest))))"

definition errno_result :: "errno option \<Rightarrow> u64" where
  "errno_result e = (case e of None \<Rightarrow> 0 | Some x \<Rightarrow> neg_errno x)"

definition copy_between :: "host \<Rightarrow> string \<Rightarrow> string \<Rightarrow> u32 \<Rightarrow> machine \<Rightarrow> u64 \<times> machine" where
  "copy_between ho old_host new_host flags mc =
     (let (rc, fs) = copy_file_for_linkat (ho_copy ho) (mc_fs mc) old_host new_host flags
      in (errno_result rc, mc\<lparr>mc_fs := fs\<rparr>))"

definition emulate_linkat_copy :: "tracer_cfg \<Rightarrow> host \<Rightarrow> regs \<Rightarrow> machine \<Rightarrow> u64 option \<times> machine" where
  "emulate_linkat_copy cfg ho r mc =
     (let old = resolve_tracee_host_path cfg ho (mc_mem mc) (int_arg (rg r 0)) (rg r 1);
          new = resolve_tracee_host_path cfg ho (mc_mem mc) (int_arg (rg r 2)) (rg r 3)
      in if old = Inr None \<or> new = Inr None then (None, mc)
         else
           case old of
             Inl e \<Rightarrow> (Some (neg_errno e), mc)
           | Inr o' \<Rightarrow>
               (case new of
                  Inl e \<Rightarrow> (Some (neg_errno e), mc)
                | Inr n' \<Rightarrow>
                    let (result, mc1) = copy_between ho (the o') (the n') (ucast (rg r 4)) mc
                    in (Some result, mc1)))"

definition emulate_runtime_tmp_symlinkat :: "tracer_cfg \<Rightarrow> host \<Rightarrow> regs \<Rightarrow> machine \<Rightarrow> u64 option \<times> machine" where
  "emulate_runtime_tmp_symlinkat cfg ho r mc =
     (case read_tracee_string (mc_mem mc) (rg r 0) PATH_MAX of
        None \<Rightarrow> (None, mc)
      | Some target_guest \<Rightarrow>
          (case read_tracee_string (mc_mem mc) (rg r 2) PATH_MAX of
             None \<Rightarrow> (None, mc)
           | Some link_guest \<Rightarrow>
               if target_guest = [] \<or> hd target_guest \<noteq> slash \<or>
                  \<not> contains target_guest ''/var/cache/apt/archives/'' then (None, mc)
               else if \<not> should_rewrite_path (tc_rootfs cfg) target_guest then (None, mc)
               else if PATH_MAX \<le> length (tc_rootfs cfg @ target_guest) then (Some (neg_errno ENAMETOOLONG), mc)
               else
                 case resolve_tracee_host_path cfg ho (mc_mem mc) (int_arg (rg r 1)) (rg r 2) of
                   Inl e \<Rightarrow> (Some (neg_errno e), mc)
                 | Inr None \<Rightarrow> (Some (neg_errno ENOENT), mc)
                 | Inr (Some link_host) \<Rightarrow>
                     let (result, mc1) = copy_between ho (tc_rootfs cfg @ target_guest) link_host 0 mc
                     in (Some result, mc1)))"

definition emulate_faccessat_path :: "tracer_cfg \<Rightarrow> host \<Rightarrow> regs \<Rightarrow> machine \<Rightarrow> u64" where
  "emulate_faccessat_path cfg ho r mc =
     (case resolve_tracee_host_path cfg ho (mc_mem mc) (int_arg (rg r 0)) (rg r 1) of
        Inl e \<Rightarrow> neg_errno e
      | Inr (Some host) \<Rightarrow> errno_result (ho_access_mode ho host (int_arg (rg r 2)))
      | Inr None \<Rightarrow>
          (case read_tracee_string (mc_mem mc) (rg r 1) PATH_MAX of
             None \<Rightarrow> neg_errno EFAULT
           | Some original \<Rightarrow>
               if original \<noteq> [] \<and> hd original = slash
               then errno_result (ho_access_mode ho original (int_arg (rg r 2)))
               else neg_errno ENOENT))"

end
