(* ===== verification/Exec_Rewrite.thy ===== *)
theory Exec_Rewrite
  imports Emulation
begin

text \<open>
  \<open>rewrite_execve_arg\<close>: a program of the root file system is run through the dynamic loader. The
  new argument strings and the new vector are written below the stack pointer. The function is
  split where its stages hand over their results.
\<close>

record exec_env =
  ee_loader :: string
  ee_libpath :: string
  ee_ldconfig_real :: bool
  ee_alloc :: "nat \<Rightarrow> bool"

text \<open>The target: \<open>None\<close> when the call is left alone. The root prefix is compared without a
  component boundary.\<close>

definition exec_target :: "tracer_cfg \<Rightarrow> exec_env \<Rightarrow> host \<Rightarrow> string \<Rightarrow> string option" where
  "exec_target cfg ee ho original =
     (if original = ee_loader ee then None
      else
        let target = (if prefix (tc_rootfs cfg) original then Some original
                      else if should_rewrite_path (tc_rootfs cfg) original then
                        (if PATH_MAX \<le> length (tc_rootfs cfg @ original) then None else Some (tc_rootfs cfg @ original))
                      else None)
        in case target of
             None \<Rightarrow> None
           | Some t \<Rightarrow>
               if \<not> ho_access ho t then None
               else if should_skip_ldconfig (ee_ldconfig_real ee) t then
                 (case resolve_guest_program (ho_access_x ho) (tc_rootfs cfg) ''true'' PATH_MAX of
                    None \<Rightarrow> Some t | Some true_path \<Rightarrow> Some true_path)
               else Some t)"

text \<open>The interpreter of a script: program, first argument and optional second argument.\<close>

definition exec_interpreter :: "tracer_cfg \<Rightarrow> host \<Rightarrow> string \<Rightarrow> (string \<times> string \<times> string) option" where
  "exec_interpreter cfg ho target =
     (let rootfs = tc_rootfs cfg;
          declared = (case parse_shebang (ho_file ho target) PATH_MAX PATH_MAX of
                        None \<Rightarrow> None
                      | Some (interp, arg) \<Rightarrow>
                          map_option (\<lambda>prog. (prog, interp, arg))
                            (resolve_guest_program (ho_access_x ho) rootfs interp PATH_MAX))
      in case declared of
           Some x \<Rightarrow> Some x
         | None \<Rightarrow>
             if PATH_MAX \<le> length (rootfs @ ''/bin/bash'') \<or> \<not> ho_access_x ho (rootfs @ ''/bin/bash'') then
               (if PATH_MAX \<le> length (rootfs @ ''/bin/sh'') then None
                else Some (rootfs @ ''/bin/sh'', ''/bin/sh'', []))
             else Some (rootfs @ ''/bin/bash'', ''/bin/bash'', []))"

definition round16 :: "nat \<Rightarrow> nat" where
  "round16 n = (n + 15) div 16 * 16"

text \<open>The address the strings go to, \<open>None\<close> when they do not fit below the stack pointer.\<close>

definition exec_scratch :: "regs \<Rightarrow> nat \<Rightarrow> u64 option" where
  "exec_scratch r payload =
     (let span = round16 (payload + EXEC_REWRITE_STACK_SAFETY)
      in if EXEC_REWRITE_MAX_SCRATCH < span \<or> unat (rg_sp r) \<le> span then None
         else Some ((rg_sp r - of_nat span) AND NOT 15))"

text \<open>The old argument vector, up to the NULL or the first unreadable entry.\<close>

fun read_argv :: "vmem \<Rightarrow> u64 \<Rightarrow> nat \<Rightarrow> u64 list" where
  "read_argv m a 0 = []"
| "read_argv m a (Suc n) =
     (let bytes = vm_read m a 8
      in if length bytes \<noteq> 8 \<or> le_nat bytes = 0 then []
         else of_nat (le_nat bytes) # read_argv m (a + 8) n)"

text \<open>The arguments after the first, copied into the arena; the strings are read off it.\<close>

fun copy_args :: "exec_env \<Rightarrow> vmem \<Rightarrow> u64 list \<Rightarrow> exec_arena \<Rightarrow> nat list \<Rightarrow> (nat list \<times> exec_arena) option" where
  "copy_args ee m [] arena offs = Some (offs, arena)"
| "copy_args ee m (p # ps) arena offs =
     (case read_tracee_string_to_arena (ee_alloc ee) m p arena of
        Inl e \<Rightarrow> None
      | Inr (off, arena1) \<Rightarrow> copy_args ee m ps arena1 (offs @ [off]))"

definition arena_strings :: "nat list \<times> exec_arena \<Rightarrow> string list" where
  "arena_strings x = map (\<lambda>off. c_text (drop off (ea_data (snd x)))) (fst x)"

fun write_strings :: "vmem \<Rightarrow> u64 \<Rightarrow> string list \<Rightarrow> (u64 list \<times> u64) option \<times> vmem" where
  "write_strings m cursor [] = (Some ([], cursor), m)"
| "write_strings m cursor (s # ss) =
     (let (ok, m1) = write_tracee_string m cursor s
      in if \<not> ok then (None, m1)
         else case write_strings m1 (cursor + of_nat (length s + 1)) ss of
                (None, m2) \<Rightarrow> (None, m2)
              | (Some (addrs, c), m2) \<Rightarrow> (Some (cursor # addrs, c), m2))"

definition word_bytes_of :: "u64 list \<Rightarrow> string" where
  "word_bytes_of ws = concat (map (\<lambda>w. le_bytes 8 (unat w)) ws)"

text \<open>The vector in the order of the loader's command line: the script stands behind its
  interpreter's argument, but its string is written before it.\<close>

definition exec_vector :: "bool \<Rightarrow> bool \<Rightarrow> u64 list \<Rightarrow> u64 list" where
  "exec_vector script interp_arg addrs =
     (let fixed = take 6 addrs; rest = drop 6 addrs
      in fixed
         @ (if script \<and> interp_arg then [rest ! 1, rest ! 0] @ drop 2 rest else rest)
         @ [0])"

definition exec_via_loader ::
  "exec_env \<Rightarrow> string \<Rightarrow> string \<Rightarrow> string \<Rightarrow> (string \<times> string) option \<Rightarrow> string list \<Rightarrow> regs \<Rightarrow> vmem
     \<Rightarrow> (regs option) \<times> vmem" where
  "exec_via_loader ee argv0 program original_guest script args r m =
     (let is_script = script \<noteq> None;
          interp_arg = (case script of None \<Rightarrow> [] | Some (_, arg) \<Rightarrow> arg);
          strings = [ee_loader ee, ''--library-path'', ee_libpath ee, ''--argv0'', argv0, program]
            @ (if is_script then [original_guest] else [])
            @ (if interp_arg \<noteq> [] then [interp_arg] else []) @ args;
          payload = round16 (sum_list (map (\<lambda>s. length s + 1) strings)) + (length strings + 1) * 8
      in case exec_scratch r payload of
           None \<Rightarrow> (None, m)
         | Some scratch \<Rightarrow>
             (case write_strings m scratch strings of
                (None, m1) \<Rightarrow> (None, m1)
              | (Some (addrs, c), m1) \<Rightarrow>
                  let cursor = (c + 15) AND NOT 15;
                      (ok, m2) = write_tracee_data m1 cursor (word_bytes_of (exec_vector is_script (interp_arg \<noteq> []) addrs))
                  in if \<not> ok then (None, m2)
                     else (Some (set_rg 1 cursor (set_rg 0 scratch r)), m2)))"

definition rewrite_execve_arg ::
  "tracer_cfg \<Rightarrow> exec_env \<Rightarrow> host \<Rightarrow> tracee \<Rightarrow> regs \<Rightarrow> machine \<Rightarrow> rewrite_result \<times> regs \<times> machine \<times> tracee" where
  "rewrite_execve_arg cfg ee ho st r mc =
     (case read_tracee_string (mc_mem mc) (rg r 0) PATH_MAX of
        None \<Rightarrow> (RwNo, r, mc, st)
      | Some original \<Rightarrow>
          (case exec_target cfg ee ho original of
             None \<Rightarrow> (RwNo, r, mc, st)
           | Some target0 \<Rightarrow>
               let rootfs = tc_rootfs cfg;
                   is_script = file_starts_with (ho_file ho target0) ''#!'';
                   guest = guest_exec_path rootfs original PATH_MAX;
                   st1 = st\<lparr>ts_exec_guest_path := guest\<rparr>;
                   interp = (if is_script then exec_interpreter cfg ho target0 else Some ([], [], []))
               in case interp of
                    None \<Rightarrow> (RwNo, r, mc, st)
                  | Some (program, program_argv0, interp_arg) \<Rightarrow>
                      if \<not> is_script \<and> elf_has_interp (ho_file ho target0) = 0 then
                        (case exec_scratch r (length target0 + 1) of
                           None \<Rightarrow> (RwNo, r, mc, st)
                         | Some scratch \<Rightarrow>
                             let (ok, m1) = write_tracee_string (mc_mem mc) scratch target0;
                                 mc1 = mc\<lparr>mc_mem := m1\<rparr>
                             in if \<not> ok then (RwNo, r, mc1, st) else (RwYes, set_rg 0 scratch r, mc1, st1))
                      else
                        let argv = read_argv (mc_mem mc) (rg r 1) EXEC_REWRITE_MAX_ARGC
                        in if length argv = EXEC_REWRITE_MAX_ARGC then (RwNo, r, mc, st)
                           else
                             let (added, fs1) =
                                   (if basename_is target0 ''groupadd'' then
                                      emulate_groupadd_from_argv (ho_append ho) (ce_real (ho_copy ho)) (mc_mem mc) (mc_fs mc) rootfs argv
                                    else (False, mc_fs mc));
                                 mc1 = mc\<lparr>mc_fs := fs1\<rparr>;
                                 target = (if added then
                                             (case resolve_guest_program (ho_access_x ho) rootfs ''true'' PATH_MAX of
                                                None \<Rightarrow> target0 | Some t \<Rightarrow> t)
                                           else target0);
                                 old_argv0 = (if argv = [] then []
                                              else case read_tracee_string (mc_mem mc) (hd argv) PATH_MAX of
                                                     Some s \<Rightarrow> s | None \<Rightarrow> c_text (ho_stack ho));
                                 argv0 = (if is_script \<and> program_argv0 \<noteq> [] then program_argv0
                                          else if old_argv0 \<noteq> [] then old_argv0 else guest)
                             in case copy_args ee (mc_mem mc) (tl argv) arena_empty [] of
                                  None \<Rightarrow> (RwNo, r, mc1, st)
                                | Some copied \<Rightarrow>
                                    (case exec_via_loader ee argv0 (if is_script then program else target) guest
                                            (if is_script then Some (program_argv0, interp_arg) else None)
                                            (arena_strings copied) r (mc_mem mc) of
                                       (None, m1) \<Rightarrow> (RwNo, r, mc1\<lparr>mc_mem := m1\<rparr>, st)
                                     | (Some r1, m1) \<Rightarrow> (RwYes, r1, mc1\<lparr>mc_mem := m1\<rparr>, st1))))"

end
