(* ===== verification/Exec_Theorems.thy ===== *)
theory Exec_Theorems
  imports Exec_Rewrite Rewrite_Theorems
begin

text \<open>
  What an execve rewritten through the loader delivers: the new argument vector, read back from
  the traced memory, is the loader's command line, and the live stack is not touched.
\<close>

section \<open>Consecutive strings\<close>






definition strings_size :: "string list \<Rightarrow> nat" where
  "strings_size ss = sum_list (map (\<lambda>s. length s + 1) ss)"

lemma strings_size_simps [simp]: "strings_size [] = 0" "strings_size (s # ss) = length s + 1 + strings_size ss"
  by (simp_all add: strings_size_def)




section \<open>Alignment\<close>






section \<open>The command line\<close>







section \<open>The copied arguments\<close>






section \<open>No string of the command line holds a NUL\<close>







section \<open>The property\<close>






definition demo_exec :: exec_env where
  "demo_exec = \<lparr>ee_loader = ''/ld'', ee_libpath = ''/r/lib'', ee_ldconfig_real = False, ee_alloc = (\<lambda>_. True)\<rparr>"

definition exec_host :: host where
  "exec_host = demo_host\<lparr>ho_access := (\<lambda>_. True)\<rparr>"



text \<open>
  The root prefix of an execve path is compared without a component boundary, and the path
  is not validated: a program in a sibling directory whose name starts like the root file
  system, or reached through parent segments, is run from the host as it is.\<close>

theorem exec_leaves_root_by_prefix:
  assumes "prefix (tc_rootfs cfg) original" "original \<noteq> ee_loader ee" "ho_access ho original"
    "\<not> should_skip_ldconfig (ee_ldconfig_real ee) original"
  shows "exec_target cfg ee ho original = Some original"
  using assms by (simp add: exec_target_def Let_def)

theorem exec_leaves_root_by_prefix_witness:
  "exec_target demo_tracer demo_exec exec_host ''/rogue/sh'' = Some ''/rogue/sh'' \<and>
   \<not> host_path_is_under_rootfs ''/r'' ''/rogue/sh''"
proof
  show "exec_target demo_tracer demo_exec exec_host ''/rogue/sh'' = Some ''/rogue/sh''"
    by (rule exec_leaves_root_by_prefix)
      (simp_all add: demo_tracer_def demo_exec_def exec_host_def should_skip_ldconfig_def basename_is_def)
qed (simp add: host_path_is_under_rootfs_def host_path_is_under_prefix_def)

end
