(* ===== verification/Memory_Guard.thy ===== *)
theory Memory_Guard
  imports Exec_Rewrite
begin

text \<open>
  The memory guard and the memory counters of the direct executor, and the two ends of a managed
  \<open>mmap\<close>: the request is turned into an inaccessible mapping at the entry, and registered (or
  unmapped again and failed) at the exit. Byte counts keep their 64 bits.
\<close>

section \<open>Counters\<close>

record mem_stat =
  ms_calls :: u64
  ms_failures :: u64
  ms_bytes :: u64
  ms_large_calls :: u64
  ms_largest :: u64

record memory_stats =
  mt_denied :: u64
  mt_last_denied_bytes :: u64
  mt_last_available :: u64
  mt_last_swap_free :: u64
  mt_last_denied_nr :: int
  mt_last_denied_errno :: nat
  mt_last_denied_syscall :: string
  mt_mmap :: mem_stat
  mt_mremap :: mem_stat
  mt_brk :: mem_stat
  mt_munmap :: mem_stat
  mt_mprotect :: mem_stat
  mt_madvise :: mem_stat

record memory_cfg =
  mg_trace :: bool
  mg_guard :: bool
  mg_threshold :: u64
  mg_min_request :: u64
  mg_min_available :: u64
  mg_min_swap :: u64

definition update_memory_stat :: "memory_cfg \<Rightarrow> u64 \<Rightarrow> bool \<Rightarrow> mem_stat \<Rightarrow> mem_stat" where
  "update_memory_stat cfg bytes failed s0 =
     (let s = s0\<lparr>ms_calls := ms_calls s0 + 1\<rparr>
      in if failed then s\<lparr>ms_failures := ms_failures s + 1\<rparr>
         else s\<lparr>ms_bytes := ms_bytes s + bytes,
                ms_large_calls := (if mg_threshold cfg \<le> bytes then ms_large_calls s + 1 else ms_large_calls s),
                ms_largest := (if ms_largest s < bytes then bytes else ms_largest s)\<rparr>)"

section \<open>The free memory of the host\<close>

text \<open>The lines a loop of \<open>fgets\<close> with a buffer of 192 bytes sees.\<close>

function meminfo_lines :: "string \<Rightarrow> string list" where
  "meminfo_lines [] = []"
| "meminfo_lines (c # s) = fst (fgets 192 (c # s)) # meminfo_lines (snd (fgets 192 (c # s)))"
  by pat_completeness auto
termination
proof (relation "measure length")
  fix c and s :: string
  have "192 = Suc (Suc 190)" by simp
  then show "(snd (fgets 192 (c # s)), c # s) \<in> measure length"
    using fgets_shorter [of 190 c s] by (simp only: in_measure)
qed simp

definition is_space :: "char \<Rightarrow> bool" where
  "is_space c \<longleftrightarrow> c = CHR '' '' \<or> c \<in> {CHR 0x09, CHR 0x0A, CHR 0x0B, CHR 0x0C, CHR 0x0D}"

definition digits_value :: "string \<Rightarrow> nat" where
  "digits_value ds = foldl (\<lambda>n c. 10 * n + (of_char c - 48)) 0 ds"

text \<open>\<open>sscanf\<close> of a label, white space and \<open>%llu\<close>: a number too large saturates, a sign is accepted.\<close>

definition scan_llu :: "string \<Rightarrow> u64 option" where
  "scan_llu s =
     (let t = dropWhile is_space s;
          signed = t \<noteq> [] \<and> hd t \<in> {CHR ''+'', CHR ''-''};
          ds = takeWhile is_digit (if signed then tl t else t);
          v = of_nat (min (digits_value ds) (2 ^ 64 - 1))
      in if ds = [] then None else Some (if signed \<and> hd t = CHR ''-'' then - v else v))"

definition scan_field :: "string \<Rightarrow> string \<Rightarrow> u64 \<Rightarrow> u64" where
  "scan_field label line old =
     (if prefix label line then (case scan_llu (drop (length label) line) of None \<Rightarrow> old | Some v \<Rightarrow> v) else old)"

definition read_meminfo_bytes :: "string option \<Rightarrow> (u64 \<times> u64) option" where
  "read_meminfo_bytes content =
     (case content of None \<Rightarrow> None
      | Some c \<Rightarrow>
          let lines = map c_text (meminfo_lines c);
              available = fold (scan_field ''MemAvailable:'') lines 0;
              free = fold (scan_field ''MemFree:'') lines 0;
              swap = fold (scan_field ''SwapFree:'') lines 0
          in Some ((if available \<noteq> 0 then available else free) * 1024, swap * 1024))"

section \<open>The guard\<close>

text \<open>The result holds the memory figures the decision was made with.\<close>

definition memory_guard_would_deny :: "memory_cfg \<Rightarrow> string option \<Rightarrow> u64 \<Rightarrow> (u64 \<times> u64) option" where
  "memory_guard_would_deny cfg meminfo requested =
     (if \<not> mg_guard cfg \<or> requested < mg_min_request cfg then None
      else case read_meminfo_bytes meminfo of
             None \<Rightarrow> None
           | Some (avail, swap) \<Rightarrow>
               if avail < mg_min_available cfg then Some (avail, swap)
               else if swap < mg_min_swap cfg then Some (avail, swap)
               else if 0 < requested \<and> avail < requested + mg_min_available cfg then Some (avail, swap)
               else None)"

definition memory_request_bytes :: "int \<Rightarrow> (nat \<Rightarrow> u64) \<Rightarrow> u64 \<Rightarrow> u64" where
  "memory_request_bytes nr args last_brk =
     (if nr = 222 then args 1
      else if nr = 216 then args 2
      else if nr = 214 then
        (if args 0 = 0 \<or> last_brk = 0 \<or> args 0 \<le> last_brk then 0 else args 0 - last_brk)
      else 0)"

text \<open>
  The first result says that the call has been answered. When the registers cannot be set the
  answer stays in the local registers and the call goes on.
\<close>

definition maybe_guard_memory_syscall ::
  "memory_cfg \<Rightarrow> string option \<Rightarrow> host \<Rightarrow> tracee \<Rightarrow> regs \<Rightarrow> machine \<Rightarrow> memory_stats
     \<Rightarrow> bool \<times> tracee \<times> regs \<times> machine \<times> memory_stats" where
  "maybe_guard_memory_syscall cfg meminfo ho st r mc ms =
     (if \<not> mg_guard cfg \<or> \<not> is_memory_trace_syscall (ts_last_nr st) then (False, st, r, mc, ms)
      else
        let requested = memory_request_bytes (ts_last_nr st) (ts_last_args st) (ts_last_brk st)
        in if requested = 0 then (False, st, r, mc, ms)
           else case memory_guard_would_deny cfg meminfo requested of
                  None \<Rightarrow> (False, st, r, mc, ms)
                | Some (avail, swap) \<Rightarrow>
                    let ms1 = ms\<lparr>mt_denied := mt_denied ms + 1, mt_last_denied_bytes := requested,
                                 mt_last_available := avail, mt_last_swap_free := swap,
                                 mt_last_denied_nr := ts_last_nr st,
                                 mt_last_denied_errno := errno_code ENOMEM,
                                 mt_last_denied_syscall := take 31 (syscall_name (ts_last_nr st))\<rparr>;
                        result = (if ts_last_nr st = 214 \<and> ts_last_brk st \<noteq> 0 then ts_last_brk st
                                  else neg_errno ENOMEM);
                        st1 = st\<lparr>ts_emulated_result := result\<rparr>;
                        (ok, r1, mc1) = complete_emulated_syscall ho r result mc
                    in if ok then (True, st1\<lparr>ts_emulated_nr := ts_last_nr st\<rparr>, r1, mc1, ms1)
                       else (False, st1, r1, mc1, ms1))"

definition record_memory_syscall_exit :: "memory_cfg \<Rightarrow> tracee \<Rightarrow> u64 \<Rightarrow> memory_stats \<Rightarrow> tracee \<times> memory_stats" where
  "record_memory_syscall_exit cfg st result ms =
     (let nr = ts_last_nr st; failed = syscall_failed_result result;
          len = ts_last_args st 1; upd = update_memory_stat cfg
      in if \<not> mg_trace cfg \<or> \<not> is_memory_trace_syscall nr then (st, ms)
         else if nr = 222 then (st, ms\<lparr>mt_mmap := upd len failed (mt_mmap ms)\<rparr>)
         else if nr = 216 then (st, ms\<lparr>mt_mremap := upd (ts_last_args st 2) failed (mt_mremap ms)\<rparr>)
         else if nr = 214 then
           (let counted = \<not> failed \<and> result \<noteq> 0;
                bytes = (if counted \<and> ts_last_brk st \<noteq> 0 \<and> ts_last_brk st < result then result - ts_last_brk st else 0)
            in (if counted then st\<lparr>ts_last_brk := result\<rparr> else st, ms\<lparr>mt_brk := upd bytes failed (mt_brk ms)\<rparr>))
         else if nr = 215 then (st, ms\<lparr>mt_munmap := upd len failed (mt_munmap ms)\<rparr>)
         else if nr = 226 then (st, ms\<lparr>mt_mprotect := upd len failed (mt_mprotect ms)\<rparr>)
         else (st, ms\<lparr>mt_madvise := upd len failed (mt_madvise ms)\<rparr>))"

section \<open>Managed mappings\<close>

text \<open>The result is false when the registers could not be set.\<close>

definition maybe_prepare_managed_mmap ::
  "pager_config \<Rightarrow> host \<Rightarrow> tracee \<Rightarrow> regs \<Rightarrow> machine \<Rightarrow> pager_admission
     \<Rightarrow> bool \<times> tracee \<times> regs \<times> machine \<times> pager_admission" where
  "maybe_prepare_managed_mmap pg ho st r mc ad =
     (let (candidate, ad1) = managed_trace_is_candidate_mmap pg (ts_last_args st) ad
      in if \<not> candidate then (True, st\<lparr>ts_managed_pending_len := 0\<rparr>, r, mc, ad1)
         else
           let st1 = st\<lparr>ts_managed_pending_len := ts_last_args st 1, ts_managed_pending_prot := ts_last_args st 2,
                        ts_managed_pending_flags := ts_last_args st 3\<rparr>;
               ad2 = ad1\<lparr>ad_pending := ad_pending ad1 + 1\<rparr>;
               r1 = set_rg 2 0 r;
               (ok, mc1) = set_regs ho r1 mc
           in if ok then (True, st1, r1, mc1, ad2)
              else (False, st1\<lparr>ts_managed_pending_len := 0\<rparr>, r1, mc1, ad2))"

text \<open>What the host does when a mapping is registered: the page size, the allocations and the
  injected \<open>munmap\<close>.\<close>

record mmap_env =
  me_page_size :: nat
  me_calloc_ok :: bool
  me_failed :: "errno option"
  me_inject :: inject_env

definition maybe_finish_managed_mmap ::
  "pager_config \<Rightarrow> mmap_env \<Rightarrow> host \<Rightarrow> tracee \<Rightarrow> regs \<Rightarrow> machine \<Rightarrow> pager_admission \<Rightarrow> memory_stats \<Rightarrow> u64
     \<Rightarrow> tracee \<times> regs \<times> machine \<times> pager_admission \<times> memory_stats" where
  "maybe_finish_managed_mmap pg me ho st r mc ad ms result =
     (if ts_managed_pending_len st = 0 then (st, r, mc, ad, ms)
      else
        let len = ts_managed_pending_len st;
            prot = of_int (int_arg (ts_managed_pending_prot st));
            st1 = st\<lparr>ts_managed_pending_len := 0\<rparr>
        in if syscall_failed_result result \<or> result = 0 then (st1, r, mc, ad, ms)
           else
             let (rc, rs, ad1) = register_managed_mmap_region pg (me_page_size me)
                                   (me_calloc_ok me) (me_failed me) (ts_regions st) ad result len prot;
                 st2 = st1\<lparr>ts_regions := rs\<rparr>
             in case rc of
                  None \<Rightarrow> (st2, r, mc, ad1, ms)
                | Some e \<Rightarrow>
                    let (unmapped, m1, tr1) = inject_tracee_syscall (me_inject me) r NR_munmap result len 0 (mc_mem mc) (mc_regs mc);
                        ad2 = (if unmapped = Some 0 then ad1
                               else ad1\<lparr>ad_cleanup_munmap_failed := ad_cleanup_munmap_failed ad1 + 1\<rparr>);
                        ad3 = ad2\<lparr>ad_denied_enomem := ad_denied_enomem ad2 + 1\<rparr>;
                        ms1 = ms\<lparr>mt_denied := mt_denied ms + 1, mt_last_denied_bytes := len\<rparr>;
                        r1 = set_rg 0 (neg_errno ENOMEM) r;
                        (ok, mc1) = set_regs ho r1 (mc\<lparr>mc_mem := m1, mc_regs := tr1\<rparr>);
                        ad4 = record_managed_pager_admission ''denied'' ''register-failed''
                                ''allocation_denied_enomem'' len pg (errno_code e) ad3
                    in (st2, r1, mc1, ad4, ms1))"

end
