(* ===== verification/Syscall_Entry.thy ===== *)
theory Syscall_Entry
  imports Memory_Guard
begin

text \<open>
  \<open>rewrite_syscall_paths\<close> and \<open>handle_syscall_entry\<close>: what happens when a traced process stops at
  the entry of a system call. The state of the process, its machine and the counters of the
  executor are passed on; the last result tells whether the call was completed without the
  kernel.
\<close>

section \<open>Settings and counters\<close>

record tracer_env =
  te_cfg :: tracer_cfg
  te_exec :: exec_env
  te_memory :: memory_cfg
  te_pager :: pager_config
  te_stats :: bool
  te_selective :: bool
  te_validate_tracees :: bool

record counters =
  ct_syscalls :: "int \<Rightarrow> u64"
  ct_stops :: u64
  ct_memory :: memory_stats
  ct_admission :: pager_admission

definition record_syscall_stat :: "tracer_env \<Rightarrow> int \<Rightarrow> counters \<Rightarrow> counters" where
  "record_syscall_stat env nr ct =
     (if te_stats env \<and> 0 \<le> nr \<and> nr < 512
      then ct\<lparr>ct_syscalls := (ct_syscalls ct)(nr := ct_syscalls ct nr + 1)\<rparr> else ct)"

section \<open>The dispatch of path arguments\<close>

definition rewrite_syscall_paths ::
  "tracer_env \<Rightarrow> host \<Rightarrow> int \<Rightarrow> tracee \<Rightarrow> regs \<Rightarrow> machine \<Rightarrow> rewrite_result \<times> regs \<times> machine \<times> tracee" where
  "rewrite_syscall_paths env ho nr st r mc =
     (let cfg = te_cfg env; keep = (\<lambda>(rw, r1, mc1). (rw, r1, mc1, st))
      in case path_action_of nr of
           RewritePath i \<Rightarrow> keep (rewrite_path_arg cfg ho i r mc)
         | RewriteAt d p \<Rightarrow> keep (rewrite_at_path_arg cfg ho (syscall_name nr) d p 8192 r mc)
         | RewriteAtPair d1 p1 d2 p2 \<Rightarrow> keep (rewrite_at_path_args cfg ho (syscall_name nr) d1 p1 d2 p2 r mc)
         | RewriteChdir \<Rightarrow> rewrite_chdir_arg cfg ho st r mc
         | RewriteSockaddr \<Rightarrow> keep (rewrite_unix_sockaddr_arg cfg ho r mc)
         | RewriteExecve \<Rightarrow> rewrite_execve_arg cfg (te_exec env) ho st r mc
         | NoPath \<Rightarrow> (RwNo, r, mc, st))"

section \<open>The entry\<close>

text \<open>Answering a call: the result is stored, the call is skipped, and only when the registers
  could be set is the process marked as having an emulated call.\<close>

definition answer_call ::
  "host \<Rightarrow> u64 \<Rightarrow> tracee \<Rightarrow> regs \<Rightarrow> machine \<Rightarrow> bool \<times> tracee \<times> regs \<times> machine" where
  "answer_call ho result st r mc =
     (let st1 = st\<lparr>ts_emulated_result := result\<rparr>; (ok, r1, mc1) = complete_emulated_syscall ho r result mc
      in (ok, if ok then st1\<lparr>ts_emulated_nr := ts_last_nr st\<rparr> else st1, r1, mc1))"

text \<open>The chain of special cases; the system call numbers exclude each other.\<close>

definition emulated_answer :: "tracer_env \<Rightarrow> host \<Rightarrow> tracee \<Rightarrow> regs \<Rightarrow> machine \<Rightarrow> u64 option \<times> machine" where
  "emulated_answer env ho st r mc =
     (let nr = ts_last_nr st; cfg = te_cfg env
      in if nr = 17 then emulate_getcwd cfg ho st r mc
         else if nr = 78 then emulate_proc_self_exe_readlinkat ho st r mc
         else if 425 \<le> nr \<and> nr \<le> 427 then (Some (neg_errno ENOSYS), mc)
         else if nr = 57 \<and> int_arg (rg r 0) = tc_rootfs_fd cfg then (Some 0, mc)
         else if nr = 37 then emulate_linkat_copy cfg ho r mc
         else if nr = 36 then emulate_runtime_tmp_symlinkat cfg ho r mc
         else if nr = 48 \<or> nr = 439 then (Some (emulate_faccessat_path cfg ho r mc), mc)
         else (None, mc))"

text \<open>The first part: the state is recorded, a mutation of paths is announced, and a large
  mapping is turned over to the pager.\<close>

definition entry_begin ::
  "tracer_env \<Rightarrow> host \<Rightarrow> tracee \<Rightarrow> regs \<Rightarrow> machine \<Rightarrow> counters \<Rightarrow> tracee \<times> regs \<times> machine \<times> counters" where
  "entry_begin env ho st0 r mc0 ct0 =
     (let nr = sint (rg r 8);
          ct = record_syscall_stat env nr ct0;
          st1 = st0\<lparr>ts_last_nr := nr, ts_last_args := (\<lambda>i. if i < 6 then rg r i else ts_last_args st0 i)\<rparr>;
          mutates = path_syscall_invalidates_cache nr;
          mc = (if mutates then mc0\<lparr>mc_cache := begin_path_cache_mutation (mc_cache mc0)\<rparr> else mc0);
          st2 = (if mutates then st1\<lparr>ts_pending_invalidation := True\<rparr> else st1)
      in if nr = 222 then
           (let (ok, st3, r1, mc1, ad) = maybe_prepare_managed_mmap (te_pager env) ho st2 r mc (ct_admission ct)
            in (st3, r1, mc1, ct\<lparr>ct_admission := ad\<rparr>))
         else (st2, r, mc, ct))"

text \<open>The second part: the guard or an emulation. The results are \<open>forced_emulation\<close> and
  \<open>completed_in_userland\<close>.\<close>

definition entry_emulate ::
  "tracer_env \<Rightarrow> host \<Rightarrow> string option \<Rightarrow> tracee \<Rightarrow> regs \<Rightarrow> machine \<Rightarrow> counters
     \<Rightarrow> bool \<times> bool \<times> tracee \<times> regs \<times> machine \<times> counters" where
  "entry_emulate env ho meminfo st r mc ct =
     (let (guarded, st1, r1, mc1, ms) =
            (if ts_managed_pending_len st = 0
             then maybe_guard_memory_syscall (te_memory env) meminfo ho st r mc (ct_memory ct)
             else (False, st, r, mc, ct_memory ct));
          ct1 = ct\<lparr>ct_memory := ms\<rparr>
      in if guarded then (True, True, st1, r1, mc1, ct1)
         else
           case emulated_answer env ho st1 r1 mc1 of
             (None, mc2) \<Rightarrow> (False, False, st1, r1, mc2, ct1)
           | (Some result, mc2) \<Rightarrow>
               let (ok, st2, r2, mc3) = answer_call ho result st1 r1 mc2 in (True, ok, st2, r2, mc3, ct1))"

text \<open>The third part: path arguments, then the calls that always fail or always succeed, and
  otherwise the changed registers.\<close>

definition entry_rewrite ::
  "tracer_env \<Rightarrow> host \<Rightarrow> tracee \<Rightarrow> regs \<Rightarrow> machine \<Rightarrow> bool \<times> tracee \<times> regs \<times> machine" where
  "entry_rewrite env ho st r mc =
     (let nr = ts_last_nr st;
          (rw, r1, mc1, st1) = rewrite_syscall_paths env ho nr st r mc;
          remapped = syscall_remap_number nr \<noteq> nr;
          r2 = (if remapped then set_rg 8 (of_int (syscall_remap_number nr)) r1 else r1)
      in case syscall_emulate_errno nr of
           Some e \<Rightarrow> answer_call ho (neg_errno e) st1 r2 mc1
         | None \<Rightarrow>
             if syscall_emulate_success nr then
               (let (result, st2, m2) = prepare_emulated_result (mc_mem mc1) st1 nr
                in answer_call ho result st2 r2 (mc1\<lparr>mc_mem := m2\<rparr>))
             else if rw \<noteq> RwNo \<or> remapped then (False, st1, r2, snd (set_regs ho r2 mc1))
             else (False, st1, r2, mc1))"

definition handle_syscall_entry ::
  "tracer_env \<Rightarrow> host \<Rightarrow> string option \<Rightarrow> tracee \<Rightarrow> regs \<Rightarrow> machine \<Rightarrow> counters
     \<Rightarrow> bool \<times> tracee \<times> regs \<times> machine \<times> counters" where
  "handle_syscall_entry env ho meminfo st0 r0 mc0 ct0 =
     (let (st1, r1, mc1, ct1) = entry_begin env ho st0 r0 mc0 ct0;
          (forced, completed0, st2, r2, mc2, ct2) = entry_emulate env ho meminfo st1 r1 mc1 ct1;
          (completed, st3, r3, mc3) =
            (if forced then (completed0, st2, r2, mc2) else entry_rewrite env ho st2 r2 mc2)
      in if path_syscall_invalidates_cache (ts_last_nr st1) \<and> completed
         then (completed, st3\<lparr>ts_pending_invalidation := False\<rparr>, r3,
               mc3\<lparr>mc_cache := finish_path_cache_mutation (mc_cache mc3)\<rparr>, ct2)
         else (completed, st3, r3, mc3, ct2))"

end
