(* ===== verification/Trace_Loop.thy ===== *)
theory Trace_Loop
  imports Syscall_Entry
begin

text \<open>
  \<open>trace_and_exec\<close>: the loop over \<open>waitpid\<close>. Each answer of \<open>waitpid\<close> is an event with what the
  kernel says about the stopped process; a step gives the new state of the tracer and how the
  process is resumed, or the return code of the loop.
\<close>

section \<open>Events and outcomes\<close>

datatype wait_status = Exited int | Signaled int | Stopped int nat | OtherStatus

record stop =
  sp_pid :: int
  sp_status :: wait_status
  sp_mem :: vmem
  sp_getregs_ok :: bool
  sp_regs :: regs
  sp_nr :: int
  sp_host :: host
  sp_meminfo :: "string option"
  sp_owned :: bool
  sp_fault_addr :: "u64 option"
  sp_pager :: pager_env
  sp_mmap :: mmap_env
  sp_event_pid :: "int option"
  sp_resume_ok :: bool

datatype wait_event =
    WaitFailed errno
  | WaitNothing "int \<Rightarrow> bool" "int \<Rightarrow> bool" "int \<Rightarrow> bool"
  | WaitStop stop

datatype resume = PtraceCont int | PtraceSyscall int

datatype outcome = Resumed resume | NotResumed | Finished int

record tracer =
  tr_tracees :: tracees
  tr_cache :: path_cache
  tr_fs :: hfs
  tr_counters :: counters
  tr_root :: int
  tr_root_done :: bool
  tr_root_rc :: int

definition SIGTRAP :: int where "SIGTRAP = 5"
definition SIGKILL :: int where "SIGKILL = 9"
definition SIGSEGV :: int where "SIGSEGV = 11"
definition SIGSTOP :: int where "SIGSTOP = 19"
definition SIGSYS :: int where "SIGSYS = 31"
definition SYSCALL_STOP :: int where "SYSCALL_STOP = 133"
definition PTRACE_EVENT_SECCOMP :: nat where "PTRACE_EVENT_SECCOMP = 7"

lemmas signal_consts = SIGTRAP_def SIGKILL_def SIGSEGV_def SIGSTOP_def SIGSYS_def SYSCALL_STOP_def
  PTRACE_EVENT_SECCOMP_def

definition machine_at :: "stop \<Rightarrow> tracer \<Rightarrow> machine" where
  "machine_at sp tr = \<lparr>mc_mem = sp_mem sp, mc_cache = tr_cache tr, mc_regs = sp_regs sp, mc_nr = sp_nr sp, mc_fs = tr_fs tr\<rparr>"

definition put_state :: "nat \<Rightarrow> tracee \<Rightarrow> machine \<Rightarrow> counters \<Rightarrow> tracer \<Rightarrow> tracer" where
  "put_state i st mc ct tr =
     tr\<lparr>tr_tracees := (tr_tracees tr)[i := st], tr_cache := mc_cache mc, tr_fs := mc_fs mc, tr_counters := ct\<rparr>"

definition continue_tracee :: "tracer_env \<Rightarrow> int \<Rightarrow> resume" where
  "continue_tracee env sig = (if te_selective env then PtraceCont sig else PtraceSyscall sig)"

text \<open>A failing resume ends the loop with 126.\<close>

definition resume_or_fail :: "stop \<Rightarrow> resume \<Rightarrow> outcome" where
  "resume_or_fail sp how = (if sp_resume_ok sp then Resumed how else Finished 126)"

section \<open>The end of a process\<close>

definition process_gone :: "int \<Rightarrow> int \<Rightarrow> tracer \<Rightarrow> tracer \<times> outcome" where
  "process_gone pid rc tr =
     (let (ts, pc) = remove_tracee (tr_tracees tr) (tr_cache tr) pid;
          tr1 = tr\<lparr>tr_tracees := ts, tr_cache := pc\<rparr>;
          tr2 = (if pid = tr_root tr then tr1\<lparr>tr_root_done := True, tr_root_rc := rc\<rparr> else tr1)
      in (tr2, if tr_root_done tr2 \<and> tracee_count ts = 0 then Finished (tr_root_rc tr2) else NotResumed))"

section \<open>System call stops\<close>

text \<open>The exit of a call that was announced at its entry.\<close>

definition syscall_exit ::
  "tracer_env \<Rightarrow> stop \<Rightarrow> tracee \<Rightarrow> machine \<Rightarrow> counters \<Rightarrow> tracee \<times> machine \<times> counters" where
  "syscall_exit env sp st mc ct =
     (let r = sp_regs sp; ho = sp_host sp
      in if 0 \<le> ts_emulated_nr st then
           (st\<lparr>ts_last_emulated_nr := ts_emulated_nr st, ts_emulated_nr := - 1\<rparr>,
            snd (set_regs ho (set_rg 0 (ts_emulated_result st) r) mc), ct)
         else if ts_last_nr st = 49 \<and> rg r 0 = 0 \<and> ts_pending_guest_cwd st \<noteq> [] then
           (st\<lparr>ts_guest_cwd := take (PATH_MAX - 1) (ts_pending_guest_cwd st), ts_pending_guest_cwd := []\<rparr>, mc, ct)
         else if is_memory_trace_syscall (ts_last_nr st) then
           (let (st1, ms) = record_memory_syscall_exit (te_memory env) st (rg r 0) (ct_memory ct);
                ct1 = ct\<lparr>ct_memory := ms\<rparr>
            in if ts_last_nr st = 222 then
                 (let (st2, r1, mc1, ad, ms1) = maybe_finish_managed_mmap (te_pager env) (sp_mmap sp) ho st1 r mc
                                                  (ct_admission ct1) (ct_memory ct1) (rg r 0)
                  in (st2, mc1, ct1\<lparr>ct_admission := ad, ct_memory := ms1\<rparr>))
               else (st1, mc, ct1))
         else (st, mc, ct))"

definition finish_pending :: "tracee \<Rightarrow> machine \<Rightarrow> tracee \<times> machine" where
  "finish_pending st mc =
     (if ts_in_syscall st \<and> ts_pending_invalidation st
      then (st\<lparr>ts_pending_invalidation := False\<rparr>, mc\<lparr>mc_cache := finish_path_cache_mutation (mc_cache mc)\<rparr>)
      else (st, mc))"

definition entry_or_exit ::
  "tracer_env \<Rightarrow> stop \<Rightarrow> tracee \<Rightarrow> machine \<Rightarrow> counters \<Rightarrow> bool \<times> tracee \<times> machine \<times> counters" where
  "entry_or_exit env sp st mc ct =
     (if \<not> ts_in_syscall st then
        (let (completed, st1, r1, mc1, ct1) =
               handle_syscall_entry env (sp_host sp) (sp_meminfo sp) st (sp_regs sp) mc ct
         in (completed, st1, mc1, ct1))
      else (let (st1, mc1, ct1) = syscall_exit env sp st mc ct in (False, st1, mc1, ct1)))"

definition syscall_stop ::
  "tracer_env \<Rightarrow> stop \<Rightarrow> tracee \<Rightarrow> machine \<Rightarrow> counters \<Rightarrow> tracee \<times> machine \<times> counters" where
  "syscall_stop env sp st mc ct =
     (if \<not> sp_getregs_ok sp then (st, mc, ct)
      else
        let (completed, st1, mc1, ct1) = entry_or_exit env sp st mc ct;
            (st2, mc2) = finish_pending st1 mc1
        in (st2\<lparr>ts_in_syscall := (if completed then True else \<not> ts_in_syscall st2)\<rparr>, mc2, ct1))"

text \<open>The seccomp stop also decides how the process goes on: to the exit of the call only when
  something is left to do there.\<close>

definition seccomp_entry ::
  "tracer_env \<Rightarrow> stop \<Rightarrow> tracee \<Rightarrow> machine \<Rightarrow> counters \<Rightarrow> tracee \<times> machine \<times> counters" where
  "seccomp_entry env sp st mc ct =
     (if \<not> sp_getregs_ok sp then (st, mc, ct)
      else let (completed, st1, r1, mc1, ct1) =
                 handle_syscall_entry env (sp_host sp) (sp_meminfo sp) st (sp_regs sp) mc ct
           in (if completed then st1\<lparr>ts_in_syscall := True\<rparr> else st1, mc1, ct1))"

definition seccomp_stop ::
  "tracer_env \<Rightarrow> stop \<Rightarrow> tracee \<Rightarrow> machine \<Rightarrow> counters \<Rightarrow> tracee \<times> machine \<times> counters \<times> resume" where
  "seccomp_stop env sp st mc ct =
     (let (st1, mc1, ct1) = seccomp_entry env sp st mc ct
      in if ts_in_syscall st1 \<and> 0 \<le> ts_emulated_nr st1 then (st1, mc1, ct1, PtraceSyscall 0)
         else if (mg_trace (te_memory env) \<and> is_memory_trace_syscall (ts_last_nr st1)) \<or>
                 ts_pending_invalidation st1 \<or> (ts_last_nr st1 = 49 \<and> ts_pending_guest_cwd st1 \<noteq> [])
         then (st1\<lparr>ts_in_syscall := True\<rparr>, mc1, ct1, PtraceSyscall 0)
         else (st1, mc1, ct1, continue_tracee env 0))"

section \<open>SIGSYS\<close>

text \<open>What a call that the platform forbids is answered with. The credential calls, which change the
  process, come last here: no number belongs to two of the cases.\<close>

definition sigsys_value :: "tracer_env \<Rightarrow> host \<Rightarrow> tracee \<Rightarrow> regs \<Rightarrow> machine \<Rightarrow> int \<Rightarrow> u64 option \<times> machine" where
  "sigsys_value env ho st r mc nr =
     (let cfg = te_cfg env
      in if nr = 17 then emulate_getcwd cfg ho st r mc
         else if nr = 48 \<or> nr = 439 then (Some (emulate_faccessat_path cfg ho r mc), mc)
         else if nr = 78 then emulate_proc_self_exe_readlinkat ho st r mc
         else if syscall_emulate_errno nr \<noteq> None then (map_option neg_errno (syscall_emulate_errno nr), mc)
         else if 425 \<le> nr \<and> nr \<le> 427 then (Some (neg_errno ENOSYS), mc)
         else if nr = 57 \<and> int_arg (rg r 0) = tc_rootfs_fd cfg then (Some 0, mc)
         else (None, mc))"

definition sigsys_answer ::
  "tracer_env \<Rightarrow> host \<Rightarrow> tracee \<Rightarrow> regs \<Rightarrow> machine \<Rightarrow> int \<Rightarrow> (u64 \<times> tracee) option \<times> machine" where
  "sigsys_answer env ho st r mc nr =
     (let st1 = st\<lparr>ts_last_nr := nr, ts_last_args := (\<lambda>i. if i < 6 then rg r i else ts_last_args st i)\<rparr>
      in if syscall_emulate_success nr then
           (let (v, st2, m) = prepare_emulated_result (mc_mem mc) st1 nr in (Some (v, st2), mc\<lparr>mc_mem := m\<rparr>))
         else (let (res, mc1) = sigsys_value env ho st r mc nr in (map_option (\<lambda>v. (v, st1)) res, mc1)))"

text \<open>The first result tells whether the signal is suppressed.\<close>

definition sigsys_emulate ::
  "tracer_env \<Rightarrow> stop \<Rightarrow> tracee \<Rightarrow> machine \<Rightarrow> bool \<times> tracee \<times> regs \<times> machine" where
  "sigsys_emulate env sp st mc =
     (let nr = sint (rg (sp_regs sp) 8); r = sp_regs sp; ho = sp_host sp
      in case sigsys_answer env ho st r mc nr of
           (None, mc1) \<Rightarrow> (False, st, r, mc1)
         | (Some (v, st1), mc1) \<Rightarrow>
             let st2 = st1\<lparr>ts_emulated_result := v\<rparr>; (ok, r1, mc2) = complete_emulated_syscall ho r v mc1
             in if ok then (True, st2\<lparr>ts_last_emulated_nr := nr, ts_emulated_nr := - 1, ts_in_syscall := False\<rparr>, r1, mc2)
                else (False, st2, r1, mc2))"

definition sigsys_stop ::
  "tracer_env \<Rightarrow> stop \<Rightarrow> tracee \<Rightarrow> machine \<Rightarrow> tracee \<times> machine \<times> resume" where
  "sigsys_stop env sp st mc =
     (if \<not> sp_getregs_ok sp then (st, mc, continue_tracee env SIGSYS)
      else
        let completed_current = (sint (rg (sp_regs sp) 8) = - 1 \<and> syscall_completed_in_userland (ts_last_nr st));
            known = (0 \<le> ts_emulated_nr st \<or>
                     (0 \<le> ts_last_emulated_nr st \<and> syscall_completed_in_userland (ts_last_emulated_nr st)) \<or>
                     completed_current);
            (suppress, st1, r1, mc1) = (if known then (True, st, sp_regs sp, mc) else sigsys_emulate env sp st mc)
        in if \<not> suppress then (st1, mc1, continue_tracee env SIGSYS)
           else
             let (st2, mc2) =
                   (if 0 \<le> ts_emulated_nr st1 then
                      (st1\<lparr>ts_last_emulated_nr := ts_emulated_nr st1, ts_emulated_nr := - 1, ts_in_syscall := False\<rparr>,
                       snd (set_regs (sp_host sp) (set_rg 0 (ts_emulated_result st1) r1) mc1))
                    else if completed_current then
                      (st1\<lparr>ts_last_emulated_nr := ts_last_nr st1, ts_in_syscall := False\<rparr>,
                       snd (set_regs (sp_host sp) (set_rg 0 (ts_emulated_result st1) r1) mc1))
                    else (st1, mc1))
             in (st2\<lparr>ts_last_emulated_nr := - 1\<rparr>, mc2, continue_tracee env 0))"

section \<open>Children\<close>

definition inherit :: "tracee \<Rightarrow> tracee \<Rightarrow> tracee" where
  "inherit parent child =
     child\<lparr>ts_uid := ts_uid parent, ts_euid := ts_euid parent, ts_suid := ts_suid parent,
           ts_gid := ts_gid parent, ts_egid := ts_egid parent, ts_sgid := ts_sgid parent,
           ts_exec_guest_path := take (PATH_MAX - 1) (ts_exec_guest_path parent),
           ts_guest_cwd := (if ts_guest_cwd parent \<noteq> [] then take (PATH_MAX - 1) (ts_guest_cwd parent) else ''/'')\<rparr>"

definition fork_stop :: "stop \<Rightarrow> nat \<Rightarrow> tracees \<Rightarrow> tracees" where
  "fork_stop sp i ts =
     (case sp_event_pid sp of
        None \<Rightarrow> ts
      | Some new_pid \<Rightarrow>
          if new_pid \<le> 0 then ts
          else case add_tracee ts new_pid of
                 (None, ts1) \<Rightarrow> ts1
               | (Some j, ts1) \<Rightarrow> ts1[j := inherit (ts1 ! i) (ts1 ! j)])"

section \<open>One stop\<close>

definition fault_stop ::
  "tracer_env \<Rightarrow> stop \<Rightarrow> tracee \<Rightarrow> machine \<Rightarrow> fault_result \<times> tracee \<times> machine" where
  "fault_stop env sp st mc =
     (case sp_fault_addr sp of
        None \<Rightarrow> (NotManaged, st, mc)
      | Some addr \<Rightarrow>
          if \<not> sp_getregs_ok sp then (NotManaged, st, mc)
          else let (res, m, rs) = handle_managed_memory_fault (sp_pager sp) (sp_regs sp) (mc_mem mc) (ts_regions st) addr
               in (res, st\<lparr>ts_regions := rs\<rparr>, mc\<lparr>mc_mem := m\<rparr>))"

definition dispatch_stop ::
  "tracer_env \<Rightarrow> stop \<Rightarrow> int \<Rightarrow> nat \<Rightarrow> nat \<Rightarrow> tracee \<Rightarrow> machine \<Rightarrow> counters \<Rightarrow> tracer \<Rightarrow> tracer \<times> machine \<times> outcome" where
  "dispatch_stop env sp sig event i st mc ct tr =
     (if sig = SYSCALL_STOP then
        (let (st1, mc1, ct1) = syscall_stop env sp st mc ct
         in (put_state i st1 mc1 ct1 tr, mc1, resume_or_fail sp (continue_tracee env 0)))
      else if sig = SIGSYS then
        (let (st1, mc1, how) = sigsys_stop env sp st mc
         in (put_state i st1 mc1 ct tr, mc1, resume_or_fail sp how))
      else if event = PTRACE_EVENT_SECCOMP then
        (let (st1, mc1, ct1, how) = seccomp_stop env sp st mc ct
         in (put_state i st1 mc1 ct1 tr, mc1, resume_or_fail sp how))
      else if event \<in> {1, 2, 3} then
        (let tr1 = put_state i st mc ct tr
         in (tr1\<lparr>tr_tracees := fork_stop sp i (tr_tracees tr1)\<rparr>, mc, resume_or_fail sp (continue_tracee env 0)))
      else if event \<in> {4, 6} \<or> sig = SIGSTOP \<or> sig = SIGTRAP then
        (put_state i st mc ct tr, mc, resume_or_fail sp (continue_tracee env 0))
      else (put_state i st mc ct tr, mc, resume_or_fail sp (continue_tracee env sig)))"

definition process_stopped :: "tracer_env \<Rightarrow> stop \<Rightarrow> int \<Rightarrow> nat \<Rightarrow> nat \<Rightarrow> tracer \<Rightarrow> tracer \<times> machine \<times> outcome" where
  "process_stopped env sp sig event i tr =
     (let ct0 = tr_counters tr;
          ct = (if te_stats env then ct0\<lparr>ct_stops := ct_stops ct0 + 1\<rparr> else ct0);
          mc = machine_at sp tr; st = tr_tracees tr ! i
      in if te_validate_tracees env \<and> \<not> sp_owned sp then
           (let (ts, pc) = remove_tracee (tr_tracees tr) (tr_cache tr) (sp_pid sp)
            in (tr\<lparr>tr_tracees := ts, tr_cache := pc, tr_counters := ct\<rparr>, mc, NotResumed))
         else
           let (res, st1, mc1) = (if sig = SIGSEGV \<and> pg_enabled (te_pager env) then fault_stop env sp st mc
                                  else (NotManaged, st, mc))
           in if res = FaultHandled then (put_state i st1 mc1 ct tr, mc1, resume_or_fail sp (continue_tracee env 0))
              else dispatch_stop env sp sig event i st1 mc1 ct tr)"

definition trace_stop :: "tracer_env \<Rightarrow> stop \<Rightarrow> tracer \<Rightarrow> tracer \<times> machine \<times> outcome" where
  "trace_stop env sp tr =
     (case add_tracee (tr_tracees tr) (sp_pid sp) of
        (None, ts) \<Rightarrow> (tr, machine_at sp tr, Resumed (continue_tracee env SIGKILL))
      | (Some i, ts) \<Rightarrow>
          let tr1 = tr\<lparr>tr_tracees := ts\<rparr>
          in case sp_status sp of
               Exited rc \<Rightarrow> (let (tr2, out) = process_gone (sp_pid sp) rc tr1 in (tr2, machine_at sp tr1, out))
             | Signaled sig \<Rightarrow> (let (tr2, out) = process_gone (sp_pid sp) (128 + sig) tr1 in (tr2, machine_at sp tr1, out))
             | OtherStatus \<Rightarrow> (tr1, machine_at sp tr1, NotResumed)
             | Stopped sig event \<Rightarrow> process_stopped env sp sig event i tr1)"

section \<open>The loop\<close>

definition wait_step :: "tracer_env \<Rightarrow> wait_event \<Rightarrow> tracer \<Rightarrow> tracer \<times> outcome" where
  "wait_step env ev tr =
     (case ev of
        WaitFailed e \<Rightarrow>
          (tr, if e = EINTR then NotResumed else if e = ECHILD \<and> tr_root_done tr then Finished (tr_root_rc tr) else Finished 126)
      | WaitNothing alive owned gone \<Rightarrow>
          (let (n, ts) = prune_dead_tracees alive owned gone (tr_tracees tr); tr1 = tr\<lparr>tr_tracees := ts\<rparr>
           in (tr1, if n = 0 then Finished (if tr_root_done tr then tr_root_rc tr else 126) else NotResumed))
      | WaitStop sp \<Rightarrow> (let (tr1, mc, out) = trace_stop env sp tr in (tr1, out)))"

text \<open>The loop over a finite history of answers: the final state, and the return code when the
  loop ended within the history.\<close>

fun trace_loop :: "tracer_env \<Rightarrow> wait_event list \<Rightarrow> tracer \<Rightarrow> tracer \<times> int option" where
  "trace_loop env [] tr = (tr, None)"
| "trace_loop env (ev # evs) tr =
     (case wait_step env ev tr of
        (tr1, Finished rc) \<Rightarrow> (tr1, Some rc)
      | (tr1, out) \<Rightarrow> trace_loop env evs tr1)"

text \<open>The start: the first stop of the child, its entry in the table and its working directory.\<close>

record start =
  sa_child :: "int option"
  sa_first_wait :: "wait_status option"
  sa_guest_cwd :: "string option"
  sa_resume_ok :: bool

definition trace_start :: "start \<Rightarrow> path_cache \<Rightarrow> hfs \<Rightarrow> counters \<Rightarrow> int + tracer" where
  "trace_start sa pc fs ct =
     (case sa_child sa of
        None \<Rightarrow> Inl 126
      | Some child \<Rightarrow>
          (case sa_first_wait sa of
             Some (Stopped sig event) \<Rightarrow>
               (case add_tracee tracees_init child of
                  (None, ts) \<Rightarrow> Inl 126
                | (Some i, ts) \<Rightarrow>
                    let ts1 = (case sa_guest_cwd sa of
                                 None \<Rightarrow> ts
                               | Some cwd \<Rightarrow>
                                   if cwd = [] then ts
                                   else ts[i := (ts ! i)\<lparr>ts_guest_cwd := normalize_guest_path ''/'' cwd PATH_MAX\<rparr>])
                    in if sa_resume_ok sa
                       then Inr \<lparr>tr_tracees = ts1, tr_cache = pc, tr_fs = fs, tr_counters = ct,
                                 tr_root = child, tr_root_done = False, tr_root_rc = 126\<rparr>
                       else Inl 126)
           | _ \<Rightarrow> Inl 126))"

end
