(* ===== verification/Trace_Frame.thy ===== *)
theory Trace_Frame
  imports Trace_Loop
begin

text \<open>
  Frame lemmas of the path rewriting and the emulations: whatever a stop does, the path caches keep
  their switches (only the begin and the end of a mutation change them) and their invariant, and
  only \<open>rewrite_chdir_arg\<close> and \<open>rewrite_execve_arg\<close> touch the state of the process.
\<close>

named_theorems frame

definition cache_frame :: "path_cache \<Rightarrow> path_cache \<Rightarrow> bool" where
  "cache_frame pc pc' \<longleftrightarrow>
     pc_enabled pc' = pc_enabled pc \<and> pc_store_disabled pc' = pc_store_disabled pc \<and>
     pc_mutation_inflight pc' = pc_mutation_inflight pc \<and> (path_cache_inv pc \<longrightarrow> path_cache_inv pc')"

lemma cache_frame_refl [frame, simp]: "cache_frame pc pc"
  by (simp add: cache_frame_def)

lemma cache_frame_trans: "cache_frame a b \<Longrightarrow> cache_frame b c \<Longrightarrow> cache_frame a c"
  by (simp add: cache_frame_def)

lemma validation_put_frame [frame]: "cache_frame pc (path_validation_cache_put pc h f rc)"
  by (simp add: cache_frame_def validation_put_inv) (simp add: path_validation_cache_put_def)

lemma realpath_put_frame [frame]: "cache_frame pc (realpath_cache_put pc p r)"
  by (simp add: cache_frame_def realpath_put_inv) (simp add: realpath_cache_put_def)

lemma cached_realpath_frame [frame]: "cache_frame pc (snd (cached_realpath rp pc p))"
  by (simp add: cached_realpath_def realpath_put_frame split: option.split sum.split)

lemma put_after: "cache_frame pc pc1 \<Longrightarrow> cache_frame pc (path_validation_cache_put pc1 h f rc)"
  by (rule cache_frame_trans [OF _ validation_put_frame])

lemma parent_loop_frame [frame]: "cache_frame pc (snd (validate_parent_loop rp maps rootfs h f pc probe))"
proof (induction rp maps rootfs h f pc probe rule: validate_parent_loop.induct)
  case (1 rp maps rootfs host follow pc probe)
  obtain res pc1 where cr: "cached_realpath rp pc probe = (res, pc1)" by fastforce
  have f1: "cache_frame pc pc1" using cached_realpath_frame [of pc rp probe] by (simp add: cr)
  show ?case
  proof (cases res)
    case (Inr r)
    then show ?thesis by (subst validate_parent_loop.simps) (simp add: cr Let_def put_after [OF f1])
  next
    case (Inl e)
    note e = this
    show ?thesis
    proof (cases "\<not> missing e \<or> probe = ''/'' \<or> probe = ''.''")
      case True
      then show ?thesis by (subst validate_parent_loop.simps) (auto simp: cr e put_after [OF f1])
    next
      case False
      show ?thesis
      proof (cases "path_parent PATH_MAX probe")
        case (Inl e')
        then show ?thesis using False by (subst validate_parent_loop.simps) (simp add: cr e put_after [OF f1])
      next
        case (Inr q)
        have "validate_parent_loop rp maps rootfs host follow pc probe = validate_parent_loop rp maps rootfs host follow pc1 q"
          using False by (subst validate_parent_loop.simps) (simp add: cr e Inr)
        moreover have "cache_frame pc1 (snd (validate_parent_loop rp maps rootfs host follow pc1 q))"
          by (rule "1.IH" [OF cr [symmetric] e]) (use False Inr in simp_all)
        ultimately show ?thesis using cache_frame_trans [OF f1] by simp
      qed
    qed
  qed
qed

lemma validate_frame [frame]: "cache_frame pc (snd (validate_host_path_under_allowed rp tty maps rootfs pc h f))"
proof -
  obtain full pc1 where fp: "(if f then cached_realpath rp pc h else (Inl ENOENT, pc)) = (full, pc1)" by fastforce
  have "cache_frame pc (snd (if f then cached_realpath rp pc h else (Inl ENOENT, pc)))"
    by (simp add: frame)
  then have f1: "cache_frame pc pc1" unfolding fp by simp
  show ?thesis
    unfolding validate_host_path_under_allowed_def Let_def fp prod.case
    using put_after [OF f1] cache_frame_trans [OF f1 parent_loop_frame] f1
    by (simp add: frame split: sum.split option.split)
qed

lemma validate_relative_frame [frame]: "cache_frame pc (snd (validate_relative_tracee_path cfg ho pc d p f))"
  by (simp add: validate_relative_tracee_path_def Let_def frame split: sum.split)

section \<open>Machines\<close>

abbreviation mc_frame :: "machine \<Rightarrow> machine \<Rightarrow> bool" where
  "mc_frame mc mc' \<equiv> cache_frame (mc_cache mc) (mc_cache mc')"

lemma complete_frame [frame]: "mc_cache (snd (snd (complete_emulated_syscall ho r v mc))) = mc_cache mc"
  by (simp add: complete_emulated_syscall_def Let_def set_syscall_number_def set_regs_def)

lemma set_regs_frame [frame]: "mc_cache (snd (set_regs ho r mc)) = mc_cache mc"
  by (simp add: set_regs_def)

lemma deny_frame [frame]: "mc_cache (snd (snd (deny_path_syscall ho e r mc))) = mc_cache mc"
  by (simp add: deny_path_syscall_def case_prod_unfold Let_def frame)

lemma rewrite_scratch_frame [frame]: "mc_frame mc (snd (snd (rewrite_path_arg_scratch cfg ho a off r mc)))"
  by (simp add: rewrite_path_arg_scratch_def Let_def case_prod_unfold frame split: option.split sum.split)

lemma rewrite_path_frame [frame]: "mc_frame mc (snd (snd (rewrite_path_arg cfg ho a r mc)))"
  by (simp add: rewrite_path_arg_def frame)

lemma rewrite_at_frame [frame]: "mc_frame mc (snd (snd (rewrite_at_path_arg cfg ho c d p off r mc)))"
  by (simp add: rewrite_at_path_arg_def Let_def case_prod_unfold frame split: option.split sum.split)

lemma rewrite_at_args_frame [frame]: "mc_frame mc (snd (snd (rewrite_at_path_args cfg ho c d p d' p' r mc)))"
proof -
  obtain a r1 mc1 where one: "rewrite_at_path_arg cfg ho c d p 16384 r mc = (a, r1, mc1)" by (rule prod_cases3)
  obtain b r2 mc2 where two: "rewrite_at_path_arg cfg ho c d' p' 8192 r1 mc1 = (b, r2, mc2)" by (rule prod_cases3)
  have f1: "mc_frame mc mc1" using rewrite_at_frame [of mc cfg ho c d p 16384 r] by (simp add: one)
  have f2: "mc_frame mc1 mc2" using rewrite_at_frame [of mc1 cfg ho c d' p' 8192 r1] by (simp add: two)
  show ?thesis
    using f1 cache_frame_trans [OF f1 f2]
    by (simp add: rewrite_at_path_args_def one two split: rewrite_result.split)
qed

text \<open>The branches of a large function are reached by introduction rules, without unfolding its
  \<open>let\<close> bindings into each other; the second predicate is for results without a process state.\<close>

definition keeps_cache :: "path_cache \<Rightarrow> 'a \<times> regs \<times> machine \<times> 'b \<Rightarrow> bool" where
  "keeps_cache pc x \<longleftrightarrow> mc_cache (fst (snd (snd x))) = pc"

lemma keeps_cache_intros:
  "(\<And>x. x = a \<Longrightarrow> keeps_cache pc (f x)) \<Longrightarrow> keeps_cache pc (Let a f)"
  "keeps_cache pc n \<Longrightarrow> (\<And>x. keeps_cache pc (s x)) \<Longrightarrow> keeps_cache pc (case_option n s o')"
  "(\<And>e. keeps_cache pc (f1 e)) \<Longrightarrow> (\<And>x. keeps_cache pc (f2 x)) \<Longrightarrow> keeps_cache pc (case_sum f1 f2 y')"
  "(\<And>u v. keeps_cache pc (g u v)) \<Longrightarrow> keeps_cache pc (case_prod g p)"
  "(c \<Longrightarrow> keeps_cache pc x) \<Longrightarrow> (\<not> c \<Longrightarrow> keeps_cache pc y) \<Longrightarrow> keeps_cache pc (if c then x else y)"
  "mc_cache m = pc \<Longrightarrow> keeps_cache pc (w, r, m, st)"
  by (auto simp: keeps_cache_def split: option.split prod.split sum.split)

definition keeps_cache3 :: "path_cache \<Rightarrow> 'a \<times> regs \<times> machine \<Rightarrow> bool" where
  "keeps_cache3 pc x \<longleftrightarrow> mc_cache (snd (snd x)) = pc"

lemma keeps_cache3_intros:
  "(\<And>x. x = a \<Longrightarrow> keeps_cache3 pc (f x)) \<Longrightarrow> keeps_cache3 pc (Let a f)"
  "keeps_cache3 pc n \<Longrightarrow> (\<And>x. keeps_cache3 pc (s x)) \<Longrightarrow> keeps_cache3 pc (case_option n s o')"
  "(\<And>e. keeps_cache3 pc (f1 e)) \<Longrightarrow> (\<And>x. keeps_cache3 pc (f2 x)) \<Longrightarrow> keeps_cache3 pc (case_sum f1 f2 y')"
  "(\<And>u v. keeps_cache3 pc (g u v)) \<Longrightarrow> keeps_cache3 pc (case_prod g p)"
  "(c \<Longrightarrow> keeps_cache3 pc x) \<Longrightarrow> (\<not> c \<Longrightarrow> keeps_cache3 pc y) \<Longrightarrow> keeps_cache3 pc (if c then x else y)"
  "mc_cache m = pc \<Longrightarrow> keeps_cache3 pc (w, r, m)"
  by (auto simp: keeps_cache3_def split: option.split prod.split sum.split)

lemma mem_cache: "mc_cache (mc\<lparr>mc_mem := m\<rparr>) = mc_cache mc"
  by simp

lemma rewrite_sockaddr_frame [frame]: "mc_cache (snd (snd (rewrite_unix_sockaddr_arg cfg ho r mc))) = mc_cache mc"
proof -
  have "keeps_cache3 (mc_cache mc) (rewrite_unix_sockaddr_arg cfg ho r mc)"
    unfolding rewrite_unix_sockaddr_arg_def by (intro keeps_cache3_intros) (simp_all only: mem_cache)
  then show ?thesis by (simp add: keeps_cache3_def)
qed

lemma rewrite_chdir_frame [frame]: "mc_frame mc (fst (snd (snd (rewrite_chdir_arg cfg ho st r mc))))"
  by (simp add: rewrite_chdir_arg_def Let_def case_prod_unfold frame)

lemma rewrite_execve_frame [frame]: "mc_cache (fst (snd (snd (rewrite_execve_arg cfg ee ho st r mc)))) = mc_cache mc"
proof -
  have "keeps_cache (mc_cache mc) (rewrite_execve_arg cfg ee ho st r mc)"
    unfolding rewrite_execve_arg_def by (intro keeps_cache_intros) simp_all
  then show ?thesis by (simp add: keeps_cache_def)
qed

lemma rewrite_paths_frame [frame]: "mc_frame mc (fst (snd (snd (rewrite_syscall_paths env ho nr st r mc))))"
  by (simp add: rewrite_syscall_paths_def Let_def case_prod_unfold frame split: path_action.split)

lemma put_result_frame [frame]: "mc_cache (snd (put_result ho buf s mc)) = mc_cache mc"
  by (simp add: put_result_def Let_def case_prod_unfold)

lemma getcwd_frame [frame]: "mc_cache (snd (emulate_getcwd cfg ho st r mc)) = mc_cache mc"
  by (simp add: emulate_getcwd_def Let_def case_prod_unfold frame split: option.split sum.split)

lemma readlinkat_frame [frame]: "mc_cache (snd (emulate_proc_self_exe_readlinkat ho st r mc)) = mc_cache mc"
  by (simp add: emulate_proc_self_exe_readlinkat_def Let_def case_prod_unfold frame split: option.split)

lemma copy_between_frame [frame]: "mc_cache (snd (copy_between ho a b f mc)) = mc_cache mc"
  by (simp add: copy_between_def case_prod_unfold Let_def)

lemma linkat_frame [frame]: "mc_cache (snd (emulate_linkat_copy cfg ho r mc)) = mc_cache mc"
  by (simp add: emulate_linkat_copy_def Let_def case_prod_unfold frame split: sum.split)

lemma symlinkat_frame [frame]: "mc_cache (snd (emulate_runtime_tmp_symlinkat cfg ho r mc)) = mc_cache mc"
  by (simp add: emulate_runtime_tmp_symlinkat_def Let_def case_prod_unfold frame split: sum.split option.split)

lemma emulated_answer_frame [frame]: "mc_cache (snd (emulated_answer env ho st r mc)) = mc_cache mc"
  by (simp add: emulated_answer_def Let_def frame)

end
