(* ===== verification/Trace_Invariant.thy ===== *)
theory Trace_Invariant
  imports Trace_Frame
begin

text \<open>
  Invariants of the trace loop. Every step accounts for the path mutations it begins and ends:
  the number of processes between the entry and the exit of a mutating call never exceeds the
  counter that keeps the path caches closed.
\<close>

section \<open>Accounting of one process\<close>

definition pend :: "tracee \<Rightarrow> nat" where
  "pend st = (if ts_pending_invalidation st then 1 else 0)"

definition pending_count :: "tracees \<Rightarrow> nat" where
  "pending_count ts = sum_list (map pend ts)"

definition accounts :: "tracee \<Rightarrow> path_cache \<Rightarrow> tracee \<Rightarrow> path_cache \<Rightarrow> bool" where
  "accounts st pc st' pc' \<longleftrightarrow>
     (\<forall>n. n + pend st \<le> pc_mutation_inflight pc \<longrightarrow> n + pend st' \<le> pc_mutation_inflight pc') \<and>
     (pc_store_disabled pc = pc_mutation_inflight pc \<longrightarrow> pc_store_disabled pc' = pc_mutation_inflight pc') \<and>
     (path_cache_inv pc \<longrightarrow> path_cache_inv pc') \<and>
     ts_active st' = ts_active st \<and> ts_pid st' = ts_pid st"

lemma accounts_refl [simp, intro]: "accounts st pc st pc"
  by (simp add: accounts_def)

lemma accounts_trans [trans]: "accounts a p b q \<Longrightarrow> accounts b q c r \<Longrightarrow> accounts a p c r"
  by (simp add: accounts_def)

definition same_slot :: "tracee \<Rightarrow> tracee \<Rightarrow> bool" where
  "same_slot st st' \<longleftrightarrow>
     ts_active st' = ts_active st \<and> ts_pid st' = ts_pid st \<and>
     ts_pending_invalidation st' = ts_pending_invalidation st \<and> ts_in_syscall st' = ts_in_syscall st \<and>
     ts_last_nr st' = ts_last_nr st"

lemma same_slot_refl [simp, intro]: "same_slot st st"
  by (simp add: same_slot_def)

lemma same_slot_trans [trans]: "same_slot a b \<Longrightarrow> same_slot b c \<Longrightarrow> same_slot a c"
  by (simp add: same_slot_def)

lemma accounts_frame: "same_slot st st' \<Longrightarrow> cache_frame pc pc' \<Longrightarrow> accounts st pc st' pc'"
  by (simp add: accounts_def same_slot_def cache_frame_def pend_def)

section \<open>The entry\<close>

lemma prepare_same_slot: "same_slot st (fst (snd (prepare_emulated_result m st nr)))"
  by (simp add: prepare_emulated_result_def Let_def same_slot_def)

lemma answer_same_slot: "answer_call ho v st r mc = (ok, st1, r1, mc1) \<Longrightarrow> same_slot st st1 \<and> mc_frame mc mc1"
  using complete_frame [of ho r v mc]
  by (auto simp: answer_call_def Let_def case_prod_unfold same_slot_def split: if_splits)

lemma guard_same_slot:
  "maybe_guard_memory_syscall cfg mi ho st r mc ms = (g, st1, r1, mc1, ms1) \<Longrightarrow> same_slot st st1 \<and> mc_frame mc mc1"
  using complete_frame [of ho r _ mc]
  by (auto simp: maybe_guard_memory_syscall_def Let_def case_prod_unfold same_slot_def split: if_splits option.splits)

lemma mmap_same_slot:
  "maybe_prepare_managed_mmap pg ho st r mc ad = (ok, st1, r1, mc1, ad1) \<Longrightarrow> same_slot st st1 \<and> mc_frame mc mc1"
  using set_regs_frame [of ho "set_rg 2 0 r" mc]
  by (auto simp: maybe_prepare_managed_mmap_def Let_def case_prod_unfold same_slot_def split: if_splits)

lemma chdir_same_slot: "same_slot st (snd (snd (snd (rewrite_chdir_arg cfg ho st r mc))))"
  by (simp add: rewrite_chdir_arg_def Let_def case_prod_unfold same_slot_def split: option.split)

definition keeps_slot :: "tracee \<Rightarrow> 'a \<times> 'b \<times> 'c \<times> tracee \<Rightarrow> bool" where
  "keeps_slot st x \<longleftrightarrow> same_slot st (snd (snd (snd x)))"

lemma keeps_slot_intros:
  "(\<And>x. x = a \<Longrightarrow> keeps_slot st (f x)) \<Longrightarrow> keeps_slot st (Let a f)"
  "keeps_slot st n \<Longrightarrow> (\<And>x. keeps_slot st (s x)) \<Longrightarrow> keeps_slot st (case_option n s o')"
  "(\<And>u v. keeps_slot st (g u v)) \<Longrightarrow> keeps_slot st (case_prod g p)"
  "(c \<Longrightarrow> keeps_slot st x) \<Longrightarrow> (\<not> c \<Longrightarrow> keeps_slot st y) \<Longrightarrow> keeps_slot st (if c then x else y)"
  "same_slot st st' \<Longrightarrow> keeps_slot st (w, r, m, st')"
  by (auto simp: keeps_slot_def split: option.split prod.split)

lemma execve_same_slot: "same_slot st (snd (snd (snd (rewrite_execve_arg cfg ee ho st r mc))))"
proof -
  have "keeps_slot st (rewrite_execve_arg cfg ee ho st r mc)"
    unfolding rewrite_execve_arg_def by (intro keeps_slot_intros) (simp_all add: same_slot_def)
  then show ?thesis by (simp add: keeps_slot_def)
qed

lemma rewrite_paths_same_slot:
  "rewrite_syscall_paths env ho nr st r mc = (rw, r1, mc1, st1) \<Longrightarrow> same_slot st st1 \<and> mc_frame mc mc1"
proof -
  assume rw: "rewrite_syscall_paths env ho nr st r mc = (rw, r1, mc1, st1)"
  have "same_slot st (snd (snd (snd (rewrite_syscall_paths env ho nr st r mc))))"
    by (simp add: rewrite_syscall_paths_def Let_def case_prod_unfold chdir_same_slot execve_same_slot split: path_action.split)
  moreover have "mc_frame mc (fst (snd (snd (rewrite_syscall_paths env ho nr st r mc))))" by (rule rewrite_paths_frame)
  ultimately show ?thesis by (simp add: rw)
qed

lemma entry_rewrite_same_slot:
  assumes "entry_rewrite env ho st r mc = (c, st', r', mc')"
  shows "same_slot st st' \<and> mc_frame mc mc'"
proof -
  let ?nr = "ts_last_nr st"
  obtain rw r1 mc1 st1 where rw: "rewrite_syscall_paths env ho ?nr st r mc = (rw, r1, mc1, st1)" by (rule prod_cases4)
  note f = rewrite_paths_same_slot [OF rw]
  obtain res st2 m2 where pr: "prepare_emulated_result (mc_mem mc1) st1 ?nr = (res, st2, m2)" by (rule prod_cases3)
  have s2: "same_slot st1 st2" using prepare_same_slot [of st1 "mc_mem mc1" ?nr] by (simp add: pr)
  show ?thesis
    using assms f s2
    by (auto simp: entry_rewrite_def rw pr Let_def set_regs_def split: option.splits if_splits
        dest!: answer_same_slot intro: same_slot_trans cache_frame_trans)
qed

lemma entry_emulate_same_slot:
  assumes "entry_emulate env ho mi st r mc ct = (f, c, st', r', mc', ct')"
  shows "same_slot st st' \<and> mc_frame mc mc'"
proof -
  obtain g st1 r1 mc1 ms where g: "(if ts_managed_pending_len st = 0
      then maybe_guard_memory_syscall (te_memory env) mi ho st r mc (ct_memory ct)
      else (False, st, r, mc, ct_memory ct)) = (g, st1, r1, mc1, ms)" by (rule prod_cases5)
  have f1: "same_slot st st1 \<and> mc_frame mc mc1"
    using g guard_same_slot by (auto split: if_splits)
  obtain res mc2 where a: "emulated_answer env ho st1 r1 mc1 = (res, mc2)" by fastforce
  have f2: "mc_cache mc2 = mc_cache mc1" using emulated_answer_frame [of env ho st1 r1 mc1] by (simp add: a)
  show ?thesis
    using assms f1 f2
    by (auto simp: entry_emulate_def g a Let_def split: option.splits prod.splits if_splits
        dest!: answer_same_slot intro: same_slot_trans cache_frame_trans)
qed

lemma begin_accounts:
  "accounts st pc (st\<lparr>ts_pending_invalidation := True\<rparr>) (begin_path_cache_mutation pc)"
  using begin_inv [of pc]
  by (auto simp: accounts_def pend_def begin_path_cache_mutation_def invalidate_path_caches_def Let_def)

lemma finish_accounts:
  "ts_pending_invalidation st \<Longrightarrow>
   accounts st pc (st\<lparr>ts_pending_invalidation := False\<rparr>) (finish_path_cache_mutation pc)"
  using finish_inv [of pc] by (auto simp: accounts_def pend_def finish_path_cache_mutation_def)

lemma entry_begin_accounts:
  assumes "entry_begin env ho st r mc ct = (st', r', mc', ct')"
  shows "accounts st (mc_cache mc) st' (mc_cache mc') \<and> ts_in_syscall st' = ts_in_syscall st \<and>
    ts_last_nr st' = sint (rg r 8) \<and>
    (path_syscall_invalidates_cache (ts_last_nr st') \<longrightarrow> ts_pending_invalidation st')"
proof -
  let ?nr = "sint (rg r 8)"
  let ?st1 = "st\<lparr>ts_last_nr := ?nr, ts_last_args := (\<lambda>i. if i < 6 then rg r i else ts_last_args st i)\<rparr>"
  show ?thesis
  proof (cases "path_syscall_invalidates_cache ?nr")
    case True
    then have n: "?nr \<noteq> 222" by (auto simp: path_syscall_invalidates_cache_def)
    have "entry_begin env ho st r mc ct = (?st1\<lparr>ts_pending_invalidation := True\<rparr>, r,
        mc\<lparr>mc_cache := begin_path_cache_mutation (mc_cache mc)\<rparr>, record_syscall_stat env ?nr ct)"
      unfolding entry_begin_def Let_def by (simp only: True n if_True if_False)
    from this [unfolded assms prod.inject] have "st' = ?st1\<lparr>ts_pending_invalidation := True\<rparr>"
      and "mc_cache mc' = begin_path_cache_mutation (mc_cache mc)" by auto
    moreover have "accounts st (mc_cache mc) ?st1 (mc_cache mc)" by (simp add: accounts_def pend_def)
    ultimately show ?thesis
      using accounts_trans [OF _ begin_accounts [of ?st1 "mc_cache mc"]] by simp
  next
    case False
    obtain ok st3 r1 mc1 ad where p:
      "maybe_prepare_managed_mmap (te_pager env) ho ?st1 r mc (ct_admission (record_syscall_stat env ?nr ct)) = (ok, st3, r1, mc1, ad)"
      by (rule prod_cases5)
    from mmap_same_slot [OF p] have s: "same_slot ?st1 st3" "mc_frame mc mc1" by simp_all
    have "entry_begin env ho st r mc ct =
        (if ?nr = 222 then (st3, r1, mc1, (record_syscall_stat env ?nr ct)\<lparr>ct_admission := ad\<rparr>)
         else (?st1, r, mc, record_syscall_stat env ?nr ct))"
      unfolding entry_begin_def Let_def by (simp only: False if_False p prod.case)
    from this [unfolded assms] have "(st' = st3 \<and> mc' = mc1) \<or> (st' = ?st1 \<and> mc' = mc)"
      by (simp only: prod.inject split: if_splits) blast+
    moreover have a1: "accounts st (mc_cache mc) ?st1 (mc_cache mc)" by (simp add: accounts_def pend_def)
    moreover have "accounts st (mc_cache mc) st3 (mc_cache mc1)"
      by (rule accounts_trans [OF a1 accounts_frame [OF s]])
    moreover have "ts_last_nr st3 = ?nr" "ts_in_syscall st3 = ts_in_syscall st" using s(1) by (simp_all add: same_slot_def)
    ultimately show ?thesis using False by fastforce
  qed
qed

lemma entry_accounts:
  assumes "handle_syscall_entry env ho mi st r mc ct = (c, st', r', mc', ct')"
  shows "accounts st (mc_cache mc) st' (mc_cache mc') \<and> ts_in_syscall st' = ts_in_syscall st \<and>
    ts_last_nr st' = sint (rg r 8)"
proof -
  obtain st1 r1 mc1 ct1 where b: "entry_begin env ho st r mc ct = (st1, r1, mc1, ct1)" by (rule prod_cases4)
  obtain f c0 st2 r2 mc2 ct2 where e: "entry_emulate env ho mi st1 r1 mc1 ct1 = (f, c0, st2, r2, mc2, ct2)" by (rule prod_cases6)
  obtain c3 st3 r3 mc3 where w: "(if f then (c0, st2, r2, mc2) else entry_rewrite env ho st2 r2 mc2) = (c3, st3, r3, mc3)"
    by (rule prod_cases4)
  note b' = entry_begin_accounts [OF b] and e' = entry_emulate_same_slot [OF e]
  have w': "same_slot st2 st3 \<and> mc_frame mc2 mc3" using w entry_rewrite_same_slot by (auto split: if_splits)
  have s: "same_slot st1 st3" using e' w' same_slot_trans by blast
  have m: "mc_frame mc1 mc3" using e' w' cache_frame_trans by blast
  have a: "accounts st (mc_cache mc) st3 (mc_cache mc3)"
    using accounts_trans [OF _ accounts_frame [OF s m]] b' by blast
  have p: "path_syscall_invalidates_cache (ts_last_nr st1) \<Longrightarrow> ts_pending_invalidation st3"
    using b' s by (simp add: same_slot_def)
  have "st' = (if path_syscall_invalidates_cache (ts_last_nr st1) \<and> c3 then st3\<lparr>ts_pending_invalidation := False\<rparr> else st3)"
    and "mc_cache mc' = (if path_syscall_invalidates_cache (ts_last_nr st1) \<and> c3
           then finish_path_cache_mutation (mc_cache mc3) else mc_cache mc3)"
    using assms by (auto simp: handle_syscall_entry_def b e w split: if_splits)
  then show ?thesis
    using a accounts_trans [OF a finish_accounts [OF p]] b' s by (auto simp: same_slot_def)
qed

end
