(* ===== verification/Trace_Safety.thy ===== *)
theory Trace_Safety
  imports Trace_Invariant
begin

text \<open>
  The accounting of path mutations over the other stops, over one event of the loop and over
  whole histories.
\<close>

section \<open>Exits and signals\<close>

lemma finish_pending_accounts:
  "finish_pending st mc = (st', mc') \<Longrightarrow> accounts st (mc_cache mc) st' (mc_cache mc') \<and> ts_in_syscall st' = ts_in_syscall st"
  using finish_accounts [of st "mc_cache mc"] by (auto simp: finish_pending_def split: if_splits)

lemma record_exit_same_slot: "same_slot st (fst (record_memory_syscall_exit cfg st v ms))"
  by (simp add: record_memory_syscall_exit_def Let_def same_slot_def)

lemma finish_mmap_same_slot:
  "maybe_finish_managed_mmap pg me ho st r mc ad ms v = (st', r', mc', ad', ms') \<Longrightarrow> same_slot st st' \<and> mc_cache mc' = mc_cache mc"
  by (auto simp: maybe_finish_managed_mmap_def Let_def case_prod_unfold same_slot_def frame split: if_splits option.splits)

lemma syscall_exit_same_slot:
  assumes "syscall_exit env sp st mc ct = (st', mc', ct')"
  shows "same_slot st st' \<and> mc_cache mc' = mc_cache mc"
proof -
  obtain st1 ms where rec: "record_memory_syscall_exit (te_memory env) st (rg (sp_regs sp) 0) (ct_memory ct) = (st1, ms)" by fastforce
  have s1: "same_slot st st1" using record_exit_same_slot [of st "te_memory env" "rg (sp_regs sp) 0" "ct_memory ct"] by (simp add: rec)
  let ?ct = "ct\<lparr>ct_memory := ms\<rparr>"
  obtain st2 r1 mc1 ad ms1 where fin: "maybe_finish_managed_mmap (te_pager env) (sp_mmap sp) (sp_host sp) st1 (sp_regs sp) mc
      (ct_admission ?ct) (ct_memory ?ct) (rg (sp_regs sp) 0) = (st2, r1, mc1, ad, ms1)" by (rule prod_cases5)
  note s2 = finish_mmap_same_slot [OF fin]
  have "st' \<in> {st\<lparr>ts_last_emulated_nr := ts_emulated_nr st, ts_emulated_nr := - 1\<rparr>,
      st\<lparr>ts_guest_cwd := take (PATH_MAX - 1) (ts_pending_guest_cwd st), ts_pending_guest_cwd := []\<rparr>, st2, st1, st} \<and>
      mc' \<in> {snd (set_regs (sp_host sp) (set_rg 0 (ts_emulated_result st) (sp_regs sp)) mc), mc1, mc}"
    using assms unfolding syscall_exit_def Let_def rec fin prod.case by (simp split: if_splits)
  moreover have "same_slot st st2" using s1 s2 same_slot_trans by blast
  ultimately show ?thesis
    using s1 s2 by (elim conjE insertE emptyE) (simp_all add: frame, simp_all add: same_slot_def)
qed

lemma same_slot_accounts: "same_slot st st' \<Longrightarrow> accounts st pc st' pc"
  by (rule accounts_frame) simp_all

lemma accounts_in_syscall: "accounts st pc (st'\<lparr>ts_in_syscall := b\<rparr>) pc' \<longleftrightarrow> accounts st pc st' pc'"
  by (simp add: accounts_def pend_def)

lemma syscall_stop_accounts:
  assumes "syscall_stop env sp st mc ct = (st', mc', ct')"
  shows "accounts st (mc_cache mc) st' (mc_cache mc')"
proof (cases "sp_getregs_ok sp")
  case False
  then show ?thesis using assms by (simp add: syscall_stop_def)
next
  case True
  obtain completed st1 mc1 ct1 where one: "entry_or_exit env sp st mc ct = (completed, st1, mc1, ct1)"
    by (rule prod_cases4)
  have a1: "accounts st (mc_cache mc) st1 (mc_cache mc1)"
    using one entry_accounts [of env "sp_host sp" "sp_meminfo sp" st "sp_regs sp" mc ct]
      syscall_exit_same_slot [of env sp st mc ct] same_slot_accounts
    by (auto simp: entry_or_exit_def split: if_splits prod.splits)
  obtain st2 mc2 where two: "finish_pending st1 mc1 = (st2, mc2)" by fastforce
  have "accounts st (mc_cache mc) st2 (mc_cache mc2)"
    using accounts_trans [OF a1] finish_pending_accounts [OF two] by blast
  moreover have "st' = st2\<lparr>ts_in_syscall := (if completed then True else \<not> ts_in_syscall st2)\<rparr>" "mc' = mc2"
    using assms True by (simp_all add: syscall_stop_def one two Let_def)
  ultimately show ?thesis by (simp add: accounts_in_syscall)
qed

lemma seccomp_stop_accounts:
  assumes "seccomp_stop env sp st mc ct = (st', mc', ct', how)"
  shows "accounts st (mc_cache mc) st' (mc_cache mc')"
proof -
  obtain st1 mc1 ct1 where one: "seccomp_entry env sp st mc ct = (st1, mc1, ct1)"
    by (rule prod_cases3)
  have a1: "accounts st (mc_cache mc) st1 (mc_cache mc1)"
    using one entry_accounts [of env "sp_host sp" "sp_meminfo sp" st "sp_regs sp" mc ct]
    by (auto simp: seccomp_entry_def accounts_in_syscall split: if_splits prod.splits)
  have "(st' = st1 \<or> st' = st1\<lparr>ts_in_syscall := True\<rparr>) \<and> mc' = mc1"
    using assms by (auto simp: seccomp_stop_def one split: if_splits)
  with a1 show ?thesis by (auto simp: accounts_in_syscall)
qed

lemma sigsys_value_frame [frame]: "mc_cache (snd (sigsys_value env ho st r mc nr)) = mc_cache mc"
  by (simp add: sigsys_value_def Let_def frame)

lemma sigsys_answer_same:
  assumes "sigsys_answer env ho st r mc nr = (res, mc1)"
  shows "mc_cache mc1 = mc_cache mc \<and> (\<forall>v st1. res = Some (v, st1) \<longrightarrow>
     ts_active st1 = ts_active st \<and> ts_pid st1 = ts_pid st \<and> pend st1 = pend st)"
proof -
  let ?st1 = "st\<lparr>ts_last_nr := nr, ts_last_args := (\<lambda>i. if i < 6 then rg r i else ts_last_args st i)\<rparr>"
  obtain v st2 m where p: "prepare_emulated_result (mc_mem mc) ?st1 nr = (v, st2, m)" by (rule prod_cases3)
  have s: "same_slot ?st1 st2" using prepare_same_slot [of ?st1 "mc_mem mc" nr] by (simp add: p)
  obtain w mc2 where w: "sigsys_value env ho st r mc nr = (w, mc2)" by fastforce
  have "mc_cache mc2 = mc_cache mc" using sigsys_value_frame [of env ho st r mc nr] by (simp add: w)
  with assms s show ?thesis
    by (auto simp: sigsys_answer_def Let_def p w same_slot_def pend_def split: if_splits)
qed

lemma sigsys_emulate_same:
  assumes "sigsys_emulate env sp st mc = (b, st', r', mc')"
  shows "mc_cache mc' = mc_cache mc \<and> ts_active st' = ts_active st \<and> ts_pid st' = ts_pid st \<and> pend st' = pend st"
proof -
  let ?nr = "sint (rg (sp_regs sp) 8)"
  obtain res mc1 where a: "sigsys_answer env (sp_host sp) st (sp_regs sp) mc ?nr = (res, mc1)" by fastforce
  note f = sigsys_answer_same [OF a]
  show ?thesis
  proof (cases res)
    case None
    then show ?thesis using assms f by (simp add: sigsys_emulate_def Let_def a)
  next
    case (Some p)
    obtain v st1 where p: "p = (v, st1)" by fastforce
    obtain ok r1 mc2 where c: "complete_emulated_syscall (sp_host sp) (sp_regs sp) v mc1 = (ok, r1, mc2)" by (rule prod_cases3)
    have "mc_cache mc2 = mc_cache mc1" using complete_frame [of "sp_host sp" "sp_regs sp" v mc1] by (simp add: c)
    then show ?thesis
      using assms f Some p by (auto simp: sigsys_emulate_def Let_def a c pend_def split: if_splits)
  qed
qed

lemma sigsys_stop_accounts:
  assumes "sigsys_stop env sp st mc = (st', mc', how)"
  shows "accounts st (mc_cache mc) st' (mc_cache mc')"
proof (cases "sp_getregs_ok sp")
  case False
  then show ?thesis using assms by (simp add: sigsys_stop_def)
next
  case True
  let ?cc = "sint (rg (sp_regs sp) 8) = - 1 \<and> syscall_completed_in_userland (ts_last_nr st)"
  let ?known = "0 \<le> ts_emulated_nr st \<or>
     (0 \<le> ts_last_emulated_nr st \<and> syscall_completed_in_userland (ts_last_emulated_nr st)) \<or> ?cc"
  obtain b st1 r1 mc1 where one:
    "(if ?known then (True, st, sp_regs sp, mc) else sigsys_emulate env sp st mc) = (b, st1, r1, mc1)"
    by (rule prod_cases4)
  have f: "mc_cache mc1 = mc_cache mc \<and> ts_active st1 = ts_active st \<and> ts_pid st1 = ts_pid st \<and> pend st1 = pend st"
    using one sigsys_emulate_same by (auto split: if_splits)
  have "mc_cache mc' = mc_cache mc1 \<and> ts_active st' = ts_active st1 \<and> ts_pid st' = ts_pid st1 \<and> pend st' = pend st1"
    using assms True unfolding sigsys_stop_def Let_def one prod.case
    by (auto simp: frame pend_def split: if_splits prod.splits)
  with f show ?thesis by (simp add: accounts_def)
qed

lemma fault_stop_accounts:
  "fault_stop env sp st mc = (res, st', mc') \<Longrightarrow> accounts st (mc_cache mc) st' (mc_cache mc')"
  by (auto simp: fault_stop_def accounts_def pend_def split: option.splits if_splits prod.splits)

section \<open>The table\<close>

lemma pending_count_update:
  "i < length ts \<Longrightarrow> pending_count (ts[i := st]) + pend (ts ! i) = pending_count ts + pend st"
proof (induction ts arbitrary: i)
  case (Cons t ts)
  show ?case
  proof (cases i)
    case (Suc k)
    then have "pending_count (ts[k := st]) + pend (ts ! k) = pending_count ts + pend st"
      using Cons.IH [of k] Cons.prems by simp
    then show ?thesis using Suc by (simp add: pending_count_def)
  qed (simp add: pending_count_def)
qed simp

lemma pend_zero [simp]: "pend tracee_zero = 0" "pend (fresh_tracee p) = 0"
  by (simp_all add: pend_def tracee_zero_def fresh_tracee_def)

lemma zero_not_pending: "\<not> ts_pending_invalidation tracee_zero"
  by (simp add: tracee_zero_def)

definition table_ok :: "tracees \<Rightarrow> bool" where
  "table_ok ts \<longleftrightarrow> table_inv ts \<and> length ts = MAX_TRACEES"

lemma table_inv_update:
  "table_inv ts \<Longrightarrow> ts_active st \<longrightarrow> ts_active (ts ! i) \<and> ts_pid st = ts_pid (ts ! i) \<Longrightarrow> table_inv (ts[i := st])"
  by (cases "i < length ts") (auto simp: table_inv_def nth_list_update)

lemma table_ok_update:
  "table_ok ts \<Longrightarrow> ts_active st \<longrightarrow> ts_active (ts ! i) \<and> ts_pid st = ts_pid (ts ! i) \<Longrightarrow> table_ok (ts[i := st])"
  by (simp add: table_ok_def table_inv_update)

lemma table_ok_zero: "table_ok ts \<Longrightarrow> table_ok (ts[i := tracee_zero])"
  by (rule table_ok_update) simp_all

lemma add_tracee_ok:
  assumes "add_tracee ts pid = (Some i, ts')" "table_ok ts"
  shows "table_ok ts' \<and> i < length ts' \<and> ts_active (ts' ! i) \<and> ts_pid (ts' ! i) = pid \<and>
    pending_count ts' \<le> pending_count ts"
proof (cases "find_tracee ts pid")
  case (Some j)
  then have "i = j" "ts' = ts" using assms(1) by (simp_all add: add_tracee_def)
  then show ?thesis
    using Some assms(2) find_tracee_iff [of ts pid j] by (simp add: table_ok_def)
next
  case None
  then obtain j where j: "first_slot (\<lambda>t. \<not> ts_active t) ts = Some j" "i = j" "ts' = ts[j := fresh_tracee pid]"
    using assms(1) by (auto simp: add_tracee_def split: option.splits)
  note fs = first_slot_Some [OF j(1)]
  have "\<forall>k < length ts. \<not> (ts_active (ts ! k) \<and> ts_pid (ts ! k) = pid)"
    using None by (simp add: find_tracee_def first_slot_None all_set_conv_all_nth)
  then have "table_inv ts'"
    using assms(2) fs unfolding table_ok_def table_inv_def j by (auto simp: nth_list_update)
  then show ?thesis
    using j fs assms(2) pending_count_update [of j ts "fresh_tracee pid"] by (simp add: table_ok_def)
qed

lemma add_tracee_None: "add_tracee ts pid = (None, ts') \<Longrightarrow> ts' = ts"
  by (auto simp: add_tracee_def split: option.splits)

lemma remove_tracee_ok:
  assumes "remove_tracee ts pc pid = (ts', pc')" "table_ok ts" "pending_count ts \<le> pc_mutation_inflight pc"
    "pc_store_disabled pc = pc_mutation_inflight pc" "path_cache_inv pc"
  shows "table_ok ts' \<and> pending_count ts' \<le> pc_mutation_inflight pc' \<and>
    pc_store_disabled pc' = pc_mutation_inflight pc' \<and> path_cache_inv pc'"
proof (cases "find_tracee ts pid")
  case None
  then show ?thesis using assms by (simp add: remove_tracee_def)
next
  case (Some i)
  then have i: "i < length ts" using assms(2) find_tracee_iff [of ts pid i] by (simp add: table_ok_def)
  have "ts' = ts[i := tracee_zero]"
    and pc: "pc' = (if ts_pending_invalidation (ts ! i) then finish_path_cache_mutation pc else pc)"
    using assms(1) Some by (simp_all add: remove_tracee_def)
  then show ?thesis
    using assms(2-5) finish_inv [of pc] table_ok_zero pending_count_update [OF i, of tracee_zero]
    by (auto simp: finish_path_cache_mutation_def pend_def zero_not_pending split: if_splits)
qed

lemma prune_pointwise:
  "prune_dead_tracees alive owned gone ts = (n, ts') \<Longrightarrow>
   list_all2 (\<lambda>t t'. t' = t \<or> t' = tracee_zero) ts ts'"
proof (induction ts arbitrary: n ts')
  case (Cons t ts)
  obtain k us where p: "prune_dead_tracees alive owned gone ts = (k, us)" by fastforce
  from Cons.IH [OF p] Cons.prems show ?case by (auto simp: p split: if_splits)
qed simp

lemma prune_ok:
  assumes "prune_dead_tracees alive owned gone ts = (n, ts')" "table_ok ts"
  shows "table_ok ts' \<and> pending_count ts' \<le> pending_count ts"
proof
  note pw = prune_pointwise [OF assms(1)]
  then have len: "length ts' = length ts" by (simp add: list_all2_lengthD)
  have at: "ts' ! k = ts ! k \<or> ts' ! k = tracee_zero" if "k < length ts'" for k
    using list_all2_nthD2 [OF pw that] .
  then show "table_ok ts'"
    using assms(2) len unfolding table_ok_def table_inv_def by (metis zero_inactive)
  from pw show "pending_count ts' \<le> pending_count ts"
    by (induction rule: list_all2_induct) (auto simp: pending_count_def)
qed

lemma inherit_same: "ts_active (inherit p c) = ts_active c \<and> ts_pid (inherit p c) = ts_pid c \<and> pend (inherit p c) = pend c"
  by (simp add: inherit_def pend_def)

lemma fork_stop_ok:
  assumes "table_ok ts"
  shows "table_ok (fork_stop sp i ts) \<and> pending_count (fork_stop sp i ts) \<le> pending_count ts"
proof (cases "sp_event_pid sp")
  case (Some new)
  show ?thesis
  proof (cases "new \<le> 0")
    case False
    obtain r ts1 where a: "add_tracee ts new = (r, ts1)" by fastforce
    show ?thesis
    proof (cases r)
      case None
      then show ?thesis using Some False a add_tracee_None [of ts new ts1] assms by (simp add: fork_stop_def)
    next
      case (Some j)
      note ad = add_tracee_ok [OF a [unfolded Some] assms]
      have "fork_stop sp i ts = ts1[j := inherit (ts1 ! i) (ts1 ! j)]"
        using \<open>sp_event_pid sp = Some new\<close> False a Some by (simp add: fork_stop_def)
      then show ?thesis
        using ad inherit_same [of "ts1 ! i" "ts1 ! j"] table_ok_update [of ts1 "inherit (ts1 ! i) (ts1 ! j)" j]
          pending_count_update [of j ts1 "inherit (ts1 ! i) (ts1 ! j)"] by simp
    qed
  qed (use Some assms in \<open>simp add: fork_stop_def\<close>)
qed (use assms in \<open>simp add: fork_stop_def\<close>)

section \<open>The loop\<close>

definition loop_inv :: "tracer \<Rightarrow> bool" where
  "loop_inv tr \<longleftrightarrow> table_ok (tr_tracees tr) \<and>
     pending_count (tr_tracees tr) \<le> pc_mutation_inflight (tr_cache tr) \<and>
     pc_store_disabled (tr_cache tr) = pc_mutation_inflight (tr_cache tr) \<and> path_cache_inv (tr_cache tr)"

lemma put_state_inv:
  assumes "loop_inv tr" "i < length (tr_tracees tr)"
    and "accounts (tr_tracees tr ! i) (tr_cache tr) st (mc_cache mc)"
  shows "loop_inv (put_state i st mc ct tr)"
proof -
  let ?ts = "tr_tracees tr"
  have "pending_count ?ts - pend (?ts ! i) + pend (?ts ! i) \<le> pc_mutation_inflight (tr_cache tr)"
    using assms(1) pending_count_update [OF assms(2), of tracee_zero] by (simp add: loop_inv_def)
  then have "pending_count ?ts - pend (?ts ! i) + pend st \<le> pc_mutation_inflight (mc_cache mc)"
    using assms(3) unfolding accounts_def by blast
  then have "pending_count (?ts[i := st]) \<le> pc_mutation_inflight (mc_cache mc)"
    using pending_count_update [OF assms(2), of st] by simp
  moreover have "table_ok (?ts[i := st])"
    using assms(1,3) by (simp add: table_ok_update loop_inv_def accounts_def)
  ultimately show ?thesis using assms(1,3) by (simp add: loop_inv_def put_state_def accounts_def)
qed

lemma process_gone_inv: "loop_inv tr \<Longrightarrow> process_gone pid rc tr = (tr', out) \<Longrightarrow> loop_inv tr'"
  using remove_tracee_ok [of "tr_tracees tr" "tr_cache tr" pid]
  by (auto simp: process_gone_def loop_inv_def Let_def split: prod.splits if_splits)

lemma dispatch_stop_inv:
  assumes "loop_inv tr" "i < length (tr_tracees tr)"
    and a: "accounts (tr_tracees tr ! i) (tr_cache tr) st (mc_cache mc)"
    and d: "dispatch_stop env sp sig event i st mc ct tr = (tr', mc', out)"
  shows "loop_inv tr'"
proof -
  have put: "loop_inv (put_state i st1 mc1 ct1 tr)" if "accounts st (mc_cache mc) st1 (mc_cache mc1)" for st1 mc1 ct1
    by (rule put_state_inv [OF assms(1,2) accounts_trans [OF a that]])
  consider (sys) "sig = SYSCALL_STOP" | (sigsys) "sig \<noteq> SYSCALL_STOP" "sig = SIGSYS"
    | (sec) "sig \<noteq> SYSCALL_STOP" "sig \<noteq> SIGSYS" "event = PTRACE_EVENT_SECCOMP"
    | (fork) "sig \<noteq> SYSCALL_STOP" "sig \<noteq> SIGSYS" "event \<noteq> PTRACE_EVENT_SECCOMP" "event \<in> {1, 2, 3}"
    | (other) "sig \<noteq> SYSCALL_STOP" "sig \<noteq> SIGSYS" "event \<noteq> PTRACE_EVENT_SECCOMP" "event \<notin> {1, 2, 3}"
    by blast
  then show ?thesis
  proof cases
    case sys
    then show ?thesis using d put syscall_stop_accounts by (auto simp: dispatch_stop_def split: prod.splits)
  next
    case sigsys
    then show ?thesis using d put sigsys_stop_accounts by (auto simp: dispatch_stop_def split: prod.splits)
  next
    case sec
    then show ?thesis using d put seccomp_stop_accounts by (auto simp: dispatch_stop_def split: prod.splits)
  next
    case fork
    let ?tr = "put_state i st mc ct tr"
    have "tr' = ?tr\<lparr>tr_tracees := fork_stop sp i (tr_tracees ?tr)\<rparr>"
      using d fork unfolding dispatch_stop_def Let_def by (auto simp only: if_True if_False prod.inject)
    then show ?thesis using put [OF accounts_refl, of ct] fork_stop_ok [of "tr_tracees ?tr" sp i]
      by (simp add: loop_inv_def)
  next
    case other
    have "tr' = put_state i st mc ct tr"
      using d other unfolding dispatch_stop_def Let_def by (auto simp only: if_False prod.inject split: if_splits)
    then show ?thesis using put [OF accounts_refl] by simp
  qed
qed

lemma process_stopped_inv:
  assumes "loop_inv tr" "i < length (tr_tracees tr)"
    and d: "process_stopped env sp sig event i tr = (tr', mc', out)"
  shows "loop_inv tr'"
proof -
  let ?st = "tr_tracees tr ! i" and ?mc = "machine_at sp tr"
  let ?ct = "if te_stats env then (tr_counters tr)\<lparr>ct_stops := ct_stops (tr_counters tr) + 1\<rparr> else tr_counters tr"
  have mc: "mc_cache ?mc = tr_cache tr" by (simp add: machine_at_def)
  obtain ts pc where r: "remove_tracee (tr_tracees tr) (tr_cache tr) (sp_pid sp) = (ts, pc)" by fastforce
  obtain res st1 mc1 where f: "(if sig = SIGSEGV \<and> pg_enabled (te_pager env) then fault_stop env sp ?st ?mc
      else (NotManaged, ?st, ?mc)) = (res, st1, mc1)" by (rule prod_cases3)
  have a: "accounts ?st (tr_cache tr) st1 (mc_cache mc1)"
    using f fault_stop_accounts [of env sp ?st ?mc] mc by (auto split: if_splits)
  show ?thesis
  proof (cases "te_validate_tracees env \<and> \<not> sp_owned sp")
    case True
    then have "tr' = tr\<lparr>tr_tracees := ts, tr_cache := pc, tr_counters := ?ct\<rparr>"
      using d unfolding process_stopped_def Let_def r by simp
    then show ?thesis using remove_tracee_ok [OF r] assms(1) by (simp add: loop_inv_def)
  next
    case False
    then have e: "process_stopped env sp sig event i tr =
        (if res = FaultHandled then (put_state i st1 mc1 ?ct tr, mc1, resume_or_fail sp (continue_tracee env 0))
         else dispatch_stop env sp sig event i st1 mc1 ?ct tr)"
      unfolding process_stopped_def Let_def f prod.case by (rule if_not_P)
    show ?thesis
    proof (cases "res = FaultHandled")
      case True
      with d have "tr' = put_state i st1 mc1 ?ct tr" unfolding e by (auto simp only: if_True prod.inject simp_thms)
      then show ?thesis using put_state_inv [OF assms(1,2) a] by simp
    next
      case False
      with d have "dispatch_stop env sp sig event i st1 mc1 ?ct tr = (tr', mc', out)" unfolding e by simp
      from dispatch_stop_inv [OF assms(1,2) a this] show ?thesis .
    qed
  qed
qed

lemma wait_step_inv:
  assumes "loop_inv tr" "wait_step env ev tr = (tr', out)"
  shows "loop_inv tr'"
proof (cases ev)
  case (WaitFailed e)
  then show ?thesis using assms by (auto simp: wait_step_def split: if_splits)
next
  case (WaitNothing alive owned gone)
  then show ?thesis
    using assms prune_ok [of alive owned gone "tr_tracees tr"]
    by (fastforce simp: wait_step_def loop_inv_def Let_def split: prod.splits)
next
  case (WaitStop sp)
  obtain mc where t: "trace_stop env sp tr = (tr', mc, out)"
    using assms(2) WaitStop by (auto simp: wait_step_def split: prod.splits)
  obtain r ts where a: "add_tracee (tr_tracees tr) (sp_pid sp) = (r, ts)" by fastforce
  show ?thesis
  proof (cases r)
    case None
    then show ?thesis using t a assms(1) by (simp add: trace_stop_def)
  next
    case (Some i)
    let ?tr = "tr\<lparr>tr_tracees := ts\<rparr>"
    have ad: "table_ok ts" "i < length ts" "pending_count ts \<le> pending_count (tr_tracees tr)"
      using add_tracee_ok [OF a [unfolded Some]] assms(1) by (simp_all add: loop_inv_def)
    then have inv: "loop_inv ?tr" using assms(1) by (simp add: loop_inv_def)
    show ?thesis
      using t inv ad(2) process_gone_inv [OF inv] process_stopped_inv [OF inv, of i env sp]
      by (auto simp: trace_stop_def a Some Let_def split: wait_status.splits prod.splits)
  qed
qed

lemma trace_loop_inv: "loop_inv tr \<Longrightarrow> trace_loop env evs tr = (tr', r) \<Longrightarrow> loop_inv tr'"
proof (induction evs arbitrary: tr)
  case (Cons ev evs)
  obtain tr1 out where s: "wait_step env ev tr = (tr1, out)" by fastforce
  note inv = wait_step_inv [OF Cons.prems(1) s]
  show ?case using Cons.prems(2) Cons.IH [OF inv] inv by (cases out) (auto simp: s)
qed simp

lemma trace_start_inv:
  assumes "trace_start sa (path_cache_init b) fs ct = Inr tr"
  shows "loop_inv tr"
proof -
  obtain child where c: "sa_child sa = Some child" using assms by (auto simp: trace_start_def split: option.splits)
  have ok0: "table_ok tracees_init"
    by (simp add: table_ok_def table_inv_def tracees_init_def)
  have p0: "pending_count tracees_init = 0"
    by (simp add: pending_count_def tracees_init_def sum_list_replicate)
  obtain r ts where a: "add_tracee tracees_init child = (r, ts)" by fastforce
  obtain i where r: "r = Some i"
    using assms c a by (auto simp: trace_start_def split: option.splits wait_status.splits)
  note ad = add_tracee_ok [OF a [unfolded r] ok0]
  have t: "tr_cache tr = path_cache_init b \<and> (\<exists>g. tr_tracees tr = ts[i := (ts ! i)\<lparr>ts_guest_cwd := g\<rparr>])"
    using assms c a r ad
    by (auto simp: trace_start_def Let_def split: option.splits wait_status.splits if_splits
        intro: exI [of _ "ts_guest_cwd (ts ! i)"])
  then obtain g where g: "tr_tracees tr = ts[i := (ts ! i)\<lparr>ts_guest_cwd := g\<rparr>]" by blast
  have "table_ok (tr_tracees tr)" unfolding g by (rule table_ok_update) (use ad in simp_all)
  moreover have "pending_count (tr_tracees tr) = 0"
    using ad p0 pending_count_update [of i ts "(ts ! i)\<lparr>ts_guest_cwd := g\<rparr>"] by (simp add: g pend_def split: if_splits)
  ultimately show ?thesis
    using t path_cache_inv_init [of b] by (simp add: loop_inv_def path_cache_init_def)
qed

end
