(* ===== verification/Trace_Announced.thy ===== *)
theory Trace_Announced
  imports Trace_Safety
begin

text \<open>
  Every process inside a call that changes path names has its mutation announced. The calls are named
  here by their numbers, apart from the table of the executor.
\<close>

text \<open>\<open>mknodat\<close>, \<open>unlinkat\<close>, \<open>symlinkat\<close>, \<open>linkat\<close>, \<open>renameat\<close> and \<open>renameat2\<close> on AArch64.\<close>

definition name_changing :: "int set" where
  "name_changing = {33, 35, 36, 37, 38, 276}"

definition announced :: "tracee \<Rightarrow> bool" where
  "announced st \<longleftrightarrow>
     (ts_in_syscall st \<and> ts_last_nr st \<in> name_changing \<and> ts_emulated_nr st < 0 \<longrightarrow> ts_pending_invalidation st)"

lemma announced_outside: "\<not> ts_in_syscall st \<Longrightarrow> announced st"
  by (simp add: announced_def)

section \<open>The entry\<close>

lemma answer_emulated:
  "answer_call ho v st r mc = (ok, st1, r1, mc1) \<Longrightarrow> ok \<Longrightarrow> ts_emulated_nr st1 = ts_last_nr st"
  by (auto simp: answer_call_def Let_def split: prod.splits)

lemma entry_announces:
  assumes nr: "sint (rg r 8) \<in> name_changing"
    and h: "handle_syscall_entry env ho mi st r mc ct = (c, st', r', mc', ct')"
  shows "if c then 0 \<le> ts_emulated_nr st' else ts_pending_invalidation st'"
proof -
  let ?nr = "sint (rg r 8)"
  obtain st1 r1 mc1 ct1 where b: "entry_begin env ho st r mc ct = (st1, r1, mc1, ct1)" by (rule prod_cases4)
  note b' = entry_begin_accounts [OF b]
  then have last: "ts_last_nr st1 = ?nr" by blast
  have n: "path_syscall_invalidates_cache ?nr" "\<not> is_memory_trace_syscall ?nr" "\<not> syscall_emulate_success ?nr"
    "syscall_emulate_errno ?nr = None" "0 \<le> ?nr"
    using nr by (auto simp: name_changing_def path_syscall_invalidates_cache_def is_memory_trace_syscall_def
        syscall_emulate_success_def syscall_emulate_errno_def)
  have m: "(if ts_managed_pending_len st1 = 0 then maybe_guard_memory_syscall cfg mi ho st1 r1 mc1 ms else (False, st1, r1, mc1, ms))
      = (False, st1, r1, mc1, ms)" for cfg ms
    using n(2) last by (simp add: maybe_guard_memory_syscall_def)
  obtain f c0 st2 r2 mc2 ct2 where e: "entry_emulate env ho mi st1 r1 mc1 ct1 = (f, c0, st2, r2, mc2, ct2)" by (rule prod_cases6)
  have e': "same_slot st1 st2" using entry_emulate_same_slot [OF e] by simp
  then have last2: "ts_last_nr st2 = ?nr" using last by (simp add: same_slot_def)
  have emulated: "c0 \<Longrightarrow> ts_emulated_nr st2 = ?nr"
    using e last unfolding entry_emulate_def Let_def m prod.case
    by (auto split: option.splits prod.splits dest: answer_emulated)
  obtain c3 st3 r3 mc3 where w: "(if f then (c0, st2, r2, mc2) else entry_rewrite env ho st2 r2 mc2) = (c3, st3, r3, mc3)"
    by (rule prod_cases4)
  have w': "same_slot st2 st3" using w entry_rewrite_same_slot by (auto split: if_splits)
  have c3: "c3 \<Longrightarrow> ts_emulated_nr st3 = ?nr"
  proof (cases f)
    case True
    then show "c3 \<Longrightarrow> ?thesis" using w emulated by simp
  next
    case False
    then have "\<not> c3" using w n(3,4) last2 by (auto simp: entry_rewrite_def Let_def split: prod.splits if_splits)
    then show "c3 \<Longrightarrow> ?thesis" by simp
  qed
  have "ts_pending_invalidation st3"
    using b' n(1) e' w' last by (simp add: same_slot_def)
  then show ?thesis
    using h c3 n(1,5) last by (auto simp: handle_syscall_entry_def b e w split: if_splits)
qed

lemma entry_announced:
  assumes "handle_syscall_entry env ho mi st r mc ct = (c, st', r', mc', ct')"
  shows "announced (st'\<lparr>ts_in_syscall := b\<rparr>)"
proof -
  have "ts_last_nr st' = sint (rg r 8)" using entry_accounts [OF assms] by blast
  then show ?thesis
    using entry_announces [OF _ assms] by (auto simp: announced_def split: if_splits)
qed

section \<open>The stops\<close>

lemma syscall_stop_announced:
  assumes "syscall_stop env sp st mc ct = (st', mc', ct')" "announced st"
  shows "announced st'"
proof (cases "sp_getregs_ok sp")
  case False
  then show ?thesis using assms by (simp add: syscall_stop_def)
next
  case True
  obtain completed st1 mc1 ct1 where one: "entry_or_exit env sp st mc ct = (completed, st1, mc1, ct1)"
    by (rule prod_cases4)
  obtain st2 mc2 where two: "finish_pending st1 mc1 = (st2, mc2)" by fastforce
  have st': "st' = st2\<lparr>ts_in_syscall := (if completed then True else \<not> ts_in_syscall st2)\<rparr>"
    using assms True by (simp add: syscall_stop_def one two Let_def)
  have in2: "ts_in_syscall st2 = ts_in_syscall st1" using finish_pending_accounts [OF two] by blast
  show ?thesis
  proof (cases "ts_in_syscall st")
    case True
    then obtain mc3 where "syscall_exit env sp st mc ct = (st1, mc3, ct1)" and c: "\<not> completed"
      using one by (auto simp: entry_or_exit_def split: prod.splits)
    then have "ts_in_syscall st1" using syscall_exit_same_slot True by (fastforce simp: same_slot_def)
    then show ?thesis using st' in2 c by (simp add: announced_def)
  next
    case False
    obtain c s1 r1 m1 k1 where h: "handle_syscall_entry env (sp_host sp) (sp_meminfo sp) st (sp_regs sp) mc ct = (c, s1, r1, m1, k1)"
      by (rule prod_cases5)
    then have "st1 = s1" using one False by (simp add: entry_or_exit_def)
    moreover have "\<not> ts_in_syscall s1" using entry_accounts [OF h] False by simp
    ultimately have "st2 = s1" using two by (simp add: finish_pending_def)
    then show ?thesis using st' entry_announced [OF h] by simp
  qed
qed

lemma seccomp_stop_announced:
  assumes "seccomp_stop env sp st mc ct = (st', mc', ct', how)" "announced st"
  shows "announced st'"
proof -
  obtain st1 mc1 ct1 where one: "seccomp_entry env sp st mc ct = (st1, mc1, ct1)" by (rule prod_cases3)
  have a1: "announced st1"
  proof (cases "sp_getregs_ok sp")
    case True
    obtain c s1 r1 m1 k1 where h: "handle_syscall_entry env (sp_host sp) (sp_meminfo sp) st (sp_regs sp) mc ct = (c, s1, r1, m1, k1)"
      by (rule prod_cases5)
    have "st1 = s1\<lparr>ts_in_syscall := (c \<or> ts_in_syscall s1)\<rparr>"
      using one True by (auto simp: seccomp_entry_def h)
    then show ?thesis using entry_announced [OF h] by simp
  next
    case False
    then show ?thesis using one assms(2) by (simp add: seccomp_entry_def)
  qed
  have "st' = st1 \<or> st' = st1\<lparr>ts_in_syscall := True\<rparr> \<and>
      (is_memory_trace_syscall (ts_last_nr st1) \<or> ts_pending_invalidation st1 \<or> ts_last_nr st1 = 49)"
    using assms(1) by (auto simp: seccomp_stop_def one split: if_splits)
  with a1 show ?thesis by (auto simp: announced_def name_changing_def is_memory_trace_syscall_def)
qed

lemma sigsys_emulate_announced:
  assumes "sigsys_emulate env sp st mc = (b, st', r', mc')" "announced st"
  shows "announced st'"
proof -
  let ?nr = "sint (rg (sp_regs sp) 8)"
  let ?st1 = "st\<lparr>ts_last_nr := ?nr, ts_last_args := (\<lambda>i. if i < 6 then rg (sp_regs sp) i else ts_last_args st i)\<rparr>"
  obtain res mc1 where a: "sigsys_answer env (sp_host sp) st (sp_regs sp) mc ?nr = (res, mc1)" by fastforce
  show ?thesis
  proof (cases res)
    case None
    then show ?thesis using assms by (simp add: sigsys_emulate_def Let_def a)
  next
    case (Some p)
    obtain v st1 where p: "p = (v, st1)" by fastforce
    obtain v2 st2 m where pr: "prepare_emulated_result (mc_mem mc) ?st1 ?nr = (v2, st2, m)" by (rule prod_cases3)
    have "ts_last_nr st2 = ?nr" using prepare_same_slot [of ?st1 "mc_mem mc" ?nr] by (simp add: pr same_slot_def)
    moreover have "?nr \<notin> name_changing"
      using a Some by (auto simp: sigsys_answer_def sigsys_value_def Let_def pr name_changing_def syscall_emulate_success_def
          syscall_emulate_errno_def split: if_splits prod.splits)
    ultimately have "ts_last_nr st1 \<notin> name_changing"
      using a Some p by (auto simp: sigsys_answer_def Let_def pr split: if_splits prod.splits)
    then show ?thesis using assms(1) Some p
      by (auto simp: sigsys_emulate_def Let_def a announced_def split: if_splits prod.splits)
  qed
qed

lemma sigsys_stop_announced:
  assumes "sigsys_stop env sp st mc = (st', mc', how)" "announced st"
  shows "announced st'"
proof (cases "sp_getregs_ok sp")
  case False
  then show ?thesis using assms by (simp add: sigsys_stop_def)
next
  case True
  let ?cc = "sint (rg (sp_regs sp) 8) = - 1 \<and> syscall_completed_in_userland (ts_last_nr st)"
  let ?known = "0 \<le> ts_emulated_nr st \<or>
     (0 \<le> ts_last_emulated_nr st \<and> syscall_completed_in_userland (ts_last_emulated_nr st)) \<or> ?cc"
  obtain b st1 r1 mc1 where one:
    "(if ?known then (True, st, sp_regs sp, mc) else sigsys_emulate env sp st mc) = (b, st1, r1, mc1)"
    by (rule prod_cases4)
  have "announced st1" using one sigsys_emulate_announced assms(2) by (auto split: if_splits)
  moreover have "st' = st1 \<or> st' = st1\<lparr>ts_last_emulated_nr := - 1\<rparr> \<or> \<not> ts_in_syscall st'"
    using assms(1) True unfolding sigsys_stop_def Let_def one prod.case by (auto split: if_splits prod.splits)
  ultimately show ?thesis by (auto simp: announced_def)
qed

lemma fault_stop_announced: "fault_stop env sp st mc = (res, st', mc') \<Longrightarrow> announced st \<Longrightarrow> announced st'"
  by (auto simp: fault_stop_def announced_def split: option.splits if_splits prod.splits)

section \<open>The table and the loop\<close>

lemma blank_announced [simp]: "announced tracee_zero" "announced (fresh_tracee p)"
  by (simp_all add: announced_def tracee_zero_def fresh_tracee_def)

lemma list_update_all: "list_all P xs \<Longrightarrow> P x \<Longrightarrow> list_all P (xs[i := x])"
  by (auto simp: list_all_iff dest!: subsetD [OF set_update_subset_insert])

lemma nth_all: "list_all P xs \<Longrightarrow> i < length xs \<Longrightarrow> P (xs ! i)"
  by (simp add: list_all_length)

lemma add_announced: "add_tracee ts pid = (r, ts') \<Longrightarrow> list_all announced ts \<Longrightarrow> list_all announced ts'"
  by (auto simp: add_tracee_def intro!: list_update_all split: option.splits)

lemma remove_announced: "remove_tracee ts pc pid = (ts', pc') \<Longrightarrow> list_all announced ts \<Longrightarrow> list_all announced ts'"
  by (auto simp: remove_tracee_def intro!: list_update_all split: option.splits)

lemma prune_announced:
  assumes "prune_dead_tracees alive owned gone ts = (n, ts')" "list_all announced ts"
  shows "list_all announced ts'"
  using prune_pointwise [OF assms(1)] assms(2) by (induction rule: list_all2_induct) auto

lemma fork_announced:
  assumes "list_all announced ts" "table_ok ts"
  shows "list_all announced (fork_stop sp i ts)"
proof (cases "sp_event_pid sp")
  case (Some new)
  obtain r ts1 where a: "add_tracee ts new = (r, ts1)" by fastforce
  note all = add_announced [OF a assms(1)]
  have "announced (inherit (ts1 ! i) (ts1 ! j))" if "r = Some j" for j
    using nth_all [OF all, of j] add_tracee_ok [OF a [unfolded that] assms(2)] by (simp add: announced_def inherit_def)
  then show ?thesis using all Some assms(1) by (auto simp: fork_stop_def a intro!: list_update_all split: option.split)
qed (use assms in \<open>simp add: fork_stop_def\<close>)

lemma put_announced:
  "list_all announced (tr_tracees tr) \<Longrightarrow> announced st \<Longrightarrow> list_all announced (tr_tracees (put_state i st mc ct tr))"
  by (simp add: put_state_def list_update_all)

lemma dispatch_announced:
  assumes "list_all announced (tr_tracees tr)" "table_ok (tr_tracees (put_state i st mc ct tr))" "announced st"
    and d: "dispatch_stop env sp sig event i st mc ct tr = (tr', mc', out)"
  shows "list_all announced (tr_tracees tr')"
proof -
  note put = put_announced [OF assms(1)]
  consider (sys) "sig = SYSCALL_STOP" | (sigsys) "sig \<noteq> SYSCALL_STOP" "sig = SIGSYS"
    | (sec) "sig \<noteq> SYSCALL_STOP" "sig \<noteq> SIGSYS" "event = PTRACE_EVENT_SECCOMP"
    | (fork) "sig \<noteq> SYSCALL_STOP" "sig \<noteq> SIGSYS" "event \<noteq> PTRACE_EVENT_SECCOMP" "event \<in> {1, 2, 3}"
    | (other) "sig \<noteq> SYSCALL_STOP" "sig \<noteq> SIGSYS" "event \<noteq> PTRACE_EVENT_SECCOMP" "event \<notin> {1, 2, 3}"
    by blast
  then show ?thesis
  proof cases
    case sys
    then show ?thesis using d put syscall_stop_announced assms(3) by (auto simp: dispatch_stop_def split: prod.splits)
  next
    case sigsys
    then show ?thesis using d put sigsys_stop_announced assms(3) by (auto simp: dispatch_stop_def split: prod.splits)
  next
    case sec
    then show ?thesis using d put seccomp_stop_announced assms(3) by (auto simp: dispatch_stop_def split: prod.splits)
  next
    case fork
    let ?tr = "put_state i st mc ct tr"
    have "tr' = ?tr\<lparr>tr_tracees := fork_stop sp i (tr_tracees ?tr)\<rparr>"
      using d fork unfolding dispatch_stop_def Let_def by (auto simp only: if_True if_False prod.inject)
    then show ?thesis using fork_announced [OF put [OF assms(3)] assms(2)] by simp
  next
    case other
    have "tr' = put_state i st mc ct tr"
      using d other unfolding dispatch_stop_def Let_def by (auto simp only: if_False prod.inject split: if_splits)
    then show ?thesis using put [OF assms(3)] by simp
  qed
qed

lemma stopped_announced:
  assumes "loop_inv tr" "list_all announced (tr_tracees tr)" "i < length (tr_tracees tr)"
    and d: "process_stopped env sp sig event i tr = (tr', mc', out)"
  shows "list_all announced (tr_tracees tr')"
proof -
  let ?st = "tr_tracees tr ! i" and ?mc = "machine_at sp tr"
  let ?ct = "if te_stats env then (tr_counters tr)\<lparr>ct_stops := ct_stops (tr_counters tr) + 1\<rparr> else tr_counters tr"
  obtain ts pc where r: "remove_tracee (tr_tracees tr) (tr_cache tr) (sp_pid sp) = (ts, pc)" by fastforce
  obtain res st1 mc1 where f: "(if sig = SIGSEGV \<and> pg_enabled (te_pager env) then fault_stop env sp ?st ?mc
      else (NotManaged, ?st, ?mc)) = (res, st1, mc1)" by (rule prod_cases3)
  have st1: "announced st1"
    using f fault_stop_announced [of env sp ?st ?mc] nth_all [OF assms(2,3)] by (auto split: if_splits)
  have a: "accounts ?st (tr_cache tr) st1 (mc_cache mc1)"
    using f fault_stop_accounts [of env sp ?st ?mc] by (auto simp: machine_at_def split: if_splits)
  have ok: "table_ok (tr_tracees (put_state i st1 mc1 ?ct tr))"
    using put_state_inv [OF assms(1,3) a] by (simp add: loop_inv_def)
  show ?thesis
  proof (cases "te_validate_tracees env \<and> \<not> sp_owned sp")
    case True
    then have "tr' = tr\<lparr>tr_tracees := ts, tr_cache := pc, tr_counters := ?ct\<rparr>"
      using d unfolding process_stopped_def Let_def r by simp
    then show ?thesis using remove_announced [OF r assms(2)] by simp
  next
    case False
    then have e: "process_stopped env sp sig event i tr =
        (if res = FaultHandled then (put_state i st1 mc1 ?ct tr, mc1, resume_or_fail sp (continue_tracee env 0))
         else dispatch_stop env sp sig event i st1 mc1 ?ct tr)"
      unfolding process_stopped_def Let_def f prod.case by (rule if_not_P)
    show ?thesis
    proof (cases "res = FaultHandled")
      case True
      with d have "tr' = put_state i st1 mc1 ?ct tr" unfolding e by (auto simp only: if_True prod.inject simp_thms)
      then show ?thesis using put_announced [OF assms(2) st1] by simp
    next
      case False
      with d have "dispatch_stop env sp sig event i st1 mc1 ?ct tr = (tr', mc', out)" unfolding e by simp
      from dispatch_announced [OF assms(2) ok st1 this] show ?thesis .
    qed
  qed
qed

lemma gone_announced:
  "process_gone pid rc tr = (tr', out) \<Longrightarrow> list_all announced (tr_tracees tr) \<Longrightarrow> list_all announced (tr_tracees tr')"
  using remove_announced [of "tr_tracees tr" "tr_cache tr" pid]
  by (auto simp: process_gone_def Let_def split: prod.splits)

lemma step_announced:
  assumes "loop_inv tr" "list_all announced (tr_tracees tr)" "wait_step env ev tr = (tr', out)"
  shows "list_all announced (tr_tracees tr')"
proof (cases ev)
  case (WaitFailed e)
  then show ?thesis using assms by (auto simp: wait_step_def split: if_splits)
next
  case (WaitNothing alive owned gone)
  then show ?thesis
    using assms prune_announced [of alive owned gone "tr_tracees tr"]
    by (fastforce simp: wait_step_def Let_def split: prod.splits)
next
  case (WaitStop sp)
  obtain mc where t: "trace_stop env sp tr = (tr', mc, out)"
    using assms(3) WaitStop by (auto simp: wait_step_def split: prod.splits)
  obtain r ts where a: "add_tracee (tr_tracees tr) (sp_pid sp) = (r, ts)" by fastforce
  show ?thesis
  proof (cases r)
    case None
    then show ?thesis using t a assms(2) by (simp add: trace_stop_def)
  next
    case (Some i)
    let ?tr = "tr\<lparr>tr_tracees := ts\<rparr>"
    have ad: "table_ok ts" "i < length ts" "pending_count ts \<le> pending_count (tr_tracees tr)"
      using add_tracee_ok [OF a [unfolded Some]] assms(1) by (simp_all add: loop_inv_def)
    then have inv: "loop_inv ?tr" using assms(1) by (simp add: loop_inv_def)
    have all: "list_all announced (tr_tracees ?tr)" using add_announced [OF a assms(2)] by simp
    show ?thesis
      using t inv ad(2) gone_announced [OF _ all] stopped_announced [OF inv all, of i env sp] all
      by (auto simp: trace_stop_def a Some Let_def split: wait_status.splits prod.splits)
  qed
qed

lemma trace_loop_announced:
  "loop_inv tr \<Longrightarrow> list_all announced (tr_tracees tr) \<Longrightarrow> trace_loop env evs tr = (tr', r) \<Longrightarrow> list_all announced (tr_tracees tr')"
proof (induction evs arbitrary: tr)
  case (Cons ev evs)
  obtain tr1 out where s: "wait_step env ev tr = (tr1, out)" by fastforce
  note inv = wait_step_inv [OF Cons.prems(1) s] and all = step_announced [OF Cons.prems(1,2) s]
  show ?case using Cons.prems(3) Cons.IH [OF inv all] all by (cases out) (auto simp: s)
qed simp

lemma trace_start_announced:
  assumes "trace_start sa (path_cache_init b) fs ct = Inr tr"
  shows "list_all announced (tr_tracees tr)"
proof -
  obtain child where c: "sa_child sa = Some child" using assms by (auto simp: trace_start_def split: option.splits)
  obtain r ts where a: "add_tracee tracees_init child = (r, ts)" by fastforce
  have "list_all announced tracees_init" by (simp add: tracees_init_def list_all_iff)
  note all = add_announced [OF a this]
  obtain i where r: "r = Some i" "i < length ts"
    using assms c a add_tracee_ok [of tracees_init child i ts]
    by (auto simp: trace_start_def table_ok_def table_inv_def tracees_init_def split: option.splits wait_status.splits
        dest!: add_tracee_ok)
  have "announced ((ts ! i)\<lparr>ts_guest_cwd := g\<rparr>)" for g using nth_all [OF all r(2)] by (simp add: announced_def)
  then show ?thesis
    using assms c a r all
    by (auto simp: trace_start_def Let_def intro!: list_update_all split: option.splits wait_status.splits if_splits)
qed

end
