(* ===== verification/Trace_Theorems.thy ===== *)
theory Trace_Theorems
  imports Trace_Announced Rewrite_Theorems Exec_Theorems
begin

text \<open>
  Properties of the trace loop: the invariants over whole histories, the return code, and what a
  system call sees from its entry to its exit.
\<close>

section \<open>A small run\<close>

definition run_stat :: mem_stat where
  "run_stat = \<lparr>ms_calls = 0, ms_failures = 0, ms_bytes = 0, ms_large_calls = 0, ms_largest = 0\<rparr>"

definition run_admission :: pager_admission where
  "run_admission = \<lparr>ad_considered = 0, ad_accepted = 0, ad_rejected_not_enabled = 0, ad_rejected_fixed_address = 0,
     ad_rejected_below_threshold = 0, ad_rejected_too_large = 0, ad_rejected_flags = 0, ad_rejected_file_backed = 0,
     ad_rejected_protection = 0, ad_pending = 0, ad_register_failed = 0, ad_cleanup_munmap_failed = 0,
     ad_denied_enomem = 0, ad_last_decision = [], ad_last_reason = [], ad_last_classification = [],
     ad_last_request = 0, ad_last_threshold = 0, ad_last_max_region = 0, ad_last_errno = 0\<rparr>"

definition run_counters :: counters where
  "run_counters = \<lparr>ct_syscalls = (\<lambda>_. 0), ct_stops = 0,
     ct_memory = \<lparr>mt_denied = 0, mt_last_denied_bytes = 0, mt_last_available = 0, mt_last_swap_free = 0,
       mt_last_denied_nr = 0, mt_last_denied_errno = 0, mt_last_denied_syscall = [], mt_mmap = run_stat,
       mt_mremap = run_stat, mt_brk = run_stat, mt_munmap = run_stat, mt_mprotect = run_stat, mt_madvise = run_stat\<rparr>,
     ct_admission = run_admission\<rparr>"

definition run_env :: "bool \<Rightarrow> tracer_env" where
  "run_env selective = \<lparr>te_cfg = demo_tracer, te_exec = demo_exec,
     te_memory = \<lparr>mg_trace = False, mg_guard = False, mg_threshold = 0, mg_min_request = 0, mg_min_available = 0, mg_min_swap = 0\<rparr>,
     te_pager = \<lparr>pg_enabled = False, pg_min_request = 0, pg_max_region = 0, pg_resident_pages = 1\<rparr>,
     te_stats = False, te_selective = selective, te_validate_tracees = False\<rparr>"

definition run_vmem :: vmem where
  "run_vmem = demo_vmem\<lparr>vm_r := (\<lambda>_. False), vm_w := (\<lambda>_. False), vm_mapped := (\<lambda>_. False)\<rparr>"

definition run_regs :: "u64 \<Rightarrow> u64 \<Rightarrow> regs" where
  "run_regs nr x = \<lparr>rg = (\<lambda>i. if i = 8 then nr else x), rg_sp = 65536, rg_pc = 512\<rparr>"

definition run_stop :: "wait_status \<Rightarrow> u64 \<Rightarrow> u64 \<Rightarrow> vmem \<Rightarrow> stop" where
  "run_stop status nr x m = \<lparr>sp_pid = 7, sp_status = status, sp_mem = m, sp_getregs_ok = True, sp_regs = run_regs nr x,
     sp_nr = sint nr, sp_host = demo_host, sp_meminfo = None, sp_owned = True, sp_fault_addr = None,
     sp_pager = \<lparr>pe_alloc = (\<lambda>_. True), pe_pwrite = (\<lambda>_. 0), pe_pread = (\<lambda>_. None), pe_inject = (\<lambda>_. mprotect_host None), pe_setregs_ok = True\<rparr>,
     sp_mmap = \<lparr>me_page_size = 4096, me_calloc_ok = True, me_failed = None, me_inject = mprotect_host None\<rparr>,
     sp_event_pid = None, sp_resume_ok = True\<rparr>"

definition run_start :: start where
  "run_start = \<lparr>sa_child = Some 7, sa_first_wait = Some (Stopped 19 0), sa_guest_cwd = None, sa_resume_ok = True\<rparr>"

definition run_tracer :: tracer where
  "run_tracer = \<lparr>tr_tracees = fresh_tracee 7 # replicate 127 tracee_zero, tr_cache = path_cache_init True, tr_fs = Map.empty,
     tr_counters = run_counters, tr_root = 7, tr_root_done = False, tr_root_rc = 126\<rparr>"

lemma slots: "tracees_init = tracee_zero # replicate 127 tracee_zero"
proof -
  have "MAX_TRACEES = Suc 127" by (simp add: MAX_TRACEES_def)
  then have "tracees_init = replicate (Suc 127) tracee_zero" by (simp only: tracees_init_def)
  then show ?thesis by (simp only: replicate_Suc)
qed

lemma no_other: "first_slot (\<lambda>t. ts_active t \<and> P t) (replicate n tracee_zero) = None"
  by (simp add: first_slot_None)

lemma run_started: "trace_start run_start (path_cache_init True) Map.empty run_counters = Inr run_tracer"
  by (simp add: trace_start_def run_start_def run_tracer_def slots add_tracee_def find_tracee_def no_other del: replicate.simps)

lemma run_find: "add_tracee (fresh_tracee 7 # ts) 7 = (Some 0, fresh_tracee 7 # ts)"
  by (simp add: add_tracee_def find_tracee_def)

lemma run_sel [simp]:
  "sp_pid (run_stop s nr x m) = 7" "sp_status (run_stop s nr x m) = s" "sp_getregs_ok (run_stop s nr x m)"
  "sp_regs (run_stop s nr x m) = run_regs nr x" "sp_host (run_stop s nr x m) = demo_host" "sp_owned (run_stop s nr x m)"
  "sp_mem (run_stop s nr x m) = m" "sp_resume_ok (run_stop s nr x m)" "sp_meminfo (run_stop s nr x m) = None"
  "rg (run_regs nr x) 8 = nr" "i \<noteq> 8 \<Longrightarrow> rg (run_regs nr x) i = x" "rg_sp (run_regs nr x) = 65536"
  by (simp_all add: run_stop_def run_regs_def)

text \<open>The mutating calls that are never emulated leave their entry with the mutation announced.\<close>

lemma mutating_entry:
  assumes nr: "sint (rg r 8) \<in> {33, 35, 38, 276}"
    and h: "handle_syscall_entry env ho mi st r mc ct = (c, st', r', mc', ct')"
  shows "\<not> c \<and> ts_pending_invalidation st' \<and> ts_in_syscall st' = ts_in_syscall st
    \<and> ts_last_nr st' = sint (rg r 8) \<and> ts_emulated_nr st' = ts_emulated_nr st"
proof -
  let ?nr = "sint (rg r 8)"
  obtain st1 r1 mc1 ct1 where b: "entry_begin env ho st r mc ct = (st1, r1, mc1, ct1)" by (rule prod_cases4)
  note b' = entry_begin_accounts [OF b]
  have n: "path_syscall_invalidates_cache ?nr" "\<not> is_memory_trace_syscall ?nr" "\<not> syscall_emulate_success ?nr"
    "syscall_emulate_errno ?nr = None" "\<not> (425 \<le> ?nr \<and> ?nr \<le> 427)"
    using nr by (auto simp: path_syscall_invalidates_cache_def is_memory_trace_syscall_def syscall_emulate_success_def syscall_emulate_errno_def)
  have m: "maybe_guard_memory_syscall cfg mi ho st1 r1 mc1 ms = (False, st1, r1, mc1, ms)" for cfg ms
    using n(2) b' by (simp add: maybe_guard_memory_syscall_def)
  have "ts_last_nr st1 \<notin> {17, 78, 57, 37, 48, 439}" "ts_last_nr st1 \<noteq> 36" "\<not> (425 \<le> ts_last_nr st1 \<and> ts_last_nr st1 \<le> 427)"
    using nr b' by auto
  then have a: "emulated_answer env ho st1 r1 mc1 = (None, mc1)"
    by (simp add: emulated_answer_def Let_def)
  have e: "entry_emulate env ho mi st1 r1 mc1 ct1 = (False, False, st1, r1, mc1, ct1)"
    by (simp add: entry_emulate_def m a Let_def)
  obtain c3 st3 r3 mc3 where w: "entry_rewrite env ho st1 r1 mc1 = (c3, st3, r3, mc3)" by (rule prod_cases4)
  have nc: "\<not> c3"
    using w n(3,4) b' by (auto simp: entry_rewrite_def Let_def split: prod.splits if_splits)
  have "st3 = st1"
    using w n(3,4) b' nr by (auto simp: entry_rewrite_def rewrite_syscall_paths_def path_action_of_def syscall_remap_number_def
        Let_def split: prod.splits if_splits)
  moreover have "ts_emulated_nr st1 = ts_emulated_nr st"
    using b nr by (auto simp: entry_begin_def Let_def split: prod.splits if_splits)
  ultimately show ?thesis using h b' n(1) nc by (simp add: handle_syscall_entry_def b e w)
qed

lemma mutating_syscall_stop:
  assumes "syscall_stop env sp st mc ct = (st', mc', ct')"
    and "sp_getregs_ok sp" "\<not> ts_in_syscall st" "sint (rg (sp_regs sp) 8) \<in> {33, 35, 38, 276}"
  shows "ts_pending_invalidation st' \<and> ts_in_syscall st' \<and> ts_last_nr st' = sint (rg (sp_regs sp) 8)
    \<and> (ts_emulated_nr st < 0 \<longrightarrow> ts_emulated_nr st' < 0)"
proof -
  obtain c st1 r1 mc1 ct1 where h: "handle_syscall_entry env (sp_host sp) (sp_meminfo sp) st (sp_regs sp) mc ct = (c, st1, r1, mc1, ct1)"
    by (rule prod_cases5)
  show ?thesis
    using assms mutating_entry [OF assms(4) h] by (simp add: syscall_stop_def entry_or_exit_def h finish_pending_def)
      (auto simp: Let_def)
qed

section \<open>Whole histories\<close>

text \<open>C28. While any traced process is inside a \<open>mknodat\<close>, \<open>unlinkat\<close>, \<open>symlinkat\<close>, \<open>linkat\<close>,
  \<open>renameat\<close> or \<open>renameat2\<close> that the kernel carries out (numbers 33, 35, 36, 37, 38 and 276, between the
  entry and the exit of the call, and not answered by the executor itself), nothing can be stored in the
  path caches, whatever stops, signals, forks and deaths the history of the run has. The other calls that
  change names, \<open>mkdirat\<close> and an \<open>openat\<close> that creates its file, have no such protection.\<close>

theorem mutation_keeps_caches_closed:
  assumes "trace_start sa (path_cache_init b) fs ct = Inr tr0" "trace_loop env evs tr0 = (tr, r)"
    and "st \<in> set (tr_tracees tr)" "ts_in_syscall st" "ts_last_nr st \<in> {33, 35, 36, 37, 38, 276}" "ts_emulated_nr st < 0"
  shows "path_validation_cache_put (tr_cache tr) h f rc = tr_cache tr \<and> realpath_cache_put (tr_cache tr) p q = tr_cache tr"
proof -
  have inv0: "loop_inv tr0" by (rule trace_start_inv [OF assms(1)])
  have inv: "loop_inv tr" by (rule trace_loop_inv [OF inv0 assms(2)])
  have "announced st"
    using trace_loop_announced [OF inv0 trace_start_announced [OF assms(1)] assms(2)] assms(3) by (simp add: list_all_iff)
  then have "ts_pending_invalidation st" using assms(4-6) by (auto simp: announced_def name_changing_def)
  moreover have "pend st \<le> pending_count (tr_tracees tr)"
    unfolding pending_count_def by (rule member_le_sum_list) (use assms(3) in simp_all)
  ultimately have "0 < pc_mutation_inflight (tr_cache tr)"
    using inv by (simp add: loop_inv_def pend_def)
  then show ?thesis by (simp add: path_validation_cache_put_def realpath_cache_put_def)
qed

text \<open>C29. In every history the table of the traced processes keeps its 128 slots and never holds
  two entries of one process.\<close>

theorem tracee_slots_stay_unique:
  assumes "trace_start sa (path_cache_init b) fs ct = Inr tr0" "trace_loop env evs tr0 = (tr, r)"
  shows "length (tr_tracees tr) = MAX_TRACEES \<and> tracee_count (tr_tracees tr) = card (dom (table_map (tr_tracees tr)))"
proof -
  let ?ts = "tr_tracees tr"
  have ok: "table_inv ?ts" "length ?ts = MAX_TRACEES"
    using trace_loop_inv [OF trace_start_inv [OF assms(1)] assms(2)] by (simp_all add: loop_inv_def table_ok_def)
  let ?I = "{i. i < length ?ts \<and> ts_active (?ts ! i)}"
  have inj: "inj_on (\<lambda>i. ts_pid (?ts ! i)) ?I"
    using table_invD [OF ok(1)] by (auto simp: inj_on_def)
  have "dom (table_map ?ts) = (\<lambda>i. ts_pid (?ts ! i)) ` ?I"
    by (auto simp: dom_def table_map_Some [OF ok(1)])
  then have "card (dom (table_map ?ts)) = card ?I" by (simp add: card_image [OF inj])
  moreover have "tracee_count ?ts = card ?I"
    by (simp add: tracee_count_def length_filter_conv_card)
  ultimately show ?thesis using ok(2) by simp
qed

theorem mutation_keeps_caches_closed_witness:
  "\<exists>tr st. trace_loop (run_env False) [WaitStop (run_stop (Stopped 133 0) 35 0 run_vmem)] run_tracer = (tr, None) \<and>
     st \<in> set (tr_tracees tr) \<and> ts_in_syscall st \<and> ts_last_nr st = 35 \<and>
     path_validation_cache_put (tr_cache tr) ''/r'' True None = tr_cache tr \<and>
     realpath_cache_put (tr_cache tr) ''/r'' ''/r'' = tr_cache tr"
proof -
  let ?sp = "run_stop (Stopped 133 0) 35 0 run_vmem" and ?env = "run_env False"
  obtain st mc ct where one: "syscall_stop ?env ?sp (fresh_tracee 7) (machine_at ?sp run_tracer) run_counters = (st, mc, ct)"
    by (rule prod_cases3)
  have p: "ts_in_syscall st" "ts_last_nr st = 35" "ts_emulated_nr st < 0"
    using mutating_syscall_stop [OF one] by (simp_all add: fresh_tracee_def tracee_zero_def)
  let ?tr = "put_state 0 st mc ct run_tracer"
  have "trace_stop ?env ?sp run_tracer = (?tr, mc, Resumed (continue_tracee ?env 0))"
    using one by (simp add: trace_stop_def run_tracer_def run_find process_stopped_def run_env_def dispatch_stop_def
        SYSCALL_STOP_def SIGSEGV_def resume_or_fail_def Let_def del: replicate.simps)
  then have loop: "trace_loop ?env [WaitStop ?sp] run_tracer = (?tr, None)"
    by (simp add: wait_step_def)
  moreover have st: "st \<in> set (tr_tracees ?tr)" by (simp add: put_state_def run_tracer_def)
  ultimately show ?thesis
    using p mutation_keeps_caches_closed [OF run_started loop st p(1) _ p(3)] by auto
qed

lemma run_exit: "\<exists>tr. trace_loop (run_env False) [WaitStop (run_stop (Exited 3) 0 0 run_vmem)] run_tracer = (tr, Some 3)"
  by (simp add: wait_step_def trace_stop_def run_tracer_def run_find process_gone_def remove_tracee_def find_tracee_def
      tracee_count_def Let_def del: replicate.simps)

theorem tracee_slots_stay_unique_witness:
  "\<exists>tr. trace_loop (run_env False) [WaitStop (run_stop (Exited 3) 0 0 run_vmem)] run_tracer = (tr, Some 3) \<and>
     length (tr_tracees tr) = MAX_TRACEES \<and> tracee_count (tr_tracees tr) = card (dom (table_map (tr_tracees tr)))"
  using run_exit tracee_slots_stay_unique [OF run_started] by blast

section \<open>The return code\<close>

definition root_status :: "wait_event set \<Rightarrow> int \<Rightarrow> int \<Rightarrow> bool" where
  "root_status evs root rc \<longleftrightarrow>
     (\<exists>sp. WaitStop sp \<in> evs \<and> sp_pid sp = root \<and>
        (sp_status sp = Exited rc \<or> (\<exists>sig. sp_status sp = Signaled sig \<and> rc = 128 + sig)))"

lemma put_state_root [simp]:
  "tr_root (put_state i st mc ct tr) = tr_root tr" "tr_root_rc (put_state i st mc ct tr) = tr_root_rc tr"
  by (simp_all add: put_state_def)

lemma resume_finished: "resume_or_fail sp how = Finished rc \<Longrightarrow> rc = 126"
  by (simp add: resume_or_fail_def split: if_splits)

lemma dispatch_root:
  "dispatch_stop env sp sig event i st mc ct tr = (tr', mc', out) \<Longrightarrow>
   tr_root tr' = tr_root tr \<and> tr_root_rc tr' = tr_root_rc tr \<and> (\<forall>rc. out = Finished rc \<longrightarrow> rc = 126)"
  unfolding dispatch_stop_def
  by (auto simp: Let_def split: if_splits prod.splits dest: resume_finished)

lemma process_stopped_root:
  "process_stopped env sp sig event i tr = (tr', mc', out) \<Longrightarrow>
   tr_root tr' = tr_root tr \<and> tr_root_rc tr' = tr_root_rc tr \<and> (\<forall>rc. out = Finished rc \<longrightarrow> rc = 126)"
  unfolding process_stopped_def Let_def
  by (auto split: if_splits prod.splits dest!: dispatch_root dest: resume_finished)

lemma process_gone_root:
  "process_gone pid rc tr = (tr', out) \<Longrightarrow>
   tr_root tr' = tr_root tr \<and> (tr_root_rc tr' = tr_root_rc tr \<or> (pid = tr_root tr \<and> tr_root_rc tr' = rc)) \<and>
   (\<forall>c. out = Finished c \<longrightarrow> c = tr_root_rc tr')"
  by (auto simp: process_gone_def Let_def split: prod.splits if_splits)

lemma wait_step_root:
  assumes "wait_step env ev tr = (tr', out)"
  shows "tr_root tr' = tr_root tr \<and> (tr_root_rc tr' = tr_root_rc tr \<or> root_status {ev} (tr_root tr) (tr_root_rc tr')) \<and>
    (\<forall>c. out = Finished c \<longrightarrow> c = 126 \<or> c = tr_root_rc tr')"
proof (cases ev)
  case (WaitStop sp)
  obtain mc where t: "trace_stop env sp tr = (tr', mc, out)"
    using assms WaitStop by (auto simp: wait_step_def split: prod.splits)
  obtain r ts where a: "add_tracee (tr_tracees tr) (sp_pid sp) = (r, ts)" by fastforce
  show ?thesis
  proof (cases r)
    case None
    then show ?thesis using t a by (auto simp: trace_stop_def)
  next
    case (Some i)
    show ?thesis
      using t WaitStop
      by (auto simp: trace_stop_def a Some Let_def root_status_def split: wait_status.splits prod.splits
          dest!: process_gone_root process_stopped_root)
  qed
qed (use assms in \<open>auto simp: wait_step_def Let_def split: if_splits prod.splits\<close>)

lemma root_status_mono: "root_status A p c \<Longrightarrow> A \<subseteq> B \<Longrightarrow> root_status B p c"
  by (auto simp: root_status_def)

lemma trace_loop_root:
  "trace_loop env evs tr = (tr', Some rc) \<Longrightarrow>
   rc = 126 \<or> rc = tr_root_rc tr \<or> root_status (set evs) (tr_root tr) rc"
proof (induction evs arbitrary: tr)
  case (Cons ev evs)
  obtain tr1 out where s: "wait_step env ev tr = (tr1, out)" by fastforce
  note root = wait_step_root [OF s]
  show ?case
  proof (cases "\<exists>c. out = Finished c")
    case True
    then show ?thesis using Cons.prems root root_status_mono [of "{ev}"] by (auto simp: s)
  next
    case False
    then have "trace_loop env evs tr1 = (tr', Some rc)" using Cons.prems by (cases out) (auto simp: s)
    from Cons.IH [OF this] root show ?thesis
      using root_status_mono [of "{ev}" _ rc "set (ev # evs)"] root_status_mono [of "set evs" _ rc "set (ev # evs)"] by auto
  qed
qed simp

text \<open>C30. When the loop returns, its code is the exit code of the command, or 128 plus the signal that
  ended it; every other end of the loop returns 126.\<close>

theorem loop_returns_root_status:
  assumes "trace_start sa pc fs ct = Inr tr0" "trace_loop env evs tr0 = (tr, Some rc)" "rc \<noteq> 126"
  shows "\<exists>sp. WaitStop sp \<in> set evs \<and> sa_child sa = Some (sp_pid sp) \<and>
    (sp_status sp = Exited rc \<or> (\<exists>sig. sp_status sp = Signaled sig \<and> rc = 128 + sig))"
proof -
  have "sa_child sa = Some (tr_root tr0) \<and> tr_root_rc tr0 = 126"
    using assms(1) by (auto simp: trace_start_def Let_def split: option.splits wait_status.splits if_splits prod.splits)
  then show ?thesis using trace_loop_root [OF assms(2)] assms(3) by (auto simp: root_status_def)
qed

theorem loop_returns_root_status_witness:
  "\<exists>tr (sp :: stop). trace_loop (run_env False) [WaitStop (run_stop (Exited 3) 0 0 run_vmem)] run_tracer = (tr, Some 3) \<and>
     sa_child run_start = Some (sp_pid sp) \<and> (sp_status sp = Exited 3 \<or> (\<exists>sig. sp_status sp = Signaled sig \<and> 3 = 128 + sig))"
proof -
  obtain tr where t: "trace_loop (run_env False) [WaitStop (run_stop (Exited 3) 0 0 run_vmem)] run_tracer = (tr, Some 3)"
    using run_exit by blast
  have "(3 :: int) \<noteq> 126" by simp
  from loop_returns_root_status [OF run_started t this] t show ?thesis by blast
qed

section \<open>One call\<close>

text \<open>The state of a process at the entry of a call.\<close>

definition called :: "tracee \<Rightarrow> regs \<Rightarrow> tracee" where
  "called st r = st\<lparr>ts_last_nr := sint (rg r 8), ts_last_args := (\<lambda>i. if i < 6 then rg r i else ts_last_args st i)\<rparr>"

definition plain_call :: "int \<Rightarrow> bool" where
  "plain_call nr \<longleftrightarrow> nr \<notin> set [17, 33, 35, 36, 37, 38, 48, 57, 78, 276, 425, 426, 427, 439] \<and> \<not> is_memory_trace_syscall nr"

lemma called_sel [simp]:
  "ts_last_nr (called st r) = sint (rg r 8)" "ts_in_syscall (called st r) = ts_in_syscall st"
  "ts_emulated_nr (called st r) = ts_emulated_nr st" "ts_guest_cwd (called st r) = ts_guest_cwd st"
  "ts_pending_invalidation (called st r) = ts_pending_invalidation st"
  "ts_pending_guest_cwd (called st r) = ts_pending_guest_cwd st"
  "ts_last_emulated_nr (called st r) = ts_last_emulated_nr st"
  by (simp_all add: called_def)

lemma counters_same: "ct\<lparr>ct_memory := ct_memory ct\<rparr> = ct"
  by simp

lemma entry_plain:
  assumes "plain_call (sint (rg r 8))"
  shows "handle_syscall_entry env ho mi st r mc ct =
    (let (c, st', r', mc') = entry_rewrite env ho (called st r) r mc
     in (c, st', r', mc', record_syscall_stat env (sint (rg r 8)) ct))"
proof -
  let ?nr = "sint (rg r 8)" and ?st = "called st r"
  have n: "\<not> path_syscall_invalidates_cache ?nr" "?nr \<noteq> 222" "\<not> is_memory_trace_syscall ?nr"
    and em: "emulated_answer env ho ?st r mc = (None, mc)"
    using assms by (auto simp: plain_call_def path_syscall_invalidates_cache_def is_memory_trace_syscall_def emulated_answer_def Let_def)
  let ?ct = "record_syscall_stat env ?nr ct"
  have b: "entry_begin env ho st r mc ct = (?st, r, mc, ?ct)"
    using n by (simp add: entry_begin_def Let_def called_def)
  have "maybe_guard_memory_syscall cfg mi ho ?st r mc ms = (False, ?st, r, mc, ms)" for cfg ms
    using n by (simp add: maybe_guard_memory_syscall_def)
  then have e: "entry_emulate env ho mi ?st r mc ?ct = (False, False, ?st, r, mc, ?ct)"
    by (simp add: entry_emulate_def em Let_def)
  show ?thesis using n by (simp add: handle_syscall_entry_def b e case_prod_unfold Let_def)
qed

text \<open>C31. A call that is none of these passes its entry untouched: the calls with path arguments, the
  emulated credential calls, the suppressed calls, the memory calls the guard looks at, \<open>getcwd\<close>, \<open>close\<close>
  and \<open>io_uring\<close>, each given by its number. Registers, memory, pending call number, caches and host files
  are what they were, and of the process only the record of the call changes.\<close>

theorem other_calls_pass_untouched:
  assumes "sint (rg r 8) \<notin> set
     [5, 6, 8, 9, 11, 12, 14, 15, 17, 33, 34, 35, 36, 37, 38, 43, 48, 49, 53, 54, 55, 56, 57, 78, 79, 88, 99,
      143, 144, 145, 146, 147, 148, 149, 150, 151, 152, 159, 174, 175, 176, 177, 200, 203, 214, 215, 216, 221, 222, 226,
      233, 235, 236, 237, 238, 239, 276, 281, 291, 293, 425, 426, 427, 437, 439, 450]"
  shows "handle_syscall_entry env ho mi st r mc ct =
    (False, called st r, r, mc, record_syscall_stat env (sint (rg r 8)) ct)"
proof -
  let ?nr = "sint (rg r 8)"
  have no: "\<not> entry_interposes ?nr" "\<not> is_memory_trace_syscall ?nr"
    using assms by (simp_all add: interposed_list is_memory_trace_syscall_def)
  then have "plain_call ?nr" by (auto simp: entry_interposes_def plain_call_def path_action_of_def)
  moreover have "entry_rewrite env ho (called st r) r mc = (False, called st r, r, mc)"
    using no(1) by (simp add: entry_interposes_def entry_rewrite_def rewrite_syscall_paths_def syscall_remap_number_def Let_def)
  ultimately show ?thesis by (simp add: entry_plain)
qed

theorem other_calls_pass_untouched_witness:
  "handle_syscall_entry (run_env True) demo_host None (fresh_tracee 7) (run_regs 63 0) demo_machine run_counters =
     (False, called (fresh_tracee 7) (run_regs 63 0), run_regs 63 0, demo_machine,
      record_syscall_stat (run_env True) (sint (rg (run_regs 63 0) 8)) run_counters)"
  by (rule other_calls_pass_untouched) simp

lemma emulate_success_plain:
  assumes "syscall_emulate_success nr"
  shows "plain_call nr \<and> syscall_emulate_errno nr = None \<and> 0 \<le> nr \<and> nr \<noteq> 49 \<and> \<not> is_memory_trace_syscall nr"
proof -
  have "list_all (\<lambda>n. plain_call n \<and> syscall_emulate_errno n = None \<and> 0 \<le> n \<and> n \<noteq> 49 \<and> \<not> is_memory_trace_syscall n)
      [99, 174, 175, 176, 177, 54, 55, 143, 144, 145, 146, 147, 148, 149, 150, 151, 152, 159, 293]"
    by (simp add: plain_call_def is_memory_trace_syscall_def syscall_emulate_errno_def)
  with assms show ?thesis unfolding syscall_emulate_success_def list_all_iff by blast
qed

text \<open>C32. An emulated credential call is skipped at its entry with its result in the register, and
  its exit stop writes the same result again and leaves the process ready for the next call.\<close>

theorem emulated_call_completes:
  assumes nr: "syscall_emulate_success (sint (rg (sp_regs sp) 8))" "path_action_of (sint (rg (sp_regs sp) 8)) = NoPath"
    and stop: "sp_getregs_ok sp" "ptrace_ok (sp_host sp)" "\<not> ts_in_syscall st" "\<not> ts_pending_invalidation st"
    and result: "prepare_emulated_result (mc_mem mc) (called st (sp_regs sp)) (sint (rg (sp_regs sp) 8)) = (v, st2, m2)"
    and entry: "syscall_stop env sp st mc ct = (st', mc', ct')"
    and exit: "sp_getregs_ok sp2" "ptrace_ok (sp_host sp2)" "syscall_stop env sp2 st' mc2 ct2 = (st3, mc3, ct3)"
  shows "mc_nr mc' = - 1 \<and> rg (mc_regs mc') 0 = v \<and> mc_mem mc' = m2 \<and> ts_in_syscall st' \<and>
    rg (mc_regs mc3) 0 = v \<and> \<not> ts_in_syscall st3 \<and> ts_emulated_nr st3 = - 1"
proof -
  let ?r = "sp_regs sp" and ?ho = "sp_host sp"
  let ?nr = "sint (rg ?r 8)" and ?st = "called st ?r"
  have plain: "plain_call ?nr" and noerr: "syscall_emulate_errno ?nr = None" and pos: "0 \<le> ?nr"
    and n: "?nr \<noteq> 49" "\<not> is_memory_trace_syscall ?nr"
    using emulate_success_plain [OF nr(1)] by blast+
  obtain r1 mc1 where c: "complete_emulated_syscall ?ho ?r v (mc\<lparr>mc_mem := m2\<rparr>) = (True, r1, mc1)"
    "rg r1 0 = v" "mc1 = mc\<lparr>mc_mem := m2, mc_nr := - 1, mc_regs := r1\<rparr>"
    using complete_ok [OF stop(2), of ?r v "mc\<lparr>mc_mem := m2\<rparr>"] by auto
  have same: "same_slot ?st st2" using prepare_same_slot [of ?st "mc_mem mc" ?nr] by (simp add: result)
  then have st2: "ts_last_nr st2 = ?nr" "ts_in_syscall st2 = False" "ts_pending_invalidation st2 = False"
    using stop(3,4) by (simp_all add: same_slot_def)
  let ?st' = "st2\<lparr>ts_emulated_result := v, ts_emulated_nr := ?nr\<rparr>"
  have rw: "entry_rewrite env ?ho ?st ?r mc = (True, ?st', r1, mc1)"
    using nr noerr by (simp add: entry_rewrite_def rewrite_syscall_paths_def syscall_remap_number_def Let_def result
        answer_call_def c(1) st2(1))
  have "entry_or_exit env sp st mc ct = (True, ?st', mc1, record_syscall_stat env ?nr ct)"
    using stop(3) by (simp add: entry_or_exit_def entry_plain [OF plain] rw)
  then have st': "st' = ?st'\<lparr>ts_in_syscall := True\<rparr>" "mc' = mc1"
    using entry stop(1) st2 by (simp_all add: syscall_stop_def finish_pending_def)
  have "st3 = st'\<lparr>ts_last_emulated_nr := ?nr, ts_emulated_nr := - 1, ts_in_syscall := False\<rparr>"
    and "mc_regs mc3 = set_rg 0 v (sp_regs sp2)"
    using exit pos st2 unfolding st'
    by (auto simp: syscall_stop_def entry_or_exit_def syscall_exit_def Let_def finish_pending_def set_regs_def
        ptrace_ok_def)
  then show ?thesis using c st' by simp
qed

theorem emulated_call_completes_witness:
  "\<exists>st' mc' ct' st3 mc3 ct3.
     syscall_stop (run_env False) (run_stop (Stopped 133 0) 174 5 demo_vmem) (fresh_tracee 7) demo_machine run_counters = (st', mc', ct') \<and>
     syscall_stop (run_env False) (run_stop (Stopped 133 0) 174 5 demo_vmem) st' demo_machine run_counters = (st3, mc3, ct3) \<and>
     mc_nr mc' = - 1 \<and> rg (mc_regs mc') 0 = 0 \<and> rg (mc_regs mc3) 0 = 0 \<and> ts_emulated_nr st3 = - 1"
proof -
  let ?sp = "run_stop (Stopped 133 0) 174 5 demo_vmem" and ?st = "fresh_tracee 7"
  obtain st' mc' ct' where a: "syscall_stop (run_env False) ?sp ?st demo_machine run_counters = (st', mc', ct')" by (rule prod_cases3)
  obtain st3 mc3 ct3 where b: "syscall_stop (run_env False) ?sp st' demo_machine run_counters = (st3, mc3, ct3)" by (rule prod_cases3)
  have p: "prepare_emulated_result (mc_mem demo_machine) (called ?st (sp_regs ?sp)) (sint (rg (sp_regs ?sp) 8)) =
      (0, called ?st (sp_regs ?sp), mc_mem demo_machine)"
    by (simp add: prepare_emulated_result_def called_def fresh_tracee_def tracee_zero_def)
  have h: "ptrace_ok demo_host" by (simp add: ptrace_ok_def demo_host_def)
  have "mc_nr mc' = - 1 \<and> rg (mc_regs mc') 0 = 0 \<and> mc_mem mc' = mc_mem demo_machine \<and> ts_in_syscall st' \<and>
      rg (mc_regs mc3) 0 = 0 \<and> \<not> ts_in_syscall st3 \<and> ts_emulated_nr st3 = - 1"
    by (rule emulated_call_completes [OF _ _ _ _ _ _ p a _ _ b])
      (simp_all add: h syscall_emulate_success_def path_action_of_def fresh_tracee_def tracee_zero_def)
  then show ?thesis using a b by blast
qed

end
