(* ===== verification/Call_Theorems.thy ===== *)
theory Call_Theorems
  imports Trace_Theorems
begin

text \<open>
  What single calls and stops do: the working directory from \<open>chdir\<close> to \<open>getcwd\<close>, the memory guard,
  the children of a process, and the signals that follow a denied call.
\<close>

section \<open>Working directories\<close>

lemma ngp_emit_bound: "length out < n \<Longrightarrow> out \<noteq> [] \<Longrightarrow> length (ngp_emit n f ts out) < n \<and> ngp_emit n f ts out \<noteq> []"
proof (induction n f ts out rule: ngp_emit.induct)
  case (2 out_len first t ts out)
  let ?o = "if first then out else out @ [slash]"
  show ?case
  proof (cases "length out + 1 < out_len")
    case True
    have "length (?o @ take (out_len - length ?o - 1) t) < out_len" using True by (auto simp: min_def)
    from "2.IH" [OF True refl this] "2.prems" True show ?thesis by (simp add: Let_def)
  qed (use "2.prems" in simp)
qed simp

lemma normalize_guest_bound:
  "normalize_guest_path base p PATH_MAX \<noteq> [] \<and> length (normalize_guest_path base p PATH_MAX) < PATH_MAX"
  using ngp_emit_bound [of "''/''" PATH_MAX True]
  by (auto simp: normalize_guest_path_def Let_def PATH_MAX_def)

lemma chdir_entry:
  assumes nr: "sint (rg r 8) = 49" and path: "read_tracee_string (mc_mem mc) (rg r 0) PATH_MAX = Some p"
    and h: "handle_syscall_entry env ho mi st r mc ct = (c, st', r', mc', ct')"
  shows "\<not> c \<and> st' = (called st r)\<lparr>ts_pending_guest_cwd := normalize_guest_path (ts_guest_cwd st) p PATH_MAX\<rparr>"
proof -
  have plain: "plain_call (sint (rg r 8))" by (simp add: nr plain_call_def is_memory_trace_syscall_def)
  let ?st = "(called st r)\<lparr>ts_pending_guest_cwd := normalize_guest_path (ts_guest_cwd st) p PATH_MAX\<rparr>"
  obtain rw r1 mc1 where w: "rewrite_path_arg (te_cfg env) ho 0 r mc = (rw, r1, mc1)" by (rule prod_cases3)
  have n: "syscall_emulate_errno 49 = None" "\<not> syscall_emulate_success 49" "syscall_remap_number 49 = 49"
    "path_action_of 49 = RewriteChdir"
    by (simp_all add: syscall_emulate_errno_def syscall_emulate_success_def syscall_remap_number_def path_action_of_def)
  have rw: "rewrite_syscall_paths env ho 49 (called st r) r mc = (rw, r1, mc1, ?st)"
    by (simp add: rewrite_syscall_paths_def n rewrite_chdir_arg_def path w)
  have "\<exists>mc2. entry_rewrite env ho (called st r) r mc = (False, ?st, r1, mc2)"
    by (simp add: entry_rewrite_def nr n rw Let_def)
  then show ?thesis using h unfolding entry_plain [OF plain] by auto
qed

lemma getcwd_reports:
  assumes "ts_guest_cwd st = cwd" "cwd \<noteq> []" "length cwd < PATH_MAX"
    and "rg r 0 \<noteq> 0" "length cwd < unat (rg r 1)" "accessible (mc_mem mc) (rg r 0) (length cwd + 1)"
  shows "\<exists>m. emulate_getcwd cfg ho st r mc = (Some (of_nat (length cwd + 1)), mc\<lparr>mc_mem := m\<rparr>) \<and>
    vm_read m (rg r 0) (length cwd + 1) = cwd @ [NUL]"
proof -
  have l: "length (cwd @ [NUL]) < 2 ^ 64" using assms(3) by (simp add: PATH_MAX_def)
  have acc: "accessible (mc_mem mc) (rg r 0) (length (cwd @ [NUL]))" using assms(6) by simp
  note w = tm.put_get [OF acc l]
  obtain ok m where wr: "write_tracee_data (mc_mem mc) (rg r 0) (cwd @ [NUL]) = (ok, m)" by fastforce
  have sz: "rg r 1 \<noteq> 0" "\<not> unat (rg r 1) < length cwd + 1" using assms(5) by auto
  have "emulate_getcwd cfg ho st r mc = (Some (of_nat (length cwd + 1)), mc\<lparr>mc_mem := m\<rparr>)"
    using assms(1,2,4) sz w by (simp add: emulate_getcwd_def Let_def put_result_def wr)
  moreover have "vm_read m (rg r 0) (length cwd + 1) = cwd @ [NUL]" using w by (simp add: wr del: vm_read.simps)
  ultimately show ?thesis by blast
qed

text \<open>C33. A successful \<open>chdir\<close> moves the recorded working directory to the normalised path, and a later
  \<open>getcwd\<close> of the process writes exactly this path, with its NUL, and returns its length.\<close>

theorem chdir_then_getcwd:
  assumes call: "sint (rg (sp_regs sp) 8) = 49" "sp_getregs_ok sp" "\<not> ts_in_syscall st" "\<not> ts_pending_invalidation st"
      "ts_emulated_nr st = - 1"
    and path: "read_tracee_string (mc_mem mc) (rg (sp_regs sp) 0) PATH_MAX = Some p"
    and entry: "syscall_stop env sp st mc ct = (st1, mc1, ct1)"
    and exit: "sp_getregs_ok sp2" "rg (sp_regs sp2) 0 = 0" "syscall_stop env sp2 st1 mc2 ct2 = (st2, mc3, ct3)"
    and cwd: "cwd = normalize_guest_path (ts_guest_cwd st) p PATH_MAX"
    and later: "rg r 0 \<noteq> 0" "length cwd < unat (rg r 1)" "accessible (mc_mem mc4) (rg r 0) (length cwd + 1)"
  shows "\<not> ts_in_syscall st2 \<and> ts_guest_cwd st2 = cwd \<and>
    (\<exists>m. emulate_getcwd cfg ho st2 r mc4 = (Some (of_nat (length cwd + 1)), mc4\<lparr>mc_mem := m\<rparr>) \<and>
         vm_read m (rg r 0) (length cwd + 1) = cwd @ [NUL])"
proof -
  have bound: "cwd \<noteq> []" "length cwd < PATH_MAX" using normalize_guest_bound [of "ts_guest_cwd st" p] cwd by simp_all
  obtain c s1 r1 m1 c1 where h: "handle_syscall_entry env (sp_host sp) (sp_meminfo sp) st (sp_regs sp) mc ct = (c, s1, r1, m1, c1)"
    by (rule prod_cases5)
  note e = chdir_entry [OF call(1) path h]
  have st1: "st1 = (called st (sp_regs sp))\<lparr>ts_pending_guest_cwd := cwd, ts_in_syscall := True\<rparr>"
    using entry call e cwd by (simp add: syscall_stop_def entry_or_exit_def h finish_pending_def)
  have cut: "take (PATH_MAX - 1) cwd = cwd" using bound by simp
  have "st2 = st1\<lparr>ts_guest_cwd := cwd, ts_pending_guest_cwd := [], ts_in_syscall := False\<rparr>"
    using exit call bound cut unfolding st1
    by (auto simp: syscall_stop_def entry_or_exit_def syscall_exit_def Let_def finish_pending_def)
  then have "ts_guest_cwd st2 = cwd" "\<not> ts_in_syscall st2" by simp_all
  with getcwd_reports [OF this(1) bound later] show ?thesis by blast
qed

theorem chdir_then_getcwd_witness:
  "\<exists>st1 mc1 ct1 st2 mc3 ct3 m.
     syscall_stop (run_env False) (run_stop (Stopped 133 0) 49 4096 demo_vmem) (fresh_tracee 7) demo_machine run_counters = (st1, mc1, ct1) \<and>
     syscall_stop (run_env False) (run_stop (Stopped 133 0) 49 0 demo_vmem) st1 demo_machine run_counters = (st2, mc3, ct3) \<and>
     ts_guest_cwd st2 = ''/x'' \<and>
     emulate_getcwd demo_tracer demo_host st2 (run_regs 17 4096) demo_machine = (Some 3, demo_machine\<lparr>mc_mem := m\<rparr>) \<and>
     vm_read m 4096 3 = ''/x'' @ [NUL]"
proof -
  let ?sp = "run_stop (Stopped 133 0) 49 4096 demo_vmem" and ?sp2 = "run_stop (Stopped 133 0) 49 0 demo_vmem"
  obtain st1 mc1 ct1 where a: "syscall_stop (run_env False) ?sp (fresh_tracee 7) demo_machine run_counters = (st1, mc1, ct1)" by (rule prod_cases3)
  obtain st2 mc3 ct3 where b: "syscall_stop (run_env False) ?sp2 st1 demo_machine run_counters = (st2, mc3, ct3)" by (rule prod_cases3)
  have n: "normalize_guest_path (ts_guest_cwd (fresh_tracee 7)) ''/x'' PATH_MAX = ''/x''"
    by (simp add: normalize_guest_path_def fresh_tracee_def components_def PATH_MAX_def)
  have rd: "read_tracee_string (mc_mem demo_machine) (rg (sp_regs ?sp) 0) PATH_MAX = Some ''/x''"
    using demo_read by (simp add: demo_regs_def)
  have acc: "accessible (mc_mem demo_machine) (rg (run_regs 17 4096) 0) (length ''/x'' + 1)"
    by (simp add: accessible_def demo_machine_def demo_vmem_def)
  have "\<not> ts_in_syscall st2 \<and> ts_guest_cwd st2 = ''/x'' \<and>
    (\<exists>m. emulate_getcwd demo_tracer demo_host st2 (run_regs 17 4096) demo_machine =
         (Some (of_nat (length ''/x'' + 1)), demo_machine\<lparr>mc_mem := m\<rparr>) \<and>
         vm_read m (rg (run_regs 17 4096) 0) (length ''/x'' + 1) = ''/x'' @ [NUL])"
    by (rule chdir_then_getcwd [OF _ _ _ _ _ rd a _ _ b n [symmetric] _ _ acc])
      (simp_all add: fresh_tracee_def tracee_zero_def)
  moreover have "length ''/x'' + 1 = 3" by simp
  moreover have "rg (run_regs 17 4096) 0 = 4096" by simp
  ultimately show ?thesis using a b by (simp only: of_nat_numeral) blast
qed

section \<open>Signals after a skipped call\<close>

text \<open>
  A call whose path is denied is skipped with the number -1 and a negative error number, but the
  process is not marked as answered: when the platform's own filter then raises SIGSYS for the
  number -1, the signal is passed on to the program, which a denied \<open>openat\<close> therefore kills.\<close>

theorem denied_call_gets_sigsys:
  assumes nr: "path_action_of (sint (rg r 8)) = RewriteAt d p" "plain_call (sint (rg r 8))"
      "\<not> syscall_emulate_success (sint (rg r 8))"
    and denied: "rewrite_at_path_arg (te_cfg env) ho (syscall_name (sint (rg r 8))) d p 8192 r mc = (RwCompleted, r1, mc1)"
      "mc_nr mc1 = - 1"
    and st: "ts_emulated_nr st = - 1" "ts_last_emulated_nr st = - 1"
    and signal: "sp_getregs_ok sp" "sint (rg (sp_regs sp) 8) = - 1"
  shows "\<exists>mc2. handle_syscall_entry env ho mi st r mc ct =
      (False, called st r, r1, mc2, record_syscall_stat env (sint (rg r 8)) ct) \<and> mc_nr mc2 = - 1 \<and>
    sigsys_stop env sp (called st r) mc3 = (called st r, mc3, continue_tracee env SIGSYS)"
proof -
  let ?nr = "sint (rg r 8)" and ?st = "called st r"
  have none: "syscall_emulate_errno ?nr = None" using nr(1) by (auto simp: path_action_of_def syscall_emulate_errno_def)
  have notdone: "\<not> syscall_completed_in_userland ?nr"
    using nr(2,3) none by (auto simp: plain_call_def syscall_completed_in_userland_def)
  have n: "syscall_emulate_errno (- 1) = None" "\<not> syscall_emulate_success (- 1)"
    by (simp_all add: syscall_emulate_errno_def syscall_emulate_success_def)
  have last: "ts_last_emulated_nr ?st = - 1" using st(2) by (simp add: called_def)
  have em: "sigsys_emulate env sp ?st mc3 = (False, ?st, sp_regs sp, mc3)"
    using signal(2) n by (simp add: sigsys_emulate_def sigsys_answer_def sigsys_value_def Let_def)
  have "sigsys_stop env sp ?st mc3 = (?st, mc3, continue_tracee env SIGSYS)"
    using st signal notdone last by (simp add: sigsys_stop_def em Let_def)
  moreover have "entry_rewrite env ho ?st r mc = (False, ?st, r1, snd (set_regs ho r1 mc1))"
    using nr(3) none by (simp add: entry_rewrite_def rewrite_syscall_paths_def nr(1) denied(1) syscall_remap_number_def Let_def)
  ultimately show ?thesis
    using denied(2) by (simp add: entry_plain [OF nr(2)] set_regs_def)
qed

definition deny_host :: host where
  "deny_host = demo_host\<lparr>ho_realpath := (\<lambda>_. Inl EACCES)\<rparr>"

theorem denied_call_gets_sigsys_witness:
  "\<exists>r1 mc2 ct. handle_syscall_entry (run_env False) deny_host None (fresh_tracee 7) (run_regs 56 4096) demo_machine run_counters =
      (False, called (fresh_tracee 7) (run_regs 56 4096), r1, mc2, ct) \<and> mc_nr mc2 = - 1 \<and>
    sigsys_stop (run_env False) (run_stop (Stopped 31 0) (- 1) 0 demo_vmem) (called (fresh_tracee 7) (run_regs 56 4096)) demo_machine =
      (called (fresh_tracee 7) (run_regs 56 4096), demo_machine, PtraceSyscall SIGSYS)"
proof -
  let ?r = "run_regs 56 4096" and ?sp = "run_stop (Stopped 31 0) (- 1) 0 demo_vmem"
  have nr: "sint (rg ?r 8) = 56" by simp
  have rd: "read_tracee_string (mc_mem demo_machine) (rg ?r 1) PATH_MAX = Some ''/x''"
    using demo_read by (simp add: demo_regs_def)
  have v: "validate_path demo_tracer deny_host (path_cache_init True) ''/r/x'' True = (Some EACCES, pc)
      \<Longrightarrow> \<exists>r1 mc1. rewrite_at_path_arg demo_tracer deny_host ''openat'' 0 1 8192 ?r demo_machine = (RwCompleted, r1, mc1) \<and> mc_nr mc1 = - 1" for pc
  proof -
    assume v: "validate_path demo_tracer deny_host (path_cache_init True) ''/r/x'' True = (Some EACCES, pc)"
    let ?mc = "demo_machine\<lparr>mc_cache := pc\<rparr>"
    have p: "ptrace_ok deny_host" by (simp add: ptrace_ok_def deny_host_def demo_host_def)
    obtain rw r1 mc1 where d: "deny_path_syscall deny_host EACCES ?r ?mc = (rw, r1, mc1)" by (rule prod_cases3)
    have "rw = RwCompleted" using deny_ok [OF p, of EACCES ?r ?mc] by (simp add: d)
    moreover have "rewrite_at_path_arg demo_tracer deny_host ''openat'' 0 1 8192 ?r demo_machine = (rw, r1, mc1)"
      using v rd d demo_resolve [of deny_host]
      by (simp add: rewrite_at_path_arg_def path_context_follows_final_component_def demo_machine_def del: run_sel)
    ultimately show ?thesis using deny_completed(2) [OF d] by simp
  qed
  have "\<exists>pc. validate_path demo_tracer deny_host (path_cache_init True) ''/r/x'' True = (Some EACCES, pc)"
  proof -
    have norm: "normalize_absolute_path_lexical ''/r/x'' PATH_MAX = Inr ''/r/x''"
      using normalize_total [of "''/r/x''" PATH_MAX]
      by (simp add: PATH_MAX_def resolve_dots_def dot_step_def components_def render_def)
    have cold: "path_validation_cache_get (path_cache_init True) ''/r/x'' True = None"
      "realpath_cache_get (path_cache_init True) ''/r/x'' = None"
      by (simp_all add: path_validation_cache_get_def realpath_cache_get_def path_cache_init_def validation_zero_def realpath_zero_def)
    show ?thesis
      by (simp add: validate_host_path_under_allowed_def norm cold cached_realpath_def deny_host_def missing_def demo_tracer_def
          host_path_is_under_allowed_host_path_def host_path_is_under_prefix_def)
  qed
  then obtain r1 mc1 where d: "rewrite_at_path_arg demo_tracer deny_host ''openat'' 0 1 8192 ?r demo_machine = (RwCompleted, r1, mc1)"
    "mc_nr mc1 = - 1" using v by blast
  have c: "te_cfg (run_env False) = demo_tracer" "syscall_name 56 = ''openat''"
    by (simp_all add: run_env_def syscall_name_def syscall_names_def)
  show ?thesis
    using denied_call_gets_sigsys [of ?r 0 1 "run_env False" deny_host demo_machine r1 mc1 "fresh_tracee 7" ?sp None run_counters demo_machine]
    unfolding nr c using d
    by (simp add: path_action_of_def plain_call_def is_memory_trace_syscall_def syscall_emulate_success_def fresh_tracee_def
        tracee_zero_def continue_tracee_def run_env_def) blast
qed

section \<open>Children\<close>

lemma first_slot_free: "tracee_count ts < length ts \<Longrightarrow> \<exists>i. first_slot (\<lambda>t. \<not> ts_active t) ts = Some i"
proof (rule ccontr)
  assume c: "tracee_count ts < length ts" and "\<not> (\<exists>i. first_slot (\<lambda>t. \<not> ts_active t) ts = Some i)"
  then have "\<forall>t \<in> set ts. ts_active t" using first_slot_None [of "\<lambda>t. \<not> ts_active t" ts] by auto
  then have "filter ts_active ts = ts" by simp
  with c show False by (simp add: tracee_count_def)
qed

text \<open>
  A fork, vfork or clone event enters the new process with the credentials, the program path and
  the working directory of its parent, outside of any call, and leaves every other entry alone.
  The managed regions of the parent are not among what it inherits.\<close>

theorem child_starts_like_parent:
  assumes ok: "table_ok ts" and i: "i < length ts" "ts_active (ts ! i)"
    and event: "sp_event_pid sp = Some new" "0 < new" "table_map ts new = None"
    and room: "tracee_count ts < MAX_TRACEES"
    and paths: "ts_guest_cwd (ts ! i) \<noteq> []" "length (ts_guest_cwd (ts ! i)) < PATH_MAX"
      "length (ts_exec_guest_path (ts ! i)) < PATH_MAX"
  shows "table_map (fork_stop sp i ts) = (table_map ts)(new \<mapsto>
    (fresh_tracee new)\<lparr>ts_uid := ts_uid (ts ! i), ts_euid := ts_euid (ts ! i), ts_suid := ts_suid (ts ! i),
       ts_gid := ts_gid (ts ! i), ts_egid := ts_egid (ts ! i), ts_sgid := ts_sgid (ts ! i),
       ts_exec_guest_path := ts_exec_guest_path (ts ! i), ts_guest_cwd := ts_guest_cwd (ts ! i)\<rparr>)"
proof -
  have inv: "table_inv ts" and len: "length ts = MAX_TRACEES" using ok by (simp_all add: table_ok_def)
  have nf: "find_tracee ts new = None" using event(3) by (simp add: table_map_def)
  obtain j where j: "first_slot (\<lambda>t. \<not> ts_active t) ts = Some j" using first_slot_free room len by metis
  note fs = first_slot_Some [OF j]
  have ad: "add_tracee ts new = (Some j, ts[j := fresh_tracee new])" by (simp add: add_tracee_def nf j)
  have ij: "i \<noteq> j" using i fs by blast
  let ?child = "inherit (ts ! i) (fresh_tracee new)"
  have f: "fork_stop sp i ts = ts[j := ?child]"
    using event(1,2) ij fs by (simp add: fork_stop_def ad)
  have ok': "table_inv (ts[j := ?child])"
    using fork_stop_ok [OF ok, of sp i] by (simp add: f table_ok_def)
  have c: "?child = (fresh_tracee new)\<lparr>ts_uid := ts_uid (ts ! i), ts_euid := ts_euid (ts ! i), ts_suid := ts_suid (ts ! i),
       ts_gid := ts_gid (ts ! i), ts_egid := ts_egid (ts ! i), ts_sgid := ts_sgid (ts ! i),
       ts_exec_guest_path := ts_exec_guest_path (ts ! i), ts_guest_cwd := ts_guest_cwd (ts ! i)\<rparr>"
    using paths by (simp add: inherit_def)
  have act: "ts_active ?child" "ts_pid ?child = new" by (simp_all add: inherit_same)
  show ?thesis
    unfolding f c [symmetric]
  proof (rule opt_map_eqI)
    fix k v
    have "(\<exists>l < length (ts[j := ?child]). ts[j := ?child] ! l = v \<and> ts_active v \<and> ts_pid v = k) \<longleftrightarrow>
        (if k = new then v = ?child else \<exists>l < length ts. ts ! l = v \<and> ts_active v \<and> ts_pid v = k)"
      using fs act event(3) by (auto simp: nth_list_update table_map_None)
    then show "table_map (ts[j := ?child]) k = Some v \<longleftrightarrow> ((table_map ts)(new \<mapsto> ?child)) k = Some v"
      using table_map_Some [OF ok'] table_map_Some [OF inv] by auto
  qed
qed

theorem child_starts_like_parent_witness:
  "\<exists>child. table_map (fork_stop ((run_stop (Stopped 5 1) 0 0 run_vmem)\<lparr>sp_event_pid := Some 9\<rparr>) 0 (tr_tracees run_tracer)) =
      (table_map (tr_tracees run_tracer))(9 \<mapsto> child) \<and> ts_guest_cwd child = ''/'' \<and> ts_pid child = 9"
proof -
  let ?sp = "(run_stop (Stopped 5 1) 0 0 run_vmem)\<lparr>sp_event_pid := Some 9\<rparr>" and ?ts = "tr_tracees run_tracer"
  have ok: "table_ok ?ts" using trace_start_inv [OF run_started] by (simp add: loop_inv_def)
  have at0: "?ts ! 0 = fresh_tracee 7" by (simp add: run_tracer_def)
  have i: "0 < length ?ts" "ts_active (?ts ! 0)" by (simp_all add: run_tracer_def)
  have new: "table_map ?ts 9 = None" "tracee_count ?ts < MAX_TRACEES"
    by (simp_all add: run_tracer_def table_map_def find_tracee_def no_other tracee_count_def MAX_TRACEES_def del: replicate.simps)
  have paths: "ts_guest_cwd (?ts ! 0) \<noteq> []" "length (ts_guest_cwd (?ts ! 0)) < PATH_MAX" "length (ts_exec_guest_path (?ts ! 0)) < PATH_MAX"
    unfolding at0 by (simp_all add: fresh_tracee_def tracee_zero_def PATH_MAX_def)
  have ev: "sp_event_pid ?sp = Some 9" "(0 :: int) < 9" by simp_all
  note c = child_starts_like_parent [OF ok i ev new paths]
  show ?thesis by (rule exI, rule conjI [OF c]) (simp add: at0 fresh_tracee_def tracee_zero_def)
qed

section \<open>The memory guard\<close>

lemma guard_none:
  assumes "mg_guard cfg" "mg_min_request cfg \<le> requested" "requested \<noteq> 0" "read_meminfo_bytes mi = Some (avail, swap)"
  shows "memory_guard_would_deny cfg mi requested = None \<longleftrightarrow>
    mg_min_available cfg \<le> avail \<and> mg_min_swap cfg \<le> swap \<and> requested + mg_min_available cfg \<le> avail"
  using assms by (auto simp: memory_guard_would_deny_def not_less word_neq_0_conv)

text \<open>
  A request that the memory guard admits leaves the configured reserve of available memory,
  provided that request and reserve together stay below \<open>2 ^ 64\<close>.\<close>

theorem guard_keeps_reserve:
  assumes "mg_guard cfg" "mg_min_request cfg \<le> requested" "requested \<noteq> 0" "read_meminfo_bytes mi = Some (avail, swap)"
    and "memory_guard_would_deny cfg mi requested = None"
    and "unat requested + unat (mg_min_available cfg) < 2 ^ 64"
  shows "unat requested + unat (mg_min_available cfg) \<le> unat avail \<and> unat (mg_min_swap cfg) \<le> unat swap"
proof -
  have "requested + mg_min_available cfg \<le> avail" "mg_min_swap cfg \<le> swap"
    using assms(5) guard_none [OF assms(1-4)] by simp_all
  moreover have "unat (requested + mg_min_available cfg) = unat requested + unat (mg_min_available cfg)"
    using assms(6) by (simp add: unat_word_ariths(1))
  ultimately show ?thesis by (simp add: word_le_nat_alt)
qed

lemma fgets_line:
  "CHR 0x0A \<notin> set l \<Longrightarrow> length l + 2 \<le> n \<Longrightarrow> fgets n (l @ [CHR 0x0A] @ rest) = (l @ [CHR 0x0A], rest)"
proof (induction l arbitrary: n)
  case Nil
  then obtain k where "n = Suc (Suc k)" by (metis add_2_eq_Suc le_Suc_ex list.size(3) plus_nat.add_0)
  then show ?case by simp
next
  case (Cons c l)
  then obtain k where n: "n = Suc (Suc k)" by (metis add_2_eq_Suc' le_Suc_ex add_Suc_right add_Suc)
  then have "fgets (Suc k) (l @ [CHR 0x0A] @ rest) = (l @ [CHR 0x0A], rest)" using Cons by simp
  then show ?case using Cons.prems n by auto
qed

text \<open>Eight kilobytes of available memory.\<close>

definition meminfo_text :: string where
  "meminfo_text = ''MemAvailable:   8 kB'' @ [CHR 0x0A]"

lemma meminfo_bytes: "read_meminfo_bytes (Some meminfo_text) = Some (8192, 0)"
proof -
  have "fgets 192 meminfo_text = (meminfo_text, [])"
    using fgets_line [of "''MemAvailable:   8 kB''" 192 "[]"] by (simp add: meminfo_text_def)
  then have "meminfo_lines meminfo_text = [meminfo_text]"
    using meminfo_lines.simps(2) [of "CHR ''M''" "tl meminfo_text"] by (simp add: meminfo_text_def)
  moreover have "c_text meminfo_text = meminfo_text" by (simp add: meminfo_text_def c_text_def)
  ultimately show ?thesis
    by (simp add: read_meminfo_bytes_def Let_def scan_field_def scan_llu_def meminfo_text_def is_space_def is_digit_def digits_value_def)
qed

definition guard_cfg :: memory_cfg where
  "guard_cfg = \<lparr>mg_trace = True, mg_guard = True, mg_threshold = 0, mg_min_request = 1, mg_min_available = 4096, mg_min_swap = 0\<rparr>"

theorem guard_keeps_reserve_witness:
  "memory_guard_would_deny guard_cfg (Some meminfo_text) 2048 = None \<and>
   unat (2048 :: u64) + unat (mg_min_available guard_cfg) \<le> unat (8192 :: u64) \<and> unat (mg_min_swap guard_cfg) \<le> unat (0 :: u64)"
proof -
  have n: "memory_guard_would_deny guard_cfg (Some meminfo_text) 2048 = None"
    by (simp add: memory_guard_would_deny_def meminfo_bytes guard_cfg_def)
  have "unat (2048 :: u64) + unat (mg_min_available guard_cfg) \<le> unat (8192 :: u64) \<and> unat (mg_min_swap guard_cfg) \<le> unat (0 :: u64)"
    by (rule guard_keeps_reserve [OF _ _ _ meminfo_bytes n]) (simp_all add: guard_cfg_def)
  with n show ?thesis by simp
qed

text \<open>
  Without that bound the sum wraps: a request of nearly \<open>2 ^ 64\<close> bytes passes the guard although
  nothing like it is available.\<close>

theorem guard_admits_wrapping_request:
  assumes "mg_min_available cfg \<le> avail" "mg_min_swap cfg \<le> swap" "read_meminfo_bytes mi = Some (avail, swap)"
    and "requested \<noteq> 0" "2 ^ 64 \<le> unat requested + unat (mg_min_available cfg)"
  shows "memory_guard_would_deny cfg mi requested = None"
proof -
  have lt: "unat requested < 2 ^ 64" "unat (mg_min_available cfg) < 2 ^ 64"
    using unsigned_less [of requested] unsigned_less [of "mg_min_available cfg"] by simp_all
  have "unat (requested + mg_min_available cfg) = unat requested + unat (mg_min_available cfg) - 2 ^ 64"
    using assms(5) lt by (simp add: unat_word_ariths(1) le_mod_geq)
  then have "unat (requested + mg_min_available cfg) \<le> unat (mg_min_available cfg)" using lt by simp
  then have "requested + mg_min_available cfg \<le> avail"
    using assms(1) by (simp add: word_le_nat_alt)
  then show ?thesis using assms(1-4) by (simp add: memory_guard_would_deny_def not_less [symmetric])
qed

theorem guard_admits_wrapping_request_witness:
  "memory_guard_would_deny guard_cfg (Some meminfo_text) 0xfffffffffffff000 = None"
  by (rule guard_admits_wrapping_request [OF _ _ meminfo_bytes]) (simp_all add: guard_cfg_def)

text \<open>C34. A denied allocation never reaches the kernel: \<open>mmap\<close> and \<open>mremap\<close> get \<open>ENOMEM\<close>, \<open>brk\<close> gets the
  old break, and the call is skipped and counted.\<close>

theorem guard_denial_skips_call:
  assumes deny: "memory_guard_would_deny (te_memory env) mi (memory_request_bytes nr (ts_last_args (called st r)) (ts_last_brk st)) = Some (avail, swap)"
    and nr: "nr = sint (rg r 8)" "nr \<in> {214, 216, 222}"
      "memory_request_bytes nr (ts_last_args (called st r)) (ts_last_brk st) \<noteq> 0"
    and host: "ptrace_ok ho" "\<not> pg_enabled (te_pager env)" "mg_guard (te_memory env)" "ts_managed_pending_len st = 0"
    and h: "handle_syscall_entry env ho mi st r mc ct = (c, st', r', mc', ct')"
  shows "c \<and> mc_nr mc' = - 1 \<and> ts_emulated_nr st' = nr \<and>
    rg (mc_regs mc') 0 = (if nr = 214 \<and> ts_last_brk st \<noteq> 0 then ts_last_brk st else neg_errno ENOMEM) \<and>
    ts_emulated_result st' = rg (mc_regs mc') 0 \<and>
    mt_denied (ct_memory ct') = mt_denied (ct_memory ct) + 1"
proof -
  let ?st = "called st r"
  define res where "res = (if nr = 214 \<and> ts_last_brk st \<noteq> 0 then ts_last_brk st else neg_errno ENOMEM)"
  have mem: "is_memory_trace_syscall nr" and nm: "\<not> path_syscall_invalidates_cache nr"
    using nr(2) by (auto simp: is_memory_trace_syscall_def path_syscall_invalidates_cache_def)
  have pl: "ts_managed_pending_len ?st = 0" "ts_last_brk ?st = ts_last_brk st" using host(4) by (simp_all add: called_def)
  have z: "?st\<lparr>ts_managed_pending_len := 0\<rparr> = ?st" using pl(1) by simp
  define ct0 where "ct0 = record_syscall_stat env nr ct"
  obtain ad where prep: "maybe_prepare_managed_mmap (te_pager env) ho ?st r mc (ct_admission ct0) = (True, ?st, r, mc, ad)"
    using host(2) z by (simp add: maybe_prepare_managed_mmap_def managed_trace_is_candidate_mmap_def)
  define ct1 where "ct1 = (if nr = 222 then ct0\<lparr>ct_admission := ad\<rparr> else ct0)"
  have "entry_begin env ho st r mc ct = (if nr = 222 then (?st, r, mc, ct0\<lparr>ct_admission := ad\<rparr>) else (?st, r, mc, ct0))"
    unfolding entry_begin_def Let_def nr(1) [symmetric] if_not_P [OF nm] ct0_def [symmetric] prep [unfolded called_def nr(1) [symmetric]] prod.case
    by (simp only: called_def nr(1) [symmetric])
  then have b: "entry_begin env ho st r mc ct = (?st, r, mc, ct1)" by (simp add: ct1_def)
  have b2: "ct_memory ct1 = ct_memory ct" by (simp add: ct1_def ct0_def record_syscall_stat_def)
  have last: "ts_last_nr ?st = nr" using nr(1) by simp
  have res': "res = (if ts_last_nr ?st = 214 \<and> ts_last_brk ?st \<noteq> 0 then ts_last_brk ?st else neg_errno ENOMEM)"
    by (simp add: res_def last pl(2) del: called_sel(1))
  obtain r1 where k: "complete_emulated_syscall ho r res mc = (True, r1, mc\<lparr>mc_nr := - 1, mc_regs := r1\<rparr>)" "rg r1 0 = res"
    using complete_ok [OF host(1), of r res mc] by auto
  define ms where "ms = (ct_memory ct1)\<lparr>mt_denied := mt_denied (ct_memory ct1) + 1,
         mt_last_denied_bytes := memory_request_bytes nr (ts_last_args ?st) (ts_last_brk st),
         mt_last_available := avail, mt_last_swap_free := swap, mt_last_denied_nr := nr,
         mt_last_denied_errno := errno_code ENOMEM, mt_last_denied_syscall := take 31 (syscall_name nr)\<rparr>"
  let ?st1 = "?st\<lparr>ts_emulated_result := res, ts_emulated_nr := nr\<rparr>" and ?mc1 = "mc\<lparr>mc_nr := - 1, mc_regs := r1\<rparr>"
  have g: "maybe_guard_memory_syscall (te_memory env) mi ho ?st r mc (ct_memory ct1) = (True, ?st1, r1, ?mc1, ms)"
    using deny nr(3) mem host(3) k(1)
    unfolding maybe_guard_memory_syscall_def Let_def res' [symmetric] ms_def
    by (simp add: last pl(2) del: called_sel(1))
  have e: "entry_emulate env ho mi ?st r mc ct1 = (True, True, ?st1, r1, ?mc1, ct1\<lparr>ct_memory := ms\<rparr>)"
    by (simp add: entry_emulate_def pl(1) g Let_def)
  have "handle_syscall_entry env ho mi st r mc ct = (True, ?st1, r1, ?mc1, ct1\<lparr>ct_memory := ms\<rparr>)"
    using nm last by (simp add: handle_syscall_entry_def b e del: called_sel(1))
  with h have "c" "st' = ?st1" "mc' = ?mc1" "ct' = ct1\<lparr>ct_memory := ms\<rparr>" by auto
  then show ?thesis using k(2) b2 by (simp add: ms_def res_def)
qed

definition guard_env :: tracer_env where
  "guard_env = (run_env True)\<lparr>te_memory := guard_cfg\<rparr>"

theorem guard_denial_skips_call_witness:
  "\<exists>c st' r' mc' ct'. handle_syscall_entry guard_env demo_host (Some meminfo_text) (fresh_tracee 7) (run_regs 222 8192) demo_machine run_counters
       = (c, st', r', mc', ct') \<and> c \<and> mc_nr mc' = - 1 \<and> rg (mc_regs mc') 0 = neg_errno ENOMEM"
proof -
  let ?st = "fresh_tracee 7" and ?r = "run_regs 222 8192"
  obtain c st' r' mc' ct' where h: "handle_syscall_entry guard_env demo_host (Some meminfo_text) ?st ?r demo_machine run_counters
      = (c, st', r', mc', ct')" by (rule prod_cases5)
  have req: "memory_request_bytes 222 (ts_last_args (called ?st ?r)) (ts_last_brk ?st) = 8192"
    by (simp add: memory_request_bytes_def called_def)
  have d: "memory_guard_would_deny (te_memory guard_env) (Some meminfo_text)
      (memory_request_bytes 222 (ts_last_args (called ?st ?r)) (ts_last_brk ?st)) = Some (8192, 0)"
    unfolding req by (simp add: memory_guard_would_deny_def meminfo_bytes guard_env_def guard_cfg_def)
  have nr: "222 = sint (rg ?r 8)" by simp
  have nz: "memory_request_bytes 222 (ts_last_args (called ?st ?r)) (ts_last_brk ?st) \<noteq> 0" unfolding req by simp
  have host: "ptrace_ok demo_host" "\<not> pg_enabled (te_pager guard_env)" "mg_guard (te_memory guard_env)" "ts_managed_pending_len ?st = 0"
    by (simp_all add: ptrace_ok_def demo_host_def guard_env_def guard_cfg_def run_env_def fresh_tracee_def tracee_zero_def)
  from guard_denial_skips_call [OF d nr _ nz host h] have "c \<and> mc_nr mc' = - 1 \<and> rg (mc_regs mc') 0 = neg_errno ENOMEM" by simp
  with h show ?thesis by blast
qed

end
