(* ===== verification/Cow_Store.thy ===== *)
theory Cow_Store
  imports Prelude
begin

text \<open>
  The files a container process of \<^verbatim>\<open>docker-proot-setup/src/overlay/libcow.c\<close> works on: the
  directory entries of the container name inodes, and an inode may have further links in other
  layers (the image it was cloned from, sibling containers). The calls of the C library that
  the shim makes are operations on this store. The kernel's answers (errors, byte counts, the
  random part of a temporary name) are a sequence the operations consume, so that every
  theorem holds for every answer at every call.
\<close>

section \<open>Computations\<close>

text \<open>
  A call returns a value, fails with an error number, ends with the process killed, or is still
  running when the fuel of a loop is used up.
\<close>

datatype 'a cres = Done 'a | Failed errno | Killed | Running

datatype answer = Ok nat | Bad errno

datatype ikind = KReg | KLnk string | KDir | KOther

record inode =
  i_kind :: ikind
  i_data :: string
  i_mode :: nat
  i_owner :: "nat \<times> nat"
  i_times :: nat
  i_xattrs :: "(string \<times> string) list"

text \<open>An open file: its inode, whether it was opened for writing, its offset, and the entry it
  was opened under (what \<open>/proc/self/fd\<close> shows and relative lookups start from).\<close>

record fdesc =
  fd_ino :: nat
  fd_write :: bool
  fd_off :: nat
  fd_name :: string

text \<open>
  \<open>cw_shared i\<close> counts the links to the inode \<open>i\<close> outside the container, \<open>cw_fdtab\<close> is the
  shim's own table \<open>fd_paths\<close>, \<open>cw_ans\<close> and \<open>cw_clock\<close> the kernel's answers and how many were
  used, \<open>cw_next\<close> the next free inode. \<open>cw_stat t p\<close> is the error the shim's own \<open>stat\<close>, \<open>lstat\<close> or
  \<open>fstatat\<close> of the path \<open>p\<close> meets after \<open>t\<close> answers, \<open>None\<close> when it answers truthfully.
\<close>

record cow =
  cw_names :: "(string \<times> nat) list"
  cw_inodes :: "nat \<Rightarrow> inode"
  cw_shared :: "nat \<Rightarrow> nat"
  cw_next :: nat
  cw_fds :: "(nat \<times> fdesc) list"
  cw_fdtab :: "int \<Rightarrow> string option"
  cw_cwd :: string
  cw_ans :: "nat \<Rightarrow> answer"
  cw_stat :: "nat \<Rightarrow> string \<Rightarrow> errno option"
  cw_clock :: nat

type_synonym 'a cm = "cow \<Rightarrow> 'a cres \<times> cow"

definition ret :: "'a \<Rightarrow> 'a cm" where
  "ret x c = (Done x, c)"

definition fail :: "errno \<Rightarrow> 'a cm" where
  "fail e c = (Failed e, c)"

definition running :: "'a cm" where
  "running c = (Running, c)"

definition killed :: "'a cm" where
  "killed c = (Killed, c)"

text \<open>\<open>handle m f h\<close> goes on with \<open>f\<close> after success and with \<open>h\<close> after an error.\<close>

definition handle :: "'a cm \<Rightarrow> ('a \<Rightarrow> 'b cm) \<Rightarrow> (errno \<Rightarrow> 'b cm) \<Rightarrow> 'b cm" where
  "handle m f h c =
     (case m c of
        (Done x, c1) \<Rightarrow> f x c1
      | (Failed e, c1) \<Rightarrow> h e c1
      | (Killed, c1) \<Rightarrow> (Killed, c1)
      | (Running, c1) \<Rightarrow> (Running, c1))"

definition andThen :: "'a cm \<Rightarrow> ('a \<Rightarrow> 'b cm) \<Rightarrow> 'b cm" where
  "andThen m f = handle m f fail"

text \<open>\<open>if (call < 0) { int e = errno; k; errno = e; return -1; }\<close>, and a call whose failure is
  ignored.\<close>

definition on_fail :: "'a cm \<Rightarrow> (errno \<Rightarrow> 'a cm) \<Rightarrow> 'a cm" where
  "on_fail m k = handle m ret k"

definition ignoring :: "'a cm \<Rightarrow> unit cm" where
  "ignoring m = handle m (\<lambda>_. ret ()) (\<lambda>_. ret ())"

definition reading :: "(cow \<Rightarrow> 'a cm) \<Rightarrow> 'a cm" where
  "reading f c = f c c"

definition change :: "(cow \<Rightarrow> cow) \<Rightarrow> unit cm" where
  "change f c = (Done (), f c)"

text \<open>The next answer of the kernel: an error ends the call before it has an effect.\<close>

definition with_answer :: "(nat \<Rightarrow> 'a cm) \<Rightarrow> 'a cm" where
  "with_answer f c =
     (let c1 = c\<lparr>cw_clock := cw_clock c + 1\<rparr>
      in case cw_ans c (cw_clock c) of Bad e \<Rightarrow> (Failed e, c1) | Ok n \<Rightarrow> f n c1)"

lemmas cm_defs = ret_def fail_def running_def killed_def reading_def change_def

section \<open>Triples\<close>

definition valid :: "(cow \<Rightarrow> bool) \<Rightarrow> 'a cm \<Rightarrow> ('a cres \<Rightarrow> cow \<Rightarrow> bool) \<Rightarrow> bool" where
  "valid P m Q \<longleftrightarrow> (\<forall>c. P c \<longrightarrow> Q (fst (m c)) (snd (m c)))"

abbreviation keeps :: "(cow \<Rightarrow> bool) \<Rightarrow> 'a cm \<Rightarrow> bool" where
  "keeps P m \<equiv> valid P m (\<lambda>_. P)"

lemma validI: "(\<And>c r c'. P c \<Longrightarrow> m c = (r, c') \<Longrightarrow> Q r c') \<Longrightarrow> valid P m Q"
  by (auto simp: valid_def)

lemma validD: "valid P m Q \<Longrightarrow> P c \<Longrightarrow> m c = (r, c') \<Longrightarrow> Q r c'"
  by (auto simp: valid_def)

lemma valid_weaken:
  "valid P m Q \<Longrightarrow> (\<And>c. P' c \<Longrightarrow> P c) \<Longrightarrow> (\<And>r c. Q r c \<Longrightarrow> Q' r c) \<Longrightarrow> valid P' m Q'"
  by (auto simp: valid_def)

lemma valid_pre: "valid P m Q \<Longrightarrow> (\<And>c. P' c \<Longrightarrow> P c) \<Longrightarrow> valid P' m Q"
  by (auto simp: valid_def)

lemma valid_post: "valid P m Q \<Longrightarrow> (\<And>r c. Q r c \<Longrightarrow> Q' r c) \<Longrightarrow> valid P m Q'"
  by (auto simp: valid_def)

lemma valid_conj: "valid P m Q \<Longrightarrow> valid P m Q' \<Longrightarrow> valid P m (\<lambda>r c. Q r c \<and> Q' r c)"
  by (auto simp: valid_def)

lemma valid_ret: "(\<And>c. P c \<Longrightarrow> Q (Done x) c) \<Longrightarrow> valid P (ret x) Q"
  by (auto simp: valid_def ret_def)

lemma valid_fail: "(\<And>c. P c \<Longrightarrow> Q (Failed e) c) \<Longrightarrow> valid P (fail e) Q"
  by (auto simp: valid_def fail_def)

lemma valid_handle:
  assumes "valid P m R" "\<And>x. valid (R (Done x)) (f x) Q" "\<And>e. valid (R (Failed e)) (h e) Q"
    and "\<And>c. R Killed c \<Longrightarrow> Q Killed c" "\<And>c. R Running c \<Longrightarrow> Q Running c"
  shows "valid P (handle m f h) Q"
proof (rule validI)
  fix c r c' assume P: "P c" and run: "handle m f h c = (r, c')"
  obtain x c1 where m: "m c = (x, c1)" by fastforce
  have R: "R x c1" using validD [OF assms(1) P m] .
  show "Q r c'"
    using run m R assms(4,5) validD [OF assms(2)] validD [OF assms(3)]
    by (cases x) (auto simp: handle_def)
qed

lemma valid_andThen:
  assumes "valid P m R" "\<And>x. valid (R (Done x)) (f x) Q"
    and "\<And>e c. R (Failed e) c \<Longrightarrow> Q (Failed e) c" "\<And>c. R Killed c \<Longrightarrow> Q Killed c"
    and "\<And>c. R Running c \<Longrightarrow> Q Running c"
  shows "valid P (andThen m f) Q"
  unfolding andThen_def by (rule valid_handle [OF assms(1,2) valid_fail assms(4,5)]) (auto intro: assms(3))

lemma valid_on_fail:
  assumes "valid P m R" "\<And>e. valid (R (Failed e)) (k e) Q"
    and "\<And>x c. R (Done x) c \<Longrightarrow> Q (Done x) c" "\<And>c. R Killed c \<Longrightarrow> Q Killed c"
    and "\<And>c. R Running c \<Longrightarrow> Q Running c"
  shows "valid P (on_fail m k) Q"
  unfolding on_fail_def by (rule valid_handle [OF assms(1) valid_ret assms(2,4,5)]) (auto intro: assms(3))

lemma valid_ignoring:
  assumes "valid P m R" "\<And>x c. R (Done x) c \<Longrightarrow> Q (Done ()) c"
    and "\<And>e c. R (Failed e) c \<Longrightarrow> Q (Done ()) c" "\<And>c. R Killed c \<Longrightarrow> Q Killed c"
    and "\<And>c. R Running c \<Longrightarrow> Q Running c"
  shows "valid P (ignoring m) Q"
  unfolding ignoring_def by (rule valid_handle [OF assms(1) valid_ret valid_ret assms(4,5)]) (auto intro: assms(2,3))

lemma valid_reading: "(\<And>c. P c \<Longrightarrow> valid (\<lambda>c'. c' = c) (f c) Q) \<Longrightarrow> valid P (reading f) Q"
  by (auto simp: valid_def reading_def)

lemma valid_reading_pure: "(\<And>x. valid P (f x) Q) \<Longrightarrow> valid P (reading f) Q"
  by (auto simp: valid_def reading_def)

lemma valid_change: "(\<And>c. P c \<Longrightarrow> Q (Done ()) (f c)) \<Longrightarrow> valid P (change f) Q"
  by (auto simp: valid_def change_def)

lemma valid_with_answer:
  assumes "\<And>c. P c \<Longrightarrow> P' (c\<lparr>cw_clock := cw_clock c + 1\<rparr>)"
    and "\<And>n. valid P' (f n) Q" and "\<And>e c. P' c \<Longrightarrow> Q (Failed e) c"
  shows "valid P (with_answer f) Q"
  using assms by (auto simp: valid_def with_answer_def Let_def split: answer.splits)

lemma valid_if: "(b \<Longrightarrow> valid P m Q) \<Longrightarrow> (\<not> b \<Longrightarrow> valid P n Q) \<Longrightarrow> valid P (if b then m else n) Q"
  by simp

lemma valid_option:
  "(x = None \<Longrightarrow> valid P m Q) \<Longrightarrow> (\<And>y. x = Some y \<Longrightarrow> valid P (f y) Q)
   \<Longrightarrow> valid P (case x of None \<Rightarrow> m | Some y \<Rightarrow> f y) Q"
  by (cases x) auto

end
