(* ===== verification/Cow_Kernel.thy ===== *)
theory Cow_Kernel
  imports Cow_Store
begin

text \<open>
  Path names, open files and the calls of the C library that \<open>libcow.c\<close> makes, on the store of
  theory \<open>Cow_Store\<close>. \<open>cv_entry\<close> is the directory entry an absolute path names once its parent
  directories are resolved; it does not change (a final symbolic link is followed here). The other
  fields of \<open>cow_env\<close> are what \<open>libcow_init\<close> and \<open>getenv\<close> read.
\<close>

record cow_env =
  cv_entry :: "string \<Rightarrow> string"
  cv_user :: "nat \<times> nat"
  cv_copy_xattrs :: bool
  cv_track_readonly :: bool
  cv_fail_step :: "string option"
  cv_fail_before_rename :: "string option"
  cv_copy_range :: bool

section \<open>Names\<close>

definition absolute :: "string \<Rightarrow> string \<Rightarrow> string" where
  "absolute cwd p = (if p \<noteq> [] \<and> hd p = slash then p else cwd @ slash # p)"

definition entry :: "cow_env \<Rightarrow> cow \<Rightarrow> string \<Rightarrow> string" where
  "entry env c p = cv_entry env (absolute (cw_cwd c) p)"

definition dir_of :: "string \<Rightarrow> string" where
  "dir_of n = (case split_last slash n of None \<Rightarrow> [] | Some (d, _) \<Rightarrow> d)"

definition ino_at :: "cow \<Rightarrow> string \<Rightarrow> nat option" where
  "ino_at c n = map_of (cw_names c) n"

definition link_count :: "cow \<Rightarrow> nat \<Rightarrow> nat" where
  "link_count c i = cw_shared c i + length (filter (\<lambda>(n, j). j = i) (cw_names c))"

fun walk :: "cow_env \<Rightarrow> cow \<Rightarrow> nat \<Rightarrow> string \<Rightarrow> errno + string" where
  "walk env c 0 n = Inl ELOOP"
| "walk env c (Suc k) n =
     (case ino_at c n of
        None \<Rightarrow> Inr n
      | Some i \<Rightarrow>
          (case i_kind (cw_inodes c i) of
             KLnk t \<Rightarrow> walk env c k (cv_entry env (absolute (dir_of n) t))
           | _ \<Rightarrow> Inr n))"

text \<open>The name a path ends at (40 links at most), and the inode there.\<close>

definition resolve :: "cow_env \<Rightarrow> cow \<Rightarrow> bool \<Rightarrow> string \<Rightarrow> errno + string" where
  "resolve env c follow p =
     (if p = [] then Inl ENOENT
      else if follow then walk env c 41 (entry env c p) else Inr (entry env c p))"

definition stat_at :: "cow_env \<Rightarrow> cow \<Rightarrow> bool \<Rightarrow> string \<Rightarrow> errno + nat" where
  "stat_at env c follow p =
     (case resolve env c follow p of
        Inl e \<Rightarrow> Inl e
      | Inr n \<Rightarrow> (case ino_at c n of None \<Rightarrow> Inl ENOENT | Some i \<Rightarrow> Inr i))"

text \<open>What the shim's \<open>stat\<close> or \<open>lstat\<close> answers: the truth, or the error it meets.\<close>

definition shim_stat :: "cow_env \<Rightarrow> cow \<Rightarrow> bool \<Rightarrow> string \<Rightarrow> errno + nat" where
  "shim_stat env c follow p =
     (case cw_stat c (cw_clock c) p of Some e \<Rightarrow> Inl e | None \<Rightarrow> stat_at env c follow p)"

section \<open>Inodes and open files\<close>

datatype meta =
    SetMode nat | SetOwner nat nat | SetTimes nat | SetLen nat
  | SetXattr string string | DelXattr string

definition set_len :: "nat \<Rightarrow> string \<Rightarrow> string" where
  "set_len n d = take n d @ replicate (n - length d) (CHR 0x00)"

definition patch :: "string \<Rightarrow> nat \<Rightarrow> string \<Rightarrow> string" where
  "patch d off s = set_len off d @ s @ drop (off + length s) d"

fun apply_meta :: "meta \<Rightarrow> inode \<Rightarrow> inode" where
  "apply_meta (SetMode m) x = x\<lparr>i_mode := m\<rparr>"
| "apply_meta (SetOwner u g) x = x\<lparr>i_owner := (u, g)\<rparr>"
| "apply_meta (SetTimes t) x = x\<lparr>i_times := t\<rparr>"
| "apply_meta (SetLen n) x = x\<lparr>i_data := set_len n (i_data x)\<rparr>"
| "apply_meta (SetXattr k v) x = x\<lparr>i_xattrs := (k, v) # filter (\<lambda>(k', _). k' \<noteq> k) (i_xattrs x)\<rparr>"
| "apply_meta (DelXattr k) x = x\<lparr>i_xattrs := filter (\<lambda>(k', _). k' \<noteq> k) (i_xattrs x)\<rparr>"

lemma apply_meta_kind [simp]: "i_kind (apply_meta m x) = i_kind x"
  by (cases m) simp_all

definition set_inode :: "nat \<Rightarrow> inode \<Rightarrow> cow \<Rightarrow> cow" where
  "set_inode i x c = c\<lparr>cw_inodes := (cw_inodes c)(i := x)\<rparr>"

text \<open>A new inode under the next number.\<close>

definition add_inode :: "inode \<Rightarrow> cow \<Rightarrow> cow" where
  "add_inode x c = c\<lparr>cw_inodes := (cw_inodes c)(cw_next c := x), cw_next := cw_next c + 1\<rparr>"

definition add_name :: "string \<Rightarrow> nat \<Rightarrow> cow \<Rightarrow> cow" where
  "add_name n i c = c\<lparr>cw_names := (n, i) # filter (\<lambda>(m, _). m \<noteq> n) (cw_names c)\<rparr>"

definition del_name :: "string \<Rightarrow> cow \<Rightarrow> cow" where
  "del_name n c = c\<lparr>cw_names := filter (\<lambda>(m, _). m \<noteq> n) (cw_names c)\<rparr>"

definition fd_at :: "cow \<Rightarrow> int \<Rightarrow> fdesc option" where
  "fd_at c fd = (if fd < 0 then None else map_of (cw_fds c) (nat fd))"

definition set_fd :: "nat \<Rightarrow> fdesc \<Rightarrow> cow \<Rightarrow> cow" where
  "set_fd k d c = c\<lparr>cw_fds := (k, d) # filter (\<lambda>(j, _). j \<noteq> k) (cw_fds c)\<rparr>"

definition del_fd :: "nat \<Rightarrow> cow \<Rightarrow> cow" where
  "del_fd k c = c\<lparr>cw_fds := filter (\<lambda>(j, _). j \<noteq> k) (cw_fds c)\<rparr>"

text \<open>The lowest free descriptor.\<close>

definition free_fd :: "cow \<Rightarrow> nat" where
  "free_fd c = (case find (\<lambda>k. k \<notin> fst ` set (cw_fds c)) [0..<Suc (length (cw_fds c))] of
                  Some k \<Rightarrow> k | None \<Rightarrow> length (cw_fds c))"

definition open_inode :: "nat \<Rightarrow> bool \<Rightarrow> string \<Rightarrow> int cm" where
  "open_inode i w n =
     reading (\<lambda>c. let k = free_fd c
                  in andThen (change (set_fd k \<lparr>fd_ino = i, fd_write = w, fd_off = 0, fd_name = n\<rparr>))
                       (\<lambda>_. ret (int k)))"

definition with_fd :: "int \<Rightarrow> (nat \<Rightarrow> fdesc \<Rightarrow> 'a cm) \<Rightarrow> 'a cm" where
  "with_fd fd f = reading (\<lambda>c. case fd_at c fd of None \<Rightarrow> fail EBADF | Some d \<Rightarrow> f (nat fd) d)"

section \<open>Opening\<close>

definition O_WRONLY :: u32 where "O_WRONLY = 1"
definition O_RDWR :: u32 where "O_RDWR = 2"
definition O_ACCMODE :: u32 where "O_ACCMODE = 3"
definition O_CREAT :: u32 where "O_CREAT = 0x40"
definition O_EXCL :: u32 where "O_EXCL = 0x80"
definition O_TRUNC :: u32 where "O_TRUNC = 0x200"
definition O_APPEND :: u32 where "O_APPEND = 0x400"
definition O_DIRECTORY :: u32 where "O_DIRECTORY = 0x4000"
definition O_NOFOLLOW :: u32 where "O_NOFOLLOW = 0x8000"

text \<open>\<open>O_TMPFILE\<close> contains the bit of \<open>O_DIRECTORY\<close>.\<close>

definition O_TMPFILE :: u32 where "O_TMPFILE = 0x404000"

definition flag :: "u32 \<Rightarrow> u32 \<Rightarrow> bool" where
  "flag flags b \<longleftrightarrow> flags AND b \<noteq> 0"

lemmas open_flags = O_WRONLY_def O_RDWR_def O_ACCMODE_def O_CREAT_def O_EXCL_def O_TRUNC_def
  O_APPEND_def O_DIRECTORY_def O_NOFOLLOW_def O_TMPFILE_def

definition may_write :: "u32 \<Rightarrow> bool" where
  "may_write flags \<longleftrightarrow> flags AND O_ACCMODE = O_WRONLY \<or> flags AND O_ACCMODE = O_RDWR"

definition fresh_inode :: "cow_env \<Rightarrow> nat \<Rightarrow> inode" where
  "fresh_inode env mode =
     \<lparr>i_kind = KReg, i_data = [], i_mode = mode, i_owner = cv_user env, i_times = 0, i_xattrs = []\<rparr>"

text \<open>An existing file, a directory (only for reading, or the directory of an unnamed file), a
  missing name.\<close>

definition open_existing :: "cow_env \<Rightarrow> u32 \<Rightarrow> nat \<Rightarrow> string \<Rightarrow> nat \<Rightarrow> int cm" where
  "open_existing env flags mode n i =
     reading (\<lambda>c.
       if flag flags O_CREAT \<and> flag flags O_EXCL then fail EEXIST
       else case i_kind (cw_inodes c i) of
         KLnk t \<Rightarrow> fail ELOOP
       | KDir \<Rightarrow>
           if flag flags 0x400000 then
             (if may_write flags
              then andThen (change (add_inode (fresh_inode env mode))) (\<lambda>_. open_inode (cw_next c) True n)
              else fail EINVAL)
           else if may_write flags \<or> flag flags O_CREAT \<or> flag flags O_TRUNC then fail EISDIR
           else open_inode i False n
       | k \<Rightarrow>
           if flag flags O_DIRECTORY then fail ENOTDIR
           else if k = KReg \<and> flag flags O_TRUNC then
             andThen (change (set_inode i (apply_meta (SetLen 0) (cw_inodes c i))))
               (\<lambda>_. open_inode i (may_write flags) n)
           else open_inode i (may_write flags) n)"

definition open_missing :: "cow_env \<Rightarrow> u32 \<Rightarrow> nat \<Rightarrow> string \<Rightarrow> int cm" where
  "open_missing env flags mode n =
     reading (\<lambda>c.
       if flag flags O_CREAT \<and> \<not> flag flags O_DIRECTORY then
         andThen (change (add_name n (cw_next c) \<circ> add_inode (fresh_inode env mode)))
           (\<lambda>_. open_inode (cw_next c) (may_write flags) n)
       else fail ENOENT)"

definition open_entry :: "cow_env \<Rightarrow> u32 \<Rightarrow> nat \<Rightarrow> errno + string \<Rightarrow> int cm" where
  "open_entry env flags mode where =
     with_answer (\<lambda>_. if flag flags 0x400000 \<and> \<not> flag flags O_DIRECTORY then fail EINVAL else case where of
        Inl e \<Rightarrow> fail e
      | Inr n \<Rightarrow> reading (\<lambda>c. case ino_at c n of
            Some i \<Rightarrow> open_existing env flags mode n i
          | None \<Rightarrow> open_missing env flags mode n))"

definition follows :: "u32 \<Rightarrow> bool" where
  "follows flags \<longleftrightarrow> \<not> flag flags O_NOFOLLOW \<and> \<not> (flag flags O_CREAT \<and> flag flags O_EXCL)"

definition k_open :: "cow_env \<Rightarrow> string \<Rightarrow> u32 \<Rightarrow> nat \<Rightarrow> int cm" where
  "k_open env p flags mode =
     reading (\<lambda>c. open_entry env flags mode (resolve env c (follows flags) p))"

section \<open>Relative to a directory\<close>

definition AT_FDCWD :: int where
  "AT_FDCWD = - 100"

definition AT_SYMLINK_NOFOLLOW :: u32 where
  "AT_SYMLINK_NOFOLLOW = 0x100"

text \<open>The path that the kernel's \<open>...at\<close> calls look up (from the working directory when relative).\<close>

definition at_path :: "cow \<Rightarrow> int \<Rightarrow> string \<Rightarrow> errno + string" where
  "at_path c dirfd p =
     (if p = [] then Inl ENOENT
      else if hd p = slash then Inr p
      else if dirfd = AT_FDCWD then Inr p
      else case fd_at c dirfd of None \<Rightarrow> Inl EBADF | Some d \<Rightarrow> Inr (absolute (fd_name d) p))"

definition resolve_at :: "cow_env \<Rightarrow> cow \<Rightarrow> bool \<Rightarrow> int \<Rightarrow> string \<Rightarrow> errno + string" where
  "resolve_at env c follow dirfd p =
     (case at_path c dirfd p of Inl e \<Rightarrow> Inl e | Inr q \<Rightarrow> resolve env c follow q)"

definition k_openat :: "cow_env \<Rightarrow> int \<Rightarrow> string \<Rightarrow> u32 \<Rightarrow> nat \<Rightarrow> int cm" where
  "k_openat env dirfd p flags mode =
     reading (\<lambda>c. open_entry env flags mode (resolve_at env c (follows flags) dirfd p))"

section \<open>Attributes\<close>

definition change_meta :: "meta \<Rightarrow> nat \<Rightarrow> unit cm" where
  "change_meta m i = reading (\<lambda>c. change (set_inode i (apply_meta m (cw_inodes c i))))"

fun for_regular_only :: "meta \<Rightarrow> bool" where
  "for_regular_only (SetLen n) = True"
| "for_regular_only _ = False"

definition meta_entry :: "meta \<Rightarrow> errno + string \<Rightarrow> unit cm" where
  "meta_entry m where =
     with_answer (\<lambda>_. case where of
        Inl e \<Rightarrow> fail e
      | Inr n \<Rightarrow> reading (\<lambda>c. case ino_at c n of
            None \<Rightarrow> fail ENOENT
          | Some i \<Rightarrow>
              if for_regular_only m \<and> i_kind (cw_inodes c i) \<noteq> KReg then fail EINVAL
              else change_meta m i))"

definition k_meta :: "cow_env \<Rightarrow> bool \<Rightarrow> string \<Rightarrow> meta \<Rightarrow> unit cm" where
  "k_meta env follow p m = reading (\<lambda>c. meta_entry m (resolve env c follow p))"

definition k_meta_at :: "cow_env \<Rightarrow> bool \<Rightarrow> int \<Rightarrow> string \<Rightarrow> meta \<Rightarrow> unit cm" where
  "k_meta_at env follow dirfd p m = reading (\<lambda>c. meta_entry m (resolve_at env c follow dirfd p))"

definition k_meta_fd :: "int \<Rightarrow> meta \<Rightarrow> unit cm" where
  "k_meta_fd fd m =
     with_answer (\<lambda>_. with_fd fd (\<lambda>k d. reading (\<lambda>c.
       if for_regular_only m \<and> (\<not> fd_write d \<or> i_kind (cw_inodes c (fd_ino d)) \<noteq> KReg) then fail EINVAL
       else change_meta m (fd_ino d))))"

section \<open>Names and bytes\<close>

text \<open>\<open>rename\<close> moves a directory with everything below it; two names of one inode stay as they are.\<close>

definition move_tree :: "string \<Rightarrow> string \<Rightarrow> cow \<Rightarrow> cow" where
  "move_tree n1 n2 c =
     c\<lparr>cw_names :=
        map (\<lambda>(n, i). if n = n1 then (n2, i)
                     else if prefix (n1 @ ''/'') n then (n2 @ drop (length n1) n, i) else (n, i))
          (filter (\<lambda>(n, _). n \<noteq> n2) (cw_names c))\<rparr>"

definition move_name :: "string \<Rightarrow> string \<Rightarrow> nat \<Rightarrow> cow \<Rightarrow> cow" where
  "move_name n1 n2 i c = add_name n2 i (del_name n1 c)"

definition rename_obstacle :: "cow \<Rightarrow> string \<Rightarrow> nat \<Rightarrow> string \<Rightarrow> errno option" where
  "rename_obstacle c n1 i n2 =
     (let is_dir = (i_kind (cw_inodes c i) = KDir)
      in if is_dir \<and> prefix (n1 @ ''/'') n2 then Some EINVAL
         else case ino_at c n2 of
           None \<Rightarrow> None
         | Some j \<Rightarrow>
             if is_dir \<and> i_kind (cw_inodes c j) \<noteq> KDir then Some ENOTDIR
             else if \<not> is_dir \<and> i_kind (cw_inodes c j) = KDir then Some EISDIR
             else if list_ex (\<lambda>(n, _). prefix (n2 @ ''/'') n) (cw_names c) then Some EEXIST
             else None)"

definition rename_entry :: "string \<Rightarrow> string \<Rightarrow> unit cm" where
  "rename_entry n1 n2 =
     reading (\<lambda>c. case ino_at c n1 of
         None \<Rightarrow> fail ENOENT
       | Some i \<Rightarrow>
           if ino_at c n2 = Some i then ret ()
           else case rename_obstacle c n1 i n2 of
               Some e \<Rightarrow> fail e
             | None \<Rightarrow> change (if i_kind (cw_inodes c i) = KDir then move_tree n1 n2 else move_name n1 n2 i))"

definition rename_entries :: "errno + string \<Rightarrow> errno + string \<Rightarrow> unit cm" where
  "rename_entries src dst =
     with_answer (\<lambda>_. case src of Inl e \<Rightarrow> fail e
       | Inr n1 \<Rightarrow> (case dst of Inl e \<Rightarrow> fail e | Inr n2 \<Rightarrow> rename_entry n1 n2))"

definition k_rename :: "cow_env \<Rightarrow> string \<Rightarrow> string \<Rightarrow> unit cm" where
  "k_rename env src dst =
     reading (\<lambda>c. rename_entries (resolve env c False src) (resolve env c False dst))"

definition k_renameat :: "cow_env \<Rightarrow> int \<Rightarrow> string \<Rightarrow> int \<Rightarrow> string \<Rightarrow> unit cm" where
  "k_renameat env sfd src dfd dst =
     reading (\<lambda>c. rename_entries (resolve_at env c False sfd src) (resolve_at env c False dfd dst))"

definition k_unlink :: "cow_env \<Rightarrow> string \<Rightarrow> unit cm" where
  "k_unlink env p =
     with_answer (\<lambda>_. reading (\<lambda>c. case stat_at env c False p of
        Inl e \<Rightarrow> fail e
      | Inr i \<Rightarrow>
          if i_kind (cw_inodes c i) = KDir then fail EISDIR
          else change (del_name (entry env c p))))"

text \<open>\<open>mkstemp\<close> replaces the six X's of the template by letters the answer chooses, and creates the
  file with mode 0600.\<close>

definition tmp_letters :: string where
  "tmp_letters = ''abcdefghijklmnopqrstuvwxyzABCDEFGHIJKLMNOPQRSTUVWXYZ0123456789''"

primrec letters_of :: "nat \<Rightarrow> nat \<Rightarrow> string" where
  "letters_of 0 n = []"
| "letters_of (Suc k) n = tmp_letters ! (n mod 62) # letters_of k (n div 62)"

definition tmp_suffix :: "nat \<Rightarrow> string" where
  "tmp_suffix n = letters_of 6 n"

definition k_mkstemp :: "cow_env \<Rightarrow> string \<Rightarrow> (string \<times> int) cm" where
  "k_mkstemp env tmpl =
     with_answer (\<lambda>a. let p = tmpl @ tmp_suffix a in reading (\<lambda>c.
       let n = entry env c p
       in if ino_at c n \<noteq> None then fail EEXIST
          else andThen (change (add_name n (cw_next c) \<circ> add_inode (fresh_inode env 384)))
            (\<lambda>_. andThen (open_inode (cw_next c) True n) (\<lambda>fd. ret (p, fd)))))"

text \<open>\<open>read\<close>, \<open>write\<close> and \<open>copy_file_range\<close> with null offsets: the answer bounds the bytes moved. A
  \<open>read\<close> returns no byte only at the end of the file; \<open>copy_file_range\<close> may return zero at any
  time.\<close>

definition bytes_from :: "cow \<Rightarrow> fdesc \<Rightarrow> nat \<Rightarrow> string" where
  "bytes_from c d n = take n (drop (fd_off d) (i_data (cw_inodes c (fd_ino d))))"

definition write_bytes :: "nat \<Rightarrow> fdesc \<Rightarrow> string \<Rightarrow> cow \<Rightarrow> cow" where
  "write_bytes k d s c =
     (let x = cw_inodes c (fd_ino d)
      in set_fd k (d\<lparr>fd_off := fd_off d + length s\<rparr>)
           (set_inode (fd_ino d) (x\<lparr>i_data := patch (i_data x) (fd_off d) s\<rparr>) c))"

definition k_read :: "int \<Rightarrow> nat \<Rightarrow> string cm" where
  "k_read fd want =
     with_answer (\<lambda>n. with_fd fd (\<lambda>k d. reading (\<lambda>c.
       let s = bytes_from c d (min want (max 1 n))
       in andThen (change (set_fd k (d\<lparr>fd_off := fd_off d + length s\<rparr>))) (\<lambda>_. ret s))))"

definition k_write :: "int \<Rightarrow> string \<Rightarrow> nat cm" where
  "k_write fd s =
     with_answer (\<lambda>n. with_fd fd (\<lambda>k d.
       if \<not> fd_write d then fail EBADF
       else let t = take n s in andThen (change (write_bytes k d t)) (\<lambda>_. ret (length t))))"

definition k_copy_file_range :: "int \<Rightarrow> int \<Rightarrow> nat \<Rightarrow> nat cm" where
  "k_copy_file_range sfd tfd want =
     with_answer (\<lambda>n. with_fd sfd (\<lambda>ks ds. with_fd tfd (\<lambda>kt dt. reading (\<lambda>c.
       if \<not> fd_write dt then fail EBADF
       else let s = bytes_from c ds (min want n)
            in andThen (change (write_bytes kt dt s))
                 (\<lambda>_. andThen (change (set_fd ks (ds\<lparr>fd_off := fd_off ds + length s\<rparr>)))
                         (\<lambda>_. ret (length s)))))))"

definition k_rewind :: "int \<Rightarrow> unit cm" where
  "k_rewind fd = with_answer (\<lambda>_. with_fd fd (\<lambda>k d. change (set_fd k (d\<lparr>fd_off := 0\<rparr>))))"

section \<open>Descriptors\<close>

text \<open>\<open>close\<close> releases the descriptor even when it reports an error.\<close>

definition k_close :: "int \<Rightarrow> unit cm" where
  "k_close fd =
     with_fd fd (\<lambda>k d. andThen (change (del_fd k)) (\<lambda>_. with_answer (\<lambda>_. ret ())))"

definition k_dup :: "int \<Rightarrow> int cm" where
  "k_dup fd =
     with_answer (\<lambda>_. with_fd fd (\<lambda>_ d. reading (\<lambda>c.
       andThen (change (set_fd (free_fd c) d)) (\<lambda>_. ret (int (free_fd c))))))"

definition k_dup2 :: "int \<Rightarrow> int \<Rightarrow> int cm" where
  "k_dup2 old new =
     with_answer (\<lambda>_. with_fd old (\<lambda>_ d.
       if new < 0 then fail EBADF
       else if old = new then ret new
       else andThen (change (set_fd (nat new) d)) (\<lambda>_. ret new)))"

definition k_dup3 :: "int \<Rightarrow> int \<Rightarrow> int cm" where
  "k_dup3 old new = (if old = new then with_answer (\<lambda>_. fail EINVAL) else k_dup2 old new)"

text \<open>\<open>getcwd\<close> and \<open>readlink\<close> of \<open>/proc/self/fd/N\<close> into buffers of \<open>PATH_MAX\<close> bytes.\<close>

definition k_getcwd :: "string cm" where
  "k_getcwd =
     with_answer (\<lambda>_. reading (\<lambda>c.
       if PATH_MAX \<le> length (cw_cwd c) then fail ERANGE else ret (cw_cwd c)))"

definition k_fd_link :: "int \<Rightarrow> string cm" where
  "k_fd_link fd = with_answer (\<lambda>_. with_fd fd (\<lambda>_ d. ret (take (PATH_MAX - 1) (fd_name d))))"

section \<open>Calls the shim does not interpose on\<close>

definition k_link :: "cow_env \<Rightarrow> string \<Rightarrow> string \<Rightarrow> unit cm" where
  "k_link env old new =
     with_answer (\<lambda>_. reading (\<lambda>c.
       case stat_at env c False old of
         Inl e \<Rightarrow> fail e
       | Inr i \<Rightarrow>
           if new = [] then fail ENOENT
           else if i_kind (cw_inodes c i) = KDir then fail EPERM
           else if ino_at c (entry env c new) \<noteq> None then fail EEXIST
           else change (add_name (entry env c new) i)))"

definition k_chdir :: "cow_env \<Rightarrow> string \<Rightarrow> unit cm" where
  "k_chdir env p =
     with_answer (\<lambda>_. reading (\<lambda>c.
       case stat_at env c True p of
         Inl e \<Rightarrow> fail e
       | Inr i \<Rightarrow>
           if i_kind (cw_inodes c i) \<noteq> KDir then fail ENOTDIR
           else change (\<lambda>c. c\<lparr>cw_cwd := entry env c p\<rparr>)))"

text \<open>\<open>fopen\<close> and \<open>freopen\<close> of the C library: the first letter of the mode, then up to six more.\<close>

definition fopen_flags :: "string \<Rightarrow> u32 option" where
  "fopen_flags mode =
     (case mode of [] \<Rightarrow> None
      | m # rest \<Rightarrow>
          let opts = take 6 rest;
              acc = (if CHR ''+'' \<in> set opts then O_RDWR else if m = CHR ''r'' then 0 else O_WRONLY);
              excl = (if CHR ''x'' \<in> set opts then O_EXCL else 0)
          in if m = CHR ''r'' then Some (acc OR excl)
             else if m = CHR ''w'' then Some (acc OR O_CREAT OR O_TRUNC OR excl)
             else if m = CHR ''a'' then Some (acc OR O_CREAT OR O_APPEND OR excl)
             else None)"

definition k_fopen :: "cow_env \<Rightarrow> string \<Rightarrow> string \<Rightarrow> int cm" where
  "k_fopen env p mode =
     (case fopen_flags mode of None \<Rightarrow> fail EINVAL | Some flags \<Rightarrow> k_open env p flags 438)"

end
