(* ===== verification/Cow_Copy.thy ===== *)
theory Cow_Copy
  imports Cow_Kernel
begin

text \<open>
  The copy-up of \<open>libcow.c\<close>: its table of descriptor paths, path resolution, the settings and
  failure injection, the two copy loops and \<open>break_hardlink_copy_stat\<close>, which gives a path an
  inode of its own before the path is changed. Inside the shim, \<open>fchmod\<close>, \<open>ftruncate\<close>, \<open>close\<close> and
  \<open>lsetxattr\<close> are the shim's own functions again, so the copy-up calls itself when the table has an
  entry for the descriptor of the temporary file; the first argument bounds that recursion and the
  loops.
\<close>

section \<open>The table of descriptor paths\<close>

definition FD_TABLE_MAX :: int where
  "FD_TABLE_MAX = 4096"

definition fdtab_set :: "int \<Rightarrow> string option \<Rightarrow> cow \<Rightarrow> cow" where
  "fdtab_set fd p c =
     (if fd < 0 \<or> FD_TABLE_MAX \<le> fd then c else c\<lparr>cw_fdtab := (cw_fdtab c)(fd := p)\<rparr>)"

definition fdtab_clear :: "int \<Rightarrow> cow \<Rightarrow> cow" where
  "fdtab_clear fd c =
     (if fd < 0 \<or> FD_TABLE_MAX \<le> fd then c else c\<lparr>cw_fdtab := (cw_fdtab c)(fd := None)\<rparr>)"

definition fdtab_get :: "cow \<Rightarrow> int \<Rightarrow> string option" where
  "fdtab_get c fd = (if fd < 0 \<or> FD_TABLE_MAX \<le> fd then None else cw_fdtab c fd)"

section \<open>Settings and failure injection\<close>

definition env_enabled :: "string option \<Rightarrow> bool" where
  "env_enabled v =
     (case v of None \<Rightarrow> False | Some s \<Rightarrow> s \<noteq> [] \<and> s \<noteq> ''0'' \<and> s \<noteq> ''false'')"

text \<open>\<open>None\<close>: no match; otherwise whether the process is to be killed.\<close>

definition env_fail_step_matches :: "string option \<Rightarrow> string \<Rightarrow> bool option" where
  "env_fail_step_matches value step =
     (case value of None \<Rightarrow> None
      | Some v \<Rightarrow>
          if v = [] \<or> step = [] then None
          else if v = step then Some False
          else if v = ''fail:'' @ step then Some False
          else if v = ''kill:'' @ step then Some True
          else if v = step @ '':fail'' then Some False
          else if v = step @ '':kill'' then Some True
          else None)"

definition cow_fail_step :: "cow_env \<Rightarrow> string \<Rightarrow> errno \<Rightarrow> unit cm" where
  "cow_fail_step env step err =
     (case env_fail_step_matches (cv_fail_step env) step of
        None \<Rightarrow> ret () | Some True \<Rightarrow> killed | Some False \<Rightarrow> fail err)"

section \<open>Remembering paths\<close>

definition remember_open :: "int \<Rightarrow> string \<Rightarrow> unit cm" where
  "remember_open fd p =
     (if fd < 0 then ret ()
      else if p \<noteq> [] \<and> hd p = slash then change (fdtab_set fd (Some p))
      else handle k_getcwd
        (\<lambda>cwd. if PATH_MAX \<le> length cwd + 1 + length p + 1 then ret ()
               else change (fdtab_set fd (Some (cwd @ slash # p))))
        (\<lambda>_. ret ()))"

text \<open>The buffer has \<open>PATH_MAX\<close> bytes in every call.\<close>

definition resolve_at_path :: "int \<Rightarrow> string \<Rightarrow> string cm" where
  "resolve_at_path dirfd p =
     (if p \<noteq> [] \<and> hd p = slash then (if PATH_MAX \<le> length p then fail ENAMETOOLONG else ret p)
      else
        andThen
          (if dirfd = AT_FDCWD then k_getcwd
           else reading (\<lambda>c. case fdtab_get c dirfd of
               Some t \<Rightarrow> if PATH_MAX \<le> length t then fail ENAMETOOLONG else ret t
             | None \<Rightarrow> k_fd_link dirfd))
          (\<lambda>base. if PATH_MAX < length base + 1 + length p + 1 then fail ENAMETOOLONG
                  else ret (base @ slash # p)))"

definition flags_write :: "u32 \<Rightarrow> bool" where
  "flags_write flags \<longleftrightarrow>
     flags AND O_ACCMODE = O_WRONLY \<or> flags AND O_ACCMODE = O_RDWR
     \<or> flag flags O_TRUNC \<or> flag flags O_APPEND"

definition mode_write :: "string \<Rightarrow> bool" where
  "mode_write mode \<longleftrightarrow> list_ex (\<lambda>c. c = CHR ''w'' \<or> c = CHR ''a'' \<or> c = CHR ''+'') mode"

definition mode_truncates :: "string option \<Rightarrow> bool" where
  "mode_truncates mode \<longleftrightarrow> (case mode of None \<Rightarrow> False | Some m \<Rightarrow> m \<noteq> [] \<and> hd m = CHR ''w'')"

definition remember_open_for_flags :: "cow_env \<Rightarrow> int \<Rightarrow> string \<Rightarrow> u32 \<Rightarrow> unit cm" where
  "remember_open_for_flags env fd p flags =
     (if fd < 0 \<or> (\<not> cv_track_readonly env \<and> \<not> flags_write flags) then ret ()
      else remember_open fd p)"

section \<open>Copying\<close>

definition COPY_BUF :: nat where
  "COPY_BUF = 65536"

definition RANGE_BLOCK :: nat where
  "RANGE_BLOCK = 1024 * 1024"

primrec write_all :: "nat \<Rightarrow> int \<Rightarrow> string \<Rightarrow> unit cm" where
  "write_all 0 tfd s = running"
| "write_all (Suc k) tfd s =
     (if s = [] then ret ()
      else handle (k_write tfd s) (\<lambda>w. write_all k tfd (drop w s))
             (\<lambda>e. if e = EINTR then write_all k tfd s else fail e))"

primrec copy_file_fallback :: "nat \<Rightarrow> int \<Rightarrow> int \<Rightarrow> unit cm" where
  "copy_file_fallback 0 sfd tfd = running"
| "copy_file_fallback (Suc k) sfd tfd =
     andThen (k_read sfd COPY_BUF)
       (\<lambda>s. if s = [] then ret ()
            else andThen (write_all k tfd s) (\<lambda>_. copy_file_fallback k sfd tfd))"

text \<open>\<open>ftr\<close> is \<open>ftruncate\<close>, as the shim defines it.\<close>

primrec range_loop :: "(int \<Rightarrow> nat \<Rightarrow> unit cm) \<Rightarrow> nat \<Rightarrow> int \<Rightarrow> int \<Rightarrow> nat \<Rightarrow> nat \<Rightarrow> unit cm" where
  "range_loop ftr 0 sfd tfd len0 copied = running"
| "range_loop ftr (Suc k) sfd tfd len0 copied =
     (if copied < len0 then
        handle (k_copy_file_range sfd tfd (min (len0 - copied) RANGE_BLOCK))
          (\<lambda>n. if 0 < n then range_loop ftr k sfd tfd len0 (copied + n) else ret ())
          (\<lambda>e. if e = EINTR then range_loop ftr k sfd tfd len0 copied
               else if e \<in> {ENOSYS, EINVAL, EXDEV, EPERM, ENOTSUP} then
                 andThen (k_rewind sfd) (\<lambda>_. andThen (k_rewind tfd)
                   (\<lambda>_. andThen (ftr tfd 0) (\<lambda>_. copy_file_fallback k sfd tfd)))
               else fail e)
      else ret ())"

definition copy_file_fast ::
  "(int \<Rightarrow> nat \<Rightarrow> unit cm) \<Rightarrow> nat \<Rightarrow> cow_env \<Rightarrow> int \<Rightarrow> int \<Rightarrow> nat \<Rightarrow> unit cm" where
  "copy_file_fast ftr k env sfd tfd len0 =
     (if cv_copy_range env \<and> 0 < len0 then range_loop ftr k sfd tfd len0 0
      else copy_file_fallback k sfd tfd)"

section \<open>The copy-up\<close>

text \<open>\<open>brk p copy_data follow\<close> is the copy-up the hooks below call.\<close>

type_synonym breaker = "string option \<Rightarrow> bool \<Rightarrow> bool \<Rightarrow> unit cm"

definition ftruncate_with :: "breaker \<Rightarrow> cow_env \<Rightarrow> int \<Rightarrow> nat \<Rightarrow> unit cm" where
  "ftruncate_with brk env fd len =
     reading (\<lambda>c. case fdtab_get c fd of
         Some p \<Rightarrow> andThen (brk (Some p) (len \<noteq> 0) True) (\<lambda>_. k_meta env True p (SetLen len))
       | None \<Rightarrow> k_meta_fd fd (SetLen len))"

text \<open>\<open>fchmod\<close>, \<open>fchown\<close> and \<open>futimens\<close> have one form: through the remembered path, or directly.\<close>

definition meta_fd_with :: "breaker \<Rightarrow> cow_env \<Rightarrow> int \<Rightarrow> meta \<Rightarrow> unit cm" where
  "meta_fd_with brk env fd m =
     reading (\<lambda>c. case fdtab_get c fd of
         Some p \<Rightarrow> andThen (brk (Some p) True True) (\<lambda>_. k_meta env True p m)
       | None \<Rightarrow> k_meta_fd fd m)"

definition lsetxattr_with :: "breaker \<Rightarrow> cow_env \<Rightarrow> string \<Rightarrow> string \<Rightarrow> string \<Rightarrow> unit cm" where
  "lsetxattr_with brk env p key val =
     andThen (brk (Some p) True True) (\<lambda>_. k_meta env False p (SetXattr key val))"

definition close_hook :: "int \<Rightarrow> unit cm" where
  "close_hook fd = andThen (change (fdtab_clear fd)) (\<lambda>_. k_close fd)"

text \<open>The template without its X's: in the directory of the path.\<close>

definition tmp_template :: "string \<Rightarrow> errno + string" where
  "tmp_template p =
     (case split_last slash p of
        None \<Rightarrow> Inr ''.cow''
      | Some (d, _) \<Rightarrow>
          if PATH_MAX \<le> length d + 1 + 16 then Inl ENAMETOOLONG else Inr (d @ slash # ''.cow''))"

definition copy_contents ::
  "breaker \<Rightarrow> nat \<Rightarrow> cow_env \<Rightarrow> string \<Rightarrow> string \<Rightarrow> int \<Rightarrow> nat \<Rightarrow> unit cm" where
  "copy_contents brk k env p tmp tfd len0 =
     handle (k_open env p 0 0)
       (\<lambda>sfd. andThen
          (on_fail (copy_file_fast (ftruncate_with brk env) k env sfd tfd len0)
             (\<lambda>e. andThen (ignoring (close_hook sfd)) (\<lambda>_. andThen (ignoring (close_hook tfd))
                    (\<lambda>_. andThen (ignoring (k_unlink env tmp)) (\<lambda>_. fail e)))))
          (\<lambda>_. ignoring (close_hook sfd)))
       (\<lambda>e. andThen (ignoring (close_hook tfd))
              (\<lambda>_. andThen (ignoring (k_unlink env tmp)) (\<lambda>_. fail e)))"

text \<open>One attribute after the other; an attribute that is empty or cannot be read is skipped.\<close>

primrec xattr_loop :: "breaker \<Rightarrow> cow_env \<Rightarrow> string \<Rightarrow> string \<Rightarrow> string list \<Rightarrow> unit cm" where
  "xattr_loop brk env p tmp [] = ret ()"
| "xattr_loop brk env p tmp (key # keys) =
     andThen
       (ignoring (with_answer (\<lambda>_. reading (\<lambda>c.
          case stat_at env c False p of
            Inl e \<Rightarrow> fail e
          | Inr i \<Rightarrow>
              (case map_of (i_xattrs (cw_inodes c i)) key of
                 None \<Rightarrow> ret ()
               | Some val \<Rightarrow> if val = [] then ret () else lsetxattr_with brk env tmp key val)))))
       (\<lambda>_. xattr_loop brk env p tmp keys)"

definition copy_xattrs :: "breaker \<Rightarrow> cow_env \<Rightarrow> string \<Rightarrow> string \<Rightarrow> unit cm" where
  "copy_xattrs brk env p tmp =
     (if \<not> cv_copy_xattrs env then ret ()
      else ignoring (with_answer (\<lambda>_. reading (\<lambda>c.
             case stat_at env c False p of
               Inl e \<Rightarrow> fail e
             | Inr i \<Rightarrow> xattr_loop brk env p tmp (map fst (i_xattrs (cw_inodes c i)))))))"

definition install_copy :: "cow_env \<Rightarrow> string \<Rightarrow> string \<Rightarrow> unit cm" where
  "install_copy env tmp p =
     (let give_up = (\<lambda>e. andThen (ignoring (k_unlink env tmp)) (\<lambda>_. fail e))
      in handle (cow_fail_step env ''copyup.before_rename'' ENOMEM)
           (\<lambda>_. if env_enabled (cv_fail_before_rename env) then give_up ENOMEM
                else on_fail (k_rename env tmp p) give_up)
           (\<lambda>_. give_up ENOMEM))"

definition copy_up :: "breaker \<Rightarrow> nat \<Rightarrow> cow_env \<Rightarrow> string \<Rightarrow> inode \<Rightarrow> bool \<Rightarrow> unit cm" where
  "copy_up brk k env p st copy_data =
     (case tmp_template p of
        Inl e \<Rightarrow> fail e
      | Inr tmpl \<Rightarrow>
          andThen (k_mkstemp env tmpl) (\<lambda>(tmp, tfd).
            andThen (ignoring (meta_fd_with brk env tfd (SetMode (i_mode st mod 4096)))) (\<lambda>_.
              andThen (if copy_data then copy_contents brk k env p tmp tfd (length (i_data st)) else ret ()) (\<lambda>_.
                andThen (on_fail (close_hook tfd) (\<lambda>e. andThen (ignoring (k_unlink env tmp)) (\<lambda>_. fail e))) (\<lambda>_.
                  andThen (copy_xattrs brk env p tmp) (\<lambda>_. install_copy env tmp p))))))"

primrec break_hardlink_copy_stat :: "nat \<Rightarrow> cow_env \<Rightarrow> breaker" where
  "break_hardlink_copy_stat 0 env = (\<lambda>path copy_data follow. running)"
| "break_hardlink_copy_stat (Suc k) env =
     (\<lambda>path copy_data follow.
        case path of None \<Rightarrow> ret ()
        | Some p \<Rightarrow>
            reading (\<lambda>c. case shim_stat env c follow p of
                Inl e \<Rightarrow> ret ()
              | Inr i \<Rightarrow>
                  if i_kind (cw_inodes c i) \<noteq> KReg \<or> link_count c i \<le> 1 then ret ()
                  else copy_up (break_hardlink_copy_stat k env) k env p (cw_inodes c i) copy_data))"

definition break_hardlink_copy :: "nat \<Rightarrow> cow_env \<Rightarrow> string option \<Rightarrow> bool \<Rightarrow> unit cm" where
  "break_hardlink_copy k env p copy_data = break_hardlink_copy_stat k env p copy_data True"

definition break_hardlink_copy_entry :: "nat \<Rightarrow> cow_env \<Rightarrow> string option \<Rightarrow> bool \<Rightarrow> unit cm" where
  "break_hardlink_copy_entry k env p copy_data = break_hardlink_copy_stat k env p copy_data False"

definition break_hardlink :: "nat \<Rightarrow> cow_env \<Rightarrow> string option \<Rightarrow> unit cm" where
  "break_hardlink k env p = break_hardlink_copy k env p True"

definition maybe_break :: "nat \<Rightarrow> cow_env \<Rightarrow> string option \<Rightarrow> u32 \<Rightarrow> unit cm" where
  "maybe_break k env p flags =
     (if \<not> flags_write flags then ret ()
      else if flag flags O_TMPFILE then ret ()
      else if flag flags O_CREAT \<and> flag flags O_EXCL then ret ()
      else break_hardlink_copy k env p (\<not> flag flags O_TRUNC))"

end
