(* ===== verification/Cow_Invariant.thy ===== *)
theory Cow_Invariant
  imports Cow_Copy
begin

text \<open>
  The invariant behind the isolation of the image: inodes that other layers link are regular files
  with the contents they had, no writable descriptor refers to one of them, and every inode named or
  open exists. The copy-up keeps it, keeps every name that is the container's own, and leaves the
  path with an inode of its own when it succeeds.
\<close>

type_synonym baseline = "(nat \<Rightarrow> nat) \<times> (nat \<Rightarrow> inode)"

definition image_kept :: "baseline \<Rightarrow> cow \<Rightarrow> bool" where
  "image_kept b c \<longleftrightarrow>
     cw_shared c = fst b \<and>
     (\<forall>i. 0 < fst b i \<longrightarrow> i < cw_next c \<and> cw_inodes c i = snd b i \<and> i_kind (snd b i) = KReg) \<and>
     (\<forall>(n, i) \<in> set (cw_names c). i < cw_next c) \<and>
     (\<forall>(k, d) \<in> set (cw_fds c). fd_ino d < cw_next c \<and> (fd_write d \<longrightarrow> fst b (fd_ino d) = 0))"

text \<open>A name that is absent or names a regular file without links elsewhere.\<close>

definition own :: "baseline \<Rightarrow> cow \<Rightarrow> string \<Rightarrow> bool" where
  "own b c n \<longleftrightarrow>
     (\<forall>i. ino_at c n = Some i \<longrightarrow> fst b i = 0 \<and> i_kind (cw_inodes c i) = KReg)"

text \<open>The shim's \<open>stat\<close> calls do not fail on files that exist.\<close>

definition truthful :: "cow \<Rightarrow> bool" where
  "truthful c \<longleftrightarrow> (\<forall>t p. cw_stat c t p = None)"

definition inv_at :: "baseline \<Rightarrow> string \<Rightarrow> string set \<Rightarrow> cow \<Rightarrow> bool" where
  "inv_at b cwd N c \<longleftrightarrow> image_kept b c \<and> truthful c \<and> cw_cwd c = cwd \<and> (\<forall>n \<in> N. own b c n)"

definition private_at :: "baseline \<Rightarrow> cow_env \<Rightarrow> cow \<Rightarrow> bool \<Rightarrow> string \<Rightarrow> bool" where
  "private_at b env c follow p \<longleftrightarrow> (\<forall>i. stat_at env c follow p = Inr i \<longrightarrow> fst b i = 0)"

section \<open>Updates of the store\<close>

lemma truthful_simps [simp]:
  "truthful (c\<lparr>cw_clock := t\<rparr>) = truthful c" "truthful (c\<lparr>cw_fdtab := f\<rparr>) = truthful c"
  "truthful (c\<lparr>cw_fds := d\<rparr>) = truthful c" "truthful (c\<lparr>cw_names := n\<rparr>) = truthful c"
  "truthful (c\<lparr>cw_inodes := x\<rparr>) = truthful c" "truthful (c\<lparr>cw_next := k\<rparr>) = truthful c"
  by (simp_all add: truthful_def)

lemma truthful_store [simp]:
  "truthful (set_fd j d c) = truthful c" "truthful (del_fd k c) = truthful c"
  "truthful (set_inode i x c) = truthful c" "truthful (add_inode x c) = truthful c"
  "truthful (add_name n i c) = truthful c" "truthful (del_name n c) = truthful c"
  "truthful (move_tree n m c) = truthful c"
  by (simp_all add: set_fd_def del_fd_def set_inode_def add_inode_def add_name_def del_name_def move_tree_def)

lemma shim_stat_truthful: "truthful c \<Longrightarrow> shim_stat env c follow p = stat_at env c follow p"
  by (simp add: shim_stat_def truthful_def)

lemma image_kept_simps [simp]:
  "image_kept b (c\<lparr>cw_clock := t\<rparr>) = image_kept b c"
  "image_kept b (c\<lparr>cw_fdtab := f\<rparr>) = image_kept b c"
  by (simp_all add: image_kept_def)

lemma own_simps [simp]:
  "own b (c\<lparr>cw_clock := t\<rparr>) n = own b c n" "own b (c\<lparr>cw_fdtab := f\<rparr>) n = own b c n"
  "own b (set_fd k d c) n = own b c n" "own b (del_fd k c) n = own b c n"
  by (simp_all add: own_def ino_at_def set_fd_def del_fd_def)

lemma inv_clock [simp]: "inv_at b cwd N (c\<lparr>cw_clock := t\<rparr>) = inv_at b cwd N c"
  by (simp add: inv_at_def)

lemma inv_fdtab [simp]:
  "inv_at b cwd N (fdtab_set fd p c) = inv_at b cwd N c"
  "inv_at b cwd N (fdtab_clear fd c) = inv_at b cwd N c"
  by (simp_all add: inv_at_def fdtab_set_def fdtab_clear_def)

lemma inv_subset: "inv_at b cwd N c \<Longrightarrow> M \<subseteq> N \<Longrightarrow> inv_at b cwd M c"
  by (auto simp: inv_at_def)

lemma inv_set_fd:
  "inv_at b cwd N c \<Longrightarrow> fd_ino d < cw_next c \<Longrightarrow> (fd_write d \<Longrightarrow> fst b (fd_ino d) = 0)
   \<Longrightarrow> inv_at b cwd N (set_fd k d c)"
  by (auto simp: inv_at_def image_kept_def set_fd_def own_def ino_at_def)

lemma inv_del_fd: "inv_at b cwd N c \<Longrightarrow> inv_at b cwd N (del_fd k c)"
  by (auto simp: inv_at_def image_kept_def del_fd_def own_def ino_at_def)

lemma fd_at_props:
  assumes "inv_at b cwd N c" "fd_at c fd = Some d"
  shows "fd_ino d < cw_next c" "fd_write d \<Longrightarrow> fst b (fd_ino d) = 0"
  using assms by (auto simp: inv_at_def image_kept_def fd_at_def dest!: map_of_SomeD split: if_splits)

lemma ino_at_bound: "inv_at b cwd N c \<Longrightarrow> ino_at c n = Some i \<Longrightarrow> i < cw_next c"
  by (auto simp: inv_at_def image_kept_def ino_at_def dest!: map_of_SomeD)

lemma inv_set_inode:
  "inv_at b cwd N c \<Longrightarrow> fst b i = 0 \<Longrightarrow> i_kind x = i_kind (cw_inodes c i)
   \<Longrightarrow> inv_at b cwd N (set_inode i x c)"
  by (auto simp: inv_at_def image_kept_def set_inode_def own_def ino_at_def)

lemma next_not_shared: "inv_at b cwd N c \<Longrightarrow> fst b (cw_next c) = 0"
  by (auto simp: inv_at_def image_kept_def)

lemma inv_add_inode:
  assumes inv: "inv_at b cwd N c" shows "inv_at b cwd N (add_inode x c)"
proof -
  have old: "cw_inodes (add_inode x c) i = cw_inodes c i" if "i < cw_next c" for i
    using that by (simp add: add_inode_def)
  have own: "own b (add_inode x c) n" if "own b c n" for n
    using that old ino_at_bound [OF inv, of n] by (auto simp: own_def ino_at_def add_inode_def)
  have same: "cw_names (add_inode x c) = cw_names c" "cw_fds (add_inode x c) = cw_fds c"
    "cw_cwd (add_inode x c) = cw_cwd c" "cw_shared (add_inode x c) = cw_shared c"
    "cw_next (add_inode x c) = cw_next c + 1"
    by (simp_all add: add_inode_def)
  show ?thesis
    using inv own old unfolding inv_at_def image_kept_def same by (auto simp: less_Suc_eq)
qed

lemma inv_add_name:
  assumes "inv_at b cwd N c" "i < cw_next c" "fst b i = 0" "i_kind (cw_inodes c i) = KReg"
  shows "inv_at b cwd (insert n N) (add_name n i c)"
proof -
  have keep: "map_of (filter (\<lambda>(m, _). m \<noteq> n) xs) m = (if m = n then None else map_of xs m)" for m and xs :: "(string \<times> nat) list"
    by (induction xs) auto
  show ?thesis
    using assms by (auto simp: inv_at_def image_kept_def add_name_def own_def ino_at_def keep)
qed

lemma inv_add_name_dir:
  "inv_at b cwd {} c \<Longrightarrow> i < cw_next c \<Longrightarrow> inv_at b cwd {} (add_name n i c)"
  by (auto simp: inv_at_def image_kept_def add_name_def)

lemma inv_del_name: "inv_at b cwd N c \<Longrightarrow> inv_at b cwd N (del_name n c)"
proof -
  assume a: "inv_at b cwd N c"
  have keep: "map_of (filter (\<lambda>(m, _). m \<noteq> n) xs) m = (if m = n then None else map_of xs m)" for m and xs :: "(string \<times> nat) list"
    by (induction xs) auto
  show ?thesis
    using a by (auto simp: inv_at_def image_kept_def del_name_def own_def ino_at_def keep split: if_splits)
qed

lemma inv_move_tree: "inv_at b cwd {} c \<Longrightarrow> inv_at b cwd {} (move_tree n1 n2 c)"
  by (fastforce simp: inv_at_def image_kept_def move_tree_def split: if_splits)

section \<open>Names resolved\<close>

lemma walk_end:
  "walk env c k n = Inr m \<Longrightarrow> ino_at c m = Some i \<Longrightarrow> \<forall>t. i_kind (cw_inodes c i) \<noteq> KLnk t"
  by (induction env c k n rule: walk.induct) (auto split: option.splits ikind.splits)

lemma stat_at_named: "stat_at env c follow p = Inr i \<Longrightarrow> \<exists>n. ino_at c n = Some i"
  by (auto simp: stat_at_def split: sum.splits option.splits)

lemma named_link_count: "ino_at c n = Some i \<Longrightarrow> cw_shared c i < link_count c i"
proof -
  assume "ino_at c n = Some i"
  then have "(n, i) \<in> set (filter (\<lambda>(n, j). j = i) (cw_names c))"
    by (auto simp: ino_at_def dest: map_of_SomeD)
  from length_pos_if_in_set [OF this] show ?thesis by (simp add: link_count_def)
qed

text \<open>What is not copied up is the container's own already.\<close>

lemma no_copy_needed:
  assumes "inv_at b cwd N c" "stat_at env c follow p = Inr i"
    and "i_kind (cw_inodes c i) \<noteq> KReg \<or> link_count c i \<le> 1"
  shows "private_at b env c follow p"
proof -
  obtain n where "ino_at c n = Some i" using stat_at_named [OF assms(2)] by blast
  then have "cw_shared c i < link_count c i" by (rule named_link_count)
  with assms show ?thesis by (auto simp: private_at_def inv_at_def image_kept_def)
qed

lemma own_private: "own b c (entry env c p) \<Longrightarrow> private_at b env c follow p"
  by (auto simp: own_def private_at_def stat_at_def resolve_def eval_nat_numeral
      split: if_splits option.splits sum.splits ikind.splits)

end
