(* ===== verification/Cow_Isolation.thy ===== *)
theory Cow_Isolation
  imports Cow_Invariant
begin

text \<open>
  The calls of the C library and the copy-up keep the invariant of theory \<open>Cow_Invariant\<close>, whatever
  the kernel answers and whatever the table of descriptor paths holds.
\<close>

section \<open>Calls of the C library\<close>

lemma keeps_with_answer: "(\<And>n. valid (inv_at b cwd N) (f n) Q) \<Longrightarrow> (\<And>e c. inv_at b cwd N c \<Longrightarrow> Q (Failed e) c)
   \<Longrightarrow> valid (inv_at b cwd N) (with_answer f) Q"
  by (rule valid_with_answer [where P' = "inv_at b cwd N"]) simp_all

lemma keeps_andThen:
  "keeps J m \<Longrightarrow> (\<And>x. keeps J (f x)) \<Longrightarrow> keeps J (andThen m f)"
  by (rule valid_andThen) auto

lemma keeps_handle:
  "keeps J m \<Longrightarrow> (\<And>x. keeps J (f x)) \<Longrightarrow> (\<And>e. keeps J (h e)) \<Longrightarrow> keeps J (handle m f h)"
  by (rule valid_handle) auto

lemma keeps_on_fail: "keeps J m \<Longrightarrow> (\<And>e. keeps J (h e)) \<Longrightarrow> keeps J (on_fail m h)"
  by (rule valid_on_fail) auto

lemma keeps_ignoring: "keeps J m \<Longrightarrow> keeps J (ignoring m)"
  by (rule valid_ignoring) auto

lemma keeps_ret: "keeps J (ret x)" and keeps_fail: "keeps J (fail e)"
  and keeps_running: "keeps J running" and keeps_killed: "keeps J killed"
  by (simp_all add: valid_def cm_defs)

lemma keeps_reading: "(\<And>c. J c \<Longrightarrow> valid (\<lambda>c'. c' = c) (f c) (\<lambda>_. J)) \<Longrightarrow> keeps J (reading f)"
  by (rule valid_reading)

lemma keeps_reading_all: "(\<And>c. keeps J (f c)) \<Longrightarrow> keeps J (reading f)"
  by (rule valid_reading_pure)

lemmas keeps_rules = keeps_andThen keeps_handle keeps_on_fail keeps_ignoring keeps_ret keeps_fail
  keeps_running keeps_killed valid_if valid_option

lemma keeps_with_fd:
  assumes "\<And>k d. valid (\<lambda>c. J c \<and> fd_at c fd = Some d) (f k d) Q" "\<And>c. J c \<Longrightarrow> Q (Failed EBADF) c"
  shows "valid J (with_fd fd f) Q"
proof (rule validI)
  fix c r c' assume J: "J c" and run: "with_fd fd f c = (r, c')"
  show "Q r c'"
  proof (cases "fd_at c fd")
    case None
    with J run assms(2) show ?thesis by (auto simp: with_fd_def cm_defs)
  next
    case (Some d)
    with J run validD [OF assms(1) [of d "nat fd"], of c r c'] show ?thesis by (auto simp: with_fd_def cm_defs)
  qed
qed

lemma keeps_open_inode:
  assumes "w \<Longrightarrow> fst b i = 0"
  shows "valid (\<lambda>c. inv_at b cwd N c \<and> i < cw_next c) (open_inode i w n) (\<lambda>_. inv_at b cwd N)"
  using assms by (auto simp: open_inode_def valid_def cm_defs andThen_def handle_def Let_def intro!: inv_set_fd)

lemma fresh_kind [simp]: "i_kind (fresh_inode env m) = KReg"
  by (simp add: fresh_inode_def)

lemma add_inode_simps [simp]:
  "cw_next (add_inode x c) = cw_next c + 1" "cw_inodes (add_inode x c) (cw_next c) = x"
  by (simp_all add: add_inode_def)

lemma inv_add_file:
  assumes inv: "inv_at b cwd N c"
  shows "inv_at b cwd (insert n N) (add_name n (cw_next c) (add_inode (fresh_inode env m) c))"
  by (rule inv_add_name) (use inv_add_inode [OF inv] next_not_shared [OF inv] in simp_all)

lemma add_name_next [simp]: "cw_next (add_name n i c) = cw_next c"
  by (simp add: add_name_def)

text \<open>The file \<open>mkstemp\<close> makes is the container's own and its descriptor is private.\<close>

lemma free_fd_get [simp]: "fd_at (set_fd k d c) (int k) = Some d"
  by (simp add: fd_at_def set_fd_def)

lemma mkstemp_keeps:
  "valid (inv_at b cwd N) (k_mkstemp env tmpl)
     (\<lambda>r c. case r of
        Done (p, fd) \<Rightarrow> inv_at b cwd (insert (cv_entry env (absolute cwd p)) N) c \<and>
                        (\<exists>d. fd_at c fd = Some d \<and> fst b (fd_ino d) = 0)
      | _ \<Rightarrow> inv_at b cwd N c)"
proof -
  have step: "inv_at b cwd (insert n N) (set_fd k \<lparr>fd_ino = cw_next c, fd_write = True, fd_off = 0, fd_name = n\<rparr>
                 (add_name n (cw_next c) (add_inode (fresh_inode env 384) c)))"
    if "inv_at b cwd N c" for c n k
    by (rule inv_set_fd [OF inv_add_file [OF that]]) (use next_not_shared [OF that] in simp_all)
  have cwd: "cw_cwd c = cwd" if "inv_at b cwd N c" for c using that by (simp add: inv_at_def)
  show ?thesis
    unfolding k_mkstemp_def
    by (rule keeps_with_answer)
       (auto simp: valid_def cm_defs andThen_def handle_def open_inode_def Let_def entry_def
          cwd dest: step next_not_shared)
qed

definition fd_private :: "baseline \<Rightarrow> cow \<Rightarrow> int \<Rightarrow> bool" where
  "fd_private b c fd \<longleftrightarrow> (\<forall>d. fd_at c fd = Some d \<longrightarrow> fst b (fd_ino d) = 0)"

lemma clock_lookups [simp]:
  "ino_at (c\<lparr>cw_clock := t\<rparr>) n = ino_at c n" "fd_at (c\<lparr>cw_clock := t\<rparr>) fd = fd_at c fd"
  "entry env (c\<lparr>cw_clock := t\<rparr>) p = entry env c p" "fd_private b (c\<lparr>cw_clock := t\<rparr>) fd = fd_private b c fd"
  by (simp_all add: ino_at_def fd_at_def entry_def fd_private_def)

lemma clock_walk [simp]: "walk env (c\<lparr>cw_clock := t\<rparr>) k n = walk env c k n"
  by (induction env c k n rule: walk.induct) (auto split: option.splits ikind.splits)

lemma clock_stat [simp]:
  "resolve env (c\<lparr>cw_clock := t\<rparr>) follow p = resolve env c follow p"
  "stat_at env (c\<lparr>cw_clock := t\<rparr>) follow p = stat_at env c follow p"
  "private_at b env (c\<lparr>cw_clock := t\<rparr>) follow p = private_at b env c follow p"
  by (simp_all add: resolve_def stat_at_def private_at_def split: sum.split)

lemma change_meta_keeps:
  "valid (\<lambda>c. inv_at b cwd N c \<and> fst b i = 0) (change_meta m i) (\<lambda>_. inv_at b cwd N)"
  by (auto simp: valid_def change_meta_def cm_defs intro!: inv_set_inode)

definition private_target :: "baseline \<Rightarrow> cow \<Rightarrow> errno + string \<Rightarrow> bool" where
  "private_target b c t \<longleftrightarrow> (\<forall>n i. t = Inr n \<longrightarrow> ino_at c n = Some i \<longrightarrow> fst b i = 0)"

lemma private_target_resolve: "private_at b env c follow p \<Longrightarrow> private_target b c (resolve env c follow p)"
  by (auto simp: private_at_def private_target_def stat_at_def split: sum.splits option.splits)

lemma meta_entry_keeps:
  "valid (\<lambda>c. inv_at b cwd N c \<and> private_target b c t) (meta_entry m t) (\<lambda>_. inv_at b cwd N)"
proof (rule validI)
  fix c r c' assume pre: "inv_at b cwd N c \<and> private_target b c t" and run: "meta_entry m t c = (r, c')"
  show "inv_at b cwd N c'"
    using pre run
    by (auto simp: meta_entry_def with_answer_def change_meta_def cm_defs Let_def private_target_def
        split: answer.splits sum.splits option.splits if_splits intro!: inv_set_inode)
qed

lemma k_meta_keeps:
  "valid (\<lambda>c. inv_at b cwd N c \<and> private_at b env c follow p) (k_meta env follow p m) (\<lambda>_. inv_at b cwd N)"
proof (rule validI)
  fix c r c' assume pre: "inv_at b cwd N c \<and> private_at b env c follow p" and run: "k_meta env follow p m c = (r, c')"
  then have "meta_entry m (resolve env c follow p) c = (r, c')" by (simp add: k_meta_def reading_def)
  with validD [OF meta_entry_keeps] pre private_target_resolve show "inv_at b cwd N c'" by blast
qed

lemma k_meta_fd_keeps:
  "valid (\<lambda>c. inv_at b cwd N c \<and> (for_regular_only m \<or> fd_private b c fd)) (k_meta_fd fd m) (\<lambda>_. inv_at b cwd N)"
proof (rule validI)
  fix c r c'
  assume pre: "inv_at b cwd N c \<and> (for_regular_only m \<or> fd_private b c fd)" and run: "k_meta_fd fd m c = (r, c')"
  show "inv_at b cwd N c'"
    using pre run fd_at_props(2) [of b cwd N c fd]
    by (auto simp: k_meta_fd_def with_answer_def with_fd_def change_meta_def cm_defs Let_def fd_private_def
        split: answer.splits sum.splits option.splits if_splits intro!: inv_set_inode)
qed

lemma update_frame [simp]:
  "cw_next (set_inode i x c) = cw_next c" "cw_next (del_name n c) = cw_next c"
  "cw_inodes (del_name n c) = cw_inodes c" "cw_next (set_fd k d c) = cw_next c"
  by (simp_all add: set_inode_def del_name_def set_fd_def)

lemma write_bytes_keeps:
  "inv_at b cwd N c \<Longrightarrow> fst b (fd_ino d) = 0 \<Longrightarrow> fd_ino d < cw_next c \<Longrightarrow> inv_at b cwd N (write_bytes k d s c)"
  unfolding write_bytes_def Let_def
  by (rule inv_set_fd) (auto intro!: inv_set_inode)

lemma write_bytes_next [simp]: "cw_next (write_bytes k d s c) = cw_next c"
  by (simp add: write_bytes_def Let_def set_fd_def set_inode_def)

lemmas run_defs = with_answer_def with_fd_def cm_defs Let_def andThen_def handle_def

lemma byte_calls_keep:
  "keeps (inv_at b cwd N) (k_read fd n)" "keeps (inv_at b cwd N) (k_write fd s)"
  "keeps (inv_at b cwd N) (k_copy_file_range sfd tfd n)" "keeps (inv_at b cwd N) (k_rewind fd)"
  "keeps (inv_at b cwd N) (k_close fd)"
  by (rule validI; auto simp: k_read_def k_write_def k_copy_file_range_def k_rewind_def k_close_def run_defs
        split: answer.splits option.splits if_splits
        intro!: inv_set_fd write_bytes_keeps inv_del_fd dest: fd_at_props)+

lemma k_unlink_keeps: "keeps (inv_at b cwd N) (k_unlink env p)"
  by (rule validI) (auto simp: k_unlink_def run_defs split: answer.splits sum.splits if_splits intro!: inv_del_name)

lemma k_open_read_keeps: "keeps (inv_at b cwd N) (k_open env p 0 m)"
  by (rule validI)
     (auto simp: k_open_def open_entry_def open_existing_def open_missing_def open_inode_def run_defs
        flag_def may_write_def open_flags
        split: answer.splits sum.splits option.splits ikind.splits if_splits
        intro!: inv_set_fd dest: ino_at_bound)

text \<open>A rename of a file that is the container's own leaves the new name the container's own.\<close>

lemma rename_own:
  assumes "inv_at b cwd (insert n1 N) c" "rename_entry n1 n2 c = (r, c')"
  shows "inv_at b cwd N c' \<and> (r = Done () \<longrightarrow> own b c' n2)"
proof (cases "ino_at c n1")
  case None
  with assms show ?thesis by (auto simp: rename_entry_def cm_defs inv_at_def)
next
  case (Some i)
  from assms(1) Some have own: "fst b i = 0" "i_kind (cw_inodes c i) = KReg" by (auto simp: inv_at_def own_def)
  have bound: "i < cw_next c" using ino_at_bound [OF assms(1) Some] .
  have same: "ino_at c n2 = Some i \<Longrightarrow> own b c n2" using own by (simp add: own_def)
  have invN: "inv_at b cwd N c" using assms(1) by (rule inv_subset) auto
  have mv: "inv_at b cwd (insert n2 N) (move_name n1 n2 i c)"
    unfolding move_name_def
    by (rule inv_add_name) (use own bound invN in \<open>auto intro: inv_del_name\<close>)
  show ?thesis
    using assms(2) Some invN mv same
    by (auto simp: rename_entry_def cm_defs own(2) split: if_splits option.splits) (auto simp: inv_at_def)
qed

lemma k_rename_tmp:
  "valid (inv_at b cwd (insert (cv_entry env (absolute cwd tmp)) N)) (k_rename env tmp p)
     (\<lambda>r c. inv_at b cwd N c \<and> (r = Done () \<longrightarrow> private_at b env c True p \<and> private_at b env c False p))"
proof (rule validI)
  fix c r c'
  let ?n1 = "cv_entry env (absolute cwd tmp)"
  assume J: "inv_at b cwd (insert ?n1 N) c" and run: "k_rename env tmp p c = (r, c')"
  have cwd: "cw_cwd c = cwd" using J by (simp add: inv_at_def)
  have J1: "inv_at b cwd (insert ?n1 N) (c\<lparr>cw_clock := t\<rparr>)" for t using J by simp
  have JN: "inv_at b cwd N c" using J by (rule inv_subset) auto
  show "inv_at b cwd N c' \<and> (r = Done () \<longrightarrow> private_at b env c' True p \<and> private_at b env c' False p)"
  proof (cases "tmp = [] \<or> p = [] \<or> (\<exists>e. cw_ans c (cw_clock c) = Bad e)")
    case True
    with run JN show ?thesis
      by (auto simp: k_rename_def resolve_def rename_entries_def run_defs split: answer.splits sum.splits)
  next
    case False
    then obtain n where n: "cw_ans c (cw_clock c) = Ok n" by (cases "cw_ans c (cw_clock c)") auto
    from False n run have "rename_entry ?n1 (entry env c p) (c\<lparr>cw_clock := cw_clock c + 1\<rparr>) = (r, c')"
      by (auto simp: k_rename_def resolve_def rename_entries_def run_defs entry_def cwd)
    from rename_own [OF J1 this] have res: "inv_at b cwd N c'" "r = Done () \<longrightarrow> own b c' (entry env c p)" by blast+
    have "cw_cwd c' = cwd" using res(1) by (simp add: inv_at_def)
    then have "entry env c' p = entry env c p" using cwd by (simp add: entry_def)
    with res show ?thesis by (auto intro: own_private)
  qed
qed

section \<open>The copy loops\<close>

lemma write_all_keeps: "keeps (inv_at b cwd N) (write_all k tfd s)"
  by (induction k arbitrary: s) (auto intro!: keeps_rules byte_calls_keep)

lemma copy_file_fallback_keeps: "keeps (inv_at b cwd N) (copy_file_fallback k sfd tfd)"
  by (induction k) (auto intro!: keeps_rules byte_calls_keep write_all_keeps)

lemma range_loop_keeps:
  assumes "\<And>fd n. keeps (inv_at b cwd N) (ftr fd n)"
  shows "keeps (inv_at b cwd N) (range_loop ftr k sfd tfd len0 copied)"
  by (induction k arbitrary: copied)
     (auto intro!: keeps_rules byte_calls_keep copy_file_fallback_keeps assms)

section \<open>The shim's own functions inside the copy-up\<close>

definition breaker_ok :: "baseline \<Rightarrow> string \<Rightarrow> cow_env \<Rightarrow> breaker \<Rightarrow> bool" where
  "breaker_ok b cwd env brk \<longleftrightarrow>
     (\<forall>N path copy_data follow.
        valid (inv_at b cwd N) (brk path copy_data follow)
          (\<lambda>r c. inv_at b cwd N c \<and> (r = Done () \<longrightarrow> (\<forall>p. path = Some p \<longrightarrow> private_at b env c follow p))))"

lemma breaker_okD:
  "breaker_ok b cwd env brk \<Longrightarrow>
   valid (inv_at b cwd N) (brk path copy_data follow)
     (\<lambda>r c. inv_at b cwd N c \<and> (r = Done () \<longrightarrow> (\<forall>p. path = Some p \<longrightarrow> private_at b env c follow p)))"
  by (simp add: breaker_ok_def)

lemma breaker_keeps: "breaker_ok b cwd env brk \<Longrightarrow> keeps (inv_at b cwd N) (brk path copy_data follow)"
  by (rule valid_post [OF breaker_okD]) auto

text \<open>Only regular files have links elsewhere, so a path whose target is private is private itself.\<close>

lemma walk_here:
  "ino_at c n = Some i \<Longrightarrow> \<forall>t. i_kind (cw_inodes c i) \<noteq> KLnk t \<Longrightarrow> walk env c 41 n = Inr n"
  using walk.simps(2) [of env c 40 n] by (auto split: ikind.splits)

lemma private_entry:
  assumes "inv_at b cwd N c" "private_at b env c True p"
  shows "private_at b env c False p"
  unfolding private_at_def
proof (intro allI impI)
  fix i assume i: "stat_at env c False p = Inr i"
  then have p: "p \<noteq> []" "ino_at c (entry env c p) = Some i"
    by (auto simp: stat_at_def resolve_def split: if_splits option.splits)
  show "fst b i = 0"
  proof (cases "i_kind (cw_inodes c i) = KReg")
    case True
    then have "stat_at env c True p = Inr i" using p walk_here [OF p(2)] by (simp add: stat_at_def resolve_def)
    with assms(2) show ?thesis by (simp add: private_at_def)
  next
    case False
    show ?thesis
    proof (rule ccontr)
      assume "fst b i \<noteq> 0"
      with assms(1) have "cw_inodes c i = snd b i" "i_kind (snd b i) = KReg" by (auto simp: inv_at_def image_kept_def)
      with False show False by simp
    qed
  qed
qed

lemma private_any:
  "inv_at b cwd N c \<Longrightarrow> private_at b env c True p \<Longrightarrow> private_at b env c follow p"
  using private_entry by (cases follow) auto

text \<open>A call through a path after its copy-up.\<close>

lemma break_then_meta:
  assumes "breaker_ok b cwd env brk"
  shows "keeps (inv_at b cwd N) (andThen (brk (Some p) copy_data True) (\<lambda>_. k_meta env follow p m))"
  by (rule valid_andThen [OF breaker_okD [OF assms]])
     (auto intro: valid_pre [OF k_meta_keeps] private_any)

lemma ftruncate_with_keeps:
  assumes "breaker_ok b cwd env brk"
  shows "keeps (inv_at b cwd N) (ftruncate_with brk env fd len)"
  unfolding ftruncate_with_def
  by (auto intro!: keeps_reading_all valid_option break_then_meta assms valid_pre [OF k_meta_fd_keeps])

lemma meta_fd_with_keeps:
  assumes "breaker_ok b cwd env brk"
  shows "valid (\<lambda>c. inv_at b cwd N c \<and> fd_private b c fd) (meta_fd_with brk env fd m) (\<lambda>_. inv_at b cwd N)"
  unfolding meta_fd_with_def
  by (rule valid_reading_pure)
     (auto intro!: valid_option valid_pre [OF break_then_meta [OF assms]] valid_pre [OF k_meta_fd_keeps])

lemma lsetxattr_with_keeps:
  assumes "breaker_ok b cwd env brk"
  shows "keeps (inv_at b cwd N) (lsetxattr_with brk env p key val)"
  unfolding lsetxattr_with_def by (rule break_then_meta [OF assms])

lemma close_hook_keeps: "keeps (inv_at b cwd N) (close_hook fd)"
  unfolding close_hook_def
  by (rule keeps_andThen) (auto intro: valid_change byte_calls_keep)

lemma copy_file_fast_keeps:
  assumes "breaker_ok b cwd env brk"
  shows "keeps (inv_at b cwd N) (copy_file_fast (ftruncate_with brk env) k env sfd tfd len0)"
  unfolding copy_file_fast_def
  by (auto intro!: valid_if range_loop_keeps ftruncate_with_keeps assms copy_file_fallback_keeps)

lemma copy_contents_keeps:
  assumes "breaker_ok b cwd env brk"
  shows "keeps (inv_at b cwd N) (copy_contents brk k env p tmp tfd len0)"
  unfolding copy_contents_def
  by (intro keeps_rules k_open_read_keeps copy_file_fast_keeps assms close_hook_keeps k_unlink_keeps)

lemma xattr_loop_keeps:
  assumes "breaker_ok b cwd env brk"
  shows "keeps (inv_at b cwd N) (xattr_loop brk env p tmp keys)"
  by (induction keys)
     (auto intro!: keeps_rules keeps_with_answer keeps_reading_all lsetxattr_with_keeps assms
        split: sum.split option.split)

lemma copy_xattrs_keeps:
  assumes "breaker_ok b cwd env brk"
  shows "keeps (inv_at b cwd N) (copy_xattrs brk env p tmp)"
  unfolding copy_xattrs_def
  by (auto intro!: keeps_rules keeps_with_answer keeps_reading_all xattr_loop_keeps assms split: sum.split)

lemma cow_fail_step_keeps: "keeps J (cow_fail_step env step e)"
  unfolding cow_fail_step_def by (auto intro: keeps_rules split: option.split bool.split)

lemma install_copy_ok:
  "valid (inv_at b cwd (insert (cv_entry env (absolute cwd tmp)) N)) (install_copy env tmp p)
     (\<lambda>r c. inv_at b cwd N c \<and> (r = Done () \<longrightarrow> private_at b env c True p \<and> private_at b env c False p))"
    (is "valid ?J _ ?Q")
proof -
  have out: "valid ?J (andThen (ignoring (k_unlink env tmp)) (\<lambda>_. fail e)) ?Q" for e
    by (rule valid_andThen [OF keeps_ignoring [OF k_unlink_keeps]])
       (auto intro: valid_fail inv_subset)
  have out': "valid (inv_at b cwd N) (andThen (ignoring (k_unlink env tmp)) (\<lambda>_. fail e)) ?Q" for e
    by (rule valid_andThen [OF keeps_ignoring [OF k_unlink_keeps]]) (auto intro: valid_fail)
  have move: "valid ?J (on_fail (k_rename env tmp p) (\<lambda>e. andThen (ignoring (k_unlink env tmp)) (\<lambda>_. fail e))) ?Q"
    by (rule valid_on_fail [OF k_rename_tmp]) (auto intro: valid_pre [OF out'])
  show ?thesis
    unfolding install_copy_def Let_def
    by (rule valid_handle [OF cow_fail_step_keeps]) (auto intro: out move inv_subset)
qed

section \<open>The copy-up\<close>

lemma copy_up_ok:
  assumes brk: "breaker_ok b cwd env brk"
  shows "valid (inv_at b cwd N) (copy_up brk k env p st copy_data)
     (\<lambda>r c. inv_at b cwd N c \<and> (r = Done () \<longrightarrow> private_at b env c True p \<and> private_at b env c False p))"
    (is "valid _ _ ?Q")
proof (cases "tmp_template p")
  case (Inl e)
  then show ?thesis by (auto simp: copy_up_def intro: valid_fail)
next
  case (Inr tmpl)
  have rest: "valid (\<lambda>c. inv_at b cwd (insert (cv_entry env (absolute cwd tmp)) N) c \<and>
                     (\<exists>d. fd_at c tfd = Some d \<and> fst b (fd_ino d) = 0))
      (andThen (ignoring (meta_fd_with brk env tfd (SetMode (i_mode st mod 4096)))) (\<lambda>_.
              andThen (if copy_data then copy_contents brk k env p tmp tfd (length (i_data st)) else ret ()) (\<lambda>_.
                andThen (on_fail (close_hook tfd) (\<lambda>e. andThen (ignoring (k_unlink env tmp)) (\<lambda>_. fail e))) (\<lambda>_.
                  andThen (copy_xattrs brk env p tmp) (\<lambda>_. install_copy env tmp p))))) ?Q"
    for tmp tfd
  proof -
    let ?J = "inv_at b cwd (insert (cv_entry env (absolute cwd tmp)) N)"
    have later: "valid ?J m ?Q" if "keeps ?J m" "\<And>c. inv_at b cwd N c \<Longrightarrow> True" "\<And>r c. ?J c \<Longrightarrow> ?Q r c" for m :: "unit cm"
      using that by (auto simp: valid_def)
    have seq: "valid ?J (andThen m f) ?Q" if "keeps ?J m" "\<And>x. valid ?J (f x) ?Q" for m :: "unit cm" and f
      by (rule valid_andThen [OF that]) (auto intro: inv_subset)
    have first: "valid (\<lambda>c. ?J c \<and> (\<exists>d. fd_at c tfd = Some d \<and> fst b (fd_ino d) = 0))
        (ignoring (meta_fd_with brk env tfd (SetMode (i_mode st mod 4096)))) (\<lambda>_. ?J)"
      by (rule valid_ignoring [OF valid_pre [OF meta_fd_with_keeps [OF brk]]]) (auto simp: fd_private_def)
    show ?thesis
      by (rule valid_andThen [OF first])
         (auto intro!: seq install_copy_ok copy_xattrs_keeps copy_contents_keeps keeps_rules close_hook_keeps
            k_unlink_keeps brk intro: inv_subset)
  qed
  show ?thesis
    unfolding copy_up_def Inr sum.case
    by (rule valid_andThen [OF mkstemp_keeps]) (auto intro: rest)
qed

lemma break_hardlink_ok: "breaker_ok b cwd env (break_hardlink_copy_stat k env)"
proof (induction k)
  case 0
  then show ?case by (auto simp: breaker_ok_def valid_def cm_defs)
next
  case (Suc k)
  show ?case
    unfolding breaker_ok_def
  proof (intro allI)
    fix N path copy_data follow
    show "valid (inv_at b cwd N) (break_hardlink_copy_stat (Suc k) env path copy_data follow)
        (\<lambda>r c. inv_at b cwd N c \<and> (r = Done () \<longrightarrow> (\<forall>p. path = Some p \<longrightarrow> private_at b env c follow p)))"
    proof (rule validI)
      fix c r c' assume J: "inv_at b cwd N c" and run: "break_hardlink_copy_stat (Suc k) env path copy_data follow c = (r, c')"
      show "inv_at b cwd N c' \<and> (r = Done () \<longrightarrow> (\<forall>p. path = Some p \<longrightarrow> private_at b env c' follow p))"
      proof -
        have st: "shim_stat env c follow p = stat_at env c follow p" for p
          using J by (simp add: shim_stat_truthful inv_at_def)
        show ?thesis
      proof (cases "\<exists>p i. path = Some p \<and> stat_at env c follow p = Inr i \<and>
              i_kind (cw_inodes c i) = KReg \<and> 1 < link_count c i")
        case False
        with run J no_copy_needed [OF J, of env follow] st show ?thesis
          by (cases path) (auto simp: cm_defs private_at_def split: sum.splits if_splits)
      next
        case True
        then obtain p i where p: "path = Some p" and i: "stat_at env c follow p = Inr i"
          "i_kind (cw_inodes c i) = KReg" "1 < link_count c i" by blast
        with run have "copy_up (break_hardlink_copy_stat k env) k env p (cw_inodes c i) copy_data c = (r, c')"
          by (simp add: cm_defs st)
        from validD [OF copy_up_ok [OF Suc.IH] J this] p show ?thesis by (cases follow) auto
      qed
      qed
    qed
  qed
qed

end
