(* ===== verification/Cow_Hooks.thy ===== *)
theory Cow_Hooks
  imports Cow_Copy
begin

text \<open>
  The functions \<open>libcow.c\<close> puts in the place of the C library's. \<open>k\<close> bounds the copy-up inside. A
  null path is \<open>None\<close>; the kernel answers it with \<open>EFAULT\<close>. The 64-bit names (\<open>open64\<close>,
  \<open>ftruncate64\<close>, ...) have their own entry point of the library, which on the 64-bit systems the
  shim is built for is the same kernel call.
\<close>

section \<open>Start\<close>

text \<open>The constructor reads the settings the shim keeps; the entry points it looks up are the \<open>k_\<close>
  functions of \<open>Cow_Kernel\<close>.\<close>

definition libcow_init :: "(string \<Rightarrow> string option) \<Rightarrow> cow_env \<Rightarrow> cow_env" where
  "libcow_init getenv env =
     env\<lparr>cv_track_readonly := env_enabled (getenv ''PDOCKER_COW_TRACK_READONLY_FDS'')
           \<or> env_enabled (getenv ''COW_TRACK_READONLY_FDS''),
         cv_copy_xattrs := env_enabled (getenv ''PDOCKER_COW_COPY_XATTRS'')
           \<or> env_enabled (getenv ''COW_COPY_XATTRS'')\<rparr>"

definition with_path :: "string option \<Rightarrow> (string \<Rightarrow> 'a cm) \<Rightarrow> 'a cm" where
  "with_path path f = (case path of None \<Rightarrow> with_answer (\<lambda>_. fail EFAULT) | Some p \<Rightarrow> f p)"

section \<open>Opening and truncating\<close>

definition open_hook :: "nat \<Rightarrow> cow_env \<Rightarrow> string option \<Rightarrow> u32 \<Rightarrow> nat \<Rightarrow> int cm" where
  "open_hook k env path flags mode =
     andThen (maybe_break k env path flags) (\<lambda>_.
       with_path path (\<lambda>p.
         andThen (k_open env p flags mode) (\<lambda>fd.
           andThen (remember_open_for_flags env fd p flags) (\<lambda>_. ret fd))))"

text \<open>The path the copy-up of an \<open>...at\<close> call works on: \<open>None\<close> when it cannot be found.\<close>

definition cow_path_at :: "int \<Rightarrow> string option \<Rightarrow> string option cm" where
  "cow_path_at dirfd path =
     (case path of None \<Rightarrow> ret None
      | Some p \<Rightarrow>
          if \<not> (p \<noteq> [] \<and> hd p = slash) \<and> dirfd \<noteq> AT_FDCWD then
            handle (resolve_at_path dirfd p) (\<lambda>q. ret (Some q)) (\<lambda>_. ret None)
          else ret (Some p))"

definition openat_hook :: "nat \<Rightarrow> cow_env \<Rightarrow> int \<Rightarrow> string option \<Rightarrow> u32 \<Rightarrow> nat \<Rightarrow> int cm" where
  "openat_hook k env dirfd path flags mode =
     andThen (cow_path_at dirfd path) (\<lambda>cow_path.
       andThen (if cow_path \<noteq> None then maybe_break k env cow_path flags else ret ()) (\<lambda>_.
         with_path path (\<lambda>p.
           andThen (k_openat env dirfd p flags mode) (\<lambda>fd.
             andThen (case cow_path of None \<Rightarrow> ret () | Some q \<Rightarrow> remember_open_for_flags env fd q flags)
               (\<lambda>_. ret fd)))))"

definition creat_hook :: "nat \<Rightarrow> cow_env \<Rightarrow> string option \<Rightarrow> nat \<Rightarrow> int cm" where
  "creat_hook k env path mode =
     andThen (break_hardlink_copy k env path False) (\<lambda>_.
       with_path path (\<lambda>p.
         andThen (k_open env p (O_CREAT OR O_WRONLY OR O_TRUNC) mode) (\<lambda>fd.
           andThen (remember_open fd p) (\<lambda>_. ret fd))))"

definition truncate_hook :: "nat \<Rightarrow> cow_env \<Rightarrow> string option \<Rightarrow> nat \<Rightarrow> unit cm" where
  "truncate_hook k env path len =
     andThen (break_hardlink_copy k env path (len \<noteq> 0)) (\<lambda>_.
       with_path path (\<lambda>p. k_meta env True p (SetLen len)))"

definition ftruncate_hook :: "nat \<Rightarrow> cow_env \<Rightarrow> int \<Rightarrow> nat \<Rightarrow> unit cm" where
  "ftruncate_hook k env = ftruncate_with (break_hardlink_copy_stat k env) env"

definition fopen_hook :: "nat \<Rightarrow> cow_env \<Rightarrow> string option \<Rightarrow> string \<Rightarrow> int cm" where
  "fopen_hook k env path mode =
     andThen (if mode_write mode then break_hardlink_copy k env path (\<not> mode_truncates (Some mode)) else ret ())
       (\<lambda>_. with_path path (\<lambda>p. k_fopen env p mode))"

definition open64_hook :: "nat \<Rightarrow> cow_env \<Rightarrow> string option \<Rightarrow> u32 \<Rightarrow> nat \<Rightarrow> int cm" where
  "open64_hook k env path flags mode =
     andThen (maybe_break k env path flags) (\<lambda>_.
       with_path path (\<lambda>p.
         andThen (k_open env p flags mode) (\<lambda>fd.
           andThen (remember_open_for_flags env fd p flags) (\<lambda>_. ret fd))))"

definition openat64_hook :: "nat \<Rightarrow> cow_env \<Rightarrow> int \<Rightarrow> string option \<Rightarrow> u32 \<Rightarrow> nat \<Rightarrow> int cm" where
  "openat64_hook k env dirfd path flags mode =
     andThen (cow_path_at dirfd path) (\<lambda>cow_path.
       andThen (if cow_path \<noteq> None then maybe_break k env cow_path flags else ret ()) (\<lambda>_.
         with_path path (\<lambda>p.
           andThen (k_openat env dirfd p flags mode) (\<lambda>fd.
             andThen (case cow_path of None \<Rightarrow> ret () | Some q \<Rightarrow> remember_open_for_flags env fd q flags)
               (\<lambda>_. ret fd)))))"

definition creat64_hook :: "nat \<Rightarrow> cow_env \<Rightarrow> string option \<Rightarrow> nat \<Rightarrow> int cm" where
  "creat64_hook k env path mode =
     andThen (break_hardlink_copy k env path False) (\<lambda>_.
       with_path path (\<lambda>p.
         andThen (k_open env p (O_CREAT OR O_WRONLY OR O_TRUNC) mode) (\<lambda>fd.
           andThen (remember_open fd p) (\<lambda>_. ret fd))))"

definition truncate64_hook :: "nat \<Rightarrow> cow_env \<Rightarrow> string option \<Rightarrow> nat \<Rightarrow> unit cm" where
  "truncate64_hook k env path len =
     andThen (break_hardlink_copy k env path (len \<noteq> 0)) (\<lambda>_.
       with_path path (\<lambda>p. k_meta env True p (SetLen len)))"

definition ftruncate64_hook :: "nat \<Rightarrow> cow_env \<Rightarrow> int \<Rightarrow> nat \<Rightarrow> unit cm" where
  "ftruncate64_hook k env fd len =
     reading (\<lambda>c. case fdtab_get c fd of
         Some p \<Rightarrow> andThen (break_hardlink_copy k env (Some p) (len \<noteq> 0)) (\<lambda>_. k_meta env True p (SetLen len))
       | None \<Rightarrow> k_meta_fd fd (SetLen len))"

definition fopen64_hook :: "nat \<Rightarrow> cow_env \<Rightarrow> string option \<Rightarrow> string \<Rightarrow> int cm" where
  "fopen64_hook k env path mode =
     andThen (if mode_write mode then break_hardlink_copy k env path (\<not> mode_truncates (Some mode)) else ret ())
       (\<lambda>_. with_path path (\<lambda>p. k_fopen env p mode))"

text \<open>They do what the plain names do, so what is shown of those holds of them.\<close>

lemma hooks64:
  "open64_hook = open_hook" "openat64_hook = openat_hook" "creat64_hook = creat_hook"
  "truncate64_hook = truncate_hook" "ftruncate64_hook = ftruncate_hook" "fopen64_hook = fopen_hook"
  by (simp_all add: fun_eq_iff open64_hook_def open_hook_def openat64_hook_def openat_hook_def creat64_hook_def
      creat_hook_def truncate64_hook_def truncate_hook_def ftruncate64_hook_def ftruncate_hook_def
      ftruncate_with_def break_hardlink_copy_def reading_def fopen64_hook_def fopen_hook_def split: option.split)

text \<open>\<open>freopen\<close> closes the stream's descriptor inside the library, where the shim does not see it.\<close>

definition freopen_hook :: "nat \<Rightarrow> cow_env \<Rightarrow> string option \<Rightarrow> string \<Rightarrow> int \<Rightarrow> int cm" where
  "freopen_hook k env path mode stream =
     andThen (if path \<noteq> None \<and> mode_write mode
              then break_hardlink_copy k env path (\<not> mode_truncates (Some mode)) else ret ())
       (\<lambda>_. case path of
          None \<Rightarrow> with_answer (\<lambda>_. ret stream)
        | Some p \<Rightarrow> andThen (ignoring (k_close stream)) (\<lambda>_. k_fopen env p mode))"

section \<open>Renaming\<close>

definition same_existing_entry :: "cow_env \<Rightarrow> cow \<Rightarrow> int \<Rightarrow> string option \<Rightarrow> int \<Rightarrow> string option \<Rightarrow> bool" where
  "same_existing_entry env c sfd src dfd dst =
     (let ino = (\<lambda>dirfd path. case path of None \<Rightarrow> None
                  | Some p \<Rightarrow>
                      if cw_stat c (cw_clock c) p \<noteq> None then None
                      else (case resolve_at env c False dirfd p of Inl e \<Rightarrow> None | Inr n \<Rightarrow> ino_at c n))
      in ino sfd src \<noteq> None \<and> ino sfd src = ino dfd dst)"

definition prepare_rename_destination ::
  "nat \<Rightarrow> cow_env \<Rightarrow> int \<Rightarrow> string option \<Rightarrow> int \<Rightarrow> string option \<Rightarrow> string option \<Rightarrow> unit cm" where
  "prepare_rename_destination k env sfd src dfd dst resolved_dst =
     (if dst = None \<or> resolved_dst = None then ret ()
      else reading (\<lambda>c. if same_existing_entry env c sfd src dfd dst then ret ()
                        else break_hardlink_copy_entry k env resolved_dst True))"

definition rename_hook :: "nat \<Rightarrow> cow_env \<Rightarrow> string option \<Rightarrow> string option \<Rightarrow> unit cm" where
  "rename_hook k env src dst =
     andThen (prepare_rename_destination k env AT_FDCWD src AT_FDCWD dst dst)
       (\<lambda>_. with_path src (\<lambda>s. with_path dst (\<lambda>d. k_rename env s d)))"

definition renameat_hook ::
  "nat \<Rightarrow> cow_env \<Rightarrow> int \<Rightarrow> string option \<Rightarrow> int \<Rightarrow> string option \<Rightarrow> unit cm" where
  "renameat_hook k env sfd src dfd dst =
     andThen (cow_path_at dfd dst) (\<lambda>cow_dst.
       andThen (if cow_dst \<noteq> None then prepare_rename_destination k env sfd src dfd dst cow_dst else ret ())
         (\<lambda>_. with_path src (\<lambda>s. with_path dst (\<lambda>d. k_renameat env sfd s dfd d))))"

section \<open>Attributes by path\<close>

text \<open>\<open>chmod\<close>, \<open>chown\<close>, \<open>utime\<close>, \<open>utimes\<close>, \<open>setxattr\<close> and \<open>removexattr\<close>: copy up, then change; the
  \<open>l...xattr\<close> calls change the entry itself.\<close>

definition meta_hook :: "nat \<Rightarrow> cow_env \<Rightarrow> bool \<Rightarrow> string option \<Rightarrow> meta \<Rightarrow> unit cm" where
  "meta_hook k env follow path m =
     andThen (break_hardlink k env path) (\<lambda>_. with_path path (\<lambda>p. k_meta env follow p m))"

definition chmod_hook :: "nat \<Rightarrow> cow_env \<Rightarrow> string option \<Rightarrow> nat \<Rightarrow> unit cm" where
  "chmod_hook k env path mode = meta_hook k env True path (SetMode mode)"

definition chown_hook :: "nat \<Rightarrow> cow_env \<Rightarrow> string option \<Rightarrow> nat \<Rightarrow> nat \<Rightarrow> unit cm" where
  "chown_hook k env path uid gid = meta_hook k env True path (SetOwner uid gid)"

definition lchown_hook :: "cow_env \<Rightarrow> string option \<Rightarrow> nat \<Rightarrow> nat \<Rightarrow> unit cm" where
  "lchown_hook env path uid gid = with_path path (\<lambda>p. k_meta env False p (SetOwner uid gid))"

definition utime_hook :: "nat \<Rightarrow> cow_env \<Rightarrow> string option \<Rightarrow> nat \<Rightarrow> unit cm" where
  "utime_hook k env path t = meta_hook k env True path (SetTimes t)"

definition utimes_hook :: "nat \<Rightarrow> cow_env \<Rightarrow> string option \<Rightarrow> nat \<Rightarrow> unit cm" where
  "utimes_hook k env path t = meta_hook k env True path (SetTimes t)"

definition setxattr_hook :: "nat \<Rightarrow> cow_env \<Rightarrow> string option \<Rightarrow> string \<Rightarrow> string \<Rightarrow> unit cm" where
  "setxattr_hook k env path key val = meta_hook k env True path (SetXattr key val)"

definition lsetxattr_hook :: "nat \<Rightarrow> cow_env \<Rightarrow> string option \<Rightarrow> string \<Rightarrow> string \<Rightarrow> unit cm" where
  "lsetxattr_hook k env path key val = meta_hook k env False path (SetXattr key val)"

definition removexattr_hook :: "nat \<Rightarrow> cow_env \<Rightarrow> string option \<Rightarrow> string \<Rightarrow> unit cm" where
  "removexattr_hook k env path key = meta_hook k env True path (DelXattr key)"

definition lremovexattr_hook :: "nat \<Rightarrow> cow_env \<Rightarrow> string option \<Rightarrow> string \<Rightarrow> unit cm" where
  "lremovexattr_hook k env path key = meta_hook k env False path (DelXattr key)"

definition nofollow :: "u32 \<Rightarrow> bool" where
  "nofollow flags \<longleftrightarrow> flag flags AT_SYMLINK_NOFOLLOW"

definition fchmodat_hook :: "nat \<Rightarrow> cow_env \<Rightarrow> int \<Rightarrow> string option \<Rightarrow> nat \<Rightarrow> u32 \<Rightarrow> unit cm" where
  "fchmodat_hook k env dirfd path mode flags =
     andThen (cow_path_at dirfd path) (\<lambda>cow_path.
       andThen (if cow_path \<noteq> None then break_hardlink k env cow_path else ret ())
         (\<lambda>_. with_path path (\<lambda>p. k_meta_at env (\<not> nofollow flags) dirfd p (SetMode mode))))"

definition fchownat_hook :: "nat \<Rightarrow> cow_env \<Rightarrow> int \<Rightarrow> string option \<Rightarrow> nat \<Rightarrow> nat \<Rightarrow> u32 \<Rightarrow> unit cm" where
  "fchownat_hook k env dirfd path uid gid flags =
     andThen (cow_path_at dirfd path) (\<lambda>cow_path.
       andThen (if cow_path \<noteq> None \<and> \<not> nofollow flags then break_hardlink k env cow_path else ret ())
         (\<lambda>_. with_path path (\<lambda>p. k_meta_at env (\<not> nofollow flags) dirfd p (SetOwner uid gid))))"

text \<open>\<open>utimensat\<close>: a null path means the descriptor itself.\<close>

definition utimensat_hook :: "nat \<Rightarrow> cow_env \<Rightarrow> int \<Rightarrow> string option \<Rightarrow> nat \<Rightarrow> u32 \<Rightarrow> unit cm" where
  "utimensat_hook k env dirfd path t flags =
     (case path of None \<Rightarrow> k_meta_fd dirfd (SetTimes t)
      | Some p \<Rightarrow>
          andThen (if nofollow flags then ret ()
                   else if (p \<noteq> [] \<and> hd p = slash) \<or> dirfd = AT_FDCWD then break_hardlink k env path
                   else andThen (handle (resolve_at_path dirfd p) (\<lambda>q. ret (Some q)) (\<lambda>_. ret None))
                     (\<lambda>cow_path. break_hardlink k env cow_path))
            (\<lambda>_. k_meta_at env (\<not> nofollow flags) dirfd p (SetTimes t)))"

section \<open>Attributes by descriptor, and the descriptors\<close>

definition meta_fd_hook :: "nat \<Rightarrow> cow_env \<Rightarrow> int \<Rightarrow> meta \<Rightarrow> unit cm" where
  "meta_fd_hook k env = meta_fd_with (break_hardlink_copy_stat k env) env"

definition fchmod_hook :: "nat \<Rightarrow> cow_env \<Rightarrow> int \<Rightarrow> nat \<Rightarrow> unit cm" where
  "fchmod_hook k env fd mode = meta_fd_hook k env fd (SetMode mode)"

definition fchown_hook :: "nat \<Rightarrow> cow_env \<Rightarrow> int \<Rightarrow> nat \<Rightarrow> nat \<Rightarrow> unit cm" where
  "fchown_hook k env fd uid gid = meta_fd_hook k env fd (SetOwner uid gid)"

definition futimens_hook :: "nat \<Rightarrow> cow_env \<Rightarrow> int \<Rightarrow> nat \<Rightarrow> unit cm" where
  "futimens_hook k env fd t = meta_fd_hook k env fd (SetTimes t)"

definition fsetxattr_hook :: "nat \<Rightarrow> cow_env \<Rightarrow> int \<Rightarrow> string \<Rightarrow> string \<Rightarrow> unit cm" where
  "fsetxattr_hook k env fd key val = meta_fd_hook k env fd (SetXattr key val)"

definition fremovexattr_hook :: "nat \<Rightarrow> cow_env \<Rightarrow> int \<Rightarrow> string \<Rightarrow> unit cm" where
  "fremovexattr_hook k env fd key = meta_fd_hook k env fd (DelXattr key)"

text \<open>\<open>dup\<close> keeps what the table holds for the new descriptor when the old one is not tracked.\<close>

definition dup_hook :: "int \<Rightarrow> int cm" where
  "dup_hook oldfd =
     andThen (k_dup oldfd) (\<lambda>newfd. reading (\<lambda>c. case fdtab_get c oldfd of
         None \<Rightarrow> ret newfd
       | Some p \<Rightarrow> andThen (change (fdtab_set newfd (Some p))) (\<lambda>_. ret newfd)))"

definition dup2_hook :: "int \<Rightarrow> int \<Rightarrow> int cm" where
  "dup2_hook oldfd newfd =
     andThen (k_dup2 oldfd newfd) (\<lambda>r. reading (\<lambda>c.
       andThen (change (fdtab_set newfd (fdtab_get c oldfd))) (\<lambda>_. ret r)))"

definition dup3_hook :: "int \<Rightarrow> int \<Rightarrow> int cm" where
  "dup3_hook oldfd newfd =
     andThen (k_dup3 oldfd newfd) (\<lambda>r. reading (\<lambda>c.
       andThen (change (fdtab_set newfd (fdtab_get c oldfd))) (\<lambda>_. ret r)))"

section \<open>The generic system call\<close>

text \<open>The numbers \<open>syscall\<close> looks at, with their decoded arguments, and \<open>openat\<close>, which it does not.\<close>

datatype sys_call =
    SysChmod "string option" nat
  | SysFchmodat int "string option" nat
  | SysChown "string option" nat nat
  | SysFchownat int "string option" nat nat u32
  | SysTruncate "string option" nat
  | SysFtruncate int nat
  | SysUtimensat int "string option" nat u32
  | SysSetxattr "string option" string string
  | SysRemovexattr "string option" string
  | SysFd int meta
  | SysOpenat int "string option" u32 nat

definition from_here :: "int \<Rightarrow> string option \<Rightarrow> bool" where
  "from_here dirfd path \<longleftrightarrow> (case path of None \<Rightarrow> False | Some p \<Rightarrow> (p \<noteq> [] \<and> hd p = slash) \<or> dirfd = AT_FDCWD)"

fun syscall_break :: "nat \<Rightarrow> cow_env \<Rightarrow> sys_call \<Rightarrow> unit cm" where
  "syscall_break k env (SysChmod path m) = break_hardlink k env path"
| "syscall_break k env (SysFchmodat dirfd path m) =
     (if from_here dirfd path then break_hardlink k env path else ret ())"
| "syscall_break k env (SysChown path u g) = break_hardlink k env path"
| "syscall_break k env (SysFchownat dirfd path u g flags) =
     (if from_here dirfd path \<and> \<not> nofollow flags then break_hardlink k env path else ret ())"
| "syscall_break k env (SysTruncate path len) = break_hardlink_copy k env path (len \<noteq> 0)"
| "syscall_break k env (SysFtruncate fd len) =
     reading (\<lambda>c. case fdtab_get c fd of None \<Rightarrow> ret () | Some p \<Rightarrow> break_hardlink_copy k env (Some p) (len \<noteq> 0))"
| "syscall_break k env (SysUtimensat dirfd path t flags) =
     (if from_here dirfd path \<and> \<not> nofollow flags then break_hardlink k env path else ret ())"
| "syscall_break k env (SysSetxattr path key val) = break_hardlink k env path"
| "syscall_break k env (SysRemovexattr path key) = break_hardlink k env path"
| "syscall_break k env (SysFd fd m) =
     reading (\<lambda>c. case fdtab_get c fd of None \<Rightarrow> ret () | Some p \<Rightarrow> break_hardlink k env (Some p))"
| "syscall_break k env (SysOpenat dirfd path flags m) = ret ()"

fun real_syscall :: "cow_env \<Rightarrow> sys_call \<Rightarrow> unit cm" where
  "real_syscall env (SysChmod path m) = with_path path (\<lambda>p. k_meta env True p (SetMode m))"
| "real_syscall env (SysFchmodat dirfd path m) = with_path path (\<lambda>p. k_meta_at env True dirfd p (SetMode m))"
| "real_syscall env (SysChown path u g) = with_path path (\<lambda>p. k_meta env True p (SetOwner u g))"
| "real_syscall env (SysFchownat dirfd path u g flags) =
     with_path path (\<lambda>p. k_meta_at env (\<not> nofollow flags) dirfd p (SetOwner u g))"
| "real_syscall env (SysTruncate path len) = with_path path (\<lambda>p. k_meta env True p (SetLen len))"
| "real_syscall env (SysFtruncate fd len) = k_meta_fd fd (SetLen len)"
| "real_syscall env (SysUtimensat dirfd path t flags) =
     (case path of None \<Rightarrow> k_meta_fd dirfd (SetTimes t)
      | Some p \<Rightarrow> k_meta_at env (\<not> nofollow flags) dirfd p (SetTimes t))"
| "real_syscall env (SysSetxattr path key val) = with_path path (\<lambda>p. k_meta env True p (SetXattr key val))"
| "real_syscall env (SysRemovexattr path key) = with_path path (\<lambda>p. k_meta env True p (DelXattr key))"
| "real_syscall env (SysFd fd m) = k_meta_fd fd m"
| "real_syscall env (SysOpenat dirfd path flags m) =
     with_path path (\<lambda>p. andThen (k_openat env dirfd p flags m) (\<lambda>_. ret ()))"

definition syscall_hook :: "nat \<Rightarrow> cow_env \<Rightarrow> sys_call \<Rightarrow> unit cm" where
  "syscall_hook k env call = andThen (syscall_break k env call) (\<lambda>_. real_syscall env call)"

end
