(* ===== verification/Cow_Frame.thy ===== *)
theory Cow_Frame
  imports Cow_Isolation Cow_Hooks
begin

text \<open>
  The copy-up leaves the caller's descriptors as they are: it opens files under free numbers and
  closes only those.
\<close>

definition open_as :: "int \<Rightarrow> fdesc \<Rightarrow> cow \<Rightarrow> bool" where
  "open_as fd d0 c \<longleftrightarrow>
     (\<exists>d. fd_at c fd = Some d \<and> fd_ino d = fd_ino d0 \<and> fd_name d = fd_name d0 \<and> fd_write d = fd_write d0)"

lemma open_as_self: "fd_at c fd = Some d \<Longrightarrow> open_as fd d c"
  by (auto simp: open_as_def)

lemma open_as_fds: "cw_fds c' = cw_fds c \<Longrightarrow> open_as fd d0 c' = open_as fd d0 c"
  by (simp add: open_as_def fd_at_def)

lemma open_as_updates [simp]:
  "open_as fd d0 (c\<lparr>cw_clock := t\<rparr>) = open_as fd d0 c" "open_as fd d0 (set_inode i x c) = open_as fd d0 c"
  "open_as fd d0 (add_inode x c) = open_as fd d0 c" "open_as fd d0 (add_name n i c) = open_as fd d0 c"
  "open_as fd d0 (del_name n c) = open_as fd d0 c" "open_as fd d0 (move_tree n m c) = open_as fd d0 c"
  "open_as fd d0 (move_name n m i c) = open_as fd d0 c"
  "open_as fd d0 (fdtab_set j p c) = open_as fd d0 c" "open_as fd d0 (fdtab_clear j c) = open_as fd d0 c"
  by (rule open_as_fds; simp add: set_inode_def add_inode_def add_name_def del_name_def move_tree_def
        move_name_def fdtab_set_def fdtab_clear_def)+

lemma map_of_filter_key: "map_of (filter (\<lambda>(j, _). j \<noteq> k) xs) n = (if n = k then None else map_of xs n)"
  by (induction xs) auto

lemma open_as_set_fd:
  "open_as fd d0 c \<Longrightarrow> (k = nat fd \<Longrightarrow> fd_ino d = fd_ino d0 \<and> fd_name d = fd_name d0 \<and> fd_write d = fd_write d0)
   \<Longrightarrow> open_as fd d0 (set_fd k d c)"
  by (auto simp: open_as_def fd_at_def set_fd_def map_of_filter_key split: if_splits)

lemma open_as_del_fd: "open_as fd d0 c \<Longrightarrow> k \<noteq> nat fd \<Longrightarrow> open_as fd d0 (del_fd k c)"
  by (auto simp: open_as_def fd_at_def del_fd_def map_of_filter_key split: if_splits)

lemma free_fd_free: "free_fd c \<notin> fst ` set (cw_fds c)"
proof (cases "find (\<lambda>k. k \<notin> fst ` set (cw_fds c)) [0..<Suc (length (cw_fds c))]")
  case None
  then have "{0..<Suc (length (cw_fds c))} \<subseteq> fst ` set (cw_fds c)" by (simp only: find_None_iff set_upt) auto
  then have "Suc (length (cw_fds c)) \<le> card (fst ` set (cw_fds c))"
    using card_mono [of "fst ` set (cw_fds c)" "{0..<Suc (length (cw_fds c))}"] by simp
  also have "\<dots> \<le> length (cw_fds c)" by (metis card_image_le card_length finite_set le_trans)
  finally show ?thesis by simp
next
  case (Some k)
  then have "free_fd c = k" by (simp only: free_fd_def option.case)
  moreover obtain i where "k = [0..<Suc (length (cw_fds c))] ! i"
    "[0..<Suc (length (cw_fds c))] ! i \<notin> fst ` set (cw_fds c)"
    using Some unfolding find_Some_iff by blast
  ultimately show ?thesis by (simp only: simp_thms)
qed

lemma open_not_free: "open_as fd d0 c \<Longrightarrow> free_fd c \<noteq> nat fd \<and> int (free_fd c) \<noteq> fd"
  using free_fd_free [of c] by (auto simp: open_as_def fd_at_def image_iff dest!: map_of_SomeD split: if_splits)

lemma open_as_same: "open_as fd d0 c \<Longrightarrow> fd_at c fd' = Some d \<Longrightarrow> nat fd' = nat fd
   \<Longrightarrow> fd_ino d = fd_ino d0 \<and> fd_name d = fd_name d0 \<and> fd_write d = fd_write d0"
  by (auto simp: open_as_def fd_at_def split: if_splits)

lemma open_as_clock_free [simp]: "free_fd (c\<lparr>cw_clock := t\<rparr>) = free_fd c"
  "free_fd (add_inode x c) = free_fd c" "free_fd (add_name n i c) = free_fd c" "free_fd (set_inode i x c) = free_fd c"
  by (simp_all add: free_fd_def add_inode_def add_name_def set_inode_def split: option.split)

section \<open>Calls of the C library\<close>

lemma byte_calls_frame:
  "keeps (open_as fd d0) (k_read j n)" "keeps (open_as fd d0) (k_write j s)"
  "keeps (open_as fd d0) (k_copy_file_range j j' n)" "keeps (open_as fd d0) (k_rewind j)"
  by (rule validI; auto simp: k_read_def k_write_def k_copy_file_range_def k_rewind_def run_defs write_bytes_def
        split: answer.splits option.splits if_splits
        intro!: open_as_set_fd dest: open_as_same)+

lemma meta_frame:
  "keeps (open_as fd d0) (k_meta env follow p m)" "keeps (open_as fd d0) (k_meta_fd j m)"
  "keeps (open_as fd d0) (k_unlink env p)" "keeps (open_as fd d0) (k_rename env p q)"
  by (rule validI; auto simp: k_meta_def meta_entry_def k_meta_fd_def change_meta_def k_unlink_def k_rename_def
        rename_entries_def rename_entry_def run_defs
        split: answer.splits option.splits sum.splits if_splits)+

definition fresh_fd :: "int \<Rightarrow> fdesc \<Rightarrow> int cres \<Rightarrow> cow \<Rightarrow> bool" where
  "fresh_fd fd d0 r c \<longleftrightarrow> open_as fd d0 c \<and> (\<forall>j. r = Done j \<longrightarrow> nat j \<noteq> nat fd)"

lemma open_inode_frame: "valid (open_as fd d0) (open_inode i w n) (fresh_fd fd d0)"
  by (rule validI) (auto simp: open_inode_def run_defs fresh_fd_def dest: open_not_free intro!: open_as_set_fd)

lemma k_open_frame: "valid (open_as fd d0) (k_open env p flags m) (fresh_fd fd d0)"
  by (rule validI)
     (auto simp: k_open_def open_entry_def open_existing_def open_missing_def open_inode_def run_defs fresh_fd_def
        split: answer.splits sum.splits option.splits ikind.splits if_splits
        intro!: open_as_set_fd dest: open_not_free)

lemma k_mkstemp_frame:
  "valid (open_as fd d0) (k_mkstemp env t) (\<lambda>r c. open_as fd d0 c \<and> (\<forall>p j. r = Done (p, j) \<longrightarrow> nat j \<noteq> nat fd))"
  by (rule validI)
     (auto simp: k_mkstemp_def open_inode_def run_defs split: answer.splits option.splits if_splits
        intro!: open_as_set_fd dest: open_not_free)

lemma close_hook_frame: "nat j \<noteq> nat fd \<Longrightarrow> keeps (open_as fd d0) (close_hook j)"
  by (rule validI) (auto simp: close_hook_def k_close_def run_defs split: answer.splits option.splits intro!: open_as_del_fd)

section \<open>The copy-up\<close>

lemma write_all_frame: "keeps (open_as fd d0) (write_all k tfd s)"
  by (induction k arbitrary: s) (auto intro!: keeps_rules byte_calls_frame)

lemma copy_file_fallback_frame: "keeps (open_as fd d0) (copy_file_fallback k sfd tfd)"
  by (induction k) (auto intro!: keeps_rules byte_calls_frame write_all_frame)

lemma range_loop_frame:
  assumes "\<And>j n. keeps (open_as fd d0) (ftr j n)"
  shows "keeps (open_as fd d0) (range_loop ftr k sfd tfd len0 copied)"
  by (induction k arbitrary: copied)
     (auto intro!: keeps_rules byte_calls_frame copy_file_fallback_frame assms)

definition breaker_frames :: "int \<Rightarrow> fdesc \<Rightarrow> breaker \<Rightarrow> bool" where
  "breaker_frames fd d0 brk \<longleftrightarrow> (\<forall>path copy_data follow. keeps (open_as fd d0) (brk path copy_data follow))"

lemma breaker_framesD: "breaker_frames fd d0 brk \<Longrightarrow> keeps (open_as fd d0) (brk path copy_data follow)"
  by (simp add: breaker_frames_def)

lemma frame_with_answer:
  "(\<And>n. keeps (open_as fd d0) (f n)) \<Longrightarrow> keeps (open_as fd d0) (with_answer f)"
  by (rule valid_with_answer [where P' = "open_as fd d0"]) simp_all

lemma with_frame:
  assumes "breaker_frames fd d0 brk"
  shows "keeps (open_as fd d0) (ftruncate_with brk env j len)" "keeps (open_as fd d0) (meta_fd_with brk env j m)"
    "keeps (open_as fd d0) (lsetxattr_with brk env p key val)"
  unfolding ftruncate_with_def meta_fd_with_def lsetxattr_with_def
  by (auto intro!: keeps_reading_all keeps_rules breaker_framesD [OF assms] meta_frame)

lemma copy_contents_frame:
  assumes brk: "breaker_frames fd d0 brk" and tfd: "nat tfd \<noteq> nat fd"
  shows "keeps (open_as fd d0) (copy_contents brk k env p tmp tfd len0)"
proof -
  have opened: "valid (fresh_fd fd d0 (Done sfd)) m (\<lambda>_. open_as fd d0)"
    if "nat sfd \<noteq> nat fd \<Longrightarrow> keeps (open_as fd d0) m" for sfd and m :: "unit cm"
    using that by (auto simp: valid_def fresh_fd_def)
  show ?thesis
    unfolding copy_contents_def copy_file_fast_def
    by (rule valid_handle [OF k_open_frame])
       (auto intro!: opened keeps_rules close_hook_frame range_loop_frame with_frame brk copy_file_fallback_frame
          meta_frame valid_pre [OF keeps_andThen] simp: tfd, auto simp: fresh_fd_def)
qed

lemma copy_xattrs_frame:
  assumes "breaker_frames fd d0 brk"
  shows "keeps (open_as fd d0) (copy_xattrs brk env p tmp)"
proof -
  have "keeps (open_as fd d0) (xattr_loop brk env p tmp keys)" for keys
    by (induction keys)
       (auto intro!: keeps_rules frame_with_answer keeps_reading_all with_frame assms split: sum.split option.split)
  then show ?thesis
    unfolding copy_xattrs_def
    by (auto intro!: keeps_rules frame_with_answer keeps_reading_all split: sum.split)
qed

lemma install_copy_frame: "keeps (open_as fd d0) (install_copy env tmp p)"
  unfolding install_copy_def Let_def
  by (auto intro!: keeps_rules cow_fail_step_keeps meta_frame)

lemma copy_up_frame:
  assumes brk: "breaker_frames fd d0 brk"
  shows "keeps (open_as fd d0) (copy_up brk k env p st copy_data)"
proof -
  have made: "valid (\<lambda>c. open_as fd d0 c \<and> nat j \<noteq> nat fd) m (\<lambda>_. open_as fd d0)"
    if "nat j \<noteq> nat fd \<Longrightarrow> keeps (open_as fd d0) m" for j and m :: "unit cm"
    using that by (auto simp: valid_def)
  show ?thesis
  proof (cases "tmp_template p")
    case (Inr t)
    show ?thesis
      unfolding copy_up_def Inr sum.case
      by (rule valid_andThen [OF k_mkstemp_frame])
         (auto intro!: made keeps_rules with_frame copy_contents_frame close_hook_frame copy_xattrs_frame
            install_copy_frame meta_frame brk)
  qed (simp add: copy_up_def keeps_rules)
qed

lemma break_hardlink_frame: "breaker_frames fd d0 (break_hardlink_copy_stat k env)"
proof (induction k)
  case (Suc k)
  then show ?case
    by (auto simp: breaker_frames_def intro!: keeps_rules keeps_reading_all copy_up_frame split: sum.split option.split)
qed (simp add: breaker_frames_def keeps_running)

end
