(* ===== verification/Cow_Session.thy ===== *)
theory Cow_Session
  imports Cow_Frame
begin

text \<open>
  Sessions of a container process: calls of the hooked functions and of functions the shim leaves
  alone, one after the other. \<open>covered\<close> names the calls the shim protects the image from; for them
  every hook keeps the invariant of theory \<open>Cow_Invariant\<close>.
\<close>

datatype cow_call =
    COpen "string option" u32 nat
  | COpenat int "string option" u32 nat
  | CCreat "string option" nat
  | CTruncate "string option" nat
  | CFtruncate int nat
  | CFopen "string option" string
  | CFreopen "string option" string int
  | CRename "string option" "string option"
  | CRenameat int "string option" int "string option"
  | CMeta bool "string option" meta
  | CLchown "string option" nat nat
  | CFchmodat int "string option" nat u32
  | CFchownat int "string option" nat nat u32
  | CUtimensat int "string option" nat u32
  | CMetaFd int meta
  | CClose int
  | CDup int
  | CDup2 int int
  | CDup3 int int
  | CSyscall sys_call
  | CRead int nat
  | CWrite int string
  | CUnlink string
  | CLink string string
  | CChdir string

definition void :: "'a cm \<Rightarrow> unit cm" where
  "void m = andThen m (\<lambda>_. ret ())"

fun run_call :: "nat \<Rightarrow> cow_env \<Rightarrow> cow_call \<Rightarrow> unit cm" where
  "run_call k env (COpen p flags mode) = void (open_hook k env p flags mode)"
| "run_call k env (COpenat d p flags mode) = void (openat_hook k env d p flags mode)"
| "run_call k env (CCreat p mode) = void (creat_hook k env p mode)"
| "run_call k env (CTruncate p len) = truncate_hook k env p len"
| "run_call k env (CFtruncate fd len) = ftruncate_hook k env fd len"
| "run_call k env (CFopen p mode) = void (fopen_hook k env p mode)"
| "run_call k env (CFreopen p mode fd) = void (freopen_hook k env p mode fd)"
| "run_call k env (CRename s d) = rename_hook k env s d"
| "run_call k env (CRenameat sfd s dfd d) = renameat_hook k env sfd s dfd d"
| "run_call k env (CMeta follow p m) = meta_hook k env follow p m"
| "run_call k env (CLchown p u g) = lchown_hook env p u g"
| "run_call k env (CFchmodat d p m flags) = fchmodat_hook k env d p m flags"
| "run_call k env (CFchownat d p u g flags) = fchownat_hook k env d p u g flags"
| "run_call k env (CUtimensat d p t flags) = utimensat_hook k env d p t flags"
| "run_call k env (CMetaFd fd m) = meta_fd_hook k env fd m"
| "run_call k env (CClose fd) = close_hook fd"
| "run_call k env (CDup fd) = void (dup_hook fd)"
| "run_call k env (CDup2 old new) = void (dup2_hook old new)"
| "run_call k env (CDup3 old new) = void (dup3_hook old new)"
| "run_call k env (CSyscall call) = syscall_hook k env call"
| "run_call k env (CRead fd n) = void (k_read fd n)"
| "run_call k env (CWrite fd s) = void (k_write fd s)"
| "run_call k env (CUnlink p) = k_unlink env p"
| "run_call k env (CLink old new) = k_link env old new"
| "run_call k env (CChdir p) = k_chdir env p"

text \<open>
  A relative lookup is protected when the path the shim finds for it names the entry the kernel
  finds: absolute paths, the working directory, and a descriptor whose remembered (or linked) path
  still names its directory. A call that does not follow the last link is protected when that entry
  is no file shared with the image; a call through an untracked descriptor when its file is not.
\<close>

definition at_agrees :: "cow_env \<Rightarrow> cow \<Rightarrow> int \<Rightarrow> string option \<Rightarrow> bool" where
  "at_agrees env c dirfd path \<longleftrightarrow>
     (case path of None \<Rightarrow> True
      | Some p \<Rightarrow>
          from_here dirfd path \<or>
          (case fd_at c dirfd of None \<Rightarrow> False
           | Some d \<Rightarrow>
               (case fdtab_get c dirfd of
                  Some t \<Rightarrow> length t + 1 + length p + 1 \<le> PATH_MAX \<and>
                    entry env c (t @ slash # p) = entry env c (absolute (fd_name d) p)
                | None \<Rightarrow>
                    (case cw_ans c (cw_clock c) of Bad e \<Rightarrow> False
                     | Ok n \<Rightarrow> length (fd_name d) + 1 + length p + 1 \<le> PATH_MAX))))"

definition at_private :: "baseline \<Rightarrow> cow_env \<Rightarrow> cow \<Rightarrow> bool \<Rightarrow> int \<Rightarrow> string option \<Rightarrow> bool" where
  "at_private b env c follow dirfd path \<longleftrightarrow>
     (case path of None \<Rightarrow> True | Some p \<Rightarrow> private_target b c (resolve_at env c follow dirfd p))"

definition opens_writable :: "u32 \<Rightarrow> bool" where
  "opens_writable flags \<longleftrightarrow> may_write flags \<or> flag flags O_TRUNC"

fun covered_syscall :: "baseline \<Rightarrow> cow_env \<Rightarrow> cow \<Rightarrow> sys_call \<Rightarrow> bool" where
  "covered_syscall b env c (SysFchmodat dirfd path m) \<longleftrightarrow>
     from_here dirfd path \<or> at_private b env c True dirfd path"
| "covered_syscall b env c (SysFchownat dirfd path u g flags) \<longleftrightarrow>
     from_here dirfd path \<and> \<not> nofollow flags \<or> at_private b env c (\<not> nofollow flags) dirfd path"
| "covered_syscall b env c (SysUtimensat dirfd path t flags) \<longleftrightarrow>
     (if path = None then fd_private b c dirfd
      else from_here dirfd path \<and> \<not> nofollow flags \<or> at_private b env c (\<not> nofollow flags) dirfd path)"
| "covered_syscall b env c (SysFd fd m) \<longleftrightarrow> fd_at c fd \<noteq> None \<and> fd_private b c fd"
| "covered_syscall b env c (SysOpenat dirfd path flags m) \<longleftrightarrow>
     \<not> opens_writable flags \<or> at_private b env c (follows flags) dirfd path"
| "covered_syscall b env c _ \<longleftrightarrow> True"

fun covered :: "baseline \<Rightarrow> cow_env \<Rightarrow> cow \<Rightarrow> cow_call \<Rightarrow> bool" where
  "covered b env c (COpenat dirfd path flags m) \<longleftrightarrow> at_agrees env c dirfd path"
| "covered b env c (CLchown path u g) \<longleftrightarrow>
     (case path of None \<Rightarrow> True | Some p \<Rightarrow> private_at b env c False p)"
| "covered b env c (CFchmodat dirfd path m flags) \<longleftrightarrow> at_agrees env c dirfd path"
| "covered b env c (CFchownat dirfd path u g flags) \<longleftrightarrow>
     (if nofollow flags then at_private b env c False dirfd path else at_agrees env c dirfd path)"
| "covered b env c (CUtimensat dirfd path t flags) \<longleftrightarrow>
     (if path = None then fd_private b c dirfd
      else if nofollow flags then at_private b env c False dirfd path else at_agrees env c dirfd path)"
| "covered b env c (CMetaFd fd m) \<longleftrightarrow> fdtab_get c fd \<noteq> None \<or> fd_private b c fd"
| "covered b env c (CSyscall call) \<longleftrightarrow> covered_syscall b env c call"
| "covered b env c _ \<longleftrightarrow> True"

text \<open>A process of the container: any covered calls, any answers, any bound for the loops.\<close>

inductive cow_session :: "baseline \<Rightarrow> cow_env \<Rightarrow> cow \<Rightarrow> cow \<Rightarrow> bool" for b env where
  cow_start: "cow_session b env c c"
| cow_call: "cow_session b env c0 c \<Longrightarrow> covered b env c call \<Longrightarrow> run_call k env call c = (r, c')
    \<Longrightarrow> cow_session b env c0 c'"

end
