(* ===== verification/Cow_Safety.thy ===== *)
theory Cow_Safety
  imports Cow_Session
begin

text \<open>
  Every covered call keeps the image: its hook copies up what it is about to change, and the call
  that follows only changes inodes of the container.
\<close>

lemma at_start: "inv_at b (cw_cwd c) {} c \<longleftrightarrow> image_kept b c \<and> truthful c"
  by (simp add: inv_at_def)

lemma kept_of_inv: "inv_at b cwd N c \<Longrightarrow> image_kept b c \<and> truthful c"
  by (simp add: inv_at_def)

section \<open>Opening\<close>

lemma clock_private_target [simp]:
  "private_target b (c\<lparr>cw_clock := t\<rparr>) x = private_target b c x"
  by (simp add: private_target_def)

lemma tmpfile_bits: "flag flags O_TMPFILE \<Longrightarrow> flag flags 0x400000 \<or> flag flags O_DIRECTORY"
proof -
  have "flags AND 0x404000 = (flags AND 0x4000) OR (flags AND 0x400000)"
    by (simp flip: bit.conj_disj_distrib)
  then show "flag flags O_TMPFILE \<Longrightarrow> ?thesis" by (auto simp: flag_def open_flags)
qed

lemma open_inode_keeps:
  "inv_at b cwd N c \<Longrightarrow> i < cw_next c \<Longrightarrow> (w \<Longrightarrow> fst b i = 0) \<Longrightarrow> open_inode i w n c = (r, c') \<Longrightarrow> inv_at b cwd N c'"
  using validD [OF keeps_open_inode [of w b i cwd N n]] by blast

lemma open_existing_keeps:
  assumes J: "inv_at b cwd {} c" and i: "i < cw_next c"
    and ok: "opens_writable flags \<Longrightarrow> flag flags O_CREAT \<and> flag flags O_EXCL \<or> flag flags O_DIRECTORY \<or> fst b i = 0"
    and run: "open_existing env flags mode n i c = (r, c')"
  shows "inv_at b cwd {} c'"
proof (cases "flag flags O_CREAT \<and> flag flags O_EXCL \<or> i_kind (cw_inodes c i) \<noteq> KDir \<and> flag flags O_DIRECTORY")
  case True
  with run J i show ?thesis
    by (cases "i_kind (cw_inodes c i)")
       (auto simp: open_existing_def run_defs next_not_shared split: if_splits intro!: inv_add_inode elim!: open_inode_keeps [rotated 3])
next
  case False
  have d: "i_kind (cw_inodes c i) \<noteq> KDir \<Longrightarrow> opens_writable flags \<Longrightarrow> fst b i = 0" using ok False by blast
  have w: "may_write flags \<Longrightarrow> opens_writable flags" "flag flags O_TRUNC \<Longrightarrow> opens_writable flags"
    by (simp_all add: opens_writable_def)
  have t: "inv_at b cwd {} (set_inode i (apply_meta (SetLen 0) (cw_inodes c i)) c)" if "fst b i = 0"
    using that J by (intro inv_set_inode) auto
  have n: "fst b (cw_next c) = 0" by (rule next_not_shared [OF J])
  have dk: "i_kind (cw_inodes c i) \<noteq> KDir \<longrightarrow> may_write flags \<or> flag flags O_TRUNC \<longrightarrow> fst b i = 0"
    using d w by blast
  from run False J i n dk show ?thesis
    by (cases "i_kind (cw_inodes c i)")
       (auto simp: open_existing_def run_defs simp del: apply_meta.simps split: if_splits
         intro!: inv_add_inode t elim!: open_inode_keeps [rotated 3])
qed

lemma open_missing_keeps:
  assumes J: "inv_at b cwd {} c" and run: "open_missing env flags mode n c = (r, c')"
  shows "inv_at b cwd {} c'"
proof -
  have new: "inv_at b cwd {} (add_name n (cw_next c) (add_inode (fresh_inode env mode) c))"
    by (rule inv_subset [OF inv_add_file [OF J]]) simp
  from run J next_not_shared [OF J] new show ?thesis
    by (auto simp: open_missing_def run_defs split: if_splits elim!: open_inode_keeps [rotated 3])
qed

lemma open_entry_keeps:
  "valid (\<lambda>c. inv_at b cwd {} c \<and>
      (opens_writable flags \<longrightarrow> flag flags O_CREAT \<and> flag flags O_EXCL \<or> flag flags O_TMPFILE \<or> private_target b c t))
     (open_entry env flags mode t) (\<lambda>_. inv_at b cwd {})"
proof (rule validI)
  fix c r c'
  assume pre: "inv_at b cwd {} c \<and>
      (opens_writable flags \<longrightarrow> flag flags O_CREAT \<and> flag flags O_EXCL \<or> flag flags O_TMPFILE \<or> private_target b c t)"
    and run: "open_entry env flags mode t c = (r, c')"
  let ?c = "c\<lparr>cw_clock := cw_clock c + 1\<rparr>"
  have J: "inv_at b cwd {} ?c" using pre by simp
  show "inv_at b cwd {} c'"
  proof (cases "(\<exists>e. cw_ans c (cw_clock c) = Bad e) \<or> flag flags 0x400000 \<and> \<not> flag flags O_DIRECTORY \<or> (\<exists>e. t = Inl e)")
    case True
    with run J show ?thesis by (auto simp: open_entry_def with_answer_def Let_def cm_defs split: answer.splits if_splits)
  next
    case False
    then obtain n a where t: "t = Inr n" and a: "cw_ans c (cw_clock c) = Ok a"
      by (cases t; cases "cw_ans c (cw_clock c)") auto
    show ?thesis
    proof (cases "ino_at c n")
      case None
      with run False t a have "open_missing env flags mode n ?c = (r, c')"
        by (auto simp: open_entry_def with_answer_def Let_def cm_defs)
      with J show ?thesis by (rule open_missing_keeps)
    next
      case (Some i)
      with run False t a have "open_existing env flags mode n i ?c = (r, c')"
        by (auto simp: open_entry_def with_answer_def Let_def cm_defs)
      moreover have "i < cw_next ?c" using ino_at_bound [OF J] Some by simp
      moreover have "flag flags O_CREAT \<and> flag flags O_EXCL \<or> flag flags O_DIRECTORY \<or> fst b i = 0" if "opens_writable flags"
        using pre that False tmpfile_bits [of flags] Some t by (auto simp: private_target_def)
      ultimately show ?thesis using open_existing_keeps [OF J] by blast
    qed
  qed
qed

text \<open>A path the process opens by name, after its copy-up.\<close>

lemma open_named_keeps:
  "valid (\<lambda>c. inv_at b cwd {} c \<and>
      (opens_writable flags \<longrightarrow> flag flags O_CREAT \<and> flag flags O_EXCL \<or> flag flags O_TMPFILE \<or> private_at b env c True p))
     (k_open env p flags mode) (\<lambda>_. inv_at b cwd {})"
  unfolding k_open_def
  by (rule valid_reading, rule valid_pre [OF open_entry_keeps])
     (cases "follows flags", auto intro: private_target_resolve dest: private_entry)

lemma open_at_keeps:
  "valid (\<lambda>c. inv_at b cwd {} c \<and>
      (opens_writable flags \<longrightarrow> flag flags O_CREAT \<and> flag flags O_EXCL \<or> flag flags O_TMPFILE
         \<or> private_target b c (resolve_at env c (follows flags) dirfd p)))
     (k_openat env dirfd p flags mode) (\<lambda>_. inv_at b cwd {})"
  unfolding k_openat_def by (rule valid_reading, rule valid_pre [OF open_entry_keeps]) auto

lemma meta_at_keeps:
  "valid (\<lambda>c. inv_at b cwd {} c \<and> private_target b c (resolve_at env c follow dirfd p))
     (k_meta_at env follow dirfd p m) (\<lambda>_. inv_at b cwd {})"
  unfolding k_meta_at_def by (rule valid_reading, rule valid_pre [OF meta_entry_keeps]) auto

lemma getcwd_keeps: "keeps (inv_at b cwd N) k_getcwd" and fd_link_keeps: "keeps (inv_at b cwd N) (k_fd_link fd)"
  unfolding k_getcwd_def k_fd_link_def
  by (auto intro!: keeps_with_answer keeps_reading_all keeps_rules keeps_with_fd intro: valid_ret)

lemma remember_open_keeps: "keeps (inv_at b cwd N) (remember_open fd p)"
  unfolding remember_open_def
  by (auto intro!: keeps_rules getcwd_keeps intro: valid_change)

lemma remember_flags_keeps: "keeps (inv_at b cwd N) (remember_open_for_flags env fd p flags)"
  unfolding remember_open_for_flags_def by (auto intro!: keeps_rules remember_open_keeps)

lemma void_keeps: "keeps J m \<Longrightarrow> keeps J (void m)"
  unfolding void_def by (rule keeps_andThen) (auto intro: keeps_ret)

lemma void_post: "valid P m (\<lambda>_. J) \<Longrightarrow> valid P (void m) (\<lambda>_. J)"
  unfolding void_def by (rule valid_andThen) (auto intro: keeps_ret)

lemma with_path_keeps:
  "(\<And>p. path = Some p \<Longrightarrow> valid P (f p) Q) \<Longrightarrow> (\<And>c. P c \<Longrightarrow> Q (Failed EFAULT) (c\<lparr>cw_clock := cw_clock c + 1\<rparr>))
   \<Longrightarrow> (\<And>e c. P c \<Longrightarrow> Q (Failed e) (c\<lparr>cw_clock := cw_clock c + 1\<rparr>)) \<Longrightarrow> valid P (with_path path f) Q"
  by (cases path) (auto simp: with_path_def valid_def with_answer_def Let_def cm_defs split: answer.splits)

lemma flags_write_iff: "flags_write flags \<longleftrightarrow> opens_writable flags \<or> flag flags O_APPEND"
  by (auto simp: flags_write_def opens_writable_def may_write_def)

section \<open>After the copy-up\<close>

definition broken :: "baseline \<Rightarrow> string \<Rightarrow> cow_env \<Rightarrow> string option \<Rightarrow> unit cres \<Rightarrow> cow \<Rightarrow> bool" where
  "broken b cwd env path r c \<longleftrightarrow>
     inv_at b cwd {} c \<and> (r = Done () \<longrightarrow> (\<forall>p. path = Some p \<longrightarrow> private_at b env c True p))"

lemma break_copy_broken: "valid (inv_at b cwd {}) (break_hardlink_copy k env path cd) (broken b cwd env path)"
  unfolding break_hardlink_copy_def broken_def by (rule breaker_okD [OF break_hardlink_ok])

lemma break_broken: "valid (inv_at b cwd {}) (break_hardlink k env path) (broken b cwd env path)"
  unfolding break_hardlink_def by (rule break_copy_broken)

lemma after_broken:
  assumes "valid (inv_at b cwd {}) m (broken b cwd env path)"
    and "valid (\<lambda>c. inv_at b cwd {} c \<and> (\<forall>p. path = Some p \<longrightarrow> private_at b env c True p)) n (\<lambda>_. inv_at b cwd {})"
  shows "keeps (inv_at b cwd {}) (andThen m (\<lambda>_. n))"
  by (rule valid_andThen [OF assms(1)]) (auto simp: broken_def intro: valid_pre [OF assms(2)])

lemma maybe_break_ok:
  "valid (inv_at b cwd {}) (maybe_break k env path flags)
     (\<lambda>r c. inv_at b cwd {} c \<and> (r = Done () \<longrightarrow> opens_writable flags \<longrightarrow>
        flag flags O_CREAT \<and> flag flags O_EXCL \<or> flag flags O_TMPFILE
        \<or> (\<forall>p. path = Some p \<longrightarrow> private_at b env c True p)))"
  unfolding maybe_break_def
  by (auto intro!: valid_if valid_ret valid_post [OF break_copy_broken] simp: flags_write_iff broken_def)

section \<open>The hooks\<close>

lemma open_hook_keeps: "keeps (inv_at b cwd {}) (open_hook k env path flags mode)"
  unfolding open_hook_def
  by (rule valid_andThen [OF maybe_break_ok])
     (auto intro!: with_path_keeps keeps_andThen remember_flags_keeps keeps_ret
        valid_andThen [OF valid_pre [OF open_named_keeps]])

lemma creat_flags: "opens_writable (O_CREAT OR O_WRONLY OR O_TRUNC)"
  by (simp add: opens_writable_def may_write_def open_flags flag_def)

lemma creat_hook_keeps: "keeps (inv_at b cwd {}) (creat_hook k env path mode)"
  unfolding creat_hook_def
  by (rule after_broken [OF break_copy_broken])
     (auto intro!: with_path_keeps keeps_andThen remember_open_keeps keeps_ret
        valid_andThen [OF valid_pre [OF open_named_keeps]])

lemma truncate_hook_keeps: "keeps (inv_at b cwd {}) (truncate_hook k env path len)"
  unfolding truncate_hook_def
  by (rule after_broken [OF break_copy_broken])
     (auto intro!: with_path_keeps valid_pre [OF k_meta_keeps])

lemma ftruncate_hook_keeps: "keeps (inv_at b cwd {}) (ftruncate_hook k env fd len)"
  unfolding ftruncate_hook_def by (rule ftruncate_with_keeps [OF break_hardlink_ok])

lemma meta_hook_keeps: "keeps (inv_at b cwd {}) (meta_hook k env follow path m)"
  unfolding meta_hook_def
  by (rule after_broken [OF break_broken])
     (cases follow; auto intro!: with_path_keeps valid_pre [OF k_meta_keeps] dest: private_entry)

lemma lchown_hook_keeps:
  "valid (\<lambda>c. inv_at b cwd {} c \<and> (\<forall>p. path = Some p \<longrightarrow> private_at b env c False p))
     (lchown_hook env path u g) (\<lambda>_. inv_at b cwd {})"
  unfolding lchown_hook_def by (auto intro!: with_path_keeps valid_pre [OF k_meta_keeps])

lemma meta_fd_hook_keeps:
  "valid (\<lambda>c. inv_at b cwd {} c \<and> (fdtab_get c fd \<noteq> None \<or> fd_private b c fd))
     (meta_fd_hook k env fd m) (\<lambda>_. inv_at b cwd {})"
  unfolding meta_fd_hook_def meta_fd_with_def
  by (rule valid_reading)
     (auto intro!: valid_option valid_pre [OF k_meta_fd_keeps] valid_pre [OF break_then_meta [OF break_hardlink_ok]])

section \<open>Calls relative to a directory\<close>

text \<open>\<open>names_target\<close>: the path \<open>q\<close> the shim works on names the entry the kernel finds for \<open>p\<close>.\<close>

definition names_target :: "cow_env \<Rightarrow> string \<Rightarrow> int \<Rightarrow> string \<Rightarrow> string \<Rightarrow> cow \<Rightarrow> bool" where
  "names_target env cwd dirfd p q c \<longleftrightarrow>
     (if from_here dirfd (Some p) then q = p
      else \<exists>d. open_as dirfd d c \<and> q \<noteq> [] \<and>
        cv_entry env (absolute cwd q) = cv_entry env (absolute cwd (absolute (fd_name d) p)))"

lemma private_same_entry:
  assumes "private_at b env c True q" "q \<noteq> []" "entry env c q = entry env c q'" "inv_at b cwd N c"
  shows "private_target b c (resolve env c follow q')"
proof -
  have "private_at b env c True q'" using assms(1-3) by (auto simp: private_at_def stat_at_def resolve_def split: if_splits)
  with assms(4) show ?thesis by (cases follow) (auto intro: private_target_resolve dest: private_entry)
qed

lemma absolute_nonempty [simp]: "absolute cwd p \<noteq> []"
  by (auto simp: absolute_def)

lemma absolute_slash: "p \<noteq> [] \<Longrightarrow> hd p = slash \<Longrightarrow> absolute cwd p = p"
  by (simp add: absolute_def)

lemma private_target_at:
  assumes J: "inv_at b cwd {} c" and nt: "names_target env cwd dirfd p q c" and priv: "private_at b env c True q"
  shows "private_target b c (resolve_at env c follow dirfd p)"
proof (cases "p = []")
  case True
  then show ?thesis by (simp add: resolve_at_def at_path_def private_target_def)
next
  case False
  have cwd: "cw_cwd c = cwd" using J by (simp add: inv_at_def)
  show ?thesis
  proof (cases "hd p = slash")
    case True
    with nt have "q = p" by (simp add: names_target_def from_here_def False)
    with priv J False True show ?thesis by (simp add: resolve_at_def at_path_def private_same_entry)
  next
    case rel: False
    show ?thesis
    proof (cases "dirfd = AT_FDCWD")
      case True
      with nt have q: "q = p" by (simp add: names_target_def from_here_def)
      show ?thesis
        using True rel False priv J q by (simp add: resolve_at_def at_path_def private_same_entry)
    next
      case fd: False
      with nt rel False obtain d where d: "open_as dirfd d c" "q \<noteq> []"
        "cv_entry env (absolute cwd q) = cv_entry env (absolute cwd (absolute (fd_name d) p))"
        by (auto simp: names_target_def from_here_def)
      then obtain d' where d': "fd_at c dirfd = Some d'" "fd_name d' = fd_name d" by (auto simp: open_as_def)
      have "private_target b c (resolve env c follow (absolute (fd_name d) p))"
        by (rule private_same_entry [OF priv d(2) _ J]) (simp add: entry_def cwd d(3))
      with d' fd rel False show ?thesis by (simp add: resolve_at_def at_path_def)
    qed
  qed
qed

text \<open>The shim's path names the kernel's target before the copy-up, and still does after it.\<close>

lemma resolve_at_path_names:
  assumes J: "inv_at b cwd {} c" and ok: "at_agrees env c dirfd (Some p)" and rel: "\<not> from_here dirfd (Some p)"
    and run: "resolve_at_path dirfd p c = (r, c')"
  shows "inv_at b cwd {} c' \<and> (\<exists>q. r = Done q \<and> names_target env cwd dirfd p q c')"
proof -
  have cwd: "cw_cwd c = cwd" using J by (simp add: inv_at_def)
  from rel have rel': "\<not> (p \<noteq> [] \<and> hd p = slash)" "dirfd \<noteq> AT_FDCWD" by (auto simp: from_here_def)
  from ok rel obtain d where d: "fd_at c dirfd = Some d" by (auto simp: at_agrees_def split: option.splits)
  then have oa: "open_as dirfd d c" by (rule open_as_self)
  show ?thesis
  proof (cases "fdtab_get c dirfd")
    case (Some t)
    with ok rel d have t: "length t + 1 + length p + 1 \<le> PATH_MAX"
      "entry env c (t @ slash # p) = entry env c (absolute (fd_name d) p)"
      by (auto simp: at_agrees_def)
    then have "r = Done (t @ slash # p)" "c' = c"
      using run rel' Some by (auto simp: resolve_at_path_def run_defs split: if_splits)
    with J oa t(2) rel show ?thesis by (auto simp: names_target_def entry_def cwd)
  next
    case None
    with ok rel d obtain n where n: "cw_ans c (cw_clock c) = Ok n" "length (fd_name d) + 1 + length p + 1 \<le> PATH_MAX"
      by (auto simp: at_agrees_def split: answer.splits)
    have short: "take (PATH_MAX - 1) (fd_name d) = fd_name d" using n(2) by simp
    have "r = Done (fd_name d @ slash # p)" "c' = c\<lparr>cw_clock := cw_clock c + 1\<rparr>"
      using run rel' None d n by (auto simp: resolve_at_path_def k_fd_link_def run_defs short split: if_splits)
    moreover have "absolute (fd_name d) p = fd_name d @ slash # p" using rel' by (auto simp: absolute_def)
    ultimately show ?thesis using J oa rel by (auto simp: names_target_def)
  qed
qed

lemma cow_path_names:
  assumes J: "inv_at b cwd {} c" and ok: "at_agrees env c dirfd path" and run: "cow_path_at dirfd path c = (r, c')"
  shows "inv_at b cwd {} c' \<and>
    (case path of None \<Rightarrow> r = Done None | Some p \<Rightarrow> \<exists>q. r = Done (Some q) \<and> names_target env cwd dirfd p q c')"
proof (cases path)
  case None
  with run J show ?thesis by (auto simp: cow_path_at_def cm_defs)
next
  case (Some p)
  show ?thesis
  proof (cases "from_here dirfd path")
    case True
    with run J Some show ?thesis by (auto simp: cow_path_at_def cm_defs from_here_def names_target_def split: if_splits)
  next
    case False
    obtain r1 c1 where r1: "resolve_at_path dirfd p c = (r1, c1)" by fastforce
    from resolve_at_path_names [OF J _ _ r1] ok False Some obtain q where
      "inv_at b cwd {} c1" "r1 = Done q" "names_target env cwd dirfd p q c1" by auto
    with run r1 False Some show ?thesis by (auto simp: cow_path_at_def handle_def cm_defs from_here_def split: if_splits)
  qed
qed

lemma names_target_kept:
  assumes "\<And>d. keeps (open_as dirfd d) m"
  shows "keeps (names_target env cwd dirfd p q) m"
  using validD [OF assms] by (fastforce simp: names_target_def intro!: validI split: if_splits)

lemma break_frame_all:
  "keeps (open_as fd d) (break_hardlink_copy k env path cd)" "keeps (open_as fd d) (break_hardlink k env path)"
  "keeps (open_as fd d) (maybe_break k env path flags)"
  using breaker_framesD [OF break_hardlink_frame]
  by (auto simp: break_hardlink_copy_def break_hardlink_def maybe_break_def intro!: valid_if keeps_ret)

text \<open>The shape of the \<open>...at\<close> hooks: find the path, copy up, call.\<close>

lemma at_hook_keeps:
  assumes brk: "\<And>q. valid (inv_at b cwd {}) (m q) (\<lambda>r c. inv_at b cwd {} c \<and> (r = Done () \<longrightarrow> safe \<or> private_at b env c True q))"
    and frame: "\<And>q d. keeps (open_as dirfd d) (m q)"
    and call: "\<And>p cp. path = Some p \<Longrightarrow> valid (\<lambda>c. inv_at b cwd {} c \<and> (safe \<or> (\<forall>follow. private_target b c (resolve_at env c follow dirfd p))))
                  (n cp p) (\<lambda>_. inv_at b cwd {})"
  shows "valid (\<lambda>c. inv_at b cwd {} c \<and> at_agrees env c dirfd path)
     (andThen (cow_path_at dirfd path) (\<lambda>cp. andThen (case cp of None \<Rightarrow> ret () | Some q \<Rightarrow> m q)
         (\<lambda>_. with_path path (n cp)))) (\<lambda>_. inv_at b cwd {})"
proof (rule validI)
  fix c r c'
  assume pre: "inv_at b cwd {} c \<and> at_agrees env c dirfd path"
    and run: "andThen (cow_path_at dirfd path) (\<lambda>cp. andThen (case cp of None \<Rightarrow> ret () | Some q \<Rightarrow> m q)
         (\<lambda>_. with_path path (n cp))) c = (r, c')"
  obtain r1 c1 where r1: "cow_path_at dirfd path c = (r1, c1)" by fastforce
  note names = cow_path_names [OF conjunct1 [OF pre] conjunct2 [OF pre] r1]
  show "inv_at b cwd {} c'"
  proof (cases path)
    case None
    with names run r1 show ?thesis
      by (auto simp: andThen_def handle_def with_path_def with_answer_def cm_defs Let_def split: answer.splits)
  next
    case (Some p)
    with names obtain q where q: "inv_at b cwd {} c1" "r1 = Done (Some q)" "names_target env cwd dirfd p q c1" by auto
    obtain r2 c2 where r2: "m q c1 = (r2, c2)" by fastforce
    have b2: "inv_at b cwd {} c2" "r2 = Done () \<longrightarrow> safe \<or> private_at b env c2 True q" using validD [OF brk q(1) r2] by auto
    have "names_target env cwd dirfd p q c2" using validD [OF names_target_kept [OF frame] q(3) r2] .
    with b2 have t: "r2 = Done () \<longrightarrow> safe \<or> (\<forall>follow. private_target b c2 (resolve_at env c2 follow dirfd p))"
      using private_target_at by blast
    show ?thesis
    proof (cases "r2 = Done ()")
      case True
      then have "n (Some q) p c2 = (r, c')" using run r1 q r2 Some by (simp add: andThen_def handle_def with_path_def)
      with validD [OF call [OF Some]] b2 t True show ?thesis by blast
    next
      case False
      with run r1 q r2 Some b2 show ?thesis by (cases r2) (auto simp: andThen_def handle_def cm_defs)
    qed
  qed
qed

lemma openat_hook_keeps:
  "valid (\<lambda>c. inv_at b cwd {} c \<and> at_agrees env c dirfd path) (openat_hook k env dirfd path flags mode) (\<lambda>_. inv_at b cwd {})"
proof -
  let ?safe = "opens_writable flags \<longrightarrow> flag flags O_CREAT \<and> flag flags O_EXCL \<or> flag flags O_TMPFILE"
  have same: "(if cp \<noteq> None then maybe_break k env cp flags else ret ())
      = (case cp of None \<Rightarrow> ret () | Some q \<Rightarrow> maybe_break k env (Some q) flags)" for cp
    by (cases cp) simp_all
  show ?thesis
    unfolding openat_hook_def same
    by (rule at_hook_keeps [where safe = ?safe])
       (auto intro!: valid_post [OF maybe_break_ok] break_frame_all keeps_andThen remember_flags_keeps keeps_ret
          valid_andThen [OF valid_pre [OF open_at_keeps]] split: option.split)
qed

lemma meta_at_hook_keeps:
  assumes "\<And>cp p. path = Some p \<Longrightarrow> n cp p = k_meta_at env follow dirfd p m"
  shows "valid (\<lambda>c. inv_at b cwd {} c \<and> at_agrees env c dirfd path)
     (andThen (cow_path_at dirfd path) (\<lambda>cp. andThen (case cp of None \<Rightarrow> ret () | Some q \<Rightarrow> break_hardlink k env (Some q))
         (\<lambda>_. with_path path (n cp)))) (\<lambda>_. inv_at b cwd {})"
  by (rule at_hook_keeps [where safe = False])
     (auto intro!: valid_post [OF break_broken] break_frame_all valid_pre [OF meta_at_keeps] simp: broken_def assms)

lemma if_cow_path:
  "(if cp \<noteq> None then break_hardlink k env cp else ret ())
     = (case cp of None \<Rightarrow> ret () | Some q \<Rightarrow> break_hardlink k env (Some q))"
  by (cases cp) simp_all

lemma fchmodat_hook_keeps:
  "valid (\<lambda>c. inv_at b cwd {} c \<and> at_agrees env c dirfd path) (fchmodat_hook k env dirfd path mode flags) (\<lambda>_. inv_at b cwd {})"
  unfolding fchmodat_hook_def if_cow_path by (rule meta_at_hook_keeps) simp

text \<open>Without following the last link there is no copy-up; the entry itself must be the container's.\<close>

lemma cow_path_keeps: "keeps (inv_at b cwd N) (cow_path_at dirfd path)"
  unfolding cow_path_at_def resolve_at_path_def
  by (auto intro!: keeps_rules keeps_reading_all getcwd_keeps fd_link_keeps)

lemma cow_path_frame: "keeps (\<lambda>c. private_target b c (resolve_at env c follow dirfd p)) (cow_path_at dirfd' path)"
  by (rule validI)
     (auto simp: cow_path_at_def resolve_at_path_def k_getcwd_def k_fd_link_def run_defs resolve_at_def at_path_def
        split: option.splits if_splits answer.splits)

lemma ret_andThen [simp]: "andThen (ret x) f = f x"
  by (rule ext) (simp add: andThen_def handle_def ret_def)

lemma fchownat_hook_keeps:
  "valid (\<lambda>c. inv_at b cwd {} c \<and>
        (if nofollow flags then at_private b env c False dirfd path else at_agrees env c dirfd path))
     (fchownat_hook k env dirfd path u g flags) (\<lambda>_. inv_at b cwd {})"
proof (cases "nofollow flags")
  case False
  then show ?thesis
    using meta_at_hook_keeps [of path "\<lambda>_ p. k_meta_at env True dirfd p (SetOwner u g)" env True dirfd]
    by (simp add: fchownat_hook_def if_cow_path del: not_None_eq)
next
  case True
  have kept: "keeps (\<lambda>c. inv_at b cwd {} c \<and> (\<forall>p. path = Some p \<longrightarrow> private_target b c (resolve_at env c False dirfd p)))
      (cow_path_at dirfd path)"
  proof (rule validI)
    fix c r c'
    assume "inv_at b cwd {} c \<and> (\<forall>p. path = Some p \<longrightarrow> private_target b c (resolve_at env c False dirfd p))"
      and run: "cow_path_at dirfd path c = (r, c')"
    then have pre: "inv_at b cwd {} c" "\<And>p. path = Some p \<Longrightarrow> private_target b c (resolve_at env c False dirfd p)"
      by simp_all
    have "inv_at b cwd {} c'" by (rule validD [OF cow_path_keeps pre(1) run])
    moreover have "private_target b c' (resolve_at env c' False dirfd p)" if "path = Some p" for p
      by (rule validD [OF cow_path_frame pre(2) [OF that] run])
    ultimately show "inv_at b cwd {} c' \<and> (\<forall>p. path = Some p \<longrightarrow> private_target b c' (resolve_at env c' False dirfd p))"
      by simp
  qed
  show ?thesis
    unfolding fchownat_hook_def
    by (rule valid_andThen [OF valid_pre [OF kept]])
       (auto simp: True at_private_def intro!: with_path_keeps valid_pre [OF meta_at_keeps])
qed

text \<open>\<open>utimensat\<close> finds the path the way \<open>cow_path_at\<close> does.\<close>

lemma utimensat_as_at:
  "path = Some p \<Longrightarrow> \<not> nofollow flags \<Longrightarrow>
   utimensat_hook k env dirfd path t flags c =
   andThen (cow_path_at dirfd path) (\<lambda>cp. andThen (break_hardlink k env cp)
     (\<lambda>_. with_path path (\<lambda>p. k_meta_at env True dirfd p (SetTimes t)))) c"
  by (auto simp: utimensat_hook_def cow_path_at_def andThen_def handle_def with_path_def cm_defs split: cres.splits prod.splits)

lemma break_none: "break_hardlink (Suc k) env None = ret ()"
  by (rule ext) (simp add: break_hardlink_def break_hardlink_copy_def)

lemma utimensat_hook_keeps:
  "valid (\<lambda>c. inv_at b cwd {} c \<and>
        (if path = None then fd_private b c dirfd
         else if nofollow flags then at_private b env c False dirfd path else at_agrees env c dirfd path))
     (utimensat_hook k env dirfd path t flags) (\<lambda>_. inv_at b cwd {})"
proof (cases path)
  case None
  then show ?thesis by (auto simp: utimensat_hook_def intro!: valid_pre [OF k_meta_fd_keeps])
next
  case (Some p)
  show ?thesis
  proof (cases "nofollow flags")
    case True
    then show ?thesis
      by (auto simp: utimensat_hook_def Some at_private_def intro!: valid_pre [OF meta_at_keeps])
  next
    case False
    have "valid (\<lambda>c. inv_at b cwd {} c \<and> at_agrees env c dirfd path)
      (andThen (cow_path_at dirfd path) (\<lambda>cp. andThen (break_hardlink k env cp)
         (\<lambda>_. with_path path (\<lambda>p. k_meta_at env True dirfd p (SetTimes t))))) (\<lambda>_. inv_at b cwd {})"
    proof (rule validI)
      fix c r c'
      assume pre: "inv_at b cwd {} c \<and> at_agrees env c dirfd path"
        and run: "andThen (cow_path_at dirfd path) (\<lambda>cp. andThen (break_hardlink k env cp)
         (\<lambda>_. with_path path (\<lambda>p. k_meta_at env True dirfd p (SetTimes t)))) c = (r, c')"
      obtain r1 c1 where r1: "cow_path_at dirfd path c = (r1, c1)" by fastforce
      from cow_path_names [OF conjunct1 [OF pre] conjunct2 [OF pre] r1] Some obtain q where q: "r1 = Done (Some q)" by auto
      then have "andThen (cow_path_at dirfd path) (\<lambda>cp. andThen (case cp of None \<Rightarrow> ret () | Some q \<Rightarrow> break_hardlink k env (Some q))
         (\<lambda>_. with_path path (\<lambda>p. k_meta_at env True dirfd p (SetTimes t)))) c = (r, c')"
        using run r1 by (simp add: andThen_def handle_def)
      with validD [OF meta_at_hook_keeps [where n = "\<lambda>_ p. k_meta_at env True dirfd p (SetTimes t)"]] pre
      show "inv_at b cwd {} c'" by blast
    qed
    then show ?thesis
      using utimensat_as_at [OF Some False] by (simp add: valid_def Some False)
  qed
qed

section \<open>Renames, streams, descriptors\<close>

lemma rename_entries_keeps: "keeps (inv_at b cwd {}) (rename_entries src dst)"
proof -
  have mv: "inv_at b cwd {} (move_name n1 n2 i c)" if "inv_at b cwd {} c" "ino_at c n1 = Some i" for n1 n2 i c
    unfolding move_name_def
    by (rule inv_add_name_dir) (use that in \<open>auto intro: inv_del_name dest: ino_at_bound\<close>)
  show ?thesis
    by (rule validI)
       (auto simp: rename_entries_def rename_entry_def run_defs
          split: answer.splits sum.splits option.splits if_splits intro!: inv_move_tree mv)
qed

lemma break_entry_keeps: "keeps (inv_at b cwd N) (break_hardlink_copy_entry k env path cd)"
  unfolding break_hardlink_copy_entry_def by (rule breaker_keeps [OF break_hardlink_ok])

lemma prepare_keeps: "keeps (inv_at b cwd N) (prepare_rename_destination k env sfd src dfd dst q)"
  unfolding prepare_rename_destination_def
  by (auto intro!: keeps_rules keeps_reading_all break_entry_keeps)

lemma rename_hook_keeps: "keeps (inv_at b cwd {}) (rename_hook k env src dst)"
  unfolding rename_hook_def k_rename_def
  by (auto intro!: keeps_rules prepare_keeps with_path_keeps keeps_reading_all rename_entries_keeps)

lemma renameat_hook_keeps: "keeps (inv_at b cwd {}) (renameat_hook k env sfd src dfd dst)"
  unfolding renameat_hook_def k_renameat_def
  by (auto intro!: keeps_rules cow_path_keeps prepare_keeps with_path_keeps keeps_reading_all rename_entries_keeps)

lemma fopen_writable: "fopen_flags mode = Some flags \<Longrightarrow> opens_writable flags \<Longrightarrow> mode_write mode"
  by (auto simp: fopen_flags_def mode_write_def opens_writable_def may_write_def open_flags flag_def list_ex_iff Let_def
      split: list.splits if_splits dest: in_set_takeD)

lemma k_fopen_keeps:
  "valid (\<lambda>c. inv_at b cwd {} c \<and> (mode_write mode \<longrightarrow> private_at b env c True p)) (k_fopen env p mode) (\<lambda>_. inv_at b cwd {})"
  unfolding k_fopen_def
  by (auto intro!: valid_option valid_fail valid_pre [OF open_named_keeps] dest: fopen_writable)

lemma fopen_hook_keeps: "keeps (inv_at b cwd {}) (fopen_hook k env path mode)"
  unfolding fopen_hook_def
  by (cases "mode_write mode")
     (auto intro!: after_broken [OF break_copy_broken] with_path_keeps valid_pre [OF k_fopen_keeps] keeps_andThen keeps_ret)

lemma k_close_private: "keeps (\<lambda>c. inv_at b cwd {} c \<and> private_at b env c True p) (k_close fd)"
proof -
  have frame: "private_at b env (del_fd k c) True p = private_at b env c True p" for k c
  proof -
    have same: "ino_at (del_fd k c) n = ino_at c n" "cw_cwd (del_fd k c) = cw_cwd c" "cw_inodes (del_fd k c) = cw_inodes c" for n
      by (simp_all add: del_fd_def ino_at_def)
    have "walk env (del_fd k c) j n = walk env c j n" for j n
      by (induction j arbitrary: n) (auto simp: same split: option.splits ikind.splits)
    then show ?thesis by (simp add: private_at_def stat_at_def resolve_def entry_def same split: sum.split)
  qed
  show ?thesis
    by (rule validI) (auto simp: k_close_def run_defs frame split: answer.splits option.splits intro!: inv_del_fd)
qed

lemma freopen_hook_keeps: "keeps (inv_at b cwd {}) (freopen_hook k env path mode stream)"
proof (cases "path \<noteq> None \<and> mode_write mode")
  case True
  then obtain p where p: "path = Some p" by blast
  have "valid (\<lambda>c. inv_at b cwd {} c \<and> (\<forall>p'. path = Some p' \<longrightarrow> private_at b env c True p'))
      (andThen (ignoring (k_close stream)) (\<lambda>_. k_fopen env p mode)) (\<lambda>_. inv_at b cwd {})"
    by (rule valid_andThen [OF valid_pre [OF keeps_ignoring [OF k_close_private [of b cwd env p]]]])
       (auto simp: p intro!: valid_pre [OF k_fopen_keeps])
  with True show ?thesis
    unfolding freopen_hook_def by (auto simp: p intro!: after_broken [OF break_copy_broken])
next
  case False
  then have "keeps (inv_at b cwd {}) (case path of None \<Rightarrow> with_answer (\<lambda>_. ret stream)
        | Some p \<Rightarrow> andThen (ignoring (k_close stream)) (\<lambda>_. k_fopen env p mode))"
    by (cases path) (auto intro!: keeps_with_answer keeps_rules byte_calls_keep valid_pre [OF k_fopen_keeps])
  with False show ?thesis unfolding freopen_hook_def by (auto intro!: keeps_andThen keeps_ret)
qed

lemma dup_keeps:
  "keeps (inv_at b cwd N) (k_dup fd)" "keeps (inv_at b cwd N) (k_dup2 old new)" "keeps (inv_at b cwd N) (k_dup3 old new)"
  by (rule validI; auto simp: k_dup_def k_dup2_def k_dup3_def run_defs split: answer.splits option.splits if_splits
      intro!: inv_set_fd dest: fd_at_props)+

lemma dup_hook_keeps:
  "keeps (inv_at b cwd N) (dup_hook fd)" "keeps (inv_at b cwd N) (dup2_hook old new)" "keeps (inv_at b cwd N) (dup3_hook old new)"
  unfolding dup_hook_def dup2_hook_def dup3_hook_def
  by (auto intro!: keeps_andThen dup_keeps keeps_reading_all valid_option keeps_ret valid_change)

section \<open>The generic system call\<close>

text \<open>A relative path looked up from the working directory is the path itself.\<close>

lemma from_here_resolve:
  "from_here dirfd (Some p) \<Longrightarrow> resolve_at env c follow dirfd p = resolve env c follow p"
  by (auto simp: from_here_def resolve_at_def at_path_def resolve_def)

lemma syscall_at_keeps:
  assumes "from_here dirfd path \<and> \<not> nofollow flags"
  shows "keeps (inv_at b cwd {}) (andThen (break_hardlink k env path)
     (\<lambda>_. with_path path (\<lambda>p. k_meta_at env follow dirfd p m)))"
proof -
  obtain p where p: "path = Some p" using assms by (auto simp: from_here_def split: option.splits)
  have "valid (\<lambda>c. inv_at b cwd {} c \<and> (\<forall>p. path = Some p \<longrightarrow> private_at b env c True p))
      (k_meta_at env follow dirfd p m) (\<lambda>_. inv_at b cwd {})"
    using assms
    by (cases follow)
       (auto simp: p from_here_resolve dest: private_entry intro!: valid_pre [OF meta_at_keeps] private_target_resolve)
  then show ?thesis by (auto simp: p with_path_def intro!: after_broken [OF break_broken])
qed

lemma fd_private_kept:
  "valid (\<lambda>c. inv_at b cwd {} c \<and> fd_at c fd \<noteq> None \<and> fd_private b c fd)
     (case path of None \<Rightarrow> ret () | Some p \<Rightarrow> break_hardlink k env (Some p)) (\<lambda>_ c. inv_at b cwd {} c \<and> fd_private b c fd)"
proof (cases path)
  case None
  then show ?thesis by (auto intro: valid_ret)
next
  case (Some p)
  show ?thesis
    unfolding Some option.case
  proof (rule validI)
    fix c r c'
    assume pre: "inv_at b cwd {} c \<and> fd_at c fd \<noteq> None \<and> fd_private b c fd" and run: "break_hardlink k env (Some p) c = (r, c')"
    then obtain d where d: "fd_at c fd = Some d" "fst b (fd_ino d) = 0" by (auto simp: fd_private_def)
    have "open_as fd d c'" using validD [OF break_frame_all(2) open_as_self [OF d(1)] run] .
    with d(2) have "fd_private b c' fd" by (auto simp: open_as_def fd_private_def)
    with validD [OF break_broken conjunct1 [OF pre] run] show "inv_at b cwd {} c' \<and> fd_private b c' fd" by (simp add: broken_def)
  qed
qed

lemma private_only_keeps:
  "valid (\<lambda>c. inv_at b cwd {} c \<and> at_private b env c follow dirfd path)
     (with_path path (\<lambda>p. k_meta_at env follow dirfd p m)) (\<lambda>_. inv_at b cwd {})"
  by (auto intro!: with_path_keeps valid_pre [OF meta_at_keeps] simp: at_private_def)

lemma syscall_meta_keeps:
  "keeps (inv_at b cwd {}) (andThen (break_hardlink k env path) (\<lambda>_. with_path path (\<lambda>p. k_meta env True p m)))"
  by (rule after_broken [OF break_broken]) (auto intro!: with_path_keeps valid_pre [OF k_meta_keeps])

lemma syscall_ftruncate_keeps: "keeps (inv_at b cwd {}) (syscall_hook k env (SysFtruncate fd len))"
proof -
  have "keeps (inv_at b cwd {}) (break_hardlink_copy k env path cd)" for path cd
    unfolding break_hardlink_copy_def by (rule breaker_keeps [OF break_hardlink_ok])
  then show ?thesis
    unfolding syscall_hook_def
    by (auto intro!: keeps_andThen keeps_reading_all keeps_ret valid_option valid_pre [OF k_meta_fd_keeps])
qed

lemma syscall_fd_keeps:
  "valid (\<lambda>c. inv_at b cwd {} c \<and> fd_at c fd \<noteq> None \<and> fd_private b c fd) (syscall_hook k env (SysFd fd m)) (\<lambda>_. inv_at b cwd {})"
  unfolding syscall_hook_def syscall_break.simps real_syscall.simps
proof (rule valid_andThen)
  show "valid (\<lambda>c. inv_at b cwd {} c \<and> fd_at c fd \<noteq> None \<and> fd_private b c fd)
      (reading (\<lambda>c. case fdtab_get c fd of None \<Rightarrow> ret () | Some p \<Rightarrow> break_hardlink k env (Some p)))
      (\<lambda>_ c. inv_at b cwd {} c \<and> fd_private b c fd)"
    by (rule valid_reading_pure) (rule fd_private_kept)
qed (auto intro: valid_pre [OF k_meta_fd_keeps])

lemma syscall_hook_keeps:
  "valid (\<lambda>c. inv_at b cwd {} c \<and> covered_syscall b env c call) (syscall_hook k env call) (\<lambda>_. inv_at b cwd {})"
proof (cases call)
  case (SysFchmodat dirfd path m)
  show ?thesis
  proof (cases "from_here dirfd path")
    case True
    with syscall_at_keeps [of dirfd path 0] show ?thesis
      by (auto simp: SysFchmodat syscall_hook_def nofollow_def flag_def intro: valid_pre)
  next
    case False
    then show ?thesis by (auto simp: SysFchmodat syscall_hook_def intro: valid_pre [OF private_only_keeps])
  qed
next
  case (SysFchownat dirfd path u g flags)
  show ?thesis
  proof (cases "from_here dirfd path \<and> \<not> nofollow flags")
    case True
    with syscall_at_keeps [OF True] show ?thesis by (auto simp: SysFchownat syscall_hook_def intro: valid_pre)
  next
    case False
    then show ?thesis by (auto simp: SysFchownat syscall_hook_def intro: valid_pre [OF private_only_keeps])
  qed
next
  case (SysUtimensat dirfd path t flags)
  show ?thesis
  proof (cases path)
    case None
    then show ?thesis
      by (auto simp: SysUtimensat syscall_hook_def from_here_def intro: valid_pre [OF k_meta_fd_keeps])
  next
    case (Some p)
    have w: "with_path path f = f p" for f :: "string \<Rightarrow> unit cm" by (simp add: Some with_path_def)
    show ?thesis
    proof (cases "from_here dirfd path \<and> \<not> nofollow flags")
      case True
      with syscall_at_keeps [OF True, unfolded w] show ?thesis
        by (auto simp: SysUtimensat syscall_hook_def Some intro: valid_pre)
    next
      case False
      then show ?thesis
        using private_only_keeps [of b cwd env "\<not> nofollow flags" dirfd path, unfolded w]
        by (auto simp: SysUtimensat syscall_hook_def Some intro: valid_pre)
    qed
  qed
next
  case (SysOpenat dirfd path flags m)
  show ?thesis
    by (auto simp: SysOpenat syscall_hook_def at_private_def
        intro!: with_path_keeps valid_andThen [OF valid_pre [OF open_at_keeps]] keeps_ret)
next
  case (SysTruncate path len)
  have "keeps (inv_at b cwd {}) (truncate_hook k env path len)" by (rule truncate_hook_keeps)
  then show ?thesis by (simp add: SysTruncate syscall_hook_def truncate_hook_def)
next
  case (SysFtruncate fd len)
  then show ?thesis using syscall_ftruncate_keeps by (auto intro: valid_pre)
next
  case (SysFd fd m)
  then show ?thesis using syscall_fd_keeps by (auto intro: valid_pre)
qed (use syscall_meta_keeps in \<open>auto simp: syscall_hook_def intro: valid_pre\<close>)

section \<open>Sessions\<close>

lemma link_keeps: "keeps (inv_at b cwd {}) (k_link env old new)"
proof (rule validI)
  fix c r c' assume J: "inv_at b cwd {} c" and run: "k_link env old new c = (r, c')"
  have "inv_at b cwd {} (add_name n i (c\<lparr>cw_clock := t\<rparr>))" if "stat_at env c False old = Inr i" for n i t
    using stat_at_named [OF that] ino_at_bound [OF J] J by (auto intro!: inv_add_name_dir)
  with run J show "inv_at b cwd {} c'"
    by (auto simp: k_link_def run_defs split: answer.splits sum.splits if_splits)
qed

lemma chdir_keeps: "keeps (\<lambda>c. image_kept b c \<and> truthful c) (k_chdir env p)"
  by (rule validI)
     (auto simp: k_chdir_def run_defs image_kept_def truthful_def split: answer.splits sum.splits if_splits)

text \<open>Every covered call keeps the invariant.\<close>

lemma run_call_keeps:
  assumes kept: "image_kept b c \<and> truthful c" and cov: "covered b env c call" and run: "run_call k env call c = (r, c')"
  shows "image_kept b c' \<and> truthful c'"
proof (cases "\<exists>p. call = CChdir p")
  case True
  then obtain p where "k_chdir env p c = (r, c')" using run by auto
  from validD [OF chdir_keeps kept this] show ?thesis .
next
  case False
  have J: "inv_at b (cw_cwd c) {} c" using kept by (simp add: at_start)
  have "valid (\<lambda>c'. inv_at b (cw_cwd c) {} c' \<and> covered b env c' call) (run_call k env call) (\<lambda>_. inv_at b (cw_cwd c) {})"
    using False
  proof (cases call)
    case (COpenat dirfd path flags mode)
    then show ?thesis using void_post [OF openat_hook_keeps] by simp
  next
    case (CLchown path u g)
    then show ?thesis by (auto intro!: valid_pre [OF lchown_hook_keeps])
  next
    case (CUtimensat dirfd path t flags)
    then show ?thesis using utimensat_hook_keeps by auto
  next
    case (CFchownat dirfd path u g flags)
    then show ?thesis using fchownat_hook_keeps by auto
  qed (auto intro: valid_pre [OF open_hook_keeps [THEN void_keeps]] valid_pre [OF creat_hook_keeps [THEN void_keeps]]
      valid_pre [OF truncate_hook_keeps] valid_pre [OF ftruncate_hook_keeps] valid_pre [OF fopen_hook_keeps [THEN void_keeps]]
      valid_pre [OF freopen_hook_keeps [THEN void_keeps]] valid_pre [OF rename_hook_keeps] valid_pre [OF renameat_hook_keeps]
      valid_pre [OF meta_hook_keeps] valid_pre [OF fchmodat_hook_keeps] valid_pre [OF meta_fd_hook_keeps]
      valid_pre [OF close_hook_keeps] valid_pre [OF dup_hook_keeps(1) [THEN void_keeps]]
      valid_pre [OF dup_hook_keeps(2) [THEN void_keeps]] valid_pre [OF dup_hook_keeps(3) [THEN void_keeps]]
      valid_pre [OF syscall_hook_keeps] valid_pre [OF byte_calls_keep(1) [THEN void_keeps]]
      valid_pre [OF byte_calls_keep(2) [THEN void_keeps]] valid_pre [OF k_unlink_keeps] valid_pre [OF link_keeps])
  from validD [OF this _ run] J cov show ?thesis by (auto dest: kept_of_inv)
qed

lemma session_keeps: "cow_session b env c0 c \<Longrightarrow> image_kept b c0 \<and> truthful c0 \<Longrightarrow> image_kept b c \<and> truthful c"
proof (induction rule: cow_session.induct)
  case (cow_call c0 c call k r c')
  from run_call_keeps [OF cow_call.IH [OF cow_call.prems] cow_call.hyps(2,3)] show ?case .
qed

end
