(* ===== verification/Cow_Content.thy ===== *)
theory Cow_Content
  imports Cow_Frame
begin

text \<open>
  What the copy-up does to the bytes, when no descriptor that is not open has an entry in the
  table of paths: until the final rename only the temporary file changes, and on success it holds
  what the source held.
\<close>

definition clean :: "cow \<Rightarrow> bool" where
  "clean c \<longleftrightarrow> (\<forall>fd. fd_at c fd = None \<longrightarrow> fdtab_get c fd = None)"

text \<open>Only inode \<open>j\<close> and the descriptors in \<open>F\<close> differ.\<close>

definition touch :: "nat \<Rightarrow> int set \<Rightarrow> cow \<Rightarrow> cow \<Rightarrow> bool" where
  "touch j F c c' \<longleftrightarrow>
     cw_names c' = cw_names c \<and> cw_shared c' = cw_shared c \<and> cw_next c' = cw_next c \<and>
     cw_cwd c' = cw_cwd c \<and> cw_fdtab c' = cw_fdtab c \<and> cw_ans c' = cw_ans c \<and> cw_clock c \<le> cw_clock c' \<and>
     (\<forall>x. x \<noteq> j \<longrightarrow> cw_inodes c' x = cw_inodes c x) \<and> i_kind (cw_inodes c' j) = i_kind (cw_inodes c j) \<and>
     i_mode (cw_inodes c' j) = i_mode (cw_inodes c j) \<and>
     (\<forall>fd. fd \<notin> F \<longrightarrow> fd_at c' fd = fd_at c fd)"

lemma touch_refl [simp, intro]: "touch j F c c"
  by (simp add: touch_def)

lemma touch_trans [trans]: "touch j F c c1 \<Longrightarrow> touch j F c1 c2 \<Longrightarrow> touch j F c c2"
  unfolding touch_def by auto

lemma touch_clock [simp]: "touch j F c (c\<lparr>cw_clock := Suc (cw_clock c)\<rparr>)"
  by (simp add: touch_def)

definition tpos :: "cow \<Rightarrow> int \<Rightarrow> nat \<Rightarrow> string \<Rightarrow> bool" where
  "tpos c fd j t \<longleftrightarrow>
     (\<exists>d. fd_at c fd = Some d \<and> fd_ino d = j \<and> fd_write d \<and> fd_off d = length t) \<and> i_data (cw_inodes c j) = t"

definition spos :: "cow \<Rightarrow> int \<Rightarrow> nat \<Rightarrow> nat \<Rightarrow> bool" where
  "spos c fd i o' \<longleftrightarrow> (\<exists>d. fd_at c fd = Some d \<and> fd_ino d = i \<and> fd_off d = o')"

lemma spos_touch: "spos c fd i o' \<Longrightarrow> touch j F c c' \<Longrightarrow> fd \<notin> F \<Longrightarrow> spos c' fd i o'"
  by (auto simp: spos_def touch_def)

lemma fd_at_nonneg: "fd_at c fd = Some d \<Longrightarrow> 0 \<le> fd"
  by (auto simp: fd_at_def split: if_splits)

lemma fd_at_set: "fd_at (set_fd k d c) fd = (if 0 \<le> fd \<and> nat fd = k then Some d else fd_at c fd)"
  by (auto simp: fd_at_def set_fd_def map_of_filter_key)

lemma fd_at_set_fd: "0 \<le> fd \<Longrightarrow> fd_at (set_fd (nat fd) d c) fd' = (if fd' = fd then Some d else fd_at c fd')"
  unfolding fd_at_set by (auto simp: eq_nat_nat_iff)

lemma fd_at_set_inode [simp]: "fd_at (set_inode i x c) fd = fd_at c fd"
  by (simp add: fd_at_def set_inode_def)

lemma set_fd_frame [simp]:
  "cw_names (set_fd k d c) = cw_names c" "cw_shared (set_fd k d c) = cw_shared c" "cw_cwd (set_fd k d c) = cw_cwd c"
  "cw_fdtab (set_fd k d c) = cw_fdtab c" "cw_ans (set_fd k d c) = cw_ans c" "cw_clock (set_fd k d c) = cw_clock c"
  "cw_inodes (set_fd k d c) = cw_inodes c"
  by (simp_all add: set_fd_def)

lemma set_inode_frame [simp]:
  "cw_names (set_inode i x c) = cw_names c" "cw_shared (set_inode i x c) = cw_shared c" "cw_cwd (set_inode i x c) = cw_cwd c"
  "cw_fdtab (set_inode i x c) = cw_fdtab c" "cw_ans (set_inode i x c) = cw_ans c" "cw_clock (set_inode i x c) = cw_clock c"
  "cw_inodes (set_inode i x c) = (cw_inodes c)(i := x)" "cw_fds (set_inode i x c) = cw_fds c"
  by (simp_all add: set_inode_def)

lemma set_len_id [simp]: "set_len (length t) t = t"
  by (simp add: set_len_def)

lemma patch_end [simp]: "patch t (length t) s = t @ s"
  by (simp add: patch_def)

section \<open>The calls of the loops\<close>

lemma k_write_tpos:
  assumes t: "tpos c fd j t" and run: "k_write fd s c = (r, c')"
  shows "touch j {fd} c c' \<and> cw_clock c' = Suc (cw_clock c) \<and>
    (case cw_ans c (cw_clock c) of
       Bad e \<Rightarrow> r = Failed e \<and> tpos c' fd j t
     | Ok n \<Rightarrow> r = Done (length (take n s)) \<and> tpos c' fd j (t @ take n s))"
proof -
  from t obtain d where d: "fd_at c fd = Some d" "fd_ino d = j" "fd_write d" "fd_off d = length t" "i_data (cw_inodes c j) = t"
    by (auto simp: tpos_def)
  note nn = fd_at_nonneg [OF d(1)]
  show ?thesis
  proof (cases "cw_ans c (cw_clock c)")
    case (Bad e)
    with run d show ?thesis by (auto simp: k_write_def run_defs tpos_def)
  next
    case (Ok n)
    let ?c = "c\<lparr>cw_clock := Suc (cw_clock c)\<rparr>"
    from run Ok d have "r = Done (length (take n s))" "c' = write_bytes (nat fd) d (take n s) ?c"
      by (auto simp: k_write_def run_defs)
    with Ok d nn show ?thesis
      by (auto simp: touch_def tpos_def write_bytes_def Let_def fd_at_set_fd)
  qed
qed

lemma k_read_spos:
  assumes p: "spos c fd i o'" and run: "k_read fd want c = (r, c')"
  shows "touch j {fd} c c' \<and> cw_inodes c' = cw_inodes c \<and> cw_clock c' = Suc (cw_clock c) \<and>
    (case cw_ans c (cw_clock c) of
       Bad e \<Rightarrow> r = Failed e \<and> spos c' fd i o'
     | Ok n \<Rightarrow> (let s = take (min want (max 1 n)) (drop o' (i_data (cw_inodes c i)))
               in r = Done s \<and> spos c' fd i (o' + length s)))"
proof -
  from p obtain d where d: "fd_at c fd = Some d" "fd_ino d = i" "fd_off d = o'" by (auto simp: spos_def)
  note nn = fd_at_nonneg [OF d(1)]
  show ?thesis
  proof (cases "cw_ans c (cw_clock c)")
    case (Bad e)
    with run d show ?thesis by (auto simp: k_read_def run_defs spos_def)
  next
    case (Ok n)
    with run d nn show ?thesis
      by (auto simp: k_read_def run_defs spos_def touch_def bytes_from_def fd_at_set_fd)
  qed
qed

lemma k_copy_range_pos:
  assumes p: "spos c sfd i o'" and t: "tpos c tfd j t" and run: "k_copy_file_range sfd tfd want c = (r, c')"
    and ne: "sfd \<noteq> tfd"
  shows "touch j {sfd, tfd} c c' \<and> cw_clock c' = Suc (cw_clock c) \<and>
    (case cw_ans c (cw_clock c) of
       Bad e \<Rightarrow> r = Failed e \<and> spos c' sfd i o' \<and> tpos c' tfd j t
     | Ok n \<Rightarrow> (let s = take (min want n) (drop o' (i_data (cw_inodes c i)))
               in r = Done (length s) \<and> spos c' sfd i (o' + length s) \<and> tpos c' tfd j (t @ s)))"
proof -
  from p obtain d where d: "fd_at c sfd = Some d" "fd_ino d = i" "fd_off d = o'" by (auto simp: spos_def)
  from t obtain e where e: "fd_at c tfd = Some e" "fd_ino e = j" "fd_write e" "fd_off e = length t" "i_data (cw_inodes c j) = t"
    by (auto simp: tpos_def)
  note nn = fd_at_nonneg [OF d(1)] fd_at_nonneg [OF e(1)]
  show ?thesis
  proof (cases "cw_ans c (cw_clock c)")
    case (Bad x)
    with run d e show ?thesis by (auto simp: k_copy_file_range_def run_defs spos_def tpos_def)
  next
    case (Ok n)
    let ?c = "c\<lparr>cw_clock := Suc (cw_clock c)\<rparr>"
    let ?s = "take (min want n) (drop o' (i_data (cw_inodes c i)))"
    from run Ok d e have "r = Done (length ?s)"
      "c' = set_fd (nat sfd) (d\<lparr>fd_off := o' + length ?s\<rparr>) (write_bytes (nat tfd) e ?s ?c)"
      by (auto simp: k_copy_file_range_def run_defs bytes_from_def)
    with Ok d e nn ne show ?thesis
      by (auto simp: touch_def tpos_def spos_def write_bytes_def Let_def fd_at_set_fd)
  qed
qed

section \<open>The loops\<close>

lemma write_all_tpos:
  "tpos c fd j t \<Longrightarrow> write_all k fd s c = (r, c') \<Longrightarrow>
   touch j {fd} c c' \<and> (r = Done () \<longrightarrow> tpos c' fd j (t @ s))"
proof (induction k arbitrary: s t c)
  case 0
  then show ?case by (simp add: cm_defs)
next
  case (Suc k)
  show ?case
  proof (cases "s = []")
    case True
    with Suc.prems show ?thesis by (auto simp: cm_defs)
  next
    case False
    obtain r1 c1 where w: "k_write fd s c = (r1, c1)" by fastforce
    note wp = k_write_tpos [OF Suc.prems(1) w]
    show ?thesis
    proof (cases "cw_ans c (cw_clock c)")
      case (Ok n)
      with wp have "tpos c1 fd j (t @ take n s)" "r1 = Done (length (take n s))" "touch j {fd} c c1" by auto
      moreover from this have "write_all k fd (drop (length (take n s)) s) c1 = (r, c')"
        using Suc.prems(2) False w by (simp add: handle_def)
      moreover have "take n s @ drop (length (take n s)) s = s" by (simp add: min_def)
      ultimately show ?thesis using Suc.IH [of c1 "t @ take n s" "drop (length (take n s)) s"] touch_trans
        by (metis append.assoc)
    next
      case (Bad e)
      with wp have *: "tpos c1 fd j t" "r1 = Failed e" "touch j {fd} c c1" by auto
      show ?thesis
      proof (cases "e = EINTR")
        case True
        with Suc.prems(2) False w * have "write_all k fd s c1 = (r, c')" by (simp add: handle_def)
        with Suc.IH [OF *(1)] *(3) show ?thesis using touch_trans by blast
      next
        case False
        with Suc.prems(2) \<open>s \<noteq> []\<close> w * show ?thesis by (auto simp: handle_def cm_defs)
      qed
    qed
  qed
qed

lemma touch_fdtab: "touch j F c c' \<Longrightarrow> fdtab_get c' fd = fdtab_get c fd"
  by (simp add: touch_def fdtab_get_def)

lemma touch_inode: "touch j F c c' \<Longrightarrow> x \<noteq> j \<Longrightarrow> cw_inodes c' x = cw_inodes c x"
  by (simp add: touch_def)

lemma tpos_touch: "tpos c fd j t \<Longrightarrow> touch x F c c' \<Longrightarrow> fd \<notin> F \<Longrightarrow> cw_inodes c' j = cw_inodes c j \<Longrightarrow> tpos c' fd j t"
  by (auto simp: tpos_def touch_def)

lemma touch_mono: "touch j F c c' \<Longrightarrow> F \<subseteq> G \<Longrightarrow> touch j G c c'"
  by (auto simp: touch_def)

lemma read_block:
  assumes p: "spos c sfd i o'" and t: "tpos c tfd j t" and ne: "sfd \<noteq> tfd"
    and run: "k_read sfd COPY_BUF c = (r, c')"
  shows "touch j {sfd, tfd} c c' \<and> cw_inodes c' = cw_inodes c \<and> tpos c' tfd j t \<and>
    ((\<exists>e. r = Failed e) \<or>
     (\<exists>s. r = Done s \<and> (s = [] \<longleftrightarrow> drop o' (i_data (cw_inodes c i)) = []) \<and> s = take (length s) (drop o' (i_data (cw_inodes c i))) \<and>
          spos c' sfd i (o' + length s)))"
proof -
  note rd = k_read_spos [OF p run]
  have tc: "touch j {sfd} c c'" using k_read_spos [OF p run] by blast
  have tp: "tpos c' tfd j t" using tpos_touch [OF t tc] ne rd by simp
  have tj: "touch j {sfd, tfd} c c'" by (rule touch_mono [OF tc]) simp
  show ?thesis
  proof (cases "cw_ans c (cw_clock c)")
    case (Bad e)
    with rd tp tj show ?thesis by auto
  next
    case (Ok n)
    let ?s = "take (min COPY_BUF (max 1 n)) (drop o' (i_data (cw_inodes c i)))"
    have "r = Done ?s" "spos c' sfd i (o' + length ?s)" using rd Ok by (simp_all add: Let_def)
    moreover have "?s = [] \<longleftrightarrow> drop o' (i_data (cw_inodes c i)) = []" by (auto simp: COPY_BUF_def)
    moreover have "?s = take (length ?s) (drop o' (i_data (cw_inodes c i)))" by (simp add: min_def)
    ultimately show ?thesis using rd tp tj by blast
  qed
qed

lemma fallback_copies:
  assumes "spos c sfd i o'" "tpos c tfd j (take o' D)" "sfd \<noteq> tfd" "i \<noteq> j" "i_data (cw_inodes c i) = D" "o' \<le> length D"
    and "copy_file_fallback k sfd tfd c = (r, c')"
  shows "touch j {sfd, tfd} c c' \<and> (r = Done () \<longrightarrow> tpos c' tfd j D)"
  using assms
proof (induction k arbitrary: o' c)
  case 0
  then show ?case by (simp add: cm_defs)
next
  case (Suc k)
  obtain r1 c1 where rd: "k_read sfd COPY_BUF c = (r1, c1)" by fastforce
  note b = read_block [OF Suc.prems(1,2,3) rd]
  show ?case
  proof (cases "\<exists>e. r1 = Failed e")
    case True
    with Suc.prems(7) rd b show ?thesis by (auto simp: andThen_def handle_def cm_defs)
  next
    case False
    with b Suc.prems(5) obtain s where s: "r1 = Done s" "s = [] \<longleftrightarrow> drop o' D = []" "s = take (length s) (drop o' D)"
      "spos c1 sfd i (o' + length s)" by auto
    show ?thesis
    proof (cases "s = []")
      case True
      with s(2) Suc.prems(6) have "o' = length D" by simp
      with Suc.prems(7) rd b s(1) True show ?thesis by (auto simp: andThen_def handle_def cm_defs)
    next
      case nonempty: False
      obtain r2 c2 where w: "write_all k tfd s c1 = (r2, c2)" by fastforce
      from b have t1: "tpos c1 tfd j (take o' D)" by blast
      note wp = write_all_tpos [OF t1 w]
      obtain n where n: "n = length s" by simp
      have sn: "s = take n (drop o' D)" unfolding n by (rule s(3))
      then have "length s \<le> length D - o'" by simp
      with Suc.prems(6) have len: "o' + length s \<le> length D" by linarith
      have grow: "take o' D @ s = take (o' + length s) D" unfolding n [symmetric] take_add using sn by (rule arg_cong)
      have t12: "touch j {sfd, tfd} c1 c2" using wp by (auto intro: touch_mono)
      show ?thesis
      proof (cases "r2 = Done ()")
        case True
        then have t2: "tpos c2 tfd j (take (o' + length s) D)" using wp grow by simp
        have s2: "spos c2 sfd i (o' + length s)" using spos_touch [OF s(4) conjunct1 [OF wp]] Suc.prems(3) by simp
        have D2: "i_data (cw_inodes c2 i) = D" using touch_inode [OF t12 Suc.prems(4)] b Suc.prems(5) by simp
        have "copy_file_fallback k sfd tfd c2 = (r, c')"
          using Suc.prems(7) rd s(1) nonempty w True by (simp add: andThen_def handle_def)
        note ih = Suc.IH [OF s2 t2 Suc.prems(3,4) D2 len this]
        have "touch j {sfd, tfd} c c2" using touch_trans [OF _ t12] b by blast
        from touch_trans [OF this] ih show ?thesis by blast
      next
        case False
        then have r: "c' = c2" "r \<noteq> Done ()" using Suc.prems(7) rd s(1) nonempty w
          by (cases r2; auto simp: andThen_def handle_def cm_defs)+
        have "touch j {sfd, tfd} c c2" using touch_trans [OF _ t12] b by blast
        with r show ?thesis by simp
      qed
    qed
  qed
qed

text \<open>Descriptors that are not in the table are truncated directly.\<close>

lemma ftruncate_clean:
  assumes "fdtab_get c fd = None" "fd_at c fd = Some d" "fd_ino d = j" "ftruncate_with brk env fd 0 c = (r, c')"
  shows "touch j {} c c' \<and> fd_at c' fd = Some d \<and> (r = Done () \<longrightarrow> i_data (cw_inodes c' j) = [])
    \<and> (r = Done () \<or> (\<exists>e. r = Failed e))"
  using assms
  by (auto simp: ftruncate_with_def k_meta_fd_def change_meta_def run_defs touch_def set_len_def
      split: answer.splits if_splits)

lemma rewind_pos:
  assumes "k_rewind fd c = (r, c')" "fd_at c fd = Some d"
  shows "touch j {fd} c c' \<and> cw_inodes c' = cw_inodes c \<and>
    ((\<exists>e. r = Failed e) \<or> r = Done () \<and> fd_at c' fd = Some (d\<lparr>fd_off := 0\<rparr>))"
  using assms fd_at_nonneg [OF assms(2)]
  by (auto simp: k_rewind_def run_defs touch_def fd_at_set_fd split: answer.splits)

lemma restart_copies:
  assumes "spos c sfd i o'" "fd_at c tfd = Some d" "fd_ino d = j" "fd_write d" "sfd \<noteq> tfd" "i \<noteq> j"
    and "i_data (cw_inodes c i) = D" "fdtab_get c tfd = None"
    and run: "andThen (k_rewind sfd) (\<lambda>_. andThen (k_rewind tfd) (\<lambda>_. andThen (ftruncate_with brk env tfd 0)
        (\<lambda>_. copy_file_fallback k sfd tfd))) c = (r, c')"
  shows "touch j {sfd, tfd} c c' \<and> (r = Done () \<longrightarrow> tpos c' tfd j D)"
proof -
  let ?T = "touch j {sfd, tfd}"
  from assms(1) obtain ds where ds: "fd_at c sfd = Some ds" "fd_ino ds = i" by (auto simp: spos_def)
  obtain r1 c1 where m1: "k_rewind sfd c = (r1, c1)" by fastforce
  note p1 = rewind_pos [OF m1 ds(1), of j]
  have T1: "?T c c1" using p1 by (blast intro: touch_mono)
  show ?thesis
  proof (cases "r1 = Done ()")
    case False
    with p1 run m1 T1 show ?thesis by (auto simp: andThen_def handle_def cm_defs)
  next
    case True1: True
    with p1 have s1: "spos c1 sfd i 0" using ds by (auto simp: spos_def)
    have d1: "fd_at c1 tfd = Some d" using p1 assms(2,5) by (auto simp: touch_def)
    obtain r2 c2 where m2: "k_rewind tfd c1 = (r2, c2)" by fastforce
    note p2 = rewind_pos [OF m2 d1, of j]
    have T2: "?T c1 c2" using p2 by (blast intro: touch_mono)
    show ?thesis
    proof (cases "r2 = Done ()")
      case False
      with p2 run m1 m2 True1 have "c' = c2" "r \<noteq> Done ()" by (auto simp: andThen_def handle_def cm_defs)
      with touch_trans [OF T1 T2] show ?thesis by simp
    next
      case True2: True
      with p2 have d2: "fd_at c2 tfd = Some (d\<lparr>fd_off := 0\<rparr>)" by auto
      have s2: "spos c2 sfd i 0" using spos_touch [OF s1 conjunct1 [OF p2]] assms(5) by simp
      have tab: "fdtab_get c2 tfd = None" using touch_fdtab [OF T1] touch_fdtab [OF T2] assms(8) by simp
      obtain r3 c3 where m3: "ftruncate_with brk env tfd 0 c2 = (r3, c3)" by fastforce
      note p3 = ftruncate_clean [OF tab d2 _ m3, of j]
      have T3: "?T c2 c3" using p3 assms(3) by (auto intro: touch_mono)
      show ?thesis
      proof (cases "r3 = Done ()")
        case False
        with p3 run m1 m2 m3 True1 True2 assms(3) have "c' = c3" "r \<noteq> Done ()"
          by (auto simp: andThen_def handle_def cm_defs)
        with touch_trans [OF touch_trans [OF T1 T2] T3] show ?thesis by simp
      next
        case True
        have fb: "copy_file_fallback k sfd tfd c3 = (r, c')"
          using run m1 m2 m3 True True1 True2 by (simp add: andThen_def handle_def)
        have t3: "tpos c3 tfd j (take 0 D)" using p3 True assms(3,4) by (auto simp: tpos_def)
        have s3: "spos c3 sfd i 0" using spos_touch [OF s2, of j "{}" c3] p3 assms(3) by simp
        have D3: "i_data (cw_inodes c3 i) = D"
          using touch_inode [OF touch_trans [OF touch_trans [OF T1 T2] T3] assms(6)] assms(7) by simp
        from fallback_copies [OF s3 t3 assms(5,6) D3 _ fb] touch_trans [OF touch_trans [OF touch_trans [OF T1 T2] T3]]
        show ?thesis by auto
      qed
    qed
  qed
qed

lemma range_loop_copies:
  assumes "spos c sfd i copied" "tpos c tfd j (take copied D)" "sfd \<noteq> tfd" "i \<noteq> j" "i_data (cw_inodes c i) = D"
    and "copied \<le> length D" "fdtab_get c tfd = None" "\<forall>t. cw_ans c t \<noteq> Ok 0"
    and "range_loop (ftruncate_with brk env) k sfd tfd (length D) copied c = (r, c')"
  shows "touch j {sfd, tfd} c c' \<and> (r = Done () \<longrightarrow> tpos c' tfd j D)"
  using assms
proof (induction k arbitrary: copied c)
  case 0
  then show ?case by (simp add: cm_defs)
next
  case (Suc k)
  let ?T = "touch j {sfd, tfd}"
  show ?case
  proof (cases "copied < length D")
    case False
    with Suc.prems show ?thesis by (auto simp: cm_defs)
  next
    case True
    let ?want = "min (length D - copied) RANGE_BLOCK"
    obtain r1 c1 where m1: "k_copy_file_range sfd tfd ?want c = (r1, c1)" by fastforce
    note p1 = k_copy_range_pos [OF Suc.prems(1,2) m1 Suc.prems(3)]
    then have T1: "?T c c1" by blast
    have D1: "i_data (cw_inodes c1 i) = D" using touch_inode [OF T1 Suc.prems(4)] Suc.prems(5) by simp
    have tab: "fdtab_get c1 tfd = None" using touch_fdtab [OF T1] Suc.prems(7) by simp
    have ans: "\<forall>t. cw_ans c1 t \<noteq> Ok 0" using T1 Suc.prems(8) by (simp add: touch_def)
    show ?thesis
    proof (cases "cw_ans c (cw_clock c)")
      case (Ok n)
      with Suc.prems(8) have n: "0 < n" by (metis gr0I)
      obtain m where m: "m = length (take (min ?want n) (drop copied D))" by simp
      from Ok p1 Suc.prems(5) have q: "r1 = Done m" "spos c1 sfd i (copied + m)"
        "tpos c1 tfd j (take copied D @ take (min ?want n) (drop copied D))"
        by (simp_all add: Let_def m)
      have mpos: "0 < m" "copied + m \<le> length D" using True n by (auto simp: m RANGE_BLOCK_def)
      have "take copied D @ take (min ?want n) (drop copied D) = take (copied + m) D"
        by (simp add: m take_add min_def)
      with q have q3: "tpos c1 tfd j (take (copied + m) D)" by simp
      have "range_loop (ftruncate_with brk env) k sfd tfd (length D) (copied + m) c1 = (r, c')"
        using Suc.prems(9) m1 True q mpos by (simp add: handle_def)
      from Suc.IH [OF q(2) q3 Suc.prems(3,4) D1 mpos(2) tab ans this] touch_trans [OF T1] show ?thesis by blast
    next
      case (Bad e)
      with p1 have q: "r1 = Failed e" "spos c1 sfd i copied" "tpos c1 tfd j (take copied D)" by simp_all
      show ?thesis
      proof (cases "e = EINTR")
        case True
        then have "range_loop (ftruncate_with brk env) k sfd tfd (length D) copied c1 = (r, c')"
          using Suc.prems(9) m1 \<open>copied < length D\<close> q by (simp add: handle_def)
        from Suc.IH [OF q(2,3) Suc.prems(3,4) D1 Suc.prems(6) tab ans this] touch_trans [OF T1] show ?thesis by blast
      next
        case False
        show ?thesis
        proof (cases "e \<in> {ENOSYS, EINVAL, EXDEV, EPERM, ENOTSUP}")
          case fb: True
          from q(3) obtain d where d: "fd_at c1 tfd = Some d" "fd_ino d = j" "fd_write d" by (auto simp: tpos_def)
          have "andThen (k_rewind sfd) (\<lambda>_. andThen (k_rewind tfd) (\<lambda>_. andThen (ftruncate_with brk env tfd 0)
              (\<lambda>_. copy_file_fallback k sfd tfd))) c1 = (r, c')"
            using Suc.prems(9) m1 True q False fb by (simp add: handle_def)
          from restart_copies [OF q(2) d Suc.prems(3,4) D1 tab this] touch_trans [OF T1] show ?thesis by blast
        next
          case other: False
          with Suc.prems(9) m1 True q False T1 show ?thesis by (auto simp: handle_def cm_defs)
        qed
      qed
    qed
  qed
qed

section \<open>Beside the temporary file\<close>

text \<open>Everything but the temporary file, named \<open>tn\<close> with inode \<open>j\<close>, is as it was in \<open>c0\<close>.\<close>

definition side :: "cow \<Rightarrow> string \<Rightarrow> nat \<Rightarrow> cow \<Rightarrow> bool" where
  "side c0 tn j c \<longleftrightarrow>
     (\<forall>n. n \<noteq> tn \<longrightarrow> ino_at c n = ino_at c0 n) \<and> (ino_at c tn = Some j \<or> ino_at c tn = None) \<and>
     (\<forall>x. x \<noteq> j \<longrightarrow> cw_inodes c x = cw_inodes c0 x) \<and> i_kind (cw_inodes c j) = KReg \<and>
     cw_cwd c = cw_cwd c0 \<and> cw_ans c = cw_ans c0 \<and> cw_shared c = cw_shared c0 \<and>
     (\<forall>fd. fdtab_get c fd = fdtab_get c0 fd)"

lemma side_touch: "side c0 tn j c \<Longrightarrow> touch j F c c' \<Longrightarrow> side c0 tn j c'"
  using touch_fdtab [of j F c c'] by (simp add: side_def touch_def ino_at_def)

text \<open>What the walk found is still found.\<close>

lemma walk_extends:
  assumes "\<And>n i. ino_at c n = Some i \<Longrightarrow> ino_at c1 n = Some i \<and> i_kind (cw_inodes c1 i) = i_kind (cw_inodes c i)"
  shows "walk env c k n = Inr m \<Longrightarrow> ino_at c m = Some i \<Longrightarrow> walk env c1 k n = Inr m"
proof (induction k arbitrary: n)
  case (Suc k)
  then show ?case by (cases "ino_at c n") (auto dest: assms split: ikind.splits)
qed simp

lemma stat_side:
  assumes st: "stat_at env c0 follow p = Inr i" and sd: "side c0 tn j c" and tn: "ino_at c0 tn = None"
    and old: "\<And>n i. ino_at c0 n = Some i \<Longrightarrow> i \<noteq> j"
  shows "stat_at env c follow p = Inr i"
proof -
  have ext: "ino_at c n = Some x \<and> i_kind (cw_inodes c x) = i_kind (cw_inodes c0 x)" if "ino_at c0 n = Some x" for n x
    using sd tn old [OF that] that by (cases "n = tn") (auto simp: side_def)
  have cwd: "cw_cwd c = cw_cwd c0" using sd by (simp add: side_def)
  show ?thesis
    using st walk_extends [of c0 c env 41, OF ext]
    by (auto simp: stat_at_def resolve_def entry_def cwd dest: ext split: sum.splits option.splits if_splits)
qed

lemma close_side:
  assumes sd: "side c0 tn j c" and tab: "fdtab_get c0 fd = None" and run: "close_hook fd c = (r, c')"
  shows "side c0 tn j c' \<and> cw_inodes c' = cw_inodes c \<and> (\<forall>fd'. nat fd' \<noteq> nat fd \<longrightarrow> fd_at c' fd' = fd_at c fd')
     \<and> (r = Done () \<or> (\<exists>e. r = Failed e))"
proof -
  have clear: "fdtab_get (fdtab_clear fd c) fd' = fdtab_get c fd'" for fd'
    using tab sd by (auto simp: fdtab_get_def fdtab_clear_def side_def split: if_splits)
  have get: "fdtab_get (c1\<lparr>cw_clock := t\<rparr>) fd' = fdtab_get c1 fd'" "fdtab_get (del_fd k c1) fd' = fdtab_get c1 fd'" for c1 t k fd'
    by (simp_all add: fdtab_get_def del_fd_def)
  have same: "ino_at (fdtab_clear fd c) n = ino_at c n" "cw_inodes (fdtab_clear fd c) = cw_inodes c"
    "cw_cwd (fdtab_clear fd c) = cw_cwd c" "cw_ans (fdtab_clear fd c) = cw_ans c" "cw_shared (fdtab_clear fd c) = cw_shared c"
    "fd_at (fdtab_clear fd c) fd' = fd_at c fd'"
    for n fd' by (simp_all add: fdtab_clear_def ino_at_def fd_at_def)
  have del: "ino_at (del_fd k c1) n = ino_at c1 n" "cw_inodes (del_fd k c1) = cw_inodes c1" "cw_cwd (del_fd k c1) = cw_cwd c1"
    "cw_ans (del_fd k c1) = cw_ans c1" "cw_shared (del_fd k c1) = cw_shared c1" "cw_clock (del_fd k c1) = cw_clock c1"
    "nat fd' \<noteq> k \<Longrightarrow> fd_at (del_fd k c1) fd' = fd_at c1 fd'" for k c1 n fd'
    by (simp_all add: del_fd_def ino_at_def fd_at_def map_of_filter_key)
  show ?thesis
    using run sd
    by (auto simp: close_hook_def k_close_def run_defs side_def clear same del get split: option.splits answer.splits)
qed

lemma unlink_side:
  assumes sd: "side c0 tn j c" and tn: "entry env c tmp = tn" and run: "ignoring (k_unlink env tmp) c = (r, c')"
  shows "side c0 tn j c' \<and> r = Done ()"
proof -
  have keep: "map_of (filter (\<lambda>(m, _). m \<noteq> n) xs) m = (if m = n then None else map_of xs m)" for n m and xs :: "(string \<times> nat) list"
    by (induction xs) auto
  show ?thesis
    using run sd tn
    by (auto simp: ignoring_def k_unlink_def run_defs side_def fdtab_get_def ino_at_def del_name_def keep
        split: answer.splits sum.splits if_splits)
qed

lemma mkstemp_side:
  assumes run: "k_mkstemp env tmpl c0 = (r, c)"
  shows "(\<exists>e. r = Failed e) \<and> touch j {} c0 c \<or>
    (\<exists>tmp fd. r = Done (tmp, fd) \<and> ino_at c0 (entry env c0 tmp) = None \<and>
       side c0 (entry env c0 tmp) (cw_next c0) c \<and> ino_at c (entry env c0 tmp) = Some (cw_next c0) \<and>
       fd_at c0 fd = None \<and> 0 \<le> fd \<and> tpos c fd (cw_next c0) [] \<and> (\<forall>fd'. fd' \<noteq> fd \<longrightarrow> fd_at c fd' = fd_at c0 fd'))"
proof (cases "cw_ans c0 (cw_clock c0)")
  case (Bad e)
  with run show ?thesis by (auto simp: k_mkstemp_def run_defs touch_def)
next
  case (Ok a)
  let ?tmp = "tmpl @ tmp_suffix a" let ?tn = "entry env c0 ?tmp"
  show ?thesis
  proof (cases "ino_at c0 ?tn")
    case (Some x)
    with Ok run show ?thesis by (auto simp: k_mkstemp_def run_defs touch_def)
  next
    case None
    let ?fd = "free_fd c0"
    have keep: "map_of (filter (\<lambda>(m, _). m \<noteq> n) xs) m = (if m = n then None else map_of xs m)" for n m and xs :: "(string \<times> nat) list"
      by (induction xs) auto
    have free: "fd_at c0 (int ?fd) = None"
      using free_fd_free [of c0] by (auto simp: fd_at_def map_of_eq_None_iff)
    have "r = Done (?tmp, int ?fd)" and c: "c = set_fd ?fd \<lparr>fd_ino = cw_next c0, fd_write = True, fd_off = 0, fd_name = ?tn\<rparr>
        (add_name ?tn (cw_next c0) (add_inode (fresh_inode env 384) (c0\<lparr>cw_clock := Suc (cw_clock c0)\<rparr>)))"
      using run Ok None by (auto simp: k_mkstemp_def run_defs open_inode_def)
    moreover have "side c0 ?tn (cw_next c0) c" "ino_at c ?tn = Some (cw_next c0)"
      unfolding c by (auto simp: side_def ino_at_def add_name_def add_inode_def keep fdtab_get_def set_fd_def fresh_inode_def)
    moreover have "tpos c (int ?fd) (cw_next c0) []"
      unfolding c by (auto simp: tpos_def add_name_def add_inode_def fresh_inode_def fd_at_set)
    moreover have "fd_at c fd' = fd_at c0 fd'" if "fd' \<noteq> int ?fd" for fd'
      using that unfolding c fd_at_set by (auto simp: fd_at_def add_name_def add_inode_def)
    ultimately show ?thesis using None free by auto
  qed
qed

lemma fdtab_get_simps [simp]:
  "fdtab_get (c\<lparr>cw_clock := t\<rparr>) fd = fdtab_get c fd" "fdtab_get (set_inode i x c) fd = fdtab_get c fd"
  by (simp_all add: fdtab_get_def set_inode_def)

lemma ino_at_set_inode [simp]: "ino_at (set_inode i x c) n = ino_at c n"
  by (simp add: ino_at_def)

lemma fchmod_side:
  assumes "fdtab_get c fd = None" "tpos c fd j t" "ignoring (meta_fd_with brk env fd (SetMode m)) c = (r, c')"
    and sd: "side c0 tn j c"
  shows "side c0 tn j c' \<and> tpos c' fd j t \<and> r = Done () \<and> (\<forall>fd. fd_at c' fd = fd_at c fd) \<and> cw_names c' = cw_names c
    \<and> cw_next c' = cw_next c"
  using assms
  by (auto simp: ignoring_def meta_fd_with_def k_meta_fd_def change_meta_def run_defs tpos_def side_def
      split: answer.splits)

lemma open_source:
  assumes st: "stat_at env c True p = Inr i" and reg: "i_kind (cw_inodes c i) = KReg"
    and run: "k_open env p 0 m c = (r, c')"
  shows "(\<exists>e. r = Failed e) \<and> touch j {} c c' \<or>
    (\<exists>fd. r = Done fd \<and> fd_at c fd = None \<and> 0 \<le> fd \<and> touch j {fd} c c' \<and> cw_inodes c' = cw_inodes c \<and> spos c' fd i 0)"
proof -
  from st obtain n where n: "resolve env c True p = Inr n" "ino_at c n = Some i"
    by (auto simp: stat_at_def split: sum.splits option.splits)
  have fl: "follows 0" "\<not> flag 0 b" "\<not> may_write 0" for b by (simp_all add: follows_def flag_def may_write_def open_flags)
  have free: "fd_at c (int (free_fd c)) = None"
    using free_fd_free [of c] by (auto simp: fd_at_def map_of_eq_None_iff)
  show ?thesis
  proof (cases "cw_ans c (cw_clock c)")
    case (Bad e)
    with run show ?thesis by (auto simp: k_open_def open_entry_def run_defs touch_def)
  next
    case (Ok a)
    let ?d = "\<lparr>fd_ino = i, fd_write = False, fd_off = 0, fd_name = n\<rparr>"
    have "r = Done (int (free_fd c))" "c' = set_fd (free_fd c) ?d (c\<lparr>cw_clock := Suc (cw_clock c)\<rparr>)"
      using run Ok n reg by (auto simp: k_open_def open_entry_def open_existing_def open_inode_def run_defs fl)
    with free show ?thesis by (auto simp: touch_def spos_def fd_at_set)
  qed
qed

section \<open>The copy\<close>

text \<open>Failures of the later steps close and remove what was made.\<close>

lemma give_up_side:
  assumes sd: "side c0 tn j c" and tn: "entry env c0 tmp = tn"
    and run: "andThen (ignoring (k_unlink env tmp)) (\<lambda>_. fail e) c = (r, c')"
  shows "side c0 tn j c' \<and> r = Failed e"
proof -
  obtain r1 c1 where u: "ignoring (k_unlink env tmp) c = (r1, c1)" by fastforce
  have "entry env c tmp = tn" using sd tn by (simp add: side_def entry_def)
  from unlink_side [OF sd this u] run u show ?thesis by (auto simp: andThen_def handle_def cm_defs)
qed

lemma ignoring_close_side:
  assumes "side c0 tn j c" "fdtab_get c0 fd = None" "ignoring (close_hook fd) c = (r, c')"
  shows "side c0 tn j c' \<and> r = Done () \<and> cw_inodes c' = cw_inodes c"
proof -
  obtain r1 c1 where h: "close_hook fd c = (r1, c1)" by fastforce
  from close_side [OF assms(1,2) h] assms(3) h show ?thesis by (auto simp: ignoring_def handle_def cm_defs)
qed

lemma copy_contents_side:
  assumes sd: "side c0 tn j c" and tn: "entry env c0 tmp = tn" "ino_at c0 tn = None"
    and old: "\<And>n i. ino_at c0 n = Some i \<Longrightarrow> i \<noteq> j"
    and st: "stat_at env c0 True p = Inr i" "i_kind (cw_inodes c0 i) = KReg" "i_data (cw_inodes c0 i) = D"
    and cl: "\<And>fd. fd_at c fd = None \<Longrightarrow> fdtab_get c0 fd = None" and tfd: "fdtab_get c0 tfd = None" "tpos c tfd j []"
    and ans: "\<forall>t. cw_ans c0 t \<noteq> Ok 0"
    and run: "copy_contents brk k env p tmp tfd (length D) c = (r, c')"
  shows "side c0 tn j c' \<and> (r = Done () \<longrightarrow> i_data (cw_inodes c' j) = D)"
proof -
  have ij: "i \<noteq> j" using stat_at_named [OF st(1)] old by blast
  have stc: "stat_at env c True p = Inr i" by (rule stat_side [OF st(1) sd tn(2) old])
  have ci: "cw_inodes c i = cw_inodes c0 i" using sd ij by (simp add: side_def)
  obtain r1 c1 where o: "k_open env p 0 0 c = (r1, c1)" by fastforce
  note src = open_source [OF stc _ o, unfolded ci, OF st(2), where j = j]
  show ?thesis
  proof (cases "\<exists>e. r1 = Failed e")
    case True
    then obtain e where e: "r1 = Failed e" by blast
    with src have T: "touch j {} c c1" by auto
    note s1 = side_touch [OF sd T]
    obtain r2 c2 where m: "ignoring (close_hook tfd) c1 = (r2, c2)" by fastforce
    note s2 = ignoring_close_side [OF s1 tfd(1) m]
    then have "andThen (ignoring (k_unlink env tmp)) (\<lambda>_. fail e) c2 = (r, c')"
      using run o e m by (simp add: copy_contents_def andThen_def handle_def)
    from give_up_side [OF conjunct1 [OF s2] tn(1) this] show ?thesis by simp
  next
    case False
    with src obtain sfd where s: "r1 = Done sfd" "fd_at c sfd = None" "touch j {sfd} c c1" "cw_inodes c1 = cw_inodes c"
      "spos c1 sfd i 0" by blast
    have ne: "sfd \<noteq> tfd" using s(2) tfd(2) by (auto simp: tpos_def)
    have t1: "tpos c1 tfd j (take 0 D)" using tpos_touch [OF tfd(2) s(3)] ne s(4) by simp
    have D1: "i_data (cw_inodes c1 i) = D" using s(4) ci st(3) by simp
    have tab1: "fdtab_get c1 tfd = None" using touch_fdtab [OF s(3)] sd tfd(1) by (simp add: side_def)
    have ans1: "\<forall>t. cw_ans c1 t \<noteq> Ok 0" using s(3) sd ans by (simp add: touch_def side_def)
    obtain r2 c2 where m2: "copy_file_fast (ftruncate_with brk env) k env sfd tfd (length D) c1 = (r2, c2)" by fastforce
    have cp: "touch j {sfd, tfd} c1 c2 \<and> (r2 = Done () \<longrightarrow> tpos c2 tfd j D)"
    proof (cases "cv_copy_range env \<and> 0 < length D")
      case True
      with m2 have "range_loop (ftruncate_with brk env) k sfd tfd (length D) 0 c1 = (r2, c2)" by (simp add: copy_file_fast_def)
      from range_loop_copies [OF s(5) t1 ne ij D1 _ tab1 ans1 this] show ?thesis by simp
    next
      case False
      with m2 have "copy_file_fallback k sfd tfd c1 = (r2, c2)" by (auto simp: copy_file_fast_def)
      from fallback_copies [OF s(5) t1 ne ij D1 _ this] show ?thesis by simp
    qed
    have sd2: "side c0 tn j c2" using side_touch [OF side_touch [OF sd s(3)] conjunct1 [OF cp]] .
    have stab: "fdtab_get c0 sfd = None" using cl s(2) by blast
    show ?thesis
    proof (cases r2)
      case (Done u)
      then have "ignoring (close_hook sfd) c2 = (r, c')"
        using run o s(1) m2 by (simp add: copy_contents_def andThen_def handle_def on_fail_def ret_def)
      from ignoring_close_side [OF sd2 stab this] cp Done show ?thesis by (auto simp: tpos_def)
    next
      case (Failed e)
      obtain r3 c3 where m3: "ignoring (close_hook sfd) c2 = (r3, c3)" by fastforce
      note s3 = ignoring_close_side [OF sd2 stab m3]
      obtain r4 c4 where m4: "ignoring (close_hook tfd) c3 = (r4, c4)" by fastforce
      note s4 = ignoring_close_side [OF conjunct1 [OF s3] tfd(1) m4]
      obtain r5 :: "unit cres" and c5 where m5: "andThen (ignoring (k_unlink env tmp)) (\<lambda>_. fail e) c4 = (r5, c5)" by fastforce
      note s5 = give_up_side [OF conjunct1 [OF s4] tn(1) m5]
      have "r = r5 \<and> c' = c5"
        using run o s(1) m2 Failed m3 s3 m4 s4 m5 s5
        by (auto simp: copy_contents_def andThen_def handle_def on_fail_def fail_def)
      with s5 show ?thesis by simp
    next
      case Killed
      with run o s(1) m2 sd2 show ?thesis by (auto simp: copy_contents_def andThen_def handle_def on_fail_def)
    next
      case Running
      with run o s(1) m2 sd2 show ?thesis by (auto simp: copy_contents_def andThen_def handle_def on_fail_def)
    qed
  qed
qed

lemma cow_fail_step_side: "cow_fail_step env step e c = (r, c') \<Longrightarrow> c' = c"
  by (auto simp: cow_fail_step_def cm_defs split: option.splits bool.splits)

lemma install_side:
  assumes sd: "side c0 tn j c" and tn: "entry env c0 tmp = tn" "ino_at c0 tn = None" and old: "\<And>n i. ino_at c0 n = Some i \<Longrightarrow> i \<noteq> j"
    and src: "ino_at c0 (entry env c0 p) = Some x"
    and run: "install_copy env tmp p c = (r, c')"
  shows "if r = Done () then (\<forall>n. n \<noteq> tn \<and> n \<noteq> entry env c0 p \<longrightarrow> ino_at c' n = ino_at c0 n) \<and>
            ino_at c' (entry env c0 p) = Some j \<and> ino_at c' tn = None \<and> cw_inodes c' = cw_inodes c \<and> cw_cwd c' = cw_cwd c0
         else side c0 tn j c'"
proof -
  let ?give_up = "\<lambda>e. andThen (ignoring (k_unlink env tmp)) (\<lambda>_. fail e)"
  have cwd: "entry env c q = entry env c0 q" for q using sd by (simp add: side_def entry_def)
  have gu: "side c0 tn j c2" "r2 \<noteq> Done ()" if "side c0 tn j c1" "?give_up e c1 = (r2, c2)" for e c1 r2 c2
    using give_up_side [OF that(1) tn(1) that(2)] by auto
  obtain r1 c1 where f: "cow_fail_step env ''copyup.before_rename'' ENOMEM c = (r1, c1)" by fastforce
  have c1: "c1 = c" by (rule cow_fail_step_side [OF f])
  show ?thesis
  proof (cases "r1 = Done () \<and> \<not> env_enabled (cv_fail_before_rename env)")
    case False
    with run f c1 gu [OF sd] sd show ?thesis
      by (cases r1) (auto simp: install_copy_def Let_def handle_def split: if_splits)
  next
    case True
    obtain r2 c2 where rn: "k_rename env tmp p c = (r2, c2)" by fastforce
    have run': "on_fail (k_rename env tmp p) ?give_up c = (r, c')"
      using run f c1 True by (simp add: install_copy_def Let_def handle_def)
    have fine: "r2 = Done () \<and> c2 = move_name tn (entry env c0 p) j (c\<lparr>cw_clock := Suc (cw_clock c)\<rparr>) \<and> ino_at c tn = Some j
        \<or> (\<exists>e. r2 = Failed e) \<and> c2 = c\<lparr>cw_clock := Suc (cw_clock c)\<rparr>"
    proof -
      have ne: "entry env c0 p \<noteq> tn" using src tn(2) by auto
      have reg: "i_kind (cw_inodes c j) = KReg" using sd by (simp add: side_def)
      have xj: "ino_at c (entry env c0 p) = Some x" "x \<noteq> j" using sd ne src old by (auto simp: side_def)
      show ?thesis
        using rn sd xj reg
        by (auto simp: k_rename_def rename_entries_def rename_entry_def resolve_def run_defs cwd tn(1) side_def
            split: answer.splits if_splits option.splits)
    qed
    show ?thesis
    proof (cases "r2 = Done ()")
      case True
      with fine have c2: "c2 = move_name tn (entry env c0 p) j (c\<lparr>cw_clock := Suc (cw_clock c)\<rparr>)" by auto
      have "r = Done ()" "c' = c2" using run' rn True by (auto simp: on_fail_def handle_def ret_def)
      have keep: "map_of (filter (\<lambda>(m, _). m \<noteq> n) xs) m = (if m = n then None else map_of xs m)" for n m and xs :: "(string \<times> nat) list"
        by (induction xs) auto
      have look: "ino_at c2 n = (if n = entry env c0 p then Some j else if n = tn then None else ino_at c n)" for n
        unfolding c2 by (auto simp: move_name_def add_name_def del_name_def ino_at_def keep simp del: filter_filter)
      have "cw_inodes c2 = cw_inodes c" "cw_cwd c2 = cw_cwd c"
        unfolding c2 by (simp_all add: move_name_def add_name_def del_name_def)
      with look sd src tn(2) \<open>r = Done ()\<close> \<open>c' = c2\<close> show ?thesis by (auto simp: side_def)
    next
      case False
      with fine obtain e where e: "r2 = Failed e" "c2 = c\<lparr>cw_clock := Suc (cw_clock c)\<rparr>" by auto
      then have "?give_up e c2 = (r, c')" using run' rn by (simp add: on_fail_def handle_def)
      moreover have "side c0 tn j c2" using sd e(2) by (simp add: side_def)
      ultimately show ?thesis using gu by auto
    qed
  qed
qed

text \<open>\<open>files_kept\<close>: every name still names the same file, unchanged. \<open>copied_up\<close>: the entry names a new
  regular file with the given bytes, and everything else is as it was.\<close>

definition files_kept :: "cow \<Rightarrow> cow \<Rightarrow> bool" where
  "files_kept c c' \<longleftrightarrow>
     (\<forall>n i. ino_at c n = Some i \<longrightarrow> ino_at c' n = Some i \<and> cw_inodes c' i = cw_inodes c i)"

definition copied_up :: "cow \<Rightarrow> string \<Rightarrow> string \<Rightarrow> cow \<Rightarrow> bool" where
  "copied_up c n data c' \<longleftrightarrow>
     (\<exists>j. (\<forall>m. ino_at c m \<noteq> Some j) \<and> ino_at c' n = Some j \<and>
        i_kind (cw_inodes c' j) = KReg \<and> i_data (cw_inodes c' j) = data \<and>
        (\<forall>i. i \<noteq> j \<longrightarrow> cw_inodes c' i = cw_inodes c i) \<and> cw_cwd c' = cw_cwd c \<and>
        (\<forall>m. m \<noteq> n \<longrightarrow> ino_at c' m = ino_at c m))"

lemma side_kept:
  assumes "side c0 tn j c" "ino_at c0 tn = None" "\<And>n i. ino_at c0 n = Some i \<Longrightarrow> i \<noteq> j"
  shows "files_kept c0 c"
  unfolding files_kept_def
proof (intro allI impI)
  fix n i assume n: "ino_at c0 n = Some i"
  with assms(2) have "n \<noteq> tn" by auto
  with assms(1) n assms(3) [OF n] show "ino_at c n = Some i \<and> cw_inodes c i = cw_inodes c0 i" by (simp add: side_def)
qed

text \<open>
  The whole copy-up of the regular file \<open>i\<close> at \<open>p\<close>, with the attributes left out (the default).
\<close>

lemma copy_up_outcome:
  assumes cl: "clean c0" and ex: "\<And>n i. ino_at c0 n = Some i \<Longrightarrow> i < cw_next c0"
    and st: "stat_at env c0 True p = Inr i" "i_kind (cw_inodes c0 i) = KReg" and p: "ino_at c0 (entry env c0 p) = Some x"
    and ans: "\<forall>t. cw_ans c0 t \<noteq> Ok 0" and xa: "\<not> cv_copy_xattrs env"
    and run: "copy_up brk k env p (cw_inodes c0 i) cd c0 = (r, c')"
  shows "if r = Done () then copied_up c0 (entry env c0 p) (if cd then i_data (cw_inodes c0 i) else []) c'
     else files_kept c0 c'"
proof (cases "tmp_template p")
  case (Inl e)
  with run show ?thesis by (auto simp: copy_up_def cm_defs files_kept_def)
next
  case (Inr tmpl)
  let ?j = "cw_next c0"
  have old: "\<And>n i. ino_at c0 n = Some i \<Longrightarrow> i \<noteq> ?j" using ex by blast
  obtain r1 c1 where mk: "k_mkstemp env tmpl c0 = (r1, c1)" by fastforce
  note made = mkstemp_side [OF mk]
  show ?thesis
  proof (cases "\<exists>e. r1 = Failed e")
    case True
    with made have "touch ?j {} c0 c1" by auto
    then have "files_kept c0 c1" using old by (auto simp: files_kept_def touch_def ino_at_def)
    with run Inr mk True show ?thesis by (auto simp: copy_up_def andThen_def handle_def cm_defs)
  next
    case False
    with made obtain tmp fd where m: "r1 = Done (tmp, fd)" "ino_at c0 (entry env c0 tmp) = None"
      "side c0 (entry env c0 tmp) ?j c1" "fd_at c0 fd = None" "tpos c1 fd ?j []"
      "\<forall>fd'. fd' \<noteq> fd \<longrightarrow> fd_at c1 fd' = fd_at c0 fd'" by blast
    let ?tn = "entry env c0 tmp"
    have tab: "fdtab_get c0 fd = None" using cl m(4) by (simp add: clean_def)
    have tab1: "fdtab_get c1 fd = None" using m(3) tab by (simp add: side_def)
    obtain r2 c2 where ch: "ignoring (meta_fd_with brk env fd (SetMode (i_mode (cw_inodes c0 i) mod 4096))) c1 = (r2, c2)"
      by fastforce
    note s2 = fchmod_side [OF tab1 m(5) ch m(3)]
    obtain r3 c3 where cc: "(if cd then copy_contents brk k env p tmp fd (length (i_data (cw_inodes c0 i))) else ret ()) c2 = (r3, c3)"
      by fastforce
    have cl2: "fdtab_get c0 fd' = None" if "fd_at c2 fd' = None" for fd'
      using that s2 m(5,6) cl tab by (cases "fd' = fd") (auto simp: clean_def)
    have s3: "side c0 ?tn ?j c3 \<and> (r3 = Done () \<longrightarrow> i_data (cw_inodes c3 ?j) = (if cd then i_data (cw_inodes c0 i) else []))"
    proof (cases cd)
      case True
      with cc have "copy_contents brk k env p tmp fd (length (i_data (cw_inodes c0 i))) c2 = (r3, c3)" by simp
      from copy_contents_side [OF conjunct1 [OF s2] refl m(2) old st refl cl2 tab _ ans this] s2 True show ?thesis by simp
    next
      case False
      with cc s2 show ?thesis by (auto simp: ret_def tpos_def)
    qed
    have rest: "andThen (on_fail (close_hook fd) (\<lambda>e. andThen (ignoring (k_unlink env tmp)) (\<lambda>_. fail e)))
        (\<lambda>_. andThen (copy_xattrs brk env p tmp) (\<lambda>_. install_copy env tmp p)) c3 = (r, c') \<or> r3 \<noteq> Done () \<and> r \<noteq> Done () \<and> c' = c3"
      using run Inr mk m(1) ch s2 cc
      by (cases r3) (auto simp: copy_up_def andThen_def handle_def cm_defs split: if_splits)
    show ?thesis
    proof (cases "r3 = Done ()")
      case False
      have "r \<noteq> Done () \<and> c' = c3"
        using run Inr mk m(1) ch s2 cc False
        by (cases r3) (auto simp: copy_up_def andThen_def handle_def cm_defs split: if_splits)
      with s3 side_kept [OF _ m(2) old] show ?thesis by simp
    next
      case True
      obtain r4 c4 where cl4: "close_hook fd c3 = (r4, c4)" by fastforce
      note s4 = close_side [OF conjunct1 [OF s3] tab cl4]
      show ?thesis
      proof (cases "r4 = Done ()")
        case False
        with s4 obtain e where e: "r4 = Failed e" by auto
        obtain r5 :: "unit cres" and c5 where gu: "andThen (ignoring (k_unlink env tmp)) (\<lambda>_. fail e) c4 = (r5, c5)" by fastforce
        note s5 = give_up_side [OF conjunct1 [OF s4] refl gu]
        have "r = r5 \<and> c' = c5"
          using rest True cl4 e gu s5 by (simp add: andThen_def handle_def on_fail_def fail_def)
        with s5 side_kept [OF _ m(2) old] show ?thesis by simp
      next
        case True4: True
        have ins: "install_copy env tmp p c4 = (r, c')"
          using rest True cl4 True4 xa by (simp add: andThen_def handle_def on_fail_def ret_def copy_xattrs_def)
        note fin = install_side [OF conjunct1 [OF s4] refl m(2) old p ins]
        show ?thesis
        proof (cases "r = Done ()")
          case False
          with fin side_kept [OF _ m(2) old] show ?thesis by simp
        next
          case finished: True
          have ch': "cw_inodes c' = cw_inodes c3" using fin s4 finished by simp
          have "ino_at c' m = ino_at c0 m" if "m \<noteq> entry env c0 p" for m
            using fin finished that \<open>ino_at c0 ?tn = None\<close> by (cases "m = ?tn") auto
          with fin finished ch' s3 True old show ?thesis
            by (auto simp: copied_up_def side_def intro!: exI [of _ ?j])
        qed
      qed
    qed
  qed
qed

lemma stat_entry: "stat_at env c follow p = Inr i \<Longrightarrow> \<exists>x. ino_at c (entry env c p) = Some x"
proof (rule ccontr)
  assume st: "stat_at env c follow p = Inr i" and "\<not> (\<exists>x. ino_at c (entry env c p) = Some x)"
  then have n: "ino_at c (entry env c p) = None" by auto
  have "walk env c 41 (entry env c p) = Inr (entry env c p)" using walk.simps(2) [of env c 40] n by simp
  with st n show False by (auto simp: stat_at_def resolve_def split: if_splits)
qed

text \<open>A path the shim's \<open>stat\<close> reports as a shared regular file: the only case in which the copy-up does something.\<close>

definition shared_file :: "cow_env \<Rightarrow> cow \<Rightarrow> string \<Rightarrow> nat \<Rightarrow> bool" where
  "shared_file env c p i \<longleftrightarrow>
     shim_stat env c True p = Inr i \<and> i_kind (cw_inodes c i) = KReg \<and> 1 < link_count c i"

lemma shared_stat: "shared_file env c p i \<Longrightarrow> stat_at env c True p = Inr i"
  by (simp add: shared_file_def shim_stat_def split: option.splits)

definition names_bounded :: "cow \<Rightarrow> bool" where
  "names_bounded c \<longleftrightarrow> list_all (\<lambda>(n, i). i < cw_next c) (cw_names c)"

lemma names_boundedD: "names_bounded c \<Longrightarrow> ino_at c n = Some i \<Longrightarrow> i < cw_next c"
  by (auto simp: names_bounded_def ino_at_def list_all_iff dest!: map_of_SomeD)

lemma break_outcome:
  assumes "clean c" "names_bounded c" "shared_file env c p i" "\<forall>t. cw_ans c t \<noteq> Ok 0" "\<not> cv_copy_xattrs env"
    and "break_hardlink_copy k env (Some p) cd c = (r, c')"
  shows "if r = Done () then copied_up c (entry env c p) (if cd then i_data (cw_inodes c i) else []) c'
     else files_kept c c'"
proof (cases k)
  case 0
  with assms(6) show ?thesis by (auto simp: break_hardlink_copy_def cm_defs files_kept_def)
next
  case (Suc k')
  have st: "stat_at env c True p = Inr i" "i_kind (cw_inodes c i) = KReg"
    using assms(3) shared_stat [OF assms(3)] by (simp_all add: shared_file_def)
  obtain x where x: "ino_at c (entry env c p) = Some x" using stat_entry [OF st(1)] by blast
  from assms(3,6) Suc have "copy_up (break_hardlink_copy_stat k' env) k' env p (cw_inodes c i) cd c = (r, c')"
    by (simp add: break_hardlink_copy_def shared_file_def reading_def)
  from copy_up_outcome [OF assms(1) names_boundedD [OF assms(2)] st x assms(4,5) this] show ?thesis .
qed

end
