(* ===== verification/Cow_Liveness.thy ===== *)
theory Cow_Liveness
  imports Cow_Content
begin

text \<open>
  The copy-up returns: from some call on the kernel neither interrupts a call nor moves zero bytes,
  and then a bound of twice the length of the file plus that point is enough for every loop.
\<close>

definition settled :: "nat \<Rightarrow> cow \<Rightarrow> bool" where
  "settled T c \<longleftrightarrow> (\<forall>t. T \<le> t \<longrightarrow> cw_ans c t \<noteq> Bad EINTR \<and> cw_ans c t \<noteq> Ok 0)"

lemma settled_touch: "settled T c \<Longrightarrow> touch j F c c' \<Longrightarrow> settled T c'"
  by (simp add: settled_def touch_def)

abbreviation returns :: "'a cm \<Rightarrow> bool" where
  "returns m \<equiv> valid (\<lambda>_. True) m (\<lambda>r _. r \<noteq> Running)"

lemma returns_handle: "returns m \<Longrightarrow> (\<And>x. returns (f x)) \<Longrightarrow> (\<And>e. returns (h e)) \<Longrightarrow> returns (handle m f h)"
  by (rule valid_handle [where R = "\<lambda>r _. r \<noteq> Running"]) (auto simp: valid_def)

lemma returns_basic: "returns (ret x)" "returns (fail e)" "returns killed"
  by (auto simp: valid_def cm_defs)

lemma returns_andThen: "returns m \<Longrightarrow> (\<And>x. returns (f x)) \<Longrightarrow> returns (andThen m f)"
  unfolding andThen_def by (intro returns_handle returns_basic)

lemma returns_on_fail: "returns m \<Longrightarrow> (\<And>e. returns (h e)) \<Longrightarrow> returns (on_fail m h)"
  unfolding on_fail_def by (intro returns_handle returns_basic)

lemma returns_ignoring: "returns m \<Longrightarrow> returns (ignoring m)"
  unfolding ignoring_def by (intro returns_handle returns_basic)

lemmas returns_rules = returns_basic returns_andThen returns_on_fail returns_ignoring returns_handle

lemma returns_calls:
  "returns (k_unlink env p)" "returns (close_hook fd)" "returns (k_rename env p q)" "returns (k_open env p flags m)"
  "returns (k_mkstemp env t)" "returns (cow_fail_step env st e)" "returns (k_rewind fd)" "returns (k_meta_fd fd m')"
  by (rule validI; auto simp: k_unlink_def close_hook_def k_close_def k_rename_def rename_entries_def rename_entry_def
      k_open_def open_entry_def open_existing_def open_missing_def open_inode_def k_mkstemp_def cow_fail_step_def
      k_rewind_def k_meta_fd_def change_meta_def run_defs
      split: answer.splits sum.splits option.splits ikind.splits if_splits bool.splits)+

lemma returnsD: "returns m \<Longrightarrow> m c = (r, c') \<Longrightarrow> r \<noteq> Running"
  by (drule (1) validD [OF _ TrueI]) simp

section \<open>The loops\<close>

lemma write_all_returns:
  "tpos c fd j t \<Longrightarrow> settled T c \<Longrightarrow> length s + (T - cw_clock c) < k \<Longrightarrow> fst (write_all k fd s c) \<noteq> Running"
proof (induction k arbitrary: s t c)
  case (Suc k)
  show ?case
  proof (cases "s = []")
    case False
    obtain r1 c1 where w: "k_write fd s c = (r1, c1)" by fastforce
    note wp = k_write_tpos [OF Suc.prems(1) w]
    have st: "settled T c1" using settled_touch [OF Suc.prems(2)] wp by blast
    have later: "T \<le> cw_clock c \<Longrightarrow> cw_ans c (cw_clock c) \<noteq> Bad EINTR \<and> cw_ans c (cw_clock c) \<noteq> Ok 0"
      using Suc.prems(2) by (simp add: settled_def)
    show ?thesis
    proof (cases "cw_ans c (cw_clock c)")
      case (Ok n)
      have "length (drop (length (take n s)) s) + (T - cw_clock c1) < k"
        using wp Suc.prems(3) False later Ok by (cases "T \<le> cw_clock c"; cases s) (auto simp: min_def)
      with Ok wp Suc.IH [of c1 "t @ take n s" "drop (length (take n s)) s"] st w False
      show ?thesis by (simp add: handle_def)
    next
      case (Bad e)
      show ?thesis
      proof (cases "e = EINTR")
        case True
        have "length s + (T - cw_clock c1) < k"
          using wp Suc.prems(3) later Bad True by (cases "T \<le> cw_clock c") auto
        with Bad wp Suc.IH [of c1 t s] st w False True show ?thesis by (simp add: handle_def)
      next
        case False
        with Bad wp w \<open>s \<noteq> []\<close> show ?thesis by (simp add: handle_def cm_defs)
      qed
    qed
  qed (simp add: cm_defs)
qed simp

lemma fallback_returns:
  assumes "spos c sfd i o'" "tpos c tfd j (take o' D)" "sfd \<noteq> tfd" "i \<noteq> j" "i_data (cw_inodes c i) = D" "o' \<le> length D"
    and "settled T c" "length D - o' + (T - cw_clock c) + 1 < k"
  shows "fst (copy_file_fallback k sfd tfd c) \<noteq> Running"
  using assms
proof (induction k arbitrary: o' c)
  case (Suc k)
  obtain r1 c1 where rd: "k_read sfd COPY_BUF c = (r1, c1)" by fastforce
  note b = read_block [OF Suc.prems(1,2,3) rd]
  show ?case
  proof (cases "\<exists>e. r1 = Failed e")
    case True
    with rd b show ?thesis by (auto simp: andThen_def handle_def cm_defs)
  next
    case False
    with b Suc.prems(5) obtain s where s: "r1 = Done s" "s = [] \<longleftrightarrow> drop o' D = []" "s = take (length s) (drop o' D)"
      "spos c1 sfd i (o' + length s)" by auto
    show ?thesis
    proof (cases "s = []")
      case True
      with rd s(1) show ?thesis by (auto simp: andThen_def handle_def cm_defs)
    next
      case nonempty: False
      obtain n where n: "n = length s" by simp
      have sn: "s = take n (drop o' D)" unfolding n by (rule s(3))
      then have "length s \<le> length D - o'" by simp
      with Suc.prems(6) have len: "o' + length s \<le> length D" by linarith
      have T1: "touch j {sfd, tfd} c c1" using b by blast
      then have clk: "cw_clock c \<le> cw_clock c1" by (simp add: touch_def)
      have st1: "settled T c1" by (rule settled_touch [OF Suc.prems(7) T1])
      have t1: "tpos c1 tfd j (take o' D)" using b by blast
      have "length s + (T - cw_clock c1) < k" using Suc.prems(8) clk len by linarith
      note wr = write_all_returns [OF t1 st1 this]
      obtain r2 c2 where w: "write_all k tfd s c1 = (r2, c2)" by fastforce
      note wp = write_all_tpos [OF t1 w]
      have T2: "touch j {sfd, tfd} c1 c2" using wp by (auto intro: touch_mono)
      show ?thesis
      proof (cases "r2 = Done ()")
        case True
        have grow: "take o' D @ s = take (o' + length s) D" unfolding n [symmetric] take_add using sn by (rule arg_cong)
        have t2: "tpos c2 tfd j (take (o' + length s) D)" using wp True grow by simp
        have s2: "spos c2 sfd i (o' + length s)" using spos_touch [OF s(4) conjunct1 [OF wp]] Suc.prems(3) by simp
        have D2: "i_data (cw_inodes c2 i) = D" using touch_inode [OF T2 Suc.prems(4)] b Suc.prems(5) by simp
        have "cw_clock c1 \<le> cw_clock c2" using T2 by (simp add: touch_def)
        moreover have "0 < length s" using nonempty by simp
        ultimately have "length D - (o' + length s) + (T - cw_clock c2) + 1 < k"
          using Suc.prems(8) clk len by linarith
        from Suc.IH [OF s2 t2 Suc.prems(3,4) D2 len settled_touch [OF st1 T2] this]
        show ?thesis using rd s(1) nonempty w True by (simp add: andThen_def handle_def)
      next
        case False
        with rd s(1) nonempty w wr show ?thesis by (cases r2) (simp_all add: andThen_def handle_def cm_defs)
      qed
    qed
  qed
qed simp

lemma restart_returns:
  assumes "spos c sfd i o'" "fd_at c tfd = Some d" "fd_ino d = j" "fd_write d" "sfd \<noteq> tfd" "i \<noteq> j"
    and "i_data (cw_inodes c i) = D" "fdtab_get c tfd = None" "settled T c" "length D + T + 1 < k"
  shows "fst (andThen (k_rewind sfd) (\<lambda>_. andThen (k_rewind tfd) (\<lambda>_. andThen (ftruncate_with brk env tfd 0)
        (\<lambda>_. copy_file_fallback k sfd tfd))) c) \<noteq> Running"
proof -
  from assms(1) obtain ds where ds: "fd_at c sfd = Some ds" "fd_ino ds = i" by (auto simp: spos_def)
  obtain r1 c1 where m1: "k_rewind sfd c = (r1, c1)" by fastforce
  note p1 = rewind_pos [OF m1 ds(1), of j]
  show ?thesis
  proof (cases "r1 = Done ()")
    case False
    with p1 m1 show ?thesis by (auto simp: andThen_def handle_def cm_defs)
  next
    case True1: True
    with p1 have s1: "spos c1 sfd i 0" using ds by (auto simp: spos_def)
    have d1: "fd_at c1 tfd = Some d" using p1 assms(2,5) by (auto simp: touch_def)
    obtain r2 c2 where m2: "k_rewind tfd c1 = (r2, c2)" by fastforce
    note p2 = rewind_pos [OF m2 d1, of j]
    show ?thesis
    proof (cases "r2 = Done ()")
      case False
      with p2 m1 m2 True1 show ?thesis by (auto simp: andThen_def handle_def cm_defs)
    next
      case True2: True
      with p2 have d2: "fd_at c2 tfd = Some (d\<lparr>fd_off := 0\<rparr>)" by auto
      have s2: "spos c2 sfd i 0" using spos_touch [OF s1 conjunct1 [OF p2]] assms(5) by simp
      have tab: "fdtab_get c2 tfd = None"
        using touch_fdtab [OF conjunct1 [OF p1]] touch_fdtab [OF conjunct1 [OF p2]] assms(8) by simp
      obtain r3 c3 where m3: "ftruncate_with brk env tfd 0 c2 = (r3, c3)" by fastforce
      note p3 = ftruncate_clean [OF tab d2 _ m3, of j]
      show ?thesis
      proof (cases "r3 = Done ()")
        case False
        with p3 m1 m2 m3 True1 True2 assms(3) show ?thesis by (auto simp: andThen_def handle_def cm_defs)
      next
        case True
        have t3: "tpos c3 tfd j (take 0 D)" using p3 True assms(3,4) by (auto simp: tpos_def)
        have s3: "spos c3 sfd i 0" using spos_touch [OF s2, of j "{}" c3] p3 assms(3) by simp
        have T3: "touch j {} c2 c3" using p3 assms(3) by auto
        have "cw_inodes c3 i = cw_inodes c i"
          using touch_inode [OF conjunct1 [OF p1] assms(6)] touch_inode [OF conjunct1 [OF p2] assms(6)] touch_inode [OF T3 assms(6)]
          by simp
        then have D3: "i_data (cw_inodes c3 i) = D" using assms(7) by simp
        have st3: "settled T c3"
          using settled_touch [OF settled_touch [OF settled_touch [OF assms(9) conjunct1 [OF p1]] conjunct1 [OF p2]] T3] .
        have "length D - 0 + (T - cw_clock c3) + 1 < k" using assms(10) by linarith
        from fallback_returns [OF s3 t3 assms(5,6) D3 _ st3 this] m1 m2 m3 True1 True2 True show ?thesis
          by (simp add: andThen_def handle_def)
      qed
    qed
  qed
qed

lemma range_loop_returns:
  assumes "spos c sfd i copied" "tpos c tfd j (take copied D)" "sfd \<noteq> tfd" "i \<noteq> j" "i_data (cw_inodes c i) = D"
    and "copied \<le> length D" "fdtab_get c tfd = None" "settled T c"
    and "length D - copied + (T - cw_clock c) + length D + T + 2 < k"
  shows "fst (range_loop (ftruncate_with brk env) k sfd tfd (length D) copied c) \<noteq> Running"
  using assms
proof (induction k arbitrary: copied c)
  case (Suc k)
  let ?T = "touch j {sfd, tfd}"
  show ?case
  proof (cases "copied < length D")
    case False
    then show ?thesis by (simp add: cm_defs)
  next
    case True
    let ?want = "min (length D - copied) RANGE_BLOCK"
    obtain r1 c1 where m1: "k_copy_file_range sfd tfd ?want c = (r1, c1)" by fastforce
    note p1 = k_copy_range_pos [OF Suc.prems(1,2) m1 Suc.prems(3)]
    then have T1: "?T c c1" by blast
    have D1: "i_data (cw_inodes c1 i) = D" using touch_inode [OF T1 Suc.prems(4)] Suc.prems(5) by simp
    have tab: "fdtab_get c1 tfd = None" using touch_fdtab [OF T1] Suc.prems(7) by simp
    have st: "settled T c1" by (rule settled_touch [OF Suc.prems(8) T1])
    have clk: "cw_clock c1 = Suc (cw_clock c)" using p1 by blast
    show ?thesis
    proof (cases "cw_ans c (cw_clock c)")
      case (Ok n)
      obtain m where m: "m = length (take (min ?want n) (drop copied D))" by simp
      from Ok p1 Suc.prems(5) have q: "r1 = Done m" "spos c1 sfd i (copied + m)"
        "tpos c1 tfd j (take copied D @ take (min ?want n) (drop copied D))"
        by (simp_all add: Let_def m)
      show ?thesis
      proof (cases "0 < m")
        case False
        with m1 True q show ?thesis by (simp add: handle_def cm_defs)
      next
        case mpos: True
        have le: "copied + m \<le> length D" using True by (auto simp: m)
        have "take copied D @ take (min ?want n) (drop copied D) = take (copied + m) D"
          by (simp add: m take_add min_def)
        with q have q3: "tpos c1 tfd j (take (copied + m) D)" by simp
        have "length D - (copied + m) + (T - cw_clock c1) + length D + T + 2 < k"
          using Suc.prems(9) mpos le clk by linarith
        from Suc.IH [OF q(2) q3 Suc.prems(3,4) D1 le tab st this] m1 True q(1) mpos show ?thesis
          by (simp add: handle_def)
      qed
    next
      case (Bad e)
      with p1 have q: "r1 = Failed e" "spos c1 sfd i copied" "tpos c1 tfd j (take copied D)" by simp_all
      show ?thesis
      proof (cases "e = EINTR")
        case True
        have "T - cw_clock c1 < T - cw_clock c"
          using Bad True Suc.prems(8) clk by (cases "T \<le> cw_clock c") (auto simp: settled_def)
        then have "length D - copied + (T - cw_clock c1) + length D + T + 2 < k" using Suc.prems(9) by linarith
        from Suc.IH [OF q(2,3) Suc.prems(3,4) D1 Suc.prems(6) tab st this] m1 q(1) True \<open>copied < length D\<close> show ?thesis
          by (simp add: handle_def)
      next
        case False
        show ?thesis
        proof (cases "e \<in> {ENOSYS, EINVAL, EXDEV, EPERM, ENOTSUP}")
          case fb: True
          from q(3) obtain d where d: "fd_at c1 tfd = Some d" "fd_ino d = j" "fd_write d" by (auto simp: tpos_def)
          have "length D + T + 1 < k" using Suc.prems(9) by linarith
          from restart_returns [OF q(2) d Suc.prems(3,4) D1 tab st this] m1 True q(1) False fb show ?thesis
            by (simp add: handle_def)
        next
          case other: False
          with m1 True q False show ?thesis by (auto simp: handle_def cm_defs)
        qed
      qed
    qed
  qed
qed simp

section \<open>The copy-up\<close>

lemma copy_contents_returns:
  assumes sd: "side c0 tn j c" and tn: "ino_at c0 tn = None"
    and old: "\<And>n i. ino_at c0 n = Some i \<Longrightarrow> i \<noteq> j"
    and st: "stat_at env c0 True p = Inr i" "i_kind (cw_inodes c0 i) = KReg" "i_data (cw_inodes c0 i) = D"
    and tfd: "fdtab_get c0 tfd = None" "tpos c tfd j []"
    and set: "settled T c0" and k: "2 * length D + 2 * T + 2 < k"
  shows "fst (copy_contents brk k env p tmp tfd (length D) c) \<noteq> Running"
proof -
  have ij: "i \<noteq> j" using stat_at_named [OF st(1)] old by blast
  have stc: "stat_at env c True p = Inr i" by (rule stat_side [OF st(1) sd tn old])
  have ci: "cw_inodes c i = cw_inodes c0 i" using sd ij by (simp add: side_def)
  obtain r1 c1 where o: "k_open env p 0 0 c = (r1, c1)" by fastforce
  note src = open_source [OF stc _ o, unfolded ci, OF st(2), where j = j]
  let ?end1 = "\<lambda>e. andThen (ignoring (close_hook tfd)) (\<lambda>_. andThen (ignoring (k_unlink env tmp)) (\<lambda>_. fail e)) :: unit cm"
  have end1: "returns (?end1 e)" for e by (intro returns_rules returns_calls)
  show ?thesis
  proof (cases "\<exists>e. r1 = Failed e")
    case True
    with o end1 show ?thesis by (auto simp: copy_contents_def handle_def valid_def)
  next
    case False
    with src obtain sfd where s: "r1 = Done sfd" "fd_at c sfd = None" "touch j {sfd} c c1" "cw_inodes c1 = cw_inodes c"
      "spos c1 sfd i 0" by blast
    have ne: "sfd \<noteq> tfd" using s(2) tfd(2) by (auto simp: tpos_def)
    have t1: "tpos c1 tfd j (take 0 D)" using tpos_touch [OF tfd(2) s(3)] ne s(4) by simp
    have D1: "i_data (cw_inodes c1 i) = D" using s(4) ci st(3) by simp
    have tab1: "fdtab_get c1 tfd = None" using touch_fdtab [OF s(3)] sd tfd(1) by (simp add: side_def)
    have set1: "settled T c1" using s(3) sd set by (simp add: touch_def side_def settled_def)
    have k1: "length D - 0 + (T - cw_clock c1) + 1 < k" "length D - 0 + (T - cw_clock c1) + length D + T + 2 < k"
      using k by linarith+
    have cp: "fst (copy_file_fast (ftruncate_with brk env) k env sfd tfd (length D) c1) \<noteq> Running"
      using fallback_returns [OF s(5) t1 ne ij D1 _ set1 k1(1)] range_loop_returns [OF s(5) t1 ne ij D1 _ tab1 set1 k1(2)]
      by (simp add: copy_file_fast_def)
    let ?end2 = "\<lambda>e. andThen (ignoring (close_hook sfd)) (\<lambda>_. ?end1 e)"
    have end2: "returns (?end2 e)" for e by (intro returns_rules returns_calls)
    have end3: "returns (ignoring (close_hook sfd))" by (intro returns_rules returns_calls)
    obtain r2 c2 where m2: "copy_file_fast (ftruncate_with brk env) k env sfd tfd (length D) c1 = (r2, c2)" by fastforce
    have "fst (andThen (on_fail (copy_file_fast (ftruncate_with brk env) k env sfd tfd (length D)) ?end2)
        (\<lambda>_. ignoring (close_hook sfd)) c1) \<noteq> Running"
    proof (cases r2)
      case (Done u)
      with m2 end3 show ?thesis by (simp add: andThen_def on_fail_def handle_def ret_def valid_def)
    next
      case (Failed e)
      obtain r3 c3 where m3: "?end2 e c2 = (r3, c3)" by fastforce
      with returnsD [OF end2] have "r3 \<noteq> Running" by blast
      moreover have "returns (ignoring (close_hook sfd))" by (rule end3)
      ultimately show ?thesis using m2 Failed m3
        by (cases r3) (simp_all add: andThen_def on_fail_def handle_def fail_def valid_def)
    qed (use m2 cp in \<open>simp_all add: andThen_def on_fail_def handle_def\<close>)
    then show ?thesis using o s(1) by (simp add: copy_contents_def handle_def)
  qed
qed

lemma install_returns: "returns (install_copy env tmp p)"
  unfolding install_copy_def Let_def
  by (rule returns_handle) (auto intro!: returns_rules returns_calls)

lemma andThen_step: "m c = (Done x, c1) \<Longrightarrow> andThen m f c = f x c1"
  by (simp add: andThen_def handle_def)

lemma andThen_stop: "m c = (r, c1) \<Longrightarrow> r \<noteq> Running \<Longrightarrow> \<forall>x. r \<noteq> Done x \<Longrightarrow> fst (andThen m f c) \<noteq> Running"
  by (cases r) (simp_all add: andThen_def handle_def fail_def)

lemma copy_up_returns:
  assumes cl: "clean c0" and ex: "\<And>n i. ino_at c0 n = Some i \<Longrightarrow> i < cw_next c0"
    and st: "stat_at env c0 True p = Inr i" "i_kind (cw_inodes c0 i) = KReg"
    and xa: "\<not> cv_copy_xattrs env" and set: "settled T c0"
    and k: "2 * length (i_data (cw_inodes c0 i)) + 2 * T + 2 < k"
  shows "fst (copy_up brk k env p (cw_inodes c0 i) cd c0) \<noteq> Running"
proof (cases "tmp_template p")
  case (Inl e)
  then show ?thesis by (simp add: copy_up_def cm_defs)
next
  case (Inr tmpl)
  let ?j = "cw_next c0"
  have old: "\<And>n i. ino_at c0 n = Some i \<Longrightarrow> i \<noteq> ?j" using ex by blast
  obtain r1 c1 where mk: "k_mkstemp env tmpl c0 = (r1, c1)" by fastforce
  note made = mkstemp_side [OF mk]
  show ?thesis
  proof (cases "\<exists>e. r1 = Failed e")
    case True
    with Inr mk show ?thesis by (auto simp: copy_up_def andThen_def handle_def cm_defs)
  next
    case False
    with made obtain tmp fd where m: "r1 = Done (tmp, fd)" "ino_at c0 (entry env c0 tmp) = None"
      "side c0 (entry env c0 tmp) ?j c1" "fd_at c0 fd = None" "tpos c1 fd ?j []" by blast
    have tab: "fdtab_get c0 fd = None" using cl m(4) by (simp add: clean_def)
    have tab1: "fdtab_get c1 fd = None" using m(3) tab by (simp add: side_def)
    obtain r2 c2 where ch: "ignoring (meta_fd_with brk env fd (SetMode (i_mode (cw_inodes c0 i) mod 4096))) c1 = (r2, c2)"
      by fastforce
    note s2 = fchmod_side [OF tab1 m(5) ch m(3)]
    let ?cc = "(if cd then copy_contents brk k env p tmp fd (length (i_data (cw_inodes c0 i))) else ret ()) :: unit cm"
    obtain r3 c3 where cc: "?cc c2 = (r3, c3)" by fastforce
    have s2': "side c0 (entry env c0 tmp) ?j c2" "tpos c2 fd ?j []" using s2 by auto
    have "fst (copy_contents brk k env p tmp fd (length (i_data (cw_inodes c0 i))) c2) \<noteq> Running"
      by (rule copy_contents_returns [OF s2'(1) m(2) _ st refl tab s2'(2) set k]) (rule old)
    then have r3: "r3 \<noteq> Running"
      using cc
      by (cases cd) (auto simp: ret_def)
    let ?tail = "andThen (on_fail (close_hook fd) (\<lambda>e. andThen (ignoring (k_unlink env tmp)) (\<lambda>_. fail e)))
        (\<lambda>_. andThen (copy_xattrs brk env p tmp) (\<lambda>_. install_copy env tmp p))"
    have tail: "returns ?tail"
      using xa by (auto simp: copy_xattrs_def intro!: returns_rules returns_calls install_returns)
    have "fst (andThen ?cc (\<lambda>_. ?tail) c2) \<noteq> Running"
    proof (cases "r3 = Done ()")
      case True
      with cc tail show ?thesis by (simp add: andThen_step valid_def)
    next
      case False
      show ?thesis by (rule andThen_stop [where m = ?cc and c = c2, OF cc r3]) (use False in auto)
    qed
    then show ?thesis
      using s2 ch mk m(1) by (simp add: copy_up_def Inr andThen_step [where m = "k_mkstemp env tmpl"]
          andThen_step [where m = "ignoring (meta_fd_with brk env fd (SetMode (i_mode (cw_inodes c0 i) mod 4096)))"])
  qed
qed

lemma break_returns:
  assumes "clean c" "names_bounded c" "shared_file env c p i" "\<not> cv_copy_xattrs env" "settled T c"
    and "2 * length (i_data (cw_inodes c i)) + 2 * T + 3 < k"
  shows "fst (break_hardlink_copy k env (Some p) cd c) \<noteq> Running"
proof -
  from assms(6) obtain k' where k: "k = Suc k'" by (cases k) auto
  have st: "stat_at env c True p = Inr i" "i_kind (cw_inodes c i) = KReg" "1 < link_count c i"
      "shim_stat env c True p = Inr i"
    using assms(3) shared_stat [OF assms(3)] by (simp_all add: shared_file_def)
  have "fst (copy_up (break_hardlink_copy_stat k' env) k' env p (cw_inodes c i) cd c) \<noteq> Running"
    by (rule copy_up_returns [OF assms(1) names_boundedD [OF assms(2)] st(1,2) assms(4,5)]) (use assms(6) k in auto)
  with st k show ?thesis by (simp add: break_hardlink_copy_def reading_def)
qed

end
