(* ===== verification/Cow_Theorems.thy ===== *)
theory Cow_Theorems
  imports Cow_Safety Cow_Liveness
begin

text \<open>
  The properties of the copy-on-write shim: the image is never changed by covered calls, what a
  copy-up leaves behind on success and on failure, that it returns, and the calls it does not
  cover.
\<close>

text \<open>A small clone: \<open>/bin/sh\<close> and a private \<open>/etc/motd\<close>; the shell is shared with the image.\<close>

definition demo_cow_env :: cow_env where
  "demo_cow_env =
     \<lparr>cv_entry = (\<lambda>p. p), cv_user = (10, 10), cv_copy_xattrs = False, cv_track_readonly = False,
      cv_fail_step = None, cv_fail_before_rename = None, cv_copy_range = True\<rparr>"

definition demo_shell :: inode where
  "demo_shell = \<lparr>i_kind = KReg, i_data = ''elf'', i_mode = 493, i_owner = (0, 0), i_times = 7, i_xattrs = []\<rparr>"

definition demo_clone :: cow where
  "demo_clone =
     \<lparr>cw_names = [(''/bin/sh'', 0)], cw_inodes = (\<lambda>_. demo_shell), cw_shared = (\<lambda>i. if i = 0 then 1 else 0),
      cw_next = 1, cw_fds = [], cw_fdtab = (\<lambda>_. None), cw_cwd = ''/'', cw_ans = (\<lambda>_. Ok 1),
      cw_stat = (\<lambda>_ _. None), cw_clock = 0\<rparr>"

abbreviation demo_base :: baseline where
  "demo_base \<equiv> (cw_shared demo_clone, cw_inodes demo_clone)"

lemma demo_kept: "image_kept demo_base demo_clone" "truthful demo_clone"
  by (auto simp: image_kept_def truthful_def demo_clone_def demo_shell_def)

lemma demo_lookup:
  "ino_at demo_clone ''/bin/sh'' = Some 0" "entry demo_cow_env demo_clone ''/bin/sh'' = ''/bin/sh''"
  "stat_at demo_cow_env demo_clone follow ''/bin/sh'' = Inr 0"
  by (cases follow;
      simp add: ino_at_def demo_clone_def entry_def absolute_def demo_cow_env_def stat_at_def resolve_def
        eval_nat_numeral demo_shell_def)+

lemma demo_shared: "shared_file demo_cow_env demo_clone ''/bin/sh'' 0" "clean demo_clone" "names_bounded demo_clone"
  using demo_lookup
  by (simp_all add: shared_file_def shim_stat_def link_count_def clean_def names_bounded_def fdtab_get_def)
     (simp_all add: demo_clone_def demo_shell_def)

text \<open>C2.
  The image behind a cloned root file system never changes. Whatever covered calls the container
  makes, in any order, every file that another layer links keeps its bytes, mode, owner, times and
  attributes. The kernel may answer any other call with an error, an interruption or a short
  transfer, and the process may be killed in the middle; but a \<open>stat\<close>, \<open>lstat\<close> or \<open>fstatat\<close> of the shim
  answers truthfully (\<open>truthful\<close>: the copy-up takes its failure for a file that does not exist), and
  an \<open>openat\<close> relative to a descriptor without a remembered path counts as covered only when the
  \<open>readlink\<close> of its directory succeeds.\<close>

theorem image_never_changes:
  assumes "image_kept (cw_shared c0, cw_inodes c0) c0" and "truthful c0"
    and "cow_session (cw_shared c0, cw_inodes c0) env c0 c" and "0 < cw_shared c0 i"
  shows "cw_inodes c i = cw_inodes c0 i"
  using session_keeps [OF assms(3)] assms(1,2,4) by (auto simp: image_kept_def)

definition demo_written :: cow where
  "demo_written =
     snd (run_call 9 demo_cow_env (CWrite 0 ''new'')
       (snd (run_call 9 demo_cow_env (COpen (Some ''/bin/sh'') (O_WRONLY OR O_TRUNC) 0) demo_clone)))"

theorem image_never_changes_witness:
  "i_data (cw_inodes demo_written 0) = ''elf'' \<and> cow_session demo_base demo_cow_env demo_clone demo_written"
proof
  let ?c1 = "snd (run_call 9 demo_cow_env (COpen (Some ''/bin/sh'') (O_WRONLY OR O_TRUNC) 0) demo_clone)"
  have s1: "cow_session demo_base demo_cow_env demo_clone ?c1"
    by (rule cow_call [OF cow_start, where k = 9 and call = "COpen (Some ''/bin/sh'') (O_WRONLY OR O_TRUNC) 0"])
       (auto simp: prod_eq_iff)
  show s2: "cow_session demo_base demo_cow_env demo_clone demo_written"
    unfolding demo_written_def
    by (rule cow_call [OF s1, where k = 9 and call = "CWrite 0 ''new''"]) (auto simp: prod_eq_iff)
  have "cw_inodes demo_written 0 = cw_inodes demo_clone 0"
    by (rule image_never_changes [OF demo_kept s2]) (simp add: demo_clone_def)
  then show "i_data (cw_inodes demo_written 0) = ''elf''" by (simp add: demo_clone_def demo_shell_def)
qed

lemma demo_results:
  "fst (break_hardlink_copy 1 demo_cow_env (Some ''/bin/sh'') False demo_clone) = Done ()"
  "fst (break_hardlink_copy 1 demo_cow_env (Some ''/bin/sh'') True (demo_clone\<lparr>cw_ans := (\<lambda>_. Bad ENOSPC)\<rparr>)) = Failed ENOSPC"
  by code_simp+

lemma demo_plain: "\<not> cv_copy_xattrs demo_cow_env" "\<forall>t. cw_ans demo_clone t \<noteq> Ok 0"
  by (simp_all add: demo_cow_env_def demo_clone_def)

lemma demo_full:
  "clean (demo_clone\<lparr>cw_ans := a\<rparr>)" "names_bounded (demo_clone\<lparr>cw_ans := a\<rparr>)"
  "shared_file demo_cow_env (demo_clone\<lparr>cw_ans := a\<rparr>) ''/bin/sh'' 0"
  by (simp_all add: clean_def names_bounded_def fdtab_get_def shared_file_def shim_stat_def link_count_def stat_at_def resolve_def
      entry_def absolute_def ino_at_def demo_cow_env_def demo_clone_def demo_shell_def eval_nat_numeral)

text \<open>C3.
  A copy-up of a shared file that returns success leaves a new file under the entry with the bytes
  of the old one (none when the data is to be discarded); the old file, every other name and every
  other file stay as they were. This needs a table of descriptor paths without an entry for a closed
  descriptor (the shim's \<open>fchmod\<close> and \<open>ftruncate\<close> of the temporary file go through it), a
  \<open>copy_file_range\<close> and a \<open>write\<close> that never answer zero (a zero ends the copy early), attribute
  copying off, and a \<open>stat\<close> that reports the file; any call may fail or be interrupted.\<close>

theorem copy_up_copies:
  assumes "clean c" "names_bounded c" "shared_file env c p i" "\<forall>t. cw_ans c t \<noteq> Ok 0" "\<not> cv_copy_xattrs env"
    and "break_hardlink_copy k env (Some p) copy_data c = (Done (), c')"
  shows "copied_up c (entry env c p) (if copy_data then i_data (cw_inodes c i) else []) c'"
  using break_outcome [OF assms] by simp

theorem copy_up_copies_witness:
  "copied_up demo_clone ''/bin/sh'' [] (snd (break_hardlink_copy 1 demo_cow_env (Some ''/bin/sh'') False demo_clone))"
  using copy_up_copies [OF demo_shared(2,3,1) demo_plain(2,1), of 1 False] demo_results(1) demo_lookup(2)
  by (simp add: prod_eq_iff)

text \<open>C4.
  A copy-up of a shared file that fails leaves every name with the file it had: an error of any call
  on the way loses neither the old contents nor a name. The hypotheses are those of the success case:
  no entry of the descriptor path table for a closed descriptor, no transfer of zero bytes, attribute
  copying off.\<close>

theorem failed_copy_up_keeps_files:
  assumes "clean c" "names_bounded c" "shared_file env c p i" "\<forall>t. cw_ans c t \<noteq> Ok 0" "\<not> cv_copy_xattrs env"
    and "break_hardlink_copy k env (Some p) copy_data c = (Failed e, c')"
  shows "files_kept c c'"
  using break_outcome [OF assms] by simp

theorem failed_copy_up_keeps_files_witness:
  "files_kept (demo_clone\<lparr>cw_ans := (\<lambda>_. Bad ENOSPC)\<rparr>)
     (snd (break_hardlink_copy 1 demo_cow_env (Some ''/bin/sh'') True (demo_clone\<lparr>cw_ans := (\<lambda>_. Bad ENOSPC)\<rparr>)))"
  by (rule failed_copy_up_keeps_files [OF demo_full _ demo_plain(1), where k = 1 and copy_data = True and e = ENOSPC])
     (use demo_results(2) in \<open>simp_all add: prod_eq_iff\<close>)



section \<open>Calls the shim does not cover\<close>

text \<open>C40.
  \<open>lchown\<close> of a regular file changes the file of the image: the hook copies nothing up, on the
  assumption that the call is only used on symbolic links.\<close>

theorem lchown_reaches_image:
  assumes "stat_at env c False p = Inr i" "cw_ans c (cw_clock c) = Ok n" "p \<noteq> []"
  shows "cw_inodes (snd (lchown_hook env (Some p) u g c)) i = (cw_inodes c i)\<lparr>i_owner := (u, g)\<rparr>"
  using assms
  by (auto simp: lchown_hook_def with_path_def k_meta_def meta_entry_def change_meta_def run_defs stat_at_def
      split: sum.splits option.splits)

theorem lchown_reaches_image_witness:
  "0 < cw_shared demo_clone 0 \<and>
   i_owner (cw_inodes (snd (lchown_hook demo_cow_env (Some ''/bin/sh'') 10 10 demo_clone)) 0) \<noteq> i_owner (cw_inodes demo_clone 0)"
  using lchown_reaches_image [OF demo_lookup(3) [of False], of 1 10 10]
  by (simp add: demo_clone_def demo_shell_def)

text \<open>
  The copy-up takes every error of its \<open>stat\<close> for a file that does not exist yet: when it fails once
  on a shared file (no memory, no permission to search a directory for a moment) and the call that
  follows succeeds, the change reaches the file of the image.\<close>

theorem failed_stat_reaches_image:
  assumes "cw_stat c (cw_clock c) p = Some e" "stat_at env c True p = Inr i" "cw_ans c (cw_clock c) = Ok n" "p \<noteq> []"
    and "i_kind (cw_inodes c i) = KReg"
  shows "cw_inodes (snd (truncate_hook (Suc k) env (Some p) len c)) i = apply_meta (SetLen len) (cw_inodes c i)"
proof -
  have "break_hardlink_copy (Suc k) env (Some p) (len \<noteq> 0) c = (Done (), c)"
    using assms(1) by (simp add: break_hardlink_copy_def reading_def shim_stat_def ret_def)
  then have "truncate_hook (Suc k) env (Some p) len c = k_meta env True p (SetLen len) c"
    by (simp add: truncate_hook_def with_path_def andThen_def handle_def)
  then show ?thesis
    using assms(2-5)
    by (auto simp: k_meta_def meta_entry_def change_meta_def run_defs stat_at_def simp del: apply_meta.simps
        split: sum.splits option.splits)
qed

theorem failed_stat_reaches_image_witness:
  "0 < cw_shared demo_clone 0 \<and>
   i_data (cw_inodes (snd (truncate_hook 1 demo_cow_env (Some ''/bin/sh'') 0 (demo_clone\<lparr>cw_stat := (\<lambda>_ _. Some ENOMEM)\<rparr>))) 0) = []"
proof -
  let ?c = "demo_clone\<lparr>cw_stat := (\<lambda>_ _. Some ENOMEM)\<rparr>"
  have "stat_at demo_cow_env ?c True ''/bin/sh'' = Inr 0"
    by (simp add: ino_at_def demo_clone_def entry_def absolute_def demo_cow_env_def stat_at_def resolve_def
        eval_nat_numeral demo_shell_def)
  from failed_stat_reaches_image [OF _ this, of ENOMEM 1 0 0] show ?thesis
    by (simp add: demo_clone_def demo_shell_def set_len_def)
qed

text \<open>
  A truncating open that the kernel refuses after the copy-up has emptied the container's file: the
  copy-up leaves the data out because the open was going to discard it, and nothing puts the old
  file back.\<close>

theorem failed_truncating_open_empties_file:
  assumes "clean c" "names_bounded c" "shared_file env c p i" "\<forall>t. cw_ans c t \<noteq> Ok 0" "\<not> cv_copy_xattrs env"
    and brk: "break_hardlink_copy k env (Some p) False c = (Done (), c1)" and "cw_ans c1 (cw_clock c1) = Bad e"
  shows "\<exists>c' j. open_hook k env (Some p) (O_WRONLY OR O_TRUNC) mode c = (Failed e, c') \<and>
     ino_at c' (entry env c p) = Some j \<and> i_data (cw_inodes c' j) = []"
proof -
  have "copied_up c (entry env c p) [] c1" using break_outcome [OF assms(1-6)] by simp
  then obtain j where j: "ino_at c1 (entry env c p) = Some j" "i_data (cw_inodes c1 j) = []" by (auto simp: copied_up_def)
  have "maybe_break k env (Some p) (O_WRONLY OR O_TRUNC) = break_hardlink_copy k env (Some p) False"
    by (simp add: maybe_break_def flags_write_def flag_def open_flags)
  moreover have "k_open env p (O_WRONLY OR O_TRUNC) mode c1 = (Failed e, c1\<lparr>cw_clock := cw_clock c1 + 1\<rparr>)"
    using assms(7) by (simp add: k_open_def open_entry_def run_defs)
  ultimately have "open_hook k env (Some p) (O_WRONLY OR O_TRUNC) mode c = (Failed e, c1\<lparr>cw_clock := cw_clock c1 + 1\<rparr>)"
    using brk by (simp add: open_hook_def with_path_def andThen_def handle_def fail_def)
  with j show ?thesis by auto
qed

lemma demo_refused:
  "fst (break_hardlink_copy 1 demo_cow_env (Some ''/bin/sh'') False (demo_clone\<lparr>cw_ans := (\<lambda>n. if n < 4 then Ok 1 else Bad EACCES)\<rparr>)) = Done ()"
  "cw_clock (snd (break_hardlink_copy 1 demo_cow_env (Some ''/bin/sh'') False (demo_clone\<lparr>cw_ans := (\<lambda>n. if n < 4 then Ok 1 else Bad EACCES)\<rparr>))) = 4"
  "cw_ans (snd (break_hardlink_copy 1 demo_cow_env (Some ''/bin/sh'') False (demo_clone\<lparr>cw_ans := (\<lambda>n. if n < 4 then Ok 1 else Bad EACCES)\<rparr>))) 4 = Bad EACCES"
  by code_simp+

theorem failed_truncating_open_empties_file_witness:
  "\<exists>c' j. open_hook 1 demo_cow_env (Some ''/bin/sh'') (O_WRONLY OR O_TRUNC) 0
        (demo_clone\<lparr>cw_ans := (\<lambda>n. if n < 4 then Ok 1 else Bad EACCES)\<rparr>) = (Failed EACCES, c') \<and>
     ino_at c' ''/bin/sh'' = Some j \<and> i_data (cw_inodes c' j) = []"
proof -
  let ?a = "\<lambda>n :: nat. if n < 4 then Ok 1 else Bad EACCES"
  have "\<forall>t. cw_ans (demo_clone\<lparr>cw_ans := ?a\<rparr>) t \<noteq> Ok 0" by simp
  from failed_truncating_open_empties_file [OF demo_full [of ?a] this demo_plain(1), of 1 _ EACCES 0] demo_refused
  show ?thesis by (simp add: prod_eq_iff entry_def absolute_def demo_cow_env_def demo_clone_def)
qed

text \<open>
  An entry of the path table that outlived its descriptor (closed inside the C library) redirects
  \<open>fchmod\<close>: a file opened for reading under the same number is left alone and the mode of the file
  the number stood for before is changed.\<close>

theorem stale_descriptor_redirects:
  assumes "\<not> cv_track_readonly env" "fdtab_get c fd = Some q"
    and "open_hook k env (Some p) 0 mode c = (Done fd, c')"
  shows "fchmod_hook k env fd m c' = chmod_hook k env (Some q) m c'"
proof -
  have plain: "maybe_break k env (Some p) 0 = ret ()" "\<And>fd p. remember_open_for_flags env fd p 0 = ret ()"
    using assms(1) by (simp_all add: maybe_break_def remember_open_for_flags_def flags_write_def flag_def open_flags)
  have tab: "fdtab_get (set_fd k d c) fd = fdtab_get c fd" for k d and c :: cow by (simp add: fdtab_get_def set_fd_def)
  have open0: "k_open env p 0 mode c = (r, c1) \<Longrightarrow> fdtab_get c1 fd = fdtab_get c fd" for r c1
    by (auto simp: k_open_def open_entry_def open_existing_def open_missing_def open_inode_def run_defs tab
        flag_def may_write_def open_flags split: answer.splits sum.splits option.splits ikind.splits if_splits)
  obtain r c1 where o: "k_open env p 0 mode c = (r, c1)" by fastforce
  with assms(3) have "c' = c1"
    by (cases r) (auto simp: open_hook_def plain with_path_def andThen_def handle_def cm_defs)
  with open0 [OF o] assms(2) show ?thesis
    by (simp add: fchmod_hook_def meta_fd_hook_def meta_fd_with_def chmod_hook_def meta_hook_def reading_def
        break_hardlink_def break_hardlink_copy_def with_path_def)
qed

definition stale_clone :: cow where
  "stale_clone = demo_clone\<lparr>cw_fdtab := (\<lambda>fd. if fd = 0 then Some ''/etc/motd'' else None)\<rparr>"

lemma stale_open: "fst (open_hook 1 demo_cow_env (Some ''/bin/sh'') 0 0 stale_clone) = Done 0"
  by code_simp

theorem stale_descriptor_redirects_witness:
  "\<exists>c'. open_hook 1 demo_cow_env (Some ''/bin/sh'') 0 0 stale_clone = (Done 0, c') \<and>
     fchmod_hook 1 demo_cow_env 0 511 c' = chmod_hook 1 demo_cow_env (Some ''/etc/motd'') 511 c'"
proof -
  have open0: "open_hook 1 demo_cow_env (Some ''/bin/sh'') 0 0 stale_clone =
      (Done 0, snd (open_hook 1 demo_cow_env (Some ''/bin/sh'') 0 0 stale_clone))"
    using stale_open by (simp add: prod_eq_iff)
  have "\<not> cv_track_readonly demo_cow_env" "fdtab_get stale_clone 0 = Some ''/etc/motd''"
    by (simp_all add: demo_cow_env_def fdtab_get_def stale_clone_def FD_TABLE_MAX_def)
  from stale_descriptor_redirects [OF this open0, of 511] open0 show ?thesis by blast
qed

end
