(* ===== verification/Spirv_Stream.thy ===== *)
theory Spirv_Stream
  imports Prelude
begin

text \<open>
  The walk over the instructions of a SPIR-V module that every pass of
  \<^verbatim>\<open>app/src/main/cpp/pdocker_gpu_executor.c\<close> makes: five header words, then instructions whose first
  word holds their length in words (upper half) and their opcode (lower half). A pass sees the words
  of one instruction at a time, \<open>w ! k\<close> being \<open>code[i + k]\<close>, and stops at an instruction of length
  zero or one that runs past the end.
\<close>

definition SPIRV_MAGIC :: u32 where
  "SPIRV_MAGIC = 0x07230203"

definition word_count :: "u32 \<Rightarrow> nat" where
  "word_count inst = unat (drop_bit 16 inst)"

definition opcode :: "u32 list \<Rightarrow> nat" where
  "opcode w = unat (hd w AND 0xffff)"

definition spirv_ok :: "u32 list \<Rightarrow> nat \<Rightarrow> bool" where
  "spirv_ok code bytes \<longleftrightarrow> 20 \<le> bytes \<and> bytes mod 4 = 0 \<and> code ! 0 = SPIRV_MAGIC"

definition spirv_body :: "u32 list \<Rightarrow> nat \<Rightarrow> u32 list" where
  "spirv_body code bytes = drop 5 (take (bytes div 4) code)"

lemma header_nth: "take 5 a = take 5 b \<Longrightarrow> k < 5 \<Longrightarrow> a ! k = b ! k"
  using nth_take [of k 5 a] nth_take [of k 5 b] by simp

datatype 's step = Go 's | Halt 's

fun the_step :: "'s step \<Rightarrow> 's" where
  "the_step (Go s) = s"
| "the_step (Halt s) = s"

lemma unat32: "unat (v :: u32) < 4294967296"
proof -
  have "unat v < 2 ^ 32" using unsigned_less [of v] by simp
  then show ?thesis by simp
qed

lemma unat_widen: "unat (ucast (v :: u32) :: u64) = unat v"
proof -
  have "unat v < 2 ^ 64" using unat32 [of v] by simp
  then show ?thesis by (simp add: unsigned_ucast_eq take_bit_nat_eq_self)
qed

lemma narrow_widen: "(ucast (ucast (v :: u32) :: u64) :: u32) = v"
  by (rule bit_word_eqI) (simp add: bit_simps)

section \<open>The walk\<close>

text \<open>\<open>bad\<close> is what a pass does at a malformed instruction; \<open>Halt\<close> is a break of the pass itself.\<close>

function scan :: "('s \<Rightarrow> 's) \<Rightarrow> (u32 list \<Rightarrow> 's \<Rightarrow> 's step) \<Rightarrow> u32 list \<Rightarrow> 's \<Rightarrow> 's" where
  "scan bad f [] s = s"
| "scan bad f (x # ws) s =
     (if word_count x = 0 \<or> length (x # ws) < word_count x then bad s
      else case f (take (word_count x) (x # ws)) s of
             Halt s' \<Rightarrow> s'
           | Go s' \<Rightarrow> scan bad f (drop (word_count x) (x # ws)) s')"
  by pat_completeness auto
termination by (relation "measure (\<lambda>(_, _, ws, _). length ws)") auto

section \<open>The instructions of a stream\<close>

definition wf_inst :: "u32 list \<Rightarrow> bool" where
  "wf_inst w \<longleftrightarrow> w \<noteq> [] \<and> word_count (hd w) = length w"

text \<open>The instructions up to the first malformed one, and whether there is none.\<close>

function insts :: "u32 list \<Rightarrow> u32 list list \<times> bool" where
  "insts [] = ([], True)"
| "insts (x # ws) =
     (if word_count x = 0 \<or> length (x # ws) < word_count x then ([], False)
      else let (is, ok) = insts (drop (word_count x) (x # ws))
           in (take (word_count x) (x # ws) # is, ok))"
  by pat_completeness auto
termination by (relation "measure length") auto

fun run_insts :: "(u32 list \<Rightarrow> 's \<Rightarrow> 's step) \<Rightarrow> u32 list list \<Rightarrow> 's \<Rightarrow> 's step" where
  "run_insts f [] s = Go s"
| "run_insts f (w # is) s = (case f w s of Halt s' \<Rightarrow> Halt s' | Go s' \<Rightarrow> run_insts f is s')"

lemma scan_insts:
  "scan bad f ws s =
     (case run_insts f (fst (insts ws)) s of
        Halt s' \<Rightarrow> s' | Go s' \<Rightarrow> if snd (insts ws) then s' else bad s')"
  by (induction bad f ws s rule: scan.induct) (auto split: step.split prod.split)

text \<open>A pass that never breaks off is a fold over the instructions.\<close>

lemma run_insts_Go: "run_insts (\<lambda>w s. Go (f w s)) is s = Go (fold f is s)"
  by (induction "is" arbitrary: s) simp_all

lemma scan_fold:
  "scan bad (\<lambda>w s. Go (f w s)) ws s =
     (if snd (insts ws) then fold f (fst (insts ws)) s else bad (fold f (fst (insts ws)) s))"
  by (simp add: scan_insts run_insts_Go)

lemma insts_wf: "w \<in> set (fst (insts ws)) \<Longrightarrow> wf_inst w"
proof (induction ws rule: insts.induct)
  case (2 x ws)
  then show ?case
    by (cases "word_count x") (auto simp: wf_inst_def Let_def split: if_splits prod.splits)
qed simp

lemma insts_concat: "snd (insts ws) \<Longrightarrow> concat (fst (insts ws)) = ws"
proof (induction ws rule: insts.induct)
  case (2 x ws)
  then show ?case by (auto simp: Let_def split: if_splits prod.splits)
qed simp

lemma insts_prefix: "\<exists>rest. ws = concat (fst (insts ws)) @ rest"
proof (induction ws rule: insts.induct)
  case (2 x ws)
  show ?case
  proof (cases "word_count x = 0 \<or> length (x # ws) < word_count x")
    case False
    with 2 obtain rest where "drop (word_count x) (x # ws) = concat (fst (insts (drop (word_count x) (x # ws)))) @ rest"
      by blast
    with False show ?thesis
      by (auto simp: Let_def split: prod.splits) (metis append_take_drop_id)
  qed simp
qed simp

text \<open>Writing instructions one after the other and walking over them gives them back.\<close>

lemma insts_Cons:
  assumes "wf_inst w" shows "insts (w @ ws) = (w # fst (insts ws), snd (insts ws))"
proof -
  from assms obtain x xs where w: "w = x # xs" and c: "word_count x = length (x # xs)"
    by (cases w) (auto simp: wf_inst_def)
  have "\<not> (word_count x = 0 \<or> length (x # xs @ ws) < word_count x)" "take (word_count x) (x # xs @ ws) = w"
    "drop (word_count x) (x # xs @ ws) = ws" by (simp_all add: c w)
  then show ?thesis by (simp add: w Let_def split: prod.split)
qed

lemma insts_of_concat:
  "\<forall>w \<in> set is. wf_inst w \<Longrightarrow> insts (concat is) = (is, True)"
  by (induction "is") (simp_all add: insts_Cons)

lemma insts_of_concat_append:
  "\<forall>w \<in> set is. wf_inst w \<Longrightarrow> insts (concat is @ rest) = (is @ fst (insts rest), snd (insts rest))"
  by (induction "is") (simp_all add: insts_Cons)

lemma wf_inst_length: "wf_inst w \<Longrightarrow> length w < 65536"
proof -
  have "unat (drop_bit 16 x) < 65536" for x :: u32
  proof -
    have "unat x < 2 ^ 32" using unsigned_less [of x] by simp
    then show ?thesis by (simp add: unat_drop_bit_eq drop_bit_eq_div unat_div less_mult_imp_div_less)
  qed
  then show "wf_inst w \<Longrightarrow> length w < 65536" by (metis wf_inst_def word_count_def)
qed

text \<open>The header word of an instruction: \<open>(n << 16) | op\<close>.\<close>

definition inst_head :: "nat \<Rightarrow> nat \<Rightarrow> u32" where
  "inst_head n op = push_bit 16 (of_nat n) OR of_nat op"

lemma half_word_bits: "n < 65536 \<Longrightarrow> bit (of_nat n :: u32) k \<Longrightarrow> k < 16"
proof (rule ccontr)
  assume n: "n < 65536" "bit (of_nat n :: u32) k" and k: "\<not> k < 16"
  from k have "n div 2 ^ k = 0"
    using n(1) power_increasing [of 16 k "2 :: nat"] by (simp add: div_eq_0_iff)
  then have "\<not> bit n k" by (simp add: bit_iff_odd)
  with n(2) show False by (simp add: bit_simps)
qed

lemma inst_head:
  assumes "n < 65536" "op < 65536"
  shows "word_count (inst_head n op) = n" "opcode (inst_head n op # w) = op"
proof -
  have o: "unat (of_nat op :: u32) = op" "unat (of_nat n :: u32) = n"
    using assms by (simp_all add: unat_of_nat)
  have d: "drop_bit 16 (of_nat op :: u32) = 0"
    by (rule word_unat_eq_iff [THEN iffD2]) (simp add: unat_drop_bit_eq o drop_bit_eq_div unat_div assms(2))
  have lt: "(of_nat op :: u32) AND mask 16 = of_nat op"
    by (rule bit_word_eqI) (use half_word_bits [OF assms(2)] in \<open>auto simp: bit_and_iff bit_mask_iff\<close>)
  have n: "drop_bit 16 (push_bit 16 (of_nat n) :: u32) = of_nat n"
    by (rule bit_word_eqI) (use half_word_bits [OF assms(1)] in \<open>auto simp: bit_drop_bit_eq bit_push_bit_iff\<close>)
  have n2: "(push_bit 16 (of_nat n) :: u32) AND mask 16 = 0"
    by (rule bit_word_eqI) (auto simp: bit_and_iff bit_push_bit_iff bit_mask_iff)
  show "word_count (inst_head n op) = n"
    by (simp add: word_count_def inst_head_def drop_bit_or n d o)
  have m: "(0xffff :: u32) = mask 16" by (simp add: mask_eq_exp_minus_1)
  show "opcode (inst_head n op # w) = op"
    by (simp add: opcode_def inst_head_def m bit.conj_disj_distrib2 n2 lt o)
qed

end
