(* ===== verification/Spirv_Constants.thy ===== *)
theory Spirv_Constants
  imports Spirv_Stream
begin

text \<open>
  Specialization constants: the values a dispatch supplies, the canonical hash of them that keys the
  pipeline cache, and \<open>materialize_spirv_specialization_constants\<close>, which replaces the
  specialization constants of a module by plain constants. The block of values is memory that
  starts at an array of the caller; tables indexed by identifiers are functions.
\<close>

section \<open>The values of a dispatch\<close>

record dispatch_spec =
  sp_id :: u32
  sp_offset :: u32
  sp_size :: u64

text \<open>The little-endian number in \<open>n\<close> bytes at \<open>off\<close>.\<close>

primrec le_value :: "(nat \<Rightarrow> u8) \<Rightarrow> nat \<Rightarrow> nat \<Rightarrow> u64" where
  "le_value mem off 0 = 0"
| "le_value mem off (Suc n) = ucast (mem off) + 256 * le_value mem (off + 1) n"

definition specialization_value_u64 :: "(nat \<Rightarrow> u8) \<Rightarrow> u64 \<Rightarrow> dispatch_spec \<Rightarrow> u64" where
  "specialization_value_u64 mem data_size sp =
     (if data_size \<le> ucast (sp_offset sp) then 0
      else if sp_size sp = 0 \<or> data_size < ucast (sp_offset sp) + sp_size sp then 0
      else le_value mem (unat (sp_offset sp)) (min (unat (sp_size sp)) 8))"

fun specialization_value_for_id ::
  "dispatch_spec list \<Rightarrow> (nat \<Rightarrow> u8) \<Rightarrow> u64 \<Rightarrow> u32 \<Rightarrow> u64 option" where
  "specialization_value_for_id [] mem data_size cid = None"
| "specialization_value_for_id (sp # sps) mem data_size cid =
     (if sp_id sp \<noteq> cid then specialization_value_for_id sps mem data_size cid
      else Some (specialization_value_u64 mem data_size sp))"

lemma specialization_value_find:
  "specialization_value_for_id sps mem n cid =
     map_option (specialization_value_u64 mem n) (find (\<lambda>sp. sp_id sp = cid) sps)"
  by (induction sps) auto

section \<open>The key of the pipeline cache\<close>

definition FNV_BASIS :: u64 where
  "FNV_BASIS = 1469598103934665603"

definition FNV_PRIME :: u64 where
  "FNV_PRIME = 1099511628211"

definition fnv1a64_update :: "u64 \<Rightarrow> u8 list \<Rightarrow> u64" where
  "fnv1a64_update h bs = fold (\<lambda>b h. (h XOR ucast b) * FNV_PRIME) bs h"

lemma fnv1a64_append: "fnv1a64_update h (a @ b) = fnv1a64_update (fnv1a64_update h a) b"
  by (simp add: fnv1a64_update_def)

text \<open>The bytes of an object of the C program: a 32-bit or a 64-bit number, little endian.\<close>

primrec le_bytes :: "nat \<Rightarrow> u64 \<Rightarrow> u8 list" where
  "le_bytes 0 x = []"
| "le_bytes (Suc n) x = ucast x # le_bytes n (drop_bit 8 x)"

definition mem_bytes :: "(nat \<Rightarrow> u8) \<Rightarrow> nat \<Rightarrow> nat \<Rightarrow> u8 list" where
  "mem_bytes mem off n = map (\<lambda>k. mem (off + k)) [0..<n]"

definition hash_specialization :: "(nat \<Rightarrow> u8) \<Rightarrow> u64 \<Rightarrow> dispatch_spec \<Rightarrow> u64 \<Rightarrow> u64" where
  "hash_specialization mem data_size sp h =
     (let h1 = fnv1a64_update h (le_bytes 4 (ucast (sp_id sp)));
          h2 = fnv1a64_update h1 (le_bytes 8 (sp_size sp))
      in if ucast (sp_offset sp) \<le> data_size \<and> sp_size sp \<le> data_size - ucast (sp_offset sp)
         then fnv1a64_update h2 (mem_bytes mem (unat (sp_offset sp)) (unat (sp_size sp)))
         else fnv1a64_update h2 (le_bytes 4 (ucast (sp_offset sp))))"

definition pipeline_specialization_hash :: "dispatch_spec list \<Rightarrow> (nat \<Rightarrow> u8) \<Rightarrow> u64 \<Rightarrow> u64" where
  "pipeline_specialization_hash sps mem data_size =
     fold (hash_specialization mem data_size) sps
       (fnv1a64_update FNV_BASIS (le_bytes 8 (of_nat (length sps))))"

section \<open>Materialization\<close>

text \<open>The tables of the first pass: the constant number of each decorated identifier and the
  identifiers decorated as the work-group size.\<close>

record spec_tables =
  st_spec :: "u32 \<Rightarrow> u32 option"
  st_workgroup :: "u32 \<Rightarrow> bool"
  st_skip :: "u32 \<Rightarrow> bool"

definition no_spec_tables :: spec_tables where
  "no_spec_tables = \<lparr>st_spec = (\<lambda>_. None), st_workgroup = (\<lambda>_. False), st_skip = (\<lambda>_. False)\<rparr>"

definition collect_spec :: "u32 \<Rightarrow> u32 list \<Rightarrow> spec_tables \<Rightarrow> spec_tables" where
  "collect_spec bound w t =
     (if opcode w = 71 \<and> 4 \<le> length w \<and> w ! 1 < bound then
        if w ! 2 = 1 then t\<lparr>st_spec := (st_spec t)(w ! 1 := Some (w ! 3))\<rparr>
        else if w ! 2 = 11 \<and> w ! 3 = 25 then
          t\<lparr>st_workgroup := (st_workgroup t)(w ! 1 := True), st_skip := (st_skip t)(w ! 1 := True)\<rparr>
        else t
      else t)"

definition skip_constituents :: "u32 \<Rightarrow> u32 list \<Rightarrow> spec_tables \<Rightarrow> spec_tables" where
  "skip_constituents bound w t =
     (if opcode w = 51 \<and> 3 \<le> length w \<and> w ! 2 < bound \<and> st_workgroup t (w ! 2)
      then t\<lparr>st_skip := (\<lambda>i. st_skip t i \<or> i \<in> set (drop 3 w) \<and> i < bound)\<rparr>
      else t)"

text \<open>One round of the closure over \<open>OpSpecConstantOp\<close>; the flag tells whether it added an
  identifier.\<close>

definition skip_users :: "u32 \<Rightarrow> u32 list \<Rightarrow> (u32 \<Rightarrow> bool) \<times> bool \<Rightarrow> (u32 \<Rightarrow> bool) \<times> bool" where
  "skip_users bound w = (\<lambda>(skip, changed).
     if opcode w = 52 \<and> 5 \<le> length w \<and> w ! 2 < bound \<and> \<not> skip (w ! 2)
        \<and> list_ex (\<lambda>i. i < bound \<and> skip i) (drop 4 w)
     then (skip(w ! 2 := True), True) else (skip, changed))"

definition skip_round :: "u32 \<Rightarrow> u32 list \<Rightarrow> (u32 \<Rightarrow> bool) \<Rightarrow> (u32 \<Rightarrow> bool) \<times> bool" where
  "skip_round bound ws skip = scan id (\<lambda>w s. Go (skip_users bound w s)) ws (skip, False)"

lemma skip_users_grows:
  "skip_users bound w (skip, ch) = (skip', ch') \<Longrightarrow>
     (\<forall>i. skip i \<longrightarrow> skip' i) \<and> (ch \<longrightarrow> ch') \<and> (ch' \<longrightarrow> ch \<or> (\<exists>i < bound. \<not> skip i \<and> skip' i))"
  by (auto simp: skip_users_def split: if_splits)

lemma fold_skip_users_grows:
  "fold (skip_users bound) is (skip, ch) = (skip', ch') \<Longrightarrow>
     (\<forall>i. skip i \<longrightarrow> skip' i) \<and> (ch' \<longrightarrow> ch \<or> (\<exists>i < bound. \<not> skip i \<and> skip' i))"
proof (induction "is" arbitrary: skip ch)
  case (Cons w "is")
  obtain s1 c1 where 1: "skip_users bound w (skip, ch) = (s1, c1)" by fastforce
  with Cons.prems have "fold (skip_users bound) is (s1, c1) = (skip', ch')" by simp
  from Cons.IH [OF this] skip_users_grows [OF 1] show ?case by blast
qed simp

lemma skip_round_grows:
  assumes "skip_round bound ws skip = (skip', ch)"
  shows "skip i \<Longrightarrow> skip' i" and "ch \<Longrightarrow> \<exists>i < bound. \<not> skip i \<and> skip' i"
  using fold_skip_users_grows [of bound "fst (insts ws)" skip False skip' ch] assms
  by (auto simp: skip_round_def scan_fold split: if_splits)

function skip_closure :: "u32 \<Rightarrow> u32 list \<Rightarrow> (u32 \<Rightarrow> bool) \<Rightarrow> (u32 \<Rightarrow> bool)" where
  "skip_closure bound ws skip =
     (let r = skip_round bound ws skip in if snd r then skip_closure bound ws (fst r) else fst r)"
  by pat_completeness auto
termination
proof (relation "measure (\<lambda>(bound, ws, skip). card {i. i < bound \<and> \<not> skip i})")
  fix bound :: u32 and ws skip r
  assume r: "r = skip_round bound ws skip" and ch: "snd r"
  then have round: "skip_round bound ws skip = (fst r, True)" by (simp add: prod_eq_iff)
  from skip_round_grows [OF this] obtain i where i: "i < bound" "\<not> skip i" "fst r i" by blast
  have "{i. i < bound \<and> \<not> fst r i} \<subset> {i. i < bound \<and> \<not> skip i}"
    using skip_round_grows(1) [OF round] i by blast
  then have "card {i. i < bound \<and> \<not> fst r i} < card {i. i < bound \<and> \<not> skip i}"
    by (rule psubset_card_mono [rotated]) simp
  then show "((bound, ws, fst r), bound, ws, skip) \<in> measure (\<lambda>(bound, ws, skip). card {i. i < bound \<and> \<not> skip i})"
    by simp
qed simp

declare skip_closure.simps [simp del]

text \<open>The last pass: the words written so far, the values known so far, and the two flags.\<close>

record mat_state =
  ms_out :: "u32 list"
  ms_scalar :: "u32 \<Rightarrow> u64 option"
  ms_composite :: "u32 \<Rightarrow> u64 list option"
  ms_changed :: bool
  ms_unsupported :: bool

text \<open>The values of the first four constituents, when all of them are known.\<close>

definition constituents :: "(u32 \<Rightarrow> bool) \<Rightarrow> (u32 \<Rightarrow> u64 option) \<Rightarrow> u32 list \<Rightarrow> u64 list option" where
  "constituents usable scalar ids =
     (if list_all (\<lambda>i. usable i \<and> scalar i \<noteq> None) (take 4 ids)
      then Some (map (\<lambda>i. the (scalar i)) (take 4 ids)) else None)"

definition emit :: "u32 list \<Rightarrow> mat_state \<Rightarrow> mat_state" where
  "emit w s = s\<lparr>ms_out := ms_out s @ w\<rparr>"

definition emit_constant :: "u32 list \<Rightarrow> u64 \<Rightarrow> mat_state \<Rightarrow> mat_state" where
  "emit_constant w value s =
     (emit [inst_head 4 43, w ! 1, w ! 2, ucast value] s)
       \<lparr>ms_scalar := (ms_scalar s)(w ! 2 := Some (ucast (ucast value :: u32))), ms_changed := True\<rparr>"

definition folded_op :: "u32 \<Rightarrow> u32 list \<Rightarrow> mat_state \<Rightarrow> u64 option" where
  "folded_op bound w s =
     (if w ! 3 = 134 \<and> length w = 6 then
        if w ! 4 < bound \<and> w ! 5 < bound then
          (case (ms_scalar s (w ! 4), ms_scalar s (w ! 5)) of
             (Some a, Some b) \<Rightarrow> if b \<noteq> 0 then Some (a div b) else None
           | _ \<Rightarrow> None)
        else None
      else if w ! 3 = 81 \<and> length w = 6 then
        if w ! 4 < bound then
          (case ms_composite s (w ! 4) of
             Some vs \<Rightarrow> if unat (w ! 5) < length vs then Some (vs ! unat (w ! 5)) else None
           | None \<Rightarrow> None)
        else None
      else None)"

definition materialize_inst ::
  "u32 \<Rightarrow> spec_tables \<Rightarrow> (u32 \<Rightarrow> u64 option) \<Rightarrow> u32 list \<Rightarrow> mat_state \<Rightarrow> mat_state step" where
  "materialize_inst bound t val w s =
     (if opcode w = 71 \<and> 4 \<le> length w \<and> w ! 2 = 1 \<and> w ! 1 < bound \<and> \<not> st_skip t (w ! 1)
      then Go (s\<lparr>ms_changed := True\<rparr>)
      else if opcode w = 43 \<and> 4 \<le> length w \<and> w ! 2 < bound
      then Go ((emit w s)\<lparr>ms_scalar := (ms_scalar s)(w ! 2 := Some (ucast (w ! 3)))\<rparr>)
      else if opcode w = 44 \<and> 3 \<le> length w \<and> w ! 2 < bound
      then Go ((emit w s)\<lparr>ms_composite := (ms_composite s)(w ! 2 :=
                 constituents (\<lambda>i. i < bound) (ms_scalar s) (drop 3 w))\<rparr>)
      else if opcode w = 50 \<and> 4 \<le> length w \<and> w ! 2 < bound \<and> \<not> st_skip t (w ! 2)
      then Go (emit_constant w
                 (case st_spec t (w ! 2) of None \<Rightarrow> ucast (w ! 3)
                  | Some cid \<Rightarrow> (case val cid of None \<Rightarrow> ucast (w ! 3) | Some v \<Rightarrow> v)) s)
      else if opcode w = 51 \<and> 3 \<le> length w \<and> w ! 2 < bound \<and> \<not> st_skip t (w ! 2)
      then Go ((emit (inst_head (length w) 44 # tl w) s)
                 \<lparr>ms_composite := (ms_composite s)(w ! 2 :=
                    constituents (\<lambda>i. i < bound \<and> \<not> st_skip t i) (ms_scalar s) (drop 3 w)),
                  ms_changed := True\<rparr>)
      else if opcode w = 52 \<and> 5 \<le> length w \<and> w ! 2 < bound
      then if st_skip t (w ! 2) \<or> list_ex (\<lambda>i. i < bound \<and> st_skip t i) (drop 4 w) then Go (emit w s)
           else (case folded_op bound w s of
                   None \<Rightarrow> Halt (s\<lparr>ms_unsupported := True\<rparr>)
                 | Some v \<Rightarrow> Go (emit_constant w v s))
      else Go (emit w s))"

definition spec_tables_of :: "u32 \<Rightarrow> u32 list \<Rightarrow> spec_tables" where
  "spec_tables_of bound ws =
     (let t1 = scan id (\<lambda>w t. Go (collect_spec bound w t)) ws no_spec_tables;
          t2 = scan id (\<lambda>w t. Go (skip_constituents bound w t)) ws t1
      in t2\<lparr>st_skip := skip_closure bound ws (st_skip t2)\<rparr>)"

text \<open>\<open>oom\<close>: one of the tables could not be allocated.\<close>

definition materialize_spirv_specialization_constants ::
  "bool \<Rightarrow> u32 list \<Rightarrow> nat \<Rightarrow> dispatch_spec list \<Rightarrow> (nat \<Rightarrow> u8) \<Rightarrow> u64 \<Rightarrow> bool \<times> u32 list \<times> nat" where
  "materialize_spirv_specialization_constants oom code bytes sps mem data_size =
     (let bound = code ! 3; ws = spirv_body code bytes in
      if \<not> spirv_ok code bytes \<or> sps = [] \<or> bound = 0 \<or> 65536 < bound \<or> oom then (False, code, bytes)
      else
        let s0 = \<lparr>ms_out = take 5 code, ms_scalar = (\<lambda>_. None), ms_composite = (\<lambda>_. None),
                   ms_changed = False, ms_unsupported = False\<rparr>;
            s = scan (\<lambda>s. s\<lparr>ms_unsupported := True\<rparr>)
                  (materialize_inst bound (spec_tables_of bound ws) (specialization_value_for_id sps mem data_size))
                  ws s0;
            n = length (ms_out s)
        in if ms_changed s \<and> \<not> ms_unsupported s \<and> n \<le> bytes div 4
           then (True, ms_out s @ drop n code, 4 * n) else (False, code, bytes))"

end
