(* ===== verification/Spirv_Fold.thy ===== *)
theory Spirv_Fold
  imports Spirv_Constants
begin

text \<open>
  What a module means to its constants: an evaluator for the integer, boolean and composite constants
  and specialization constants and for the operations the materialization folds, and the proof that
  the materialized module gives every identifier the value it had.
\<close>

section \<open>The values of the constants of a module\<close>

type_synonym const_env = "(u32 \<Rightarrow> u32 option) \<times> (u32 \<Rightarrow> u32 option list option)"

text \<open>The constant number an instruction gives an identifier.\<close>

definition decorate :: "u32 list \<Rightarrow> (u32 \<Rightarrow> u32 option) \<Rightarrow> (u32 \<Rightarrow> u32 option)" where
  "decorate w d = (if opcode w = 71 \<and> 4 \<le> length w \<and> w ! 2 = 1 then d(w ! 1 := Some (w ! 3)) else d)"

text \<open>The value a driver with the values \<open>val\<close> puts in the place of the default of an identifier.\<close>

definition given :: "(u32 \<Rightarrow> u32 option) \<Rightarrow> (u32 \<Rightarrow> u64 option) \<Rightarrow> u32 \<Rightarrow> u64 option" where
  "given d val i = (case d i of None \<Rightarrow> None | Some cid \<Rightarrow> val cid)"

definition supplied :: "(u32 \<Rightarrow> u64 option) \<Rightarrow> u32 list \<Rightarrow> u32 \<Rightarrow> u64 option" where
  "supplied val ws = given (fold decorate (fst (insts ws)) (\<lambda>_. None)) val"

text \<open>One instruction; \<open>g\<close> are the values put in the place of defaults. Booleans are 1 and 0.\<close>

definition eval_op :: "u32 list \<Rightarrow> const_env \<Rightarrow> u32 option" where
  "eval_op w env =
     (if w ! 3 = 134 \<and> length w = 6 then
        (case (fst env (w ! 4), fst env (w ! 5)) of
           (Some a, Some b) \<Rightarrow> if b \<noteq> 0 then Some (a div b) else None
         | _ \<Rightarrow> None)
      else if w ! 3 = 81 \<and> length w = 6 then
        (case snd env (w ! 4) of
           Some vs \<Rightarrow> if unat (w ! 5) < length vs then vs ! unat (w ! 5) else None
         | None \<Rightarrow> None)
      else None)"

definition bool_value :: "u32 \<Rightarrow> u64 option \<Rightarrow> u32" where
  "bool_value b v = (case v of None \<Rightarrow> b | Some x \<Rightarrow> if (ucast x :: u32) = 0 then 0 else 1)"

definition eval_inst :: "(u32 \<Rightarrow> u64 option) \<Rightarrow> u32 list \<Rightarrow> const_env \<Rightarrow> const_env" where
  "eval_inst g w env =
     (if opcode w = 41 then ((fst env)(w ! 2 := Some 1), snd env)
      else if opcode w = 42 then ((fst env)(w ! 2 := Some 0), snd env)
      else if opcode w = 43 then ((fst env)(w ! 2 := Some (w ! 3)), snd env)
      else if opcode w = 48 then ((fst env)(w ! 2 := Some (bool_value 1 (g (w ! 2)))), snd env)
      else if opcode w = 49 then ((fst env)(w ! 2 := Some (bool_value 0 (g (w ! 2)))), snd env)
      else if opcode w = 50 then
        ((fst env)(w ! 2 := Some (case g (w ! 2) of None \<Rightarrow> w ! 3 | Some v \<Rightarrow> ucast v)), snd env)
      else if opcode w = 44 \<or> opcode w = 51 then
        (fst env, (snd env)(w ! 2 := Some (map (fst env) (drop 3 w))))
      else if opcode w = 52 then ((fst env)(w ! 2 := eval_op w env), snd env)
      else env)"

definition const_values :: "(u32 \<Rightarrow> u64 option) \<Rightarrow> u32 list \<Rightarrow> const_env" where
  "const_values g ws = fold (eval_inst g) (fst (insts ws)) (\<lambda>_. None, \<lambda>_. None)"

section \<open>Modules the materialization is meant for\<close>

definition const_result :: "u32 list \<Rightarrow> u32 list" where
  "const_result w = (if opcode w \<in> {41, 42, 43, 44, 48, 49, 50, 51, 52} then [w ! 2] else [])"

text \<open>Integers have 32 bits, the instructions have their operands, and every constant has one
  definition.\<close>

definition const_shape :: "u32 list \<Rightarrow> bool" where
  "const_shape w \<longleftrightarrow>
     (opcode w \<in> {41, 42, 48, 49} \<longrightarrow> length w = 3) \<and> (opcode w \<in> {43, 50} \<longrightarrow> length w = 4)
     \<and> (opcode w \<in> {44, 51} \<longrightarrow> 3 \<le> length w) \<and> (opcode w = 52 \<longrightarrow> 5 \<le> length w)"

definition const_module :: "u32 list list \<Rightarrow> bool" where
  "const_module is \<longleftrightarrow> list_all const_shape is \<and> distinct (concat (map const_result is))"

text \<open>\<open>go\<close> and \<open>gi\<close>, the values for the module written and for the module read, fit the pass: a
  specialization constant that becomes a constant takes its value from the dispatch, and what is copied
  has the same value in both.\<close>

definition fits ::
  "u32 \<Rightarrow> spec_tables \<Rightarrow> (u32 \<Rightarrow> u64 option) \<Rightarrow> (u32 \<Rightarrow> u64 option) \<Rightarrow> (u32 \<Rightarrow> u64 option) \<Rightarrow> u32 list \<Rightarrow> bool" where
  "fits bound t val go gi w \<longleftrightarrow>
     (opcode w = 50 \<and> w ! 2 < bound \<and> \<not> st_skip t (w ! 2) \<longrightarrow> gi (w ! 2) = given (st_spec t) val (w ! 2))
     \<and> (opcode w \<in> {48, 49} \<or> opcode w = 50 \<and> \<not> (w ! 2 < bound \<and> \<not> st_skip t (w ! 2)) \<longrightarrow> go (w ! 2) = gi (w ! 2))"

section \<open>The invariant of the last pass\<close>

definition kept_spec :: "u32 \<Rightarrow> spec_tables \<Rightarrow> (u32 \<Rightarrow> u32 option) \<Rightarrow> (u32 \<Rightarrow> u32 option)" where
  "kept_spec bound t d i = (if i < bound \<and> \<not> st_skip t i then None else d i)"

definition known :: "mat_state \<Rightarrow> const_env \<Rightarrow> bool" where
  "known s env \<longleftrightarrow>
     (\<forall>i v. ms_scalar s i = Some v \<longrightarrow> (\<exists>x. fst env i = Some x \<and> v = ucast x))
     \<and> (\<forall>i vs. ms_composite s i = Some vs \<longrightarrow>
          (\<exists>xs. snd env i = Some xs \<and> (\<forall>k < length vs. k < length xs \<and> (\<exists>x. xs ! k = Some x \<and> vs ! k = ucast x))))"

definition mat_inv ::
  "u32 list \<Rightarrow> u32 \<Rightarrow> spec_tables \<Rightarrow> (u32 \<Rightarrow> u64 option) \<Rightarrow> (u32 \<Rightarrow> u64 option) \<Rightarrow> u32 list list \<Rightarrow> mat_state \<Rightarrow> bool" where
  "mat_inv header bound t go gi pre s \<longleftrightarrow>
     (\<exists>outs. ms_out s = header @ concat outs \<and> (\<forall>w \<in> set outs. wf_inst w)
        \<and> length (concat outs) \<le> length (concat pre)
        \<and> fold decorate outs (\<lambda>_. None) = kept_spec bound t (fold decorate pre (\<lambda>_. None))
        \<and> fold (eval_inst go) outs (\<lambda>_. None, \<lambda>_. None)
          = fold (eval_inst gi) pre (\<lambda>_. None, \<lambda>_. None)
        \<and> known s (fold (eval_inst gi) pre (\<lambda>_. None, \<lambda>_. None))
        \<and> {i. ms_scalar s i \<noteq> None \<or> ms_composite s i \<noteq> None} \<subseteq> set (concat (map const_result pre)))"

lemma fst_env_fun: "fst (f(a := x), g) = f(a := x)" by simp

lemma decorate_kept:
  "decorate w (kept_spec bound t d) =
     (if opcode w = 71 \<and> 4 \<le> length w \<and> w ! 2 = 1 \<and> w ! 1 < bound \<and> \<not> st_skip t (w ! 1)
      then (kept_spec bound t d)(w ! 1 := Some (w ! 3)) else kept_spec bound t (decorate w d))"
  by (auto simp: decorate_def kept_spec_def fun_eq_iff)

lemma kept_spec_dropped:
  "opcode w = 71 \<Longrightarrow> w ! 2 = 1 \<Longrightarrow> w ! 1 < bound \<Longrightarrow> \<not> st_skip t (w ! 1) \<Longrightarrow>
     kept_spec bound t (decorate w d) = kept_spec bound t d"
  by (auto simp: decorate_def kept_spec_def fun_eq_iff)

lemma wf_emitted:
  "wf_inst [inst_head 4 43, a, b, c]"
  "wf_inst w \<Longrightarrow> wf_inst (inst_head (length w) 44 # tl w)"
proof -
  show "wf_inst [inst_head 4 43, a, b, c]" by (simp add: wf_inst_def inst_head)
  assume w: "wf_inst w"
  with wf_inst_length [OF w] show "wf_inst (inst_head (length w) 44 # tl w)"
    by (cases w) (simp_all add: wf_inst_def inst_head)
qed

lemma opcode_emitted:
  "opcode (inst_head 4 43 # w) = 43"
  "wf_inst v \<Longrightarrow> opcode (inst_head (length v) 44 # w) = 44"
  using wf_inst_length by (simp_all add: inst_head)

text \<open>How one written instruction extends the invariant.\<close>

lemma mat_inv_step:
  assumes "mat_inv header bound t go gi pre s"
    and "ms_out s' = ms_out s @ concat outs" "\<forall>w \<in> set outs. wf_inst w" "length (concat outs) \<le> length w"
    and "fold decorate outs (kept_spec bound t (fold decorate pre (\<lambda>_. None)))
         = kept_spec bound t (decorate w (fold decorate pre (\<lambda>_. None)))"
    and "\<And>env. known s env \<Longrightarrow> fold (eval_inst go) outs env = eval_inst gi w env"
    and "\<And>env. known s env \<Longrightarrow> known s' (eval_inst gi w env)"
    and "{i. ms_scalar s' i \<noteq> None \<or> ms_composite s' i \<noteq> None}
         \<subseteq> {i. ms_scalar s i \<noteq> None \<or> ms_composite s i \<noteq> None} \<union> set (const_result w)"
  shows "mat_inv header bound t go gi (pre @ [w]) s'"
proof -
  from assms(1) obtain os where os: "ms_out s = header @ concat os" "\<forall>w \<in> set os. wf_inst w"
    "length (concat os) \<le> length (concat pre)"
    "fold decorate os (\<lambda>_. None) = kept_spec bound t (fold decorate pre (\<lambda>_. None))"
    "fold (eval_inst go) os (\<lambda>_. None, \<lambda>_. None)
          = fold (eval_inst gi) pre (\<lambda>_. None, \<lambda>_. None)"
    "known s (fold (eval_inst gi) pre (\<lambda>_. None, \<lambda>_. None))"
    "{i. ms_scalar s i \<noteq> None \<or> ms_composite s i \<noteq> None} \<subseteq> set (concat (map const_result pre))"
    by (auto simp: mat_inv_def)
  show ?thesis
    unfolding mat_inv_def
  proof (intro exI [of _ "os @ outs"] conjI)
    show "fold (eval_inst go) (os @ outs) (\<lambda>_. None, \<lambda>_. None)
          = fold (eval_inst gi) (pre @ [w]) (\<lambda>_. None, \<lambda>_. None)"
      using assms(6) [OF os(6)] os(5) by simp
    show "known s' (fold (eval_inst gi) (pre @ [w]) (\<lambda>_. None, \<lambda>_. None))"
      using assms(7) os(6) by simp
    show "{i. ms_scalar s' i \<noteq> None \<or> ms_composite s' i \<noteq> None} \<subseteq> set (concat (map const_result (pre @ [w])))"
      using subset_trans [OF assms(8) Un_mono [OF os(7) order_refl]]
      by (simp only: map_append concat_append set_append list.map concat.simps append_Nil2)
  qed (use assms(2-5) os in auto)
qed


section \<open>The steps\<close>

lemma known_emit [simp]:
  "known (s\<lparr>ms_out := x\<rparr>) env = known s env" "known (s\<lparr>ms_changed := b\<rparr>) env = known s env"
  by (simp_all add: known_def)

lemma known_scalar:
  "known s env \<Longrightarrow> v = ucast x \<Longrightarrow>
     known (s\<lparr>ms_scalar := (ms_scalar s)(i := Some v)\<rparr>) ((fst env)(i := Some x), snd env)"
  by (auto simp: known_def)

lemma known_fresh:
  "known s env \<Longrightarrow> ms_scalar s i = None \<Longrightarrow> known s ((fst env)(i := y), snd env)"
  "known s env \<Longrightarrow> ms_composite s i = None \<Longrightarrow> known s (fst env, (snd env)(i := z))"
  by (auto simp: known_def)

lemma known_constituents:
  assumes "known s env" "constituents P (ms_scalar s) ids = Some vs"
  shows "\<forall>k < length vs. k < length ids \<and> (\<exists>x. fst env (ids ! k) = Some x \<and> vs ! k = ucast x)"
proof (intro allI impI)
  fix k assume k: "k < length vs"
  from assms(2) have vs: "vs = map (\<lambda>i. the (ms_scalar s i)) (take 4 ids)"
    and ok: "list_all (\<lambda>i. P i \<and> ms_scalar s i \<noteq> None) (take 4 ids)"
    by (simp_all add: constituents_def split: if_splits)
  from k vs have len: "k < length ids" "k < 4" by simp_all
  then have "ids ! k \<in> set (take 4 ids)" by (auto simp: in_set_conv_nth)
  with ok obtain v where v: "ms_scalar s (ids ! k) = Some v" by (auto simp: list_all_iff)
  with assms(1) obtain x where "fst env (ids ! k) = Some x" "v = ucast x" by (auto simp: known_def)
  with v len vs show "k < length ids \<and> (\<exists>x. fst env (ids ! k) = Some x \<and> vs ! k = ucast x)" by simp
qed

lemma known_composite:
  assumes "known s env"
  shows "known (s\<lparr>ms_composite := (ms_composite s)(i := constituents P (ms_scalar s) ids)\<rparr>)
           (fst env, (snd env)(i := Some (map (fst env) ids)))"
  using assms known_constituents [OF assms] by (fastforce simp: known_def)

lemma ucast_div: "(ucast (x div y :: u32) :: u64) = ucast x div ucast y"
  by (rule word_unat_eq_iff [THEN iffD2]) (simp add: unat_div unat_widen)

lemma folded_op_eval:
  assumes "known s env" "folded_op bound w s = Some v"
  shows "\<exists>x. eval_op w env = Some x \<and> v = ucast x"
proof -
  have sc: "ms_scalar s i = Some a \<Longrightarrow> \<exists>x. fst env i = Some x \<and> a = ucast x" for i a
    using assms(1) by (auto simp: known_def)
  have co: "ms_composite s i = Some vs \<Longrightarrow> k < length vs \<Longrightarrow>
      \<exists>xs x. snd env i = Some xs \<and> k < length xs \<and> xs ! k = Some x \<and> vs ! k = ucast x" for i vs k
    using assms(1) unfolding known_def by blast
  from assms(2) consider
    (quot) a b where "w ! 3 = 134" "length w = 6" "ms_scalar s (w ! 4) = Some a" "ms_scalar s (w ! 5) = Some b"
      "b \<noteq> 0" "v = a div b"
  | (pick) vs where "w ! 3 = 81" "length w = 6" "ms_composite s (w ! 4) = Some vs" "unat (w ! 5) < length vs"
      "v = vs ! unat (w ! 5)"
    by (auto simp: folded_op_def split: if_splits option.splits)
  then show ?thesis
  proof cases
    case quot
    from sc [OF quot(3)] sc [OF quot(4)] obtain x y where "fst env (w ! 4) = Some x" "a = ucast x"
      "fst env (w ! 5) = Some y" "b = ucast y" by blast
    with quot show ?thesis by (auto simp: eval_op_def ucast_div)
  next
    case pick
    from co [OF pick(3,4)] pick show ?thesis by (auto simp: eval_op_def)
  qed
qed

text \<open>The tables agree with the decorations below the bound.\<close>

definition tables_agree :: "u32 \<Rightarrow> spec_tables \<Rightarrow> (u32 \<Rightarrow> u32 option) \<Rightarrow> bool" where
  "tables_agree bound t d \<longleftrightarrow> (\<forall>i < bound. st_spec t i = d i)"

lemma materialize_step:
  assumes inv: "mat_inv header bound t go gi pre s" and fits: "fits bound t val go gi w"
    and step: "materialize_inst bound t val w s = Go s'" and wf: "wf_inst w" and shape: "const_shape w"
    and fresh: "\<forall>i \<in> set (const_result w). ms_scalar s i = None \<and> ms_composite s i = None"
  shows "mat_inv header bound t go gi (pre @ [w]) s'"
proof -
  note goal = mat_inv_step [OF inv]
  note shape' = shape [unfolded const_shape_def]
  consider
    (dropped) "opcode w = 71" "4 \<le> length w" "w ! 2 = 1" "w ! 1 < bound" "\<not> st_skip t (w ! 1)"
      "s' = s\<lparr>ms_changed := True\<rparr>"
  | (scalar) "opcode w = 43" "w ! 2 < bound"
      "s' = (emit w s)\<lparr>ms_scalar := (ms_scalar s)(w ! 2 := Some (ucast (w ! 3)))\<rparr>"
  | (composite) "opcode w = 44" "s' = (emit w s)\<lparr>ms_composite := (ms_composite s)(w ! 2 :=
                 constituents (\<lambda>i. i < bound) (ms_scalar s) (drop 3 w))\<rparr>"
  | (spec) "opcode w = 50" "w ! 2 < bound" "\<not> st_skip t (w ! 2)"
      "s' = emit_constant w (case st_spec t (w ! 2) of None \<Rightarrow> ucast (w ! 3)
                  | Some cid \<Rightarrow> (case val cid of None \<Rightarrow> ucast (w ! 3) | Some v \<Rightarrow> v)) s"
  | (spec_composite) "opcode w = 51" "s' = (emit (inst_head (length w) 44 # tl w) s)
                 \<lparr>ms_composite := (ms_composite s)(w ! 2 :=
                    constituents (\<lambda>i. i < bound \<and> \<not> st_skip t i) (ms_scalar s) (drop 3 w)),
                  ms_changed := True\<rparr>"
  | (folded) v where "opcode w = 52" "5 \<le> length w" "folded_op bound w s = Some v" "s' = emit_constant w v s"
  | (copied) "s' = emit w s" "opcode w = 50 \<longrightarrow> \<not> (w ! 2 < bound \<and> \<not> st_skip t (w ! 2))"
      "opcode w = 71 \<and> 4 \<le> length w \<and> w ! 2 = 1 \<longrightarrow> \<not> (w ! 1 < bound \<and> \<not> st_skip t (w ! 1))"
    using step shape'
    by (auto simp: materialize_inst_def split: if_splits option.splits)
  then show ?thesis
  proof cases
    case dropped
    then show ?thesis
      by (intro goal [where outs = "[]"]) (simp_all add: eval_inst_def const_result_def kept_spec_dropped)
  next
    case scalar
    with shape' have len: "length w = 4" by simp
    show ?thesis
    proof (rule goal [where outs = "[w]"])
      show "fold decorate [w] (kept_spec bound t (fold decorate pre (\<lambda>_. None))) =
          kept_spec bound t (decorate w (fold decorate pre (\<lambda>_. None)))"
        using scalar by (simp add: decorate_def)
      show "known s env \<Longrightarrow> known s' (eval_inst gi w env)" for env
        using scalar known_scalar [of s env "ucast (w ! 3)" "w ! 3" "w ! 2"] by (simp add: eval_inst_def emit_def known_def)
    qed (use scalar wf in \<open>auto simp: emit_def eval_inst_def const_result_def\<close>)
  next
    case composite
    show ?thesis
    proof (rule goal [where outs = "[w]"])
      show "fold decorate [w] (kept_spec bound t (fold decorate pre (\<lambda>_. None))) =
          kept_spec bound t (decorate w (fold decorate pre (\<lambda>_. None)))"
        using composite by (simp add: decorate_def)
      show "known s env \<Longrightarrow> known s' (eval_inst gi w env)" for env
        using composite known_composite [of s env "w ! 2" "\<lambda>i. i < bound" "drop 3 w"]
        by (simp add: eval_inst_def emit_def known_def)
    qed (use composite wf in \<open>auto simp: emit_def eval_inst_def const_result_def\<close>)
  next
    case spec
    define x where "x = (case gi (w ! 2) of None \<Rightarrow> w ! 3 | Some v \<Rightarrow> ucast v)"
    have same: "ucast (case st_spec t (w ! 2) of None \<Rightarrow> ucast (w ! 3)
                  | Some cid \<Rightarrow> (case val cid of None \<Rightarrow> ucast (w ! 3) | Some v \<Rightarrow> v)) = x"
      using fits spec by (auto simp: x_def fits_def given_def narrow_widen split: option.split)
    have len: "length w = 4" using spec shape' by simp
    show ?thesis
    proof (rule goal [where outs = "[[inst_head 4 43, w ! 1, w ! 2, x]]"])
      show "known s env \<Longrightarrow> known s' (eval_inst gi w env)" for env
        using spec known_scalar [of s env "ucast x" x "w ! 2"] same
        by (simp add: eval_inst_def emit_def emit_constant_def known_def x_def)
    qed (use spec same len in \<open>auto simp: emit_def emit_constant_def eval_inst_def const_result_def wf_emitted
          opcode_emitted decorate_def x_def\<close>)
  next
    case spec_composite
    with shape' have len: "3 \<le> length w" by simp
    then have w: "opcode (inst_head (length w) 44 # tl w) = 44" "(inst_head (length w) 44 # tl w) ! 2 = w ! 2"
      "drop 3 (inst_head (length w) 44 # tl w) = drop 3 w" "length (tl w) < length w"
    proof -
      show "opcode (inst_head (length w) 44 # tl w) = 44" by (rule opcode_emitted(2) [OF wf])
      from len obtain h a b r where "w = h # a # b # r" by (auto simp: numeral_3_eq_3 Suc_le_length_iff)
      then show "(inst_head (length w) 44 # tl w) ! 2 = w ! 2" "length (tl w) < length w"
        "drop 3 (inst_head (length w) 44 # tl w) = drop 3 w" by simp_all
    qed
    show ?thesis
    proof (rule goal [where outs = "[inst_head (length w) 44 # tl w]"])
      show "known s env \<Longrightarrow> known s' (eval_inst gi w env)" for env
        using spec_composite known_composite [of s env "w ! 2" "\<lambda>i. i < bound \<and> \<not> st_skip t i" "drop 3 w"]
        by (simp add: eval_inst_def emit_def known_def)
      show "fold decorate [inst_head (length w) 44 # tl w] (kept_spec bound t (fold decorate pre (\<lambda>_. None))) =
          kept_spec bound t (decorate w (fold decorate pre (\<lambda>_. None)))"
        using spec_composite(1) w(1) by (simp add: decorate_def)
      show "fold (eval_inst go) [inst_head (length w) 44 # tl w] env = eval_inst gi w env" for env
        using spec_composite(1) w by (simp add: eval_inst_def)
    qed (use spec_composite wf len in \<open>auto simp: emit_def const_result_def wf_emitted\<close>)
  next
    case folded
    show ?thesis
    proof (rule goal [where outs = "[[inst_head 4 43, w ! 1, w ! 2, ucast v]]"])
      fix env assume k: "known s env"
      obtain x where x: "eval_op w env = Some x" "v = ucast x" using folded_op_eval [OF k folded(3)] by blast
      show "fold (eval_inst go) [[inst_head 4 43, w ! 1, w ! 2, ucast v]] env = eval_inst gi w env"
        using folded x by (simp add: eval_inst_def opcode_emitted narrow_widen)
      show "known s' (eval_inst gi w env)"
        using folded known_scalar [OF k, of v x "w ! 2"] x
        by (simp add: eval_inst_def emit_def emit_constant_def known_def narrow_widen)
    qed (use folded in \<open>auto simp: emit_def emit_constant_def const_result_def wf_emitted
          opcode_emitted decorate_def\<close>)
  next
    case copied
    show ?thesis
    proof (rule goal [where outs = "[w]"])
      show "fold decorate [w] (kept_spec bound t (fold decorate pre (\<lambda>_. None))) =
          kept_spec bound t (decorate w (fold decorate pre (\<lambda>_. None)))"
        using copied(3) by (auto simp: decorate_kept)
      show "fold (eval_inst go) [w] env = eval_inst gi w env" for env
        using copied(2) fits by (auto simp: eval_inst_def fits_def)
      show "known s env \<Longrightarrow> known s' (eval_inst gi w env)" for env
        using copied(1) fresh known_fresh [of s env "w ! 2"] by (auto simp: eval_inst_def emit_def const_result_def)
    qed (use copied(1) wf in \<open>auto simp: emit_def\<close>)
  qed
qed

lemma materialize_run:
  assumes "mat_inv header bound t go gi pre s" "\<forall>w \<in> set is. fits bound t val go gi w"
    and "run_insts (materialize_inst bound t val) is s = Go s'"
    and "\<forall>w \<in> set is. wf_inst w" "const_module (pre @ is)"
  shows "mat_inv header bound t go gi (pre @ is) s'"
  using assms
proof (induction "is" arbitrary: pre s)
  case (Cons w "is")
  from Cons.prems(3) obtain s1 where s1: "materialize_inst bound t val w s = Go s1"
    "run_insts (materialize_inst bound t val) is s1 = Go s'" by (auto split: step.splits)
  have defined: "{i. ms_scalar s i \<noteq> None \<or> ms_composite s i \<noteq> None} \<subseteq> set (concat (map const_result pre))"
    using Cons.prems(1) unfolding mat_inv_def by blast
  have "set (concat (map const_result pre)) \<inter> set (const_result w) = {}" and shape: "const_shape w"
    using Cons.prems(5) unfolding const_module_def by (auto simp: distinct_append)
  with defined have fresh: "\<forall>i \<in> set (const_result w). ms_scalar s i = None \<and> ms_composite s i = None" by blast
  have "mat_inv header bound t go gi (pre @ [w]) s1"
    by (rule materialize_step [OF Cons.prems(1) _ s1(1) _ shape fresh]) (use Cons.prems(2,4) in simp_all)
  from Cons.IH [OF this _ s1(2)] Cons.prems(2,4,5) show ?case by simp
qed simp

lemma collect_spec_agrees:
  "tables_agree bound t d \<Longrightarrow> tables_agree bound (collect_spec bound w t) (decorate w d)"
  by (auto simp: tables_agree_def collect_spec_def decorate_def)

lemma fold_collect_spec:
  "tables_agree bound t d \<Longrightarrow> tables_agree bound (fold (collect_spec bound) is t) (fold decorate is d)"
  by (induction "is" arbitrary: t d) (simp_all add: collect_spec_agrees)

lemma fold_skip_constituents: "st_spec (fold (skip_constituents bound) is t) = st_spec t"
  by (induction "is" arbitrary: t) (simp_all add: skip_constituents_def)

lemma spec_tables_agree:
  "tables_agree bound (spec_tables_of bound ws) (fold decorate (fst (insts ws)) (\<lambda>_. None))"
  using fold_collect_spec [of bound no_spec_tables "\<lambda>_. None" "fst (insts ws)"]
  by (simp add: spec_tables_of_def Let_def scan_fold tables_agree_def no_spec_tables_def fold_skip_constituents)

text \<open>A break of the pass and a malformed instruction both leave the flag that discards the result.\<close>

lemma materialize_halt: "materialize_inst bound t val w s = Halt s' \<Longrightarrow> ms_unsupported s'"
  by (auto simp: materialize_inst_def split: if_splits option.splits)

lemma run_materialize_halt: "run_insts (materialize_inst bound t val) is s = Halt s' \<Longrightarrow> ms_unsupported s'"
  by (induction "is" arbitrary: s) (auto split: step.splits dest: materialize_halt)

text \<open>What a successful materialization writes, for any values that fit the pass.\<close>

lemma materialized:
  assumes res: "materialize_spirv_specialization_constants oom code bytes sps mem n = (True, code', bytes')"
    and len: "bytes \<le> 4 * length code"
    and module: "const_module (fst (insts (spirv_body code bytes)))"
    and fit: "\<forall>w \<in> set (fst (insts (spirv_body code bytes))).
      fits (code ! 3) (spec_tables_of (code ! 3) (spirv_body code bytes)) (specialization_value_for_id sps mem n) go gi w"
  shows "const_values go (spirv_body code' bytes') = const_values gi (spirv_body code bytes)"
    and "snd (insts (spirv_body code' bytes'))" and "bytes' \<le> bytes" and "take 5 code' = take 5 code"
    and "fold decorate (fst (insts (spirv_body code' bytes'))) (\<lambda>_. None)
      = kept_spec (code ! 3) (spec_tables_of (code ! 3) (spirv_body code bytes))
          (fold decorate (fst (insts (spirv_body code bytes))) (\<lambda>_. None))"
proof -
  define val where "val = specialization_value_for_id sps mem n"
  define ws where "ws = spirv_body code bytes"
  define t where "t = spec_tables_of (code ! 3) ws"
  define s0 where "s0 = \<lparr>ms_out = take 5 code, ms_scalar = (\<lambda>_. None), ms_composite = (\<lambda>_. None),
                   ms_changed = False, ms_unsupported = False\<rparr>"
  define bound where "bound = code ! 3"
  define s where "s = scan (\<lambda>s. s\<lparr>ms_unsupported := True\<rparr>) (materialize_inst bound t val) ws s0"
  have ok: "spirv_ok code bytes" and s: "\<not> ms_unsupported s" "length (ms_out s) \<le> bytes div 4"
    "code' = ms_out s @ drop (length (ms_out s)) code" "bytes' = 4 * length (ms_out s)"
    using res by (simp_all add: materialize_spirv_specialization_constants_def Let_def s_def s0_def t_def val_def
        ws_def bound_def split: if_splits)
  have run: "run_insts (materialize_inst bound t val) (fst (insts ws)) s0 = Go s"
    using s(1) run_materialize_halt [of bound t val "fst (insts ws)" s0]
    unfolding s_def scan_insts by (auto split: step.splits if_splits)
  have "mat_inv (take 5 code) bound t go gi [] s0"
    unfolding mat_inv_def by (intro exI [of _ "[]"]) (simp add: s0_def known_def kept_spec_def fun_eq_iff)
  from materialize_run [OF this _ run] insts_wf module fit
  have "mat_inv (take 5 code) bound t go gi (fst (insts ws)) s"
    by (simp add: t_def val_def ws_def bound_def)
  then obtain outs where outs: "ms_out s = take 5 code @ concat outs" "\<forall>w \<in> set outs. wf_inst w"
    "fold decorate outs (\<lambda>_. None) = kept_spec bound t (fold decorate (fst (insts ws)) (\<lambda>_. None))"
    "fold (eval_inst go) outs (\<lambda>_. None, \<lambda>_. None) = fold (eval_inst gi) (fst (insts ws)) (\<lambda>_. None, \<lambda>_. None)"
    unfolding mat_inv_def by blast
  have "5 \<le> length code" using ok len by (simp add: spirv_ok_def)
  then have body: "spirv_body code' bytes' = concat outs" and "take 5 code' = take 5 code"
    by (simp_all add: spirv_body_def s(3,4) outs(1))
  then show "take 5 code' = take 5 code" by simp
  have i: "insts (spirv_body code' bytes') = (outs, True)" by (simp add: body insts_of_concat outs(2))
  then show "snd (insts (spirv_body code' bytes'))" by simp
  show "const_values go (spirv_body code' bytes') = const_values gi (spirv_body code bytes)"
    using i outs(4) by (simp add: const_values_def ws_def)
  show "fold decorate (fst (insts (spirv_body code' bytes'))) (\<lambda>_. None)
      = kept_spec (code ! 3) (spec_tables_of (code ! 3) (spirv_body code bytes))
          (fold decorate (fst (insts (spirv_body code bytes))) (\<lambda>_. None))"
    using i outs(3) by (simp add: ws_def t_def bound_def)
  show "bytes' \<le> bytes" using s(2,4) by linarith
qed

end
