(* ===== verification/Spirv_Bindings.thy ===== *)
theory Spirv_Bindings
  imports Spirv_Constants
begin

text \<open>
  The two passes that patch operands of a module in place: \<open>rewrite_duplicate_descriptor_bindings\<close>
  gives every variable of descriptor set 0 a binding number of its own, and
  \<open>patch_spirv_literal_local_size_from_spec\<close> writes the specialized work-group size into a module
  whose literal size is 1, 1, 1. The words a pass has gone over are collected in its state; those it
  does not reach stay as they are.
\<close>

definition MAX_VULKAN_BINDINGS :: nat where
  "MAX_VULKAN_BINDINGS = 16"

record binding_alias =
  ba_target :: u32
  ba_original :: u32
  ba_rewritten :: u32

section \<open>Duplicate bindings\<close>

definition note_descriptor_set :: "u32 \<Rightarrow> u32 list \<Rightarrow> (u32 \<Rightarrow> u32 option) \<Rightarrow> (u32 \<Rightarrow> u32 option)" where
  "note_descriptor_set bound w d =
     (if opcode w = 71 \<and> 4 \<le> length w \<and> w ! 1 < bound \<and> w ! 2 = 34 then d(w ! 1 := Some (w ! 3)) else d)"

text \<open>A binding decoration of a variable of set 0, the only ones the pass looks at.\<close>

definition set0_binding :: "u32 \<Rightarrow> (u32 \<Rightarrow> u32 option) \<Rightarrow> u32 list \<Rightarrow> bool" where
  "set0_binding bound d w \<longleftrightarrow>
     opcode w = 71 \<and> 4 \<le> length w \<and> w ! 1 < bound \<and> w ! 2 = 33 \<and> d (w ! 1) = Some 0"

definition note_used :: "u32 \<Rightarrow> (u32 \<Rightarrow> u32 option) \<Rightarrow> u32 list \<Rightarrow> bool list \<times> bool \<Rightarrow> (bool list \<times> bool) step" where
  "note_used bound d w = (\<lambda>(used, failed).
     if set0_binding bound d w
     then if MAX_VULKAN_BINDINGS \<le> unat (w ! 3) then Halt (used, True)
          else Go (used[unat (w ! 3) := True], failed)
     else Go (used, failed))"

record dup_state =
  du_done :: "u32 list"
  du_used :: "bool list"
  du_seen :: "bool list"
  du_aliases :: "binding_alias list"
  du_max :: u32
  du_failed :: bool

definition free_binding :: "bool list \<Rightarrow> nat option" where
  "free_binding used = find (\<lambda>c. \<not> used ! c) [0..<MAX_VULKAN_BINDINGS]"

definition dup_inst :: "u32 \<Rightarrow> (u32 \<Rightarrow> u32 option) \<Rightarrow> u32 list \<Rightarrow> dup_state \<Rightarrow> dup_state step" where
  "dup_inst bound d w s =
     (if set0_binding bound d w then
        if MAX_VULKAN_BINDINGS \<le> unat (w ! 3) then Halt (s\<lparr>du_failed := True\<rparr>)
        else if \<not> du_seen s ! unat (w ! 3)
        then Go (s\<lparr>du_done := du_done s @ w, du_seen := (du_seen s)[unat (w ! 3) := True]\<rparr>)
        else (case free_binding (du_used s) of
                None \<Rightarrow> Halt (s\<lparr>du_failed := True\<rparr>)
              | Some c \<Rightarrow>
                  if MAX_VULKAN_BINDINGS \<le> length (du_aliases s) then Halt (s\<lparr>du_failed := True\<rparr>)
                  else Go (s\<lparr>du_done := du_done s @ w[3 := of_nat c], du_used := (du_used s)[c := True],
                             du_aliases := du_aliases s @
                               [\<lparr>ba_target = w ! 1, ba_original = w ! 3, ba_rewritten = of_nat c\<rparr>],
                             du_max := max (du_max s) (of_nat c)\<rparr>))
      else Go (s\<lparr>du_done := du_done s @ w\<rparr>))"

text \<open>The numbers the dispatch itself binds; \<open>None\<close> when one is out of range.\<close>

fun bound_numbers :: "u32 list \<Rightarrow> bool list \<Rightarrow> bool list option" where
  "bound_numbers [] used = Some used"
| "bound_numbers (b # bs) used =
     (if MAX_VULKAN_BINDINGS \<le> unat b then None else bound_numbers bs (used[unat b := True]))"

text \<open>The result: whether the pass succeeded, the code, the aliases and the largest binding.\<close>

definition rewrite_duplicate_descriptor_bindings ::
  "bool \<Rightarrow> u32 list \<Rightarrow> nat \<Rightarrow> u32 list \<Rightarrow> u32 \<Rightarrow> bool \<times> u32 list \<times> binding_alias list \<times> u32" where
  "rewrite_duplicate_descriptor_bindings oom code bytes bs max_binding =
     (let bound = code ! 3; ws = spirv_body code bytes in
      if \<not> spirv_ok code bytes then (True, code, [], max_binding)
      else if oom then (False, code, [], max_binding)
      else case bound_numbers bs (replicate MAX_VULKAN_BINDINGS False) of
        None \<Rightarrow> (False, code, [], max_binding)
      | Some used0 \<Rightarrow>
          let d = scan id (\<lambda>w d. Go (note_descriptor_set bound w d)) ws (\<lambda>_. None);
              (used, failed) = scan id (note_used bound d) ws (used0, False)
          in if failed then (False, code, [], max_binding)
             else let s = scan id (dup_inst bound d) ws
                            \<lparr>du_done = take 5 code, du_used = used,
                             du_seen = replicate MAX_VULKAN_BINDINGS False, du_aliases = [],
                             du_max = max_binding, du_failed = False\<rparr>
                  in (\<not> du_failed s, du_done s @ drop (length (du_done s)) code,
                      if du_failed s then [] else du_aliases s, du_max s))"

section \<open>The literal work-group size\<close>

definition is_workgroup_builtin :: "u32 list \<Rightarrow> bool" where
  "is_workgroup_builtin w \<longleftrightarrow> opcode w = 71 \<and> 4 \<le> length w \<and> w ! 2 = 11 \<and> w ! 3 = 25"

text \<open>Whether the module has the built-in; a malformed instruction before it ends the pass.\<close>

definition has_workgroup_builtin :: "u32 list \<Rightarrow> bool" where
  "has_workgroup_builtin ws =
     scan (\<lambda>_. False) (\<lambda>w b. if is_workgroup_builtin w then Halt True else Go b) ws False"

fun spec_local_size :: "(u32 \<Rightarrow> u64 option) \<Rightarrow> u32 list \<Rightarrow> (u64 list \<times> bool) option" where
  "spec_local_size val [] = Some ([], False)"
| "spec_local_size val (i # is) =
     (case val i of
        None \<Rightarrow> map_option (\<lambda>(ns, found). (1 # ns, found)) (spec_local_size val is)
      | Some v \<Rightarrow> if v = 0 \<or> 1024 < v then None
                  else map_option (\<lambda>(ns, found). (v # ns, True)) (spec_local_size val is))"

definition is_unit_local_size :: "u32 list \<Rightarrow> bool" where
  "is_unit_local_size w \<longleftrightarrow>
     opcode w = 16 \<and> 6 \<le> length w \<and> w ! 2 = 17 \<and> w ! 3 = 1 \<and> w ! 4 = 1 \<and> w ! 5 = 1"

definition patch_inst :: "u64 list \<Rightarrow> u32 list \<Rightarrow> u32 list \<times> bool \<Rightarrow> (u32 list \<times> bool) step" where
  "patch_inst ns w = (\<lambda>(finished, patched).
     if is_unit_local_size w
     then Halt (finished @ w[3 := ucast (ns ! 0), 4 := ucast (ns ! 1), 5 := ucast (ns ! 2)], True)
     else Go (finished @ w, patched))"

definition patch_spirv_literal_local_size_from_spec ::
  "u32 list \<Rightarrow> nat \<Rightarrow> dispatch_spec list \<Rightarrow> (nat \<Rightarrow> u8) \<Rightarrow> u64 \<Rightarrow> bool \<times> u32 list" where
  "patch_spirv_literal_local_size_from_spec code bytes sps mem data_size =
     (if \<not> spirv_ok code bytes \<or> sps = [] \<or> \<not> has_workgroup_builtin (spirv_body code bytes) then (False, code)
      else case spec_local_size (specialization_value_for_id sps mem data_size) [0, 1, 2] of
        None \<Rightarrow> (False, code)
      | Some (ns, found) \<Rightarrow>
          let n = ns ! 0 * ns ! 1 * ns ! 2 in
          if \<not> found \<or> n \<le> 1 \<or> 1024 < n then (False, code)
          else let (finished, patched) = scan id (patch_inst ns) (spirv_body code bytes) (take 5 code, False)
               in (patched, finished @ drop (length finished) code))"

end
