(* ===== verification/Spirv_Supply.thy ===== *)
theory Spirv_Supply
  imports Spirv_Fold Spirv_Bindings
begin

text \<open>
  Which values the materialized module stands for: the table of identifiers the pass leaves alone is
  described by the declarations of the module, the work-group size with its components.
\<close>

section \<open>The work-group size\<close>

definition workgroup_size :: "u32 list list \<Rightarrow> u32 \<Rightarrow> bool" where
  "workgroup_size is i \<longleftrightarrow> list_ex (\<lambda>w. is_workgroup_builtin w \<and> w ! 1 = i) is"

text \<open>The identifier decorated as the work-group size, or a component of its specialization constant.\<close>

definition workgroup_part :: "u32 list list \<Rightarrow> u32 \<Rightarrow> bool" where
  "workgroup_part is i \<longleftrightarrow>
     workgroup_size is i \<or> list_ex (\<lambda>w. opcode w = 51 \<and> workgroup_size is (w ! 2) \<and> i \<in> set (drop 3 w)) is"

text \<open>The values a dispatch supplies, except to the parts of the work-group size.\<close>

definition dispatched :: "(u32 \<Rightarrow> u64 option) \<Rightarrow> u32 list \<Rightarrow> u32 \<Rightarrow> u64 option" where
  "dispatched val ws i = (if workgroup_part (fst (insts ws)) i then None else supplied val ws i)"

text \<open>Decorated identifiers are below the bound, as in every valid module, and the dispatch supplies no
  value to a boolean.\<close>

definition decorations_bounded :: "u32 \<Rightarrow> u32 list list \<Rightarrow> bool" where
  "decorations_bounded bound is \<longleftrightarrow> list_all (\<lambda>w. opcode w = 71 \<and> 4 \<le> length w \<longrightarrow> w ! 1 < bound) is"

definition booleans_default :: "(u32 \<Rightarrow> u64 option) \<Rightarrow> u32 list \<Rightarrow> bool" where
  "booleans_default val ws \<longleftrightarrow>
     list_all (\<lambda>w. opcode w \<in> {48, 49} \<longrightarrow> supplied val ws (w ! 2) = None) (fst (insts ws))"

section \<open>The table of identifiers left alone\<close>

lemma fold_collect_workgroup:
  "st_workgroup (fold (collect_spec bound) is t) i \<longleftrightarrow>
     st_workgroup t i \<or> (\<exists>w \<in> set is. is_workgroup_builtin w \<and> w ! 1 = i \<and> i < bound)"
  "st_skip (fold (collect_spec bound) is t) i \<longleftrightarrow>
     st_skip t i \<or> (\<exists>w \<in> set is. is_workgroup_builtin w \<and> w ! 1 = i \<and> i < bound)"
  by (induction "is" arbitrary: t) (auto simp: collect_spec_def is_workgroup_builtin_def)

lemma fold_skip_parts:
  "st_skip (fold (skip_constituents bound) is t) i \<longleftrightarrow>
     st_skip t i \<or> (\<exists>w \<in> set is. opcode w = 51 \<and> 3 \<le> length w \<and> w ! 2 < bound \<and> st_workgroup t (w ! 2)
        \<and> i \<in> set (drop 3 w) \<and> i < bound)"
proof (induction "is" arbitrary: t)
  case (Cons w "is")
  have same: "st_workgroup (skip_constituents bound w t) = st_workgroup t" by (simp add: skip_constituents_def)
  show ?case by (simp add: Cons.IH same) (auto simp: skip_constituents_def)
qed simp

lemma fold_users_only:
  "fold (skip_users bound) is (skip, ch) = (skip', ch') \<Longrightarrow>
     skip' i \<Longrightarrow> skip i \<or> (\<exists>w \<in> set is. opcode w = 52 \<and> 5 \<le> length w \<and> w ! 2 = i)"
proof (induction "is" arbitrary: skip ch)
  case (Cons w "is")
  obtain s1 c1 where 1: "skip_users bound w (skip, ch) = (s1, c1)" by fastforce
  with Cons.prems have f: "fold (skip_users bound) is (s1, c1) = (skip', ch')" by simp
  have "s1 i \<Longrightarrow> skip i \<or> (opcode w = 52 \<and> 5 \<le> length w \<and> w ! 2 = i)"
    using 1 by (auto simp: skip_users_def split: if_splits)
  with Cons.IH [OF f Cons.prems(2)] show ?case by auto
qed simp

lemma skip_closure_only:
  "(skip i \<longrightarrow> skip_closure bound ws skip i)
   \<and> (skip_closure bound ws skip i \<longrightarrow>
        skip i \<or> (\<exists>w \<in> set (fst (insts ws)). opcode w = 52 \<and> 5 \<le> length w \<and> w ! 2 = i))"
proof (induction bound ws skip rule: skip_closure.induct)
  case (1 bound ws skip)
  obtain s1 c1 where r: "skip_round bound ws skip = (s1, c1)" by fastforce
  then have f: "fold (skip_users bound) (fst (insts ws)) (skip, False) = (s1, c1)"
    by (simp add: skip_round_def scan_fold split: if_splits)
  note grow = skip_round_grows(1) [OF r, of i] and only = fold_users_only [OF f, of i]
  show ?case
  proof (cases c1)
    case True
    with 1 r have "(s1 i \<longrightarrow> skip_closure bound ws s1 i) \<and> (skip_closure bound ws s1 i \<longrightarrow>
        s1 i \<or> (\<exists>w \<in> set (fst (insts ws)). opcode w = 52 \<and> 5 \<le> length w \<and> w ! 2 = i))" by simp
    moreover have "skip_closure bound ws skip = skip_closure bound ws s1"
      using r True by (subst skip_closure.simps) simp
    ultimately show ?thesis using grow only by auto
  next
    case False
    then have "skip_closure bound ws skip = s1" using r by (subst skip_closure.simps) simp
    then show ?thesis using grow only by auto
  qed
qed

lemma skipped:
  assumes "decorations_bounded bound (fst (insts ws))"
  shows "i < bound \<Longrightarrow> workgroup_part (fst (insts ws)) i \<Longrightarrow> st_skip (spec_tables_of bound ws) i"
    and "st_skip (spec_tables_of bound ws) i \<Longrightarrow> workgroup_part (fst (insts ws)) i
      \<or> (\<exists>w \<in> set (fst (insts ws)). opcode w = 52 \<and> 5 \<le> length w \<and> w ! 2 = i)"
proof -
  let ?is = "fst (insts ws)" and ?t1 = "scan id (\<lambda>w t. Go (collect_spec bound w t)) ws no_spec_tables"
  let ?t2 = "fold (skip_constituents bound) ?is (fold (collect_spec bound) ?is no_spec_tables)"
  have below: "is_workgroup_builtin w \<Longrightarrow> w \<in> set ?is \<Longrightarrow> w ! 1 < bound" for w
    using assms by (auto simp: decorations_bounded_def is_workgroup_builtin_def list_all_iff)
  have size: "st_workgroup (fold (collect_spec bound) ?is no_spec_tables) j \<longleftrightarrow> workgroup_size ?is j"
    "st_skip (fold (collect_spec bound) ?is no_spec_tables) j \<longleftrightarrow> workgroup_size ?is j"
    "workgroup_size ?is j \<Longrightarrow> j < bound" for j
    using below by (auto simp: fold_collect_workgroup no_spec_tables_def workgroup_size_def list_ex_iff)
  have tab: "st_skip (spec_tables_of bound ws) = skip_closure bound ws (st_skip ?t2)"
    by (simp add: spec_tables_of_def Let_def scan_fold)
  note only = skip_closure_only [of "st_skip ?t2" i bound ws, folded tab]
  show "st_skip (spec_tables_of bound ws) i" if "i < bound" "workgroup_part ?is i"
  proof -
    have "3 \<le> length w" if "i \<in> set (drop 3 w)" for w using that by (cases "3 \<le> length w") auto
    with that have "st_skip ?t2 i" unfolding fold_skip_parts size workgroup_part_def list_ex_iff using size(3) by blast
    with only show ?thesis by blast
  qed
  show "st_skip (spec_tables_of bound ws) i \<Longrightarrow> workgroup_part ?is i
      \<or> (\<exists>w \<in> set ?is. opcode w = 52 \<and> 5 \<le> length w \<and> w ! 2 = i)"
    using only unfolding fold_skip_parts size workgroup_part_def list_ex_iff by blast
qed

section \<open>Values that fit the pass\<close>

lemma distinct_results:
  "distinct (concat (map f xs)) \<Longrightarrow> x \<in> set xs \<Longrightarrow> y \<in> set xs \<Longrightarrow> i \<in> set (f x) \<Longrightarrow> i \<in> set (f y) \<Longrightarrow> x = y"
  by (induction xs) auto

lemma bounded_decorate:
  "decorations_bounded bound is \<Longrightarrow> (\<And>i. d i \<noteq> None \<Longrightarrow> i < bound) \<Longrightarrow> fold decorate is d i \<noteq> None \<Longrightarrow> i < bound"
proof (induction "is" arbitrary: d)
  case (Cons w "is")
  show ?case
    by (rule Cons.IH [of "decorate w d"])
       (use Cons.prems in \<open>auto simp: decorations_bounded_def decorate_def split: if_splits\<close>)
qed simp

lemma supplied_bounded: "decorations_bounded bound (fst (insts ws)) \<Longrightarrow> supplied val ws i \<noteq> None \<Longrightarrow> i < bound"
  using bounded_decorate [of bound "fst (insts ws)" "\<lambda>_. None" i]
  by (auto simp: supplied_def given_def split: option.splits)

lemma dispatched_fits:
  assumes module: "const_module (fst (insts ws))" and below: "decorations_bounded bound (fst (insts ws))"
    and bool: "booleans_default val ws" and w: "w \<in> set (fst (insts ws))"
  shows "fits bound (spec_tables_of bound ws) val (\<lambda>_. None) (dispatched val ws) w"
  unfolding fits_def
proof (intro conjI impI)
  assume a: "opcode w = 50 \<and> w ! 2 < bound \<and> \<not> st_skip (spec_tables_of bound ws) (w ! 2)"
  then have "\<not> workgroup_part (fst (insts ws)) (w ! 2)" using skipped(1) [OF below] by blast
  moreover have "supplied val ws (w ! 2) = given (st_spec (spec_tables_of bound ws)) val (w ! 2)"
    using a spec_tables_agree [of bound ws] by (simp add: supplied_def given_def tables_agree_def)
  ultimately show "dispatched val ws (w ! 2) = given (st_spec (spec_tables_of bound ws)) val (w ! 2)"
    by (simp add: dispatched_def)
next
  assume a: "opcode w \<in> {48, 49} \<or> opcode w = 50 \<and> \<not> (w ! 2 < bound \<and> \<not> st_skip (spec_tables_of bound ws) (w ! 2))"
  have "dispatched val ws (w ! 2) = None"
  proof (cases "opcode w \<in> {48, 49}")
    case True
    with bool w show ?thesis by (auto simp: dispatched_def booleans_default_def list_all_iff)
  next
    case False
    with a have a: "opcode w = 50" "w ! 2 < bound \<Longrightarrow> st_skip (spec_tables_of bound ws) (w ! 2)" by auto
    show ?thesis
    proof (cases "w ! 2 < bound")
      case True
      have "\<not> (v \<in> set (fst (insts ws)) \<and> opcode v = 52 \<and> 5 \<le> length v \<and> v ! 2 = w ! 2)" for v
        using distinct_results [of const_result "fst (insts ws)" w v "w ! 2"] module w a(1)
        by (auto simp: const_module_def const_result_def)
      with skipped(2) [OF below a(2) [OF True]] show ?thesis by (auto simp: dispatched_def)
    next
      case False
      with supplied_bounded [OF below, of val "w ! 2"] show ?thesis
        by (cases "supplied val ws (w ! 2)") (auto simp: dispatched_def)
    qed
  qed
  then show "None = dispatched val ws (w ! 2)" by simp
qed

text \<open>Without a work-group size nothing is left to decorate.\<close>

lemma nothing_left:
  assumes below: "decorations_bounded bound (fst (insts ws))" and module: "const_module (fst (insts ws))"
    and none: "\<not> list_ex is_workgroup_builtin (fst (insts ws))"
  shows "\<not> workgroup_part (fst (insts ws)) i"
    and "kept_spec bound (spec_tables_of bound ws) (fold decorate (fst (insts ws)) (\<lambda>_. None)) = (\<lambda>_. None)"
proof -
  have no: "\<not> workgroup_part (fst (insts ws)) i" for i
    using none by (auto simp: workgroup_part_def workgroup_size_def list_ex_iff)
  then show "\<not> workgroup_part (fst (insts ws)) i" .
  let ?t2 = "fold (skip_constituents bound) (fst (insts ws)) (fold (collect_spec bound) (fst (insts ws)) no_spec_tables)"
  have empty: "st_skip ?t2 = (\<lambda>_. False)"
    unfolding fun_eq_iff fold_skip_parts fold_collect_workgroup
    using none by (auto simp: no_spec_tables_def list_ex_iff)
  have users: "fold (skip_users bound) is (\<lambda>_. False, False) = (\<lambda>_. False, False)" for "is"
    by (induction "is") (simp_all add: skip_users_def list_ex_iff)
  have "st_skip (spec_tables_of bound ws) = (\<lambda>_. False)"
    by (simp add: spec_tables_of_def Let_def scan_fold empty skip_closure.simps [of bound ws "\<lambda>_. False"]
        skip_round_def users)
  moreover have "fold decorate (fst (insts ws)) (\<lambda>_. None) i = None" if "\<not> i < bound" for i
    using bounded_decorate [OF below, of "\<lambda>_. None" i] that by blast
  ultimately show "kept_spec bound (spec_tables_of bound ws) (fold decorate (fst (insts ws)) (\<lambda>_. None)) = (\<lambda>_. None)"
    by (auto simp: kept_spec_def fun_eq_iff)
qed

end
