(* ===== verification/Spirv_Reflect.thy ===== *)
theory Spirv_Reflect
  imports Spirv_Constants
begin

text \<open>
  What the executor reads off a module: the summary of its capabilities and local sizes, the features
  it needs, the resolved size of a work group, and the descriptor bindings with their accesses.
\<close>

section \<open>The summary of a module\<close>

record spirv_summary =
  su_magic :: u32
  su_version :: u32
  su_bound :: u32
  su_local_size :: "u32 list"
  su_local_size_id :: "u32 list"
  su_capabilities :: "u32 list"
  su_float16 :: bool
  su_int16 :: bool
  su_int8 :: bool
  su_int64 :: bool
  su_storage16 :: bool
  su_storage16_buffer :: bool
  su_storage16_uniform :: bool
  su_storage16_push :: bool
  su_storage8 :: bool
  su_storage8_buffer :: bool
  su_storage8_uniform :: bool
  su_storage8_push :: bool
  su_subgroup :: bool
  su_hash :: u64
  su_valid :: bool
  su_truncated :: bool

definition empty_summary :: spirv_summary where
  "empty_summary = \<lparr>su_magic = 0, su_version = 0, su_bound = 0, su_local_size = [0, 0, 0],
     su_local_size_id = [0, 0, 0], su_capabilities = [], su_float16 = False, su_int16 = False,
     su_int8 = False, su_int64 = False, su_storage16 = False, su_storage16_buffer = False,
     su_storage16_uniform = False, su_storage16_push = False, su_storage8 = False,
     su_storage8_buffer = False, su_storage8_uniform = False, su_storage8_push = False,
     su_subgroup = False, su_hash = FNV_BASIS, su_valid = False, su_truncated = False\<rparr>"

text \<open>The summary keeps at most 24 different capabilities; the flags are set all the same.\<close>

definition MAX_CAPABILITIES :: nat where
  "MAX_CAPABILITIES = 24"

definition require_capability :: "u32 \<Rightarrow> spirv_summary \<Rightarrow> spirv_summary" where
  "require_capability cap s =
     (if cap = 9 then s\<lparr>su_float16 := True\<rparr>
      else if cap = 11 \<or> cap = 12 then s\<lparr>su_int64 := True\<rparr>
      else if cap = 22 then s\<lparr>su_int16 := True\<rparr>
      else if cap = 39 then s\<lparr>su_int8 := True\<rparr>
      else if cap = 4433 then s\<lparr>su_storage16 := True, su_storage16_buffer := True\<rparr>
      else if cap = 4434 then s\<lparr>su_storage16 := True, su_storage16_uniform := True\<rparr>
      else if cap = 4435 then s\<lparr>su_storage16 := True, su_storage16_push := True\<rparr>
      else if cap = 4448 then s\<lparr>su_storage8 := True, su_storage8_buffer := True\<rparr>
      else if cap = 4449 then s\<lparr>su_storage8 := True, su_storage8_uniform := True\<rparr>
      else if cap = 4450 then s\<lparr>su_storage8 := True, su_storage8_push := True\<rparr>
      else if cap = 63 then s\<lparr>su_subgroup := True\<rparr>
      else s)"

definition summarize_inst :: "u32 list \<Rightarrow> spirv_summary \<Rightarrow> spirv_summary" where
  "summarize_inst w s =
     (if opcode w = 17 \<and> 2 \<le> length w then
        require_capability (w ! 1)
          (if w ! 1 \<notin> set (su_capabilities s) \<and> length (su_capabilities s) < MAX_CAPABILITIES
           then s\<lparr>su_capabilities := su_capabilities s @ [w ! 1]\<rparr> else s)
      else if opcode w = 16 \<and> 6 \<le> length w \<and> w ! 2 = 17 then
        s\<lparr>su_local_size := [w ! 3, w ! 4, w ! 5]\<rparr>
      else if opcode w = 331 \<and> 6 \<le> length w \<and> w ! 2 = 38 then
        s\<lparr>su_local_size_id := [w ! 3, w ! 4, w ! 5]\<rparr>
      else s)"

text \<open>The bytes of the code in memory order.\<close>

definition code_bytes :: "u32 list \<Rightarrow> nat \<Rightarrow> u8 list" where
  "code_bytes code bytes = take bytes (concat (map (\<lambda>x. le_bytes 4 (ucast x)) code))"

definition summarize_spirv :: "u32 list option \<Rightarrow> nat \<Rightarrow> spirv_summary" where
  "summarize_spirv code bytes =
     (case code of None \<Rightarrow> empty_summary
      | Some c \<Rightarrow>
          let s = empty_summary\<lparr>su_hash := fnv1a64_update FNV_BASIS (code_bytes c bytes)\<rparr>
          in if bytes < 20 \<or> bytes mod 4 \<noteq> 0 then s
             else let s1 = s\<lparr>su_magic := c ! 0, su_version := c ! 1, su_bound := c ! 3\<rparr>
                  in if c ! 0 \<noteq> SPIRV_MAGIC then s1
                     else scan (\<lambda>s. s\<lparr>su_truncated := True\<rparr>) (\<lambda>w s. Go (summarize_inst w s))
                            (spirv_body c bytes) (s1\<lparr>su_valid := True\<rparr>))"

section \<open>Features\<close>

text \<open>The features of the device the check looks at.\<close>

record device_features =
  df_float16 :: bool
  df_int64 :: bool
  df_storage16 :: bool
  df_storage8 :: bool
  df_int8 :: bool
  df_subgroup_arithmetic :: bool

definition spirv_feature_missing :: "spirv_summary \<Rightarrow> device_features \<Rightarrow> bool" where
  "spirv_feature_missing s d \<longleftrightarrow>
     su_float16 s \<and> \<not> df_float16 d \<or> su_int64 s \<and> \<not> df_int64 d \<or> su_storage16 s \<and> \<not> df_storage16 d
     \<or> su_storage8 s \<and> \<not> df_storage8 d \<or> su_int8 s \<and> \<not> df_int8 d
     \<or> su_subgroup s \<and> \<not> df_subgroup_arithmetic d"

definition feature_bit :: "bool \<Rightarrow> nat \<Rightarrow> u64" where
  "feature_bit b n = (if b then push_bit n 1 else 0)"

definition spirv_required_feature_mask :: "spirv_summary \<Rightarrow> u64" where
  "spirv_required_feature_mask s =
     feature_bit (su_int64 s) 0 OR feature_bit (su_storage16_buffer s) 3 OR feature_bit (su_storage16_uniform s) 4
     OR feature_bit (su_storage16_push s) 5 OR feature_bit (su_storage8_buffer s) 6
     OR feature_bit (su_storage8_uniform s) 7 OR feature_bit (su_storage8_push s) 8
     OR feature_bit (su_float16 s) 9 OR feature_bit (su_int8 s) 10"

section \<open>The size of a work group\<close>

definition resolve_spirv_local_size :: "spirv_summary \<Rightarrow> (u32 \<Rightarrow> u64 option) \<Rightarrow> u64 list" where
  "resolve_spirv_local_size s val =
     map (\<lambda>i. let value = (if su_local_size s ! i \<noteq> 0 then ucast (su_local_size s ! i) else 1)
              in if su_local_size_id s ! i \<noteq> 0
                 then (case val (su_local_size_id s ! i) of None \<Rightarrow> value | Some v \<Rightarrow> v) else value) [0, 1, 2]"

text \<open>The product of the three sizes; \<open>None\<close> when one of them or the product is out of range.\<close>

fun invocation_product :: "u64 list \<Rightarrow> u64 \<Rightarrow> u64 option" where
  "invocation_product [] p = Some p"
| "invocation_product (n # ns) p =
     (if n = 0 \<or> 1024 < n then None
      else if p > (- 1) div n then None
      else if 1024 < p * n then None
      else invocation_product ns (p * n))"

definition spirv_local_invocation_count :: "u64 list \<Rightarrow> u64 option" where
  "spirv_local_invocation_count local_size =
     (case invocation_product local_size 1 of None \<Rightarrow> None
      | Some p \<Rightarrow> if 1 \<le> p \<and> p \<le> 1024 then Some p else None)"

definition spirv_local_size_consistent :: "spirv_summary \<Rightarrow> (u32 \<Rightarrow> u64 option) \<Rightarrow> bool" where
  "spirv_local_size_consistent s val \<longleftrightarrow>
     \<not> su_valid s \<or> (\<forall>i \<in> set [0, 1, 2]. su_local_size_id s ! i = 0)
     \<or> (\<forall>i \<in> set [0, 1, 2]. su_local_size s ! i \<noteq> 0 \<longrightarrow> ucast (su_local_size s ! i) = resolve_spirv_local_size s val ! i)
       \<and> spirv_local_invocation_count (resolve_spirv_local_size s val) \<noteq> None"

section \<open>Descriptor bindings and accesses\<close>

definition collect_binding :: "u32 list \<Rightarrow> bool list \<Rightarrow> bool list" where
  "collect_binding w used =
     (if opcode w = 71 \<and> 4 \<le> length w \<and> w ! 2 = 33 \<and> unat (w ! 3) < length used
      then used[unat (w ! 3) := True] else used)"

definition collect_spirv_descriptor_bindings :: "u32 list \<Rightarrow> nat \<Rightarrow> nat \<Rightarrow> bool list" where
  "collect_spirv_descriptor_bindings code bytes count =
     (if \<not> spirv_ok code bytes then replicate count False
      else scan id (\<lambda>w u. Go (collect_binding w u)) (spirv_body code bytes) (replicate count False))"

record descriptor_access =
  da_used :: bool
  da_readable :: bool
  da_writable :: bool

definition no_access :: descriptor_access where
  "no_access = \<lparr>da_used = False, da_readable = False, da_writable = False\<rparr>"

text \<open>The tables indexed by identifiers; a binding is kept as a signed number.\<close>

record access_tables =
  at_binding :: "u32 \<Rightarrow> int"
  at_pointee :: "u32 \<Rightarrow> u32 option"
  at_type :: "u32 \<Rightarrow> u32 option"
  at_non_readable :: "u32 \<Rightarrow> bool"
  at_non_writable :: "u32 \<Rightarrow> bool"
  at_type_non_readable :: "u32 \<Rightarrow> bool"
  at_type_non_writable :: "u32 \<Rightarrow> bool"

definition no_access_tables :: access_tables where
  "no_access_tables = \<lparr>at_binding = (\<lambda>_. -1), at_pointee = (\<lambda>_. None), at_type = (\<lambda>_. None),
     at_non_readable = (\<lambda>_. False), at_non_writable = (\<lambda>_. False),
     at_type_non_readable = (\<lambda>_. False), at_type_non_writable = (\<lambda>_. False)\<rparr>"

definition collect_access :: "u32 \<Rightarrow> u32 list \<Rightarrow> access_tables \<Rightarrow> access_tables" where
  "collect_access bound w t =
     (if opcode w = 71 \<and> 3 \<le> length w then
        (if w ! 1 < bound then
           if w ! 2 = 33 \<and> 4 \<le> length w then t\<lparr>at_binding := (at_binding t)(w ! 1 := sint (w ! 3))\<rparr>
           else if w ! 2 = 24 then t\<lparr>at_non_writable := (at_non_writable t)(w ! 1 := True)\<rparr>
           else if w ! 2 = 25 then t\<lparr>at_non_readable := (at_non_readable t)(w ! 1 := True)\<rparr>
           else t
         else t)
      else if opcode w = 72 \<and> 4 \<le> length w then
        (if w ! 1 < bound then
           if w ! 3 = 24 then t\<lparr>at_type_non_writable := (at_type_non_writable t)(w ! 1 := True)\<rparr>
           else if w ! 3 = 25 then t\<lparr>at_type_non_readable := (at_type_non_readable t)(w ! 1 := True)\<rparr>
           else t
         else t)
      else if opcode w = 32 \<and> 4 \<le> length w then
        (if w ! 1 < bound \<and> w ! 3 < bound then t\<lparr>at_pointee := (at_pointee t)(w ! 1 := Some (w ! 3))\<rparr> else t)
      else if opcode w = 59 \<and> 4 \<le> length w then
        (if w ! 2 < bound \<and> w ! 1 < bound then t\<lparr>at_type := (at_type t)(w ! 2 := Some (w ! 1))\<rparr> else t)
      else t)"

definition note_access :: "access_tables \<Rightarrow> u32 \<Rightarrow> descriptor_access list \<Rightarrow> descriptor_access list" where
  "note_access t i as =
     (let b = at_binding t i;
          pointee = (case at_type t i of None \<Rightarrow> None | Some v \<Rightarrow> at_pointee t v);
          non_readable = (at_non_readable t i \<or> (case pointee of None \<Rightarrow> False | Some p \<Rightarrow> at_type_non_readable t p));
          non_writable = (at_non_writable t i \<or> (case pointee of None \<Rightarrow> False | Some p \<Rightarrow> at_type_non_writable t p))
      in if b < 0 \<or> int (length as) \<le> b then as
         else as[nat b := (as ! nat b)\<lparr>da_used := True,
                   da_readable := da_readable (as ! nat b) \<or> \<not> non_readable,
                   da_writable := da_writable (as ! nat b) \<or> \<not> non_writable\<rparr>])"

definition collect_spirv_descriptor_accesses :: "bool \<Rightarrow> u32 list \<Rightarrow> nat \<Rightarrow> nat \<Rightarrow> descriptor_access list" where
  "collect_spirv_descriptor_accesses oom code bytes count =
     (let bound = code ! 3 in
      if \<not> spirv_ok code bytes \<or> bound = 0 \<or> 65536 < bound \<or> oom then replicate count no_access
      else let t = scan id (\<lambda>w t. Go (collect_access bound w t)) (spirv_body code bytes) no_access_tables
           in fold (\<lambda>n. note_access t (of_nat n)) [0..<unat bound] (replicate count no_access))"

end
