(* ===== verification/Spirv_Unique.thy ===== *)
theory Spirv_Unique
  imports Spirv_Bindings
begin

text \<open>
  What the rewriting of duplicate bindings achieves: afterwards the variables of descriptor set 0
  have different numbers, only the operands of repeated decorations have changed, and the numbers
  they got were used by nobody.
\<close>

definition descriptor_sets :: "u32 list \<Rightarrow> nat \<Rightarrow> u32 \<Rightarrow> u32 option" where
  "descriptor_sets code bytes = fold (note_descriptor_set (code ! 3)) (fst (insts (spirv_body code bytes))) (\<lambda>_. None)"

definition numbers :: "u32 \<Rightarrow> (u32 \<Rightarrow> u32 option) \<Rightarrow> u32 list list \<Rightarrow> u32 list" where
  "numbers bound d is = map (\<lambda>w. w ! 3) (filter (set0_binding bound d) is)"

definition set0_numbers :: "u32 list \<Rightarrow> nat \<Rightarrow> u32 list" where
  "set0_numbers code bytes =
     numbers (code ! 3) (descriptor_sets code bytes) (fst (insts (spirv_body code bytes)))"

definition patched :: "u32 \<Rightarrow> (u32 \<Rightarrow> u32 option) \<Rightarrow> u32 set \<Rightarrow> u32 list \<Rightarrow> u32 list \<Rightarrow> bool" where
  "patched bound d taken w w' \<longleftrightarrow> w' = w \<or> set0_binding bound d w \<and> (\<exists>x. w' = w[3 := x] \<and> x \<notin> taken)"

definition alias_of :: "u32 list \<Rightarrow> u32 list \<Rightarrow> binding_alias list" where
  "alias_of w w' = (if w' = w then [] else [\<lparr>ba_target = w ! 1, ba_original = w ! 3, ba_rewritten = w' ! 3\<rparr>])"

lemma alias_of_same [simp]: "alias_of w w = []"
  by (simp add: alias_of_def)

lemma numbers_simps [simp]:
  "numbers bound d [] = []"
  "numbers bound d (is @ js) = numbers bound d is @ numbers bound d js"
  "numbers bound d [w] = (if set0_binding bound d w then [w ! 3] else [])"
  by (simp_all add: numbers_def)

lemma hd_update: "hd (w[3 := x]) = hd w"
  by (cases w) simp_all

lemma set0_update: "set0_binding bound d w \<Longrightarrow> set0_binding bound d (w[3 := x])"
  by (simp add: set0_binding_def opcode_def hd_update)

lemma wf_update: "wf_inst w \<Longrightarrow> wf_inst (w[3 := x])"
  by (simp add: wf_inst_def hd_update)

lemma small_word: "unat (of_nat c :: u32) = c" if "c < MAX_VULKAN_BINDINGS"
  using that by (simp add: MAX_VULKAN_BINDINGS_def unat_of_nat)

text \<open>The \<open>k\<close>-th instruction decorates a variable of set 0 with a number an earlier one already has.\<close>

definition repeated :: "u32 \<Rightarrow> (u32 \<Rightarrow> u32 option) \<Rightarrow> u32 list list \<Rightarrow> nat \<Rightarrow> bool" where
  "repeated bound d is k \<longleftrightarrow>
     set0_binding bound d (is ! k) \<and> (\<exists>j < k. set0_binding bound d (is ! j) \<and> is ! j ! 3 = is ! k ! 3)"

definition only_repeated :: "u32 \<Rightarrow> (u32 \<Rightarrow> u32 option) \<Rightarrow> u32 list list \<Rightarrow> u32 list list \<Rightarrow> bool" where
  "only_repeated bound d is is' \<longleftrightarrow> (\<forall>k < length is. is' ! k \<noteq> is ! k \<longleftrightarrow> repeated bound d is k)"

lemma repeated_append: "k < length is \<Longrightarrow> repeated bound d (is @ js) k = repeated bound d is k"
  unfolding repeated_def by (intro conj_cong ex_cong1) (simp_all add: nth_append)

lemma in_numbers: "x \<in> set (numbers bound d is) \<longleftrightarrow> (\<exists>j < length is. set0_binding bound d (is ! j) \<and> is ! j ! 3 = x)"
  by (fastforce simp: numbers_def in_set_conv_nth)

lemma repeated_last:
  "repeated bound d (is @ [w]) (length is) \<longleftrightarrow> set0_binding bound d w \<and> w ! 3 \<in> set (numbers bound d is)"
  unfolding repeated_def in_numbers by (intro conj_cong ex_cong1) (simp_all add: nth_append)

lemma only_repeated_snoc:
  assumes "only_repeated bound d is is'" "length is' = length is"
    "w' \<noteq> w \<longleftrightarrow> set0_binding bound d w \<and> w ! 3 \<in> set (numbers bound d is)"
  shows "only_repeated bound d (is @ [w]) (is' @ [w'])"
  unfolding only_repeated_def
proof (intro allI impI)
  fix k assume "k < length (is @ [w])"
  then consider "k < length is" | "k = length is" by fastforce
  then show "((is' @ [w']) ! k \<noteq> (is @ [w]) ! k) = repeated bound d (is @ [w]) k"
  proof cases
    case 1
    then show ?thesis using assms(1,2) by (simp add: only_repeated_def repeated_append nth_append)
  next
    case 2
    then show ?thesis using assms(2,3) repeated_last [of bound d "is" w] by (simp add: nth_append)
  qed
qed

section \<open>The invariant of the last pass\<close>

definition dup_inv ::
  "u32 list \<Rightarrow> u32 \<Rightarrow> (u32 \<Rightarrow> u32 option) \<Rightarrow> bool list \<Rightarrow> u32 list list \<Rightarrow> dup_state \<Rightarrow> bool" where
  "dup_inv header bound d used0 pre s \<longleftrightarrow>
     (\<exists>pre'. du_done s = header @ concat pre'
        \<and> list_all2 (patched bound d {x. unat x < MAX_VULKAN_BINDINGS \<and> used0 ! unat x}) pre pre'
        \<and> only_repeated bound d pre pre' \<and> distinct (numbers bound d pre')
        \<and> (\<forall>x \<in> set (numbers bound d pre'). unat x < MAX_VULKAN_BINDINGS \<and> du_used s ! unat x
              \<and> (x \<in> set (numbers bound d pre) \<or> \<not> used0 ! unat x))
        \<and> du_aliases s = concat (map2 alias_of pre pre'))
     \<and> (\<forall>x. unat x < MAX_VULKAN_BINDINGS \<longrightarrow> (du_seen s ! unat x \<longleftrightarrow> x \<in> set (numbers bound d pre)))
     \<and> length (du_used s) = MAX_VULKAN_BINDINGS \<and> length (du_seen s) = MAX_VULKAN_BINDINGS
     \<and> (\<forall>k < MAX_VULKAN_BINDINGS. used0 ! k \<longrightarrow> du_used s ! k)"

lemma free_binding_Some: "free_binding used = Some c \<Longrightarrow> c < MAX_VULKAN_BINDINGS \<and> \<not> used ! c"
  by (auto simp: free_binding_def find_Some_iff)

lemma dup_inv_step:
  assumes inv: "dup_inv header bound d used0 pre s" and step: "dup_inst bound d w s = Go s'"
    and used: "set0_binding bound d w \<Longrightarrow> used0 ! unat (w ! 3)"
  shows "dup_inv header bound d used0 (pre @ [w]) s'"
proof -
  from inv obtain pre' where p: "du_done s = header @ concat pre'"
    "list_all2 (patched bound d {x. unat x < MAX_VULKAN_BINDINGS \<and> used0 ! unat x}) pre pre'"
    "distinct (numbers bound d pre')"
    "\<forall>x \<in> set (numbers bound d pre'). unat x < MAX_VULKAN_BINDINGS \<and> du_used s ! unat x
              \<and> (x \<in> set (numbers bound d pre) \<or> \<not> used0 ! unat x)"
    "du_aliases s = concat (map2 alias_of pre pre')" "only_repeated bound d pre pre'"
    and q: "\<forall>x. unat x < MAX_VULKAN_BINDINGS \<longrightarrow> (du_seen s ! unat x \<longleftrightarrow> x \<in> set (numbers bound d pre))"
    "length (du_used s) = MAX_VULKAN_BINDINGS" "length (du_seen s) = MAX_VULKAN_BINDINGS"
    "\<forall>k < MAX_VULKAN_BINDINGS. used0 ! k \<longrightarrow> du_used s ! k"
    unfolding dup_inv_def by blast
  have len: "length pre = length pre'" using p(2) by (rule list_all2_lengthD)
  note snoc = only_repeated_snoc [OF p(6) len [symmetric]]
  from step consider
    (other) "\<not> set0_binding bound d w" "s' = s\<lparr>du_done := du_done s @ w\<rparr>"
  | (first) "set0_binding bound d w" "unat (w ! 3) < MAX_VULKAN_BINDINGS" "\<not> du_seen s ! unat (w ! 3)"
      "s' = s\<lparr>du_done := du_done s @ w, du_seen := (du_seen s)[unat (w ! 3) := True]\<rparr>"
  | (again) c where "set0_binding bound d w" "unat (w ! 3) < MAX_VULKAN_BINDINGS" "du_seen s ! unat (w ! 3)"
      "free_binding (du_used s) = Some c"
      "s' = s\<lparr>du_done := du_done s @ w[3 := of_nat c], du_used := (du_used s)[c := True],
                 du_aliases := du_aliases s @ [\<lparr>ba_target = w ! 1, ba_original = w ! 3, ba_rewritten = of_nat c\<rparr>],
                 du_max := max (du_max s) (of_nat c)\<rparr>"
    by (auto simp: dup_inst_def split: if_splits option.splits)
  then show ?thesis
  proof cases
    case other
    then show ?thesis unfolding dup_inv_def
      by (intro conjI exI [of _ "pre' @ [w]"] snoc) (use p q len in \<open>auto simp: patched_def intro!: list_all2_appendI\<close>)
  next
    case first
    have fresh: "w ! 3 \<notin> set (numbers bound d pre')"
      using p(4) q(1) first(2,3) used [OF first(1)] by auto
    have seen: "\<forall>x. unat x < MAX_VULKAN_BINDINGS \<longrightarrow>
        (du_seen s' ! unat x \<longleftrightarrow> x \<in> set (numbers bound d (pre @ [w])))"
      using first q(1,3) by (auto simp: nth_list_update word_unat_eq_iff)
    show ?thesis unfolding dup_inv_def
      by (intro conjI exI [of _ "pre' @ [w]"] seen snoc)
         (use p q len first fresh used in \<open>auto simp: patched_def intro!: list_all2_appendI\<close>)
  next
    case again
    from free_binding_Some [OF again(4)] have c: "c < MAX_VULKAN_BINDINGS" "\<not> du_used s ! c" by auto
    have fresh: "of_nat c \<notin> set (numbers bound d pre')" using p(4) c by (auto simp: small_word)
    have free0: "\<not> used0 ! c" using q(4) c by blast
    have at3: "(w[3 := of_nat c]) ! 3 = of_nat c" using again(1) by (simp add: set0_binding_def)
    have again_in: "w ! 3 \<in> set (numbers bound d pre)" using q(1) again(2,3) by blast
    have changed: "w[3 := of_nat c] \<noteq> w"
    proof
      assume "w[3 := of_nat c] = w"
      with at3 have "w ! 3 = of_nat c" by simp
      with used [OF again(1)] free0 c(1) show False by (simp add: small_word)
    qed
    have seen: "\<forall>x. unat x < MAX_VULKAN_BINDINGS \<longrightarrow>
        (du_seen s' ! unat x \<longleftrightarrow> x \<in> set (numbers bound d (pre @ [w])))"
      using again q(1) by auto
    have noted: "alias_of w (w[3 := of_nat c]) = [\<lparr>ba_target = w ! 1, ba_original = w ! 3, ba_rewritten = of_nat c\<rparr>]"
      using changed at3 by (simp add: alias_of_def)
    have patch: "patched bound d {x. unat x < MAX_VULKAN_BINDINGS \<and> used0 ! unat x} w (w[3 := of_nat c])"
      using again(1) free0 c(1) by (auto simp: patched_def small_word)
    show ?thesis unfolding dup_inv_def
      by (intro conjI exI [of _ "pre' @ [w[3 := of_nat c]]"] seen snoc)
         (use p q len again(1,5) fresh free0 c changed at3 patch set0_update [OF again(1)]
          noted again_in
          in \<open>auto simp: small_word nth_list_update intro!: list_all2_appendI\<close>)
  qed
qed

lemma dup_run:
  assumes "dup_inv header bound d used0 pre s" "run_insts (dup_inst bound d) is s = Go s'"
    and "\<forall>x \<in> set (numbers bound d is). used0 ! unat x"
  shows "dup_inv header bound d used0 (pre @ is) s'"
  using assms
proof (induction "is" arbitrary: pre s)
  case (Cons w "is")
  from Cons.prems(2) obtain s1 where s1: "dup_inst bound d w s = Go s1" "run_insts (dup_inst bound d) is s1 = Go s'"
    by (auto split: step.splits)
  have "dup_inv header bound d used0 (pre @ [w]) s1"
    by (rule dup_inv_step [OF Cons.prems(1) s1(1)]) (use Cons.prems(3) in \<open>simp add: numbers_def\<close>)
  from Cons.IH [OF this s1(2)] Cons.prems(3) show ?case by (simp add: numbers_def split: if_splits)
qed simp


section \<open>The first passes and the result\<close>

lemma note_used_app:
  "note_used bound d w (used, failed) =
     (if set0_binding bound d w
      then if MAX_VULKAN_BINDINGS \<le> unat (w ! 3) then Halt (used, True)
           else Go (used[unat (w ! 3) := True], failed)
      else Go (used, failed))"
  by (simp add: note_used_def)

lemma note_used_run:
  assumes "run_insts (note_used bound d) is (used, False) = Go (used', failed)" "length used = MAX_VULKAN_BINDINGS"
  shows "\<not> failed" "length used' = MAX_VULKAN_BINDINGS" "\<forall>k < MAX_VULKAN_BINDINGS. used ! k \<longrightarrow> used' ! k"
    "\<forall>x \<in> set (numbers bound d is). unat x < MAX_VULKAN_BINDINGS \<and> used' ! unat x"
proof -
  have "\<not> failed \<and> length used' = MAX_VULKAN_BINDINGS \<and> (\<forall>k < MAX_VULKAN_BINDINGS. used ! k \<longrightarrow> used' ! k)
     \<and> (\<forall>x \<in> set (numbers bound d is). unat x < MAX_VULKAN_BINDINGS \<and> used' ! unat x)"
    using assms
  proof (induction "is" arbitrary: used)
    case (Cons w "is")
    from Cons.prems(1) consider
      (plain) "\<not> set0_binding bound d w" "run_insts (note_used bound d) is (used, False) = Go (used', failed)"
    | (set0) "set0_binding bound d w" "unat (w ! 3) < MAX_VULKAN_BINDINGS"
        "run_insts (note_used bound d) is (used[unat (w ! 3) := True], False) = Go (used', failed)"
      by (auto simp: note_used_app split: if_splits)
    then show ?case
    proof cases
      case plain
      from Cons.IH [OF plain(2) Cons.prems(2)] plain(1) show ?thesis by (simp add: numbers_def)
    next
      case set0
      from Cons.IH [OF set0(3)] Cons.prems(2) set0(1,2) show ?thesis
        by (auto simp: numbers_def nth_list_update)
    qed
  qed simp
  then show "\<not> failed" "length used' = MAX_VULKAN_BINDINGS" "\<forall>k < MAX_VULKAN_BINDINGS. used ! k \<longrightarrow> used' ! k"
    "\<forall>x \<in> set (numbers bound d is). unat x < MAX_VULKAN_BINDINGS \<and> used' ! unat x" by blast+
qed

lemma note_used_halt: "run_insts (note_used bound d) is s = Halt (used', failed) \<Longrightarrow> failed"
  by (induction "is" arbitrary: s) (auto simp: note_used_def split: step.splits if_splits prod.splits)

lemma dup_halt: "run_insts (dup_inst bound d) is s = Halt s' \<Longrightarrow> du_failed s'"
  by (induction "is" arbitrary: s) (auto simp: dup_inst_def split: step.splits if_splits option.splits)

lemma bound_numbers_used:
  "bound_numbers bs used = Some used' \<Longrightarrow> length used = MAX_VULKAN_BINDINGS \<Longrightarrow>
     length used' = MAX_VULKAN_BINDINGS \<and> (\<forall>k < MAX_VULKAN_BINDINGS. used ! k \<longrightarrow> used' ! k)
     \<and> (\<forall>b \<in> set bs. unat b < MAX_VULKAN_BINDINGS \<and> used' ! unat b)"
proof (induction bs arbitrary: used)
  case (Cons b bs)
  then show ?case by (fastforce simp: nth_list_update split: if_splits)
qed simp

text \<open>The instructions of what is written and what is left.\<close>

lemma insts_tail:
  assumes "ws = concat (fst (insts ws)) @ rest" shows "fst (insts rest) = []"
proof -
  have "insts ws = insts (concat (fst (insts ws)) @ rest)" using assms by simp
  also have "\<dots> = (fst (insts ws) @ fst (insts rest), snd (insts rest))"
    by (rule insts_of_concat_append) (simp add: insts_wf)
  finally show ?thesis by (cases "insts ws") simp
qed

lemma patched_sets:
  assumes "list_all2 (patched bound d t) is is'"
  shows "fold (note_descriptor_set bound) is' f = fold (note_descriptor_set bound) is f"
  using assms
proof (induction arbitrary: f rule: list_all2_induct)
  case (Cons w "is" w' is')
  have "note_descriptor_set bound w' f = note_descriptor_set bound w f"
    using Cons.hyps(1) by (auto simp: patched_def note_descriptor_set_def set0_binding_def)
  with Cons.IH show ?case by simp
qed simp

lemma patched_wf: "list_all2 (patched bound d t) is is' \<Longrightarrow> \<forall>w \<in> set is. wf_inst w \<Longrightarrow> \<forall>w \<in> set is'. wf_inst w"
  by (induction rule: list_all2_induct) (auto simp: patched_def wf_update)

lemma patched_length: "list_all2 (patched bound d t) is is' \<Longrightarrow> length (concat is') = length (concat is)"
  by (induction rule: list_all2_induct) (auto simp: patched_def)

lemma duplicates_rewritten:
  assumes res: "rewrite_duplicate_descriptor_bindings oom code bytes bs mb = (True, code', aliases, mb')"
    and ok: "spirv_ok code bytes" and len: "bytes \<le> 4 * length code"
  defines "is \<equiv> fst (insts (spirv_body code bytes))" and "is' \<equiv> fst (insts (spirv_body code' bytes))"
  shows "distinct (set0_numbers code' bytes)"
    and "list_all2 (patched (code ! 3) (descriptor_sets code bytes) (set bs \<union> set (set0_numbers code bytes))) is is'"
    and "only_repeated (code ! 3) (descriptor_sets code bytes) is is'"
    and "aliases = concat (map2 alias_of is is')" and "take 5 code' = take 5 code" "length code' = length code"
proof -
  define bound where "bound = code ! 3"
  define d where "d = descriptor_sets code bytes"
  obtain used0 where used0: "bound_numbers bs (replicate MAX_VULKAN_BINDINGS False) = Some used0"
    using res ok by (auto simp: rewrite_duplicate_descriptor_bindings_def Let_def split: if_splits option.splits)
  have sets: "scan id (\<lambda>w d. Go (note_descriptor_set bound w d)) (spirv_body code bytes) (\<lambda>_. None) = d"
    by (simp add: scan_fold d_def descriptor_sets_def bound_def)
  obtain used failed where used: "scan id (note_used bound d) (spirv_body code bytes) (used0, False) = (used, failed)"
    by fastforce
  define s0 where "s0 = \<lparr>du_done = take 5 code, du_used = used, du_seen = replicate MAX_VULKAN_BINDINGS False,
    du_aliases = [], du_max = mb, du_failed = False\<rparr>"
  define s where "s = scan id (dup_inst bound d) (spirv_body code bytes) s0"
  have f: "\<not> failed" and s: "\<not> du_failed s" "code' = du_done s @ drop (length (du_done s)) code" "aliases = du_aliases s"
    using res ok used0 used sets
    by (auto simp: rewrite_duplicate_descriptor_bindings_def Let_def bound_def [symmetric] s_def s0_def split: if_splits)
  have run1: "run_insts (note_used bound d) is (used0, False) = Go (used, failed)"
    using used f note_used_halt [of bound d "is"] by (auto simp: scan_insts is_def split: step.splits if_splits)
  have run2: "run_insts (dup_inst bound d) is s0 = Go s"
    using s(1) dup_halt [of bound d "is" s0] by (auto simp: s_def scan_insts is_def split: step.splits)
  have u0: "length used0 = MAX_VULKAN_BINDINGS" "\<forall>b \<in> set bs. unat b < MAX_VULKAN_BINDINGS \<and> used0 ! unat b"
    using bound_numbers_used [OF used0] by simp_all
  note n = note_used_run [OF run1 u0(1)]
  have "dup_inv (take 5 code) bound d used [] s0"
    unfolding dup_inv_def by (intro conjI exI [of _ "[]"]) (simp_all add: s0_def n only_repeated_def)
  from dup_run [OF this run2] n(4) have "dup_inv (take 5 code) bound d used is s" by simp
  then obtain pre' where p: "du_done s = take 5 code @ concat pre'"
    "list_all2 (patched bound d {x. unat x < MAX_VULKAN_BINDINGS \<and> used ! unat x}) is pre'"
    "distinct (numbers bound d pre')" "du_aliases s = concat (map2 alias_of is pre')" "only_repeated bound d is pre'"
    unfolding dup_inv_def by blast
  have "set bs \<union> set (set0_numbers code bytes) \<subseteq> {x. unat x < MAX_VULKAN_BINDINGS \<and> used ! unat x}"
    using u0(2) n(3,4) by (auto simp: set0_numbers_def bound_def d_def is_def)
  then have l2: "list_all2 (patched bound d (set bs \<union> set (set0_numbers code bytes))) is pre'"
    using p(2) by (elim list_all2_mono) (auto simp: patched_def)
  obtain rest where rest: "spirv_body code bytes = concat is @ rest" using insts_prefix is_def by blast
  then have empty: "fst (insts rest) = []" using insts_tail is_def by blast
  have wf: "\<forall>w \<in> set pre'. wf_inst w" by (rule patched_wf [OF l2]) (simp add: is_def insts_wf)
  have len5: "5 \<le> length code" and words: "bytes div 4 \<le> length code" using ok len by (auto simp: spirv_ok_def)
  have same: "length (concat pre') = length (concat is)" by (rule patched_length [OF l2])
  have body: "spirv_body code' bytes = concat pre' @ rest"
  proof -
    have "drop (length (concat is)) (drop 5 (take (bytes div 4) code)) = rest" using rest by (simp add: spirv_body_def)
    moreover have "length (concat is) \<le> bytes div 4 - 5"
      using arg_cong [OF rest, of length] words by (simp add: spirv_body_def)
    moreover have "5 \<le> bytes div 4" using ok unfolding spirv_ok_def by linarith
    moreover obtain h where "take 5 code = h" "length h = 5" using len5 by simp
    ultimately show ?thesis using words
      by (simp add: spirv_body_def s(2) p(1) same drop_take add.commute)
  qed
  then have is': "is' = pre'" by (simp add: is'_def insts_of_concat_append [OF wf] empty)
  show t5: "take 5 code' = take 5 code" using len5 by (simp add: s(2) p(1))
  then have b: "code' ! 3 = bound" using header_nth [OF t5, of 3] by (simp add: bound_def)
  show "length code' = length code"
    using len5 arg_cong [OF rest, of length] words by (simp add: s(2) p(1) same spirv_body_def)
  have "descriptor_sets code' bytes = d"
    using patched_sets [OF l2] by (simp add: descriptor_sets_def b is'_def [symmetric] is' d_def bound_def [symmetric] is_def)
  then show "distinct (set0_numbers code' bytes)"
    using p(3) by (simp add: set0_numbers_def b is'_def [symmetric] is')
  show "list_all2 (patched (code ! 3) (descriptor_sets code bytes) (set bs \<union> set (set0_numbers code bytes))) is is'"
    using l2 by (simp add: is' bound_def d_def)
  show "only_repeated (code ! 3) (descriptor_sets code bytes) is is'"
    using p(5) by (simp add: is' bound_def d_def)
  show "aliases = concat (map2 alias_of is is')" using p(4) s(3) by (simp add: is')
qed

end
