(* ===== verification/Spirv_Theorems.thy ===== *)
theory Spirv_Theorems
  imports Spirv_Supply Spirv_Reflect Spirv_Unique
begin

text \<open>
  The properties of the shader passes: materialization keeps the value of every constant, the
  bindings of a rewritten module differ, the summary says what the module declares, and the bounds
  of the work-group size.
\<close>

section \<open>A small module\<close>

text \<open>An identifier 1 with constant number 7 and default 5, and half of it as identifier 3.\<close>

definition spirv_demo_insts :: "u32 list list" where
  "spirv_demo_insts =
     [[inst_head 4 71, 1, 1, 7], [inst_head 4 50, 9, 1, 5], [inst_head 4 43, 9, 2, 2],
      [inst_head 6 52, 9, 3, 134, 1, 2]]"

definition spirv_demo_module :: "u32 list" where
  "spirv_demo_module = [SPIRV_MAGIC, 0x10000, 0, 10, 0] @ concat spirv_demo_insts"

definition spirv_demo_spec :: "dispatch_spec list" where
  "spirv_demo_spec = [\<lparr>sp_id = 7, sp_offset = 0, sp_size = 4\<rparr>]"

definition spirv_demo_mem :: "nat \<Rightarrow> u8" where
  "spirv_demo_mem i = (if i = 0 then 64 else 0)"

lemma spirv_demo_wf: "\<forall>w \<in> set spirv_demo_insts. wf_inst w"
  by (simp add: spirv_demo_insts_def wf_inst_def inst_head)

lemma spirv_demo_body: "spirv_body spirv_demo_module 92 = concat spirv_demo_insts" "spirv_ok spirv_demo_module 92"
  by (simp_all add: spirv_body_def spirv_ok_def spirv_demo_module_def spirv_demo_insts_def)

lemma spirv_demo_insts: "insts (spirv_body spirv_demo_module 92) = (spirv_demo_insts, True)"
  by (simp add: spirv_demo_body insts_of_concat spirv_demo_wf)

lemma spirv_demo_const_module: "const_module (fst (insts (spirv_body spirv_demo_module 92)))"
  by (simp add: spirv_demo_insts) (simp add: spirv_demo_insts_def const_module_def const_shape_def const_result_def inst_head)


lemma spirv_demo_materialized:
  "fst (materialize_spirv_specialization_constants False spirv_demo_module 92 spirv_demo_spec spirv_demo_mem 4)"
  "snd (snd (materialize_spirv_specialization_constants False spirv_demo_module 92 spirv_demo_spec spirv_demo_mem 4)) = 68"
  by code_simp+

section \<open>Specialization constants\<close>

text \<open>C10.
  A successful materialization leaves a well-formed module that is not longer. The executor hands it to
  the driver without specialization values, and there every integer, boolean and composite constant, and
  every constant computed from them by an unsigned division or an extraction, has the value the dispatch
  supplies; the constants of the work-group size keep their defaults, as the pass intends. The module is
  required to define every constant once, with integers of 32 bits, to decorate identifiers below its
  bound, and the dispatch must not supply a value to a boolean: booleans lose their number and keep their
  default.\<close>

theorem materialize_keeps_constants:
  assumes "materialize_spirv_specialization_constants oom code bytes sps mem n = (True, code', bytes')"
    and "bytes \<le> 4 * length code" "const_module (fst (insts (spirv_body code bytes)))"
    and "decorations_bounded (code ! 3) (fst (insts (spirv_body code bytes)))"
    and "booleans_default (specialization_value_for_id sps mem n) (spirv_body code bytes)"
  shows "const_values (\<lambda>_. None) (spirv_body code' bytes')
         = const_values (dispatched (specialization_value_for_id sps mem n) (spirv_body code bytes)) (spirv_body code bytes)
       \<and> snd (insts (spirv_body code' bytes')) \<and> bytes' \<le> bytes"
  using materialized [OF assms(1-3)] dispatched_fits [OF assms(3-5)] by blast

lemma spirv_demo_plain:
  "decorations_bounded (spirv_demo_module ! 3) (fst (insts (spirv_body spirv_demo_module 92)))"
  "booleans_default val (spirv_body spirv_demo_module 92)"
  "\<not> list_ex is_workgroup_builtin (fst (insts (spirv_body spirv_demo_module 92)))"
  by (simp_all add: spirv_demo_insts decorations_bounded_def booleans_default_def)
     (simp_all add: spirv_demo_insts_def spirv_demo_module_def inst_head is_workgroup_builtin_def)

text \<open>The dispatch supplies 64 for the identifier 1; the identifier 3 is half of it.\<close>

lemma spirv_demo_value:
  "fst (const_values (dispatched (specialization_value_for_id spirv_demo_spec spirv_demo_mem 4) (spirv_body spirv_demo_module 92))
     (spirv_body spirv_demo_module 92)) 3 = Some 32"
  unfolding const_values_def dispatched_def workgroup_part_def workgroup_size_def supplied_def spirv_demo_insts
  by code_simp

theorem materialize_keeps_constants_witness:
  "\<exists>code' bytes'. materialize_spirv_specialization_constants False spirv_demo_module 92 spirv_demo_spec spirv_demo_mem 4 = (True, code', bytes')
     \<and> fst (const_values (\<lambda>_. None) (spirv_body code' bytes')) 3 = Some 32"
proof -
  obtain code' bytes' where r: "materialize_spirv_specialization_constants False spirv_demo_module 92 spirv_demo_spec spirv_demo_mem 4
      = (True, code', bytes')" using spirv_demo_materialized(1) by (metis prod.collapse)
  have "92 \<le> 4 * length spirv_demo_module" by (simp add: spirv_demo_module_def spirv_demo_insts_def)
  from materialize_keeps_constants [OF r this spirv_demo_const_module spirv_demo_plain(1,2)] r spirv_demo_value
  show ?thesis by simp
qed

text \<open>A boolean specialization constant, supplied with a one, is still false afterwards.\<close>

definition boolean_module :: "u32 list" where
  "boolean_module = [SPIRV_MAGIC, 0x10000, 0, 10, 0] @ [inst_head 4 71, 1, 1, 7] @ [inst_head 3 49, 9, 1]"

lemma boolean_constant_keeps_default:
  "case materialize_spirv_specialization_constants False boolean_module 48 spirv_demo_spec spirv_demo_mem 4 of
     (ok, code', bytes') \<Rightarrow> ok \<and> fst (const_values (\<lambda>_. None) (spirv_body code' bytes')) 1 = Some 0
       \<and> fst (const_values (supplied (specialization_value_for_id spirv_demo_spec spirv_demo_mem 4)
                (spirv_body boolean_module 48)) (spirv_body boolean_module 48)) 1 = Some 1"
  by code_simp

text \<open>C36.
  Without a work-group size built-in nothing is left to specialize: whatever values the driver is given
  later, the integer, boolean and composite constants of the materialized module have the values of this
  dispatch. The module is as above: 32-bit integers, one definition for each constant, decorated
  identifiers below the bound, and no value supplied to a boolean.\<close>

theorem materialized_needs_no_values:
  assumes res: "materialize_spirv_specialization_constants oom code bytes sps mem n = (True, code', bytes')"
    and len: "bytes \<le> 4 * length code" and module: "const_module (fst (insts (spirv_body code bytes)))"
    and below: "decorations_bounded (code ! 3) (fst (insts (spirv_body code bytes)))"
    and bool: "booleans_default (specialization_value_for_id sps mem n) (spirv_body code bytes)"
    and plain: "\<not> list_ex is_workgroup_builtin (fst (insts (spirv_body code bytes)))"
  shows "const_values (supplied later (spirv_body code' bytes')) (spirv_body code' bytes')
         = const_values (supplied (specialization_value_for_id sps mem n) (spirv_body code bytes)) (spirv_body code bytes)"
proof -
  have fit: "\<forall>w \<in> set (fst (insts (spirv_body code bytes))).
      fits (code ! 3) (spec_tables_of (code ! 3) (spirv_body code bytes)) (specialization_value_for_id sps mem n)
        (\<lambda>_. None) (dispatched (specialization_value_for_id sps mem n) (spirv_body code bytes)) w"
    using dispatched_fits [OF module below bool] by blast
  have "supplied later (spirv_body code' bytes') = (\<lambda>_. None)"
    using materialized(5) [OF res len module fit] nothing_left(2) [OF below module plain]
    by (simp add: supplied_def given_def fun_eq_iff)
  moreover have "dispatched (specialization_value_for_id sps mem n) (spirv_body code bytes)
      = supplied (specialization_value_for_id sps mem n) (spirv_body code bytes)"
    using nothing_left(1) [OF below module plain] by (simp add: dispatched_def fun_eq_iff)
  ultimately show ?thesis using materialized(1) [OF res len module fit] by simp
qed

theorem materialized_needs_no_values_witness:
  "\<exists>code' bytes'. materialize_spirv_specialization_constants False spirv_demo_module 92 spirv_demo_spec spirv_demo_mem 4 = (True, code', bytes')
     \<and> const_values (supplied (\<lambda>_. Some 9) (spirv_body code' bytes')) (spirv_body code' bytes')
       = const_values (supplied (specialization_value_for_id spirv_demo_spec spirv_demo_mem 4) (spirv_body spirv_demo_module 92))
           (spirv_body spirv_demo_module 92)"
proof -
  obtain code' bytes' where r: "materialize_spirv_specialization_constants False spirv_demo_module 92 spirv_demo_spec spirv_demo_mem 4
      = (True, code', bytes')" using spirv_demo_materialized(1) by (metis prod.collapse)
  have "92 \<le> 4 * length spirv_demo_module" by (simp add: spirv_demo_module_def spirv_demo_insts_def)
  from materialized_needs_no_values [OF r this spirv_demo_const_module spirv_demo_plain, of "\<lambda>_. Some 9"] r show ?thesis by blast
qed

text \<open>C37.
  The key of the pipeline cache depends on the constants and their values alone: two dispatches with
  the same constant numbers, sizes and bytes have the same key, wherever the bytes lie in the block.\<close>

theorem specialization_key_canonical:
  assumes "list_all2 (\<lambda>a b. sp_id a = sp_id b \<and> sp_size a = sp_size b
      \<and> unat (sp_offset a) + unat (sp_size a) \<le> unat n \<and> unat (sp_offset b) + unat (sp_size b) \<le> unat n'
      \<and> mem_bytes mem (unat (sp_offset a)) (unat (sp_size a)) = mem_bytes mem' (unat (sp_offset b)) (unat (sp_size b)))
    sps sps'"
  shows "pipeline_specialization_hash sps mem n = pipeline_specialization_hash sps' mem' n'"
proof -
  have inside: "ucast (sp_offset a) \<le> m \<and> sp_size a \<le> m - ucast (sp_offset a)"
    if "unat (sp_offset a) + unat (sp_size a) \<le> unat m" for a :: dispatch_spec and m :: u64
  proof -
    have le: "ucast (sp_offset a) \<le> m" using that by (simp add: word_le_nat_alt unat_widen)
    then have "unat (m - ucast (sp_offset a)) = unat m - unat (sp_offset a)" by (simp add: unat_sub unat_widen)
    with le that show ?thesis by (simp add: word_le_nat_alt)
  qed
  have "fold (hash_specialization mem n) sps h = fold (hash_specialization mem' n') sps' h" for h
    using assms
  proof (induction arbitrary: h rule: list_all2_induct)
    case (Cons a as b bs)
    have ab: "ucast (sp_offset a) \<le> n \<and> sp_size a \<le> n - ucast (sp_offset a)"
      "ucast (sp_offset b) \<le> n' \<and> sp_size b \<le> n' - ucast (sp_offset b)"
      by (rule inside, use Cons.hyps(1) in blast)+
    have "hash_specialization mem n a h = hash_specialization mem' n' b h"
      unfolding hash_specialization_def Let_def if_P [OF ab(1)] if_P [OF ab(2)]
      using Cons.hyps(1) by metis
    with Cons.IH show ?case by simp
  qed simp
  then show ?thesis using list_all2_lengthD [OF assms] by (simp add: pipeline_specialization_hash_def)
qed

theorem specialization_key_canonical_witness:
  "pipeline_specialization_hash spirv_demo_spec spirv_demo_mem 4
   = pipeline_specialization_hash [\<lparr>sp_id = 7, sp_offset = 8, sp_size = 4\<rparr>] (\<lambda>i. if i = 8 then 64 else 0) 12"
  by (rule specialization_key_canonical) (simp add: spirv_demo_spec_def spirv_demo_mem_def mem_bytes_def upt_rec)

section \<open>Descriptor bindings\<close>

text \<open>C11.
  After the rewriting of duplicate bindings the variables of descriptor set 0 have different binding
  numbers. An instruction has changed exactly when it decorates a variable of set 0 with a number that an
  earlier one already has; only its number has changed, to one that neither the dispatch nor the module
  uses; and the list of aliases records exactly these changes.\<close>

theorem duplicate_bindings_resolved:
  assumes "rewrite_duplicate_descriptor_bindings oom code bytes bs mb = (True, code', aliases, mb')"
    and "spirv_ok code bytes" "bytes \<le> 4 * length code"
  shows "distinct (set0_numbers code' bytes)
    \<and> list_all2 (patched (code ! 3) (descriptor_sets code bytes) (set bs \<union> set (set0_numbers code bytes)))
        (fst (insts (spirv_body code bytes))) (fst (insts (spirv_body code' bytes)))
    \<and> only_repeated (code ! 3) (descriptor_sets code bytes)
        (fst (insts (spirv_body code bytes))) (fst (insts (spirv_body code' bytes)))
    \<and> aliases = concat (map2 alias_of (fst (insts (spirv_body code bytes))) (fst (insts (spirv_body code' bytes))))"
  using duplicates_rewritten [OF assms] by blast

definition spirv_demo_bindings :: "u32 list" where
  "spirv_demo_bindings = [SPIRV_MAGIC, 0x10000, 0, 10, 0,
     inst_head 4 71, 1, 34, 0, inst_head 4 71, 1, 33, 0, inst_head 4 71, 2, 34, 0, inst_head 4 71, 2, 33, 0]"

definition spirv_demo_decorations :: "u32 list list" where
  "spirv_demo_decorations = [[inst_head 4 71, 1, 34, 0], [inst_head 4 71, 1, 33, 0],
     [inst_head 4 71, 2, 34, 0], [inst_head 4 71, 2, 33, 0]]"

lemma spirv_demo_decorations: "insts (spirv_body spirv_demo_bindings 84) = (spirv_demo_decorations, True)"
proof -
  have "spirv_body spirv_demo_bindings 84 = concat spirv_demo_decorations"
    by (simp add: spirv_body_def spirv_demo_bindings_def spirv_demo_decorations_def)
  moreover have "\<forall>w \<in> set spirv_demo_decorations. wf_inst w"
    by (simp add: spirv_demo_decorations_def wf_inst_def inst_head)
  ultimately show ?thesis by (simp add: insts_of_concat)
qed

lemma spirv_demo_table: "replicate MAX_VULKAN_BINDINGS False
    = [False, False, False, False, False, False, False, False, False, False, False, False, False, False, False, False]"
  by (simp add: MAX_VULKAN_BINDINGS_def eval_nat_numeral)

lemma spirv_demo_free: "free_binding (True # False # used) = Some 1"
  by (simp add: free_binding_def MAX_VULKAN_BINDINGS_def upt_rec)

lemma spirv_demo_rewritten:
  "fst (rewrite_duplicate_descriptor_bindings False spirv_demo_bindings 84 [0] 0) \<and>
   fst (snd (snd (rewrite_duplicate_descriptor_bindings False spirv_demo_bindings 84 [0] 0)))
     = [\<lparr>ba_target = 2, ba_original = 0, ba_rewritten = 1\<rparr>]"
proof -
  have ok: "spirv_ok spirv_demo_bindings 84" "spirv_demo_bindings ! 3 = 10" by (simp_all add: spirv_ok_def spirv_demo_bindings_def)
  have range: "0 < MAX_VULKAN_BINDINGS" by (simp add: MAX_VULKAN_BINDINGS_def)
  show ?thesis
    unfolding rewrite_duplicate_descriptor_bindings_def scan_insts spirv_demo_decorations ok(2) Let_def spirv_demo_table
    by (simp add: ok(1) spirv_demo_decorations_def note_descriptor_set_def note_used_app set0_binding_def inst_head
        range dup_inst_def spirv_demo_free)
qed

theorem duplicate_bindings_resolved_witness:
  "distinct (set0_numbers (fst (snd (rewrite_duplicate_descriptor_bindings False spirv_demo_bindings 84 [0] 0))) 84)
   \<and> fst (snd (snd (rewrite_duplicate_descriptor_bindings False spirv_demo_bindings 84 [0] 0)))
     = [\<lparr>ba_target = 2, ba_original = 0, ba_rewritten = 1\<rparr>]"
proof -
  let ?r = "rewrite_duplicate_descriptor_bindings False spirv_demo_bindings 84 [0] 0"
  have r: "?r = (True, fst (snd ?r), fst (snd (snd ?r)), snd (snd (snd ?r)))"
    using spirv_demo_rewritten by (simp add: prod_eq_iff)
  have "spirv_ok spirv_demo_bindings 84" "84 \<le> 4 * length spirv_demo_bindings" by (simp_all add: spirv_ok_def spirv_demo_bindings_def)
  from duplicate_bindings_resolved [OF r this] spirv_demo_rewritten show ?thesis by simp
qed

section \<open>The summary\<close>

definition declared :: "u32 list \<Rightarrow> nat \<Rightarrow> u32 set" where
  "declared code bytes =
     {w ! 1 | w. w \<in> set (fst (insts (spirv_body code bytes))) \<and> opcode w = 17 \<and> 2 \<le> length w}"

definition summary_inv :: "u32 set \<Rightarrow> spirv_summary \<Rightarrow> bool" where
  "summary_inv caps s \<longleftrightarrow>
     distinct (su_capabilities s) \<and> set (su_capabilities s) \<subseteq> caps \<and> length (su_capabilities s) \<le> MAX_CAPABILITIES
     \<and> (su_float16 s \<longleftrightarrow> 9 \<in> caps) \<and> (su_int64 s \<longleftrightarrow> 11 \<in> caps \<or> 12 \<in> caps) \<and> (su_int16 s \<longleftrightarrow> 22 \<in> caps)
     \<and> (su_int8 s \<longleftrightarrow> 39 \<in> caps) \<and> (su_storage16_buffer s \<longleftrightarrow> 4433 \<in> caps)
     \<and> (su_storage16_uniform s \<longleftrightarrow> 4434 \<in> caps) \<and> (su_storage16_push s \<longleftrightarrow> 4435 \<in> caps)
     \<and> (su_storage16 s \<longleftrightarrow> 4433 \<in> caps \<or> 4434 \<in> caps \<or> 4435 \<in> caps)
     \<and> (su_storage8_buffer s \<longleftrightarrow> 4448 \<in> caps) \<and> (su_storage8_uniform s \<longleftrightarrow> 4449 \<in> caps)
     \<and> (su_storage8_push s \<longleftrightarrow> 4450 \<in> caps) \<and> (su_storage8 s \<longleftrightarrow> 4448 \<in> caps \<or> 4449 \<in> caps \<or> 4450 \<in> caps)
     \<and> (su_subgroup s \<longleftrightarrow> 63 \<in> caps)"

lemma require_capability_simps:
  "su_float16 (require_capability c s) \<longleftrightarrow> c = 9 \<or> su_float16 s"
  "su_int64 (require_capability c s) \<longleftrightarrow> c = 11 \<or> c = 12 \<or> su_int64 s"
  "su_int16 (require_capability c s) \<longleftrightarrow> c = 22 \<or> su_int16 s"
  "su_int8 (require_capability c s) \<longleftrightarrow> c = 39 \<or> su_int8 s"
  "su_storage16_buffer (require_capability c s) \<longleftrightarrow> c = 4433 \<or> su_storage16_buffer s"
  "su_storage16_uniform (require_capability c s) \<longleftrightarrow> c = 4434 \<or> su_storage16_uniform s"
  "su_storage16_push (require_capability c s) \<longleftrightarrow> c = 4435 \<or> su_storage16_push s"
  "su_storage16 (require_capability c s) \<longleftrightarrow> c = 4433 \<or> c = 4434 \<or> c = 4435 \<or> su_storage16 s"
  "su_storage8_buffer (require_capability c s) \<longleftrightarrow> c = 4448 \<or> su_storage8_buffer s"
  "su_storage8_uniform (require_capability c s) \<longleftrightarrow> c = 4449 \<or> su_storage8_uniform s"
  "su_storage8_push (require_capability c s) \<longleftrightarrow> c = 4450 \<or> su_storage8_push s"
  "su_storage8 (require_capability c s) \<longleftrightarrow> c = 4448 \<or> c = 4449 \<or> c = 4450 \<or> su_storage8 s"
  "su_subgroup (require_capability c s) \<longleftrightarrow> c = 63 \<or> su_subgroup s"
  "su_capabilities (require_capability c s) = su_capabilities s"
  "su_valid (require_capability c s) = su_valid s"
  "su_truncated (require_capability c s) = su_truncated s"
  by (simp_all add: require_capability_def)

lemma require_capability_inv:
  "summary_inv caps s \<Longrightarrow> summary_inv (insert c caps) (require_capability c s)"
  unfolding summary_inv_def require_capability_simps 
  by (elim conjE, intro conjI; simp add: disj_ac subset_insertI2)

lemma remember_capability_inv:
  "summary_inv caps s \<Longrightarrow> c \<notin> set (su_capabilities s) \<Longrightarrow> length (su_capabilities s) < MAX_CAPABILITIES
     \<Longrightarrow> summary_inv (insert c caps) (require_capability c (s\<lparr>su_capabilities := su_capabilities s @ [c]\<rparr>))"
  unfolding summary_inv_def require_capability_simps 
  by (elim conjE, intro conjI; simp add: disj_ac subset_insertI2)

definition inst_capability :: "u32 list \<Rightarrow> u32 set" where
  "inst_capability w = (if opcode w = 17 \<and> 2 \<le> length w then {w ! 1} else {})"

lemma summarize_inst_inv:
  "summary_inv caps s \<Longrightarrow> summary_inv (inst_capability w \<union> caps) (summarize_inst w s)"
  by (simp add: summarize_inst_def inst_capability_def require_capability_inv remember_capability_inv)
     (simp add: summary_inv_def)

lemma fold_summarize_inv:
  "summary_inv caps s \<Longrightarrow> summary_inv ((\<Union>w \<in> set is. inst_capability w) \<union> caps) (fold summarize_inst is s)"
proof (induction "is" arbitrary: s caps)
  case (Cons w "is")
  from Cons.IH [OF summarize_inst_inv [OF Cons.prems, of w]] show ?case by (simp add: Un_ac)
qed simp

lemma summarize_inst_flags [simp]:
  "su_valid (fold summarize_inst is s) = su_valid s" "su_truncated (fold summarize_inst is s) = su_truncated s"
  by (induction "is" arbitrary: s) (simp_all add: summarize_inst_def require_capability_simps)

lemma summary_inv_truncated [simp]: "summary_inv caps (s\<lparr>su_truncated := b\<rparr>) = summary_inv caps s"
  by (simp add: summary_inv_def)

lemma declared_Union: "declared code bytes = (\<Union>w \<in> set (fst (insts (spirv_body code bytes))). inst_capability w)"
  by (auto simp: declared_def inst_capability_def split: if_splits)

text \<open>
  The summary of a module lists different capabilities the module declares, 24 at most; each
  requirement flag is set exactly when a capability that asks for it is declared, also when the list
  is full; and the summary is marked truncated exactly when an instruction is malformed.\<close>

theorem summary_reports_capabilities:
  assumes "spirv_ok code bytes"
  defines "s \<equiv> summarize_spirv (Some code) bytes"
  shows "summary_inv (declared code bytes) s \<and> su_valid s \<and> (su_truncated s \<longleftrightarrow> \<not> snd (insts (spirv_body code bytes)))"
proof -
  define s1 where "s1 = empty_summary\<lparr>su_hash := fnv1a64_update FNV_BASIS (code_bytes code bytes),
      su_magic := code ! 0, su_version := code ! 1, su_bound := code ! 3, su_valid := True\<rparr>"
  have s: "s = scan (\<lambda>s. s\<lparr>su_truncated := True\<rparr>) (\<lambda>w s. Go (summarize_inst w s)) (spirv_body code bytes) s1"
    using assms(1) by (simp add: s_def s1_def summarize_spirv_def spirv_ok_def Let_def)
  have start: "summary_inv {} s1" "su_valid s1" "\<not> su_truncated s1"
    by (simp_all add: summary_inv_def s1_def empty_summary_def)
  from fold_summarize_inv [OF start(1)]
  have "summary_inv (declared code bytes) (fold summarize_inst (fst (insts (spirv_body code bytes))) s1)"
    by (simp add: declared_Union)
  with start(2,3) show ?thesis by (simp add: s scan_fold)
qed

theorem summary_reports_capabilities_witness:
  "su_valid (summarize_spirv (Some spirv_demo_module) 92) \<and> \<not> su_int64 (summarize_spirv (Some spirv_demo_module) 92)"
  using summary_reports_capabilities [OF spirv_demo_body(2)]
  by (simp add: summary_inv_def declared_def spirv_demo_insts) (simp add: spirv_demo_insts_def inst_head)

section \<open>The size of a work group\<close>

lemma invocation_product_Some:
  assumes "1 \<le> unat p" "unat p \<le> 1024"
  shows "invocation_product ns p = Some q \<longleftrightarrow>
     (\<forall>n \<in> set ns. 1 \<le> unat n \<and> unat n \<le> 1024) \<and> unat p * prod_list (map unat ns) \<le> 1024
     \<and> unat q = unat p * prod_list (map unat ns)"
  using assms
proof (induction ns arbitrary: p)
  case Nil
  then show ?case by (auto simp: word_unat_eq_iff)
next
  case (Cons n ns)
  show ?case
  proof (cases "n = 0 \<or> 1024 < n")
    case True
    then have "\<not> (1 \<le> unat n \<and> unat n \<le> 1024)" by (auto simp: word_less_nat_alt unat_gt_0 Suc_le_eq)
    with True show ?thesis by auto
  next
    case False
    then have n: "1 \<le> unat n" "unat n \<le> 1024" by (auto simp: word_less_nat_alt unat_gt_0 Suc_le_eq)
    have small: "unat p * unat n \<le> 1024 * 1024" by (rule mult_le_mono [OF Cons.prems(2) n(2)])
    then have pn: "unat (p * n) = unat p * unat n" by (simp add: unat_mult_lem [THEN iffD1])
    have "unat p * unat n \<le> unat (- 1 :: u64)" using small by (simp add: unsigned_minus_1_eq_mask mask_eq_exp_minus_1)
    then have "unat p \<le> unat (- 1 :: u64) div unat n" using n(1) by (simp add: less_eq_div_iff_mult_less_eq)
    then have room: "\<not> (- 1) div n < p" by (simp add: word_less_nat_alt unat_div not_less)
    show ?thesis
    proof (cases "unat p * unat n \<le> 1024")
      case True
      then have "\<not> 1024 < p * n" by (simp add: word_less_nat_alt pn)
      moreover have "1 \<le> unat (p * n)" using Cons.prems(1) n(1) by (simp add: pn)
      ultimately show ?thesis using Cons.IH [of "p * n"] True False n room by (simp add: pn mult.assoc)
    next
      case big: False
      then have "1024 < p * n" by (simp add: word_less_nat_alt pn)
      moreover have "\<not> unat p * (unat n * prod_list (map unat ns)) \<le> 1024"
        if "\<forall>n \<in> set ns. 1 \<le> unat n"
      proof -
        have "1 \<le> prod_list (map unat ns)" using that by (induction ns) (auto simp: Suc_le_eq)
        then have "unat p * unat n * 1 \<le> unat p * unat n * prod_list (map unat ns)" by (rule mult_le_mono2)
        with big show ?thesis unfolding mult.assoc mult_1_right by linarith
      qed
      ultimately show ?thesis using False room by auto
    qed
  qed
qed

text \<open>C38.
  The number of invocations of a work group is accepted exactly when every dimension is between 1
  and 1024 and their product, as a number without wrap-around, is at most 1024; it is that product.\<close>

theorem invocation_count_exact:
  "spirv_local_invocation_count ns = Some q \<longleftrightarrow>
     (\<forall>n \<in> set ns. 1 \<le> unat n \<and> unat n \<le> 1024) \<and> prod_list (map unat ns) \<le> 1024
     \<and> unat q = prod_list (map unat ns)"
proof -
  have range: "1 \<le> q \<and> q \<le> 1024" if "invocation_product ns 1 = Some q" for q
  proof -
    have all: "\<forall>n \<in> set ns. 1 \<le> unat n" and "unat q = prod_list (map unat ns)" "unat q \<le> 1024"
      using that invocation_product_Some [of 1 ns q] by auto
    moreover have "1 \<le> prod_list (map unat ns)" using all by (induction ns) (auto simp: Suc_le_eq)
    ultimately show ?thesis by (simp add: word_le_nat_alt)
  qed
  have "spirv_local_invocation_count ns = invocation_product ns 1"
    using range by (auto simp: spirv_local_invocation_count_def split: option.split)
  then show ?thesis using invocation_product_Some [of 1 ns q] by simp
qed

theorem invocation_count_exact_witness:
  "spirv_local_invocation_count [64, 16, 1] = Some 1024 \<and> spirv_local_invocation_count [64, 17, 1] \<noteq> Some 1088"
  by (simp add: invocation_count_exact)

end
