(* ===== verification/Gpu_Text.thy ===== *)
theory Gpu_Text
  imports Memory_Guard Spirv_Constants
begin

text \<open>
  The text both ends of the GPU bridge write and read: numbers as \<open>printf\<close> writes and \<open>strtoull\<close>
  reads them, tokens separated by blanks (\<open>strtok_r\<close>), bytes in hexadecimal, and switches in
  environment variables. \<open>unsigned long\<close> has 64 bits, as on the phones the executor runs on.
\<close>

section \<open>Numbers\<close>

definition digit_char :: "nat \<Rightarrow> char" where
  "digit_char d = ''0123456789'' ! d"

text \<open>\<open>%u\<close>, \<open>%llu\<close> and \<open>%zu\<close>.\<close>

function decimal :: "nat \<Rightarrow> string" where
  "decimal n = (if n < 10 then [digit_char n] else decimal (n div 10) @ [digit_char (n mod 10)])"
  by pat_completeness auto
termination by (relation "measure id") auto

declare decimal.simps [simp del]

definition digit_val :: "char \<Rightarrow> nat" where
  "digit_val c =
     (let n = of_char c
      in if 48 \<le> n \<and> n \<le> 57 then n - 48
         else if 97 \<le> n \<and> n \<le> 122 then n - 87
         else if 65 \<le> n \<and> n \<le> 90 then n - 55 else 99)"

definition value_in :: "nat \<Rightarrow> string \<Rightarrow> nat" where
  "value_in base ds = foldl (\<lambda>n c. base * n + digit_val c) 0 ds"

text \<open>
  The common part of \<open>strtoull\<close>, \<open>strtoll\<close> and their like: white space, a sign, the prefix \<open>0x\<close>
  where the base allows it, digits. \<open>None\<close> when there is no digit, otherwise whether the number is
  negative, its magnitude and the text behind it.
\<close>

definition scan_number :: "nat \<Rightarrow> string \<Rightarrow> (bool \<times> nat \<times> string) option" where
  "scan_number base s =
     (let t = dropWhile is_space s;
          signed = t \<noteq> [] \<and> hd t \<in> {CHR ''+'', CHR ''-''};
          u = (if signed then tl t else t);
          hex = ((base = 0 \<or> base = 16) \<and> 2 < length u \<and> u ! 0 = CHR ''0'' \<and> u ! 1 \<in> {CHR ''x'', CHR ''X''}
            \<and> digit_val (u ! 2) < 16);
          b = (if base \<noteq> 0 then base else if hex then 16 else if u \<noteq> [] \<and> hd u = CHR ''0'' then 8 else 10);
          v = (if hex then drop 2 u else u);
          ds = takeWhile (\<lambda>c. digit_val c < b) v
      in if ds = [] then None else Some (signed \<and> hd t = CHR ''-'', value_in b ds, drop (length ds) v))"

text \<open>The value and the text \<open>*end\<close> points to.\<close>

definition strtoull :: "nat \<Rightarrow> string \<Rightarrow> u64 \<times> string" where
  "strtoull base s =
     (case scan_number base s of
        None \<Rightarrow> (0, s)
      | Some (neg, n, rest) \<Rightarrow>
          (if 2 ^ 64 \<le> n then - 1 else if neg then - of_nat n else of_nat n, rest))"

definition strtoll :: "nat \<Rightarrow> string \<Rightarrow> u64 \<times> string" where
  "strtoll base s =
     (case scan_number base s of
        None \<Rightarrow> (0, s)
      | Some (neg, n, rest) \<Rightarrow>
          (if neg then of_int (max (- (2 ^ 63)) (- int n)) else of_nat (min n (2 ^ 63 - 1)), rest))"

lemma ten_cases:
  assumes "d < (10::nat)" "P 0" "P 1" "P 2" "P 3" "P 4" "P 5" "P 6" "P 7" "P 8" "P 9" shows "P d"
proof -
  have "d \<in> {0, 1, 2, 3, 4, 5, 6, 7, 8, 9}" using assms(1) by auto
  then show ?thesis using assms by auto
qed

lemma digit_char_val [simp]: "d < 10 \<Longrightarrow> digit_val (digit_char d) = d"
  by (erule ten_cases) (simp_all add: digit_val_def digit_char_def)

lemma digit_char_plain: "d < 10 \<Longrightarrow> digit_char d \<in> set ''0123456789''"
  unfolding digit_char_def by (rule nth_mem) simp

lemma digit_char_zero: "d < 10 \<Longrightarrow> d \<noteq> 0 \<longrightarrow> digit_char d \<noteq> CHR ''0''"
  by (erule ten_cases) (simp_all add: digit_char_def)

lemma unat64: "unat (w :: u64) < 18446744073709551616"
proof -
  have "unat w < 2 ^ 64" using unsigned_less [of w] by simp
  then show ?thesis by simp
qed

lemma decimal_digits: "set (decimal n) \<subseteq> set ''0123456789''"
proof (induction n rule: decimal.induct)
  case (1 n)
  show ?case
  proof (cases "n < 10")
    case True
    then show ?thesis using digit_char_plain [of n] by (simp add: decimal.simps [of n])
  next
    case False
    have "digit_char (n mod 10) \<in> set ''0123456789''" by (rule digit_char_plain) simp
    with 1 [OF False] False show ?thesis by (simp add: decimal.simps [of n])
  qed
qed

lemma decimal_nonempty [simp]: "decimal n \<noteq> []"
  by (subst decimal.simps) simp

lemma value_decimal: "value_in 10 (decimal n) = n"
proof (induction n rule: decimal.induct)
  case (1 n)
  show ?case
  proof (cases "n < 10")
    case True
    then show ?thesis by (subst decimal.simps) (simp add: value_in_def)
  next
    case False
    with 1 [OF False] show ?thesis by (subst decimal.simps) (simp add: value_in_def)
  qed
qed

lemma digit_plain: "c \<in> set ''0123456789'' \<Longrightarrow> digit_val c < 10 \<and> \<not> is_space c \<and> c \<notin> {CHR ''+'', CHR ''-''}"
  by (auto simp: digit_val_def is_space_def)

lemma scan_decimal: "scan_number 10 (decimal n) = Some (False, n, [])"
proof -
  obtain c cs where d: "decimal n = c # cs" by (cases "decimal n") auto
  have c: "c \<in> set ''0123456789''" using decimal_digits [of n] by (simp add: d)
  have all: "\<forall>x \<in> set cs. digit_val x < 10" using decimal_digits [of n] digit_plain unfolding d by auto
  then have tw: "takeWhile (\<lambda>c. digit_val c < 10) cs = cs" by (simp add: takeWhile_eq_all_conv)
  with value_decimal [of n] digit_plain [OF c] show ?thesis
    by (simp add: scan_number_def Let_def d tw)
qed

text \<open>No leading zero, so base 0 reads the same.\<close>

lemma decimal_head: "10 \<le> n \<Longrightarrow> hd (decimal n) \<noteq> CHR ''0''"
proof (induction n rule: decimal.induct)
  case (1 n)
  then have n: "\<not> n < 10" by simp
  have h: "hd (decimal n) = hd (decimal (n div 10))" by (subst decimal.simps) (simp add: n)
  show ?case
  proof (cases "10 \<le> n div 10")
    case True
    with 1 n h show ?thesis by simp
  next
    case False
    then have "n div 10 < 10" "0 < n div 10" using n by auto
    with digit_char_zero [of "n div 10"] show ?thesis unfolding h by (subst decimal.simps) simp
  qed
qed

lemma scan_decimal_any: "scan_number 0 (decimal n) = Some (False, n, [])"
proof (cases "n = 0")
  case True
  have "decimal 0 = ''0''" by (subst decimal.simps) (simp add: digit_char_def)
  moreover have "scan_number 0 ''0'' = Some (False, 0, [])" by code_simp
  ultimately show ?thesis using True by simp
next
  case False
  obtain c cs where d: "decimal n = c # cs" by (cases "decimal n") auto
  have c: "c \<in> set ''0123456789''" using decimal_digits [of n] by (simp add: d)
  have nz: "c \<noteq> CHR ''0''"
  proof (cases "10 \<le> n")
    case True
    with decimal_head [of n] show ?thesis by (simp add: d)
  next
    case False
    then have "decimal n = [digit_char n]" by (subst decimal.simps) simp
    with digit_char_zero [of n] \<open>n \<noteq> 0\<close> False d show ?thesis by simp
  qed
  have all: "\<forall>x \<in> set cs. digit_val x < 10" using decimal_digits [of n] digit_plain unfolding d by auto
  then have tw: "takeWhile (\<lambda>c. digit_val c < 10) cs = cs" by (simp add: takeWhile_eq_all_conv)
  with value_decimal [of n] digit_plain [OF c] nz show ?thesis
    by (simp add: scan_number_def Let_def d tw)
qed

lemma strtoull_decimal: "n < 2 ^ 64 \<Longrightarrow> strtoull 10 (decimal n) = (of_nat n, [])"
  by (simp add: strtoull_def scan_decimal)

lemma strtoull_word [simp]: "strtoull 10 (decimal (unat (w :: u64))) = (w, [])"
  using unat64 [of w] by (simp add: strtoull_decimal)

lemma strtoull_word_any [simp]: "strtoull 0 (decimal (unat (w :: u64))) = (w, [])"
  using unat64 [of w] by (simp add: strtoull_def scan_decimal_any)

lemma strtoull_word32: "strtoull 10 (decimal (unat (w :: u32))) = (ucast w, [])"
  using strtoull_word [of "ucast w"] by (simp only: unat_widen)

lemma strtoll_word: "unat w < 2 ^ 63 \<Longrightarrow> strtoll 10 (decimal (unat (w :: u64))) = (w, [])"
  by (simp add: strtoll_def scan_decimal min_def)

section \<open>Tokens\<close>

text \<open>The tokens successive calls of \<open>strtok_r (s, " ")\<close> return.\<close>

function tokens :: "string \<Rightarrow> string list" where
  "tokens s =
     (let t = dropWhile (\<lambda>c. c = CHR '' '') s
      in if t = [] then []
         else takeWhile (\<lambda>c. c \<noteq> CHR '' '') t # tokens (dropWhile (\<lambda>c. c \<noteq> CHR '' '') t))"
  by pat_completeness auto
termination
proof (relation "measure length", goal_cases)
  case (2 s t)
  then obtain x xs where t: "t = x # xs" "x \<noteq> CHR '' ''"
    by (metis (full_types) hd_dropWhile list.collapse)
  have "length (dropWhile (\<lambda>c. c \<noteq> CHR '' '') t) \<le> length xs"
    using t length_dropWhile_le [of _ xs] by simp
  moreover have "length t \<le> length s" unfolding 2 by (rule length_dropWhile_le)
  ultimately show ?case using t by simp
qed simp

declare tokens.simps [simp del]

text \<open>A token as the two ends exchange it.\<close>

definition plain_word :: "string \<Rightarrow> bool" where
  "plain_word w \<longleftrightarrow> w \<noteq> [] \<and> (\<forall>c \<in> set w. c \<notin> {CHR '' '', CHR 0x0A, CHR 0x0D, CHR 0x00})"

definition spaced :: "string list \<Rightarrow> string" where
  "spaced ws = concat (map (\<lambda>w. CHR '' '' # w) ws)"

lemma tokens_Nil [simp]: "tokens [] = []"
  by (subst tokens.simps) simp

lemma tokens_blank [simp]: "tokens (CHR '' '' # s) = tokens s"
  by (subst tokens.simps, subst (2) tokens.simps) simp

lemma tokens_word:
  assumes w: "plain_word w" and s: "s = [] \<or> hd s = CHR '' ''"
  shows "tokens (w @ s) = w # tokens s"
proof -
  obtain c cs where cs: "w = c # cs" "c \<noteq> CHR '' ''" using w by (cases w) (auto simp: plain_word_def)
  have all: "\<forall>x \<in> set w. x \<noteq> CHR '' ''" using w by (auto simp: plain_word_def)
  have "dropWhile (\<lambda>c. c = CHR '' '') (w @ s) = w @ s" using cs by simp
  moreover have "takeWhile (\<lambda>c. c \<noteq> CHR '' '') (w @ s) = w @ takeWhile (\<lambda>c. c \<noteq> CHR '' '') s"
    "dropWhile (\<lambda>c. c \<noteq> CHR '' '') (w @ s) = dropWhile (\<lambda>c. c \<noteq> CHR '' '') s"
    using all by (simp_all add: takeWhile_append2 dropWhile_append2)
  moreover have "takeWhile (\<lambda>c. c \<noteq> CHR '' '') s = []" "dropWhile (\<lambda>c. c \<noteq> CHR '' '') s = s"
    using s by (cases s; simp)+
  ultimately show ?thesis using cs(1) by (subst tokens.simps) simp
qed

lemma spaced_Nil [simp]: "spaced [] = []"
  by (simp add: spaced_def)

lemma spaced_Cons [simp]: "spaced (w # ws) = CHR '' '' # w @ spaced ws"
  by (simp add: spaced_def)

lemma spaced_append: "spaced (a @ b) = spaced a @ spaced b"
  by (simp add: spaced_def)

lemma tokens_spaced: "\<forall>w \<in> set ws. plain_word w \<Longrightarrow> tokens (spaced ws) = ws"
proof (induction ws)
  case (Cons w ws)
  have "spaced ws = [] \<or> hd (spaced ws) = CHR '' ''" by (cases ws) simp_all
  with Cons show ?case by (simp add: tokens_word)
qed simp

lemma decimal_plain [simp]: "plain_word (decimal n)"
  using decimal_digits [of n] by (auto simp: plain_word_def)

section \<open>Bytes in hexadecimal\<close>

definition hex_char :: "u8 \<Rightarrow> char" where
  "hex_char d = ''0123456789abcdef'' ! unat d"

definition hex_encode :: "u8 list \<Rightarrow> nat \<Rightarrow> string" where
  "hex_encode src dst_size =
     concat (map (\<lambda>b. [hex_char (drop_bit 4 b AND 0xf), hex_char (b AND 0xf)]) (take ((dst_size - 1) div 2) src))"

definition hex_val :: "char \<Rightarrow> u8 option" where
  "hex_val c =
     (if c \<in> set ''0123456789abcdefABCDEF'' then Some (of_nat (digit_val c)) else None)"

fun hex_pairs :: "string \<Rightarrow> u8 list option" where
  "hex_pairs (hi # lo # rest) =
     (case (hex_val hi, hex_val lo) of
        (Some hv, Some lv) \<Rightarrow> map_option (\<lambda>bs. (push_bit 4 hv OR lv) # bs) (hex_pairs rest)
      | _ \<Rightarrow> None)"
| "hex_pairs _ = Some []"

definition hex_decode :: "string \<Rightarrow> nat \<Rightarrow> u8 list option" where
  "hex_decode hex out_size =
     (if length hex mod 2 \<noteq> 0 \<or> out_size < length hex div 2 then None else hex_pairs hex)"

lemma hex_digit_val: "k < 16 \<Longrightarrow> hex_val (''0123456789abcdef'' ! k) = Some (of_nat k)"
proof -
  assume "k < 16"
  then have "k \<in> {0, 1, 2, 3, 4, 5, 6, 7, 8, 9, 10, 11, 12, 13, 14, 15}"
    unfolding insert_iff empty_iff by presburger
  then show ?thesis by (elim insertE emptyE) (simp_all add: hex_val_def digit_val_def)
qed

lemma hex_char_val: "d < 16 \<Longrightarrow> hex_val (hex_char d) = Some d"
  unfolding hex_char_def by (subst hex_digit_val) (simp_all add: word_less_nat_alt)

lemma nibble_less: "(b AND 0xf :: u8) < 16"
proof -
  have "b AND 0xf \<le> 0xf" by (rule word_and_le1)
  then show ?thesis by (simp add: word_le_nat_alt word_less_nat_alt)
qed

lemma nibbles: "push_bit 4 (drop_bit 4 b AND 0xf) OR (b AND 0xf) = (b :: u8)"
proof -
  have m: "(0xf :: u8) = mask 4" by (simp add: mask_eq_exp_minus_1)
  show ?thesis unfolding m by (rule bit_word_eqI) (auto simp: bit_simps)
qed

lemma nibbles_and [simp]: "push_bit 4 (drop_bit 4 b) AND 240 OR b AND 15 = (b :: u8)"
  using nibbles [of b] by simp

lemma hex_pairs_encode: "hex_pairs (concat (map (\<lambda>b. [hex_char (drop_bit 4 b AND 0xf), hex_char (b AND 0xf)]) bs)) = Some bs"
  by (induction bs) (simp_all add: hex_char_val nibble_less nibbles)

lemma hex_round_trip:
  assumes "length bs \<le> (dst_size - 1) div 2" "length bs \<le> out_size"
  shows "hex_decode (hex_encode bs dst_size) out_size = Some bs"
proof -
  have "take ((dst_size - 1) div 2) bs = bs" using assms by simp
  moreover have "length (concat (map (\<lambda>b. [hex_char (drop_bit 4 b AND 0xf), hex_char (b AND 0xf)]) bs)) = 2 * length bs"
    by (induction bs) simp_all
  ultimately show ?thesis using assms by (simp add: hex_decode_def hex_encode_def hex_pairs_encode)
qed

lemma hex_chars: "set (hex_encode bs n) \<subseteq> set ''0123456789abcdef''"
proof -
  have "hex_char d \<in> set ''0123456789abcdef''" if "d < 16" for d
    unfolding hex_char_def by (rule nth_mem) (use that in \<open>simp add: word_less_nat_alt\<close>)
  then show ?thesis unfolding hex_encode_def using nibble_less by fastforce
qed

lemma hex_plain:
  assumes "bs \<noteq> []" "3 \<le> n"
  shows "plain_word (hex_encode bs n) \<and> hex_encode bs n \<noteq> ''-''"
proof -
  obtain b bs' where bs: "bs = b # bs'" using assms(1) by (cases bs) auto
  obtain m where m: "(n - 1) div 2 = Suc m" using assms(2) by (cases "(n - 1) div 2") auto
  have "\<exists>x y r. hex_encode bs n = x # y # r" by (simp add: hex_encode_def bs m del: One_nat_def)
  with hex_chars [of bs n] show ?thesis by (auto simp: plain_word_def)
qed

section \<open>Switches in the environment\<close>

definition lower :: "char \<Rightarrow> char" where
  "lower c = (let n = of_char c :: nat in if 65 \<le> n \<and> n \<le> 90 then char_of (n + 32) else c)"

text \<open>\<open>strcasecmp (a, b) == 0\<close>.\<close>

definition same_word :: "string \<Rightarrow> string \<Rightarrow> bool" where
  "same_word a b \<longleftrightarrow> map lower a = map lower b"

type_synonym environment = "string \<Rightarrow> string option"

text \<open>The test of the client drivers.\<close>

definition env_truthy_default :: "environment \<Rightarrow> string \<Rightarrow> bool \<Rightarrow> bool" where
  "env_truthy_default env name def =
     (case env name of
        None \<Rightarrow> def
      | Some v \<Rightarrow> if v = [] then def
                else \<not> (v = ''0'' \<or> same_word v ''false'' \<or> same_word v ''no''))"

text \<open>The test of the executor, which also knows \<open>off\<close>.\<close>

definition env_truthy :: "environment \<Rightarrow> string \<Rightarrow> bool \<Rightarrow> bool" where
  "env_truthy env name def =
     (case env name of
        None \<Rightarrow> def
      | Some v \<Rightarrow> if v = [] then def
                else \<not> (v = ''0'' \<or> same_word v ''false'' \<or> same_word v ''no'' \<or> same_word v ''off''))"

text \<open>A number that must be the whole value of a variable.\<close>

definition env_number :: "environment \<Rightarrow> string \<Rightarrow> u64 option" where
  "env_number env name =
     (case env name of
        None \<Rightarrow> None
      | Some v \<Rightarrow> if v \<noteq> [] \<and> snd (strtoull 10 v) = [] then Some (fst (strtoull 10 v)) else None)"

end
