(* ===== verification/Gpu_Protocol.thy ===== *)
theory Gpu_Protocol
  imports Gpu_Text Spirv_Bindings
begin

text \<open>
  What the GPU executor reads from its socket: one command per message, cut at the first end of
  line, with file descriptors beside it. A dispatch is a line of blank-separated tokens: sizes,
  group counts, hexadecimal blocks, specialization entries, bindings, then options.
\<close>

section \<open>Options of a dispatch\<close>

text \<open>A pair of fields \<open>has_x\<close> and \<open>x\<close> of \<open>VulkanDispatchOptions\<close> is an optional value.\<close>

record dispatch_options =
  vo_dirty_probe :: "bool option"
  vo_dirty_writeback :: "bool option"
  vo_dirty_probe_min :: "u64 option"
  vo_writeonly_cache :: "bool option"
  vo_mutable_cache :: "bool option"
  vo_mutable_cache_max :: "u64 option"
  vo_resident_cache :: "bool option"
  vo_resident_cache_min :: "u64 option"
  vo_profile :: "bool option"
  vo_rewrite_duplicate_descriptors :: "bool option"
  vo_materialize_descriptor_aliases :: "bool option"
  vo_materialize_specialization :: "bool option"
  vo_disable_pipeline_optimization :: "bool option"
  vo_skip_unused_descriptor_transfers :: "bool option"
  vo_use_spirv_descriptor_access :: "bool option"
  vo_strict_passthrough :: "bool option"
  vo_strict_device_local_staging :: "bool option"
  vo_disable_overlap_aliasing :: "bool option"
  vo_cpu_oracle :: "bool option"
  vo_q6k_oracle_writeback :: "bool option"
  vo_q6k_safe_kernel :: "bool option"
  vo_q4k_safe_kernel :: "bool option"
  vo_q4k_targeted_specialization :: "bool option"
  vo_disable_storage8 :: bool
  vo_disable_storage16 :: bool
  vo_disable_subgroup_arithmetic :: bool
  vo_requested_feature_mask :: "u64 option"

definition no_options :: dispatch_options where
  "no_options = \<lparr>vo_dirty_probe = None,
     vo_dirty_writeback = None,
     vo_dirty_probe_min = None,
     vo_writeonly_cache = None,
     vo_mutable_cache = None,
     vo_mutable_cache_max = None,
     vo_resident_cache = None,
     vo_resident_cache_min = None,
     vo_profile = None,
     vo_rewrite_duplicate_descriptors = None,
     vo_materialize_descriptor_aliases = None,
     vo_materialize_specialization = None,
     vo_disable_pipeline_optimization = None,
     vo_skip_unused_descriptor_transfers = None,
     vo_use_spirv_descriptor_access = None,
     vo_strict_passthrough = None,
     vo_strict_device_local_staging = None,
     vo_disable_overlap_aliasing = None,
     vo_cpu_oracle = None,
     vo_q6k_oracle_writeback = None,
     vo_q6k_safe_kernel = None,
     vo_q4k_safe_kernel = None,
     vo_q4k_targeted_specialization = None,
     vo_disable_storage8 = False,
     vo_disable_storage16 = False,
     vo_disable_subgroup_arithmetic = False,
     vo_requested_feature_mask = None\<rparr>"

definition switch_value :: "string \<Rightarrow> bool option" where
  "switch_value v =
     (if v = ''1'' \<or> same_word v ''true'' \<or> same_word v ''yes'' \<or> same_word v ''on'' then Some True
      else if v = ''0'' \<or> same_word v ''false'' \<or> same_word v ''no'' \<or> same_word v ''off'' then Some False
      else None)"

definition switch ::
  "((bool option \<Rightarrow> bool option) \<Rightarrow> dispatch_options \<Rightarrow> dispatch_options) \<Rightarrow> string \<Rightarrow> dispatch_options \<Rightarrow> dispatch_options option" where
  "switch upd v o1 = map_option (\<lambda>b. upd (\<lambda>_. Some b) o1) (switch_value v)"

definition whole_number ::
  "nat \<Rightarrow> ((u64 option \<Rightarrow> u64 option) \<Rightarrow> dispatch_options \<Rightarrow> dispatch_options) \<Rightarrow> string \<Rightarrow> dispatch_options \<Rightarrow> dispatch_options option" where
  "whole_number base upd v o1 =
     (if snd (strtoull base v) \<noteq> [] then None else Some (upd (\<lambda>_. Some (fst (strtoull base v))) o1))"

definition disabling ::
  "((bool \<Rightarrow> bool) \<Rightarrow> dispatch_options \<Rightarrow> dispatch_options) \<Rightarrow> string \<Rightarrow> dispatch_options \<Rightarrow> dispatch_options option" where
  "disabling upd v o1 = Some (upd (\<lambda>_. switch_value v = Some True) o1)"

text \<open>The tests of \<open>parse_vulkan_dispatch_option\<close> in their order.\<close>

definition cache_rules :: "(string \<times> (string \<Rightarrow> dispatch_options \<Rightarrow> dispatch_options option)) list" where
  "cache_rules =
    [(''dirty_probe='', switch vo_dirty_probe_update),
     (''dirty_writeback='', switch vo_dirty_writeback_update),
     (''dirty_probe_min='', whole_number 10 vo_dirty_probe_min_update),
     (''writeonly_cache='', switch vo_writeonly_cache_update),
     (''mutable_cache='', switch vo_mutable_cache_update),
     (''mutable_cache_max='', whole_number 10 vo_mutable_cache_max_update),
     (''resident_cache='', switch vo_resident_cache_update),
     (''resident_cache_min='', whole_number 10 vo_resident_cache_min_update),
     (''profile='', switch vo_profile_update)]"

definition shader_rules :: "(string \<times> (string \<Rightarrow> dispatch_options \<Rightarrow> dispatch_options option)) list" where
  "shader_rules =
    [(''rewrite_duplicate_descriptors='', switch vo_rewrite_duplicate_descriptors_update),
     (''materialize_descriptor_aliases='', switch vo_materialize_descriptor_aliases_update),
     (''materialize_specialization='', switch vo_materialize_specialization_update),
     (''disable_pipeline_optimization='', switch vo_disable_pipeline_optimization_update),
     (''skip_unused_descriptor_transfers='', switch vo_skip_unused_descriptor_transfers_update),
     (''use_spirv_descriptor_access='', switch vo_use_spirv_descriptor_access_update),
     (''strict_passthrough='', switch vo_strict_passthrough_update),
     (''strict_device_local_staging='', switch vo_strict_device_local_staging_update),
     (''disable_overlap_aliasing='', switch vo_disable_overlap_aliasing_update)]"

definition kernel_rules :: "(string \<times> (string \<Rightarrow> dispatch_options \<Rightarrow> dispatch_options option)) list" where
  "kernel_rules =
    [(''cpu_oracle='', switch vo_cpu_oracle_update),
     (''q6k_oracle_writeback='', switch vo_q6k_oracle_writeback_update),
     (''q6k_safe_kernel='', switch vo_q6k_safe_kernel_update),
     (''q4k_safe_kernel='', switch vo_q4k_safe_kernel_update),
     (''q4k_targeted_specialization='', switch vo_q4k_targeted_specialization_update),
     (''disable_storage8='', disabling vo_disable_storage8_update),
     (''disable_storage16='', disabling vo_disable_storage16_update),
     (''disable_subgroup_arithmetic='', disabling vo_disable_subgroup_arithmetic_update),
     (''requested_feature_mask='', whole_number 0 vo_requested_feature_mask_update)]"

fun apply_rules ::
  "(string \<times> (string \<Rightarrow> dispatch_options \<Rightarrow> dispatch_options option)) list \<Rightarrow> string \<Rightarrow> dispatch_options \<Rightarrow> dispatch_options option" where
  "apply_rules [] token o1 = None"
| "apply_rules ((name, act) # rs) token o1 =
     (if prefix name token then act (drop (length name) token) o1 else apply_rules rs token o1)"

definition parse_vulkan_dispatch_option :: "dispatch_options \<Rightarrow> string \<Rightarrow> dispatch_options option" where
  "parse_vulkan_dispatch_option o1 token =
     (if token = [] then None else apply_rules (cache_rules @ shader_rules @ kernel_rules) token o1)"

fun parse_options :: "string list \<Rightarrow> dispatch_options \<Rightarrow> dispatch_options option" where
  "parse_options [] o1 = Some o1"
| "parse_options (t # ts) o1 =
     (case parse_vulkan_dispatch_option o1 t of None \<Rightarrow> None | Some o2 \<Rightarrow> parse_options ts o2)"

section \<open>A dispatch\<close>

record dispatch_binding =
  db_set :: u32
  db_binding :: u32
  db_offset :: u64
  db_size :: u64
  db_api_offset :: u64
  db_api_range :: u64
  db_api_buffer_size :: u64
  db_api_type :: u32
  db_api_dynamic :: u32
  db_api_memory_offset :: u64
  db_api_memory_size :: u64
  db_api_memory_id :: u64
  db_api_buffer_id :: u64

record dispatch_request =
  dr_shader_size :: u64
  dr_bindings :: "dispatch_binding list"
  dr_push :: "u8 list"
  dr_groups :: "u32 \<times> u32 \<times> u32"
  dr_entry :: string
  dr_specs :: "dispatch_spec list"
  dr_spec_data :: "u8 list"
  dr_options :: "dispatch_options option"

definition MAX_VULKAN_ENTRY_NAME :: nat where "MAX_VULKAN_ENTRY_NAME = 128"
definition MAX_PUSH_BYTES :: nat where "MAX_PUSH_BYTES = 256"
definition MAX_SPECIALIZATION_ENTRIES :: nat where "MAX_SPECIALIZATION_ENTRIES = 16"
definition MAX_SPECIALIZATION_BYTES :: nat where "MAX_SPECIALIZATION_BYTES = 256"

datatype dispatch_version = V1 | V2 | V3 | V4

abbreviation ull :: "string \<Rightarrow> u64" where
  "ull t \<equiv> fst (strtoull 10 t)"

abbreviation ul32 :: "string \<Rightarrow> u32" where
  "ul32 t \<equiv> ucast (fst (strtoull 10 t))"

abbreviation sll :: "string \<Rightarrow> u64" where
  "sll t \<equiv> fst (strtoll 10 t)"

text \<open>A missing token leaves the value the code starts with; after the last token there is none.\<close>

definition next_token :: "string list \<Rightarrow> string option \<times> string list" where
  "next_token ts = (case ts of [] \<Rightarrow> (None, []) | t # ts' \<Rightarrow> (Some t, ts'))"

definition token_or :: "string \<Rightarrow> string option \<Rightarrow> string" where
  "token_or def t = (case t of None \<Rightarrow> def | Some s \<Rightarrow> s)"

fun parse_spec :: "string list \<Rightarrow> (dispatch_spec \<times> string list) option" where
  "parse_spec (c # off # sz # ts) = Some (\<lparr>sp_id = ul32 c, sp_offset = ul32 off, sp_size = ull sz\<rparr>, ts)"
| "parse_spec _ = None"

fun parse_object :: "dispatch_version \<Rightarrow> string list \<Rightarrow> (u64 \<times> u64 \<times> u64 \<times> string list) option" where
  "parse_object V1 ts = Some (0, 0, 0, ts)"
| "parse_object V2 ts = Some (0, 0, 0, ts)"
| "parse_object v (a # b # c # ts) = Some (ull a, ull b, ull c, ts)"
| "parse_object v _ = None"

fun parse_api :: "dispatch_version \<Rightarrow> u32 \<Rightarrow> string list \<Rightarrow> (dispatch_binding \<times> string list) option" where
  "parse_api V1 st (b # off # sz # ts) =
     Some (\<lparr>db_set = st, db_binding = ul32 b, db_offset = sll off, db_size = ull sz,
        db_api_offset = 0, db_api_range = 0, db_api_buffer_size = 0, db_api_type = 0, db_api_dynamic = 0,
        db_api_memory_offset = 0, db_api_memory_size = 0, db_api_memory_id = 0, db_api_buffer_id = 0\<rparr>, ts)"
| "parse_api v st (b # off # sz # ao # ar # bsz # ty # dyn # amo # ts) =
     (case parse_object v ts of
        None \<Rightarrow> None
      | Some (ms, mid, bid, ts') \<Rightarrow>
          Some (\<lparr>db_set = st, db_binding = ul32 b, db_offset = sll off, db_size = ull sz,
            db_api_offset = sll ao, db_api_range = ull ar, db_api_buffer_size = ull bsz, db_api_type = ul32 ty,
            db_api_dynamic = ucast (sll dyn), db_api_memory_offset = sll amo, db_api_memory_size = ms,
            db_api_memory_id = mid, db_api_buffer_id = bid\<rparr>, ts'))"
| "parse_api v st _ = None"

fun parse_binding :: "dispatch_version \<Rightarrow> string list \<Rightarrow> (dispatch_binding \<times> string list) option" where
  "parse_binding V4 (st # ts) = parse_api V4 (ul32 st) ts"
| "parse_binding V4 [] = None"
| "parse_binding v ts = parse_api v 0 ts"

fun parse_many ::
  "(string list \<Rightarrow> ('a \<times> string list) option) \<Rightarrow> nat \<Rightarrow> string list \<Rightarrow> ('a list \<times> string list) option" where
  "parse_many p 0 ts = Some ([], ts)"
| "parse_many p (Suc n) ts =
     (case p ts of
        None \<Rightarrow> None
      | Some (x, ts1) \<Rightarrow> map_option (\<lambda>(xs, ts2). (x # xs, ts2)) (parse_many p n ts1))"

text \<open>A block of \<open>n\<close> bytes in hexadecimal; \<open>-\<close> stands for none.\<close>

definition parse_block :: "string \<Rightarrow> u64 \<Rightarrow> nat \<Rightarrow> u8 list option" where
  "parse_block hex n cap =
     (if 0 < n then
        (case hex_decode hex cap of
           None \<Rightarrow> None
         | Some bs \<Rightarrow> if of_nat (length bs) \<noteq> n then None else Some bs)
      else if hex \<noteq> ''-'' then None else Some [])"

definition parse_entry :: "string \<Rightarrow> string option" where
  "parse_entry hex =
     (if hex \<noteq> ''-'' then
        (case hex_decode hex (MAX_VULKAN_ENTRY_NAME - 1) of
           None \<Rightarrow> None
         | Some bs \<Rightarrow> if bs = [] then None else Some (map (\<lambda>b. char_of (unat b)) (takeWhile (\<lambda>b. b \<noteq> 0) bs)))
      else Some ''main'')"

definition parse_dispatch :: "dispatch_version \<Rightarrow> string \<Rightarrow> nat \<Rightarrow> dispatch_request option" where
  "parse_dispatch v text1 fds =
     (let (t_shader, ts) = next_token (tokens text1);
          (t_bindings, ts) = next_token ts;
          (t_push, ts) = next_token ts;
          (t_x, ts) = next_token ts;
          (t_y, ts) = next_token ts;
          (t_z, ts) = next_token ts;
          (t_hex, ts) = next_token ts;
          (t_entry, ts) = next_token ts;
          (t_specs, ts) = next_token ts;
          (t_data, ts) = next_token ts;
          (t_block, ts) = next_token ts;
          bindings = ull (token_or ''0'' t_bindings);
          push = ull (token_or ''0'' t_push);
          specs = ull (token_or ''0'' t_specs);
          data = ull (token_or ''0'' t_data)
      in if bindings = 0 \<or> of_nat MAX_VULKAN_BINDINGS < bindings \<or> of_nat MAX_PUSH_BYTES < push
            \<or> of_nat MAX_SPECIALIZATION_ENTRIES < specs \<or> of_nat MAX_SPECIALIZATION_BYTES < data
            \<or> fds < 1 + unat bindings then None
         else case (parse_block (token_or ''-'' t_hex) push MAX_PUSH_BYTES, parse_entry (token_or ''-'' t_entry),
                 parse_block (token_or ''-'' t_block) data MAX_SPECIALIZATION_BYTES) of
             (Some ps, Some entry, Some block) \<Rightarrow>
               (case parse_many parse_spec (unat specs) ts of
                  None \<Rightarrow> None
                | Some (sps, ts) \<Rightarrow>
                    (case parse_many (parse_binding v) (unat bindings) ts of
                       None \<Rightarrow> None
                     | Some (bs, ts) \<Rightarrow>
                         map_option (\<lambda>opts. \<lparr>dr_shader_size = ull (token_or ''0'' t_shader), dr_bindings = bs, dr_push = ps,
                             dr_groups = (ul32 (token_or ''0'' t_x), ul32 (token_or ''0'' t_y), ul32 (token_or ''0'' t_z)),
                             dr_entry = entry, dr_specs = sps, dr_spec_data = block, dr_options = Some opts\<rparr>)
                           (parse_options ts no_options)))
           | _ \<Rightarrow> None)"

text \<open>The first version has neither an entry point nor specialization constants nor options; what
  follows its bindings is not read.\<close>

definition parse_dispatch_v1 :: "string \<Rightarrow> nat \<Rightarrow> dispatch_request option" where
  "parse_dispatch_v1 text1 fds =
     (let (t_shader, ts) = next_token (tokens text1);
          (t_bindings, ts) = next_token ts;
          (t_push, ts) = next_token ts;
          (t_x, ts) = next_token ts;
          (t_y, ts) = next_token ts;
          (t_z, ts) = next_token ts;
          (t_hex, ts) = next_token ts;
          bindings = ull (token_or ''0'' t_bindings);
          push = ull (token_or ''0'' t_push)
      in if bindings = 0 \<or> of_nat MAX_VULKAN_BINDINGS < bindings \<or> of_nat MAX_PUSH_BYTES < push
            \<or> fds < 1 + unat bindings then None
         else case parse_block (token_or ''-'' t_hex) push MAX_PUSH_BYTES of
             None \<Rightarrow> None
           | Some ps \<Rightarrow>
               map_option (\<lambda>(bs, ts). \<lparr>dr_shader_size = ull (token_or ''0'' t_shader), dr_bindings = bs, dr_push = ps,
                   dr_groups = (ul32 (token_or ''0'' t_x), ul32 (token_or ''0'' t_y), ul32 (token_or ''0'' t_z)),
                   dr_entry = ''main'', dr_specs = [], dr_spec_data = [], dr_options = None\<rparr>)
                 (parse_many (parse_binding V1) (unat bindings) ts))"

section \<open>Commands\<close>

datatype gpu_api = GPU_API_AUTO | GPU_API_OPENCL | GPU_API_VULKAN

datatype gpu_request =
    Capabilities | Noop | VectorAdd | VectorAddFd u64 | RegisterVectorFd u64 | VectorAddRegistered
  | VectorAdd3Fd gpu_api u64 | VulkanDispatch dispatch_request | Refused string string

definition MAX_COMMAND_BYTES :: nat where "MAX_COMMAND_BYTES = 4096"
definition MAX_PASSED_FDS :: nat where "MAX_PASSED_FDS = 24"

text \<open>\<open>recvmsg\<close> delivered \<open>bytes\<close>, which fit the buffer, and the descriptors \<open>fds\<close>. The result is the
  command, the array of descriptors and their count.\<close>

definition recv_command_with_fds :: "string \<Rightarrow> int list \<Rightarrow> string \<times> int list \<times> nat" where
  "recv_command_with_fds bytes fds =
     (takeWhile (\<lambda>c. c \<notin> {CHR 0x0D, CHR 0x0A, CHR 0x00}) (take (MAX_COMMAND_BYTES - 1) bytes),
      take MAX_PASSED_FDS fds @ replicate (MAX_PASSED_FDS - length fds) (- 1),
      min (length fds) MAX_PASSED_FDS)"

definition three_fds :: "gpu_api \<Rightarrow> string \<Rightarrow> string \<Rightarrow> nat \<Rightarrow> gpu_request" where
  "three_fds api name arg fds =
     (if fds < 3 then Refused ''fd'' (name @ '' requires three fds'') else VectorAdd3Fd api (ull arg))"

definition dispatch_or_refuse :: "dispatch_request option \<Rightarrow> gpu_request" where
  "dispatch_or_refuse r = (case r of None \<Rightarrow> Refused ''vulkan-dispatch'' ''invalid command'' | Some d \<Rightarrow> VulkanDispatch d)"

definition parse_command :: "string \<Rightarrow> nat \<Rightarrow> gpu_request" where
  "parse_command cmd fds =
     (if cmd = ''CAPABILITIES'' then Capabilities
      else if cmd = ''NOOP'' then Noop
      else if cmd = ''VECTOR_ADD'' then VectorAdd
      else if prefix ''VECTOR_ADD_FD '' cmd then VectorAddFd (ull (drop 14 cmd))
      else if prefix ''REGISTER_VECTOR_FD '' cmd then RegisterVectorFd (ull (drop 19 cmd))
      else if cmd = ''VECTOR_ADD_REGISTERED'' then VectorAddRegistered
      else if prefix ''OPENCL_VECTOR_ADD_3FD '' cmd then three_fds GPU_API_OPENCL ''OPENCL_VECTOR_ADD_3FD'' (drop 22 cmd) fds
      else if prefix ''VULKAN_VECTOR_ADD_3FD '' cmd then three_fds GPU_API_VULKAN ''VULKAN_VECTOR_ADD_3FD'' (drop 22 cmd) fds
      else if prefix ''VECTOR_ADD_3FD '' cmd then three_fds GPU_API_AUTO ''VECTOR_ADD_3FD'' (drop 15 cmd) fds
      else if prefix ''VULKAN_DISPATCH_V2 '' cmd then dispatch_or_refuse (parse_dispatch V2 (drop 19 cmd) fds)
      else if prefix ''VULKAN_DISPATCH_V3 '' cmd then dispatch_or_refuse (parse_dispatch V3 (drop 19 cmd) fds)
      else if prefix ''VULKAN_DISPATCH_V4 '' cmd then dispatch_or_refuse (parse_dispatch V4 (drop 19 cmd) fds)
      else if prefix ''VULKAN_DISPATCH_V1 '' cmd then dispatch_or_refuse (parse_dispatch_v1 (drop 19 cmd) fds)
      else Refused ''command'' ''unknown command'')"

end
