(* ===== verification/Vk_Objects.thy ===== *)
theory Vk_Objects
  imports Gpu_Protocol
begin

text \<open>
  The objects of the Vulkan client driver
  (\<^verbatim>\<open>docker-proot-setup/src/gpu/pdocker_vulkan_icd.c\<close>) that hold data: memory, buffers with the
  copies they stand for, descriptor sets, shader modules and pipelines. A pointer to an object is the
  key of a map; \<open>None\<close> is the null pointer. The bytes of a memory are the file both the driver and the
  executor map, kept apart from the sizes. What an allocation answers is an argument.
\<close>

datatype vk_result =
    VK_SUCCESS | VK_NOT_READY | VK_ERROR_OUT_OF_HOST_MEMORY | VK_ERROR_OUT_OF_DEVICE_MEMORY
  | VK_ERROR_INITIALIZATION_FAILED | VK_ERROR_DEVICE_LOST | VK_ERROR_MEMORY_MAP_FAILED
  | VK_ERROR_FEATURE_NOT_PRESENT

definition VK_WHOLE_SIZE :: u64 where "VK_WHOLE_SIZE = - 1"
definition STORAGE_BUFFER :: u32 where "STORAGE_BUFFER = 7"
definition STORAGE_BUFFER_DYNAMIC :: u32 where "STORAGE_BUFFER_DYNAMIC = 9"
definition MAX_STORAGE_BUFFERS :: nat where "MAX_STORAGE_BUFFERS = 16"
definition MAX_COPY_ALIASES :: nat where "MAX_COPY_ALIASES = 128"
definition ALIAS_MIN_SOURCE_BYTES :: u64 where "ALIAS_MIN_SOURCE_BYTES = 64 * 1024 * 1024"
definition REQUIREMENT_ALIGNMENT :: u64 where "REQUIREMENT_ALIGNMENT = 16"

record vk_memory =
  vm_size :: u64
  vm_type :: u32
  vm_fd :: int

record copy_alias =
  ca_valid :: bool
  ca_memory :: nat
  ca_src_offset :: u64
  ca_dst_offset :: u64
  ca_size :: u64

record vk_buffer =
  vb_size :: u64
  vb_req_size :: u64
  vb_req_alignment :: u64
  vb_memory :: "nat option"
  vb_memory_offset :: u64
  vb_aliases :: "copy_alias list"

record vk_descriptor =
  vd_buffer :: "nat option"
  vd_offset :: u64
  vd_range :: u64
  vd_type :: u32
  vd_dynamic :: bool

type_synonym vk_set = "vk_descriptor list"

record vk_shader =
  sh_size :: u64
  sh_first_word :: u32
  sh_fd :: int
  sh_code :: "u8 list"

record vk_pipeline =
  pl_shader :: "nat option"
  pl_layout :: "nat option"
  pl_feature_mask :: u64
  pl_local_size_x :: u32
  pl_entry :: string
  pl_specs :: "dispatch_spec list"
  pl_spec_data :: "u8 list"
  pl_too_large :: bool

record vk_state =
  vs_memories :: "nat \<Rightarrow> vk_memory option"
  vs_bytes :: "nat \<Rightarrow> nat \<Rightarrow> u8"
  vs_buffers :: "nat \<Rightarrow> vk_buffer option"
  vs_sets :: "nat \<Rightarrow> vk_set option"
  vs_shaders :: "nat \<Rightarrow> vk_shader option"
  vs_layouts :: "nat \<Rightarrow> u32 option"
  vs_pipelines :: "nat \<Rightarrow> vk_pipeline option"

abbreviation the_memory :: "vk_state \<Rightarrow> nat \<Rightarrow> vk_memory" where
  "the_memory s m \<equiv> the (vs_memories s m)"

abbreviation the_buffer :: "vk_state \<Rightarrow> nat \<Rightarrow> vk_buffer" where
  "the_buffer s b \<equiv> the (vs_buffers s b)"

section \<open>Sizes\<close>

definition align_device_size :: "u64 \<Rightarrow> u64 \<Rightarrow> u64" where
  "align_device_size v alignment =
     (if alignment = 0 then v
      else let rem = v mod alignment in if rem = 0 then v else v + alignment - rem)"

text \<open>The figure of \<open>/proc/meminfo\<close>, read line by line.\<close>

definition mem_available_of :: "string list \<Rightarrow> u64" where
  "mem_available_of lines =
     (case List.find (\<lambda>l. prefix ''MemAvailable:'' l \<and> scan_llu (drop 13 l) \<noteq> None) lines of
        None \<Rightarrow> 0
      | Some l \<Rightarrow> the (scan_llu (drop 13 l)) * 1024)"

definition pdocker_vulkan_heap_size :: "environment \<Rightarrow> string list \<Rightarrow> u64" where
  "pdocker_vulkan_heap_size env meminfo =
     (let dynamic_heap =
            (let available = mem_available_of meminfo
             in if 1024 * 1024 * 1024 \<le> available
                then let heap = available div 4;
                         heap = (if heap < 512 * 1024 * 1024 then 512 * 1024 * 1024 else heap)
                     in if 2 * 1024 * 1024 * 1024 < heap then 2 * 1024 * 1024 * 1024 else heap
                else 512 * 1024 * 1024)
      in case env_number env ''PDOCKER_VULKAN_HEAP_BYTES'' of
           None \<Rightarrow> dynamic_heap
         | Some v \<Rightarrow> if 256 * 1024 * 1024 \<le> v then v else dynamic_heap)"

definition pdocker_vulkan_max_buffer_size :: "environment \<Rightarrow> string list \<Rightarrow> u64" where
  "pdocker_vulkan_max_buffer_size env meminfo =
     (let heap = pdocker_vulkan_heap_size env meminfo;
          bridge = (if heap < 2 * 1024 * 1024 * 1024 then heap else 2 * 1024 * 1024 * 1024)
      in case env_number env ''PDOCKER_VULKAN_MAX_BUFFER_BYTES'' of
           None \<Rightarrow> bridge
         | Some v \<Rightarrow> if 16 * 1024 * 1024 \<le> v then v else bridge)"

definition pdocker_vulkan_host_heap_size :: "environment \<Rightarrow> string list \<Rightarrow> u64" where
  "pdocker_vulkan_host_heap_size env meminfo =
     (let heap = pdocker_vulkan_heap_size env meminfo;
          host = heap div 2;
          host = (if host < 256 * 1024 * 1024 then 256 * 1024 * 1024 else host)
      in if heap < host then heap else host)"

section \<open>Memory and buffers\<close>

text \<open>\<open>limit\<close> is \<open>pdocker_vulkan_max_buffer_size\<close>, \<open>h\<close> what \<open>calloc\<close> returned.\<close>

definition vkCreateBuffer :: "u64 \<Rightarrow> nat option \<Rightarrow> u64 \<Rightarrow> vk_state \<Rightarrow> vk_result \<times> vk_state" where
  "vkCreateBuffer limit h size1 s =
     (if size1 = 0 \<or> limit < size1 then (VK_ERROR_OUT_OF_DEVICE_MEMORY, s)
      else case h of
             None \<Rightarrow> (VK_ERROR_OUT_OF_HOST_MEMORY, s)
           | Some b \<Rightarrow>
               (VK_SUCCESS, s\<lparr>vs_buffers := (vs_buffers s)(b \<mapsto>
                  \<lparr>vb_size = size1, vb_req_size = align_device_size size1 REQUIREMENT_ALIGNMENT,
                   vb_req_alignment = REQUIREMENT_ALIGNMENT, vb_memory = None, vb_memory_offset = 0, vb_aliases = []\<rparr>)\<rparr>))"

definition vkDestroyBuffer :: "nat \<Rightarrow> vk_state \<Rightarrow> vk_state" where
  "vkDestroyBuffer b s = s\<lparr>vs_buffers := (vs_buffers s)(b := None)\<rparr>"

definition vkGetBufferMemoryRequirements :: "vk_state \<Rightarrow> nat option \<Rightarrow> u64 \<times> u64 \<times> u32" where
  "vkGetBufferMemoryRequirements s b =
     (case b of
        None \<Rightarrow> (0, REQUIREMENT_ALIGNMENT, 3)
      | Some i \<Rightarrow> (vb_req_size (the_buffer s i),
                  if vb_req_alignment (the_buffer s i) \<noteq> 0 then vb_req_alignment (the_buffer s i) else REQUIREMENT_ALIGNMENT, 3))"

text \<open>What the calls of an allocation answer: the structure, the page tables of guarded memory, the
  shared file, its mapping, a slot for the fault handler.\<close>

record vk_answers =
  va_handle :: "nat option"
  va_pages :: bool
  va_fd :: int
  va_mapped :: bool
  va_registered :: bool

definition vkAllocateMemory ::
  "u64 \<Rightarrow> bool \<Rightarrow> vk_answers \<Rightarrow> u64 \<Rightarrow> u32 \<Rightarrow> vk_state \<Rightarrow> vk_result \<times> vk_state" where
  "vkAllocateMemory limit guarded an size1 type1 s =
     (if size1 = 0 \<or> limit < size1 then (VK_ERROR_OUT_OF_DEVICE_MEMORY, s)
      else case va_handle an of
             None \<Rightarrow> (VK_ERROR_OUT_OF_HOST_MEMORY, s)
           | Some m \<Rightarrow>
               if guarded \<and> \<not> va_pages an then (VK_ERROR_OUT_OF_HOST_MEMORY, s)
               else if va_fd an < 0 then (VK_ERROR_OUT_OF_HOST_MEMORY, s)
               else if \<not> va_mapped an then (VK_ERROR_MEMORY_MAP_FAILED, s)
               else if guarded \<and> \<not> va_registered an then (VK_ERROR_OUT_OF_HOST_MEMORY, s)
               else (VK_SUCCESS,
                     s\<lparr>vs_memories := (vs_memories s)(m \<mapsto> \<lparr>vm_size = size1, vm_type = type1, vm_fd = va_fd an\<rparr>),
                       vs_bytes := (vs_bytes s)(m := (\<lambda>_. 0))\<rparr>))"

definition vkFreeMemory :: "nat option \<Rightarrow> vk_state \<Rightarrow> vk_state" where
  "vkFreeMemory m s =
     (case m of None \<Rightarrow> s | Some i \<Rightarrow> s\<lparr>vs_memories := (vs_memories s)(i := None)\<rparr>)"

text \<open>Type 0 is device local, every other type is visible to the host. The result is the address the
  program gets, as a memory and an offset into it.\<close>

definition vkMapMemory :: "nat option \<Rightarrow> u64 \<Rightarrow> vk_state \<Rightarrow> vk_result + nat \<times> u64" where
  "vkMapMemory m off s =
     (case m of
        None \<Rightarrow> Inl VK_ERROR_MEMORY_MAP_FAILED
      | Some i \<Rightarrow>
          if vm_size (the_memory s i) < off then Inl VK_ERROR_MEMORY_MAP_FAILED
          else if vm_type (the_memory s i) = 0 then Inl VK_ERROR_MEMORY_MAP_FAILED
          else Inr (i, off))"

definition vkBindBufferMemory :: "nat option \<Rightarrow> nat option \<Rightarrow> u64 \<Rightarrow> vk_state \<Rightarrow> vk_result \<times> vk_state" where
  "vkBindBufferMemory b m off s =
     (case (b, m) of
        (Some i, Some j) \<Rightarrow>
          let bf = the_buffer s i;
              alignment = (if vb_req_alignment bf \<noteq> 0 then vb_req_alignment bf else REQUIREMENT_ALIGNMENT);
              needed = (if vb_req_size bf \<noteq> 0 then vb_req_size bf else align_device_size (vb_size bf) alignment);
              available = vm_size (the_memory s j)
          in if off mod alignment \<noteq> 0 \<or> available < off \<or> available - off < needed
             then (VK_ERROR_OUT_OF_DEVICE_MEMORY, s)
             else (VK_SUCCESS, s\<lparr>vs_buffers := (vs_buffers s)(i \<mapsto> bf\<lparr>vb_memory := Some j, vb_memory_offset := off\<rparr>)\<rparr>)
      | _ \<Rightarrow> (VK_ERROR_INITIALIZATION_FAILED, s))"

fun vkBindBufferMemory2 :: "(nat option \<times> nat option \<times> u64) list \<Rightarrow> vk_state \<Rightarrow> vk_result \<times> vk_state" where
  "vkBindBufferMemory2 [] s = (VK_SUCCESS, s)"
| "vkBindBufferMemory2 ((b, m, off) # infos) s =
     (case vkBindBufferMemory b m off s of
        (VK_SUCCESS, s') \<Rightarrow> vkBindBufferMemory2 infos s'
      | (r, s') \<Rightarrow> (r, s'))"

section \<open>Addresses inside a buffer\<close>

definition buffer_available :: "vk_state \<Rightarrow> nat option \<Rightarrow> u64 \<Rightarrow> u64" where
  "buffer_available s b off =
     (case b of
        None \<Rightarrow> 0
      | Some i \<Rightarrow>
          (case vb_memory (the_buffer s i) of
             None \<Rightarrow> 0
           | Some m \<Rightarrow>
               let bf = the_buffer s i; absolute = vb_memory_offset bf + off
               in if vb_size bf < off then 0
                  else if vm_size (the_memory s m) < absolute then 0
                  else min (vm_size (the_memory s m) - absolute) (vb_size bf - off)))"

text \<open>The address of a range as a memory and an offset, or \<open>None\<close>.\<close>

definition buffer_ptr :: "vk_state \<Rightarrow> nat option \<Rightarrow> u64 \<Rightarrow> u64 \<Rightarrow> (nat \<times> u64) option" where
  "buffer_ptr s b off n =
     (case b of
        None \<Rightarrow> None
      | Some i \<Rightarrow>
          (case vb_memory (the_buffer s i) of
             None \<Rightarrow> None
           | Some m \<Rightarrow>
               if buffer_available s b off < n then None else Some (m, vb_memory_offset (the_buffer s i) + off)))"

definition descriptor_binding_size :: "vk_state \<Rightarrow> vk_descriptor \<Rightarrow> u64" where
  "descriptor_binding_size s d =
     (case vd_buffer d of
        None \<Rightarrow> 0
      | Some i \<Rightarrow>
          let bf = the_buffer s i
          in if vb_size bf < vd_offset d then 0
             else if vd_range d = VK_WHOLE_SIZE then vb_size bf - vd_offset d
             else min (vd_range d) (vb_size bf - vd_offset d))"

section \<open>Copies that are not made\<close>

definition ranges_overlap :: "u64 \<Rightarrow> u64 \<Rightarrow> u64 \<Rightarrow> u64 \<Rightarrow> bool" where
  "ranges_overlap ao an bo bn \<longleftrightarrow> an \<noteq> 0 \<and> bn \<noteq> 0 \<and> ao < bo + bn \<and> bo < ao + an"

definition alias_serves :: "u64 \<Rightarrow> u64 \<Rightarrow> copy_alias \<Rightarrow> bool" where
  "alias_serves off n a \<longleftrightarrow>
     ca_valid a \<and> ca_dst_offset a \<le> off \<and> off - ca_dst_offset a \<le> ca_size a
     \<and> n \<le> ca_size a - (off - ca_dst_offset a)"

definition resolve_copy_alias :: "vk_buffer \<Rightarrow> u64 \<Rightarrow> u64 \<Rightarrow> (nat \<times> u64) option" where
  "resolve_copy_alias bf off n =
     (case List.find (alias_serves off n) (vb_aliases bf) of
        None \<Rightarrow> None
      | Some a \<Rightarrow> Some (ca_memory a, ca_src_offset a + (off - ca_dst_offset a)))"

definition invalidate_copy_aliases :: "u64 \<Rightarrow> u64 \<Rightarrow> vk_buffer \<Rightarrow> vk_buffer" where
  "invalidate_copy_aliases off n bf =
     bf\<lparr>vb_aliases := filter (\<lambda>a. ca_valid a \<and> \<not> ranges_overlap off n (ca_dst_offset a) (ca_size a)) (vb_aliases bf)\<rparr>"

definition add_copy_alias :: "u64 \<Rightarrow> u64 \<Rightarrow> nat \<Rightarrow> u64 \<Rightarrow> vk_buffer \<Rightarrow> vk_buffer" where
  "add_copy_alias dst_offset n src_memory src_offset bf =
     (if n = 0 then bf
      else let bf = invalidate_copy_aliases dst_offset n bf;
               kept = (if MAX_COPY_ALIASES \<le> length (vb_aliases bf) then drop 1 (vb_aliases bf) else vb_aliases bf)
           in bf\<lparr>vb_aliases := kept @ [\<lparr>ca_valid = True, ca_memory = src_memory, ca_src_offset = src_offset,
                ca_dst_offset = dst_offset, ca_size = n\<rparr>]\<rparr>)"

section \<open>Descriptor sets\<close>

definition empty_descriptor :: vk_descriptor where
  "empty_descriptor = \<lparr>vd_buffer = None, vd_offset = 0, vd_range = 0, vd_type = 0, vd_dynamic = False\<rparr>"

definition empty_set :: vk_set where
  "empty_set = replicate MAX_STORAGE_BUFFERS empty_descriptor"

record set_layout =
  sl_count :: u32
  sl_types :: "u32 list"
  sl_counts :: "u32 list"

text \<open>A binding of a layout: its number, type and array length.\<close>

definition layout_binding :: "u32 \<times> u32 \<times> u32 \<Rightarrow> set_layout \<Rightarrow> set_layout" where
  "layout_binding bd l =
     (let (b, type1, count) = bd
      in if type1 \<in> {STORAGE_BUFFER, STORAGE_BUFFER_DYNAMIC} \<and> unat b < MAX_STORAGE_BUFFERS
         then l\<lparr>sl_count := (if sl_count l < b + 1 then b + 1 else sl_count l),
                sl_types := (sl_types l)[unat b := type1], sl_counts := (sl_counts l)[unat b := count]\<rparr>
         else l)"

definition vkCreateDescriptorSetLayout :: "(u32 \<times> u32 \<times> u32) list \<Rightarrow> set_layout" where
  "vkCreateDescriptorSetLayout bindings =
     fold layout_binding bindings
       \<lparr>sl_count = 0, sl_types = replicate MAX_STORAGE_BUFFERS 0, sl_counts = replicate MAX_STORAGE_BUFFERS 0\<rparr>"

fun vkAllocateDescriptorSets :: "nat option list \<Rightarrow> vk_state \<Rightarrow> vk_result \<times> vk_state" where
  "vkAllocateDescriptorSets [] s = (VK_SUCCESS, s)"
| "vkAllocateDescriptorSets (None # hs) s = (VK_ERROR_OUT_OF_HOST_MEMORY, s)"
| "vkAllocateDescriptorSets (Some h # hs) s =
     vkAllocateDescriptorSets hs (s\<lparr>vs_sets := (vs_sets s)(h \<mapsto> empty_set)\<rparr>)"

record descriptor_write =
  dw_set :: "nat option"
  dw_type :: u32
  dw_binding :: u32
  dw_element :: u32
  dw_infos :: "(nat option \<times> u64 \<times> u64) list option"

definition write_descriptor :: "descriptor_write \<Rightarrow> (nat \<times> (nat option \<times> u64 \<times> u64)) \<Rightarrow> vk_set \<Rightarrow> vk_set" where
  "write_descriptor w ji ds =
     (let (j, (b, off, rng)) = ji; binding = dw_binding w + dw_element w + of_nat j
      in if unat binding < MAX_STORAGE_BUFFERS
         then ds[unat binding := \<lparr>vd_buffer = b, vd_offset = off, vd_range = rng, vd_type = dw_type w,
                   vd_dynamic = (dw_type w = STORAGE_BUFFER_DYNAMIC)\<rparr>]
         else ds)"

definition apply_write :: "descriptor_write \<Rightarrow> vk_state \<Rightarrow> vk_state" where
  "apply_write w s =
     (case (dw_set w, dw_infos w) of
        (Some i, Some infos) \<Rightarrow>
          if dw_type w \<notin> {STORAGE_BUFFER, STORAGE_BUFFER_DYNAMIC} then s
          else s\<lparr>vs_sets := (vs_sets s)(i \<mapsto> fold (write_descriptor w) (zip [0..<length infos] infos) (the (vs_sets s i)))\<rparr>
      | _ \<Rightarrow> s)"

record descriptor_copy =
  dc_src :: "nat option"
  dc_dst :: "nat option"
  dc_src_first :: u32
  dc_dst_first :: u32
  dc_count :: u32

text \<open>\<open>dc_src_first\<close> and \<open>dc_dst_first\<close> are the sums of binding and array element. Source and
  destination may be the same set, so every step reads the sets again.\<close>

definition copy_descriptor :: "descriptor_copy \<Rightarrow> nat \<Rightarrow> nat \<Rightarrow> nat \<Rightarrow> vk_state \<Rightarrow> vk_state" where
  "copy_descriptor c i k j s =
     (let from = dc_src_first c + of_nat j; to = dc_dst_first c + of_nat j
      in if MAX_STORAGE_BUFFERS \<le> unat from \<or> MAX_STORAGE_BUFFERS \<le> unat to then s
         else s\<lparr>vs_sets := (vs_sets s)(k \<mapsto> (the (vs_sets s k))[unat to := the (vs_sets s i) ! unat from])\<rparr>)"

definition apply_copy :: "descriptor_copy \<Rightarrow> vk_state \<Rightarrow> vk_state" where
  "apply_copy c s =
     (case (dc_src c, dc_dst c) of
        (Some i, Some k) \<Rightarrow> fold (copy_descriptor c i k) [0..<unat (dc_count c)] s
      | _ \<Rightarrow> s)"

definition vkUpdateDescriptorSets :: "descriptor_write list \<Rightarrow> descriptor_copy list \<Rightarrow> vk_state \<Rightarrow> vk_state" where
  "vkUpdateDescriptorSets ws cs s = fold apply_copy cs (fold apply_write ws s)"

section \<open>Shaders and pipelines\<close>

definition first_word :: "u8 list \<Rightarrow> u32" where
  "first_word code = (if 4 \<le> length code then ucast (le_value (\<lambda>i. code ! i) 0 4) else 0)"

definition vkCreateShaderModule :: "nat option \<Rightarrow> int \<Rightarrow> bool \<Rightarrow> u8 list \<Rightarrow> vk_state \<Rightarrow> vk_result \<times> vk_state" where
  "vkCreateShaderModule h fd mapped code s =
     (case h of
        None \<Rightarrow> (VK_ERROR_OUT_OF_HOST_MEMORY, s)
      | Some i \<Rightarrow>
          if fd < 0 then (VK_ERROR_OUT_OF_HOST_MEMORY, s)
          else if \<not> mapped then (VK_ERROR_MEMORY_MAP_FAILED, s)
          else (VK_SUCCESS, s\<lparr>vs_shaders := (vs_shaders s)(i \<mapsto>
                  \<lparr>sh_size = of_nat (length code), sh_first_word = first_word code, sh_fd = fd, sh_code = code\<rparr>)\<rparr>))"

definition push_constant_extent :: "(u32 \<times> u32) list \<Rightarrow> u32" where
  "push_constant_extent ranges = fold (\<lambda>(off, n) ext. if ext < off + n then off + n else ext) ranges 0"

definition vkCreatePipelineLayout :: "nat option \<Rightarrow> (u32 \<times> u32) list \<Rightarrow> vk_state \<Rightarrow> vk_result \<times> vk_state" where
  "vkCreatePipelineLayout h ranges s =
     (case h of
        None \<Rightarrow> (VK_ERROR_OUT_OF_HOST_MEMORY, s)
      | Some i \<Rightarrow>
          if MAX_PUSH_BYTES < unat (push_constant_extent ranges) then (VK_ERROR_OUT_OF_HOST_MEMORY, s)
          else (VK_SUCCESS, s\<lparr>vs_layouts := (vs_layouts s)(i \<mapsto> push_constant_extent ranges)\<rparr>))"

record pipeline_info =
  pi_module :: "nat option"
  pi_layout :: "nat option"
  pi_name :: "string option"
  pi_spec :: "(dispatch_spec list \<times> nat \<times> u8 list option) option"

text \<open>The specialization block is its entries, its size and, unless the pointer is null, its bytes.\<close>

definition new_pipeline :: "u64 \<Rightarrow> pipeline_info \<Rightarrow> vk_pipeline" where
  "new_pipeline features info =
     (let p = \<lparr>pl_shader = pi_module info, pl_layout = pi_layout info, pl_feature_mask = features, pl_local_size_x = 128,
               pl_entry = take (MAX_VULKAN_ENTRY_NAME - 1) (case pi_name info of None \<Rightarrow> ''main'' | Some n \<Rightarrow> n),
               pl_specs = [], pl_spec_data = [], pl_too_large = False\<rparr>
      in case pi_spec info of
           None \<Rightarrow> p
         | Some (sps, n, bytes) \<Rightarrow>
             if MAX_SPECIALIZATION_ENTRIES < length sps \<or> MAX_SPECIALIZATION_BYTES < n then p\<lparr>pl_too_large := True\<rparr>
             else p\<lparr>pl_specs := sps, pl_spec_data := (case bytes of None \<Rightarrow> replicate n 0 | Some bs \<Rightarrow> take n bs)\<rparr>)"

fun vkCreateComputePipelines :: "u64 \<Rightarrow> (nat option \<times> pipeline_info) list \<Rightarrow> vk_state \<Rightarrow> vk_result \<times> vk_state" where
  "vkCreateComputePipelines features [] s = (VK_SUCCESS, s)"
| "vkCreateComputePipelines features ((None, info) # rest) s = (VK_ERROR_OUT_OF_HOST_MEMORY, s)"
| "vkCreateComputePipelines features ((Some h, info) # rest) s =
     vkCreateComputePipelines features rest (s\<lparr>vs_pipelines := (vs_pipelines s)(h \<mapsto> new_pipeline features info)\<rparr>)"

end
