(* ===== verification/Vk_Message.thy ===== *)
theory Vk_Message
  imports Vk_Objects
begin

text \<open>
  A dispatch as the client driver sends it: the bindings of its descriptor sets with the memory behind
  them, the command line and the file descriptors beside it, and the reading of the answer.
\<close>

record dispatch_op =
  op_pipeline :: "nat option"
  op_sets :: "vk_set option list"
  op_x :: u32
  op_y :: u32
  op_z :: u32
  op_push :: "u8 list"
  op_push_size :: u32

datatype send_error = SEND_EINVAL | SEND_E2BIG | SEND_ENAMETOOLONG | SEND_EIO | SEND_EMSGSIZE | SEND_ENOMEM | SEND_ERRNO int

definition MAX_DESCRIPTOR_SETS :: nat where "MAX_DESCRIPTOR_SETS = 8"

section \<open>The bindings\<close>

definition copy_alias_enabled :: "environment \<Rightarrow> bool" where
  "copy_alias_enabled env = env_truthy_default env ''PDOCKER_VULKAN_ALIAS_COPIES'' False"

text \<open>The memory and the offset a range of a buffer is read from.\<close>

definition dispatch_source :: "environment \<Rightarrow> vk_buffer \<Rightarrow> nat \<Rightarrow> u64 \<Rightarrow> u64 \<Rightarrow> nat \<times> u64" where
  "dispatch_source env bf m off n =
     (case (if copy_alias_enabled env then resolve_copy_alias bf off n else None) of
        Some p \<Rightarrow> p
      | None \<Rightarrow> (m, vb_memory_offset bf + off))"

text \<open>One descriptor: the descriptor file of the memory and what the line says of the binding, or
  nothing when it is not bound.\<close>

definition descriptor_message ::
  "environment \<Rightarrow> vk_state \<Rightarrow> nat \<Rightarrow> nat \<Rightarrow> vk_descriptor \<Rightarrow> (int \<times> dispatch_binding) option" where
  "descriptor_message env s st i d =
     (case vd_buffer d of
        None \<Rightarrow> None
      | Some b \<Rightarrow>
          (case vb_memory (the_buffer s b) of
             None \<Rightarrow> None
           | Some m \<Rightarrow>
               let n = descriptor_binding_size s d;
                   (dm, off) = dispatch_source env (the_buffer s b) m (vd_offset d) n
               in if n = 0 then None
                  else Some (vm_fd (the_memory s dm),
                    \<lparr>db_set = of_nat st, db_binding = of_nat i, db_offset = off, db_size = n,
                     db_api_offset = vd_offset d, db_api_range = vd_range d,
                     db_api_buffer_size = vb_size (the_buffer s b), db_api_type = vd_type d,
                     db_api_dynamic = (if vd_dynamic d then 1 else 0),
                     db_api_memory_offset = vb_memory_offset (the_buffer s b),
                     db_api_memory_size = vm_size (the_memory s dm), db_api_memory_id = of_nat dm,
                     db_api_buffer_id = of_nat b\<rparr>)))"

definition set_messages ::
  "environment \<Rightarrow> vk_state \<Rightarrow> nat \<times> vk_set option \<Rightarrow> (int \<times> dispatch_binding) list" where
  "set_messages env s p =
     (case snd p of
        None \<Rightarrow> []
      | Some ds \<Rightarrow> List.map_filter (\<lambda>(i, d). descriptor_message env s (fst p) i d) (zip [0..<MAX_STORAGE_BUFFERS] ds))"

definition collect_bindings :: "environment \<Rightarrow> vk_state \<Rightarrow> dispatch_op \<Rightarrow> (int \<times> dispatch_binding) list" where
  "collect_bindings env s op1 =
     concat (map (set_messages env s) (zip [0..<MAX_DESCRIPTOR_SETS] (op_sets op1)))"

section \<open>The words of the command line\<close>

abbreviation dec32 :: "u32 \<Rightarrow> string" where
  "dec32 w \<equiv> decimal (unat w)"

abbreviation dec64 :: "u64 \<Rightarrow> string" where
  "dec64 w \<equiv> decimal (unat w)"

definition to_bytes :: "string \<Rightarrow> u8 list" where
  "to_bytes s = map (\<lambda>c. of_nat (of_char c)) s"

definition op_push_extent :: "vk_state \<Rightarrow> dispatch_op \<Rightarrow> u32" where
  "op_push_extent s op1 =
     (case pl_layout (the (vs_pipelines s (the (op_pipeline op1)))) of
        None \<Rightarrow> op_push_size op1
      | Some l \<Rightarrow> max (op_push_size op1) (the (vs_layouts s l)))"

definition block_word :: "u8 list \<Rightarrow> nat \<Rightarrow> string" where
  "block_word bs cap = (if bs = [] then ''-'' else hex_encode bs (2 * cap + 1))"

definition header_words :: "vk_state \<Rightarrow> dispatch_op \<Rightarrow> vk_pipeline \<Rightarrow> vk_shader \<Rightarrow> nat \<Rightarrow> string list" where
  "header_words s op1 p sh n =
     [dec64 (sh_size sh), decimal n, dec32 (op_push_extent s op1), dec32 (op_x op1),
      dec32 (if op_y op1 \<noteq> 0 then op_y op1 else 1), dec32 (if op_z op1 \<noteq> 0 then op_z op1 else 1),
      block_word (take (unat (op_push_extent s op1)) (op_push op1)) MAX_PUSH_BYTES,
      block_word (to_bytes (if pl_entry p \<noteq> [] then pl_entry p else ''main'')) MAX_VULKAN_ENTRY_NAME,
      decimal (length (pl_specs p)), decimal (length (pl_spec_data p)),
      block_word (pl_spec_data p) MAX_SPECIALIZATION_BYTES]"

definition spec_words :: "dispatch_spec \<Rightarrow> string list" where
  "spec_words sp = [dec32 (sp_id sp), dec32 (sp_offset sp), dec64 (sp_size sp)]"

definition binding_words :: "dispatch_binding \<Rightarrow> string list" where
  "binding_words b =
     [dec32 (db_set b), dec32 (db_binding b), dec64 (db_offset b), dec64 (db_size b), dec64 (db_api_offset b),
      dec64 (db_api_range b), dec64 (db_api_buffer_size b), dec32 (db_api_type b), dec32 (db_api_dynamic b),
      dec64 (db_api_memory_offset b), dec64 (db_api_memory_size b), dec64 (db_api_memory_id b),
      dec64 (db_api_buffer_id b)]"

text \<open>Options the environment sets: a switch is sent whenever its variable exists.\<close>

definition flag_text :: "bool \<Rightarrow> string" where
  "flag_text b = (if b then ''1'' else ''0'')"

definition client_flag :: "environment \<Rightarrow> string \<Rightarrow> string \<Rightarrow> bool \<Rightarrow> string list" where
  "client_flag env var name def =
     (case env var of None \<Rightarrow> [] | Some _ \<Rightarrow> [name @ flag_text (env_truthy_default env var def)])"

definition client_number :: "environment \<Rightarrow> string \<Rightarrow> string \<Rightarrow> string list" where
  "client_number env var name = (case env_number env var of None \<Rightarrow> [] | Some v \<Rightarrow> [name @ dec64 v])"

definition profile_response :: "environment \<Rightarrow> bool" where
  "profile_response env \<longleftrightarrow>
     env ''PDOCKER_VULKAN_ICD_TRACE_ALLOC'' \<noteq> None \<or> env_truthy_default env ''PDOCKER_GPU_DISPATCH_PROFILE_RESPONSE'' False"

definition cache_option_words :: "environment \<Rightarrow> string list" where
  "cache_option_words env =
     client_flag env ''PDOCKER_GPU_WRITEONLY_DIRTY_PROBE'' ''dirty_probe='' False
     @ client_flag env ''PDOCKER_GPU_WRITEONLY_DIRTY_WRITEBACK'' ''dirty_writeback='' False
     @ client_flag env ''PDOCKER_GPU_WRITEONLY_BUFFER_CACHE'' ''writeonly_cache='' False
     @ client_flag env ''PDOCKER_GPU_MUTABLE_BUFFER_CACHE'' ''mutable_cache='' True
     @ client_number env ''PDOCKER_GPU_MUTABLE_BUFFER_CACHE_MAX_BYTES'' ''mutable_cache_max=''
     @ client_flag env ''PDOCKER_GPU_RESIDENT_CACHE'' ''resident_cache='' True
     @ client_number env ''PDOCKER_GPU_RESIDENT_CACHE_MIN_BYTES'' ''resident_cache_min=''
     @ client_number env ''PDOCKER_GPU_WRITEONLY_DIRTY_PROBE_MIN_BYTES'' ''dirty_probe_min=''
     @ (if profile_response env then [''profile=1''] else [])"

definition shader_option_words :: "environment \<Rightarrow> string list" where
  "shader_option_words env =
     client_flag env ''PDOCKER_GPU_STRICT_PASSTHROUGH'' ''strict_passthrough='' False
     @ client_flag env ''PDOCKER_GPU_STRICT_DEVICE_LOCAL_STAGING'' ''strict_device_local_staging='' False
     @ client_flag env ''PDOCKER_GPU_REWRITE_DUPLICATE_DESCRIPTOR_BINDINGS'' ''rewrite_duplicate_descriptors='' True
     @ client_flag env ''PDOCKER_GPU_MATERIALIZE_DESCRIPTOR_ALIASES'' ''materialize_descriptor_aliases='' False
     @ client_flag env ''PDOCKER_GPU_MATERIALIZE_SPIRV_SPECIALIZATION_CONSTANTS'' ''materialize_specialization='' True
     @ client_flag env ''PDOCKER_GPU_DISABLE_PIPELINE_OPTIMIZATION'' ''disable_pipeline_optimization='' True
     @ client_flag env ''PDOCKER_GPU_SKIP_UNUSED_DESCRIPTOR_TRANSFERS'' ''skip_unused_descriptor_transfers='' True
     @ client_flag env ''PDOCKER_GPU_USE_SPIRV_DESCRIPTOR_ACCESS'' ''use_spirv_descriptor_access='' True
     @ client_flag env ''PDOCKER_GPU_DISABLE_OVERLAP_ALIASING'' ''disable_overlap_aliasing='' False
     @ client_flag env ''PDOCKER_GPU_CPU_ORACLE'' ''cpu_oracle='' False
     @ client_flag env ''PDOCKER_GPU_Q6K_ORACLE_WRITEBACK'' ''q6k_oracle_writeback='' False
     @ client_flag env ''PDOCKER_GPU_Q6K_SAFE_KERNEL'' ''q6k_safe_kernel='' False
     @ client_flag env ''PDOCKER_GPU_Q4K_SAFE_KERNEL'' ''q4k_safe_kernel='' False
     @ client_flag env ''PDOCKER_GPU_Q4K_TARGETED_SPECIALIZATION'' ''q4k_targeted_specialization='' False
     @ client_flag env ''PDOCKER_VULKAN_DISABLE_8BIT_STORAGE'' ''disable_storage8='' False
     @ client_flag env ''PDOCKER_VULKAN_DISABLE_16BIT_STORAGE'' ''disable_storage16='' False
     @ client_flag env ''PDOCKER_VULKAN_DISABLE_SUBGROUP_ARITHMETIC'' ''disable_subgroup_arithmetic='' False"

definition feature_words :: "u64 \<Rightarrow> string list" where
  "feature_words features = [''requested_feature_mask='' @ dec64 features]"

section \<open>The command\<close>

text \<open>Every \<open>snprintf\<close> appends a piece to the buffer of 4096 bytes and fails when it is cut.\<close>

fun append_pieces :: "string \<Rightarrow> string list \<Rightarrow> send_error + string" where
  "append_pieces cmd [] = Inr cmd"
| "append_pieces cmd (p # ps) =
     (if 4096 \<le> length cmd + length p then Inl SEND_ENAMETOOLONG else append_pieces (cmd @ p) ps)"

definition dispatch_pieces ::
  "environment \<Rightarrow> vk_state \<Rightarrow> dispatch_op \<Rightarrow> vk_pipeline \<Rightarrow> vk_shader \<Rightarrow> dispatch_binding list \<Rightarrow> string list" where
  "dispatch_pieces env s op1 p sh bs =
     [''VULKAN_DISPATCH_V4'' @ spaced (header_words s op1 p sh (length bs))]
     @ map (\<lambda>sp. spaced (spec_words sp)) (pl_specs p)
     @ map (\<lambda>b. spaced (binding_words b)) bs
     @ map (\<lambda>w. CHR '' '' # w) (cache_option_words env @ shader_option_words env @ feature_words (pl_feature_mask p))"

text \<open>The file descriptors and the text of the message.\<close>

definition dispatch_message :: "environment \<Rightarrow> vk_state \<Rightarrow> dispatch_op \<Rightarrow> send_error + int list \<times> string" where
  "dispatch_message env s op1 =
     (case op_pipeline op1 of
        None \<Rightarrow> Inl SEND_EINVAL
      | Some pid \<Rightarrow>
          let p = the (vs_pipelines s pid)
          in case pl_shader p of
               None \<Rightarrow> Inl SEND_EINVAL
             | Some shid \<Rightarrow>
                 let sh = the (vs_shaders s shid); fbs = collect_bindings env s op1
                 in if sh_fd sh < 0 \<or> sh_size sh = 0 then Inl SEND_EINVAL
                    else if MAX_STORAGE_BUFFERS < length fbs then Inl SEND_E2BIG
                    else if fbs = [] then Inl SEND_EINVAL
                    else if MAX_PUSH_BYTES < unat (op_push_extent s op1) then Inl SEND_E2BIG
                    else if pl_too_large p then Inl SEND_E2BIG
                    else case append_pieces [] (dispatch_pieces env s op1 p sh (map snd fbs)) of
                           Inl e \<Rightarrow> Inl e
                         | Inr cmd \<Rightarrow>
                             if 4096 \<le> length cmd + 2 then Inl SEND_ENAMETOOLONG
                             else Inr (sh_fd sh # map fst fbs, cmd @ [CHR 0x0A]))"

section \<open>The answer\<close>

text \<open>What the socket answers: a negative error of \<open>connect_queue\<close>, an error of \<open>sendmsg\<close>, the bytes
  read until the end, which enlargement of the line fails, and the contents of the memories afterwards.\<close>

record gpu_answer =
  ga_connect :: int
  ga_sendmsg :: "int option"
  ga_response :: string
  ga_no_memory :: "nat option"
  ga_bytes :: "nat \<Rightarrow> nat \<Rightarrow> u8"

definition MAX_RESPONSE :: nat where "MAX_RESPONSE = 1024 * 1024"

fun response_line :: "nat \<Rightarrow> string \<Rightarrow> string" where
  "response_line 0 s = []"
| "response_line (Suc k) [] = []"
| "response_line (Suc k) (c # s) = (if c = CHR 0x0A then [c] else c # response_line k s)"

text \<open>The line starts on the stack and doubles when it is full; an enlargement may fail.\<close>

definition line_lost :: "nat option \<Rightarrow> string \<Rightarrow> bool" where
  "line_lost no_memory resp =
     (case no_memory of
        None \<Rightarrow> False
      | Some k \<Rightarrow>
          let cap = 16384 * 2 ^ k; line = response_line (cap - 1) resp
          in cap < MAX_RESPONSE \<and> length line + 1 = cap \<and> last line \<noteq> CHR 0x0A)"

definition response_code :: "nat option \<Rightarrow> string \<Rightarrow> send_error option" where
  "response_code no_memory resp =
     (let line = response_line (MAX_RESPONSE - 1) resp
      in if line_lost no_memory resp then Some SEND_ENOMEM
         else if MAX_RESPONSE \<le> length line + 1 then Some SEND_EMSGSIZE
         else if \<not> contains (takeWhile (\<lambda>c. c \<noteq> CHR 0x00) line) (CHR 0x22 # ''valid'' @ [CHR 0x22] @ '':true'')
         then Some SEND_EIO else None)"

definition send_generic_vulkan_dispatch_op ::
  "(int list \<times> string \<Rightarrow> (nat \<Rightarrow> nat \<Rightarrow> u8) \<Rightarrow> gpu_answer) \<Rightarrow> environment \<Rightarrow> dispatch_op \<Rightarrow> vk_state
     \<Rightarrow> send_error option \<times> vk_state" where
  "send_generic_vulkan_dispatch_op gpu env op1 s =
     (case dispatch_message env s op1 of
        Inl e \<Rightarrow> (Some e, s)
      | Inr msg \<Rightarrow>
          let an = gpu msg (vs_bytes s)
          in if ga_connect an < 0 then (Some (SEND_ERRNO (ga_connect an)), s)
             else case ga_sendmsg an of
                    Some e \<Rightarrow> (Some (SEND_ERRNO (- e)), s)
                  | None \<Rightarrow> (response_code (ga_no_memory an) (ga_response an), s\<lparr>vs_bytes := ga_bytes an\<rparr>))"

end
