(* ===== verification/Vk_Invariant.thy ===== *)
theory Vk_Invariant
  imports Vk_Message
begin

text \<open>
  The invariant of the client driver's objects: a bound buffer lies inside a live memory, a recorded
  copy names a range of its buffer and a range of a live memory. Creation, binding and the changes of
  the copy table keep it; what it gives is that no address the driver computes wraps around or leaves
  its mapping.
\<close>

definition alias_ok :: "vk_state \<Rightarrow> vk_buffer \<Rightarrow> copy_alias \<Rightarrow> bool" where
  "alias_ok s bf a \<longleftrightarrow>
     ca_valid a \<and> ca_size a \<noteq> 0 \<and> unat (ca_dst_offset a) + unat (ca_size a) \<le> unat (vb_size bf)
     \<and> (\<exists>mm. vs_memories s (ca_memory a) = Some mm \<and> unat (ca_src_offset a) + unat (ca_size a) \<le> unat (vm_size mm))"

definition buffer_ok :: "vk_state \<Rightarrow> vk_buffer \<Rightarrow> bool" where
  "buffer_ok s bf \<longleftrightarrow>
     vb_size bf \<noteq> 0 \<and> vb_req_alignment bf = REQUIREMENT_ALIGNMENT \<and> unat (vb_size bf) \<le> unat (vb_req_size bf)
     \<and> (case vb_memory bf of
          None \<Rightarrow> vb_aliases bf = []
        | Some m \<Rightarrow> \<exists>mm. vs_memories s m = Some mm \<and> unat (vb_memory_offset bf) + unat (vb_size bf) \<le> unat (vm_size mm))
     \<and> length (vb_aliases bf) \<le> MAX_COPY_ALIASES \<and> (\<forall>a \<in> set (vb_aliases bf). alias_ok s bf a)"

text \<open>A file length is a signed number, so no memory reaches \<open>2 ^ 63\<close> bytes.\<close>

definition vk_inv :: "vk_state \<Rightarrow> bool" where
  "vk_inv s \<longleftrightarrow>
     (\<forall>m mm. vs_memories s m = Some mm \<longrightarrow> unat (vm_size mm) < 2 ^ 63)
     \<and> (\<forall>b bf. vs_buffers s b = Some bf \<longrightarrow> buffer_ok s bf)"

section \<open>Sizes\<close>

lemma unat_plus:
  fixes a b :: u64
  assumes "unat a + unat b < 2 ^ 64" shows "unat (a + b) = unat a + unat b"
  using assms unat_add_lem [of a b] by simp

lemma unat_minus:
  fixes a b :: u64
  assumes "b \<le> a" shows "unat (a - b) = unat a - unat b"
  using assms by (simp add: unat_sub)

lemma align_grows:
  assumes "v \<le> - 16"
  shows "unat v \<le> unat (align_device_size v REQUIREMENT_ALIGNMENT)"
proof (cases "v mod 16 = 0")
  case True
  then show ?thesis by (simp add: align_device_size_def REQUIREMENT_ALIGNMENT_def)
next
  case False
  have r: "v mod 16 < 16" by (simp add: word_mod_less_divisor)
  then have le: "v mod 16 \<le> 16" by simp
  have "unat v \<le> 2 ^ 64 - 16"
    using assms by (simp add: word_le_nat_alt)
  moreover have "unat (16 - v mod 16) = 16 - unat (v mod 16)" using unat_minus [OF le] by simp
  moreover have "0 < unat (v mod 16)" using False by (simp add: unat_gt_0)
  ultimately have "unat (v + (16 - v mod 16)) = unat v + unat (16 - v mod 16)"
    by (intro unat_plus) simp
  then have "unat v \<le> unat (v + 16 - v mod 16)" by (simp only: add_diff_eq le_add1)
  with False show ?thesis
    by (simp add: align_device_size_def REQUIREMENT_ALIGNMENT_def Let_def)
qed

section \<open>Creation and binding\<close>

lemma alias_ok_mono:
  assumes "alias_ok s bf a" "vb_size bf' = vb_size bf"
    "\<And>m mm. vs_memories s m = Some mm \<Longrightarrow> vs_memories s' m = Some mm"
  shows "alias_ok s' bf' a"
  using assms unfolding alias_ok_def by fastforce

lemma buffer_ok_mono:
  assumes "buffer_ok s bf" "\<And>m mm. vs_memories s m = Some mm \<Longrightarrow> vs_memories s' m = Some mm"
  shows "buffer_ok s' bf"
proof -
  have "\<forall>a \<in> set (vb_aliases bf). alias_ok s' bf a"
    using assms unfolding buffer_ok_def by (blast intro: alias_ok_mono)
  with assms show ?thesis unfolding buffer_ok_def by (auto split: option.splits)
qed

lemma buffer_ok_frame [simp]:
  "buffer_ok (s\<lparr>vs_buffers := g\<rparr>) bf = buffer_ok s bf"
  "buffer_ok (s\<lparr>vs_bytes := f\<rparr>) bf = buffer_ok s bf"
  by (auto simp: buffer_ok_def alias_ok_def cong: option.case_cong)

lemma vk_inv_buffer: "vk_inv s \<Longrightarrow> buffer_ok s bf \<Longrightarrow> vk_inv (s\<lparr>vs_buffers := (vs_buffers s)(b \<mapsto> bf)\<rparr>)"
  unfolding vk_inv_def by simp

lemma vk_inv_bytes [simp]: "vk_inv (s\<lparr>vs_bytes := f\<rparr>) = vk_inv s"
  by (simp add: vk_inv_def)

lemma vk_inv_create_buffer:
  assumes "vk_inv s" "limit \<le> - 16"
  shows "vk_inv (snd (vkCreateBuffer limit h n s))"
proof -
  have "n \<noteq> 0 \<Longrightarrow> n \<le> limit \<Longrightarrow>
      buffer_ok s \<lparr>vb_size = n, vb_req_size = align_device_size n REQUIREMENT_ALIGNMENT,
        vb_req_alignment = REQUIREMENT_ALIGNMENT, vb_memory = None, vb_memory_offset = 0, vb_aliases = []\<rparr>"
    using align_grows [of n] assms(2) by (simp add: buffer_ok_def)
  with assms(1) show ?thesis
    by (auto simp: vkCreateBuffer_def vk_inv_buffer not_less split: option.split)
qed

lemma vk_inv_allocate:
  assumes inv: "vk_inv s" and fresh: "\<And>m. va_handle an = Some m \<Longrightarrow> vs_memories s m = None"
    and length63: "0 \<le> va_fd an \<Longrightarrow> unat n < 2 ^ 63"
  shows "vk_inv (snd (vkAllocateMemory limit guarded an n t s))"
proof -
  have "vk_inv (s\<lparr>vs_memories := (vs_memories s)(m \<mapsto> mm), vs_bytes := f\<rparr>)"
    if "vs_memories s m = None" "unat (vm_size mm) < 2 ^ 63" for m mm f
  proof -
    have "buffer_ok (s\<lparr>vs_memories := (vs_memories s)(m \<mapsto> mm), vs_bytes := f\<rparr>) bf" if "buffer_ok s bf" for bf
      using \<open>vs_memories s m = None\<close> by (intro buffer_ok_mono [OF that]) auto
    then show ?thesis using inv that unfolding vk_inv_def by simp
  qed
  with inv fresh length63 show ?thesis
    by (auto simp: vkAllocateMemory_def not_less split: option.split)
qed

lemma vk_inv_bind:
  assumes inv: "vk_inv s" and b: "vs_buffers s i = Some bf" and m: "vs_memories s j = Some mm"
  shows "vk_inv (snd (vkBindBufferMemory (Some i) (Some j) off s))"
proof -
  have ok: "buffer_ok s bf" using inv b by (simp add: vk_inv_def)
  have al: "vb_req_alignment bf \<noteq> 0" using ok by (simp add: buffer_ok_def REQUIREMENT_ALIGNMENT_def)
  have nz: "vb_req_size bf \<noteq> 0"
  proof
    assume "vb_req_size bf = 0"
    with ok have "unat (vb_size bf) = 0" by (simp add: buffer_ok_def)
    then have "vb_size bf = 0" by (simp add: unat_eq_zero)
    with ok show False by (simp add: buffer_ok_def)
  qed
  have bound: "buffer_ok s (bf\<lparr>vb_memory := Some j, vb_memory_offset := off\<rparr>)"
    if "\<not> vm_size mm < off" "\<not> vm_size mm - off < vb_req_size bf"
  proof -
    have "unat (vm_size mm - off) = unat (vm_size mm) - unat off"
      using that(1) by (simp add: unat_minus)
    moreover have "unat off \<le> unat (vm_size mm)" "unat (vb_req_size bf) \<le> unat (vm_size mm - off)"
      using that by (simp_all add: word_less_nat_alt)
    moreover have "unat (vb_size bf) \<le> unat (vb_req_size bf)" "vb_size bf \<noteq> 0" using ok by (simp_all add: buffer_ok_def)
    ultimately have "unat off + unat (vb_size bf) \<le> unat (vm_size mm)" by linarith
    moreover have "\<forall>a \<in> set (vb_aliases bf). alias_ok s (bf\<lparr>vb_memory := Some j, vb_memory_offset := off\<rparr>) a"
      using ok by (auto simp: buffer_ok_def intro: alias_ok_mono)
    ultimately show ?thesis using ok m by (simp add: buffer_ok_def)
  qed
  show ?thesis
  proof (cases "off mod vb_req_alignment bf \<noteq> 0 \<or> vm_size mm < off \<or> vm_size mm - off < vb_req_size bf")
    case True
    then show ?thesis using inv al nz b m by (auto simp: vkBindBufferMemory_def Let_def)
  next
    case False
    then have "vk_inv (s\<lparr>vs_buffers := (vs_buffers s)(i \<mapsto> bf\<lparr>vb_memory := Some j, vb_memory_offset := off\<rparr>)\<rparr>)"
      using bound by (intro vk_inv_buffer inv) auto
    with False show ?thesis using al nz b m by (simp add: vkBindBufferMemory_def Let_def)
  qed
qed

section \<open>Addresses\<close>

lemma buffer_ptr_inside:
  assumes inv: "vk_inv s" and b: "vs_buffers s i = Some bf" and p: "buffer_ptr s (Some i) off n = Some (m, q)"
    and n: "n \<noteq> 0"
  shows "vb_memory bf = Some m" "unat q = unat (vb_memory_offset bf) + unat off"
    "unat off + unat n \<le> unat (vb_size bf)" "unat q + unat n \<le> unat (vm_size (the_memory s m))"
proof -
  show mem: "vb_memory bf = Some m"
    using p b by (auto simp: buffer_ptr_def split: option.splits if_splits)
  have q: "q = vb_memory_offset bf + off"
    using p b by (auto simp: buffer_ptr_def split: option.splits if_splits)
  have ok: "buffer_ok s bf" using inv b by (simp add: vk_inv_def)
  then obtain mm where mm: "vs_memories s m = Some mm"
      "unat (vb_memory_offset bf) + unat (vb_size bf) \<le> unat (vm_size mm)"
    using mem by (auto simp: buffer_ok_def)
  have "0 < n" using n by (simp add: word_gt_0)
  then have "off \<le> vb_size bf" "n \<le> vb_size bf - off"
    using p b mem mm by (auto simp: buffer_ptr_def buffer_available_def Let_def not_less split: if_splits)
  then show off: "unat off + unat n \<le> unat (vb_size bf)"
    using unat_minus [of off "vb_size bf"] by (simp add: word_le_nat_alt)
  have "unat (vm_size mm) < 2 ^ 64" using unat64 [of "vm_size mm"] by simp
  then show uq: "unat q = unat (vb_memory_offset bf) + unat off"
    unfolding q using off mm(2) by (intro unat_plus) linarith
  show "unat q + unat n \<le> unat (vm_size (the_memory s m))"
    using uq off mm by simp
qed

lemma descriptor_inside:
  assumes b: "vd_buffer d = Some i" and n: "descriptor_binding_size s d \<noteq> 0"
  shows "unat (vd_offset d) + unat (descriptor_binding_size s d) \<le> unat (vb_size (the_buffer s i))"
proof -
  let ?bf = "the_buffer s i"
  have "vd_offset d \<le> vb_size ?bf" using n b by (auto simp: descriptor_binding_size_def Let_def split: if_splits)
  moreover have "descriptor_binding_size s d \<le> vb_size ?bf - vd_offset d"
    using b by (auto simp: descriptor_binding_size_def Let_def)
  ultimately show ?thesis using unat_minus [of "vd_offset d" "vb_size ?bf"]
    by (simp add: word_le_nat_alt)
qed

lemma alias_inside:
  assumes inv: "vk_inv s" and b: "vs_buffers s i = Some bf"
    and r: "resolve_copy_alias bf off n = Some (m, q)"
  shows "\<exists>a \<in> set (vb_aliases bf). alias_serves off n a \<and> m = ca_memory a
       \<and> unat q = unat (ca_src_offset a) + (unat off - unat (ca_dst_offset a))"
    "unat q + unat n \<le> unat (vm_size (the_memory s m))"
proof -
  obtain a where a: "a \<in> set (vb_aliases bf)" "alias_serves off n a" "m = ca_memory a"
      "q = ca_src_offset a + (off - ca_dst_offset a)"
    using r by (auto simp: resolve_copy_alias_def find_Some_iff in_set_conv_nth split: option.splits)
  have "alias_ok s bf a" using inv b a(1) by (auto simp: vk_inv_def buffer_ok_def)
  then obtain mm where mm: "vs_memories s m = Some mm"
      "unat (ca_src_offset a) + unat (ca_size a) \<le> unat (vm_size mm)"
    using a(3) by (auto simp: alias_ok_def)
  have d: "unat (off - ca_dst_offset a) = unat off - unat (ca_dst_offset a)"
    using a(2) by (simp add: alias_serves_def unat_minus)
  have le: "off - ca_dst_offset a \<le> ca_size a" "n \<le> ca_size a - (off - ca_dst_offset a)"
    using a(2) by (auto simp: alias_serves_def)
  then have dn: "unat (off - ca_dst_offset a) + unat n \<le> unat (ca_size a)"
    using unat_minus [OF le(1)] by (simp add: word_le_nat_alt)
  have "unat (vm_size mm) < 2 ^ 64" using unat64 [of "vm_size mm"] by simp
  then have q: "unat q = unat (ca_src_offset a) + unat (off - ca_dst_offset a)"
    unfolding a(4) using dn mm(2) by (intro unat_plus) linarith
  with a d show "\<exists>a \<in> set (vb_aliases bf). alias_serves off n a \<and> m = ca_memory a
       \<and> unat q = unat (ca_src_offset a) + (unat off - unat (ca_dst_offset a))" by auto
  show "unat q + unat n \<le> unat (vm_size (the_memory s m))" using q dn mm by simp
qed

section \<open>The table of copies\<close>

lemma buffer_ok_invalidate: "buffer_ok s bf \<Longrightarrow> buffer_ok s (invalidate_copy_aliases off n bf)"
proof -
  assume ok: "buffer_ok s bf"
  have "\<forall>a \<in> set (vb_aliases (invalidate_copy_aliases off n bf)). alias_ok s (invalidate_copy_aliases off n bf) a"
    using ok by (auto simp: buffer_ok_def invalidate_copy_aliases_def intro: alias_ok_mono)
  moreover have "length (vb_aliases (invalidate_copy_aliases off n bf)) \<le> MAX_COPY_ALIASES"
    using ok order_trans [OF length_filter_le]
    by (auto simp: buffer_ok_def invalidate_copy_aliases_def)
  ultimately show ?thesis using ok
    by (auto simp: buffer_ok_def invalidate_copy_aliases_def split: option.splits)
qed

lemma buffer_ok_add:
  assumes ok: "buffer_ok s bf" and m: "vb_memory bf \<noteq> None" and mm: "vs_memories s sm = Some mm"
    and src: "unat so + unat n \<le> unat (vm_size mm)" and dst: "unat off + unat n \<le> unat (vb_size bf)"
  shows "buffer_ok s (add_copy_alias off n sm so bf)"
proof (cases "n = 0")
  case False
  let ?i = "invalidate_copy_aliases off n bf"
  let ?a = "\<lparr>ca_valid = True, ca_memory = sm, ca_src_offset = so, ca_dst_offset = off, ca_size = n\<rparr>"
  let ?r = "add_copy_alias off n sm so bf"
  have iok: "buffer_ok s ?i" by (rule buffer_ok_invalidate [OF ok])
  have same: "vb_size ?r = vb_size bf" "vb_memory ?r = vb_memory bf" "vb_memory_offset ?r = vb_memory_offset bf"
      "vb_req_size ?r = vb_req_size bf" "vb_req_alignment ?r = vb_req_alignment bf"
    by (simp_all add: add_copy_alias_def invalidate_copy_aliases_def Let_def)
  have sub: "set (vb_aliases ?r) \<subseteq> insert ?a (set (vb_aliases ?i))"
    using False set_drop_subset [of 1 "vb_aliases ?i"] by (auto simp: add_copy_alias_def Let_def)
  have len: "length (vb_aliases ?r) \<le> MAX_COPY_ALIASES"
    using iok False by (auto simp: add_copy_alias_def Let_def buffer_ok_def MAX_COPY_ALIASES_def)
  have "alias_ok s ?r ?a" using False mm src dst same by (simp add: alias_ok_def)
  moreover have "alias_ok s ?r a" if "a \<in> set (vb_aliases ?i)" for a
    using iok that same by (auto simp: buffer_ok_def invalidate_copy_aliases_def intro: alias_ok_mono)
  ultimately have "\<forall>a \<in> set (vb_aliases ?r). alias_ok s ?r a" using sub by blast
  with ok m len show ?thesis by (auto simp: buffer_ok_def same)
qed (use ok in \<open>simp add: add_copy_alias_def\<close>)

end
