(* ===== verification/Vk_Protocol.thy ===== *)
theory Vk_Protocol
  imports Vk_Invariant
begin

text \<open>
  The two ends of the GPU bridge understand each other: the executor parses from the text and the
  descriptors of a message exactly the dispatch the client driver put into it.
\<close>

section \<open>Options\<close>

lemma case_option_Some_id [simp]: "(case x of None \<Rightarrow> None | Some b \<Rightarrow> Some b) = x"
  by (simp split: option.split)

lemma flag_case: "(case x of None \<Rightarrow> False | Some b \<Rightarrow> b) = (x = Some True)"
  by (simp split: option.split)

definition flag_of :: "environment \<Rightarrow> string \<Rightarrow> bool \<Rightarrow> bool option" where
  "flag_of env var def = (case env var of None \<Rightarrow> None | Some _ \<Rightarrow> Some (env_truthy_default env var def))"

text \<open>The options the executor is meant to see.\<close>

definition intended_options :: "environment \<Rightarrow> u64 \<Rightarrow> dispatch_options" where
  "intended_options env features =
     \<lparr>vo_dirty_probe = flag_of env ''PDOCKER_GPU_WRITEONLY_DIRTY_PROBE'' False,
      vo_dirty_writeback = flag_of env ''PDOCKER_GPU_WRITEONLY_DIRTY_WRITEBACK'' False,
      vo_dirty_probe_min = env_number env ''PDOCKER_GPU_WRITEONLY_DIRTY_PROBE_MIN_BYTES'',
      vo_writeonly_cache = flag_of env ''PDOCKER_GPU_WRITEONLY_BUFFER_CACHE'' False,
      vo_mutable_cache = flag_of env ''PDOCKER_GPU_MUTABLE_BUFFER_CACHE'' True,
      vo_mutable_cache_max = env_number env ''PDOCKER_GPU_MUTABLE_BUFFER_CACHE_MAX_BYTES'',
      vo_resident_cache = flag_of env ''PDOCKER_GPU_RESIDENT_CACHE'' True,
      vo_resident_cache_min = env_number env ''PDOCKER_GPU_RESIDENT_CACHE_MIN_BYTES'',
      vo_profile = (if profile_response env then Some True else None),
      vo_rewrite_duplicate_descriptors = flag_of env ''PDOCKER_GPU_REWRITE_DUPLICATE_DESCRIPTOR_BINDINGS'' True,
      vo_materialize_descriptor_aliases = flag_of env ''PDOCKER_GPU_MATERIALIZE_DESCRIPTOR_ALIASES'' False,
      vo_materialize_specialization = flag_of env ''PDOCKER_GPU_MATERIALIZE_SPIRV_SPECIALIZATION_CONSTANTS'' True,
      vo_disable_pipeline_optimization = flag_of env ''PDOCKER_GPU_DISABLE_PIPELINE_OPTIMIZATION'' True,
      vo_skip_unused_descriptor_transfers = flag_of env ''PDOCKER_GPU_SKIP_UNUSED_DESCRIPTOR_TRANSFERS'' True,
      vo_use_spirv_descriptor_access = flag_of env ''PDOCKER_GPU_USE_SPIRV_DESCRIPTOR_ACCESS'' True,
      vo_strict_passthrough = flag_of env ''PDOCKER_GPU_STRICT_PASSTHROUGH'' False,
      vo_strict_device_local_staging = flag_of env ''PDOCKER_GPU_STRICT_DEVICE_LOCAL_STAGING'' False,
      vo_disable_overlap_aliasing = flag_of env ''PDOCKER_GPU_DISABLE_OVERLAP_ALIASING'' False,
      vo_cpu_oracle = flag_of env ''PDOCKER_GPU_CPU_ORACLE'' False,
      vo_q6k_oracle_writeback = flag_of env ''PDOCKER_GPU_Q6K_ORACLE_WRITEBACK'' False,
      vo_q6k_safe_kernel = flag_of env ''PDOCKER_GPU_Q6K_SAFE_KERNEL'' False,
      vo_q4k_safe_kernel = flag_of env ''PDOCKER_GPU_Q4K_SAFE_KERNEL'' False,
      vo_q4k_targeted_specialization = flag_of env ''PDOCKER_GPU_Q4K_TARGETED_SPECIALIZATION'' False,
      vo_disable_storage8 = flag_of env ''PDOCKER_VULKAN_DISABLE_8BIT_STORAGE'' False = Some True,
      vo_disable_storage16 = flag_of env ''PDOCKER_VULKAN_DISABLE_16BIT_STORAGE'' False = Some True,
      vo_disable_subgroup_arithmetic = flag_of env ''PDOCKER_VULKAN_DISABLE_SUBGROUP_ARITHMETIC'' False = Some True,
      vo_requested_feature_mask = Some features\<rparr>"

lemma switch_flag [simp]: "switch_value (flag_text b) = Some b"
  by (simp add: switch_value_def flag_text_def same_word_def lower_def)

lemma option_parsed:
  "parse_vulkan_dispatch_option o1 (''dirty_probe='' @ flag_text b) = Some (o1\<lparr>vo_dirty_probe := Some b\<rparr>)"
  "parse_vulkan_dispatch_option o1 (''dirty_writeback='' @ flag_text b) = Some (o1\<lparr>vo_dirty_writeback := Some b\<rparr>)"
  "parse_vulkan_dispatch_option o1 (''writeonly_cache='' @ flag_text b) = Some (o1\<lparr>vo_writeonly_cache := Some b\<rparr>)"
  "parse_vulkan_dispatch_option o1 (''mutable_cache='' @ flag_text b) = Some (o1\<lparr>vo_mutable_cache := Some b\<rparr>)"
  "parse_vulkan_dispatch_option o1 (''mutable_cache_max='' @ decimal (unat v)) = Some (o1\<lparr>vo_mutable_cache_max := Some v\<rparr>)"
  "parse_vulkan_dispatch_option o1 (''resident_cache='' @ flag_text b) = Some (o1\<lparr>vo_resident_cache := Some b\<rparr>)"
  "parse_vulkan_dispatch_option o1 (''resident_cache_min='' @ decimal (unat v)) = Some (o1\<lparr>vo_resident_cache_min := Some v\<rparr>)"
  "parse_vulkan_dispatch_option o1 (''dirty_probe_min='' @ decimal (unat v)) = Some (o1\<lparr>vo_dirty_probe_min := Some v\<rparr>)"
  "parse_vulkan_dispatch_option o1 (''profile='' @ flag_text b) = Some (o1\<lparr>vo_profile := Some b\<rparr>)"
  "parse_vulkan_dispatch_option o1 (''strict_passthrough='' @ flag_text b) = Some (o1\<lparr>vo_strict_passthrough := Some b\<rparr>)"
  "parse_vulkan_dispatch_option o1 (''strict_device_local_staging='' @ flag_text b) = Some (o1\<lparr>vo_strict_device_local_staging := Some b\<rparr>)"
  "parse_vulkan_dispatch_option o1 (''rewrite_duplicate_descriptors='' @ flag_text b) = Some (o1\<lparr>vo_rewrite_duplicate_descriptors := Some b\<rparr>)"
  "parse_vulkan_dispatch_option o1 (''materialize_descriptor_aliases='' @ flag_text b) = Some (o1\<lparr>vo_materialize_descriptor_aliases := Some b\<rparr>)"
  "parse_vulkan_dispatch_option o1 (''materialize_specialization='' @ flag_text b) = Some (o1\<lparr>vo_materialize_specialization := Some b\<rparr>)"
  "parse_vulkan_dispatch_option o1 (''disable_pipeline_optimization='' @ flag_text b) = Some (o1\<lparr>vo_disable_pipeline_optimization := Some b\<rparr>)"
  "parse_vulkan_dispatch_option o1 (''skip_unused_descriptor_transfers='' @ flag_text b) = Some (o1\<lparr>vo_skip_unused_descriptor_transfers := Some b\<rparr>)"
  "parse_vulkan_dispatch_option o1 (''use_spirv_descriptor_access='' @ flag_text b) = Some (o1\<lparr>vo_use_spirv_descriptor_access := Some b\<rparr>)"
  "parse_vulkan_dispatch_option o1 (''disable_overlap_aliasing='' @ flag_text b) = Some (o1\<lparr>vo_disable_overlap_aliasing := Some b\<rparr>)"
  "parse_vulkan_dispatch_option o1 (''cpu_oracle='' @ flag_text b) = Some (o1\<lparr>vo_cpu_oracle := Some b\<rparr>)"
  "parse_vulkan_dispatch_option o1 (''q6k_oracle_writeback='' @ flag_text b) = Some (o1\<lparr>vo_q6k_oracle_writeback := Some b\<rparr>)"
  "parse_vulkan_dispatch_option o1 (''q6k_safe_kernel='' @ flag_text b) = Some (o1\<lparr>vo_q6k_safe_kernel := Some b\<rparr>)"
  "parse_vulkan_dispatch_option o1 (''q4k_safe_kernel='' @ flag_text b) = Some (o1\<lparr>vo_q4k_safe_kernel := Some b\<rparr>)"
  "parse_vulkan_dispatch_option o1 (''q4k_targeted_specialization='' @ flag_text b) = Some (o1\<lparr>vo_q4k_targeted_specialization := Some b\<rparr>)"
  "parse_vulkan_dispatch_option o1 (''disable_storage8='' @ flag_text b) = Some (o1\<lparr>vo_disable_storage8 := b\<rparr>)"
  "parse_vulkan_dispatch_option o1 (''disable_storage16='' @ flag_text b) = Some (o1\<lparr>vo_disable_storage16 := b\<rparr>)"
  "parse_vulkan_dispatch_option o1 (''disable_subgroup_arithmetic='' @ flag_text b) = Some (o1\<lparr>vo_disable_subgroup_arithmetic := b\<rparr>)"
  "parse_vulkan_dispatch_option o1 (''requested_feature_mask='' @ decimal (unat v)) = Some (o1\<lparr>vo_requested_feature_mask := Some v\<rparr>)"
  by (simp_all add: parse_vulkan_dispatch_option_def cache_rules_def shader_rules_def kernel_rules_def
      switch_def whole_number_def disabling_def)

lemmas option_parsed_words = option_parsed [simplified]

lemma flag_word:
  "parse_options (client_flag env var name def @ ws) o1 =
     (case flag_of env var def of
        None \<Rightarrow> parse_options ws o1
      | Some b \<Rightarrow> (case parse_vulkan_dispatch_option o1 (name @ flag_text b) of None \<Rightarrow> None | Some o2 \<Rightarrow> parse_options ws o2))"
  by (simp add: client_flag_def flag_of_def split: option.split)

lemma number_word:
  "parse_options (client_number env var name @ ws) o1 =
     (case env_number env var of
        None \<Rightarrow> parse_options ws o1
      | Some v \<Rightarrow> (case parse_vulkan_dispatch_option o1 (name @ dec64 v) of None \<Rightarrow> None | Some o2 \<Rightarrow> parse_options ws o2))"
  by (simp add: client_number_def split: option.split)

lemma profile_word: "parse_vulkan_dispatch_option o1 ''profile=1'' = Some (o1\<lparr>vo_profile := Some True\<rparr>)"
  using option_parsed(9) [of o1 True] by (simp add: flag_text_def)

lemma option_step:
  "parse_options (client_flag env ''PDOCKER_GPU_WRITEONLY_DIRTY_PROBE'' ''dirty_probe='' False @ ws) o1 =
     parse_options ws (vo_dirty_probe_update (\<lambda>old. case flag_of env ''PDOCKER_GPU_WRITEONLY_DIRTY_PROBE'' False of None \<Rightarrow> old | Some b \<Rightarrow> Some b) o1)"
  "parse_options (client_flag env ''PDOCKER_GPU_WRITEONLY_DIRTY_WRITEBACK'' ''dirty_writeback='' False @ ws) o1 =
     parse_options ws (vo_dirty_writeback_update (\<lambda>old. case flag_of env ''PDOCKER_GPU_WRITEONLY_DIRTY_WRITEBACK'' False of None \<Rightarrow> old | Some b \<Rightarrow> Some b) o1)"
  "parse_options (client_flag env ''PDOCKER_GPU_WRITEONLY_BUFFER_CACHE'' ''writeonly_cache='' False @ ws) o1 =
     parse_options ws (vo_writeonly_cache_update (\<lambda>old. case flag_of env ''PDOCKER_GPU_WRITEONLY_BUFFER_CACHE'' False of None \<Rightarrow> old | Some b \<Rightarrow> Some b) o1)"
  "parse_options (client_flag env ''PDOCKER_GPU_MUTABLE_BUFFER_CACHE'' ''mutable_cache='' True @ ws) o1 =
     parse_options ws (vo_mutable_cache_update (\<lambda>old. case flag_of env ''PDOCKER_GPU_MUTABLE_BUFFER_CACHE'' True of None \<Rightarrow> old | Some b \<Rightarrow> Some b) o1)"
  "parse_options (client_number env ''PDOCKER_GPU_MUTABLE_BUFFER_CACHE_MAX_BYTES'' ''mutable_cache_max='' @ ws) o1 =
     parse_options ws (vo_mutable_cache_max_update (\<lambda>old. case env_number env ''PDOCKER_GPU_MUTABLE_BUFFER_CACHE_MAX_BYTES'' of None \<Rightarrow> old | Some b \<Rightarrow> Some b) o1)"
  "parse_options (client_flag env ''PDOCKER_GPU_RESIDENT_CACHE'' ''resident_cache='' True @ ws) o1 =
     parse_options ws (vo_resident_cache_update (\<lambda>old. case flag_of env ''PDOCKER_GPU_RESIDENT_CACHE'' True of None \<Rightarrow> old | Some b \<Rightarrow> Some b) o1)"
  "parse_options (client_number env ''PDOCKER_GPU_RESIDENT_CACHE_MIN_BYTES'' ''resident_cache_min='' @ ws) o1 =
     parse_options ws (vo_resident_cache_min_update (\<lambda>old. case env_number env ''PDOCKER_GPU_RESIDENT_CACHE_MIN_BYTES'' of None \<Rightarrow> old | Some b \<Rightarrow> Some b) o1)"
  "parse_options (client_number env ''PDOCKER_GPU_WRITEONLY_DIRTY_PROBE_MIN_BYTES'' ''dirty_probe_min='' @ ws) o1 =
     parse_options ws (vo_dirty_probe_min_update (\<lambda>old. case env_number env ''PDOCKER_GPU_WRITEONLY_DIRTY_PROBE_MIN_BYTES'' of None \<Rightarrow> old | Some b \<Rightarrow> Some b) o1)"
  "parse_options ((if profile_response env then [''profile=1''] else []) @ ws) o1 =
     parse_options ws (vo_profile_update (\<lambda>old. if profile_response env then Some True else old) o1)"
  "parse_options (client_flag env ''PDOCKER_GPU_STRICT_PASSTHROUGH'' ''strict_passthrough='' False @ ws) o1 =
     parse_options ws (vo_strict_passthrough_update (\<lambda>old. case flag_of env ''PDOCKER_GPU_STRICT_PASSTHROUGH'' False of None \<Rightarrow> old | Some b \<Rightarrow> Some b) o1)"
  "parse_options (client_flag env ''PDOCKER_GPU_STRICT_DEVICE_LOCAL_STAGING'' ''strict_device_local_staging='' False @ ws) o1 =
     parse_options ws (vo_strict_device_local_staging_update (\<lambda>old. case flag_of env ''PDOCKER_GPU_STRICT_DEVICE_LOCAL_STAGING'' False of None \<Rightarrow> old | Some b \<Rightarrow> Some b) o1)"
  "parse_options (client_flag env ''PDOCKER_GPU_REWRITE_DUPLICATE_DESCRIPTOR_BINDINGS'' ''rewrite_duplicate_descriptors='' True @ ws) o1 =
     parse_options ws (vo_rewrite_duplicate_descriptors_update (\<lambda>old. case flag_of env ''PDOCKER_GPU_REWRITE_DUPLICATE_DESCRIPTOR_BINDINGS'' True of None \<Rightarrow> old | Some b \<Rightarrow> Some b) o1)"
  "parse_options (client_flag env ''PDOCKER_GPU_MATERIALIZE_DESCRIPTOR_ALIASES'' ''materialize_descriptor_aliases='' False @ ws) o1 =
     parse_options ws (vo_materialize_descriptor_aliases_update (\<lambda>old. case flag_of env ''PDOCKER_GPU_MATERIALIZE_DESCRIPTOR_ALIASES'' False of None \<Rightarrow> old | Some b \<Rightarrow> Some b) o1)"
  "parse_options (client_flag env ''PDOCKER_GPU_MATERIALIZE_SPIRV_SPECIALIZATION_CONSTANTS'' ''materialize_specialization='' True @ ws) o1 =
     parse_options ws (vo_materialize_specialization_update (\<lambda>old. case flag_of env ''PDOCKER_GPU_MATERIALIZE_SPIRV_SPECIALIZATION_CONSTANTS'' True of None \<Rightarrow> old | Some b \<Rightarrow> Some b) o1)"
  "parse_options (client_flag env ''PDOCKER_GPU_DISABLE_PIPELINE_OPTIMIZATION'' ''disable_pipeline_optimization='' True @ ws) o1 =
     parse_options ws (vo_disable_pipeline_optimization_update (\<lambda>old. case flag_of env ''PDOCKER_GPU_DISABLE_PIPELINE_OPTIMIZATION'' True of None \<Rightarrow> old | Some b \<Rightarrow> Some b) o1)"
  "parse_options (client_flag env ''PDOCKER_GPU_SKIP_UNUSED_DESCRIPTOR_TRANSFERS'' ''skip_unused_descriptor_transfers='' True @ ws) o1 =
     parse_options ws (vo_skip_unused_descriptor_transfers_update (\<lambda>old. case flag_of env ''PDOCKER_GPU_SKIP_UNUSED_DESCRIPTOR_TRANSFERS'' True of None \<Rightarrow> old | Some b \<Rightarrow> Some b) o1)"
  "parse_options (client_flag env ''PDOCKER_GPU_USE_SPIRV_DESCRIPTOR_ACCESS'' ''use_spirv_descriptor_access='' True @ ws) o1 =
     parse_options ws (vo_use_spirv_descriptor_access_update (\<lambda>old. case flag_of env ''PDOCKER_GPU_USE_SPIRV_DESCRIPTOR_ACCESS'' True of None \<Rightarrow> old | Some b \<Rightarrow> Some b) o1)"
  "parse_options (client_flag env ''PDOCKER_GPU_DISABLE_OVERLAP_ALIASING'' ''disable_overlap_aliasing='' False @ ws) o1 =
     parse_options ws (vo_disable_overlap_aliasing_update (\<lambda>old. case flag_of env ''PDOCKER_GPU_DISABLE_OVERLAP_ALIASING'' False of None \<Rightarrow> old | Some b \<Rightarrow> Some b) o1)"
  "parse_options (client_flag env ''PDOCKER_GPU_CPU_ORACLE'' ''cpu_oracle='' False @ ws) o1 =
     parse_options ws (vo_cpu_oracle_update (\<lambda>old. case flag_of env ''PDOCKER_GPU_CPU_ORACLE'' False of None \<Rightarrow> old | Some b \<Rightarrow> Some b) o1)"
  "parse_options (client_flag env ''PDOCKER_GPU_Q6K_ORACLE_WRITEBACK'' ''q6k_oracle_writeback='' False @ ws) o1 =
     parse_options ws (vo_q6k_oracle_writeback_update (\<lambda>old. case flag_of env ''PDOCKER_GPU_Q6K_ORACLE_WRITEBACK'' False of None \<Rightarrow> old | Some b \<Rightarrow> Some b) o1)"
  "parse_options (client_flag env ''PDOCKER_GPU_Q6K_SAFE_KERNEL'' ''q6k_safe_kernel='' False @ ws) o1 =
     parse_options ws (vo_q6k_safe_kernel_update (\<lambda>old. case flag_of env ''PDOCKER_GPU_Q6K_SAFE_KERNEL'' False of None \<Rightarrow> old | Some b \<Rightarrow> Some b) o1)"
  "parse_options (client_flag env ''PDOCKER_GPU_Q4K_SAFE_KERNEL'' ''q4k_safe_kernel='' False @ ws) o1 =
     parse_options ws (vo_q4k_safe_kernel_update (\<lambda>old. case flag_of env ''PDOCKER_GPU_Q4K_SAFE_KERNEL'' False of None \<Rightarrow> old | Some b \<Rightarrow> Some b) o1)"
  "parse_options (client_flag env ''PDOCKER_GPU_Q4K_TARGETED_SPECIALIZATION'' ''q4k_targeted_specialization='' False @ ws) o1 =
     parse_options ws (vo_q4k_targeted_specialization_update (\<lambda>old. case flag_of env ''PDOCKER_GPU_Q4K_TARGETED_SPECIALIZATION'' False of None \<Rightarrow> old | Some b \<Rightarrow> Some b) o1)"
  "parse_options (client_flag env ''PDOCKER_VULKAN_DISABLE_8BIT_STORAGE'' ''disable_storage8='' False @ ws) o1 =
     parse_options ws (vo_disable_storage8_update (\<lambda>old. case flag_of env ''PDOCKER_VULKAN_DISABLE_8BIT_STORAGE'' False of None \<Rightarrow> old | Some b \<Rightarrow> b) o1)"
  "parse_options (client_flag env ''PDOCKER_VULKAN_DISABLE_16BIT_STORAGE'' ''disable_storage16='' False @ ws) o1 =
     parse_options ws (vo_disable_storage16_update (\<lambda>old. case flag_of env ''PDOCKER_VULKAN_DISABLE_16BIT_STORAGE'' False of None \<Rightarrow> old | Some b \<Rightarrow> b) o1)"
  "parse_options (client_flag env ''PDOCKER_VULKAN_DISABLE_SUBGROUP_ARITHMETIC'' ''disable_subgroup_arithmetic='' False @ ws) o1 =
     parse_options ws (vo_disable_subgroup_arithmetic_update (\<lambda>old. case flag_of env ''PDOCKER_VULKAN_DISABLE_SUBGROUP_ARITHMETIC'' False of None \<Rightarrow> old | Some b \<Rightarrow> b) o1)"
  unfolding flag_word number_word option_parsed
  by (cases o1; simp add: profile_word split: option.split)+

lemma options_reach_executor:
  "parse_options (cache_option_words env @ shader_option_words env @ feature_words features) no_options =
     Some (intended_options env features)"
  unfolding cache_option_words_def shader_option_words_def feature_words_def append_assoc option_step
  by (simp only: parse_options.simps option_parsed option.simps)
    (simp add: no_options_def intended_options_def case_option_Some_id flag_case)

section \<open>Specialization entries and bindings\<close>

lemma ul32_dec [simp]: "ul32 (dec32 w) = w"
  by (simp add: strtoull_word32 narrow_widen)

lemma ull_count: "n < 2 ^ 64 \<Longrightarrow> ull (decimal n) = of_nat n"
  by (simp add: strtoull_decimal)

lemma sll_flag: "(ucast (sll (dec32 w)) :: u32) = w"
proof -
  have "unat (ucast w :: u64) < 2 ^ 63" using unat32 [of w] by (simp add: unat_widen)
  from strtoll_word [OF this] show ?thesis by (simp add: unat_widen narrow_widen)
qed

lemma parse_many_words:
  assumes "\<And>x ts. x \<in> set xs \<Longrightarrow> p (f x @ ts) = Some (x, ts)"
  shows "parse_many p (length xs) (concat (map f xs) @ ts) = Some (xs, ts)"
  using assms by (induction xs) simp_all

lemma parse_spec_words: "parse_spec (spec_words sp @ ts) = Some (sp, ts)"
  by (simp add: spec_words_def)

text \<open>The offsets of a binding are file offsets, which \<open>strtoll\<close> reads.\<close>

definition file_offsets :: "dispatch_binding \<Rightarrow> bool" where
  "file_offsets b \<longleftrightarrow>
     unat (db_offset b) < 2 ^ 63 \<and> unat (db_api_offset b) < 2 ^ 63 \<and> unat (db_api_memory_offset b) < 2 ^ 63"

lemma parse_binding_words:
  assumes "file_offsets b"
  shows "parse_binding V4 (binding_words b @ ts) = Some (b, ts)"
proof -
  have "sll (dec64 (db_offset b)) = db_offset b" "sll (dec64 (db_api_offset b)) = db_api_offset b"
    "sll (dec64 (db_api_memory_offset b)) = db_api_memory_offset b"
    using assms by (simp_all add: file_offsets_def strtoll_word)
  then show ?thesis by (simp add: binding_words_def sll_flag)
qed

definition live_sets :: "vk_state \<Rightarrow> dispatch_op \<Rightarrow> bool" where
  "live_sets s op1 \<longleftrightarrow>
     (\<forall>ds \<in> set (op_sets op1). \<forall>d \<in> set (case ds of None \<Rightarrow> [] | Some x \<Rightarrow> x). \<forall>b. vd_buffer d = Some b \<longrightarrow> vs_buffers s b \<noteq> None)"

lemma descriptor_file_offsets:
  assumes inv: "vk_inv s" and live: "\<And>b. vd_buffer d = Some b \<Longrightarrow> vs_buffers s b \<noteq> None"
    and m: "descriptor_message env s st i d = Some (fd, b)"
  shows "file_offsets b"
proof -
  obtain bi m dm off where bi: "vd_buffer d = Some bi" and mem: "vb_memory (the_buffer s bi) = Some m"
      and n: "descriptor_binding_size s d \<noteq> 0"
      and src: "dispatch_source env (the_buffer s bi) m (vd_offset d) (descriptor_binding_size s d) = (dm, off)"
      and b: "db_offset b = off" "db_api_offset b = vd_offset d" "db_api_memory_offset b = vb_memory_offset (the_buffer s bi)"
    using m by (auto simp: descriptor_message_def Let_def split: option.splits prod.splits if_splits)
  obtain bf where bf: "vs_buffers s bi = Some bf" using live [OF bi] by auto
  have ok: "buffer_ok s bf" using inv bf by (simp add: vk_inv_def)
  with mem bf obtain mm where mm: "vs_memories s m = Some mm"
      "unat (vb_memory_offset bf) + unat (vb_size bf) \<le> unat (vm_size mm)"
    by (auto simp: buffer_ok_def)
  have lim: "unat (vm_size x) < 2 ^ 63" if "vs_memories s k = Some x" for k x
    using inv that by (auto simp: vk_inv_def)
  have d: "unat (vd_offset d) + unat (descriptor_binding_size s d) \<le> unat (vb_size bf)"
    using descriptor_inside [OF bi n] bf by simp
  have "unat off < 2 ^ 63"
  proof (cases "copy_alias_enabled env \<and> resolve_copy_alias bf (vd_offset d) (descriptor_binding_size s d) \<noteq> None")
    case True
    then have r: "resolve_copy_alias bf (vd_offset d) (descriptor_binding_size s d) = Some (dm, off)"
      using src bf by (auto simp: dispatch_source_def)
    then obtain a where a: "a \<in> set (vb_aliases bf)" "dm = ca_memory a" using alias_inside(1) [OF inv bf r] by blast
    then have "alias_ok s bf a" using ok by (auto simp: buffer_ok_def)
    then obtain x where "vs_memories s dm = Some x" using a by (auto simp: alias_ok_def)
    with alias_inside(2) [OF inv bf r] lim show ?thesis by fastforce
  next
    case False
    then have "off = vb_memory_offset bf + vd_offset d" using src bf by (auto simp: dispatch_source_def split: if_splits option.splits)
    moreover have "unat (vb_memory_offset bf) + unat (vd_offset d) < 2 ^ 63" using d mm lim [OF mm(1)] by linarith
    ultimately show ?thesis by (simp add: unat_plus)
  qed
  moreover have "unat (vd_offset d) < 2 ^ 63" "unat (vb_memory_offset bf) < 2 ^ 63"
    using d mm lim [OF mm(1)] by linarith+
  ultimately show ?thesis using bf by (simp add: file_offsets_def b)
qed

lemma collected_file_offsets:
  assumes "vk_inv s" "live_sets s op1" "(fd, b) \<in> set (collect_bindings env s op1)"
  shows "file_offsets b"
proof -
  obtain p where p: "p \<in> set (zip [0..<MAX_DESCRIPTOR_SETS] (op_sets op1))" "(fd, b) \<in> set (set_messages env s p)"
    using assms(3) by (auto simp: collect_bindings_def)
  obtain ds where ds: "snd p = Some ds" using p(2) by (cases "snd p") (simp_all add: set_messages_def)
  then obtain i d where d: "(i, d) \<in> set (zip [0..<MAX_STORAGE_BUFFERS] ds)"
      "descriptor_message env s (fst p) i d = Some (fd, b)"
    using p(2) by (auto simp: set_messages_def List.map_filter_def)
  have "Some ds \<in> set (op_sets op1)" using p(1) ds(1) by (metis set_zip_rightD prod.collapse)
  moreover have "d \<in> set ds" using d(1) by (rule set_zip_rightD)
  ultimately have "vs_buffers s b \<noteq> None" if "vd_buffer d = Some b" for b
    using assms(2) that by (fastforce simp: live_sets_def)
  with descriptor_file_offsets [OF assms(1) _ d(2)] show ?thesis by blast
qed

end
