(* ===== verification/Vk_Roundtrip.thy ===== *)
theory Vk_Roundtrip
  imports Vk_Protocol
begin

text \<open>
  The whole line: its words are plain tokens, the executor cuts the message at the end of line and
  reads header, specialization entries, bindings and options back.
\<close>

section \<open>The text\<close>

definition dispatch_words ::
  "environment \<Rightarrow> vk_state \<Rightarrow> dispatch_op \<Rightarrow> vk_pipeline \<Rightarrow> vk_shader \<Rightarrow> dispatch_binding list \<Rightarrow> string list" where
  "dispatch_words env s op1 p sh bs =
     header_words s op1 p sh (length bs) @ concat (map spec_words (pl_specs p)) @ concat (map binding_words bs)
     @ cache_option_words env @ shader_option_words env @ feature_words (pl_feature_mask p)"

lemma append_pieces_concat: "append_pieces c ps = Inr r \<Longrightarrow> r = c @ concat ps"
  by (induction c ps rule: append_pieces.induct) (auto split: if_splits)

lemma spaced_concat: "concat (map (\<lambda>x. spaced (f x)) xs) = spaced (concat (map f xs))"
  by (induction xs) (simp_all add: spaced_append)

lemma pieces_text:
  "concat (dispatch_pieces env s op1 p sh bs) = ''VULKAN_DISPATCH_V4'' @ spaced (dispatch_words env s op1 p sh bs)"
proof -
  have sp: "concat (map (\<lambda>w. CHR '' '' # w) ws) = spaced ws" for ws by (simp add: spaced_def)
  show ?thesis
    by (simp add: dispatch_pieces_def dispatch_words_def spaced_append spaced_concat sp)
qed

lemma block_plain: "plain_word (block_word bs cap)" if "0 < cap"
  using hex_plain [of bs "2 * cap + 1"] that by (auto simp: block_word_def plain_word_def)

lemma plain_append: "plain_word a \<Longrightarrow> plain_word b \<Longrightarrow> plain_word (a @ b)"
  unfolding plain_word_def by auto

lemma flag_text_plain: "plain_word (flag_text b)"
  by (simp add: flag_text_def plain_word_def)

lemma flag_plain: "plain_word name \<Longrightarrow> \<forall>w \<in> set (client_flag env var name def). plain_word w"
  by (auto simp: client_flag_def intro: plain_append flag_text_plain split: option.split)

lemma number_plain: "plain_word name \<Longrightarrow> \<forall>w \<in> set (client_number env var name). plain_word w"
  by (auto simp: client_number_def intro: plain_append split: option.split)

lemma option_words_plain: "\<forall>w \<in> set (cache_option_words env @ shader_option_words env @ feature_words features). plain_word w"
proof -
  have "plain_word (''requested_feature_mask='' @ dec64 features)"
    by (intro plain_append decimal_plain) (simp add: plain_word_def)
  then show ?thesis
    unfolding cache_option_words_def shader_option_words_def feature_words_def set_append ball_Un
    by (intro conjI flag_plain number_plain) (simp_all add: plain_word_def)
qed

lemma dispatch_words_plain: "\<forall>w \<in> set (dispatch_words env s op1 p sh bs). plain_word w"
proof -
  have "\<forall>w \<in> set (header_words s op1 p sh n). plain_word w" for n
    by (simp add: header_words_def block_plain MAX_PUSH_BYTES_def MAX_VULKAN_ENTRY_NAME_def MAX_SPECIALIZATION_BYTES_def)
  moreover have "\<forall>w \<in> set (concat (map spec_words xs)). plain_word w" for xs
    by (simp add: spec_words_def)
  moreover have "\<forall>w \<in> set (concat (map binding_words xs)). plain_word w" for xs
    by (simp add: binding_words_def)
  ultimately show ?thesis using option_words_plain unfolding dispatch_words_def set_append ball_Un by blast
qed

lemma spaced_chars: "\<forall>w \<in> set ws. plain_word w \<Longrightarrow> c \<in> set (spaced ws) \<Longrightarrow> c \<notin> {CHR 0x0D, CHR 0x0A, CHR 0x00}"
  by (induction ws) (auto simp: plain_word_def)

lemma received_text:
  assumes "length cmd + 2 < 4096" "\<And>c. c \<in> set cmd \<Longrightarrow> c \<notin> {CHR 0x0D, CHR 0x0A, CHR 0x00}"
  shows "fst (recv_command_with_fds (cmd @ [CHR 0x0A]) fds) = cmd"
proof -
  have "take (MAX_COMMAND_BYTES - 1) (cmd @ [CHR 0x0A]) = cmd @ [CHR 0x0A]"
    using assms(1) by (simp add: MAX_COMMAND_BYTES_def)
  with assms(2) show ?thesis
    by (simp add: recv_command_with_fds_def takeWhile_append2)
qed

section \<open>The header\<close>

definition pipeline_ok :: "vk_pipeline \<Rightarrow> bool" where
  "pipeline_ok p \<longleftrightarrow>
     length (pl_specs p) \<le> MAX_SPECIALIZATION_ENTRIES \<and> length (pl_spec_data p) \<le> MAX_SPECIALIZATION_BYTES
     \<and> length (pl_entry p) < MAX_VULKAN_ENTRY_NAME \<and> CHR 0x00 \<notin> set (pl_entry p)"

lemma new_pipeline_ok:
  assumes "\<And>n. pi_name info = Some n \<Longrightarrow> CHR 0x00 \<notin> set n"
  shows "pipeline_ok (new_pipeline features info)"
proof -
  have "CHR 0x00 \<notin> set (take k n)" if "pi_name info = Some n" for k n
    using assms [OF that] by (meson in_set_takeD)
  then show ?thesis
    by (auto simp: pipeline_ok_def new_pipeline_def Let_def MAX_VULKAN_ENTRY_NAME_def
        MAX_SPECIALIZATION_ENTRIES_def MAX_SPECIALIZATION_BYTES_def split: option.split)
qed

lemma unat_count: "n < 2 ^ 64 \<Longrightarrow> unat (of_nat n :: u64) = n"
  by (simp add: unat_of_nat take_bit_nat_eq_self)

lemma block_parsed:
  assumes "length bs \<le> cap" "cap < 2 ^ 63"
  shows "parse_block (block_word bs cap) (of_nat (length bs)) cap = Some bs"
proof (cases "bs = []")
  case False
  have "length bs < 2 ^ 64" using assms by simp
  then have "unat (of_nat (length bs) :: u64) = length bs" by (rule unat_count)
  with False have "0 < (of_nat (length bs) :: u64)" by (metis length_0_conv unat_0 unat_gt_0 word_gt_0)
  moreover have "hex_decode (hex_encode bs (2 * cap + 1)) cap = Some bs"
    using assms by (intro hex_round_trip) simp_all
  ultimately show ?thesis using False by (simp add: parse_block_def block_word_def)
qed (simp add: parse_block_def block_word_def)

lemma bytes_back: "CHR 0x00 \<notin> set e \<Longrightarrow> map (\<lambda>b. char_of (unat b)) (takeWhile (\<lambda>b. b \<noteq> 0) (to_bytes e)) = e"
proof (induction e)
  case (Cons c e)
  have u: "unat (of_nat (of_char c) :: u8) = of_char c"
    by (simp add: unat_of_nat take_bit_nat_eq_self)
  have zero: "char_of (0 :: nat) = CHR 0x00" by (simp add: char_of_def)
  have "of_char c \<noteq> (0 :: nat)" using Cons.prems zero by (metis char_of_char list.set_intros(1))
  then have "(of_nat (of_char c) :: u8) \<noteq> 0" using u by (metis unat_0)
  with Cons u show ?case by (simp add: to_bytes_def)
qed (simp add: to_bytes_def)

lemma entry_parsed:
  assumes "e \<noteq> []" "length e < MAX_VULKAN_ENTRY_NAME" "CHR 0x00 \<notin> set e"
  shows "parse_entry (block_word (to_bytes e) MAX_VULKAN_ENTRY_NAME) = Some e"
proof -
  have ne: "to_bytes e \<noteq> []" using assms(1) by (simp add: to_bytes_def)
  have len: "length (to_bytes e) = length e" by (simp add: to_bytes_def)
  have "hex_decode (hex_encode (to_bytes e) (2 * MAX_VULKAN_ENTRY_NAME + 1)) (MAX_VULKAN_ENTRY_NAME - 1) = Some (to_bytes e)"
    using assms(2) len by (intro hex_round_trip) (simp_all add: MAX_VULKAN_ENTRY_NAME_def)
  moreover have "hex_encode (to_bytes e) (2 * MAX_VULKAN_ENTRY_NAME + 1) \<noteq> ''-''"
    using hex_plain [OF ne] by (simp add: MAX_VULKAN_ENTRY_NAME_def)
  ultimately show ?thesis using ne bytes_back [OF assms(3)]
    by (simp add: parse_entry_def block_word_def)
qed

section \<open>Delivery\<close>

text \<open>What the executor is meant to run.\<close>

definition intended_request ::
  "environment \<Rightarrow> vk_state \<Rightarrow> dispatch_op \<Rightarrow> vk_pipeline \<Rightarrow> vk_shader \<Rightarrow> dispatch_request" where
  "intended_request env s op1 p sh =
     \<lparr>dr_shader_size = sh_size sh, dr_bindings = map snd (collect_bindings env s op1),
      dr_push = take (unat (op_push_extent s op1)) (op_push op1),
      dr_groups = (op_x op1, if op_y op1 \<noteq> 0 then op_y op1 else 1, if op_z op1 \<noteq> 0 then op_z op1 else 1),
      dr_entry = (if pl_entry p \<noteq> [] then pl_entry p else ''main''), dr_specs = pl_specs p,
      dr_spec_data = pl_spec_data p, dr_options = Some (intended_options env (pl_feature_mask p))\<rparr>"

lemma tokens_words:
  assumes "\<forall>w \<in> set ws. plain_word w"
  shows "tokens (drop 19 (''VULKAN_DISPATCH_V4'' @ spaced ws)) = ws"
proof (cases ws)
  case (Cons w ws')
  have "drop 19 (''VULKAN_DISPATCH_V4'' @ spaced ws) = w @ spaced ws'"
    by (simp add: Cons)
  moreover have "spaced ws' = [] \<or> hd (spaced ws') = CHR '' ''" by (cases ws') simp_all
  ultimately show ?thesis using assms tokens_spaced [of ws'] by (simp add: Cons tokens_word)
qed simp

lemma parse_words:
  assumes ok: "pipeline_ok p" and push: "length (op_push op1) = MAX_PUSH_BYTES"
    and ext: "unat (op_push_extent s op1) \<le> MAX_PUSH_BYTES"
    and bs: "bs \<noteq> []" "length bs \<le> MAX_VULKAN_BINDINGS" "\<And>b. b \<in> set bs \<Longrightarrow> file_offsets b"
    and fds: "1 + length bs \<le> fds"
    and text1: "tokens text1 = dispatch_words env s op1 p sh bs"
  shows "parse_dispatch V4 text1 fds =
    Some \<lparr>dr_shader_size = sh_size sh, dr_bindings = bs, dr_push = take (unat (op_push_extent s op1)) (op_push op1),
      dr_groups = (op_x op1, if op_y op1 \<noteq> 0 then op_y op1 else 1, if op_z op1 \<noteq> 0 then op_z op1 else 1),
      dr_entry = (if pl_entry p \<noteq> [] then pl_entry p else ''main''), dr_specs = pl_specs p,
      dr_spec_data = pl_spec_data p, dr_options = Some (intended_options env (pl_feature_mask p))\<rparr>"
proof -
  let ?push = "take (unat (op_push_extent s op1)) (op_push op1)"
  let ?rest = "cache_option_words env @ shader_option_words env @ feature_words (pl_feature_mask p)"
  let ?tail = "concat (map spec_words (pl_specs p)) @ concat (map binding_words bs) @ ?rest"
  have n: "length bs < 2 ^ 64" "length (pl_specs p) < 2 ^ 64" "length (pl_spec_data p) < 2 ^ 64"
    using bs(2) ok by (simp_all add: pipeline_ok_def MAX_VULKAN_BINDINGS_def MAX_SPECIALIZATION_ENTRIES_def MAX_SPECIALIZATION_BYTES_def)
  have push_len: "length ?push = unat (op_push_extent s op1)" using push ext by simp
  have ext64: "ull (dec32 (op_push_extent s op1)) = of_nat (length ?push)"
  proof -
    have "(of_nat (unat (op_push_extent s op1)) :: u64) = ucast (op_push_extent s op1)"
      by (simp flip: unat_widen)
    then show ?thesis by (simp only: push_len strtoull_word32 fst_conv)
  qed
  have block1: "parse_block (block_word ?push MAX_PUSH_BYTES) (of_nat (length ?push)) MAX_PUSH_BYTES = Some ?push"
    using push_len ext by (intro block_parsed) (simp_all add: MAX_PUSH_BYTES_def)
  have block2: "parse_block (block_word (pl_spec_data p) MAX_SPECIALIZATION_BYTES) (of_nat (length (pl_spec_data p)))
      MAX_SPECIALIZATION_BYTES = Some (pl_spec_data p)"
    using ok by (intro block_parsed) (simp_all add: pipeline_ok_def MAX_SPECIALIZATION_BYTES_def)
  have entry: "parse_entry (block_word (to_bytes (if pl_entry p \<noteq> [] then pl_entry p else ''main'')) MAX_VULKAN_ENTRY_NAME)
      = Some (if pl_entry p \<noteq> [] then pl_entry p else ''main'')"
    using ok by (intro entry_parsed) (auto simp: pipeline_ok_def MAX_VULKAN_ENTRY_NAME_def)
  have specs: "parse_many parse_spec (length (pl_specs p)) ?tail = Some (pl_specs p, concat (map binding_words bs) @ ?rest)"
    by (rule parse_many_words) (rule parse_spec_words)
  have binds: "parse_many (parse_binding V4) (length bs) (concat (map binding_words bs) @ ?rest) = Some (bs, ?rest)"
    using bs(3) by (intro parse_many_words parse_binding_words)
  have small: "\<not> of_nat MAX_VULKAN_BINDINGS < (of_nat (length bs) :: u64)" "(of_nat (length bs) :: u64) \<noteq> 0"
      "\<not> of_nat MAX_PUSH_BYTES < (of_nat (length ?push) :: u64)"
      "\<not> of_nat MAX_SPECIALIZATION_ENTRIES < (of_nat (length (pl_specs p)) :: u64)"
      "\<not> of_nat MAX_SPECIALIZATION_BYTES < (of_nat (length (pl_spec_data p)) :: u64)"
    using bs ok push_len ext n
    by (simp_all add: word_less_nat_alt unat_count unat_widen pipeline_ok_def MAX_VULKAN_BINDINGS_def MAX_PUSH_BYTES_def
        MAX_SPECIALIZATION_ENTRIES_def MAX_SPECIALIZATION_BYTES_def word_unat_eq_iff)
  have enough: "\<not> fds < 1 + length bs" using fds by simp
  show ?thesis
    unfolding parse_dispatch_def text1 dispatch_words_def header_words_def next_token_def token_or_def
    by (simp only: Let_def list.case option.case prod.case append.simps ull_count [OF n(1)] ull_count [OF n(2)] ull_count [OF n(3)]
        ext64 small unat_count [OF n(1)] unat_count [OF n(2)] block1 block2 entry specs binds
        enough options_reach_executor disj_not1 simp_thms if_False option.map ul32_dec strtoull_word fst_conv)
qed

lemma message_parts:
  assumes m: "dispatch_message env s op1 = Inr (fds, text1)"
  obtains pid p shid sh cmd where "op_pipeline op1 = Some pid" "p = the (vs_pipelines s pid)"
    "pl_shader p = Some shid" "sh = the (vs_shaders s shid)"
    "fds = sh_fd sh # map fst (collect_bindings env s op1)" "text1 = cmd @ [CHR 0x0A]" "length cmd + 2 < 4096"
    "append_pieces [] (dispatch_pieces env s op1 p sh (map snd (collect_bindings env s op1))) = Inr cmd"
    "collect_bindings env s op1 \<noteq> []" "length (collect_bindings env s op1) \<le> MAX_STORAGE_BUFFERS"
    "unat (op_push_extent s op1) \<le> MAX_PUSH_BYTES" "\<not> pl_too_large p"
  using m unfolding dispatch_message_def Let_def
  by (auto split: option.splits if_splits sum.splits)

lemma v4_command:
  "parse_command (''VULKAN_DISPATCH_V4'' @ spaced (w # ws)) n =
     dispatch_or_refuse (parse_dispatch V4 (drop 19 (''VULKAN_DISPATCH_V4'' @ spaced (w # ws))) n)"
  by (simp add: parse_command_def)

lemma message_delivered:
  assumes inv: "vk_inv s" and live: "live_sets s op1" and push: "length (op_push op1) = MAX_PUSH_BYTES"
    and m: "dispatch_message env s op1 = Inr (fds, text1)"
    and p: "op_pipeline op1 = Some pid" "vs_pipelines s pid = Some p" "pipeline_ok p"
    and sh: "pl_shader p = Some shid" "vs_shaders s shid = Some sh"
    and r: "recv_command_with_fds text1 fds = (cmd, passed, count)"
  shows "parse_command cmd count = VulkanDispatch (intended_request env s op1 p sh)" "take count passed = fds"
proof -
  let ?fbs = "collect_bindings env s op1"
  obtain cmd' where cmd': "fds = sh_fd sh # map fst ?fbs" "text1 = cmd' @ [CHR 0x0A]" "length cmd' + 2 < 4096"
      "append_pieces [] (dispatch_pieces env s op1 p sh (map snd ?fbs)) = Inr cmd'"
      "?fbs \<noteq> []" "length ?fbs \<le> MAX_STORAGE_BUFFERS" "unat (op_push_extent s op1) \<le> MAX_PUSH_BYTES"
    using message_parts [OF m] p sh by (metis option.sel)
  let ?ws = "dispatch_words env s op1 p sh (map snd ?fbs)"
  have t: "cmd' = ''VULKAN_DISPATCH_V4'' @ spaced ?ws"
    using append_pieces_concat [OF cmd'(4)] pieces_text by simp
  have "c \<notin> {CHR 0x0D, CHR 0x0A, CHR 0x00}" if "c \<in> set cmd'" for c
  proof -
    have "c \<in> set ''VULKAN_DISPATCH_V4'' \<union> set (spaced ?ws)" using that unfolding t set_append .
    then show ?thesis
    proof (elim UnE)
      assume "c \<in> set ''VULKAN_DISPATCH_V4''"
      then show ?thesis by auto
    qed (rule spaced_chars [OF dispatch_words_plain])
  qed
  from received_text [OF cmd'(3) this, of fds] have cmd: "cmd = cmd'" unfolding cmd'(2) [symmetric] r by simp
  have len: "length fds \<le> MAX_PASSED_FDS" using cmd'(1,6) by (simp add: MAX_PASSED_FDS_def MAX_STORAGE_BUFFERS_def)
  then have count: "count = length fds" "passed = fds @ replicate (MAX_PASSED_FDS - length fds) (- 1)"
    using r by (auto simp: recv_command_with_fds_def)
  then show "take count passed = fds" by simp
  obtain w ws where ws: "?ws = w # ws" by (simp add: dispatch_words_def header_words_def)
  have "tokens (drop 19 cmd) = ?ws" unfolding cmd t by (rule tokens_words [OF dispatch_words_plain])
  moreover have "file_offsets b" if "b \<in> set (map snd ?fbs)" for b
    using that collected_file_offsets [OF inv live] by (metis (no_types, lifting) imageE list.set_map prod.collapse)
  ultimately have "parse_dispatch V4 (drop 19 cmd) count = Some (intended_request env s op1 p sh)"
    unfolding intended_request_def using cmd' push p(3) count
    by (intro parse_words) (simp_all add: MAX_STORAGE_BUFFERS_def MAX_VULKAN_BINDINGS_def)
  moreover have "parse_command cmd count = dispatch_or_refuse (parse_dispatch V4 (drop 19 cmd) count)"
    unfolding cmd t ws by (rule v4_command)
  ultimately show "parse_command cmd count = VulkanDispatch (intended_request env s op1 p sh)"
    by (simp add: dispatch_or_refuse_def)
qed

end
