(* ===== verification/Vk_Commands.thy ===== *)
theory Vk_Commands
  imports Vk_Message
begin

text \<open>
  Command buffers of the client driver: recording fills fixed tables, submission replays them. A
  recorded operation is a tagged structure; copies and dispatches live in tables of their own and the
  operation holds their index.
\<close>

definition MAX_COPY_OPS :: nat where "MAX_COPY_OPS = 64"
definition MAX_DISPATCH_OPS :: nat where "MAX_DISPATCH_OPS = 128"
definition MAX_COMMAND_OPS :: nat where "MAX_COMMAND_OPS = 256"

record copy_op =
  co_src :: nat
  co_dst :: nat
  co_src_offset :: u64
  co_dst_offset :: u64
  co_size :: u64

datatype command_op =
    OpCopy nat
  | OpFill nat u64 u64 u32
  | OpUpdate nat u64 "u8 list"
  | OpDispatch nat
  | OpBarrier

record vk_cmd =
  cb_pipeline :: "nat option"
  cb_sets :: "vk_set option list"
  cb_copies :: "copy_op list"
  cb_dispatches :: "dispatch_op list"
  cb_ops :: "command_op list"
  cb_x :: u32
  cb_y :: u32
  cb_z :: u32
  cb_push :: "u8 list"
  cb_push_size :: u32
  cb_has_dispatch :: bool
  cb_unsupported :: bool

section \<open>Recording\<close>

definition clear_recorded_command_ops :: "vk_cmd \<Rightarrow> vk_cmd" where
  "clear_recorded_command_ops cmd = cmd\<lparr>cb_ops := [], cb_copies := [], cb_dispatches := []\<rparr>"

definition append_command_op :: "command_op \<Rightarrow> vk_cmd \<Rightarrow> bool \<times> vk_cmd" where
  "append_command_op op1 cmd =
     (if MAX_COMMAND_OPS \<le> length (cb_ops cmd) then (False, cmd)
      else (True, cmd\<lparr>cb_ops := cb_ops cmd @ [op1]\<rparr>))"

definition vkBeginCommandBuffer :: "vk_cmd \<Rightarrow> vk_cmd" where
  "vkBeginCommandBuffer cmd =
     (clear_recorded_command_ops cmd)\<lparr>cb_pipeline := None, cb_sets := replicate MAX_DESCRIPTOR_SETS None,
        cb_x := 0, cb_y := 0, cb_z := 0, cb_push := replicate MAX_PUSH_BYTES 0, cb_push_size := 0,
        cb_has_dispatch := False, cb_unsupported := False\<rparr>"

definition vkCmdBindPipeline :: "nat option \<Rightarrow> vk_cmd \<Rightarrow> vk_cmd" where
  "vkCmdBindPipeline p cmd = cmd\<lparr>cb_pipeline := p\<rparr>"

text \<open>Every dynamic descriptor of a set takes the next offset of the call.\<close>

fun dynamic_offsets :: "u32 list \<Rightarrow> vk_set \<Rightarrow> vk_set \<times> u32 list" where
  "dynamic_offsets offs [] = ([], offs)"
| "dynamic_offsets offs (d # ds) =
     (if vd_dynamic d then
        (case offs of
           [] \<Rightarrow> (let (ds', offs') = dynamic_offsets [] ds in (d # ds', offs'))
         | off # rest \<Rightarrow> (let (ds', offs') = dynamic_offsets rest ds
                          in (d\<lparr>vd_offset := vd_offset d + ucast off\<rparr> # ds', offs')))
      else (let (ds', offs') = dynamic_offsets offs ds in (d # ds', offs')))"

fun bind_sets :: "vk_state \<Rightarrow> u32 \<Rightarrow> nat option list \<Rightarrow> u32 list \<Rightarrow> vk_cmd \<Rightarrow> vk_cmd" where
  "bind_sets s first [] offs cmd = cmd"
| "bind_sets s first (h # hs) offs cmd =
     (if MAX_DESCRIPTOR_SETS \<le> unat first then cmd
      else case h of
             None \<Rightarrow> bind_sets s (first + 1) hs offs cmd
           | Some i \<Rightarrow>
               (let (ds, offs') = dynamic_offsets offs (the (vs_sets s i))
                in bind_sets s (first + 1) hs offs' (cmd\<lparr>cb_sets := (cb_sets cmd)[unat first := Some ds]\<rparr>)))"

definition vkCmdBindDescriptorSets :: "vk_state \<Rightarrow> u32 \<Rightarrow> nat option list \<Rightarrow> u32 list \<Rightarrow> vk_cmd \<Rightarrow> vk_cmd" where
  "vkCmdBindDescriptorSets s first hs offs cmd =
     (if hs = [] then cmd
      else bind_sets s first hs offs
             (if MAX_DESCRIPTOR_SETS < unat (first + of_nat (length hs)) then cmd\<lparr>cb_unsupported := True\<rparr> else cmd))"

definition vkCmdDispatch :: "vk_state \<Rightarrow> u32 \<Rightarrow> u32 \<Rightarrow> u32 \<Rightarrow> vk_cmd \<Rightarrow> vk_cmd" where
  "vkCmdDispatch s x y z cmd0 =
     (let cmd = cmd0\<lparr>cb_x := x, cb_y := y, cb_z := z, cb_has_dispatch := True\<rparr>;
          layout = (case cb_pipeline cmd of None \<Rightarrow> None | Some p \<Rightarrow> pl_layout (the (vs_pipelines s p)));
          push_size = (case layout of
                         None \<Rightarrow> cb_push_size cmd
                       | Some l \<Rightarrow> if cb_push_size cmd < the (vs_layouts s l) then the (vs_layouts s l) else cb_push_size cmd)
      in if length (cb_dispatches cmd) < MAX_DISPATCH_OPS
         then snd (append_command_op (OpDispatch (length (cb_dispatches cmd)))
                (cmd\<lparr>cb_dispatches := cb_dispatches cmd @
                   [\<lparr>op_pipeline = cb_pipeline cmd, op_sets = cb_sets cmd, op_x = x, op_y = y, op_z = z,
                     op_push = cb_push cmd, op_push_size = push_size\<rparr>]\<rparr>))
         else cmd)"

text \<open>\<open>memcpy\<close> into an array; \<open>None\<close> when it would write behind the end.\<close>

definition overwrite :: "u8 list \<Rightarrow> nat \<Rightarrow> u8 list \<Rightarrow> u8 list option" where
  "overwrite arr off bs =
     (if length arr < off + length bs then None else Some (take off arr @ bs @ drop (off + length bs) arr))"

text \<open>\<open>values\<close> are the bytes behind \<open>pValues\<close>, at least \<open>n\<close> of them.\<close>

definition vkCmdPushConstants :: "u32 \<Rightarrow> u32 \<Rightarrow> u8 list \<Rightarrow> vk_cmd \<Rightarrow> vk_cmd option" where
  "vkCmdPushConstants off n values cmd =
     (if MAX_PUSH_BYTES \<le> unat off then Some cmd
      else let n = (if MAX_PUSH_BYTES < unat (off + n) then of_nat MAX_PUSH_BYTES - off else n)
           in map_option (\<lambda>arr. cmd\<lparr>cb_push := arr,
                  cb_push_size := (if cb_push_size cmd < off + n then off + n else cb_push_size cmd)\<rparr>)
                (overwrite (cb_push cmd) (unat off) (take (unat n) values)))"

definition vkCmdPipelineBarrier :: "vk_cmd \<Rightarrow> vk_cmd" where
  "vkCmdPipelineBarrier cmd = snd (append_command_op OpBarrier cmd)"

definition record_copy :: "nat \<Rightarrow> nat \<Rightarrow> u64 \<times> u64 \<times> u64 \<Rightarrow> vk_cmd \<Rightarrow> vk_cmd" where
  "record_copy src dst region cmd =
     (let (so, d_o, n) = region
      in if length (cb_copies cmd) < MAX_COPY_OPS
         then snd (append_command_op (OpCopy (length (cb_copies cmd)))
                (cmd\<lparr>cb_copies := cb_copies cmd @
                   [\<lparr>co_src = src, co_dst = dst, co_src_offset = so, co_dst_offset = d_o, co_size = n\<rparr>]\<rparr>))
         else cmd)"

definition is_bound :: "vk_state \<Rightarrow> nat option \<Rightarrow> bool" where
  "is_bound s b = (case b of None \<Rightarrow> False | Some i \<Rightarrow> vb_memory (the_buffer s i) \<noteq> None)"

definition vkCmdCopyBuffer ::
  "vk_state \<Rightarrow> nat option \<Rightarrow> nat option \<Rightarrow> (u64 \<times> u64 \<times> u64) list \<Rightarrow> vk_cmd \<Rightarrow> vk_cmd" where
  "vkCmdCopyBuffer s src dst regions cmd =
     (if is_bound s src \<and> is_bound s dst then fold (record_copy (the src) (the dst)) regions cmd else cmd)"

definition fill_extent :: "vk_state \<Rightarrow> nat option \<Rightarrow> u64 \<Rightarrow> u64 \<Rightarrow> u64" where
  "fill_extent s dst off n =
     (let available = buffer_available s dst off;
          bytes = (if n = VK_WHOLE_SIZE then available else n)
      in if available < bytes then available else bytes)"

definition vkCmdFillBuffer :: "vk_state \<Rightarrow> nat option \<Rightarrow> u64 \<Rightarrow> u64 \<Rightarrow> u32 \<Rightarrow> vk_cmd \<Rightarrow> vk_cmd" where
  "vkCmdFillBuffer s dst off n w cmd =
     (if \<not> is_bound s dst \<or> fill_extent s dst off n = 0 then cmd
      else snd (append_command_op (OpFill (the dst) off (fill_extent s dst off n) w) cmd))"

definition update_extent :: "vk_state \<Rightarrow> nat option \<Rightarrow> u64 \<Rightarrow> u64 \<Rightarrow> u64" where
  "update_extent s dst off n =
     (let available = buffer_available s dst off in if n < available then n else available)"

text \<open>\<open>copied\<close> tells whether the copy of the data could be allocated.\<close>

definition vkCmdUpdateBuffer :: "vk_state \<Rightarrow> bool \<Rightarrow> nat option \<Rightarrow> u64 \<Rightarrow> u8 list \<Rightarrow> vk_cmd \<Rightarrow> vk_cmd" where
  "vkCmdUpdateBuffer s copied dst off bs cmd =
     (let n = update_extent s dst off (of_nat (length bs))
      in if \<not> is_bound s dst \<or> buffer_ptr s dst off n = None \<or> n = 0 \<or> \<not> copied then cmd
         else snd (append_command_op (OpUpdate (the dst) off (take (unat n) bs)) cmd))"

section \<open>Execution\<close>

text \<open>\<open>memmove\<close> inside the shared files, and a repeated 32-bit word.\<close>

definition move_bytes :: "nat \<times> u64 \<Rightarrow> nat \<times> u64 \<Rightarrow> u64 \<Rightarrow> (nat \<Rightarrow> nat \<Rightarrow> u8) \<Rightarrow> nat \<Rightarrow> nat \<Rightarrow> u8" where
  "move_bytes dst src n f =
     f(fst dst := (\<lambda>i. if unat (snd dst) \<le> i \<and> i < unat (snd dst) + unat n
                       then f (fst src) (unat (snd src) + (i - unat (snd dst))) else f (fst dst) i))"

definition store_bytes :: "nat \<times> u64 \<Rightarrow> u8 list \<Rightarrow> (nat \<Rightarrow> nat \<Rightarrow> u8) \<Rightarrow> nat \<Rightarrow> nat \<Rightarrow> u8" where
  "store_bytes dst bs f =
     f(fst dst := (\<lambda>i. if unat (snd dst) \<le> i \<and> i < unat (snd dst) + length bs
                       then bs ! (i - unat (snd dst)) else f (fst dst) i))"

definition fill_bytes :: "nat \<times> u64 \<Rightarrow> u64 \<Rightarrow> u32 \<Rightarrow> (nat \<Rightarrow> nat \<Rightarrow> u8) \<Rightarrow> nat \<Rightarrow> nat \<Rightarrow> u8" where
  "fill_bytes dst n w f =
     f(fst dst := (\<lambda>i. if unat (snd dst) \<le> i \<and> i < unat (snd dst) + 4 * (unat n div 4)
                       then ucast (drop_bit (8 * ((i - unat (snd dst)) mod 4)) w) else f (fst dst) i))"

definition map_buffer :: "nat \<Rightarrow> (vk_buffer \<Rightarrow> vk_buffer) \<Rightarrow> vk_state \<Rightarrow> vk_state" where
  "map_buffer b g s = s\<lparr>vs_buffers := (vs_buffers s)(b := map_option g (vs_buffers s b))\<rparr>"

definition copy_alias_candidate :: "environment \<Rightarrow> vk_state \<Rightarrow> nat \<Rightarrow> bool" where
  "copy_alias_candidate env s m \<longleftrightarrow> copy_alias_enabled env \<and> ALIAS_MIN_SOURCE_BYTES \<le> vm_size (the_memory s m)"

text \<open>Where the bytes of a copy come from: a copy that was recorded earlier, or the buffer itself.\<close>

definition copy_source :: "vk_state \<Rightarrow> copy_op \<Rightarrow> nat \<times> u64" where
  "copy_source s c =
     (let bf = the_buffer s (co_src c)
      in case resolve_copy_alias bf (co_src_offset c) (co_size c) of
           Some p \<Rightarrow> p
         | None \<Rightarrow> (the (vb_memory bf), vb_memory_offset bf + co_src_offset c))"

definition execute_recorded_copy_op :: "environment \<Rightarrow> copy_op \<Rightarrow> vk_state \<Rightarrow> vk_state" where
  "execute_recorded_copy_op env c s =
     (case (buffer_ptr s (Some (co_dst c)) (co_dst_offset c) (co_size c),
            buffer_ptr s (Some (co_src c)) (co_src_offset c) (co_size c)) of
        (Some dst, Some src) \<Rightarrow>
          let (am, ao) = copy_source s c
          in if copy_alias_candidate env s am
             then map_buffer (co_dst c) (add_copy_alias (co_dst_offset c) (co_size c) am ao) s
             else (map_buffer (co_dst c) (invalidate_copy_aliases (co_dst_offset c) (co_size c)) s)
                    \<lparr>vs_bytes := move_bytes dst src (co_size c) (vs_bytes s)\<rparr>
      | _ \<Rightarrow> s)"

definition execute_recorded_fill_op :: "nat \<Rightarrow> u64 \<Rightarrow> u64 \<Rightarrow> u32 \<Rightarrow> vk_state \<Rightarrow> vk_state" where
  "execute_recorded_fill_op b off n w s =
     (if n = 0 then s
      else case buffer_ptr s (Some b) off n of
             None \<Rightarrow> s
           | Some dst \<Rightarrow>
               (map_buffer b (invalidate_copy_aliases off n) s)\<lparr>vs_bytes := fill_bytes dst n w (vs_bytes s)\<rparr>)"

definition execute_recorded_update_op :: "nat \<Rightarrow> u64 \<Rightarrow> u8 list \<Rightarrow> vk_state \<Rightarrow> vk_state" where
  "execute_recorded_update_op b off bs s =
     (if bs = [] then s
      else case buffer_ptr s (Some b) off (of_nat (length bs)) of
             None \<Rightarrow> s
           | Some dst \<Rightarrow>
               (map_buffer b (invalidate_copy_aliases off (of_nat (length bs))) s)
                 \<lparr>vs_bytes := store_bytes dst bs (vs_bytes s)\<rparr>)"

section \<open>Submission\<close>

type_synonym gpu = "int list \<times> string \<Rightarrow> (nat \<Rightarrow> nat \<Rightarrow> u8) \<Rightarrow> gpu_answer"

definition has_shader :: "vk_state \<Rightarrow> dispatch_op \<Rightarrow> bool" where
  "has_shader s d =
     (case op_pipeline d of
        None \<Rightarrow> False
      | Some p \<Rightarrow> (case pl_shader (the (vs_pipelines s p)) of
                    None \<Rightarrow> False
                  | Some sh \<Rightarrow> 4 < sh_size (the (vs_shaders s sh))))"

definition submit_dispatch :: "gpu \<Rightarrow> environment \<Rightarrow> dispatch_op \<Rightarrow> vk_state \<Rightarrow> vk_result \<times> vk_state" where
  "submit_dispatch gpu env d s =
     (if \<not> has_shader s d then (VK_ERROR_FEATURE_NOT_PRESENT, s)
      else case send_generic_vulkan_dispatch_op gpu env d s of
             (None, s') \<Rightarrow> (VK_SUCCESS, s')
           | (Some e, s') \<Rightarrow> (VK_ERROR_FEATURE_NOT_PRESENT, s'))"

fun submit_op :: "gpu \<Rightarrow> environment \<Rightarrow> vk_cmd \<Rightarrow> command_op \<Rightarrow> vk_state \<Rightarrow> vk_result \<times> vk_state" where
  "submit_op gpu env cmd (OpCopy i) s =
     (VK_SUCCESS, if i < length (cb_copies cmd) then execute_recorded_copy_op env (cb_copies cmd ! i) s else s)"
| "submit_op gpu env cmd (OpFill b off n w) s = (VK_SUCCESS, execute_recorded_fill_op b off n w s)"
| "submit_op gpu env cmd (OpUpdate b off bs) s = (VK_SUCCESS, execute_recorded_update_op b off bs s)"
| "submit_op gpu env cmd (OpDispatch i) s =
     (if i < length (cb_dispatches cmd) then submit_dispatch gpu env (cb_dispatches cmd ! i) s else (VK_SUCCESS, s))"
| "submit_op gpu env cmd OpBarrier s = (VK_SUCCESS, s)"

text \<open>Steps until the first failure.\<close>

fun run_until :: "('a \<Rightarrow> vk_state \<Rightarrow> vk_result \<times> vk_state) \<Rightarrow> 'a list \<Rightarrow> vk_state \<Rightarrow> vk_result \<times> vk_state" where
  "run_until f [] s = (VK_SUCCESS, s)"
| "run_until f (x # xs) s =
     (case f x s of (r, s') \<Rightarrow> if r = VK_SUCCESS then run_until f xs s' else (r, s'))"

definition send_generic_vulkan_dispatch :: "gpu \<Rightarrow> environment \<Rightarrow> vk_cmd \<Rightarrow> vk_state \<Rightarrow> send_error option \<times> vk_state" where
  "send_generic_vulkan_dispatch gpu env cmd s =
     send_generic_vulkan_dispatch_op gpu env
       \<lparr>op_pipeline = cb_pipeline cmd, op_sets = cb_sets cmd, op_x = cb_x cmd, op_y = cb_y cmd, op_z = cb_z cmd,
        op_push = cb_push cmd, op_push_size = cb_push_size cmd\<rparr> s"

text \<open>
  A command buffer without recorded operations. \<open>vector_add\<close> is \<open>send_vector_add_3fd\<close> on the number of
  elements and the three memories, with the contents afterwards.
\<close>

definition legacy_elements :: "vk_state \<Rightarrow> vk_cmd \<Rightarrow> vk_set \<Rightarrow> u64" where
  "legacy_elements s cmd ds =
     (let n = descriptor_binding_size s (ds ! 0) div 4;
          n = min n (descriptor_binding_size s (ds ! 1) div 4);
          n = min n (descriptor_binding_size s (ds ! 2) div 4)
      in case cb_pipeline cmd of
           None \<Rightarrow> n
         | Some p \<Rightarrow>
             let l = pl_local_size_x (the (vs_pipelines s p))
             in if cb_x cmd \<noteq> 0 \<and> l \<noteq> 0 then min n (ucast (cb_x cmd) * ucast l) else n)"

definition submit_legacy ::
  "(u64 \<Rightarrow> nat list \<Rightarrow> (nat \<Rightarrow> nat \<Rightarrow> u8) \<Rightarrow> int \<times> (nat \<Rightarrow> nat \<Rightarrow> u8)) \<Rightarrow> gpu \<Rightarrow> environment \<Rightarrow> vk_cmd \<Rightarrow> vk_state
     \<Rightarrow> vk_result \<times> vk_state" where
  "submit_legacy vector_add gpu env cmd s0 =
     (let s = fold (execute_recorded_copy_op env) (cb_copies cmd) s0;
          single = \<lparr>op_pipeline = cb_pipeline cmd, op_sets = [], op_x = 0, op_y = 0, op_z = 0, op_push = [], op_push_size = 0\<rparr>
      in if \<not> cb_has_dispatch cmd then (VK_SUCCESS, s)
         else if cb_dispatches cmd \<noteq> [] \<and> (\<forall>d \<in> set (cb_dispatches cmd). has_shader s d)
         then run_until (submit_dispatch gpu env) (cb_dispatches cmd) s
         else if has_shader s single
         then (case send_generic_vulkan_dispatch gpu env cmd s of
                 (None, s') \<Rightarrow> (VK_SUCCESS, s')
               | (Some e, s') \<Rightarrow> (VK_ERROR_FEATURE_NOT_PRESENT, s'))
         else case cb_sets cmd ! 0 of
                None \<Rightarrow> (VK_ERROR_FEATURE_NOT_PRESENT, s)
              | Some ds \<Rightarrow>
                  if \<exists>k < 3. vd_buffer (ds ! k) = None then (VK_ERROR_FEATURE_NOT_PRESENT, s)
                  else if \<exists>k < 3. vb_memory (the_buffer s (the (vd_buffer (ds ! k)))) = None
                  then (VK_ERROR_MEMORY_MAP_FAILED, s)
                  else let ms = map (\<lambda>k. the (vb_memory (the_buffer s (the (vd_buffer (ds ! k)))))) [0, 1, 2];
                           (rc, f) = vector_add (legacy_elements s cmd ds) ms (vs_bytes s)
                       in (if rc \<noteq> 0 then VK_ERROR_DEVICE_LOST else VK_SUCCESS, s\<lparr>vs_bytes := f\<rparr>))"

definition submit_command ::
  "(u64 \<Rightarrow> nat list \<Rightarrow> (nat \<Rightarrow> nat \<Rightarrow> u8) \<Rightarrow> int \<times> (nat \<Rightarrow> nat \<Rightarrow> u8)) \<Rightarrow> gpu \<Rightarrow> environment \<Rightarrow> vk_cmd option \<Rightarrow> vk_state
     \<Rightarrow> vk_result \<times> vk_state" where
  "submit_command vector_add gpu env c s =
     (case c of
        None \<Rightarrow> (VK_ERROR_INITIALIZATION_FAILED, s)
      | Some cmd \<Rightarrow>
          if cb_unsupported cmd then (VK_ERROR_FEATURE_NOT_PRESENT, s)
          else if cb_ops cmd \<noteq> [] then run_until (submit_op gpu env cmd) (cb_ops cmd) s
          else submit_legacy vector_add gpu env cmd s)"

text \<open>The command buffers of all submissions in their order; the fence is signalled at the end.\<close>

definition vkQueueSubmit ::
  "(u64 \<Rightarrow> nat list \<Rightarrow> (nat \<Rightarrow> nat \<Rightarrow> u8) \<Rightarrow> int \<times> (nat \<Rightarrow> nat \<Rightarrow> u8)) \<Rightarrow> gpu \<Rightarrow> environment \<Rightarrow> vk_cmd option list list
     \<Rightarrow> bool option \<Rightarrow> vk_state \<Rightarrow> vk_result \<times> bool option \<times> vk_state" where
  "vkQueueSubmit vector_add gpu env submits fence s =
     (let (r, s') = run_until (submit_command vector_add gpu env) (concat submits) s
      in (r, if r = VK_SUCCESS then map_option (\<lambda>_. True) fence else fence, s'))"

section \<open>Fences\<close>

type_synonym fences = "nat \<Rightarrow> bool option"

definition vkCreateFence :: "nat option \<Rightarrow> bool \<Rightarrow> fences \<Rightarrow> vk_result \<times> fences" where
  "vkCreateFence h signaled fs =
     (case h of None \<Rightarrow> (VK_ERROR_OUT_OF_HOST_MEMORY, fs) | Some i \<Rightarrow> (VK_SUCCESS, fs(i \<mapsto> signaled)))"

definition vkResetFences :: "nat option list \<Rightarrow> fences \<Rightarrow> fences" where
  "vkResetFences hs fs = fold (\<lambda>h fs. case h of None \<Rightarrow> fs | Some i \<Rightarrow> fs(i \<mapsto> False)) hs fs"

definition fence_signaled :: "fences \<Rightarrow> nat option \<Rightarrow> bool" where
  "fence_signaled fs h = (case h of None \<Rightarrow> True | Some i \<Rightarrow> the (fs i))"

definition vkGetFenceStatus :: "fences \<Rightarrow> nat option \<Rightarrow> vk_result" where
  "vkGetFenceStatus fs h = (if fence_signaled fs h then VK_SUCCESS else VK_NOT_READY)"

definition vkWaitForFences :: "fences \<Rightarrow> nat option list \<Rightarrow> bool \<Rightarrow> vk_result" where
  "vkWaitForFences fs hs wait_all =
     (if wait_all \<and> (\<exists>h \<in> set hs. \<not> fence_signaled fs h) then VK_NOT_READY
      else if \<not> wait_all \<and> hs \<noteq> [] \<and> (\<forall>h \<in> set hs. \<not> fence_signaled fs h) then VK_NOT_READY
      else VK_SUCCESS)"

end
