(* ===== verification/Vk_Replay.thy ===== *)
theory Vk_Replay
  imports Vk_Commands
begin

text \<open>
  What recording and submitting amount to: a machine that executes every call at once, with the
  pipeline, the sets and the push constants bound at that moment. As long as the tables of a command
  buffer are not exceeded, submitting the recorded buffer does what this machine does.
\<close>

datatype vk_call =
    CallPipeline "nat option"
  | CallSets u32 "nat option list" "u32 list"
  | CallPush u32 u32 "u8 list"
  | CallDispatch u32 u32 u32
  | CallCopy "nat option" "nat option" "(u64 \<times> u64 \<times> u64) list"
  | CallFill "nat option" u64 u64 u32
  | CallUpdate "nat option" u64 "u8 list"
  | CallBarrier

fun record_call :: "vk_state \<Rightarrow> vk_call \<Rightarrow> vk_cmd \<Rightarrow> vk_cmd option" where
  "record_call s (CallPipeline p) cmd = Some (vkCmdBindPipeline p cmd)"
| "record_call s (CallSets first hs offs) cmd = Some (vkCmdBindDescriptorSets s first hs offs cmd)"
| "record_call s (CallPush off n bs) cmd = vkCmdPushConstants off n bs cmd"
| "record_call s (CallDispatch x y z) cmd = Some (vkCmdDispatch s x y z cmd)"
| "record_call s (CallCopy src dst regions) cmd = Some (vkCmdCopyBuffer s src dst regions cmd)"
| "record_call s (CallFill dst off n w) cmd = Some (vkCmdFillBuffer s dst off n w cmd)"
| "record_call s (CallUpdate dst off bs) cmd = Some (vkCmdUpdateBuffer s True dst off bs cmd)"
| "record_call s CallBarrier cmd = Some (vkCmdPipelineBarrier cmd)"

fun record_calls :: "vk_state \<Rightarrow> vk_call list \<Rightarrow> vk_cmd \<Rightarrow> vk_cmd option" where
  "record_calls s [] cmd = Some cmd"
| "record_calls s (c # cs) cmd = (case record_call s c cmd of None \<Rightarrow> None | Some cmd' \<Rightarrow> record_calls s cs cmd')"

section \<open>The immediate machine\<close>

definition bound_dispatch :: "vk_state \<Rightarrow> vk_cmd \<Rightarrow> u32 \<Rightarrow> u32 \<Rightarrow> u32 \<Rightarrow> dispatch_op" where
  "bound_dispatch s cmd x y z =
     \<lparr>op_pipeline = cb_pipeline cmd, op_sets = cb_sets cmd, op_x = x, op_y = y, op_z = z, op_push = cb_push cmd,
      op_push_size =
        (case (case cb_pipeline cmd of None \<Rightarrow> None | Some p \<Rightarrow> pl_layout (the (vs_pipelines s p))) of
           None \<Rightarrow> cb_push_size cmd
         | Some l \<Rightarrow> if cb_push_size cmd < the (vs_layouts s l) then the (vs_layouts s l) else cb_push_size cmd)\<rparr>"

definition copy_region :: "environment \<Rightarrow> nat \<Rightarrow> nat \<Rightarrow> u64 \<times> u64 \<times> u64 \<Rightarrow> vk_state \<Rightarrow> vk_state" where
  "copy_region env src dst region s =
     (let (so, d_o, n) = region
      in execute_recorded_copy_op env
           \<lparr>co_src = src, co_dst = dst, co_src_offset = so, co_dst_offset = d_o, co_size = n\<rparr> s)"

fun run_call :: "gpu \<Rightarrow> environment \<Rightarrow> vk_call \<Rightarrow> vk_cmd \<Rightarrow> vk_state \<Rightarrow> vk_result \<times> vk_state" where
  "run_call gpu env (CallDispatch x y z) cmd s = submit_dispatch gpu env (bound_dispatch s cmd x y z) s"
| "run_call gpu env (CallCopy src dst regions) cmd s =
     (VK_SUCCESS, if is_bound s src \<and> is_bound s dst then fold (copy_region env (the src) (the dst)) regions s else s)"
| "run_call gpu env (CallFill dst off n w) cmd s =
     (VK_SUCCESS, if is_bound s dst then execute_recorded_fill_op (the dst) off (fill_extent s dst off n) w s else s)"
| "run_call gpu env (CallUpdate dst off bs) cmd s =
     (VK_SUCCESS, if is_bound s dst
        then execute_recorded_update_op (the dst) off (take (unat (update_extent s dst off (of_nat (length bs)))) bs) s else s)"
| "run_call gpu env _ cmd s = (VK_SUCCESS, s)"

text \<open>The bindings after a call; everything that is not a binding leaves them alone.\<close>

fun bind_call :: "vk_state \<Rightarrow> vk_call \<Rightarrow> vk_cmd \<Rightarrow> vk_cmd" where
  "bind_call s (CallPipeline p) cmd = vkCmdBindPipeline p cmd"
| "bind_call s (CallSets first hs offs) cmd = vkCmdBindDescriptorSets s first hs offs cmd"
| "bind_call s (CallPush off n bs) cmd = the (vkCmdPushConstants off n bs cmd)"
| "bind_call s _ cmd = cmd"

fun run_calls :: "gpu \<Rightarrow> environment \<Rightarrow> vk_call list \<Rightarrow> vk_cmd \<Rightarrow> vk_state \<Rightarrow> vk_result \<times> vk_state" where
  "run_calls gpu env [] cmd s = (VK_SUCCESS, s)"
| "run_calls gpu env (c # cs) cmd s =
     (case run_call gpu env c cmd s of
        (r, s') \<Rightarrow> if r = VK_SUCCESS then run_calls gpu env cs (bind_call s' c cmd) s' else (r, s'))"

section \<open>Sizes and bindings do not change while commands run\<close>

definition strip :: "vk_buffer \<Rightarrow> vk_buffer" where
  "strip bf = bf\<lparr>vb_aliases := []\<rparr>"

definition same_geometry :: "vk_state \<Rightarrow> vk_state \<Rightarrow> bool" where
  "same_geometry s t \<longleftrightarrow>
     vs_memories t = vs_memories s \<and> vs_sets t = vs_sets s \<and> vs_shaders t = vs_shaders s \<and> vs_layouts t = vs_layouts s
     \<and> vs_pipelines t = vs_pipelines s \<and> map_option strip \<circ> vs_buffers t = map_option strip \<circ> vs_buffers s"

lemma same_geometry_refl [simp]: "same_geometry s s"
  by (simp add: same_geometry_def)

lemma same_geometry_trans: "same_geometry s t \<Longrightarrow> same_geometry t u \<Longrightarrow> same_geometry s u"
  by (simp add: same_geometry_def)

lemma same_geometry_bytes [simp]: "same_geometry s (t\<lparr>vs_bytes := f\<rparr>) = same_geometry s t"
  by (simp add: same_geometry_def)

lemma same_geometry_map_buffer:
  assumes "\<And>bf. strip (g bf) = strip bf"
  shows "same_geometry s (map_buffer b g s)"
  using assms by (auto simp: same_geometry_def map_buffer_def fun_eq_iff option.map_comp comp_def)

lemma strip_invalidate: "strip (invalidate_copy_aliases off n bf) = strip bf"
  by (simp add: strip_def invalidate_copy_aliases_def)

lemma strip_add: "strip (add_copy_alias off n m so bf) = strip bf"
  by (simp add: strip_def add_copy_alias_def invalidate_copy_aliases_def Let_def)

lemma geometry_copy: "same_geometry s (execute_recorded_copy_op env c s)"
  by (auto simp: execute_recorded_copy_op_def split: option.split prod.split
      intro!: same_geometry_map_buffer strip_invalidate strip_add)

lemma geometry_fill: "same_geometry s (execute_recorded_fill_op b off n w s)"
  by (auto simp: execute_recorded_fill_op_def split: option.split intro!: same_geometry_map_buffer strip_invalidate)

lemma geometry_update: "same_geometry s (execute_recorded_update_op b off bs s)"
  by (auto simp: execute_recorded_update_op_def split: option.split intro!: same_geometry_map_buffer strip_invalidate)

lemma geometry_send: "same_geometry s (snd (send_generic_vulkan_dispatch_op gpu env d s))"
  by (auto simp: send_generic_vulkan_dispatch_op_def Let_def split: sum.split option.split)

lemma geometry_dispatch: "same_geometry s (snd (submit_dispatch gpu env d s))"
  using geometry_send [of s gpu env d] by (auto simp: submit_dispatch_def split: prod.split option.split)

lemma geometry_strip:
  assumes "same_geometry s t"
  shows "strip (the_buffer t b) = strip (the_buffer s b)"
proof -
  have "map_option strip (vs_buffers t b) = map_option strip (vs_buffers s b)"
    using assms by (auto simp: same_geometry_def fun_eq_iff)
  then show ?thesis by (cases "vs_buffers t b"; cases "vs_buffers s b") auto
qed

lemma strip_fields: "strip bf = strip bf' \<Longrightarrow> vb_size bf = vb_size bf' \<and> vb_memory bf = vb_memory bf'
    \<and> vb_memory_offset bf = vb_memory_offset bf'"
  by (cases bf; cases bf') (simp add: strip_def)

lemmas geometry_buffer = geometry_strip [THEN strip_fields, THEN conjunct1]
  geometry_strip [THEN strip_fields, THEN conjunct2, THEN conjunct1]
  geometry_strip [THEN strip_fields, THEN conjunct2, THEN conjunct2]

lemma bind_sets_same:
  assumes "vs_sets t = vs_sets s"
  shows "bind_sets t first hs offs cmd = bind_sets s first hs offs cmd"
  by (induction hs arbitrary: first offs cmd) (simp_all add: assms split: option.split prod.split)

lemma geometry_queries:
  assumes g: "same_geometry s t"
  shows "buffer_available t b off = buffer_available s b off" "buffer_ptr t b off n = buffer_ptr s b off n"
    "is_bound t b = is_bound s b" "fill_extent t b off n = fill_extent s b off n"
    "update_extent t b off n = update_extent s b off n"
    "bind_sets t first hs offs cmd = bind_sets s first hs offs cmd"
    "bound_dispatch t cmd x y z = bound_dispatch s cmd x y z"
proof -
  have m: "vs_memories t = vs_memories s" and sets: "vs_sets t = vs_sets s" and
      lp: "vs_layouts t = vs_layouts s" "vs_pipelines t = vs_pipelines s"
    using g by (auto simp: same_geometry_def)
  show av: "buffer_available t b off = buffer_available s b off" for b off
    by (simp add: buffer_available_def geometry_buffer [OF g] m Let_def cong: option.case_cong if_cong)
  show "buffer_ptr t b off n = buffer_ptr s b off n"
    by (simp add: buffer_ptr_def geometry_buffer [OF g] av cong: option.case_cong if_cong)
  show "is_bound t b = is_bound s b" by (simp add: is_bound_def geometry_buffer [OF g] cong: option.case_cong)
  show "fill_extent t b off n = fill_extent s b off n" "update_extent t b off n = update_extent s b off n"
    by (simp_all add: fill_extent_def update_extent_def av)
  show "bind_sets t first hs offs cmd = bind_sets s first hs offs cmd"
    by (rule bind_sets_same [OF sets])
  show "bound_dispatch t cmd x y z = bound_dispatch s cmd x y z"
    unfolding bound_dispatch_def lp by (rule refl)
qed

section \<open>The tables of a command buffer\<close>

fun op_valid :: "vk_cmd \<Rightarrow> command_op \<Rightarrow> bool" where
  "op_valid cmd (OpCopy i) = (i < length (cb_copies cmd))"
| "op_valid cmd (OpDispatch i) = (i < length (cb_dispatches cmd))"
| "op_valid cmd _ = True"

text \<open>\<open>cmd'\<close> holds what \<open>cmd\<close> holds, and more behind it.\<close>

definition extends :: "vk_cmd \<Rightarrow> vk_cmd \<Rightarrow> command_op list \<Rightarrow> bool" where
  "extends cmd cmd' new \<longleftrightarrow>
     prefix (cb_copies cmd) (cb_copies cmd') \<and> prefix (cb_dispatches cmd) (cb_dispatches cmd')
     \<and> cb_ops cmd' = cb_ops cmd @ new \<and> (\<forall>x \<in> set new. op_valid cmd' x)
     \<and> (cb_has_dispatch cmd' \<longrightarrow> cb_has_dispatch cmd \<or> new \<noteq> [])
     \<and> (cb_copies cmd' \<noteq> [] \<longrightarrow> cb_copies cmd \<noteq> [] \<or> new \<noteq> [])"

lemma op_valid_mono:
  "prefix (cb_copies cmd) (cb_copies cmd') \<Longrightarrow> prefix (cb_dispatches cmd) (cb_dispatches cmd') \<Longrightarrow> op_valid cmd x \<Longrightarrow> op_valid cmd' x"
  by (cases x) (auto dest!: prefix_length_le)

lemma extends_trans:
  assumes "extends a b new" "extends b c new2"
  shows "extends a c (new @ new2)"
proof -
  have "op_valid c x" if "x \<in> set (new @ new2)" for x
    using that assms op_valid_mono [of b c x] by (auto simp: extends_def)
  with assms show ?thesis by (auto simp: extends_def intro: prefix_order.trans)
qed

lemma submit_op_extends:
  assumes "prefix (cb_copies cmd) (cb_copies cmd')" "prefix (cb_dispatches cmd) (cb_dispatches cmd')" "op_valid cmd x"
  shows "submit_op gpu env cmd' x s = submit_op gpu env cmd x s"
  using assms by (cases x) (auto simp: prefix_def nth_append)

lemma run_until_extends:
  assumes "prefix (cb_copies cmd) (cb_copies cmd')" "prefix (cb_dispatches cmd) (cb_dispatches cmd')"
    "\<forall>x \<in> set new. op_valid cmd x"
  shows "run_until (submit_op gpu env cmd') new s = run_until (submit_op gpu env cmd) new s"
  using assms(3)
proof (induction new arbitrary: s)
  case (Cons x xs)
  then show ?case using submit_op_extends [OF assms(1,2)] by (simp split: prod.split)
qed simp

lemma run_until_append:
  "run_until f (xs @ ys) s =
     (case run_until f xs s of (r, s') \<Rightarrow> if r = VK_SUCCESS then run_until f ys s' else (r, s'))"
  by (induction xs arbitrary: s) (auto split: prod.split)

section \<open>One call\<close>

definition copies_of :: "vk_call \<Rightarrow> nat" where
  "copies_of c = (case c of CallCopy src dst regions \<Rightarrow> length regions | _ \<Rightarrow> 0)"

definition dispatches_of :: "vk_call \<Rightarrow> nat" where
  "dispatches_of c = (case c of CallDispatch x y z \<Rightarrow> 1 | _ \<Rightarrow> 0)"

definition ops_of :: "vk_call \<Rightarrow> nat" where
  "ops_of c = (case c of CallCopy src dst regions \<Rightarrow> length regions | CallPipeline p \<Rightarrow> 0 | CallSets first hs offs \<Rightarrow> 0
     | CallPush off n bs \<Rightarrow> 0 | _ \<Rightarrow> 1)"

definition room :: "vk_cmd \<Rightarrow> vk_call list \<Rightarrow> bool" where
  "room cmd cs \<longleftrightarrow>
     length (cb_copies cmd) + sum_list (map copies_of cs) \<le> MAX_COPY_OPS
     \<and> length (cb_dispatches cmd) + sum_list (map dispatches_of cs) \<le> MAX_DISPATCH_OPS
     \<and> length (cb_ops cmd) + sum_list (map ops_of cs) \<le> MAX_COMMAND_OPS"

definition same_bindings :: "vk_cmd \<Rightarrow> vk_cmd \<Rightarrow> bool" where
  "same_bindings cmd ctx \<longleftrightarrow>
     cb_pipeline cmd = cb_pipeline ctx \<and> cb_sets cmd = cb_sets ctx \<and> cb_push cmd = cb_push ctx
     \<and> cb_push_size cmd = cb_push_size ctx"

definition region_op :: "nat \<Rightarrow> nat \<Rightarrow> u64 \<times> u64 \<times> u64 \<Rightarrow> copy_op" where
  "region_op src dst region =
     (let (so, d_o, n) = region
      in \<lparr>co_src = src, co_dst = dst, co_src_offset = so, co_dst_offset = d_o, co_size = n\<rparr>)"

lemma recorded_copies:
  assumes "length (cb_copies cmd) + length regions \<le> MAX_COPY_OPS" "length (cb_ops cmd) + length regions \<le> MAX_COMMAND_OPS"
  shows "fold (record_copy src dst) regions cmd =
     cmd\<lparr>cb_copies := cb_copies cmd @ map (region_op src dst) regions,
         cb_ops := cb_ops cmd @ map OpCopy [length (cb_copies cmd)..<length (cb_copies cmd) + length regions]\<rparr>"
  using assms
proof (induction regions arbitrary: cmd)
  case (Cons r rs)
  have "record_copy src dst r cmd =
      cmd\<lparr>cb_copies := cb_copies cmd @ [region_op src dst r], cb_ops := cb_ops cmd @ [OpCopy (length (cb_copies cmd))]\<rparr>"
    using Cons.prems by (simp add: record_copy_def append_command_op_def region_op_def Let_def split: prod.split)
  with Cons show ?case by (simp add: upt_conv_Cons del: upt_Suc)
qed simp

lemma copy_region_op: "copy_region env src dst r s = execute_recorded_copy_op env (region_op src dst r) s"
  by (simp add: copy_region_def region_op_def split: prod.split)

lemma run_copies:
  assumes "cb_copies cmd = pre @ map (region_op src dst) regions @ post"
  shows "run_until (submit_op gpu env cmd) (map OpCopy [length pre..<length pre + length regions]) s =
     (VK_SUCCESS, fold (copy_region env src dst) regions s)"
  using assms
proof (induction regions arbitrary: pre s)
  case (Cons r rs)
  have "cb_copies cmd = (pre @ [region_op src dst r]) @ map (region_op src dst) rs @ post" using Cons.prems by simp
  note ih = Cons.IH [OF this]
  have idx: "[length pre..<length pre + length (r # rs)] =
      length pre # [length (pre @ [region_op src dst r])..<length (pre @ [region_op src dst r]) + length rs]"
    by (simp add: upt_conv_Cons del: upt_Suc)
  have "submit_op gpu env cmd (OpCopy (length pre)) s = (VK_SUCCESS, copy_region env src dst r s)"
    using Cons.prems by (simp add: copy_region_op)
  then show ?case unfolding idx by (simp only: list.map run_until.simps prod.case simp_thms if_True ih fold_simps)
qed simp

lemma bind_sets_tables [simp]:
  "cb_ops (bind_sets s first hs offs cmd) = cb_ops cmd" "cb_copies (bind_sets s first hs offs cmd) = cb_copies cmd"
  "cb_dispatches (bind_sets s first hs offs cmd) = cb_dispatches cmd"
  "cb_has_dispatch (bind_sets s first hs offs cmd) = cb_has_dispatch cmd"
  "cb_pipeline (bind_sets s first hs offs cmd) = cb_pipeline cmd"
  "cb_push (bind_sets s first hs offs cmd) = cb_push cmd"
  "cb_push_size (bind_sets s first hs offs cmd) = cb_push_size cmd"
  by (induction s first hs offs cmd rule: bind_sets.induct; simp split: option.split prod.split)+

lemma bind_sets_sets: "cb_sets cmd = cb_sets ctx \<Longrightarrow> cb_sets (bind_sets s first hs offs cmd) = cb_sets (bind_sets s first hs offs ctx)"
proof (induction hs arbitrary: first offs cmd ctx)
  case (Cons h hs)
  note ih = Cons.IH
  show ?case
  proof (cases h)
    case None
    then show ?thesis using Cons.prems ih [of cmd ctx "first + 1" offs] by simp
  next
    case (Some i)
    obtain ds offs' where d: "dynamic_offsets offs (the (vs_sets s i)) = (ds, offs')" by fastforce
    show ?thesis
      using Cons.prems ih [of "cmd\<lparr>cb_sets := (cb_sets cmd)[unat first := Some ds]\<rparr>"
          "ctx\<lparr>cb_sets := (cb_sets ctx)[unat first := Some ds]\<rparr>" "first + 1" offs']
      by (simp add: Some d)
  qed
qed simp

lemma appended: "length (cb_ops cmd) < MAX_COMMAND_OPS \<Longrightarrow> snd (append_command_op x cmd) = cmd\<lparr>cb_ops := cb_ops cmd @ [x]\<rparr>"
  by (simp add: append_command_op_def)

lemma record_bindings:
  assumes r: "record_call s0 c cmd = Some cmd1" and g: "same_geometry s0 s" and b: "same_bindings cmd ctx"
  shows "same_bindings cmd1 (bind_call s c ctx)"
proof -
  have app: "same_bindings (snd (append_command_op x k)) ctx = same_bindings k ctx" for x k
    by (simp add: append_command_op_def same_bindings_def)
  have copies: "same_bindings (fold (record_copy src dst) rs k) ctx = same_bindings k ctx" for src dst rs k
  proof (induction rs arbitrary: k)
    case (Cons r rs)
    have "same_bindings (record_copy src dst r k) ctx = same_bindings k ctx"
      by (simp add: record_copy_def Let_def app split: prod.split) (simp add: same_bindings_def)
    then show ?case by (simp add: Cons)
  qed simp
  show ?thesis
  proof (cases c)
    case (CallPipeline p)
    then show ?thesis using r b by (auto simp: vkCmdBindPipeline_def same_bindings_def)
  next
    case (CallSets first hs offs)
    have "bind_sets s first hs offs k = bind_sets s0 first hs offs k" for k by (rule geometry_queries(6) [OF g])
    then show ?thesis using r b CallSets bind_sets_sets [of cmd ctx]
      bind_sets_sets [of "cmd\<lparr>cb_unsupported := True\<rparr>" "ctx\<lparr>cb_unsupported := True\<rparr>"]
      by (auto simp: same_bindings_def vkCmdBindDescriptorSets_def)
  next
    case (CallPush off n bs)
    then show ?thesis using r b
      by (auto simp: vkCmdPushConstants_def same_bindings_def Let_def split: if_splits)
  next
    case (CallDispatch x y z)
    have "same_bindings (cmd\<lparr>cb_x := x, cb_y := y, cb_z := z, cb_has_dispatch := True\<rparr>) ctx"
        "same_bindings (cmd\<lparr>cb_x := x, cb_y := y, cb_z := z, cb_has_dispatch := True, cb_dispatches := ds\<rparr>) ctx" for ds
      using b by (simp_all add: same_bindings_def)
    then show ?thesis using r CallDispatch by (auto simp: vkCmdDispatch_def Let_def app)
  qed (use r b in \<open>auto simp: vkCmdBindPipeline_def vkCmdCopyBuffer_def copies vkCmdFillBuffer_def vkCmdUpdateBuffer_def
        vkCmdPipelineBarrier_def app Let_def\<close>)
qed

lemma record_room:
  assumes r: "record_call s0 c cmd = Some cmd1" and room: "room cmd (c # cs)"
  shows "room cmd1 cs"
proof (cases c)
  case (CallCopy src dst regions)
  then show ?thesis using r room recorded_copies [of cmd regions "the src" "the dst"]
    by (auto simp: room_def vkCmdCopyBuffer_def copies_of_def dispatches_of_def ops_of_def)
next
  case (CallDispatch x y z)
  then show ?thesis using r room
    by (auto simp: room_def vkCmdDispatch_def Let_def copies_of_def dispatches_of_def ops_of_def append_command_op_def)
next
  case (CallSets first hs offs)
  then show ?thesis using r room
    by (auto simp: room_def vkCmdBindDescriptorSets_def copies_of_def dispatches_of_def ops_of_def)
qed (use r room in \<open>auto simp: room_def vkCmdBindPipeline_def vkCmdFillBuffer_def vkCmdUpdateBuffer_def vkCmdPushConstants_def
        vkCmdPipelineBarrier_def copies_of_def dispatches_of_def ops_of_def append_command_op_def Let_def split: if_splits\<close>)

lemma extends_append_op:
  assumes "length (cb_ops cmd) < MAX_COMMAND_OPS" "op_valid cmd x"
  shows "extends cmd (snd (append_command_op x cmd)) [x]"
proof -
  have "op_valid (cmd\<lparr>cb_ops := f\<rparr>) x" for f using assms(2) by (cases x) simp_all
  then show ?thesis by (simp add: appended [OF assms(1)] extends_def)
qed

lemma record_step:
  assumes r: "record_call s0 c cmd = Some cmd1" and room: "room cmd (c # cs)" and g: "same_geometry s0 s"
    and b: "same_bindings cmd ctx"
  shows "\<exists>new. extends cmd cmd1 new \<and> run_until (submit_op gpu env cmd1) new s = run_call gpu env c ctx s"
proof (cases c)
  case (CallPipeline p)
  then show ?thesis using r by (auto simp: vkCmdBindPipeline_def extends_def intro!: exI [of _ "[]"])
next
  case (CallSets first hs offs)
  then show ?thesis using r
    by (auto simp: vkCmdBindDescriptorSets_def extends_def split: if_splits intro!: exI [of _ "[]"])
next
  case (CallPush off n bs)
  then show ?thesis using r
    by (auto simp: vkCmdPushConstants_def extends_def Let_def split: if_splits intro!: exI [of _ "[]"])
next
  case (CallDispatch x y z)
  let ?d = "bound_dispatch s0 cmd x y z"
  let ?k = "cmd\<lparr>cb_x := x, cb_y := y, cb_z := z, cb_has_dispatch := True, cb_dispatches := cb_dispatches cmd @ [?d]\<rparr>"
  have small: "length (cb_dispatches cmd) < MAX_DISPATCH_OPS" "length (cb_ops cmd) < MAX_COMMAND_OPS"
    using room CallDispatch by (simp_all add: room_def dispatches_of_def ops_of_def)
  have cmd1: "cmd1 = ?k\<lparr>cb_ops := cb_ops cmd @ [OpDispatch (length (cb_dispatches cmd))]\<rparr>"
    using r CallDispatch small
    by (simp add: vkCmdDispatch_def Let_def appended bound_dispatch_def cong: option.case_cong if_cong)
  have "?d = bound_dispatch s ctx x y z"
    using b unfolding geometry_queries(7) [OF g] by (simp add: bound_dispatch_def same_bindings_def cong: option.case_cong if_cong)
  then have "run_until (submit_op gpu env cmd1) [OpDispatch (length (cb_dispatches cmd))] s = run_call gpu env c ctx s"
    by (auto simp: cmd1 CallDispatch split: prod.split)
  moreover have "extends cmd cmd1 [OpDispatch (length (cb_dispatches cmd))]" by (simp add: cmd1 extends_def)
  ultimately show ?thesis by blast
next
  case (CallCopy src dst regions)
  have q: "is_bound s b = is_bound s0 b" for b by (rule geometry_queries(3) [OF g])
  show ?thesis
  proof (cases "is_bound s0 src \<and> is_bound s0 dst")
    case True
    let ?new = "map OpCopy [length (cb_copies cmd)..<length (cb_copies cmd) + length regions]"
    have small: "length (cb_copies cmd) + length regions \<le> MAX_COPY_OPS" "length (cb_ops cmd) + length regions \<le> MAX_COMMAND_OPS"
      using room CallCopy by (simp_all add: room_def copies_of_def ops_of_def)
    have cmd1: "cmd1 = cmd\<lparr>cb_copies := cb_copies cmd @ map (region_op (the src) (the dst)) regions, cb_ops := cb_ops cmd @ ?new\<rparr>"
      using r True CallCopy recorded_copies [OF small] by (simp add: vkCmdCopyBuffer_def)
    have "run_until (submit_op gpu env cmd1) ?new s = run_call gpu env c ctx s"
      using run_copies [of cmd1 "cb_copies cmd" "the src" "the dst" regions "[]"] True by (simp add: cmd1 CallCopy q)
    moreover have "extends cmd cmd1 ?new" by (auto simp: cmd1 extends_def)
    ultimately show ?thesis by blast
  next
    case False
    then show ?thesis using r CallCopy by (auto simp: vkCmdCopyBuffer_def extends_def q intro!: exI [of _ "[]"])
  qed
next
  case (CallFill dst off n w)
  have q: "is_bound s b = is_bound s0 b" "fill_extent s b off n = fill_extent s0 b off n" for b
    by (rule geometry_queries [OF g])+
  have small: "length (cb_ops cmd) < MAX_COMMAND_OPS" using room CallFill by (simp add: room_def ops_of_def)
  show ?thesis
  proof (cases "is_bound s0 dst \<and> fill_extent s0 dst off n \<noteq> 0")
    case True
    then have "cmd1 = snd (append_command_op (OpFill (the dst) off (fill_extent s0 dst off n) w) cmd)"
      using r CallFill by (simp add: vkCmdFillBuffer_def)
    with extends_append_op [OF small, of "OpFill (the dst) off (fill_extent s0 dst off n) w"] True show ?thesis
      by (intro exI [of _ "[OpFill (the dst) off (fill_extent s0 dst off n) w]"]) (simp add: CallFill q)
  next
    case False
    then have "cmd1 = cmd" "run_call gpu env c ctx s = (VK_SUCCESS, s)"
      using r CallFill by (auto simp: vkCmdFillBuffer_def q execute_recorded_fill_op_def)
    then show ?thesis by (intro exI [of _ "[]"]) (simp add: extends_def)
  qed
next
  case (CallUpdate dst off bs)
  let ?n = "update_extent s0 dst off (of_nat (length bs))"
  have q: "is_bound s b = is_bound s0 b" "update_extent s b off m = update_extent s0 b off m" for b m
    by (rule geometry_queries [OF g])+
  have small: "length (cb_ops cmd) < MAX_COMMAND_OPS" using room CallUpdate by (simp add: room_def ops_of_def)
  have le: "\<not> buffer_available s0 dst off < ?n" by (auto simp: update_extent_def Let_def not_less)
  have ptr: "buffer_ptr s0 dst off ?n \<noteq> None" if "is_bound s0 dst"
    using that le by (auto simp: buffer_ptr_def is_bound_def split: option.splits)
  show ?thesis
  proof (cases "is_bound s0 dst \<and> ?n \<noteq> 0")
    case True
    then have "cmd1 = snd (append_command_op (OpUpdate (the dst) off (take (unat ?n) bs)) cmd)"
      using r CallUpdate ptr by (auto simp: vkCmdUpdateBuffer_def Let_def)
    with extends_append_op [OF small, of "OpUpdate (the dst) off (take (unat ?n) bs)"] True show ?thesis
      by (intro exI [of _ "[OpUpdate (the dst) off (take (unat ?n) bs)]"]) (simp add: CallUpdate q)
  next
    case False
    then have "cmd1 = cmd" "run_call gpu env c ctx s = (VK_SUCCESS, s)"
      using r CallUpdate by (auto simp: vkCmdUpdateBuffer_def Let_def q execute_recorded_update_op_def)
    then show ?thesis by (intro exI [of _ "[]"]) (simp add: extends_def)
  qed
next
  case CallBarrier
  have small: "length (cb_ops cmd) < MAX_COMMAND_OPS" using room CallBarrier by (simp add: room_def ops_of_def)
  from extends_append_op [OF small, of OpBarrier] show ?thesis
    using r CallBarrier by (intro exI [of _ "[OpBarrier]"]) (simp add: vkCmdPipelineBarrier_def)
qed

lemma geometry_call: "same_geometry s (snd (run_call gpu env c ctx s))"
proof (cases c)
  case (CallCopy src dst regions)
  have "same_geometry s (fold (copy_region env a b) rs s)" for a b rs
  proof (induction rs arbitrary: s)
    case (Cons r rs)
    then show ?case unfolding fold_Cons_rev by (auto simp: copy_region_op intro: same_geometry_trans geometry_copy)
  qed simp
  then show ?thesis by (simp add: CallCopy)
qed (simp_all add: geometry_dispatch geometry_fill geometry_update)

lemma record_calls_replay:
  assumes "record_calls s0 cs cmd = Some cmd'" "room cmd cs" "same_geometry s0 s" "same_bindings cmd ctx"
  shows "\<exists>new. extends cmd cmd' new \<and> run_until (submit_op gpu env cmd') new s = run_calls gpu env cs ctx s"
  using assms
proof (induction cs arbitrary: cmd s ctx)
  case (Cons c cs)
  from Cons.prems(1) obtain cmd1 where c: "record_call s0 c cmd = Some cmd1" "record_calls s0 cs cmd1 = Some cmd'"
    by (auto split: option.splits)
  obtain r s' where run: "run_call gpu env c ctx s = (r, s')" by fastforce
  have g': "same_geometry s0 s'"
    using geometry_call [of s gpu env c ctx] Cons.prems(3) run by (auto intro: same_geometry_trans)
  obtain new where new: "extends cmd cmd1 new" "run_until (submit_op gpu env cmd1) new s = (r, s')"
    using record_step [OF c(1) Cons.prems(2-4)] run by metis
  obtain rest where rest: "extends cmd1 cmd' rest"
      "run_until (submit_op gpu env cmd') rest s' = run_calls gpu env cs (bind_call s' c ctx) s'"
    using Cons.IH [OF c(2) record_room [OF c(1) Cons.prems(2)] g' record_bindings [OF c(1) g' Cons.prems(4)]] by blast
  have "run_until (submit_op gpu env cmd') new s = run_until (submit_op gpu env cmd1) new s"
    using new(1) rest(1) by (intro run_until_extends) (auto simp: extends_def)
  then have "run_until (submit_op gpu env cmd') (new @ rest) s = run_calls gpu env (c # cs) ctx s"
    using new(2) rest(2) run by (simp add: run_until_append)
  with extends_trans [OF new(1) rest(1)] show ?case by blast
qed (auto simp: extends_def)

end
