(* ===== verification/Vk_Aliases.thy ===== *)
theory Vk_Aliases
  imports Vk_Invariant Vk_Replay
begin

text \<open>
  Copies that are not made. Where the source is a large memory the driver only notes the copy, and a
  later read of the destination goes to the source. \<open>shown\<close> is the byte of a buffer under the noted
  copies; it is related to a run that makes every copy at once.
\<close>

definition covers :: "nat \<Rightarrow> copy_alias \<Rightarrow> bool" where
  "covers i a \<longleftrightarrow> unat (ca_dst_offset a) \<le> i \<and> i < unat (ca_dst_offset a) + unat (ca_size a)"

definition shown :: "vk_state \<Rightarrow> vk_buffer \<Rightarrow> nat \<Rightarrow> u8" where
  "shown s bf i =
     (case List.find (covers i) (vb_aliases bf) of
        Some a \<Rightarrow> vs_bytes s (ca_memory a) (unat (ca_src_offset a) + (i - unat (ca_dst_offset a)))
      | None \<Rightarrow> vs_bytes s (the (vb_memory bf)) (unat (vb_memory_offset bf) + i))"

text \<open>Noted copies of one buffer do not overlap.\<close>

definition disjoint_aliases :: "vk_buffer \<Rightarrow> bool" where
  "disjoint_aliases bf \<longleftrightarrow>
     (\<forall>a \<in> set (vb_aliases bf). \<forall>b \<in> set (vb_aliases bf). \<forall>i. covers i a \<and> covers i b \<longrightarrow> a = b)"

text \<open>Different buffers have different bytes.\<close>

definition separated :: "vk_state \<Rightarrow> bool" where
  "separated s \<longleftrightarrow>
     (\<forall>b c bf cf m. b \<noteq> c \<and> vs_buffers s b = Some bf \<and> vs_buffers s c = Some cf
        \<and> vb_memory bf = Some m \<and> vb_memory cf = Some m \<longrightarrow>
        unat (vb_memory_offset bf) + unat (vb_size bf) \<le> unat (vb_memory_offset cf)
        \<or> unat (vb_memory_offset cf) + unat (vb_size cf) \<le> unat (vb_memory_offset bf))"

definition eager_view :: "vk_state \<Rightarrow> vk_state \<Rightarrow> bool" where
  "eager_view s t \<longleftrightarrow>
     same_geometry s t \<and> (\<forall>b bf. vs_buffers t b = Some bf \<longrightarrow> vb_aliases bf = [])
     \<and> (\<forall>b bf m i. vs_buffers s b = Some bf \<and> vb_memory bf = Some m \<and> i < unat (vb_size bf) \<longrightarrow>
          vs_bytes t m (unat (vb_memory_offset bf) + i) = shown s bf i)"

section \<open>Reading\<close>

text \<open>A range is read as a whole from one noted copy, or none of it was noted.\<close>

definition whole_range :: "vk_buffer \<Rightarrow> u64 \<Rightarrow> u64 \<Rightarrow> bool" where
  "whole_range bf off n \<longleftrightarrow>
     resolve_copy_alias bf off n \<noteq> None
     \<or> (\<forall>i. unat off \<le> i \<and> i < unat off + unat n \<longrightarrow> List.find (covers i) (vb_aliases bf) = None)"

lemma serves_covers:
  assumes "alias_serves off n a" "unat off \<le> i" "i < unat off + unat n"
  shows "covers i a"
proof -
  have d: "unat (off - ca_dst_offset a) = unat off - unat (ca_dst_offset a)"
    using assms(1) by (simp add: alias_serves_def unat_minus)
  have le: "off - ca_dst_offset a \<le> ca_size a" "n \<le> ca_size a - (off - ca_dst_offset a)" "ca_dst_offset a \<le> off"
    using assms(1) by (auto simp: alias_serves_def)
  then have "unat (off - ca_dst_offset a) + unat n \<le> unat (ca_size a)"
    using unat_minus [OF le(1)] by (simp add: word_le_nat_alt)
  with d le(3) assms(2,3) show ?thesis by (simp add: covers_def word_le_nat_alt)
qed

lemma find_covering:
  assumes "disjoint_aliases bf" "a \<in> set (vb_aliases bf)" "covers i a"
  shows "List.find (covers i) (vb_aliases bf) = Some a"
proof -
  have "List.find (covers i) (vb_aliases bf) \<noteq> None" using assms(2,3) by (auto simp: find_None_iff)
  then obtain b where b: "List.find (covers i) (vb_aliases bf) = Some b" by auto
  then have "b \<in> set (vb_aliases bf)" "covers i b" by (auto simp: find_Some_iff)
  with assms have "b = a" by (auto simp: disjoint_aliases_def)
  with b show ?thesis by simp
qed

lemma resolved_shows:
  assumes inv: "vk_inv s" and b: "vs_buffers s i = Some bf" and dis: "disjoint_aliases bf"
    and r: "resolve_copy_alias bf off n = Some (m, q)" and k: "k < unat n"
  shows "vs_bytes s m (unat q + k) = shown s bf (unat off + k)"
proof -
  obtain a where a: "a \<in> set (vb_aliases bf)" "alias_serves off n a" "m = ca_memory a"
      "unat q = unat (ca_src_offset a) + (unat off - unat (ca_dst_offset a))"
    using alias_inside(1) [OF inv b r] by blast
  have c: "covers (unat off + k) a" using serves_covers [OF a(2)] k by simp
  have "ca_dst_offset a \<le> off" using a(2) by (simp add: alias_serves_def)
  then have "unat (ca_src_offset a) + (unat off + k - unat (ca_dst_offset a)) = unat q + k"
    using a(4) by (simp add: word_le_nat_alt)
  with find_covering [OF dis a(1) c] a(3) show ?thesis by (simp add: shown_def)
qed

lemma range_shows:
  assumes inv: "vk_inv s" and b: "vs_buffers s i = Some bf" and mem: "vb_memory bf = Some m0" and dis: "disjoint_aliases bf"
    and whole: "whole_range bf off n" and inside: "unat off + unat n \<le> unat (vb_size bf)"
    and src: "(case resolve_copy_alias bf off n of Some p \<Rightarrow> p | None \<Rightarrow> (m0, vb_memory_offset bf + off)) = (m, q)"
    and k: "k < unat n"
  shows "vs_bytes s m (unat q + k) = shown s bf (unat off + k)"
proof (cases "resolve_copy_alias bf off n")
  case None
  then have f: "List.find (covers (unat off + k)) (vb_aliases bf) = None"
    using whole k by (auto simp: whole_range_def)
  obtain mm where "vs_memories s m0 = Some mm" "unat (vb_memory_offset bf) + unat (vb_size bf) \<le> unat (vm_size mm)"
      "unat (vm_size mm) < 2 ^ 63"
    using inv b mem by (fastforce simp: vk_inv_def buffer_ok_def)
  then have "unat q = unat (vb_memory_offset bf) + unat off"
    using src None inside by (auto intro!: unat_plus)
  with f src None mem show ?thesis by (simp add: shown_def add.assoc)
next
  case (Some p)
  then show ?thesis using src resolved_shows [OF inv b dis _ k] by simp
qed

end
