(* ===== verification/Vk_Transfers.thy ===== *)
theory Vk_Transfers
  imports Vk_Aliases
begin

text \<open>
  Transfers keep the invariant, write only inside the bound range of their buffer, and, as long as
  they are careful, keep the view of the run that makes every copy at once.
\<close>

datatype transfer = TCopy copy_op | TFill nat u64 u64 u32 | TUpdate nat u64 "u8 list"

fun run_transfer :: "environment \<Rightarrow> transfer \<Rightarrow> vk_state \<Rightarrow> vk_state" where
  "run_transfer env (TCopy c) s = execute_recorded_copy_op env c s"
| "run_transfer env (TFill b off n w) s = execute_recorded_fill_op b off n w s"
| "run_transfer env (TUpdate b off bs) s = execute_recorded_update_op b off bs s"

text \<open>The range of its buffer a transfer writes.\<close>

fun target :: "transfer \<Rightarrow> nat \<times> u64 \<times> u64" where
  "target (TCopy c) = (co_dst c, co_dst_offset c, co_size c)"
| "target (TFill b off n w) = (b, off, n)"
| "target (TUpdate b off bs) = (b, off, of_nat (length bs))"

section \<open>The invariant\<close>

lemma vk_inv_map_buffer:
  assumes "vk_inv s" "\<And>bf. vs_buffers s b = Some bf \<Longrightarrow> buffer_ok s (g bf)"
  shows "vk_inv (map_buffer b g s)"
  using assms unfolding vk_inv_def map_buffer_def by (auto split: if_splits)

lemma vk_inv_invalidate: "vk_inv s \<Longrightarrow> vk_inv (map_buffer b (invalidate_copy_aliases off n) s)"
  by (rule vk_inv_map_buffer) (auto simp: vk_inv_def intro: buffer_ok_invalidate)

lemma source_inside:
  assumes inv: "vk_inv s" and b: "vs_buffers s (co_src c) = Some bf"
    and p: "buffer_ptr s (Some (co_src c)) (co_src_offset c) (co_size c) = Some pm" and n: "co_size c \<noteq> 0"
    and r: "copy_source s c = (m, q)"
  shows "\<exists>mm. vs_memories s m = Some mm \<and> unat q + unat (co_size c) \<le> unat (vm_size mm)"
proof (cases "resolve_copy_alias bf (co_src_offset c) (co_size c)")
  case None
  obtain m0 q0 where pm: "pm = (m0, q0)" by fastforce
  note i = buffer_ptr_inside [OF inv b p [unfolded pm] n]
  have "q = vb_memory_offset bf + co_src_offset c" "m = m0" using r None b i(1) by (auto simp: copy_source_def)
  moreover have "q0 = vb_memory_offset bf + co_src_offset c"
    using p b pm by (auto simp: buffer_ptr_def split: option.splits if_splits)
  moreover obtain mm where "vs_memories s m0 = Some mm" using inv b i(1) by (fastforce simp: vk_inv_def buffer_ok_def)
  ultimately show ?thesis using i(4) by auto
next
  case (Some p)
  then have r': "resolve_copy_alias bf (co_src_offset c) (co_size c) = Some (m, q)" using r b by (simp add: copy_source_def)
  obtain a where a: "a \<in> set (vb_aliases bf)" "m = ca_memory a" using alias_inside(1) [OF inv b r'] by blast
  then have "alias_ok s bf a" using inv b by (auto simp: vk_inv_def buffer_ok_def)
  then obtain mm where "vs_memories s m = Some mm" using a by (auto simp: alias_ok_def)
  with alias_inside(2) [OF inv b r'] show ?thesis by auto
qed

lemma vk_inv_copy:
  assumes inv: "vk_inv s" and src: "vs_buffers s (co_src c) \<noteq> None"
  shows "vk_inv (execute_recorded_copy_op env c s)"
proof (cases "buffer_ptr s (Some (co_dst c)) (co_dst_offset c) (co_size c) = None
    \<or> buffer_ptr s (Some (co_src c)) (co_src_offset c) (co_size c) = None")
  case True
  then show ?thesis using inv by (auto simp: execute_recorded_copy_op_def split: option.splits)
next
  case False
  then obtain dm dq sp where p: "buffer_ptr s (Some (co_dst c)) (co_dst_offset c) (co_size c) = Some (dm, dq)"
      "buffer_ptr s (Some (co_src c)) (co_src_offset c) (co_size c) = Some sp" by auto
  obtain am ao where r: "copy_source s c = (am, ao)" by fastforce
  have "vk_inv (map_buffer (co_dst c) (add_copy_alias (co_dst_offset c) (co_size c) am ao) s)"
  proof (rule vk_inv_map_buffer [OF inv])
    fix bf assume d: "vs_buffers s (co_dst c) = Some bf"
    have ok: "buffer_ok s bf" using inv d by (simp add: vk_inv_def)
    show "buffer_ok s (add_copy_alias (co_dst_offset c) (co_size c) am ao bf)"
    proof (cases "co_size c = 0")
      case True
      then show ?thesis using ok by (simp add: add_copy_alias_def)
    next
      case False
      obtain sf where "vs_buffers s (co_src c) = Some sf" using src by auto
      from source_inside [OF inv this p(2) False r] obtain mm where "vs_memories s am = Some mm"
        "unat ao + unat (co_size c) \<le> unat (vm_size mm)" by blast
      with buffer_ptr_inside [OF inv d p(1) False] ok show ?thesis by (intro buffer_ok_add) auto
    qed
  qed
  then show ?thesis using inv p r
    by (simp add: execute_recorded_copy_op_def Let_def vk_inv_invalidate)
qed

lemma vk_inv_transfer:
  assumes "vk_inv s" "\<And>c. x = TCopy c \<Longrightarrow> vs_buffers s (co_src c) \<noteq> None"
  shows "vk_inv (run_transfer env x s)"
  using assms by (cases x) (auto simp: vk_inv_copy execute_recorded_fill_op_def execute_recorded_update_op_def
      vk_inv_invalidate split: option.split)

section \<open>Where transfers write\<close>

lemma move_outside:
  "m \<noteq> fst dst \<or> i < unat (snd dst) \<or> unat (snd dst) + unat n \<le> i \<Longrightarrow> move_bytes dst src n f m i = f m i"
  by (auto simp: move_bytes_def)

lemma store_outside:
  "m \<noteq> fst dst \<or> i < unat (snd dst) \<or> unat (snd dst) + length bs \<le> i \<Longrightarrow> store_bytes dst bs f m i = f m i"
  by (auto simp: store_bytes_def)

lemma fill_outside:
  assumes "m \<noteq> fst dst \<or> i < unat (snd dst) \<or> unat (snd dst) + unat n \<le> i"
  shows "fill_bytes dst n w f m i = f m i"
proof -
  have "4 * (unat n div 4) \<le> unat n" by simp
  with assms show ?thesis by (auto simp: fill_bytes_def)
qed

lemma move_changed: "move_bytes dst src n f m i \<noteq> f m i \<Longrightarrow> m = fst dst \<and> unat (snd dst) \<le> i \<and> i < unat (snd dst) + unat n"
  using move_outside [of m dst i n src f] by linarith

lemma store_changed: "store_bytes dst bs f m i \<noteq> f m i \<Longrightarrow> m = fst dst \<and> unat (snd dst) \<le> i \<and> i < unat (snd dst) + length bs"
  using store_outside [of m dst i bs f] by linarith

lemma fill_changed: "fill_bytes dst n w f m i \<noteq> f m i \<Longrightarrow> m = fst dst \<and> unat (snd dst) \<le> i \<and> i < unat (snd dst) + unat n"
  using fill_outside [of m dst i n w f] by linarith

lemma copy_changes:
  assumes "vs_bytes (execute_recorded_copy_op env c s) m i \<noteq> vs_bytes s m i"
  shows "\<exists>dq. buffer_ptr s (Some (co_dst c)) (co_dst_offset c) (co_size c) = Some (m, dq)
       \<and> unat dq \<le> i \<and> i < unat dq + unat (co_size c)"
proof (cases "buffer_ptr s (Some (co_dst c)) (co_dst_offset c) (co_size c)")
  case None
  then show ?thesis using assms by (simp add: execute_recorded_copy_op_def)
next
  case (Some d)
  then show ?thesis using assms
    by (cases d) (auto simp: execute_recorded_copy_op_def map_buffer_def Let_def dest!: move_changed
        split: option.splits prod.splits if_splits)
qed

lemma fill_changes:
  assumes "vs_bytes (execute_recorded_fill_op b off n w s) m i \<noteq> vs_bytes s m i"
  shows "\<exists>dq. buffer_ptr s (Some b) off n = Some (m, dq) \<and> unat dq \<le> i \<and> i < unat dq + unat n"
proof (cases "buffer_ptr s (Some b) off n")
  case None
  then show ?thesis using assms by (simp add: execute_recorded_fill_op_def split: if_splits)
next
  case (Some d)
  then show ?thesis using assms
    by (cases d) (auto simp: execute_recorded_fill_op_def map_buffer_def dest!: fill_changed split: if_splits)
qed

lemma update_changes:
  assumes "vs_bytes (execute_recorded_update_op b off bs s) m i \<noteq> vs_bytes s m i"
  shows "\<exists>dq. buffer_ptr s (Some b) off (of_nat (length bs)) = Some (m, dq) \<and> unat dq \<le> i \<and> i < unat dq + length bs"
proof (cases "buffer_ptr s (Some b) off (of_nat (length bs))")
  case None
  then show ?thesis using assms by (simp add: execute_recorded_update_op_def split: if_splits)
next
  case (Some d)
  then show ?thesis using assms
    by (cases d) (auto simp: execute_recorded_update_op_def map_buffer_def dest!: store_changed split: if_splits)
qed

text \<open>A byte that a transfer changes lies in the bound range of its buffer.\<close>

lemma transfer_inside:
  assumes inv: "vk_inv s" and t: "target x = (b, off, n)" and b: "vs_buffers s b = Some bf"
    and len: "\<And>bs. x = TUpdate b off bs \<Longrightarrow> length bs < 2 ^ 64"
    and ch: "vs_bytes (run_transfer env x s) m i \<noteq> vs_bytes s m i"
  shows "vb_memory bf = Some m" "unat (vb_memory_offset bf) + unat off \<le> i"
    "i < unat (vb_memory_offset bf) + unat off + unat n" "unat off + unat n \<le> unat (vb_size bf)"
proof -
  have "\<exists>dq. buffer_ptr s (Some b) off n = Some (m, dq) \<and> unat dq \<le> i \<and> i < unat dq + unat n"
  proof (cases x)
    case (TUpdate b' off' bs)
    then have "unat n = length bs" using t len by (auto simp: unat_of_nat take_bit_nat_eq_self)
    with TUpdate show ?thesis using ch t update_changes [of b off bs s m i] by auto
  qed (use ch t copy_changes fill_changes in auto)
  then obtain dq where p: "buffer_ptr s (Some b) off n = Some (m, dq)" "unat dq \<le> i" "i < unat dq + unat n" by blast
  then have "n \<noteq> 0" by auto
  from buffer_ptr_inside [OF inv b p(1) this] p(2,3)
  show "vb_memory bf = Some m" "unat (vb_memory_offset bf) + unat off \<le> i"
    "i < unat (vb_memory_offset bf) + unat off + unat n" "unat off + unat n \<le> unat (vb_size bf)" by simp_all
qed

end
