(* ===== verification/Vk_Eager.thy ===== *)
theory Vk_Eager
  imports Vk_Transfers
begin

text \<open>
  When noting copies is harmless: transfers that neither overwrite a noted copy in part, nor change
  the source of one, nor read a range that is noted in part, show every buffer the bytes it would
  have if every copy were made.
\<close>

definition in_range :: "u64 \<Rightarrow> u64 \<Rightarrow> nat \<Rightarrow> bool" where
  "in_range off n i \<longleftrightarrow> unat off \<le> i \<and> i < unat off + unat n"

text \<open>No noted copy of the buffer straddles the range.\<close>

definition clean_write :: "vk_buffer \<Rightarrow> u64 \<Rightarrow> u64 \<Rightarrow> bool" where
  "clean_write bf off n \<longleftrightarrow>
     (\<forall>a \<in> set (vb_aliases bf). (\<forall>i. covers i a \<longrightarrow> in_range off n i) \<or> (\<forall>i. covers i a \<longrightarrow> \<not> in_range off n i))"

text \<open>No noted copy has its source in \<open>n\<close> bytes of memory \<open>m\<close> at \<open>lo\<close>.\<close>

definition source_free :: "vk_state \<Rightarrow> nat \<Rightarrow> nat \<Rightarrow> nat \<Rightarrow> bool" where
  "source_free s m lo n \<longleftrightarrow>
     (\<forall>b bf a. vs_buffers s b = Some bf \<and> a \<in> set (vb_aliases bf) \<and> ca_memory a = m \<longrightarrow>
        unat (ca_src_offset a) + unat (ca_size a) \<le> lo \<or> lo + n \<le> unat (ca_src_offset a))"

lemma find_filter: "(\<And>a. a \<in> set as \<Longrightarrow> Q a \<Longrightarrow> P a) \<Longrightarrow> List.find Q (filter P as) = List.find Q as"
  by (induction as) auto

lemma overlap_covers:
  assumes ok: "alias_ok s bf a" and inside: "unat off + unat n \<le> unat (vb_size bf)"
  shows "ranges_overlap off n (ca_dst_offset a) (ca_size a) \<longleftrightarrow> (\<exists>i. covers i a \<and> in_range off n i)"
proof -
  have sz: "unat (ca_dst_offset a) + unat (ca_size a) < 2 ^ 64" "unat off + unat n < 2 ^ 64"
    using ok inside unat64 [of "vb_size bf"] by (simp_all add: alias_ok_def)
  have u: "unat (ca_dst_offset a + ca_size a) = unat (ca_dst_offset a) + unat (ca_size a)"
    "unat (off + n) = unat off + unat n"
    using sz by (simp_all add: unat_plus)
  have nz: "0 < unat (ca_size a)" using ok by (simp add: alias_ok_def unat_gt_0)
  show ?thesis
  proof
    assume r: "ranges_overlap off n (ca_dst_offset a) (ca_size a)"
    then have "unat off < unat (ca_dst_offset a) + unat (ca_size a)" "unat (ca_dst_offset a) < unat off + unat n" "0 < unat n"
      using u by (simp_all add: ranges_overlap_def word_less_nat_alt unat_gt_0)
    then have "covers (max (unat off) (unat (ca_dst_offset a))) a \<and> in_range off n (max (unat off) (unat (ca_dst_offset a)))"
      using nz by (simp add: covers_def in_range_def)
    then show "\<exists>i. covers i a \<and> in_range off n i" by blast
  next
    assume "\<exists>i. covers i a \<and> in_range off n i"
    then show "ranges_overlap off n (ca_dst_offset a) (ca_size a)"
      using u nz by (auto simp: ranges_overlap_def covers_def in_range_def word_less_nat_alt unat_gt_0)
  qed
qed

text \<open>The noted copies that survive a write of a range.\<close>

lemma find_invalidated:
  assumes ok: "buffer_ok s bf" and inside: "unat off + unat n \<le> unat (vb_size bf)" and clean: "clean_write bf off n"
  shows "List.find (covers i) (vb_aliases (invalidate_copy_aliases off n bf)) =
     (if in_range off n i then None else List.find (covers i) (vb_aliases bf))"
proof -
  have al: "alias_ok s bf a" if "a \<in> set (vb_aliases bf)" for a using ok that by (auto simp: buffer_ok_def)
  show ?thesis
  proof (cases "in_range off n i")
    case True
    have "\<not> covers i a" if "a \<in> set (vb_aliases (invalidate_copy_aliases off n bf))" for a
      using that True overlap_covers [OF al inside] by (auto simp: invalidate_copy_aliases_def)
    then show ?thesis using True by (auto simp: find_None_iff)
  next
    case False
    have "ca_valid a \<and> \<not> ranges_overlap off n (ca_dst_offset a) (ca_size a)"
      if "a \<in> set (vb_aliases bf)" "covers i a" for a
    proof -
      have "\<forall>i. covers i a \<longrightarrow> \<not> in_range off n i" using clean that False by (auto simp: clean_write_def)
      then show ?thesis using overlap_covers [OF al inside] al that(1) by (auto simp: alias_ok_def)
    qed
    then show ?thesis using False by (simp add: invalidate_copy_aliases_def find_filter)
  qed
qed

lemma separated_bytes:
  assumes "separated s" "vs_buffers s b = Some bf" "vs_buffers s c = Some cf" "b \<noteq> c"
    "vb_memory bf = Some m" "vb_memory cf = Some m" "i < unat (vb_size cf)" "unat off + unat n \<le> unat (vb_size bf)"
  shows "unat (vb_memory_offset cf) + i < unat (vb_memory_offset bf) + unat off
    \<or> unat (vb_memory_offset bf) + unat off + unat n \<le> unat (vb_memory_offset cf) + i"
proof -
  have "unat (vb_memory_offset bf) + unat (vb_size bf) \<le> unat (vb_memory_offset cf)
      \<or> unat (vb_memory_offset cf) + unat (vb_size cf) \<le> unat (vb_memory_offset bf)"
    using assms(1-6) unfolding separated_def by blast
  with assms(7,8) show ?thesis by linarith
qed

lemma geometry_separated:
  assumes "same_geometry s t" "separated s"
  shows "separated t"
  unfolding separated_def
proof (intro allI impI, elim conjE)
  fix b c bf cf m
  assume a: "b \<noteq> c" "vs_buffers t b = Some bf" "vs_buffers t c = Some cf" "vb_memory bf = Some m" "vb_memory cf = Some m"
  have ex: "\<exists>bf'. vs_buffers s b = Some bf' \<and> strip bf' = strip bf" if "vs_buffers t b = Some bf" for b bf
  proof -
    have "map_option strip (vs_buffers t b) = map_option strip (vs_buffers s b)"
      using assms(1) by (auto simp: same_geometry_def fun_eq_iff)
    then show ?thesis using that by (cases "vs_buffers s b") auto
  qed
  obtain bf' cf' where s: "vs_buffers s b = Some bf'" "strip bf' = strip bf" "vs_buffers s c = Some cf'" "strip cf' = strip cf"
    using ex a by blast
  have "vb_memory bf' = Some m" "vb_memory cf' = Some m" using strip_fields [OF s(2)] strip_fields [OF s(4)] a by simp_all
  then have "unat (vb_memory_offset bf') + unat (vb_size bf') \<le> unat (vb_memory_offset cf')
      \<or> unat (vb_memory_offset cf') + unat (vb_size cf') \<le> unat (vb_memory_offset bf')"
    using assms(2) a(1) s unfolding separated_def by blast
  then show "unat (vb_memory_offset bf) + unat (vb_size bf) \<le> unat (vb_memory_offset cf)
      \<or> unat (vb_memory_offset cf) + unat (vb_size cf) \<le> unat (vb_memory_offset bf)"
    using strip_fields [OF s(2)] strip_fields [OF s(4)] by simp
qed

section \<open>A write on both sides\<close>

lemma write_view:
  assumes inv: "vk_inv s" and sep: "separated s" and view: "eager_view s t"
    and b: "vs_buffers s b = Some bf" and mem: "vb_memory bf = Some m" and inside: "unat off + unat n \<le> unat (vb_size bf)"
    and clean: "clean_write bf off n" and free: "source_free s m (unat (vb_memory_offset bf) + unat off) (unat n)"
    and w: "\<And>k i. k \<noteq> m \<or> i < unat (vb_memory_offset bf) + unat off \<or> unat (vb_memory_offset bf) + unat off + unat n \<le> i
        \<Longrightarrow> f k i = vs_bytes s k i \<and> g k i = vs_bytes t k i"
    and agree: "\<And>k. k < unat n \<Longrightarrow> f m (unat (vb_memory_offset bf) + unat off + k) = g m (unat (vb_memory_offset bf) + unat off + k)"
  shows "eager_view ((map_buffer b (invalidate_copy_aliases off n) s)\<lparr>vs_bytes := f\<rparr>)
      ((map_buffer b (invalidate_copy_aliases off n) t)\<lparr>vs_bytes := g\<rparr>)"
proof -
  let ?s = "(map_buffer b (invalidate_copy_aliases off n) s)\<lparr>vs_bytes := f\<rparr>"
  let ?t = "(map_buffer b (invalidate_copy_aliases off n) t)\<lparr>vs_bytes := g\<rparr>"
  let ?lo = "unat (vb_memory_offset bf) + unat off"
  have ok: "buffer_ok s bf" using inv b by (simp add: vk_inv_def)
  have st: "same_geometry s t" using view by (simp add: eager_view_def)
  have geo: "same_geometry s (map_buffer b (invalidate_copy_aliases off n) s)"
      "same_geometry t (map_buffer b (invalidate_copy_aliases off n) t)"
    by (rule same_geometry_map_buffer, rule strip_invalidate)+
  have "same_geometry ?s ?t" using st geo by (simp add: same_geometry_def)
  moreover have "vb_aliases x = []" if "vs_buffers ?t c = Some x" for c x
    using that view by (auto simp: map_buffer_def eager_view_def invalidate_copy_aliases_def split: if_splits)
  moreover have "vs_bytes ?t k (unat (vb_memory_offset cf) + i) = shown ?s cf i"
    if c: "vs_buffers ?s c = Some cf" "vb_memory cf = Some k" "i < unat (vb_size cf)" for c cf k i
  proof (cases "c = b")
    case True
    then have cf: "cf = invalidate_copy_aliases off n bf" using c(1) b by (simp add: map_buffer_def)
    have k: "k = m" "vb_memory_offset cf = vb_memory_offset bf" "vb_size cf = vb_size bf"
      using c(2) mem by (simp_all add: cf invalidate_copy_aliases_def)
    note fi = find_invalidated [OF ok inside clean, of i, folded cf]
    show ?thesis
    proof (cases "in_range off n i")
      case True
      then have "i = unat off + (i - unat off)" "i - unat off < unat n" by (auto simp: in_range_def)
      with agree [of "i - unat off"] have "f m (unat (vb_memory_offset bf) + i) = g m (unat (vb_memory_offset bf) + i)"
        by (metis add.assoc)
      with True fi c(2) k show ?thesis by (simp add: shown_def)
    next
      case False
      have own: "g m (unat (vb_memory_offset bf) + i) = vs_bytes t m (unat (vb_memory_offset bf) + i)"
          "f m (unat (vb_memory_offset bf) + i) = vs_bytes s m (unat (vb_memory_offset bf) + i)"
        using False w [of m "unat (vb_memory_offset bf) + i"] by (auto simp: in_range_def)
      have old: "vs_bytes t m (unat (vb_memory_offset bf) + i) = shown s bf i"
        using view b mem c(3) k by (auto simp: eager_view_def)
      have "shown ?s cf i = shown s bf i"
      proof (cases "List.find (covers i) (vb_aliases bf)")
        case None
        then show ?thesis using fi False c(2) k own mem by (simp add: shown_def)
      next
        case (Some a)
        then have a: "a \<in> set (vb_aliases bf)" "covers i a" by (auto simp: find_Some_iff)
        have "f (ca_memory a) (unat (ca_src_offset a) + (i - unat (ca_dst_offset a))) =
            vs_bytes s (ca_memory a) (unat (ca_src_offset a) + (i - unat (ca_dst_offset a)))"
          using free b a w [of "ca_memory a" "unat (ca_src_offset a) + (i - unat (ca_dst_offset a))"]
          by (fastforce simp: source_free_def covers_def)
        then show ?thesis using fi False Some by (simp add: shown_def)
      qed
      then show ?thesis using own old k by simp
    qed
  next
    case False
    then have cs: "vs_buffers s c = Some cf" using c(1) by (simp add: map_buffer_def)
    have old: "vs_bytes t k (unat (vb_memory_offset cf) + i) = shown s cf i"
      using view cs c by (auto simp: eager_view_def)
    have "k = m \<Longrightarrow> unat (vb_memory_offset cf) + i < ?lo \<or> ?lo + unat n \<le> unat (vb_memory_offset cf) + i"
      using separated_bytes [OF sep b cs] False mem c inside by auto
    then have own: "g k (unat (vb_memory_offset cf) + i) = vs_bytes t k (unat (vb_memory_offset cf) + i)"
        "f k (unat (vb_memory_offset cf) + i) = vs_bytes s k (unat (vb_memory_offset cf) + i)"
      using w [of k "unat (vb_memory_offset cf) + i"] by blast+
    have "shown ?s cf i = shown s cf i"
    proof (cases "List.find (covers i) (vb_aliases cf)")
      case None
      then show ?thesis using c(2) own by (simp add: shown_def)
    next
      case (Some a)
      then have a: "a \<in> set (vb_aliases cf)" "covers i a" by (auto simp: find_Some_iff)
      have "f (ca_memory a) (unat (ca_src_offset a) + (i - unat (ca_dst_offset a))) =
          vs_bytes s (ca_memory a) (unat (ca_src_offset a) + (i - unat (ca_dst_offset a)))"
        using free cs a w [of "ca_memory a" "unat (ca_src_offset a) + (i - unat (ca_dst_offset a))"]
        by (fastforce simp: source_free_def covers_def)
      then show ?thesis using Some by (simp add: shown_def)
    qed
    then show ?thesis using own old by simp
  qed
  ultimately show ?thesis unfolding eager_view_def by blast
qed

section \<open>A noted copy beside a made one\<close>

lemma find_last: "List.find P (xs @ [y]) = (case List.find P xs of None \<Rightarrow> if P y then Some y else None | Some x \<Rightarrow> Some x)"
  by (induction xs) auto

lemma alias_view:
  assumes inv: "vk_inv s" and sep: "separated s" and view: "eager_view s t"
    and b: "vs_buffers s b = Some bf" and mem: "vb_memory bf = Some m" and inside: "unat off + unat n \<le> unat (vb_size bf)"
    and clean: "clean_write bf off n" and n: "n \<noteq> 0"
    and few: "length (vb_aliases (invalidate_copy_aliases off n bf)) < MAX_COPY_ALIASES"
    and w: "\<And>k i. k \<noteq> m \<or> i < unat (vb_memory_offset bf) + unat off \<or> unat (vb_memory_offset bf) + unat off + unat n \<le> i
        \<Longrightarrow> g k i = vs_bytes t k i"
    and agree: "\<And>k. k < unat n \<Longrightarrow> vs_bytes s am (unat ao + k) = g m (unat (vb_memory_offset bf) + unat off + k)"
  shows "eager_view (map_buffer b (add_copy_alias off n am ao) s)
      ((map_buffer b (invalidate_copy_aliases off n) t)\<lparr>vs_bytes := g\<rparr>)"
proof -
  let ?a = "\<lparr>ca_valid = True, ca_memory = am, ca_src_offset = ao, ca_dst_offset = off, ca_size = n\<rparr>"
  let ?s = "map_buffer b (add_copy_alias off n am ao) s"
  let ?t = "(map_buffer b (invalidate_copy_aliases off n) t)\<lparr>vs_bytes := g\<rparr>"
  let ?lo = "unat (vb_memory_offset bf) + unat off"
  have ok: "buffer_ok s bf" using inv b by (simp add: vk_inv_def)
  have st: "same_geometry s t" using view by (simp add: eager_view_def)
  have geo: "same_geometry s ?s" "same_geometry t (map_buffer b (invalidate_copy_aliases off n) t)"
    by (rule same_geometry_map_buffer, rule strip_add, rule same_geometry_map_buffer, rule strip_invalidate)
  have "same_geometry ?s ?t" using st geo by (simp add: same_geometry_def)
  moreover have "vb_aliases x = []" if "vs_buffers ?t c = Some x" for c x
    using that view by (auto simp: map_buffer_def eager_view_def invalidate_copy_aliases_def split: if_splits)
  moreover have "vs_bytes ?t k (unat (vb_memory_offset cf) + i) = shown ?s cf i"
    if c: "vs_buffers ?s c = Some cf" "vb_memory cf = Some k" "i < unat (vb_size cf)" for c cf k i
  proof (cases "c = b")
    case True
    then have cf: "cf = add_copy_alias off n am ao bf" using c(1) b by (simp add: map_buffer_def)
    have k: "k = m" "vb_memory_offset cf = vb_memory_offset bf" "vb_size cf = vb_size bf"
      using strip_fields [OF strip_add [of off n am ao bf]] c(2) mem by (simp_all add: cf)
    have al: "vb_aliases cf = vb_aliases (invalidate_copy_aliases off n bf) @ [?a]"
      using few n by (simp add: cf add_copy_alias_def Let_def)
    have new: "covers i ?a = in_range off n i" by (simp add: covers_def in_range_def)
    have fi: "List.find (covers i) (vb_aliases cf) = (if in_range off n i then Some ?a else List.find (covers i) (vb_aliases bf))"
      unfolding al find_last find_invalidated [OF ok inside clean] new by (simp split: option.split)
    show ?thesis
    proof (cases "in_range off n i")
      case True
      then have i: "?lo + (i - unat off) = unat (vb_memory_offset bf) + i" "i - unat off < unat n" by (auto simp: in_range_def)
      have "vs_bytes s am (unat ao + (i - unat off)) = g m (unat (vb_memory_offset bf) + i)"
        using agree [OF i(2)] unfolding i(1) .
      then show ?thesis using True fi k by (simp add: shown_def map_buffer_def)
    next
      case False
      have "g m (unat (vb_memory_offset bf) + i) = vs_bytes t m (unat (vb_memory_offset bf) + i)"
        using False w [of m "unat (vb_memory_offset bf) + i"] by (auto simp: in_range_def)
      moreover have "vs_bytes t m (unat (vb_memory_offset bf) + i) = shown s bf i"
        using view b mem c(3) k by (auto simp: eager_view_def)
      moreover have "shown ?s cf i = shown s bf i"
        using fi False c(2) k mem by (simp add: shown_def map_buffer_def split: option.split)
      ultimately show ?thesis using k by simp
    qed
  next
    case False
    then have cs: "vs_buffers s c = Some cf" using c(1) by (simp add: map_buffer_def)
    have "k = m \<Longrightarrow> unat (vb_memory_offset cf) + i < ?lo \<or> ?lo + unat n \<le> unat (vb_memory_offset cf) + i"
      using separated_bytes [OF sep b cs] False mem c inside by auto
    then have "g k (unat (vb_memory_offset cf) + i) = vs_bytes t k (unat (vb_memory_offset cf) + i)"
      using w [of k "unat (vb_memory_offset cf) + i"] by blast
    moreover have "vs_bytes t k (unat (vb_memory_offset cf) + i) = shown s cf i"
      using view cs c by (auto simp: eager_view_def)
    moreover have "shown ?s cf i = shown s cf i"
      by (simp add: shown_def map_buffer_def split: option.split)
    ultimately show ?thesis by simp
  qed
  ultimately show ?thesis unfolding eager_view_def by blast
qed

end
