(* ===== verification/Vk_Careful.thy ===== *)
theory Vk_Careful
  imports Vk_Eager
begin

text \<open>
  Careful transfers, one after the other, beside a run of the same transfers that makes every copy at
  once: the two stay related.
\<close>

section \<open>Careful transfers\<close>

fun careful :: "environment \<Rightarrow> vk_state \<Rightarrow> transfer \<Rightarrow> bool" where
  "careful env s x =
     (let (b, off, n) = target x; bf = the_buffer s b
      in n \<noteq> 0 \<and> vs_buffers s b \<noteq> None \<and> buffer_ptr s (Some b) off n \<noteq> None \<and> clean_write bf off n
         \<and> (case x of
              TCopy c \<Rightarrow>
                vs_buffers s (co_src c) \<noteq> None \<and> buffer_ptr s (Some (co_src c)) (co_src_offset c) n \<noteq> None
                \<and> whole_range (the_buffer s (co_src c)) (co_src_offset c) n
            | TFill b off n w \<Rightarrow> unat n mod 4 = 0
            | TUpdate b off bs \<Rightarrow> length bs < 2 ^ 64)
         \<and> (if (case x of TCopy c \<Rightarrow> copy_alias_candidate env s (fst (copy_source s c)) | _ \<Rightarrow> False)
            then length (vb_aliases (invalidate_copy_aliases off n bf)) < MAX_COPY_ALIASES
            else source_free s (the (vb_memory bf)) (unat (vb_memory_offset bf) + unat off) (unat n)))"

fun careful_run :: "environment \<Rightarrow> transfer list \<Rightarrow> vk_state \<Rightarrow> bool" where
  "careful_run env [] s = True"
| "careful_run env (x # xs) s = (careful env s x \<and> careful_run env xs (run_transfer env x s))"

definition related :: "environment \<Rightarrow> vk_state \<Rightarrow> vk_state \<Rightarrow> bool" where
  "related env s t \<longleftrightarrow>
     vk_inv s \<and> separated s \<and> eager_view s t
     \<and> (\<forall>b bf. vs_buffers s b = Some bf \<longrightarrow> disjoint_aliases bf
          \<and> (\<forall>a \<in> set (vb_aliases bf). copy_alias_candidate env s (ca_memory a)))"

section \<open>One transfer\<close>

lemma geometry_transfer: "same_geometry s (run_transfer env x s)"
  by (cases x) (simp_all add: geometry_copy geometry_fill geometry_update)

lemma related_parts:
  assumes "related env s t"
  shows "vk_inv s" "separated s" "eager_view s t" "same_geometry s t"
    "vs_buffers s b = Some bf \<Longrightarrow> disjoint_aliases bf"
    "vs_buffers s b = Some bf \<Longrightarrow> a \<in> set (vb_aliases bf) \<Longrightarrow> copy_alias_candidate env s (ca_memory a)"
    "vs_buffers t b = Some bf' \<Longrightarrow> vb_aliases bf' = []"
  using assms by (auto simp: related_def eager_view_def)

lemma candidate_geometry: "same_geometry s t \<Longrightarrow> copy_alias_candidate env t m = copy_alias_candidate env s m"
  by (simp add: copy_alias_candidate_def same_geometry_def)

text \<open>What the source of a copy shows on both sides.\<close>

lemma source_shows:
  assumes rel: "related env s t" and b: "vs_buffers s (co_src c) = Some sf"
    and p: "buffer_ptr s (Some (co_src c)) (co_src_offset c) (co_size c) = Some (sm, sq)"
    and whole: "whole_range sf (co_src_offset c) (co_size c)"
    and r: "copy_source s c = (am, ao)" and n: "co_size c \<noteq> 0" and k: "k < unat (co_size c)"
  shows "vs_bytes s am (unat ao + k) = vs_bytes t sm (unat sq + k)"
proof -
  note rp = related_parts [OF rel]
  note i = buffer_ptr_inside [OF rp(1) b p n]
  have "(case resolve_copy_alias sf (co_src_offset c) (co_size c) of Some p \<Rightarrow> p
      | None \<Rightarrow> (sm, vb_memory_offset sf + co_src_offset c)) = (am, ao)"
    using r b i(1) by (simp add: copy_source_def cong: option.case_cong)
  from range_shows [OF rp(1) b i(1) rp(5) [OF b] whole i(3) this k]
  have "vs_bytes s am (unat ao + k) = shown s sf (unat (co_src_offset c) + k)" .
  moreover have "vs_bytes t sm (unat (vb_memory_offset sf) + (unat (co_src_offset c) + k)) = shown s sf (unat (co_src_offset c) + k)"
    using rp(3) b i(1,3) k by (simp add: eager_view_def)
  ultimately show ?thesis using i(2) by (simp add: add.assoc)
qed

text \<open>A copy whose source is not a candidate reads the buffer itself.\<close>

lemma plain_source:
  assumes rel: "related env s t" and b: "vs_buffers s (co_src c) = Some sf"
    and p: "buffer_ptr s (Some (co_src c)) (co_src_offset c) (co_size c) = Some (sm, sq)"
    and no: "\<not> copy_alias_candidate env s (fst (copy_source s c))"
  shows "copy_source s c = (sm, sq)"
proof (cases "resolve_copy_alias sf (co_src_offset c) (co_size c)")
  case None
  then show ?thesis using b p by (auto simp: copy_source_def buffer_ptr_def split: option.splits if_splits)
next
  case (Some q)
  obtain m o' where q: "q = (m, o')" by fastforce
  from alias_inside(1) [OF related_parts(1) [OF rel] b Some [unfolded q]]
  obtain a where "a \<in> set (vb_aliases sf)" "m = ca_memory a" by blast
  then have "copy_alias_candidate env s m" using related_parts(6) [OF rel b] by simp
  then show ?thesis using no Some b q by (simp add: copy_source_def)
qed

text \<open>The noted copies that a write or a new note leaves.\<close>

lemma invalidate_subset: "set (vb_aliases (invalidate_copy_aliases off n bf)) \<subseteq> set (vb_aliases bf)"
  by (auto simp: invalidate_copy_aliases_def)

lemma disjoint_invalidate: "disjoint_aliases bf \<Longrightarrow> disjoint_aliases (invalidate_copy_aliases off n bf)"
  unfolding disjoint_aliases_def using invalidate_subset [of off n bf] by blast

lemma added_aliases:
  assumes "n \<noteq> 0" "length (vb_aliases (invalidate_copy_aliases off n bf)) < MAX_COPY_ALIASES"
  shows "vb_aliases (add_copy_alias off n am ao bf) = vb_aliases (invalidate_copy_aliases off n bf)
     @ [\<lparr>ca_valid = True, ca_memory = am, ca_src_offset = ao, ca_dst_offset = off, ca_size = n\<rparr>]"
  using assms by (simp add: add_copy_alias_def Let_def)

lemma disjoint_add:
  assumes ok: "buffer_ok s bf" and dis: "disjoint_aliases bf" and inside: "unat off + unat n \<le> unat (vb_size bf)"
    and n: "n \<noteq> 0" and few: "length (vb_aliases (invalidate_copy_aliases off n bf)) < MAX_COPY_ALIASES"
  shows "disjoint_aliases (add_copy_alias off n am ao bf)"
proof -
  let ?a = "\<lparr>ca_valid = True, ca_memory = am, ca_src_offset = ao, ca_dst_offset = off, ca_size = n\<rparr>"
  have clear: "\<not> (covers i a \<and> covers i ?a)" if "a \<in> set (vb_aliases (invalidate_copy_aliases off n bf))" for a i
  proof -
    have "a \<in> set (vb_aliases bf)" "\<not> ranges_overlap off n (ca_dst_offset a) (ca_size a)"
      using that by (auto simp: invalidate_copy_aliases_def)
    then have "\<not> (covers i a \<and> in_range off n i)"
      using overlap_covers [OF _ inside, of s a] ok by (auto simp: buffer_ok_def)
    then show ?thesis by (simp add: covers_def in_range_def)
  qed
  show ?thesis
    using disjoint_invalidate [OF dis, of off n] clear
    unfolding disjoint_aliases_def added_aliases [OF n few] by fastforce
qed

lemma careful_parts:
  assumes "careful env s x" "target x = (b, off, n)"
  obtains bf m q where "vs_buffers s b = Some bf" "buffer_ptr s (Some b) off n = Some (m, q)" "n \<noteq> 0"
    "clean_write bf off n"
  using assms by (auto simp: Let_def)

lemma write_step:
  assumes rel: "related env s t" and b: "vs_buffers s b = Some bf"
    and p: "buffer_ptr s (Some b) off n = Some (m, q)" and n: "n \<noteq> 0" and clean: "clean_write bf off n"
    and free: "source_free s (the (vb_memory bf)) (unat (vb_memory_offset bf) + unat off) (unat n)"
    and f: "\<And>k i. f k i \<noteq> vs_bytes s k i \<Longrightarrow> k = m \<and> unat q \<le> i \<and> i < unat q + unat n"
    and g: "\<And>k i. g k i \<noteq> vs_bytes t k i \<Longrightarrow> k = m \<and> unat q \<le> i \<and> i < unat q + unat n"
    and agree: "\<And>k. k < unat n \<Longrightarrow> f m (unat q + k) = g m (unat q + k)"
  shows "related env ((map_buffer b (invalidate_copy_aliases off n) s)\<lparr>vs_bytes := f\<rparr>)
      ((map_buffer b (invalidate_copy_aliases off n) t)\<lparr>vs_bytes := g\<rparr>)"
proof -
  let ?s = "(map_buffer b (invalidate_copy_aliases off n) s)\<lparr>vs_bytes := f\<rparr>"
  note rp = related_parts [OF rel]
  note i = buffer_ptr_inside [OF rp(1) b p n]
  have geo: "same_geometry s ?s"
    by (simp, rule same_geometry_map_buffer, rule strip_invalidate)
  have "eager_view ?s ((map_buffer b (invalidate_copy_aliases off n) t)\<lparr>vs_bytes := g\<rparr>)"
    by (rule write_view [OF rp(1-3) b i(1,3) clean])
      (use free i(1,2) f g agree in \<open>auto simp: not_less [symmetric]\<close>)
  moreover have "vk_inv ?s" using vk_inv_invalidate [OF rp(1)] by simp
  moreover have "disjoint_aliases cf \<and> (\<forall>a \<in> set (vb_aliases cf). copy_alias_candidate env ?s (ca_memory a))"
    if c: "vs_buffers ?s c = Some cf" for c cf
  proof -
    obtain cf' where cf': "vs_buffers s c = Some cf'" "cf = cf' \<or> cf = invalidate_copy_aliases off n cf'"
      using c by (auto simp: map_buffer_def split: if_splits)
    then show ?thesis
      using rp(5,6) disjoint_invalidate invalidate_subset candidate_geometry [OF geo] by blast
  qed
  ultimately show ?thesis using geometry_separated [OF geo rp(2)] unfolding related_def by blast
qed

lemma alias_step:
  assumes rel: "related env s t" and b: "vs_buffers s b = Some bf"
    and p: "buffer_ptr s (Some b) off n = Some (m, q)" and n: "n \<noteq> 0" and clean: "clean_write bf off n"
    and few: "length (vb_aliases (invalidate_copy_aliases off n bf)) < MAX_COPY_ALIASES"
    and am: "copy_alias_candidate env s am" "vs_memories s am = Some mm" "unat ao + unat n \<le> unat (vm_size mm)"
    and g: "\<And>k i. g k i \<noteq> vs_bytes t k i \<Longrightarrow> k = m \<and> unat q \<le> i \<and> i < unat q + unat n"
    and agree: "\<And>k. k < unat n \<Longrightarrow> vs_bytes s am (unat ao + k) = g m (unat q + k)"
  shows "related env (map_buffer b (add_copy_alias off n am ao) s)
      ((map_buffer b (invalidate_copy_aliases off n) t)\<lparr>vs_bytes := g\<rparr>)"
proof -
  let ?s = "map_buffer b (add_copy_alias off n am ao) s"
  note rp = related_parts [OF rel]
  note i = buffer_ptr_inside [OF rp(1) b p n]
  have ok: "buffer_ok s bf" using rp(1) b by (simp add: vk_inv_def)
  have geo: "same_geometry s ?s"
    by (rule same_geometry_map_buffer, rule strip_add)
  have "eager_view ?s ((map_buffer b (invalidate_copy_aliases off n) t)\<lparr>vs_bytes := g\<rparr>)"
    by (rule alias_view [OF rp(1-3) b i(1,3) clean n few])
      (use i(1,2) g agree in \<open>auto simp: not_less [symmetric]\<close>)
  moreover have "vk_inv ?s"
    by (rule vk_inv_map_buffer [OF rp(1)]) (use b i ok am n in \<open>auto intro!: buffer_ok_add\<close>)
  moreover have "disjoint_aliases cf \<and> (\<forall>a \<in> set (vb_aliases cf). copy_alias_candidate env ?s (ca_memory a))"
    if c: "vs_buffers ?s c = Some cf" for c cf
  proof (cases "c = b")
    case True
    then have cf: "cf = add_copy_alias off n am ao bf" using c b by (simp add: map_buffer_def)
    have "copy_alias_candidate env s (ca_memory a)" if "a \<in> set (vb_aliases cf)" for a
      using that rp(6) [OF b] am(1) invalidate_subset [of off n bf] unfolding cf added_aliases [OF n few] by auto
    then show ?thesis
      using disjoint_add [OF ok rp(5) [OF b] i(3) n few] candidate_geometry [OF geo] cf by simp
  next
    case False
    then show ?thesis using c rp(5,6) candidate_geometry [OF geo] by (simp add: map_buffer_def)
  qed
  ultimately show ?thesis using geometry_separated [OF geo rp(2)] unfolding related_def by blast
qed

lemma eager_copy:
  assumes rel: "related env s t" and off: "\<not> copy_alias_enabled env0"
    and d: "buffer_ptr s (Some (co_dst c)) (co_dst_offset c) (co_size c) = Some dst"
    and p: "buffer_ptr s (Some (co_src c)) (co_src_offset c) (co_size c) = Some src"
  shows "run_transfer env0 (TCopy c) t =
    (map_buffer (co_dst c) (invalidate_copy_aliases (co_dst_offset c) (co_size c)) t)
      \<lparr>vs_bytes := move_bytes dst src (co_size c) (vs_bytes t)\<rparr>"
  using geometry_queries(2) [OF related_parts(4) [OF rel]] off d p
  by (simp add: execute_recorded_copy_op_def copy_alias_candidate_def split: prod.split)

lemma move_moved: "k < unat n \<Longrightarrow> move_bytes (m, q) (sm, sq) n f m (unat q + k) = f sm (unat sq + k)"
  by (simp add: move_bytes_def)

lemma careful_copy:
  assumes rel: "related env s t" and care: "careful env s (TCopy c)" and off: "\<not> copy_alias_enabled env0"
  shows "related env (run_transfer env (TCopy c) s) (run_transfer env0 (TCopy c) t)"
proof -
  obtain bf m q sf sm sq where b: "vs_buffers s (co_dst c) = Some bf" "vs_buffers s (co_src c) = Some sf"
    and p: "buffer_ptr s (Some (co_dst c)) (co_dst_offset c) (co_size c) = Some (m, q)"
      "buffer_ptr s (Some (co_src c)) (co_src_offset c) (co_size c) = Some (sm, sq)"
    and n: "co_size c \<noteq> 0" and clean: "clean_write bf (co_dst_offset c) (co_size c)"
    and whole: "whole_range sf (co_src_offset c) (co_size c)"
    using care by (auto simp: Let_def)
  obtain am ao where r: "copy_source s c = (am, ao)" by fastforce
  let ?f = "move_bytes (m, q) (sm, sq) (co_size c)"
  note shows_src = source_shows [OF rel b(2) p(2) whole r n]
  note eager = eager_copy [OF rel off p]
  have g: "\<And>k i. ?f f k i \<noteq> f k i \<Longrightarrow> k = m \<and> unat q \<le> i \<and> i < unat q + unat (co_size c)" for f
    using move_changed by fastforce
  show ?thesis
  proof (cases "copy_alias_candidate env s am")
    case True
    have few: "length (vb_aliases (invalidate_copy_aliases (co_dst_offset c) (co_size c) bf)) < MAX_COPY_ALIASES"
      using care True r b by (simp add: Let_def)
    have step: "run_transfer env (TCopy c) s = map_buffer (co_dst c) (add_copy_alias (co_dst_offset c) (co_size c) am ao) s"
      using p r True by (simp add: execute_recorded_copy_op_def)
    obtain mm where "vs_memories s am = Some mm" "unat ao + unat (co_size c) \<le> unat (vm_size mm)"
      using source_inside [OF related_parts(1) [OF rel] b(2) p(2) n r] by blast
    from alias_step [OF rel b(1) p(1) n clean few True this g] show ?thesis
      unfolding step eager using shows_src by (simp add: move_moved)
  next
    case False
    have plain: "copy_source s c = (sm, sq)" by (rule plain_source [OF rel b(2) p(2)]) (use False r in simp)
    have step: "run_transfer env (TCopy c) s =
        (map_buffer (co_dst c) (invalidate_copy_aliases (co_dst_offset c) (co_size c)) s)\<lparr>vs_bytes := ?f (vs_bytes s)\<rparr>"
      using p r False by (simp add: execute_recorded_copy_op_def)
    have "source_free s (the (vb_memory bf)) (unat (vb_memory_offset bf) + unat (co_dst_offset c)) (unat (co_size c))"
      using care False r b by (simp add: Let_def)
    from write_step [OF rel b(1) p(1) n clean this g g] show ?thesis
      unfolding step eager using shows_src plain r by (simp add: move_moved)
  qed
qed

lemma careful_fill:
  assumes rel: "related env s t" and care: "careful env s (TFill b off n w)"
  shows "related env (run_transfer env (TFill b off n w) s) (run_transfer env0 (TFill b off n w) t)"
proof -
  obtain bf m q where b: "vs_buffers s b = Some bf" "buffer_ptr s (Some b) off n = Some (m, q)"
    and n: "n \<noteq> 0" and clean: "clean_write bf off n" and four: "unat n mod 4 = 0"
    and free: "source_free s (the (vb_memory bf)) (unat (vb_memory_offset bf) + unat off) (unat n)"
    using care by (auto simp: Let_def)
  have p: "buffer_ptr t (Some b) off n = Some (m, q)"
    using geometry_queries(2) [OF related_parts(4) [OF rel]] b(2) by simp
  have g: "\<And>k i. fill_bytes (m, q) n w f k i \<noteq> f k i \<Longrightarrow> k = m \<and> unat q \<le> i \<and> i < unat q + unat n" for f
    using fill_changed by fastforce
  have whole: "4 * (unat n div 4) = unat n" using four mult_div_mod_eq [of 4 "unat n"] by linarith
  have "related env ((map_buffer b (invalidate_copy_aliases off n) s)\<lparr>vs_bytes := fill_bytes (m, q) n w (vs_bytes s)\<rparr>)
      ((map_buffer b (invalidate_copy_aliases off n) t)\<lparr>vs_bytes := fill_bytes (m, q) n w (vs_bytes t)\<rparr>)"
    by (rule write_step [OF rel b n clean free g g]) (simp_all add: whole fill_bytes_def)
  then show ?thesis using p b(2) n by (simp add: execute_recorded_fill_op_def)
qed

lemma careful_update:
  assumes rel: "related env s t" and care: "careful env s (TUpdate b off bs)"
  shows "related env (run_transfer env (TUpdate b off bs) s) (run_transfer env0 (TUpdate b off bs) t)"
proof -
  let ?n = "of_nat (length bs) :: u64"
  obtain bf m q where b: "vs_buffers s b = Some bf" "buffer_ptr s (Some b) off ?n = Some (m, q)"
    and n: "?n \<noteq> 0" and clean: "clean_write bf off ?n" and len: "length bs < 2 ^ 64"
    and free: "source_free s (the (vb_memory bf)) (unat (vb_memory_offset bf) + unat off) (unat ?n)"
    using care by (auto simp: Let_def)
  have p: "buffer_ptr t (Some b) off ?n = Some (m, q)"
    using geometry_queries(2) [OF related_parts(4) [OF rel]] b(2) by simp
  have u: "unat ?n = length bs" using len by (simp add: unat_of_nat take_bit_nat_eq_self)
  have g: "\<And>k i. store_bytes (m, q) bs f k i \<noteq> f k i \<Longrightarrow> k = m \<and> unat q \<le> i \<and> i < unat q + unat ?n" for f
    unfolding u using store_changed by fastforce
  have ne: "bs \<noteq> []" using n by auto
  have "related env ((map_buffer b (invalidate_copy_aliases off ?n) s)\<lparr>vs_bytes := store_bytes (m, q) bs (vs_bytes s)\<rparr>)
      ((map_buffer b (invalidate_copy_aliases off ?n) t)\<lparr>vs_bytes := store_bytes (m, q) bs (vs_bytes t)\<rparr>)"
    by (rule write_step [OF rel b n clean free g g]) (simp_all add: u store_bytes_def)
  then show ?thesis using p b(2) ne by (simp add: execute_recorded_update_op_def)
qed

text \<open>A whole sequence.\<close>

lemma careful_related:
  assumes "related env s t" "careful_run env xs s" "\<not> copy_alias_enabled env0"
  shows "related env (fold (run_transfer env) xs s) (fold (run_transfer env0) xs t)"
  using assms
proof (induction xs arbitrary: s t)
  case (Cons x xs)
  then have care: "careful env s x" "careful_run env xs (run_transfer env x s)" by simp_all
  have "related env (run_transfer env x s) (run_transfer env0 x t)"
    using careful_copy [OF Cons.prems(1) _ Cons.prems(3)] careful_fill [OF Cons.prems(1)]
      careful_update [OF Cons.prems(1)] care(1) by (cases x) blast+
  from Cons.IH [OF this care(2) Cons.prems(3)] show ?case by simp
qed simp

end
