(* ===== verification/Vk_Overwrite.thy ===== *)
theory Vk_Overwrite
  imports Vk_Careful
begin

text \<open>
  What happens to a noted copy when a transfer writes across it: the note goes, whatever else is noted,
  and the rest of its range is read from bytes the copy never stored.
\<close>

text \<open>The notes of a buffer after a transfer into it.\<close>

definition new_note :: "u64 \<Rightarrow> u64 \<Rightarrow> nat \<times> u64 \<Rightarrow> copy_alias" where
  "new_note off n p = \<lparr>ca_valid = True, ca_memory = fst p, ca_src_offset = snd p, ca_dst_offset = off, ca_size = n\<rparr>"

lemma added_subset:
  "set (vb_aliases (add_copy_alias off n am ao bf))
     \<subseteq> insert (new_note off n (am, ao)) (set (vb_aliases (invalidate_copy_aliases off n bf))) \<union> (if n = 0 then set (vb_aliases bf) else {})"
  by (auto simp: add_copy_alias_def Let_def new_note_def dest: in_set_dropD)

lemma transfer_aliases:
  assumes t: "target x = (b, off, n)" and b: "vs_buffers s b = Some bf"
    and p: "buffer_ptr s (Some b) off n \<noteq> None" and n: "n \<noteq> 0"
    and src: "\<forall>c. x = TCopy c \<longrightarrow> buffer_ptr s (Some (co_src c)) (co_src_offset c) n \<noteq> None"
    and len: "\<forall>bs. x = TUpdate b off bs \<longrightarrow> length bs < 2 ^ 64"
  shows "\<exists>p. set (vb_aliases (the_buffer (run_transfer env x s) b))
      \<subseteq> insert (new_note off n p) (set (vb_aliases (invalidate_copy_aliases off n bf)))"
    and "vb_memory_offset (the_buffer (run_transfer env x s) b) = vb_memory_offset bf"
proof -
  show "vb_memory_offset (the_buffer (run_transfer env x s) b) = vb_memory_offset bf"
    using strip_fields [OF geometry_strip [OF geometry_transfer [of s env x], of b]] b by simp
  show "\<exists>p. set (vb_aliases (the_buffer (run_transfer env x s) b))
      \<subseteq> insert (new_note off n p) (set (vb_aliases (invalidate_copy_aliases off n bf)))"
  proof (cases x)
    case (TCopy c)
    then have c: "co_dst c = b" "co_dst_offset c = off" "co_size c = n" using t by simp_all
    obtain dst sp where q: "buffer_ptr s (Some b) off n = Some dst"
        "buffer_ptr s (Some (co_src c)) (co_src_offset c) n = Some sp"
      using p src TCopy by auto
    obtain am ao where r: "copy_source s c = (am, ao)" by fastforce
    show ?thesis
    proof (cases "copy_alias_candidate env s am")
      case True
      then have "the_buffer (run_transfer env x s) b = add_copy_alias off n am ao bf"
        using TCopy c q r b by (simp add: execute_recorded_copy_op_def map_buffer_def)
      then show ?thesis using added_subset [of off n am ao bf] n by auto
    next
      case False
      then have "the_buffer (run_transfer env x s) b = invalidate_copy_aliases off n bf"
        using TCopy c q r b by (simp add: execute_recorded_copy_op_def map_buffer_def)
      then show ?thesis by auto
    qed
  next
    case (TFill b' off' w v)
    then have "the_buffer (run_transfer env x s) b = invalidate_copy_aliases off n bf"
      using t p n b by (auto simp: execute_recorded_fill_op_def map_buffer_def)
    then show ?thesis by auto
  next
    case (TUpdate b' off' bs)
    then have "the_buffer (run_transfer env x s) b = invalidate_copy_aliases off n bf"
      using t p n b by (auto simp: execute_recorded_update_op_def map_buffer_def)
    then show ?thesis by auto
  qed
qed

text \<open>A note that does not overlap a range serves no part of it.\<close>

lemma apart_serves_not:
  assumes ok: "alias_ok s bf a" and inside: "unat off + unat n \<le> unat (vb_size bf)"
    and apart: "\<not> ranges_overlap off n (ca_dst_offset a) (ca_size a)"
    and part: "unat off \<le> unat roff" "unat roff < unat off + unat n" and rn: "rn \<noteq> 0"
  shows "\<not> alias_serves roff rn a"
proof
  assume "alias_serves roff rn a"
  then have "covers (unat roff) a" by (rule serves_covers) (use rn in \<open>simp_all add: unat_gt_0\<close>)
  moreover have "in_range off n (unat roff)" using part by (simp add: in_range_def)
  ultimately show False using overlap_covers [OF ok inside] apart by blast
qed

lemma new_note_serves:
  assumes "unat off \<le> unat roff" "unat roff + unat rn \<le> unat off + unat n"
  shows "alias_serves roff rn (new_note off n p)"
proof -
  have le: "off \<le> roff" using assms(1) by (simp add: word_le_nat_alt)
  have d: "unat (roff - off) = unat roff - unat off" using le by (rule unat_minus)
  have "unat (roff - off) \<le> unat n" using d assms by linarith
  then have le2: "roff - off \<le> n" by (simp add: word_le_nat_alt)
  have "unat rn \<le> unat n - unat (roff - off)" using d assms by linarith
  then have "rn \<le> n - (roff - off)" using unat_minus [OF le2] by (simp add: word_le_nat_alt)
  with le le2 show ?thesis by (simp add: alias_serves_def new_note_def)
qed

lemma resolve_none:
  assumes "\<And>a. a \<in> set (vb_aliases bf) \<Longrightarrow> \<not> alias_serves off n a"
  shows "resolve_copy_alias bf off n = None"
proof -
  have "List.find (alias_serves off n) (vb_aliases bf) = None" using assms by (auto simp: find_None_iff)
  then show ?thesis by (simp add: resolve_copy_alias_def)
qed

section \<open>A noted copy, then a write across it\<close>

lemma noted_copy:
  assumes b: "vs_buffers s (co_dst c) = Some bf" and n: "co_size c \<noteq> 0"
    and p: "buffer_ptr s (Some (co_dst c)) (co_dst_offset c) (co_size c) \<noteq> None"
      "buffer_ptr s (Some (co_src c)) (co_src_offset c) (co_size c) \<noteq> None"
    and cand: "copy_alias_candidate env s (fst (copy_source s c))"
  shows "vs_bytes (run_transfer env (TCopy c) s) = vs_bytes s"
    and "\<exists>kept. vb_aliases (the_buffer (run_transfer env (TCopy c) s) (co_dst c)) =
        kept @ [new_note (co_dst_offset c) (co_size c) (copy_source s c)]
      \<and> set kept \<subseteq> set (vb_aliases (invalidate_copy_aliases (co_dst_offset c) (co_size c) bf))"
proof -
  obtain am ao where r: "copy_source s c = (am, ao)" by fastforce
  have step: "run_transfer env (TCopy c) s = map_buffer (co_dst c) (add_copy_alias (co_dst_offset c) (co_size c) am ao) s"
    using p cand r by (auto simp: execute_recorded_copy_op_def)
  then show "vs_bytes (run_transfer env (TCopy c) s) = vs_bytes s" by (simp add: map_buffer_def)
  have buf: "the_buffer (run_transfer env (TCopy c) s) (co_dst c) = add_copy_alias (co_dst_offset c) (co_size c) am ao bf"
    unfolding step using b by (simp add: map_buffer_def)
  show "\<exists>kept. vb_aliases (the_buffer (run_transfer env (TCopy c) s) (co_dst c)) =
        kept @ [new_note (co_dst_offset c) (co_size c) (copy_source s c)]
      \<and> set kept \<subseteq> set (vb_aliases (invalidate_copy_aliases (co_dst_offset c) (co_size c) bf))"
    unfolding buf using n r by (auto simp: add_copy_alias_def new_note_def Let_def dest: in_set_dropD)
qed

lemma overwritten_note:
  assumes env: "copy_alias_enabled env" and inv: "vk_inv s0" and b: "vs_buffers s0 (co_dst c) = Some bf"
    and mem: "vb_memory bf = Some m" and srcb: "vs_buffers s0 (co_src c) \<noteq> None"
    and p: "buffer_ptr s0 (Some (co_dst c)) (co_dst_offset c) (co_size c) \<noteq> None"
      "buffer_ptr s0 (Some (co_src c)) (co_src_offset c) (co_size c) \<noteq> None"
    and cand: "copy_alias_candidate env s0 (fst (copy_source s0 c))"
    and part: "unat (co_dst_offset c) \<le> unat roff" "unat roff + unat rn \<le> unat (co_dst_offset c) + unat (co_size c)" "rn \<noteq> 0"
    and s: "s = run_transfer env (TCopy c) s0"
    and x: "target x = (co_dst c, off, n)" "buffer_ptr s (Some (co_dst c)) off n \<noteq> None"
      "\<forall>c. x = TCopy c \<longrightarrow> buffer_ptr s (Some (co_src c)) (co_src_offset c) n \<noteq> None"
      "\<forall>bs. x = TUpdate (co_dst c) off bs \<longrightarrow> length bs < 2 ^ 64"
    and n: "n \<noteq> 0"
    and across: "unat off < unat (co_dst_offset c) + unat (co_size c)" "unat (co_dst_offset c) < unat off + unat n"
    and clear: "unat roff + unat rn \<le> unat off \<or> unat off + unat n \<le> unat roff"
  shows "dispatch_source env (the_buffer s (co_dst c)) m roff rn =
      (fst (copy_source s0 c), snd (copy_source s0 c) + (roff - co_dst_offset c))"
    and "dispatch_source env (the_buffer (run_transfer env x s) (co_dst c)) m roff rn = (m, vb_memory_offset bf + roff)"
    and "\<forall>k < unat rn. vs_bytes (run_transfer env x s) m (unat (vb_memory_offset bf) + unat roff + k)
          = vs_bytes s0 m (unat (vb_memory_offset bf) + unat roff + k)"
proof -
  let ?b = "co_dst c" and ?d = "co_dst_offset c" and ?w = "co_size c"
  let ?bs = "the_buffer s ?b" and ?s' = "run_transfer env x s"
  have rn0: "0 < unat rn" using part(3) by (simp add: unat_gt_0)
  then have n0: "?w \<noteq> 0" using part by auto
  have ok: "buffer_ok s0 bf" using inv b by (simp add: vk_inv_def)
  obtain pd where pd: "buffer_ptr s0 (Some ?b) ?d ?w = Some pd" using p(1) by blast
  have ins: "unat ?d + unat ?w \<le> unat (vb_size bf)"
    using buffer_ptr_inside(3) [OF inv b, of ?d ?w "fst pd" "snd pd"] pd n0 by simp
  note noted = noted_copy [OF b n0 p cand]
  obtain kept where kept: "vb_aliases ?bs = kept @ [new_note ?d ?w (copy_source s0 c)]"
      "set kept \<subseteq> set (vb_aliases (invalidate_copy_aliases ?d ?w bf))"
    using noted(2) unfolding s by blast
  have kept_not: "\<not> alias_serves roff rn a" if "a \<in> set kept" for a
  proof -
    have a: "a \<in> set (vb_aliases bf)" "\<not> ranges_overlap ?d ?w (ca_dst_offset a) (ca_size a)"
      using that kept(2) by (auto simp: invalidate_copy_aliases_def)
    then have "alias_ok s0 bf a" using ok by (simp add: buffer_ok_def)
    from apart_serves_not [OF this ins a(2) part(1) _ part(3)] part(2) rn0 show ?thesis by linarith
  qed
  have new: "alias_serves roff rn (new_note ?d ?w (copy_source s0 c))" by (rule new_note_serves [OF part(1,2)])
  have "List.find (alias_serves roff rn) kept = None" using kept_not by (auto simp: find_None_iff)
  then have "resolve_copy_alias ?bs roff rn = Some (fst (copy_source s0 c), snd (copy_source s0 c) + (roff - ?d))"
    using new by (simp add: resolve_copy_alias_def kept(1) find_last) (simp add: new_note_def)
  then show "dispatch_source env ?bs m roff rn = (fst (copy_source s0 c), snd (copy_source s0 c) + (roff - ?d))"
    using env by (simp add: dispatch_source_def)
  have inv_s: "vk_inv s" unfolding s by (rule vk_inv_transfer [OF inv]) (use srcb in auto)
  have "map_option strip (vs_buffers s ?b) = map_option strip (vs_buffers s0 ?b)"
    using geometry_transfer [of s0 env "TCopy c"] unfolding s by (auto simp: same_geometry_def fun_eq_iff)
  then obtain bfs where bs: "vs_buffers s ?b = Some bfs" using b by (cases "vs_buffers s ?b") auto
  have geo: "vb_memory bfs = vb_memory bf" "vb_memory_offset bfs = vb_memory_offset bf" "vb_size bfs = vb_size bf"
    using strip_fields [OF geometry_strip [OF geometry_transfer [of s0 env "TCopy c"], of ?b]] b bs unfolding s by simp_all
  obtain px where px: "buffer_ptr s (Some ?b) off n = Some px" using x(2) by blast
  have insx: "unat off + unat n \<le> unat (vb_size bfs)"
    using buffer_ptr_inside(3) [OF inv_s bs, of off n "fst px" "snd px"] px n by simp
  have oks: "buffer_ok s bfs" using inv_s bs by (simp add: vk_inv_def)
  note al = transfer_aliases [OF x(1) bs x(2) n x(3,4), of env]
  obtain q where sub: "set (vb_aliases (the_buffer ?s' ?b))
      \<subseteq> insert (new_note off n q) (set (vb_aliases (invalidate_copy_aliases off n bfs)))"
    using al(1) by blast
  have "\<not> alias_serves roff rn a" if a: "a \<in> set (vb_aliases (the_buffer ?s' ?b))" for a
  proof (cases "a = new_note off n q")
    case True
    show ?thesis
    proof
      assume "alias_serves roff rn a"
      then have "covers (unat roff) a" "covers (unat roff + (unat rn - 1)) a"
        by (rule serves_covers; use rn0 in simp)+
      then show False using clear rn0 unfolding True by (auto simp: covers_def new_note_def)
    qed
  next
    case False
    then have i: "a \<in> set (vb_aliases bfs)" "\<not> ranges_overlap off n (ca_dst_offset a) (ca_size a)"
      using a sub by (auto simp: invalidate_copy_aliases_def)
    have "a \<noteq> new_note ?d ?w (copy_source s0 c)"
    proof
      assume e: "a = new_note ?d ?w (copy_source s0 c)"
      have "alias_ok s bfs a" using oks i(1) by (simp add: buffer_ok_def)
      moreover have "covers (max (unat off) (unat ?d)) a \<and> in_range off n (max (unat off) (unat ?d))"
        using across n n0 by (simp add: e covers_def new_note_def in_range_def unat_gt_0)
      ultimately show False using overlap_covers [OF _ insx] i(2) by blast
    qed
    then have "a \<in> set kept" using i(1) kept(1) bs by auto
    then show ?thesis by (rule kept_not)
  qed
  then have "resolve_copy_alias (the_buffer ?s' ?b) roff rn = None" by (rule resolve_none)
  then show "dispatch_source env (the_buffer ?s' ?b) m roff rn = (m, vb_memory_offset bf + roff)"
    using al(2) geo by (simp add: dispatch_source_def)
  show "\<forall>k < unat rn. vs_bytes ?s' m (unat (vb_memory_offset bf) + unat roff + k)
          = vs_bytes s0 m (unat (vb_memory_offset bf) + unat roff + k)"
  proof (intro allI impI)
    fix k assume k: "k < unat rn"
    have "vs_bytes ?s' m (unat (vb_memory_offset bf) + unat roff + k) = vs_bytes s m (unat (vb_memory_offset bf) + unat roff + k)"
    proof (rule ccontr)
      assume ch: "\<not> ?thesis"
      have len: "\<And>bs. x = TUpdate ?b off bs \<Longrightarrow> length bs < 2 ^ 64" using x(4) by blast
      note t = transfer_inside [OF inv_s x(1) bs len ch]
      show False using t(2,3) clear k geo(2) by auto
    qed
    then show "vs_bytes ?s' m (unat (vb_memory_offset bf) + unat roff + k) = vs_bytes s0 m (unat (vb_memory_offset bf) + unat roff + k)"
      using noted(1) s by simp
  qed
qed

end
