(* ===== verification/Vk_Theorems.thy ===== *)
theory Vk_Theorems
  imports Vk_Roundtrip Vk_Overwrite
begin

text \<open>
  What the client driver promises: dispatches arrive, submitting does what the calls say, transfers stay
  inside their buffers, and noted copies read like made copies as long as nobody writes across them.
\<close>

section \<open>A driver with two buffers\<close>

definition demo_buffer :: "u64 \<Rightarrow> vk_buffer" where
  "demo_buffer off =
     \<lparr>vb_size = 64, vb_req_size = 64, vb_req_alignment = REQUIREMENT_ALIGNMENT, vb_memory = Some 0,
      vb_memory_offset = off, vb_aliases = []\<rparr>"

definition demo_bytes :: "nat \<Rightarrow> nat \<Rightarrow> u8" where
  "demo_bytes m i = (if m = 0 \<and> i < 64 then 7 else 0)"

definition demo_pipeline :: vk_pipeline where
  "demo_pipeline =
     \<lparr>pl_shader = Some 0, pl_layout = None, pl_feature_mask = 0, pl_local_size_x = 1, pl_entry = [], pl_specs = [],
      pl_spec_data = [], pl_too_large = False\<rparr>"

definition demo_driver :: vk_state where
  "demo_driver =
     \<lparr>vs_memories = [0 \<mapsto> \<lparr>vm_size = ALIAS_MIN_SOURCE_BYTES, vm_type = 1, vm_fd = 30\<rparr>], vs_bytes = demo_bytes,
      vs_buffers = [0 \<mapsto> demo_buffer 0, 1 \<mapsto> demo_buffer 64],
      vs_sets = Map.empty, vs_shaders = [0 \<mapsto> \<lparr>sh_size = 8, sh_first_word = 0, sh_fd = 20, sh_code = []\<rparr>],
      vs_layouts = Map.empty, vs_pipelines = [0 \<mapsto> demo_pipeline]\<rparr>"

definition demo_set :: vk_set where
  "demo_set = \<lparr>vd_buffer = Some 0, vd_offset = 16, vd_range = VK_WHOLE_SIZE, vd_type = STORAGE_BUFFER, vd_dynamic = False\<rparr>
     # replicate 15 empty_descriptor"

definition demo_dispatch :: dispatch_op where
  "demo_dispatch =
     \<lparr>op_pipeline = Some 0, op_sets = [Some demo_set], op_x = 4, op_y = 1, op_z = 0,
      op_push = replicate MAX_PUSH_BYTES 0, op_push_size = 0\<rparr>"

lemma demo_driver_inv: "vk_inv demo_driver"
  by (auto simp: vk_inv_def demo_driver_def buffer_ok_def demo_buffer_def REQUIREMENT_ALIGNMENT_def
      ALIAS_MIN_SOURCE_BYTES_def split: if_splits)

lemma map_filter_none: "(\<And>x. x \<in> set xs \<Longrightarrow> f x = None) \<Longrightarrow> List.map_filter f xs = []"
  by (induction xs) (simp_all add: List.map_filter_def)

lemma empty_message: "descriptor_message env s st i empty_descriptor = None"
  by (simp add: descriptor_message_def empty_descriptor_def)

lemma demo_binding:
  "descriptor_message (\<lambda>_. None) demo_driver 0 0 (hd demo_set) =
     Some (30, \<lparr>db_set = 0, db_binding = 0, db_offset = 16, db_size = 48, db_api_offset = 16, db_api_range = VK_WHOLE_SIZE,
       db_api_buffer_size = 64, db_api_type = STORAGE_BUFFER, db_api_dynamic = 0, db_api_memory_offset = 0,
       db_api_memory_size = ALIAS_MIN_SOURCE_BYTES, db_api_memory_id = 0, db_api_buffer_id = 0\<rparr>)"
  by (simp add: descriptor_message_def demo_driver_def demo_buffer_def demo_set_def Let_def
      descriptor_binding_size_def dispatch_source_def copy_alias_enabled_def env_truthy_default_def)

lemma demo_collect: "length (collect_bindings (\<lambda>_. None) demo_driver demo_dispatch) = 1"
proof -
  have "zip [0..<MAX_STORAGE_BUFFERS] demo_set = (0, hd demo_set) # zip [1..<16] (replicate 15 empty_descriptor)"
    by (simp add: demo_set_def MAX_STORAGE_BUFFERS_def upt_conv_Cons del: upt_Suc)
  moreover have "List.map_filter (\<lambda>(i, d). descriptor_message (\<lambda>_. None) demo_driver 0 i d)
      (zip [1..<16] (replicate 15 empty_descriptor)) = []"
    by (rule map_filter_none) (auto simp: empty_message dest!: set_zip_rightD)
  moreover have "zip [0..<MAX_DESCRIPTOR_SETS] (op_sets demo_dispatch) = [(0, Some demo_set)]"
    by (simp add: MAX_DESCRIPTOR_SETS_def demo_dispatch_def upt_conv_Cons del: upt_Suc)
  ultimately show ?thesis
    by (simp add: collect_bindings_def set_messages_def demo_binding List.map_filter_simps)
qed

lemma decimal_length: "n < 10 ^ Suc k \<Longrightarrow> length (decimal n) \<le> Suc k"
proof (induction k arbitrary: n)
  case 0
  then show ?case by (simp add: decimal.simps)
next
  case (Suc k)
  then have "n div 10 < 10 ^ Suc k" by simp
  with Suc.IH [of "n div 10"] show ?case by (subst decimal.simps) simp
qed

lemma word_length [simp]: "length (dec64 w) \<le> 20" "length (dec32 v) \<le> 20"
proof -
  have "unat w < 10 ^ Suc 19" using unat64 [of w] by simp
  then show "length (dec64 w) \<le> 20" using decimal_length [of "unat w" 19] by simp
  have "unat v < 10 ^ Suc 19" using unat32 [of v] by simp
  then show "length (dec32 v) \<le> 20" using decimal_length [of "unat v" 19] by simp
qed

lemma append_pieces_short:
  "length cmd + sum_list (map length ps) < 4096 \<Longrightarrow> append_pieces cmd ps = Inr (cmd @ concat ps)"
  by (induction cmd ps rule: append_pieces.induct) auto

lemma spaced_length: "(\<And>w. w \<in> set ws \<Longrightarrow> length w \<le> 20) \<Longrightarrow> length (spaced ws) \<le> 21 * length ws"
  by (induction ws) (force simp: spaced_def)+

lemma hex_length: "length (hex_encode bs n) \<le> 2 * length bs"
proof -
  have "length (concat (map (\<lambda>b. [hex_char (drop_bit 4 b AND 0xf), hex_char (b AND 0xf)]) xs)) = 2 * length xs" for xs :: "u8 list"
    by (induction xs) simp_all
  then show ?thesis by (simp add: hex_encode_def)
qed

lemma block_length: "2 * length bs \<le> 20 \<Longrightarrow> length (block_word bs cap) \<le> 20"
  using hex_length [of bs "2 * cap + 1"] by (simp add: block_word_def)

lemma demo_header_length: "length (spaced (header_words demo_driver demo_dispatch demo_pipeline sh 1)) \<le> 21 * 11"
proof -
  have e: "op_push_extent demo_driver demo_dispatch = 0"
    by (simp add: op_push_extent_def demo_driver_def demo_dispatch_def demo_pipeline_def)
  have d: "length (decimal 1) \<le> 20" "length (decimal 0) \<le> 20" by (simp_all add: decimal.simps)
  have "\<forall>w \<in> set (header_words demo_driver demo_dispatch demo_pipeline sh 1). length w \<le> 20"
    unfolding header_words_def e using d
    by (simp add: block_length to_bytes_def demo_pipeline_def)
  with spaced_length show ?thesis by (fastforce simp: header_words_def)
qed

lemma binding_length: "length (spaced (binding_words b)) \<le> 21 * 13"
proof -
  have "length (spaced (binding_words b)) \<le> 21 * length (binding_words b)"
    by (rule spaced_length) (auto simp: binding_words_def)
  then show ?thesis by (simp add: binding_words_def)
qed

lemma no_options: "cache_option_words (\<lambda>_. None) = []" "shader_option_words (\<lambda>_. None) = []"
  by (simp_all add: cache_option_words_def shader_option_words_def client_flag_def client_number_def env_number_def
      profile_response_def env_truthy_default_def)

lemma demo_message: "\<exists>fds text1. dispatch_message (\<lambda>_. None) demo_driver demo_dispatch = Inr (fds, text1)"
proof -
  let ?fbs = "collect_bindings (\<lambda>_. None) demo_driver demo_dispatch" and ?sh = "the (vs_shaders demo_driver 0)"
  let ?ps = "dispatch_pieces (\<lambda>_. None) demo_driver demo_dispatch demo_pipeline ?sh (map snd ?fbs)"
  obtain x where x: "?fbs = [x]" using demo_collect by (auto simp: length_Suc_conv)
  have "sum_list (map length ?ps) < 600"
    using demo_header_length [of ?sh] binding_length [of "snd x"] word_length(1) [of 0]
    unfolding dispatch_pieces_def x by (simp add: no_options feature_words_def demo_pipeline_def)
  then have "append_pieces [] ?ps = Inr (concat ?ps)" "length (concat ?ps) < 600"
    by (simp_all add: append_pieces_short length_concat)
  moreover have "op_push_extent demo_driver demo_dispatch = 0"
    by (simp add: op_push_extent_def demo_driver_def demo_dispatch_def demo_pipeline_def)
  ultimately show ?thesis
    using x by (simp add: dispatch_message_def Let_def demo_driver_def demo_dispatch_def demo_pipeline_def MAX_STORAGE_BUFFERS_def
        MAX_PUSH_BYTES_def)
qed

section \<open>The properties\<close>

text \<open>C6. A dispatch arrives as it was meant. Whenever the client driver can write the command of a dispatch,
  the executor that receives the text and the file descriptors reads from it exactly the request the
  client intends: the size of the shader, every binding with its offsets, sizes and identities, the push
  constants, the work groups, the entry point, the specialization data and the options of the environment;
  and the descriptors it takes are the ones that were sent.
\<close>
theorem dispatch_reaches_executor:
  assumes "vk_inv s" "live_sets s d" "length (op_push d) = MAX_PUSH_BYTES"
    and "dispatch_message env s d = Inr (fds, text1)"
    and "op_pipeline d = Some pid" "vs_pipelines s pid = Some p" "pipeline_ok p"
    and "pl_shader p = Some shid" "vs_shaders s shid = Some sh"
    and "recv_command_with_fds text1 fds = (cmd, passed, count)"
  shows "parse_command cmd count = VulkanDispatch (intended_request env s d p sh) \<and> take count passed = fds"
  using message_delivered [OF assms] by simp

theorem dispatch_reaches_executor_witness:
  "\<exists>fds text1. dispatch_message (\<lambda>_. None) demo_driver demo_dispatch = Inr (fds, text1)
     \<and> (case recv_command_with_fds text1 fds of (cmd, passed, count) \<Rightarrow>
          parse_command cmd count =
            VulkanDispatch (intended_request (\<lambda>_. None) demo_driver demo_dispatch demo_pipeline
              \<lparr>sh_size = 8, sh_first_word = 0, sh_fd = 20, sh_code = []\<rparr>)
          \<and> take count passed = fds)"
proof -
  obtain fds text1 where m: "dispatch_message (\<lambda>_. None) demo_driver demo_dispatch = Inr (fds, text1)"
    using demo_message by blast
  obtain cmd passed count where r: "recv_command_with_fds text1 fds = (cmd, passed, count)" by (metis prod_cases3)
  have "live_sets demo_driver demo_dispatch" "length (op_push demo_dispatch) = MAX_PUSH_BYTES"
    "op_pipeline demo_dispatch = Some 0" "vs_pipelines demo_driver 0 = Some demo_pipeline" "pipeline_ok demo_pipeline"
    "pl_shader demo_pipeline = Some 0"
    "vs_shaders demo_driver 0 = Some \<lparr>sh_size = 8, sh_first_word = 0, sh_fd = 20, sh_code = []\<rparr>"
    by (simp_all add: live_sets_def demo_dispatch_def demo_set_def empty_descriptor_def demo_driver_def demo_pipeline_def
        pipeline_ok_def MAX_VULKAN_ENTRY_NAME_def)
  from dispatch_reaches_executor [OF demo_driver_inv this(1,2) m this(3-7) r] m r show ?thesis by auto
qed

text \<open>C7. Submitting a command buffer does what its calls say. As long as the recorded calls fit the tables of
  the command buffer, \<open>vkQueueSubmit\<close> of the recorded buffer has the result and the effect of executing
  every call at once with the pipeline, the descriptor sets and the push constants bound at that moment,
  up to the first failing dispatch; the fence is signalled exactly when nothing failed.
\<close>
theorem submit_replays_calls:
  assumes "record_calls s calls (vkBeginCommandBuffer cmd0) = Some cmd"
    and "room (vkBeginCommandBuffer cmd0) calls" and "\<not> cb_unsupported cmd"
  shows "vkQueueSubmit vector_add gpu env [[Some cmd]] fence s =
    (case run_calls gpu env calls (vkBeginCommandBuffer cmd0) s of
       (r, s') \<Rightarrow> (r, if r = VK_SUCCESS then map_option (\<lambda>_. True) fence else fence, s'))"
proof -
  let ?start = "vkBeginCommandBuffer cmd0"
  have "same_bindings ?start ?start" by (simp add: same_bindings_def)
  from record_calls_replay [OF assms(1,2) same_geometry_refl this]
  obtain new where new: "extends ?start cmd new"
      "run_until (submit_op gpu env cmd) new s = run_calls gpu env calls ?start s" by blast
  have start: "cb_ops ?start = []" "cb_copies ?start = []" "\<not> cb_has_dispatch ?start"
    by (simp_all add: vkBeginCommandBuffer_def clear_recorded_command_ops_def)
  then have ops: "cb_ops cmd = new" using new(1) by (simp add: extends_def)
  have "submit_command vector_add gpu env (Some cmd) s = run_calls gpu env calls ?start s"
  proof (cases "new = []")
    case True
    then have "cb_copies cmd = []" "\<not> cb_has_dispatch cmd" using new(1) start by (auto simp: extends_def)
    then show ?thesis using True new(2) assms(3) by (simp add: submit_command_def ops submit_legacy_def Let_def)
  next
    case False
    then show ?thesis using new(2) assms(3) by (simp add: submit_command_def ops)
  qed
  then show ?thesis by (simp add: vkQueueSubmit_def split: prod.split)
qed

definition demo_cmd :: vk_cmd where
  "demo_cmd =
     \<lparr>cb_pipeline = None, cb_sets = [], cb_copies = [], cb_dispatches = [], cb_ops = [], cb_x = 0, cb_y = 0, cb_z = 0,
      cb_push = [], cb_push_size = 0, cb_has_dispatch = False, cb_unsupported = False\<rparr>"

definition demo_calls :: "vk_call list" where
  "demo_calls = [CallPipeline (Some 0), CallCopy (Some 0) (Some 1) [(0, 0, 16)], CallFill (Some 0) 0 8 9, CallBarrier]"

lemma demo_recorded:
  "\<exists>cmd. record_calls demo_driver demo_calls (vkBeginCommandBuffer demo_cmd) = Some cmd
     \<and> cb_ops cmd = [OpCopy 0, OpFill 0 0 8 9, OpBarrier] \<and> \<not> cb_unsupported cmd"
proof -
  have "is_bound demo_driver (Some 0)" "is_bound demo_driver (Some (Suc 0))"
    by (simp_all add: is_bound_def demo_driver_def demo_buffer_def)
  moreover have "fill_extent demo_driver (Some 0) 0 8 = 8"
    by (simp add: fill_extent_def buffer_available_def demo_driver_def demo_buffer_def ALIAS_MIN_SOURCE_BYTES_def VK_WHOLE_SIZE_def)
  ultimately show ?thesis
    by (simp add: demo_calls_def vkCmdBindPipeline_def vkCmdCopyBuffer_def record_copy_def vkCmdFillBuffer_def
        vkCmdPipelineBarrier_def append_command_op_def vkBeginCommandBuffer_def clear_recorded_command_ops_def
        MAX_COPY_OPS_def MAX_COMMAND_OPS_def)
qed

theorem submit_replays_calls_witness:
  "\<exists>cmd. record_calls demo_driver demo_calls (vkBeginCommandBuffer demo_cmd) = Some cmd
     \<and> cb_ops cmd = [OpCopy 0, OpFill 0 0 8 9, OpBarrier]
     \<and> vkQueueSubmit (\<lambda>_ _ f. (0, f)) (\<lambda>_ f. \<lparr>ga_connect = 3, ga_sendmsg = None, ga_response = [], ga_no_memory = None, ga_bytes = f\<rparr>) (\<lambda>_. None)
           [[Some cmd]] (Some False) demo_driver =
         (case run_calls (\<lambda>_ f. \<lparr>ga_connect = 3, ga_sendmsg = None, ga_response = [], ga_no_memory = None, ga_bytes = f\<rparr>) (\<lambda>_. None) demo_calls
             (vkBeginCommandBuffer demo_cmd) demo_driver of
            (r, s') \<Rightarrow> (r, if r = VK_SUCCESS then Some True else Some False, s'))"
proof -
  obtain cmd where c: "record_calls demo_driver demo_calls (vkBeginCommandBuffer demo_cmd) = Some cmd"
      "cb_ops cmd = [OpCopy 0, OpFill 0 0 8 9, OpBarrier]" "\<not> cb_unsupported cmd"
    using demo_recorded by blast
  have "room (vkBeginCommandBuffer demo_cmd) demo_calls"
    by (simp add: room_def demo_calls_def copies_of_def dispatches_of_def ops_of_def vkBeginCommandBuffer_def
        clear_recorded_command_ops_def MAX_COPY_OPS_def MAX_DISPATCH_OPS_def MAX_COMMAND_OPS_def)
  from submit_replays_calls [OF c(1) this c(3)] c(1,2) show ?thesis by (simp split: prod.split)
qed

text \<open>C9. Transfers stay where they belong. A copy, fill or update keeps the invariant of the driver, and a
  byte it changes lies in the bound memory of its target buffer, inside the range of the operation, which
  lies inside the buffer.
\<close>
theorem transfer_stays_in_buffer:
  assumes "vk_inv s" and "target x = (b, off, n)" and "vs_buffers s b = Some bf"
    and "\<forall>c. x = TCopy c \<longrightarrow> vs_buffers s (co_src c) \<noteq> None" and "\<forall>bs. x = TUpdate b off bs \<longrightarrow> length bs < 2 ^ 64"
  shows "vk_inv (run_transfer env x s)
    \<and> (\<forall>m i. vs_bytes (run_transfer env x s) m i \<noteq> vs_bytes s m i \<longrightarrow>
          vb_memory bf = Some m \<and> unat off + unat n \<le> unat (vb_size bf)
          \<and> i \<in> {unat (vb_memory_offset bf) + unat off ..< unat (vb_memory_offset bf) + unat off + unat n})"
proof -
  have "vk_inv (run_transfer env x s)" using vk_inv_transfer [OF assms(1)] assms(4) by blast
  moreover note transfer_inside [OF assms(1-3), where env = env]
  ultimately show ?thesis using assms(5) by auto
qed

theorem transfer_stays_in_buffer_witness:
  "vk_inv (run_transfer (\<lambda>_. None) (TFill 1 8 16 5) demo_driver)
     \<and> vs_bytes (run_transfer (\<lambda>_. None) (TFill 1 8 16 5) demo_driver) 0 63 = 7
     \<and> vs_bytes (run_transfer (\<lambda>_. None) (TFill 1 8 16 5) demo_driver) 0 88 = 0"
proof -
  have b: "vs_buffers demo_driver 1 = Some (demo_buffer 64)" by (simp add: demo_driver_def)
  have bytes: "vs_bytes demo_driver 0 63 = 7" "vs_bytes demo_driver 0 88 = 0"
    by (simp_all add: demo_driver_def demo_bytes_def)
  have t: "vk_inv (run_transfer (\<lambda>_. None) (TFill 1 8 16 5) demo_driver)
    \<and> (\<forall>m i. vs_bytes (run_transfer (\<lambda>_. None) (TFill 1 8 16 5) demo_driver) m i \<noteq> vs_bytes demo_driver m i \<longrightarrow> i \<in> {72..<88})"
    using transfer_stays_in_buffer [OF demo_driver_inv _ b, of "TFill 1 8 16 5" 8 16 "\<lambda>_. None"]
    by (simp add: demo_buffer_def)
  then have "vs_bytes (run_transfer (\<lambda>_. None) (TFill 1 8 16 5) demo_driver) 0 i = vs_bytes demo_driver 0 i"
    if "i \<notin> {72..<88}" for i
    using that by blast
  from this [of 63] this [of 88] show ?thesis using t bytes by simp
qed

text \<open>C8. Noted copies read like made copies, as long as the transfers are careful. Start without noted copies
  and with buffers that share no byte, and run copies, fills and updates of non-empty ranges inside their
  buffers of which each
  overwrites every noted range as a whole or not at all, copies from a range that lies in one noted range
  or meets none, writes no byte that is the source of a note (unless it becomes a note itself), finds
  fewer than 128 notes when it becomes one, and fills a multiple of four bytes. Then a dispatch whose
  binding lies in one noted range or meets none reads, through the notes, exactly the bytes it would read
  had the environment switched the noting off and every copy been made. Outside these conditions the two
  differ: see the loss of a note below.
\<close>
theorem aliased_copies_read_like_copies:
  assumes "vk_inv s" "separated s" "\<forall>b bf. vs_buffers s b = Some bf \<longrightarrow> vb_aliases bf = []"
    and "copy_alias_enabled env" "\<not> copy_alias_enabled env0" "careful_run env xs s"
    and "vs_buffers (fold (run_transfer env) xs s) b = Some bf" "vb_memory bf = Some m0"
    and "whole_range bf off n" "unat off + unat n \<le> unat (vb_size bf)"
    and "dispatch_source env bf m0 off n = (m, q)"
    and "dispatch_source env0 (the_buffer (fold (run_transfer env0) xs s) b) m0 off n = (m1, q1)" and "k < unat n"
  shows "vs_bytes (fold (run_transfer env) xs s) m (unat q + k) = vs_bytes (fold (run_transfer env0) xs s) m1 (unat q1 + k)"
proof -
  let ?s = "fold (run_transfer env) xs s" and ?t = "fold (run_transfer env0) xs s"
  have "related env s s"
    unfolding related_def eager_view_def shown_def disjoint_aliases_def
    by (intro conjI allI impI) (use assms(1-3) in \<open>auto\<close>)
  from careful_related [OF this assms(6,5)] have rel: "related env ?s ?t" .
  note rp = related_parts [OF rel]
  have src: "(case resolve_copy_alias bf off n of Some p \<Rightarrow> p | None \<Rightarrow> (m0, vb_memory_offset bf + off)) = (m, q)"
    using assms(4,11) by (simp add: dispatch_source_def)
  have "vs_bytes ?s m (unat q + k) = shown ?s bf (unat off + k)"
    by (rule range_shows [OF rp(1) assms(7,8) rp(5) [OF assms(7)] assms(9,10) src assms(13)])
  also have "\<dots> = vs_bytes ?t m0 (unat (vb_memory_offset bf) + (unat off + k))"
    using rp(3) assms(7,8,10,13) by (simp add: eager_view_def)
  finally have lhs: "vs_bytes ?s m (unat q + k) = vs_bytes ?t m0 (unat (vb_memory_offset bf) + unat off + k)"
    by (simp add: add.assoc)
  have "strip (the_buffer ?t b) = strip bf" using geometry_strip [OF rp(4), of b] assms(7) by simp
  from strip_fields [OF this] have "vb_memory_offset (the_buffer ?t b) = vb_memory_offset bf" by simp
  then have q1: "q1 = vb_memory_offset bf + off" "m1 = m0"
    using assms(5,12) unfolding dispatch_source_def by simp_all
  obtain mm where "vs_memories ?s m0 = Some mm"
      "unat (vb_memory_offset bf) + unat (vb_size bf) \<le> unat (vm_size mm)" "unat (vm_size mm) < 2 ^ 63"
    using rp(1) assms(7,8) by (fastforce simp: vk_inv_def buffer_ok_def)
  then have "unat q1 = unat (vb_memory_offset bf) + unat off"
    using q1 assms(10) by (auto intro!: unat_plus)
  then show ?thesis using lhs q1 by simp
qed

definition demo_env :: environment where
  "demo_env v = Some ''1''"

definition demo_copy :: copy_op where
  "demo_copy = \<lparr>co_src = 0, co_dst = 1, co_src_offset = 8, co_dst_offset = 16, co_size = 32\<rparr>"

lemma demo_separated: "separated demo_driver"
  by (auto simp: separated_def demo_driver_def demo_buffer_def split: if_splits)

lemma demo_aliases: "copy_alias_enabled demo_env" "\<not> copy_alias_enabled (\<lambda>_. None)"
  by (simp_all add: copy_alias_enabled_def env_truthy_default_def demo_env_def same_word_def)

lemma demo_ptrs:
  "buffer_ptr demo_driver (Some (Suc 0)) 16 32 = Some (0, 80)" "buffer_ptr demo_driver (Some 0) 8 32 = Some (0, 8)"
  by (simp_all add: buffer_ptr_def buffer_available_def demo_driver_def demo_buffer_def ALIAS_MIN_SOURCE_BYTES_def Let_def)

lemma demo_source: "copy_source demo_driver demo_copy = (0, 8)"
  by (simp add: copy_source_def demo_copy_def demo_driver_def demo_buffer_def resolve_copy_alias_def)

definition noted :: vk_state where
  "noted = map_buffer 1 (add_copy_alias 16 32 0 8) demo_driver"

lemma demo_noted: "run_transfer demo_env (TCopy demo_copy) demo_driver = noted"
  using demo_ptrs demo_source
  by (simp add: execute_recorded_copy_op_def demo_copy_def copy_alias_candidate_def demo_aliases noted_def)
    (simp add: demo_driver_def)

lemma noted_buffer:
  "vs_buffers noted (Suc 0) = Some ((demo_buffer 64)\<lparr>vb_aliases :=
     [\<lparr>ca_valid = True, ca_memory = 0, ca_src_offset = 8, ca_dst_offset = 16, ca_size = 32\<rparr>]\<rparr>)"
  by (simp add: noted_def map_buffer_def demo_driver_def add_copy_alias_def invalidate_copy_aliases_def demo_buffer_def
      MAX_COPY_ALIASES_def)

lemma demo_careful: "careful_run demo_env [TCopy demo_copy] demo_driver"
  using demo_ptrs demo_source
  by (simp add: demo_copy_def Let_def demo_driver_def demo_buffer_def clean_write_def whole_range_def
      invalidate_copy_aliases_def MAX_COPY_ALIASES_def copy_alias_candidate_def demo_aliases)

theorem aliased_copies_read_like_copies_witness:
  "(\<exists>m q m1 q1. dispatch_source demo_env (the_buffer noted 1) 0 20 4 = (m, q)
     \<and> dispatch_source (\<lambda>_. None) (the_buffer (execute_recorded_copy_op (\<lambda>_. None) demo_copy demo_driver) 1) 0 20 4 = (m1, q1)
     \<and> vs_bytes noted m (unat q + 3) =
          vs_bytes (execute_recorded_copy_op (\<lambda>_. None) demo_copy demo_driver) m1 (unat q1 + 3))"
proof -
  obtain m q where r: "dispatch_source demo_env (the_buffer noted 1) 0 20 4 = (m, q)" by fastforce
  obtain m1 q1 where r1:
    "dispatch_source (\<lambda>_. None) (the_buffer (execute_recorded_copy_op (\<lambda>_. None) demo_copy demo_driver) 1) 0 20 4 = (m1, q1)"
    by fastforce
  have none: "\<forall>b bf. vs_buffers demo_driver b = Some bf \<longrightarrow> vb_aliases bf = []"
    by (simp add: demo_driver_def demo_buffer_def)
  have run: "fold (run_transfer demo_env) [TCopy demo_copy] demo_driver = noted" using demo_noted by simp
  have eq: "fold (run_transfer (\<lambda>_. None)) [TCopy demo_copy] demo_driver = execute_recorded_copy_op (\<lambda>_. None) demo_copy demo_driver"
    by simp
  note b = noted_buffer
  show ?thesis
    using aliased_copies_read_like_copies [OF demo_driver_inv demo_separated none demo_aliases demo_careful,
        unfolded run eq, OF b, of 0 20 4 m q m1 q1 3] r r1 b
    by (simp add: demo_buffer_def whole_range_def resolve_copy_alias_def alias_serves_def)
qed

text \<open>C39. Overwriting part of a noted copy loses the rest of it. A copy big enough to be noted stores no byte:
  whatever notes its destination already has, a range inside it is read from the source of the copy. Any later
  fill, update or copy that is carried out over a non-empty range touching the copied range drops the note
  whole. A part of the copied range the write does not reach is then read from the buffer itself, and the bytes
  there are those of the time before the copy: the copy never arrives.
\<close>
theorem partial_overwrite_loses_copy:
  assumes "copy_alias_enabled env" "vk_inv s0" "vs_buffers s0 (co_dst c) = Some bf" "vb_memory bf = Some m"
    and "vs_buffers s0 (co_src c) \<noteq> None"
    and "buffer_ptr s0 (Some (co_dst c)) (co_dst_offset c) (co_size c) \<noteq> None"
      "buffer_ptr s0 (Some (co_src c)) (co_src_offset c) (co_size c) \<noteq> None"
    and "copy_alias_candidate env s0 (fst (copy_source s0 c))"
    and "unat (co_dst_offset c) \<le> unat roff" "unat roff + unat rn \<le> unat (co_dst_offset c) + unat (co_size c)" "rn \<noteq> 0"
    and "s = run_transfer env (TCopy c) s0" "s' = run_transfer env x s"
    and "target x = (co_dst c, off, n)" "n \<noteq> 0" "buffer_ptr s (Some (co_dst c)) off n \<noteq> None"
      "\<forall>c. x = TCopy c \<longrightarrow> buffer_ptr s (Some (co_src c)) (co_src_offset c) n \<noteq> None"
      "\<forall>bs. x = TUpdate (co_dst c) off bs \<longrightarrow> length bs < 2 ^ 64"
    and "unat off < unat (co_dst_offset c) + unat (co_size c)" "unat (co_dst_offset c) < unat off + unat n"
    and "unat roff + unat rn \<le> unat off \<or> unat off + unat n \<le> unat roff"
  shows "dispatch_source env (the_buffer s (co_dst c)) m roff rn =
        (fst (copy_source s0 c), snd (copy_source s0 c) + (roff - co_dst_offset c))
    \<and> dispatch_source env (the_buffer s' (co_dst c)) m roff rn = (m, vb_memory_offset bf + roff)
    \<and> (\<forall>k < unat rn. vs_bytes s' m (unat (vb_memory_offset bf) + unat roff + k)
          = vs_bytes s0 m (unat (vb_memory_offset bf) + unat roff + k))"
  unfolding assms(13)
  using overwritten_note [OF assms(1-12) assms(14) assms(16-18) assms(15) assms(19-21)] by blast

theorem partial_overwrite_loses_copy_witness:
  "vs_bytes noted 0 12 = 7
     \<and> dispatch_source demo_env (the_buffer noted 1) 0 20 4 = (0, 12)
     \<and> dispatch_source demo_env (the_buffer (run_transfer demo_env (TFill 1 40 4 0) noted) 1) 0 20 4 = (0, 84)
     \<and> vs_bytes (run_transfer demo_env (TFill 1 40 4 0) noted) 0 84 = 0"
proof -
  have p: "buffer_ptr noted (Some 1) 40 4 \<noteq> None"
    using noted_buffer
    by (simp add: buffer_ptr_def buffer_available_def demo_buffer_def Let_def)
      (simp add: noted_def map_buffer_def demo_driver_def ALIAS_MIN_SOURCE_BYTES_def)
  have bytes: "vs_bytes noted 0 12 = 7" "vs_bytes demo_driver 0 84 = 0"
    by (simp_all add: noted_def map_buffer_def demo_driver_def demo_bytes_def)
  have b: "vs_buffers demo_driver 0 \<noteq> None" "vs_buffers demo_driver 1 = Some (demo_buffer 64)"
    by (simp_all add: demo_driver_def)
  have cand: "copy_alias_candidate demo_env demo_driver 0"
    by (simp add: copy_alias_candidate_def demo_aliases) (simp add: demo_driver_def)
  have "dispatch_source demo_env (the_buffer noted 1) 0 20 4 = (0, 12)
      \<and> dispatch_source demo_env (the_buffer (run_transfer demo_env (TFill 1 40 4 0) noted) 1) 0 20 4 = (0, 84)
      \<and> (\<forall>k < 4. vs_bytes (run_transfer demo_env (TFill 1 40 4 0) noted) 0 (84 + k) = vs_bytes demo_driver 0 (84 + k))"
    using partial_overwrite_loses_copy [OF demo_aliases(1) demo_driver_inv, of demo_copy "demo_buffer 64" 0 20 4 noted
        "run_transfer demo_env (TFill 1 40 4 0) noted" "TFill 1 40 4 0" 40 4] p b cand demo_ptrs demo_source demo_noted
    by (simp add: demo_copy_def demo_buffer_def)
  then show ?thesis using bytes by (auto dest!: spec [of _ 0])
qed

end
